(* ===== verification/Mass_Prelude.thy ===== *)
theory Mass_Prelude
  imports Complex_Main "HOL-Library.Word" "HOL-Library.AList" "HOL-Library.Product_Lexorder"
    "HOL-Library.List_Lexorder" "HOL-Library.Char_ord"
begin

text \<open>
  Shared vocabulary of the development: the names of the model's basic types, the binding of
  fallible results (Go's \<open>if err != nil return err\<close>), Go maps that are iterated or counted as
  association lists, and the generic list facts the component theories use.

  Numbers. Go's \<open>int\<close>, \<open>int64\<close> and \<open>time.Duration\<close> values are \<open>int\<close> (milliseconds for times);
  where the width matters (the wire format, the attempt counter) the word type is used. A Go
  \<open>float64\<close> is a \<open>rat\<close>: exact arithmetic, without rounding, NaN or infinities.
\<close>

type_synonym byte = "8 word"
type_synonym bytes = "8 word list"
type_synonym message_id = string
type_synonym queue_name = string
type_synonym worker_id = string
type_synonym device_id = string
type_synonym model_id = string
type_synonym request_id = string
type_synonym runtime_name = string
type_synonym time = int
type_synonym seconds = rat

named_theorems go_simps \<open>definitions the component proofs unfold by default\<close>
named_theorems frame_simps \<open>what an operation leaves unchanged\<close>

subsection \<open>Fallible results\<close>

definition bindE :: "'e + 'a \<Rightarrow> ('a \<Rightarrow> 'e + 'b) \<Rightarrow> 'e + 'b" where
  "bindE x f = (case x of Inl e \<Rightarrow> Inl e | Inr v \<Rightarrow> f v)"

lemma bindE_simps [simp]: "bindE (Inl e) f = Inl e" "bindE (Inr v) f = f v"
  by (simp_all add: bindE_def)

text \<open>Go's integer division truncates toward zero.\<close>

definition go_div :: "int \<Rightarrow> int \<Rightarrow> int" where
  "go_div a b = sgn a * sgn b * (\<bar>a\<bar> div \<bar>b\<bar>)"

lemma go_div_pos: "0 \<le> a \<Longrightarrow> 0 < b \<Longrightarrow> go_div a b = a div b"
  by (cases "a = 0") (simp_all add: go_div_def)

lemma go_div_nonpos: "a \<le> 0 \<Longrightarrow> 0 < b \<Longrightarrow> go_div a b \<le> 0"
  by (cases "a = 0") (simp_all add: go_div_def pos_imp_zdiv_nonneg_iff)

lemma bindE_eq_Inr: "bindE x f = Inr y \<longleftrightarrow> (\<exists>v. x = Inr v \<and> f v = Inr y)"
  by (cases x) auto

subsection \<open>Strings as byte sequences\<close>

definition bytes_of_string :: "string \<Rightarrow> bytes" where
  "bytes_of_string s = map (\<lambda>c. word_of_nat (of_char c)) s"

definition string_of_bytes :: "bytes \<Rightarrow> string" where
  "string_of_bytes bs = map (\<lambda>b. char_of (unat b)) bs"

lemma length_bytes_of_string [simp]: "length (bytes_of_string s) = length s"
  by (simp add: bytes_of_string_def)

lemma unat_byte_of_char: "unat (word_of_nat (of_char c) :: byte) = of_char c"
proof -
  have "(of_char c :: nat) < 2 ^ 8"
    using nat_of_char_less_256 [of c] by simp
  then show ?thesis by (simp add: unat_of_nat take_bit_nat_eq_self)
qed

lemma string_of_bytes_of_string [simp]: "string_of_bytes (bytes_of_string s) = s"
  by (simp add: string_of_bytes_def bytes_of_string_def o_def unat_byte_of_char)

subsection \<open>Go maps that are iterated, as association lists\<close>

text \<open>Keys occur once; the order of the list is the (arbitrary) iteration order of the map.\<close>

abbreviation keys :: "('k \<times> 'v) list \<Rightarrow> 'k list" where
  "keys m \<equiv> map fst m"

lemma map_of_AList_update [simp]: "map_of (AList.update k v m) = (map_of m)(k \<mapsto> v)"
  by (rule update_conv')

lemma map_of_AList_delete [simp]: "map_of (AList.delete k m) = (map_of m)(k := None)"
  by (rule delete_conv')

lemma AList_update_fresh: "k \<notin> set (keys m) \<Longrightarrow> AList.update k v m = m @ [(k, v)]"
  by (induction m) auto

lemma in_AList_update:
  assumes "distinct (keys m)"
  shows "p \<in> set (AList.update k v m) \<longleftrightarrow> (if fst p = k then p = (k, v) else p \<in> set m)"
  using assms by (induction m) (auto simp: rev_image_eqI)

lemma sum_list_map_zero: "(\<And>x. x \<in> set xs \<Longrightarrow> f x = 0) \<Longrightarrow> sum_list (map f xs) = 0"
  by (induction xs) auto

lemma sum_list_AList_update:
  fixes f :: "'k \<times> 'v \<Rightarrow> 'a::comm_monoid_add"
  assumes "map_of m k = Some v" "f (k, v') = f (k, v)" "distinct (keys m)"
  shows "sum_list (map f (AList.update k v' m)) = sum_list (map f m)"
  using assms by (induction m) (auto split: if_splits)

lemma sum_list_AList_delete:
  fixes f :: "'k \<times> 'v \<Rightarrow> 'a::comm_monoid_add"
  assumes "map_of m k = Some v" "distinct (keys m)"
  shows "sum_list (map f m) = f (k, v) + sum_list (map f (AList.delete k m))"
  using assms
proof (induction m)
  case (Cons p m)
  show ?case
  proof (cases "fst p = k")
    case True
    then have "AList.delete k m = m"
      using Cons.prems by (auto intro!: delete_idem)
    with True Cons.prems show ?thesis by (cases p) auto
  next
    case False
    with Cons show ?thesis by (cases p) (auto simp: ac_simps)
  qed
qed simp

lemma set_AList_delete: "set (AList.delete k m) = {p \<in> set m. fst p \<noteq> k}"
  by (auto simp: AList.delete_eq)

subsection \<open>Updating the rows of a table\<close>

text \<open>SQL \<open>UPDATE ... WHERE c\<close>: every row that satisfies \<open>c\<close> is rewritten in place.\<close>

definition update_where :: "('r \<Rightarrow> bool) \<Rightarrow> ('r \<Rightarrow> 'r) \<Rightarrow> 'r list \<Rightarrow> 'r list" where
  "update_where c u rs = map (\<lambda>r. if c r then u r else r) rs"

lemma update_where_Nil [simp]: "update_where c u [] = []"
  by (simp add: update_where_def)

lemma update_where_Cons [simp]:
  "update_where c u (r # rs) = (if c r then u r else r) # update_where c u rs"
  by (simp add: update_where_def)

lemma length_update_where [simp]: "length (update_where c u rs) = length rs"
  by (simp add: update_where_def)

lemma set_update_where:
  "set (update_where c u rs) = {r \<in> set rs. \<not> c r} \<union> u ` {r \<in> set rs. c r}"
  by (auto simp: update_where_def)

lemma map_update_where:
  assumes "\<And>r. f (u r) = f r"
  shows "map f (update_where c u rs) = map f rs"
  using assms by (induction rs) auto

lemma update_where_none:
  assumes "\<And>r. r \<in> set rs \<Longrightarrow> \<not> c r"
  shows "update_where c u rs = rs"
  using assms by (induction rs) auto

lemma distinct_map_inj:
  "distinct (map f xs) \<Longrightarrow> x \<in> set xs \<Longrightarrow> y \<in> set xs \<Longrightarrow> f x = f y \<Longrightarrow> x = y"
  by (auto simp: distinct_map inj_on_def)

lemma sum_list_map_filter_split:
  "sum_list (map f xs) =
     sum_list (map f (filter P xs)) + (sum_list (map f (filter (\<lambda>x. \<not> P x) xs)) :: 'a::ab_group_add)"
  by (induction xs) (auto simp: algebra_simps)

lemma sum_list_nonneg_member:
  fixes xs :: "int list"
  shows "x \<in> set xs \<Longrightarrow> (\<And>y. y \<in> set xs \<Longrightarrow> 0 \<le> y) \<Longrightarrow> x \<le> sum_list xs"
proof (induction xs)
  case (Cons a xs)
  then have "0 \<le> sum_list xs" by (intro sum_list_nonneg) auto
  with Cons show ?case by fastforce
qed simp

lemma sum_list_nonneg_filter_le:
  fixes f :: "'x \<Rightarrow> 'a::{ordered_ab_group_add}"
  assumes "\<And>x. x \<in> set xs \<Longrightarrow> 0 \<le> f x"
  shows "0 \<le> sum_list (map f xs)"
  using assms by (induction xs) (auto intro: add_nonneg_nonneg)

end
