(* ===== verification/Envelope.thy ===== *)
theory Envelope
  imports Mass_Prelude
begin

text \<open>
  The job envelope of \<open>internal/queue/queue.go\<close> and its wire format
  (\<open>Envelope.Marshal\<close>, \<open>UnmarshalEnvelope\<close> and their length-prefix helpers).

  The record is polymorphic in the float type: on the wire the two \<open>float64\<close> fields are the
  64-bit patterns \<open>math.Float64bits\<close> yields (\<open>64 word\<close>), in the scheduler they are \<open>rat\<close>.
  The protobuf blob of the load artifacts is produced by the generated package, which is not
  part of the repository: its two functions are the parameters \<open>pm\<close> and \<open>pu\<close>.
\<close>

datatype model_file_role = MODEL_FILE_ROLE_PRIMARY | OTHER_ROLE int

text \<open>The fields of the generated \<open>workerpb.ModelFile\<close> the sources read; \<open>None\<close> is a nil pointer.\<close>

record model_file =
  mf_filename :: string
  mf_url :: string
  mf_size_bytes :: int
  mf_role :: model_file_role

record 'f envelope =
  env_priority :: int
  env_attempts :: "8 word"
  env_cost :: 'f
  env_queued_seconds :: 'f
  env_runtime_name :: string
  env_model_id :: string
  env_source :: string
  env_request_id :: string
  env_global_msg_id :: string
  env_files :: "model_file option list"
  env_load_hints :: bytes
  env_payload :: bytes
  env_headroom_pct :: "32 word"

definition PriorityLow :: int where "PriorityLow = 0"
definition PriorityMedium :: int where "PriorityMedium = 1"
definition PriorityHigh :: int where "PriorityHigh = 2"
definition PriorityCritical :: int where "PriorityCritical = 3"

subsection \<open>Little-endian integers\<close>

primrec le_bytes :: "nat \<Rightarrow> nat \<Rightarrow> bytes" where
  "le_bytes 0 k = []"
| "le_bytes (Suc n) k = word_of_nat (k mod 256) # le_bytes n (k div 256)"

primrec le_nat :: "bytes \<Rightarrow> nat" where
  "le_nat [] = 0"
| "le_nat (b # bs) = unat b + 256 * le_nat bs"

lemma length_le_bytes [simp]: "length (le_bytes n k) = n"
  by (induction n arbitrary: k) auto

lemma le_nat_le_bytes: "le_nat (le_bytes n k) = k mod 256 ^ n"
proof (induction n arbitrary: k)
  case 0
  then show ?case by simp
next
  case (Suc n)
  have "unat (word_of_nat (k mod 256) :: byte) = k mod 256"
    by (simp add: unat_of_nat take_bit_eq_mod)
  with Suc show ?case by (simp add: mod_mult2_eq [of k 256 "256 ^ n"])
qed

lemma le_nat_le_bytes_word:
  fixes w :: "'a::len word"
  assumes "256 ^ n = (2::nat) ^ LENGTH('a)"
  shows "word_of_nat (le_nat (le_bytes n (unat w))) = w"
proof -
  have "unat w < 2 ^ LENGTH('a)" by (rule unsigned_less)
  with assms have "unat w < 256 ^ n" by simp
  then show ?thesis by (simp add: le_nat_le_bytes)
qed

subsection \<open>Marshal\<close>

text \<open>Go's \<open>copy(buf[off:], bs)\<close>: as many bytes as the rest of the buffer holds.\<close>

definition go_copy :: "bytes \<Rightarrow> nat \<Rightarrow> bytes \<Rightarrow> bytes" where
  "go_copy buf off bs =
     (let n = min (length bs) (length buf - off)
      in take off buf @ take n bs @ drop (off + n) buf)"

definition envelopeHeaderBytes :: nat where
  "envelopeHeaderBytes = 1 + 1 + 8 + 8 + 4"

datatype marshal_panic = Oversize string nat | ProtoMarshalFailed

definition fit255 :: "string \<Rightarrow> string \<Rightarrow> marshal_panic + string" where
  "fit255 field s = (if length s > 255 then Inl (Oversize field (length s)) else Inr s)"

definition writeLenPrefixed :: "bytes \<Rightarrow> nat \<Rightarrow> string \<Rightarrow> bytes \<times> nat" where
  "writeLenPrefixed buf off s =
     (go_copy (go_copy buf off [word_of_nat (length s)]) (off + 1) (bytes_of_string s),
      off + 1 + length s)"

definition writeLenPrefixedU32 :: "bytes \<Rightarrow> nat \<Rightarrow> bytes \<Rightarrow> bytes \<times> nat" where
  "writeLenPrefixedU32 buf off b =
     (go_copy (go_copy buf off (le_bytes 4 (length b))) (off + 4) b, off + 4 + length b)"

definition marshalLoadArtifacts ::
  "(model_file option list \<Rightarrow> bytes \<Rightarrow> bytes option) \<Rightarrow> model_file option list \<Rightarrow> bytes
   \<Rightarrow> marshal_panic + bytes" where
  "marshalLoadArtifacts pm files hints =
     (if length files = 0 \<and> length hints = 0 then Inr []
      else case pm files hints of None \<Rightarrow> Inl ProtoMarshalFailed | Some blob \<Rightarrow> Inr blob)"

definition Marshal ::
  "(model_file option list \<Rightarrow> bytes \<Rightarrow> bytes option) \<Rightarrow> 64 word envelope \<Rightarrow> marshal_panic + bytes" where
  "Marshal pm e =
     bindE (fit255 ''runtime_name'' (env_runtime_name e)) (\<lambda>rk.
     bindE (fit255 ''model_id'' (env_model_id e)) (\<lambda>mid.
     bindE (fit255 ''source'' (env_source e)) (\<lambda>src.
     bindE (fit255 ''request_id'' (env_request_id e)) (\<lambda>rid.
     bindE (fit255 ''global_msg_id'' (env_global_msg_id e)) (\<lambda>gmid.
     bindE (marshalLoadArtifacts pm (env_files e) (env_load_hints e)) (\<lambda>loadBlob.
       let buf = replicate (envelopeHeaderBytes + 5 + length rk + length mid + length src
                   + length rid + length gmid + 4 + length loadBlob + length (env_payload e)) 0;
           buf = buf[0 := word_of_int (env_priority e)];
           buf = buf[1 := env_attempts e];
           buf = go_copy buf 2 (le_bytes 8 (unat (env_cost e)));
           buf = go_copy buf 10 (le_bytes 8 (unat (env_queued_seconds e)));
           buf = go_copy buf 18 (le_bytes 4 (unat (env_headroom_pct e)));
           off = envelopeHeaderBytes;
           (buf, off) = writeLenPrefixed buf off rk;
           (buf, off) = writeLenPrefixed buf off mid;
           (buf, off) = writeLenPrefixed buf off src;
           (buf, off) = writeLenPrefixed buf off rid;
           (buf, off) = writeLenPrefixed buf off gmid;
           (buf, off) = writeLenPrefixedU32 buf off loadBlob
       in Inr (go_copy buf off (env_payload e))))))))"

subsection \<open>UnmarshalEnvelope\<close>

datatype wire_error =
    HeaderTooShort
  | LengthTooShort string
  | BodyTooShort string nat
  | BadLoadArtifacts

definition readLenPrefixed :: "bytes \<Rightarrow> nat \<Rightarrow> string \<Rightarrow> wire_error + (string \<times> nat)" where
  "readLenPrefixed data off field =
     (if length data < off + 1 then Inl (LengthTooShort field)
      else let n = unat (data ! off)
           in if length data < off + 1 + n then Inl (BodyTooShort field n)
              else Inr (string_of_bytes (take n (drop (off + 1) data)), off + 1 + n))"

definition readLenPrefixedU32 :: "bytes \<Rightarrow> nat \<Rightarrow> string \<Rightarrow> wire_error + (bytes \<times> nat)" where
  "readLenPrefixedU32 data off field =
     (if length data < off + 4 then Inl (LengthTooShort field)
      else let n = le_nat (take 4 (drop off data))
           in if length data < off + 4 + n then Inl (BodyTooShort field n)
              else Inr (take n (drop (off + 4) data), off + 4 + n))"

definition unmarshalLoadArtifacts ::
  "(bytes \<Rightarrow> (model_file option list \<times> bytes) option) \<Rightarrow> bytes
   \<Rightarrow> wire_error + (model_file option list \<times> bytes)" where
  "unmarshalLoadArtifacts pu blob =
     (if length blob = 0 then Inr ([], [])
      else case pu blob of None \<Rightarrow> Inl BadLoadArtifacts | Some m \<Rightarrow> Inr m)"

definition UnmarshalEnvelope ::
  "(bytes \<Rightarrow> (model_file option list \<times> bytes) option) \<Rightarrow> bytes
   \<Rightarrow> wire_error + 64 word envelope" where
  "UnmarshalEnvelope pu data =
     (if length data < envelopeHeaderBytes then Inl HeaderTooShort
      else
        let off = envelopeHeaderBytes in
        bindE (readLenPrefixed data off ''runtime_name'') (\<lambda>(rn, off).
        bindE (readLenPrefixed data off ''model_id'') (\<lambda>(mid, off).
        bindE (readLenPrefixed data off ''source'') (\<lambda>(src, off).
        bindE (readLenPrefixed data off ''request_id'') (\<lambda>(rid, off).
        bindE (readLenPrefixed data off ''global_msg_id'') (\<lambda>(gmid, off).
        bindE (readLenPrefixedU32 data off ''load_artifacts'') (\<lambda>(loadBlob, off).
        bindE (unmarshalLoadArtifacts pu loadBlob) (\<lambda>(files, hints).
          Inr \<lparr> env_priority = int (unat (data ! 0)),
                env_attempts = data ! 1,
                env_cost = word_of_nat (le_nat (take 8 (drop 2 data))),
                env_queued_seconds = word_of_nat (le_nat (take 8 (drop 10 data))),
                env_runtime_name = rn, env_model_id = mid, env_source = src,
                env_request_id = rid, env_global_msg_id = gmid,
                env_files = files, env_load_hints = hints,
                env_payload = drop off data,
                env_headroom_pct = word_of_nat (le_nat (take 4 (drop 18 data))) \<rparr>))))))))"

subsection \<open>The layout of the wire format\<close>

text \<open>The format the comment above \<open>Envelope\<close> documents, section by section.\<close>

definition section8 :: "string \<Rightarrow> bytes" where
  "section8 s = word_of_nat (length s) # bytes_of_string s"

definition section32 :: "bytes \<Rightarrow> bytes" where
  "section32 b = le_bytes 4 (length b) @ b"

definition wire_header :: "64 word envelope \<Rightarrow> bytes" where
  "wire_header e = [word_of_int (env_priority e), env_attempts e]
     @ le_bytes 8 (unat (env_cost e)) @ le_bytes 8 (unat (env_queued_seconds e))
     @ le_bytes 4 (unat (env_headroom_pct e))"

definition wire_layout :: "64 word envelope \<Rightarrow> bytes \<Rightarrow> bytes" where
  "wire_layout e blob = wire_header e
     @ section8 (env_runtime_name e) @ section8 (env_model_id e) @ section8 (env_source e)
     @ section8 (env_request_id e) @ section8 (env_global_msg_id e)
     @ section32 blob @ env_payload e"

definition wire_fits :: "'f envelope \<Rightarrow> bool" where
  "wire_fits e \<longleftrightarrow> length (env_runtime_name e) \<le> 255 \<and> length (env_model_id e) \<le> 255
     \<and> length (env_source e) \<le> 255 \<and> length (env_request_id e) \<le> 255
     \<and> length (env_global_msg_id e) \<le> 255"

lemma go_copy_at_end:
  assumes "length bs \<le> n" "k = length pre"
  shows "go_copy (pre @ replicate n x) k bs = (pre @ bs) @ replicate (n - length bs) x"
  using assms by (simp add: go_copy_def Let_def)

lemma length_section8 [simp]: "length (section8 s) = Suc (length s)"
  by (simp add: section8_def)

lemma length_section32 [simp]: "length (section32 b) = 4 + length b"
  by (simp add: section32_def)

lemma length_wire_header [simp]: "length (wire_header e) = envelopeHeaderBytes"
  by (simp add: wire_header_def envelopeHeaderBytes_def)

lemma writeLenPrefixed_at_end:
  assumes "Suc (length s) \<le> n" "k = length pre"
  shows "writeLenPrefixed (pre @ replicate n 0) k s
       = ((pre @ section8 s) @ replicate (n - Suc (length s)) 0, k + Suc (length s))"
  using assms
  by (simp add: writeLenPrefixed_def section8_def go_copy_at_end [of "[word_of_nat (length s)]"]
      go_copy_at_end [of "bytes_of_string s" _ _ "pre @ [word_of_nat (length s)]", simplified])

lemma writeLenPrefixedU32_at_end:
  assumes "4 + length b \<le> n" "k = length pre"
  shows "writeLenPrefixedU32 (pre @ replicate n 0) k b
       = ((pre @ section32 b) @ replicate (n - (4 + length b)) 0, k + (4 + length b))"
  using assms
  by (simp add: writeLenPrefixedU32_def section32_def go_copy_at_end [of "le_bytes 4 (length b)"]
      go_copy_at_end [of b _ _ "pre @ le_bytes 4 (length b)", simplified])

lemma header_written:
  assumes "n = envelopeHeaderBytes + m"
  shows "go_copy (go_copy (go_copy (((replicate n 0) [0 := word_of_int (env_priority e)])
             [Suc 0 := env_attempts e]) 2 (le_bytes 8 (unat (env_cost e))))
           10 (le_bytes 8 (unat (env_queued_seconds e))))
         18 (le_bytes 4 (unat (env_headroom_pct e)))
       = wire_header e @ replicate m 0"
proof -
  have n: "n = Suc (Suc (20 + m))" using assms by (simp add: envelopeHeaderBytes_def)
  have 1: "((replicate n 0) [0 := word_of_int (env_priority e)]) [Suc 0 := env_attempts e]
     = [word_of_int (env_priority e), env_attempts e] @ replicate (20 + m) 0"
    unfolding n by (simp only: replicate.simps list_update_code One_nat_def append.simps)
  show ?thesis
    unfolding 1
    by (simp add: go_copy_at_end wire_header_def add.commute del: append_assoc append.simps)
qed

lemma Marshal_eq_layout:
  assumes "wire_fits e" "marshalLoadArtifacts pm (env_files e) (env_load_hints e) = Inr blob"
  shows "Marshal pm e = Inr (wire_layout e blob)"
proof -
  have "Marshal pm e = Inr (((((((wire_header e @ section8 (env_runtime_name e))
     @ section8 (env_model_id e)) @ section8 (env_source e)) @ section8 (env_request_id e))
     @ section8 (env_global_msg_id e)) @ section32 blob) @ env_payload e)"
    using assms
    by (simp add: Marshal_def fit255_def wire_fits_def header_written [OF refl] Let_def
        writeLenPrefixed_at_end writeLenPrefixedU32_at_end go_copy_at_end add.assoc
        del: append_assoc)
  then show ?thesis by (simp add: wire_layout_def)
qed

lemma Marshal_panics:
  assumes "\<not> wire_fits e"
  shows "\<exists>f n. Marshal pm e = Inl (Oversize f n) \<and> 255 < n"
  using assms by (auto simp: Marshal_def wire_fits_def fit255_def)

subsection \<open>Reading the layout back\<close>

lemma nth_take_drop_prefix: "k = length pre \<Longrightarrow> (pre @ x # rest) ! k = x"
  by simp

lemma readLenPrefixed_section:
  assumes "length s \<le> 255" "k = length pre"
  shows "readLenPrefixed (pre @ section8 s @ rest) k f = Inr (s, k + Suc (length s))"
proof -
  have "unat (word_of_nat (length s) :: byte) = length s"
    using assms by (simp add: unat_of_nat take_bit_nat_eq_self)
  with assms show ?thesis
    by (simp add: readLenPrefixed_def section8_def Let_def)
qed

lemma readLenPrefixedU32_section:
  assumes "length b < 2 ^ 32" "k = length pre"
  shows "readLenPrefixedU32 (pre @ section32 b @ rest) k f = Inr (b, k + (4 + length b))"
  using assms
  by (simp add: readLenPrefixedU32_def section32_def Let_def le_nat_le_bytes)

lemma readLenPrefixed_take:
  assumes "readLenPrefixed (take n d) off f = Inr (s, off')"
  shows "readLenPrefixed d off f = Inr (s, off') \<and> off' \<le> n"
  using assms
  by (auto simp: readLenPrefixed_def Let_def split: if_splits)
    (auto simp: drop_take min_def split: if_splits)

lemma readLenPrefixedU32_take:
  assumes "readLenPrefixedU32 (take n d) off f = Inr (s, off')"
  shows "readLenPrefixedU32 d off f = Inr (s, off') \<and> off' \<le> n"
  using assms
  by (auto simp: readLenPrefixedU32_def Let_def drop_take min_def split: if_splits)

text \<open>Reading all the length-prefixed sections: the values and the payload's offset.\<close>

definition read_sections where
  "read_sections data =
     bindE (readLenPrefixed data envelopeHeaderBytes ''runtime_name'') (\<lambda>(rn, off).
     bindE (readLenPrefixed data off ''model_id'') (\<lambda>(mid, off).
     bindE (readLenPrefixed data off ''source'') (\<lambda>(src, off).
     bindE (readLenPrefixed data off ''request_id'') (\<lambda>(rid, off).
     bindE (readLenPrefixed data off ''global_msg_id'') (\<lambda>(gmid, off).
     bindE (readLenPrefixedU32 data off ''load_artifacts'') (\<lambda>(loadBlob, off).
       Inr (rn, mid, src, rid, gmid, loadBlob, off)))))))"

lemma UnmarshalEnvelope_sections:
  "UnmarshalEnvelope pu data =
     (if length data < envelopeHeaderBytes then Inl HeaderTooShort
      else bindE (read_sections data) (\<lambda>(rn, mid, src, rid, gmid, loadBlob, off).
        bindE (unmarshalLoadArtifacts pu loadBlob) (\<lambda>(files, hints).
          Inr \<lparr> env_priority = int (unat (data ! 0)),
                env_attempts = data ! 1,
                env_cost = word_of_nat (le_nat (take 8 (drop 2 data))),
                env_queued_seconds = word_of_nat (le_nat (take 8 (drop 10 data))),
                env_runtime_name = rn, env_model_id = mid, env_source = src,
                env_request_id = rid, env_global_msg_id = gmid,
                env_files = files, env_load_hints = hints,
                env_payload = drop off data,
                env_headroom_pct = word_of_nat (le_nat (take 4 (drop 18 data))) \<rparr>)))"
  by (simp add: UnmarshalEnvelope_def read_sections_def Let_def bindE_def
      split: sum.split prod.split)

lemma read_sections_take:
  assumes "read_sections (take n d) = Inr (rn, mid, src, rid, gmid, blob, off)"
  shows "read_sections d = Inr (rn, mid, src, rid, gmid, blob, off) \<and> off \<le> n"
  using assms unfolding read_sections_def
  by (auto simp: bindE_eq_Inr dest!: readLenPrefixed_take readLenPrefixedU32_take)

definition wire_prefix_length :: "64 word envelope \<Rightarrow> bytes \<Rightarrow> nat" where
  "wire_prefix_length e blob = length (wire_layout e blob) - length (env_payload e)"

lemma read_sections_layout:
  assumes "wire_fits e" "length blob < 2 ^ 32"
  shows "read_sections (wire_layout e blob) =
     Inr (env_runtime_name e, env_model_id e, env_source e, env_request_id e,
          env_global_msg_id e, blob, wire_prefix_length e blob)"
proof -
  note r = readLenPrefixed_section
  let ?h = "wire_header e"
  let ?a = "section8 (env_runtime_name e)"
  let ?b = "section8 (env_model_id e)"
  let ?c = "section8 (env_source e)"
  let ?d = "section8 (env_request_id e)"
  let ?g = "section8 (env_global_msg_id e)"
  show ?thesis
    using assms
      r [of "env_runtime_name e" envelopeHeaderBytes ?h]
      r [of "env_model_id e" "length (?h @ ?a)" "?h @ ?a"]
      r [of "env_source e" "length (?h @ ?a @ ?b)" "?h @ ?a @ ?b"]
      r [of "env_request_id e" "length (?h @ ?a @ ?b @ ?c)" "?h @ ?a @ ?b @ ?c"]
      r [of "env_global_msg_id e" "length (?h @ ?a @ ?b @ ?c @ ?d)" "?h @ ?a @ ?b @ ?c @ ?d"]
      readLenPrefixedU32_section [of blob "length (?h @ ?a @ ?b @ ?c @ ?d @ ?g)"
        "?h @ ?a @ ?b @ ?c @ ?d @ ?g"]
    by (simp add: read_sections_def wire_layout_def wire_fits_def wire_prefix_length_def
        add.assoc)
qed

lemma drop_wire_prefix: "drop (wire_prefix_length e blob) (wire_layout e blob) = env_payload e"
proof -
  have "wire_layout e blob = take (wire_prefix_length e blob) (wire_layout e blob) @ env_payload e"
    by (simp add: wire_layout_def wire_prefix_length_def)
  then show ?thesis
    by (metis (no_types, lifting) append_eq_append_conv append_take_drop_id length_append
        same_append_eq)
qed

lemma header_fields:
  fixes e :: "64 word envelope"
  assumes "0 \<le> env_priority e" "env_priority e \<le> 255"
    and w: "w = wire_layout e blob"
  shows "int (unat (w ! 0)) = env_priority e" "w ! Suc 0 = env_attempts e"
    "word_of_nat (le_nat (take 8 (drop 2 w))) = env_cost e"
    "word_of_nat (le_nat (take 8 (drop 10 w))) = env_queued_seconds e"
    "word_of_nat (le_nat (take 4 (drop 18 w))) = env_headroom_pct e"
  using assms
  by (simp_all add: w wire_layout_def wire_header_def le_nat_le_bytes_word uint_word_of_int
      take_bit_int_eq_self)

text \<open>What the generated protobuf code promises for one pair of load artifacts.\<close>

definition proto_ok ::
  "(model_file option list \<Rightarrow> bytes \<Rightarrow> bytes option) \<Rightarrow>
   (bytes \<Rightarrow> (model_file option list \<times> bytes) option) \<Rightarrow> model_file option list \<Rightarrow> bytes \<Rightarrow> bool" where
  "proto_ok pm pu files hints \<longleftrightarrow> files = [] \<and> hints = [] \<or>
     (case pm files hints of None \<Rightarrow> False
      | Some blob \<Rightarrow> blob \<noteq> [] \<and> length blob < 2 ^ 32 \<and> pu blob = Some (files, hints))"

lemma load_artifacts_roundtrip:
  assumes "proto_ok pm pu files hints"
  shows "\<exists>blob. marshalLoadArtifacts pm files hints = Inr blob
    \<and> unmarshalLoadArtifacts pu blob = Inr (files, hints) \<and> length blob < 2 ^ 32"
proof (cases "files = [] \<and> hints = []")
  case True
  then show ?thesis by (simp add: marshalLoadArtifacts_def unmarshalLoadArtifacts_def)
next
  case False
  with assms obtain blob where "pm files hints = Some blob" "blob \<noteq> []" "length blob < 2 ^ 32"
    "pu blob = Some (files, hints)"
    by (auto simp: proto_ok_def split: option.splits)
  with False have "marshalLoadArtifacts pm files hints = Inr blob
    \<and> unmarshalLoadArtifacts pu blob = Inr (files, hints) \<and> length blob < 2 ^ 32"
    by (auto simp: marshalLoadArtifacts_def unmarshalLoadArtifacts_def)
  then show ?thesis by blast
qed

text \<open>C38. Every envelope whose identity fields fit the one-byte lengths and whose priority is a
  byte survives the wire: \<open>Marshal\<close> writes exactly the documented layout,
  \<open>UnmarshalEnvelope\<close> of it is the same envelope, and every proper prefix that ends before the
  payload is rejected with an error instead of being misread.\<close>

theorem envelope_roundtrip:
  assumes "wire_fits e" "0 \<le> env_priority e" "env_priority e \<le> 255"
    and "proto_ok pm pu (env_files e) (env_load_hints e)"
  shows "\<exists>blob. marshalLoadArtifacts pm (env_files e) (env_load_hints e) = Inr blob
    \<and> Marshal pm e = Inr (wire_layout e blob)
    \<and> UnmarshalEnvelope pu (wire_layout e blob) = Inr e
    \<and> (\<forall>n < wire_prefix_length e blob.
         \<exists>err. UnmarshalEnvelope pu (take n (wire_layout e blob)) = Inl err)"
proof -
  obtain blob where
    b: "marshalLoadArtifacts pm (env_files e) (env_load_hints e) = Inr blob"
      "unmarshalLoadArtifacts pu blob = Inr (env_files e, env_load_hints e)"
      "length blob < 2 ^ 32"
    using load_artifacts_roundtrip [OF assms(4)] by blast
  note rs = read_sections_layout [OF assms(1) b(3)]
  have long: "\<not> length (wire_layout e blob) < envelopeHeaderBytes"
    by (simp add: wire_layout_def)
  have "UnmarshalEnvelope pu (wire_layout e blob) = Inr e"
    using header_fields [OF assms(2,3) refl, of blob] long
    by (simp add: UnmarshalEnvelope_sections rs b drop_wire_prefix)
  moreover have "\<exists>err. UnmarshalEnvelope pu (take n (wire_layout e blob)) = Inl err"
    if "n < wire_prefix_length e blob" for n
  proof (cases "read_sections (take n (wire_layout e blob))")
    case (Inr r)
    with read_sections_take [of n "wire_layout e blob"] rs that show ?thesis
      by (cases r) fastforce
  qed (simp add: UnmarshalEnvelope_sections)
  ultimately show ?thesis using b Marshal_eq_layout [OF assms(1) b(1)] by blast
qed

definition sample_envelope :: "64 word envelope" where
  "sample_envelope = \<lparr> env_priority = 2, env_attempts = 1, env_cost = 4607182418800017408,
     env_queued_seconds = 0, env_runtime_name = ''llama-cpp'', env_model_id = ''m1'',
     env_source = ''direct'', env_request_id = ''r1'', env_global_msg_id = ''g1'',
     env_files = [None], env_load_hints = [7], env_payload = [1, 2, 3], env_headroom_pct = 90 \<rparr>"

theorem envelope_roundtrip_witness:
  "\<exists>bs. Marshal (\<lambda>f h. Some (9 # h)) sample_envelope = Inr bs
     \<and> UnmarshalEnvelope (\<lambda>b. Some ([None], tl b)) bs = Inr sample_envelope"
  using envelope_roundtrip [of sample_envelope "\<lambda>f h. Some (9 # h)" "\<lambda>b. Some ([None], tl b)"]
  by (auto simp: sample_envelope_def wire_fits_def proto_ok_def)

end
