(* ===== verification/Database.thy ===== *)
theory Database
  imports Envelope
begin

text \<open>
  The shared database of \<open>internal/store\<close> and \<open>internal/queue\<close>: the goqite table that holds the
  global queue and every worker queue, the result table, the tail table and the benchmark tables,
  with the clock the statements read.

  Each store has a stream of faults; a statement or transaction takes the head of its store's
  stream and, when it is \<open>True\<close>, fails and leaves the tables alone (a rolled-back transaction).
  An exhausted stream means no further faults.

  The goqite library is not part of the repository: its three table operations are the record
  \<open>goqite\<close>, a component of the state, and what the code relies on is \<open>goqite_ok\<close> (the locale
  \<open>goqite_api\<close>). The primary key of a new row is drawn by the table's column default from
  \<open>id_supply\<close>, whose values do not repeat.
\<close>

subsection \<open>The goqite table\<close>

datatype body = Encoded "rat envelope" | Garbage wire_error

text \<open>\<open>UnmarshalEnvelope\<close> on a stored body, and \<open>Marshal\<close> into one. That the bytes of an envelope
  decode to the envelope and to nothing else is the round trip of the wire format.\<close>

fun unmarshal_body :: "body \<Rightarrow> wire_error + rat envelope" where
  "unmarshal_body (Encoded e) = Inr e"
| "unmarshal_body (Garbage err) = Inl err"

record row =
  row_id :: message_id
  row_queue :: queue_name
  row_body :: body
  row_priority :: int
  row_created :: time
  row_timeout :: time
  row_received :: nat

definition GlobalQueueName :: queue_name where "GlobalQueueName = ''global''"
definition MaxReceive :: nat where "MaxReceive = 1"
definition DefaultVisibilityTimeout :: time where "DefaultVisibilityTimeout = 30 * 1000"

text \<open>Schema defaults of a fresh row: created and timeout are now, received is 0.\<close>

definition new_row :: "time \<Rightarrow> message_id \<Rightarrow> queue_name \<Rightarrow> body \<Rightarrow> int \<Rightarrow> row" where
  "new_row now i q b p = \<lparr> row_id = i, row_queue = q, row_body = b, row_priority = p,
     row_created = now, row_timeout = now, row_received = 0 \<rparr>"

lemma new_row_sel [simp]:
  "row_id (new_row t i q b p) = i" "row_queue (new_row t i q b p) = q"
  "row_body (new_row t i q b p) = b" "row_priority (new_row t i q b p) = p"
  "row_created (new_row t i q b p) = t" "row_timeout (new_row t i q b p) = t"
  "row_received (new_row t i q b p) = 0"
  by (simp_all add: new_row_def)

definition is_row :: "queue_name \<Rightarrow> message_id \<Rightarrow> row \<Rightarrow> bool" where
  "is_row q i r \<longleftrightarrow> row_queue r = q \<and> row_id r = i"

subsection \<open>The goqite library\<close>

record goqite =
  gq_send :: "time \<Rightarrow> message_id \<Rightarrow> queue_name \<Rightarrow> body \<Rightarrow> int \<Rightarrow> row list \<Rightarrow> row list"
  gq_delete :: "queue_name \<Rightarrow> message_id \<Rightarrow> row list \<Rightarrow> row list"
  gq_extend :: "time \<Rightarrow> queue_name \<Rightarrow> message_id \<Rightarrow> time \<Rightarrow> row list \<Rightarrow> row list"

locale goqite_api =
  fixes send :: "time \<Rightarrow> message_id \<Rightarrow> queue_name \<Rightarrow> body \<Rightarrow> int \<Rightarrow> row list \<Rightarrow> row list"
    and delete :: "queue_name \<Rightarrow> message_id \<Rightarrow> row list \<Rightarrow> row list"
    and extend :: "time \<Rightarrow> queue_name \<Rightarrow> message_id \<Rightarrow> time \<Rightarrow> row list \<Rightarrow> row list"
  assumes send_inserts: "send now i q b p rs = rs @ [new_row now i q b p]"
    and delete_removes: "delete q i rs = filter (\<lambda>r. \<not> is_row q i r) rs"
    and extend_moves: "extend now q i d rs =
      update_where (is_row q i) (\<lambda>r. r\<lparr>row_timeout := now + d\<rparr>) rs"
begin

lemma sent_row_found: "filter (is_row q i) (send now i q b p rs) = filter (is_row q i) rs @ [new_row now i q b p]"
  by (simp add: send_inserts is_row_def new_row_def)

lemma deleted_gone: "filter (is_row q i) (delete q i rs) = []"
  by (simp add: delete_removes)

lemma delete_keeps_others: "r \<in> set rs \<Longrightarrow> \<not> is_row q i r \<Longrightarrow> r \<in> set (delete q i rs)"
  by (simp add: delete_removes)

lemma send_delete:
  "i \<notin> row_id ` set rs \<Longrightarrow> delete q i (send now i q b p rs) = rs"
  by (auto simp: send_inserts delete_removes is_row_def new_row_def filter_id_conv)

lemma extend_keeps_bodies: "map row_body (extend now q i d rs) = map row_body rs"
  by (simp add: extend_moves map_update_where)

end

definition goqite_ok :: "goqite \<Rightarrow> bool" where
  "goqite_ok g \<longleftrightarrow> goqite_api (gq_send g) (gq_delete g) (gq_extend g)"

text \<open>A reference implementation of the interface.\<close>

definition ref_send :: "time \<Rightarrow> message_id \<Rightarrow> queue_name \<Rightarrow> body \<Rightarrow> int \<Rightarrow> row list \<Rightarrow> row list" where
  "ref_send now i q b p rs = rs @ [new_row now i q b p]"

definition ref_delete :: "queue_name \<Rightarrow> message_id \<Rightarrow> row list \<Rightarrow> row list" where
  "ref_delete q i rs = filter (\<lambda>r. \<not> is_row q i r) rs"

definition ref_extend :: "time \<Rightarrow> queue_name \<Rightarrow> message_id \<Rightarrow> time \<Rightarrow> row list \<Rightarrow> row list" where
  "ref_extend now q i d rs = update_where (is_row q i) (\<lambda>r. r\<lparr>row_timeout := now + d\<rparr>) rs"

definition goqite_ref :: goqite where
  "goqite_ref = \<lparr> gq_send = ref_send, gq_delete = ref_delete, gq_extend = ref_extend \<rparr>"

interpretation goqite_ref: goqite_api ref_send ref_delete ref_extend
  by unfold_locales (simp_all add: ref_send_def ref_delete_def ref_extend_def)

lemma goqite_ref_ok [simp]: "goqite_ok goqite_ref"
  by (simp add: goqite_ok_def goqite_ref_def goqite_ref.goqite_api_axioms)

lemma goqite_ok_simps:
  assumes "goqite_ok g"
  shows "gq_send g now i q b p rs = rs @ [new_row now i q b p]"
    "gq_delete g q i rs = filter (\<lambda>r. \<not> is_row q i r) rs"
    "gq_extend g now q i d rs = update_where (is_row q i) (\<lambda>r. r\<lparr>row_timeout := now + d\<rparr>) rs"
  using assms unfolding goqite_ok_def goqite_api_def by auto

subsection \<open>The other tables\<close>

datatype result_status = Pending | Processing | Done | Failed

record result_row =
  res_status :: result_status
  res_body :: "bytes option"
  res_error :: "string option"
  res_created :: time
  res_completed :: "time option"

record queue_state =
  qs_worker_id :: worker_id
  qs_device_ids :: "device_id list"
  qs_tail_seconds :: seconds
  qs_tail_model :: model_id
  qs_updated :: time

record model_benchmark =
  mb_worker_id :: worker_id
  mb_device_set :: string
  mb_model_id :: model_id
  mb_units_per_sec :: rat
  mb_graph_secs :: rat
  mb_base_bytes :: int
  mb_per_slot_bytes :: int
  mb_model_size :: int
  mb_model_mtime :: int
  mb_error :: string
  mb_created :: int
  mb_updated :: int

record device_benchmark =
  be_worker_id :: worker_id
  be_device_id :: device_id
  be_device_name :: string
  be_memory_gbs :: rat
  be_load_gbs :: rat
  be_flops :: rat
  be_benched_at :: time

subsection \<open>The database\<close>

record database =
  rows :: "row list"
  results :: "(request_id \<times> result_row) list"
  tails :: "(queue_name \<times> queue_state) list"
  model_benches :: "((worker_id \<times> string \<times> model_id) \<times> model_benchmark) list"
  device_benches :: "((worker_id \<times> device_id) \<times> device_benchmark) list"
  device_enabled_rows :: "((worker_id \<times> device_id) \<times> bool) list"
  clock :: time
  id_supply :: "nat \<Rightarrow> message_id"
  next_id :: nat
  notified :: bool
  queue_faults :: "bool list"
  result_faults :: "bool list"
  state_faults :: "bool list"
  driver :: goqite

datatype db_error = DbError | DuplicateKey | NoRows | EmptyVerdict

definition faulty :: "bool list \<Rightarrow> bool" where "faulty fs \<longleftrightarrow> fs \<noteq> [] \<and> hd fs"

lemma faulty_simps [simp]: "\<not> faulty []" "faulty (b # fs) \<longleftrightarrow> b"
  by (simp_all add: faulty_def)

text \<open>One statement or transaction on the queue tables, the result table and the state tables.\<close>

definition qtx :: "('a database_scheme \<Rightarrow> 'r \<times> 'a database_scheme) \<Rightarrow> 'a database_scheme
    \<Rightarrow> (db_error + 'r) \<times> 'a database_scheme" where
  "qtx f d = (let d' = d\<lparr>queue_faults := tl (queue_faults d)\<rparr>
     in if faulty (queue_faults d) then (Inl DbError, d')
        else (case f d' of (x, d'') \<Rightarrow> (Inr x, d'')))"

definition rtx :: "('a database_scheme \<Rightarrow> (db_error + 'r) \<times> 'a database_scheme) \<Rightarrow> 'a database_scheme
    \<Rightarrow> (db_error + 'r) \<times> 'a database_scheme" where
  "rtx f d = (let d' = d\<lparr>result_faults := tl (result_faults d)\<rparr>
     in if faulty (result_faults d) then (Inl DbError, d')
        else f d')"

definition stx :: "('a database_scheme \<Rightarrow> (db_error + 'r) \<times> 'a database_scheme) \<Rightarrow> 'a database_scheme
    \<Rightarrow> (db_error + 'r) \<times> 'a database_scheme" where
  "stx f d = (let d' = d\<lparr>state_faults := tl (state_faults d)\<rparr>
     in if faulty (state_faults d) then (Inl DbError, d')
        else f d')"

text \<open>The id column's default.\<close>

definition fresh_id :: "'a database_scheme \<Rightarrow> message_id" where
  "fresh_id d = id_supply d (next_id d)"

definition empty_database :: "time \<Rightarrow> database" where
  "empty_database now = \<lparr> rows = [], results = [], tails = [], model_benches = [],
     device_benches = [], device_enabled_rows = [], clock = now, id_supply = (\<lambda>n. replicate (Suc n) (CHR ''m'')), next_id = 0,
     notified = False, queue_faults = [], result_faults = [], state_faults = [],
     driver = goqite_ref \<rparr>"

text \<open>Ids of goqite rows, and the ids their bodies mention, were all drawn from the supply.\<close>

definition drawn :: "'a database_scheme \<Rightarrow> message_id set" where
  "drawn d = id_supply d ` {..<next_id d}"

definition body_gmid :: "body \<Rightarrow> message_id" where
  "body_gmid b = (case unmarshal_body b of Inl _ \<Rightarrow> '''' | Inr e \<Rightarrow> env_global_msg_id e)"

definition database_ok :: "'a database_scheme \<Rightarrow> bool" where
  "database_ok d \<longleftrightarrow> goqite_ok (driver d) \<and> inj (id_supply d) \<and> (\<forall>n. id_supply d n \<noteq> [])
     \<and> distinct (map row_id (rows d))
     \<and> row_id ` set (rows d) \<subseteq> drawn d
     \<and> (\<forall>r \<in> set (rows d). body_gmid (row_body r) \<in> insert [] (drawn d))
     \<and> distinct (keys (results d)) \<and> distinct (keys (tails d))"

lemma fresh_id_not_drawn:
  assumes "inj (id_supply d)" shows "fresh_id d \<notin> drawn d"
  using assms by (auto simp: fresh_id_def drawn_def inj_def)

lemma database_okD:
  assumes "database_ok d"
  shows "goqite_ok (driver d)" "distinct (map row_id (rows d))"
    "fresh_id d \<noteq> []" "fresh_id d \<notin> row_id ` set (rows d)"
    "r \<in> set (rows d) \<Longrightarrow> body_gmid (row_body r) \<noteq> fresh_id d"
    "distinct (keys (results d))" "distinct (keys (tails d))"
  using assms fresh_id_not_drawn [of d] unfolding database_ok_def
  by (auto simp: fresh_id_def) (metis)

lemma empty_database_ok: "database_ok (empty_database now)"
  by (auto simp: database_ok_def empty_database_def inj_def drawn_def)

end
