(* ===== verification/Queue.thy ===== *)
theory Queue
  imports Database "HOL-Library.Multiset"
begin

text \<open>
  \<open>internal/queue/queue.go\<close>: the durable queue operations over the goqite table. Every operation
  is one statement or one transaction; a composite operation that fails leaves the table alone.
  A queue is named by its \<open>queue_name\<close>; all queues of the pool share one notification channel
  of capacity one, the flag \<open>notified\<close>.
\<close>

record message =
  msg_id :: message_id
  msg_body :: body

record peek_row = message +
  peek_leased :: bool

definition message_of :: "row \<Rightarrow> message" where
  "message_of r = \<lparr> msg_id = row_id r, msg_body = row_body r \<rparr>"

definition signal :: "'a database_scheme \<Rightarrow> 'a database_scheme" where
  "signal d = d\<lparr>notified := True\<rparr>"

subsection \<open>Conditions and updates the statements share\<close>

text \<open>\<open>timeout <= now\<close>, \<open>received < MaxReceive\<close>, and the statements that reset a lease.\<close>

definition visible :: "time \<Rightarrow> row \<Rightarrow> bool" where
  "visible now r \<longleftrightarrow> row_timeout r \<le> now"

definition leasable :: "time \<Rightarrow> queue_name \<Rightarrow> message_id \<Rightarrow> row \<Rightarrow> bool" where
  "leasable now q i r \<longleftrightarrow> is_row q i r \<and> visible now r \<and> row_received r < MaxReceive"

definition lease_row :: "time \<Rightarrow> row \<Rightarrow> row" where
  "lease_row until r = r\<lparr>row_received := row_received r + 1, row_timeout := until\<rparr>"

definition reset_row :: "time \<Rightarrow> row \<Rightarrow> row" where
  "reset_row until r = r\<lparr>row_timeout := until, row_received := 0\<rparr>"

definition set_rows :: "(row list \<Rightarrow> row list) \<Rightarrow> 'a database_scheme \<Rightarrow> 'a database_scheme" where
  "set_rows f d = d\<lparr>rows := f (rows d)\<rparr>"

text \<open>\<open>goqite.SendAndGetIDTx\<close> and \<open>goqite.DeleteTx\<close> inside a transaction.\<close>

definition send_tx :: "queue_name \<Rightarrow> body \<Rightarrow> int \<Rightarrow> 'a database_scheme
    \<Rightarrow> message_id \<times> 'a database_scheme" where
  "send_tx q b p d = (fresh_id d,
     d\<lparr>rows := gq_send (driver d) (clock d) (fresh_id d) q b p (rows d), next_id := Suc (next_id d)\<rparr>)"

definition delete_tx :: "queue_name \<Rightarrow> message_id \<Rightarrow> 'a database_scheme \<Rightarrow> 'a database_scheme" where
  "delete_tx q i d = set_rows (gq_delete (driver d) q i) d"

definition release_tx :: "queue_name \<Rightarrow> message_id \<Rightarrow> 'a database_scheme \<Rightarrow> 'a database_scheme" where
  "release_tx q i d = set_rows (update_where (is_row q i) (reset_row (clock d - 1000))) d"

subsection \<open>Single-row operations\<close>

definition Submit_queue :: "queue_name \<Rightarrow> rat envelope \<Rightarrow> 'a database_scheme
    \<Rightarrow> (db_error + message_id) \<times> 'a database_scheme" where
  "Submit_queue q env d =
     qtx (\<lambda>d. let (i, d) = send_tx q (Encoded env) (env_priority env) d in (i, signal d)) d"

definition Delete :: "queue_name \<Rightarrow> message_id \<Rightarrow> 'a database_scheme
    \<Rightarrow> (db_error + unit) \<times> 'a database_scheme" where
  "Delete q i d = qtx (\<lambda>d. ((), delete_tx q i d)) d"

definition Extend :: "queue_name \<Rightarrow> message_id \<Rightarrow> time \<Rightarrow> 'a database_scheme
    \<Rightarrow> (db_error + unit) \<times> 'a database_scheme" where
  "Extend q i dur d = qtx (\<lambda>d. ((), set_rows (gq_extend (driver d) (clock d) q i dur) d)) d"

definition UpdateBody :: "queue_name \<Rightarrow> message_id \<Rightarrow> body \<Rightarrow> 'a database_scheme
    \<Rightarrow> (db_error + unit) \<times> 'a database_scheme" where
  "UpdateBody q i b d =
     qtx (\<lambda>d. ((), set_rows (update_where (is_row q i) (\<lambda>r. r\<lparr>row_body := b\<rparr>)) d)) d"

definition ReleaseLease :: "queue_name \<Rightarrow> message_id \<Rightarrow> 'a database_scheme
    \<Rightarrow> (db_error + unit) \<times> 'a database_scheme" where
  "ReleaseLease q i d = qtx (\<lambda>d. ((), signal (release_tx q i d))) d"

definition Defer :: "queue_name \<Rightarrow> message_id \<Rightarrow> time \<Rightarrow> 'a database_scheme
    \<Rightarrow> (db_error + unit) \<times> 'a database_scheme" where
  "Defer q i delay d =
     qtx (\<lambda>d. ((), set_rows (update_where (is_row q i) (reset_row (clock d + delay))) d)) d"

subsection \<open>Queries\<close>

definition queue_order :: "row list \<Rightarrow> row list" where
  "queue_order rs = sort_key (\<lambda>r. (- row_priority r, row_created r)) rs"

definition Peek :: "queue_name \<Rightarrow> nat \<Rightarrow> 'a database_scheme
    \<Rightarrow> (db_error + message list) \<times> 'a database_scheme" where
  "Peek q limit d = qtx (\<lambda>d. (map message_of (take limit (queue_order
      (filter (\<lambda>r. row_queue r = q \<and> visible (clock d) r) (rows d)))), d)) d"

definition PeekAll :: "queue_name \<Rightarrow> nat \<Rightarrow> 'a database_scheme
    \<Rightarrow> (db_error + peek_row list) \<times> 'a database_scheme" where
  "PeekAll q limit d = qtx (\<lambda>d. (map (\<lambda>r. \<lparr> msg_id = row_id r, msg_body = row_body r,
        peek_leased = (\<not> visible (clock d) r \<and> row_received r > 0) \<rparr>)
      (take limit (queue_order (filter (\<lambda>r. row_queue r = q) (rows d)))), d)) d"

definition abandoned :: "time \<Rightarrow> row \<Rightarrow> bool" where
  "abandoned now r \<longleftrightarrow> row_received r \<ge> MaxReceive \<and> visible now r"

definition ListAbandoned :: "queue_name \<Rightarrow> 'a database_scheme
    \<Rightarrow> (db_error + message list) \<times> 'a database_scheme" where
  "ListAbandoned q d = qtx (\<lambda>d. (map message_of
      (filter (\<lambda>r. row_queue r = q \<and> abandoned (clock d) r) (rows d)), d)) d"

definition Depth :: "queue_name \<Rightarrow> 'a database_scheme
    \<Rightarrow> (db_error + nat) \<times> 'a database_scheme" where
  "Depth q d = qtx (\<lambda>d. (length
      (filter (\<lambda>r. row_queue r = q \<and> visible (clock d) r) (rows d)), d)) d"

subsection \<open>Leases and transactions across queues\<close>

definition leaseByIDTx :: "queue_name \<Rightarrow> message_id \<Rightarrow> time \<Rightarrow> 'a database_scheme
    \<Rightarrow> message option \<times> 'a database_scheme" where
  "leaseByIDTx q i dur d =
     (case find (leasable (clock d) q i) (rows d) of
        None \<Rightarrow> (None, d)
      | Some r \<Rightarrow> (Some \<lparr> msg_id = i, msg_body = row_body r \<rparr>,
          set_rows (update_where (leasable (clock d) q i) (lease_row (clock d + dur))) d))"

definition LeaseByID :: "queue_name \<Rightarrow> message_id \<Rightarrow> time \<Rightarrow> 'a database_scheme
    \<Rightarrow> (db_error + message option) \<times> 'a database_scheme" where
  "LeaseByID q i dur d = qtx (leaseByIDTx q i dur) d"

definition MoveTo :: "queue_name \<Rightarrow> queue_name \<Rightarrow> message_id \<Rightarrow> int \<Rightarrow> 'a database_scheme
    \<Rightarrow> (db_error + bool) \<times> 'a database_scheme" where
  "MoveTo q dst i prio d = qtx (\<lambda>d.
     case find (leasable (clock d) q i) (rows d) of
       None \<Rightarrow> (False, d)
     | Some r \<Rightarrow>
         let d = set_rows (filter (\<lambda>r. \<not> leasable (clock d) q i r)) d;
             (_, d) = send_tx dst (row_body r) prio d
         in (True, signal d)) d"

definition DeleteBoth :: "queue_name \<Rightarrow> message_id \<Rightarrow> queue_name \<Rightarrow> message_id \<Rightarrow> 'a database_scheme
    \<Rightarrow> (db_error + unit) \<times> 'a database_scheme" where
  "DeleteBoth q i oq oi d = qtx (\<lambda>d. ((), delete_tx oq oi (delete_tx q i d))) d"

definition DeleteAndReleaseLease :: "queue_name \<Rightarrow> message_id \<Rightarrow> queue_name \<Rightarrow> message_id
    \<Rightarrow> 'a database_scheme \<Rightarrow> (db_error + unit) \<times> 'a database_scheme" where
  "DeleteAndReleaseLease q i oq oi d =
     qtx (\<lambda>d. ((), signal (release_tx oq oi (delete_tx q i d)))) d"

definition ReleaseLeaseAndDelete :: "queue_name \<Rightarrow> message_id \<Rightarrow> queue_name \<Rightarrow> message_id
    \<Rightarrow> 'a database_scheme \<Rightarrow> (db_error + unit) \<times> 'a database_scheme" where
  "ReleaseLeaseAndDelete q i oq oi d =
     qtx (\<lambda>d. ((), signal (delete_tx q i (release_tx oq oi d)))) d"

definition LeaseAndSubmit :: "queue_name \<Rightarrow> message_id \<Rightarrow> time \<Rightarrow> queue_name \<Rightarrow> rat envelope
    \<Rightarrow> 'a database_scheme \<Rightarrow> (db_error + (message_id \<times> bool)) \<times> 'a database_scheme" where
  "LeaseAndSubmit q i dur dst env d = qtx (\<lambda>d.
     case leaseByIDTx q i dur d of
       (None, d) \<Rightarrow> (('''', False), d)
     | (Some _, d) \<Rightarrow>
         let (j, d) = send_tx dst (Encoded env) (env_priority env) d
         in ((j, True), signal d)) d"

subsection \<open>What a transaction leaves unchanged\<close>

lemma qtx_fault:
  assumes "queue_faults d = True # fs"
  shows "qtx f d = (Inl DbError, d\<lparr>queue_faults := fs\<rparr>)"
  using assms by (simp add: qtx_def)

lemma qtx_split:
  "P (qtx f d) \<longleftrightarrow>
     (faulty (queue_faults d) \<longrightarrow> P (Inl DbError, d\<lparr>queue_faults := tl (queue_faults d)\<rparr>))
   \<and> (\<forall>x d'. \<not> faulty (queue_faults d) \<longrightarrow>
        f (d\<lparr>queue_faults := tl (queue_faults d)\<rparr>) = (x, d') \<longrightarrow> P (Inr x, d'))"
  by (auto simp: qtx_def Let_def split: prod.split)

lemmas queue_op_defs = Submit_queue_def Delete_def Extend_def UpdateBody_def ReleaseLease_def
  Defer_def LeaseByID_def MoveTo_def DeleteBoth_def DeleteAndReleaseLease_def
  ReleaseLeaseAndDelete_def LeaseAndSubmit_def

lemmas queue_tx_defs = signal_def set_rows_def send_tx_def delete_tx_def release_tx_def
  leaseByIDTx_def

lemma qtx_Inl: "fst (qtx f d) = Inl x \<Longrightarrow> rows (snd (qtx f d)) = rows d"
  by (simp add: qtx_def Let_def split: if_splits prod.splits)

lemma qtx_Inr:
  "fst (qtx f d) = Inr x \<Longrightarrow>
     x = fst (f (d\<lparr>queue_faults := tl (queue_faults d)\<rparr>))
     \<and> snd (qtx f d) = snd (f (d\<lparr>queue_faults := tl (queue_faults d)\<rparr>))"
  by (simp add: qtx_def Let_def split: if_splits prod.splits)

text \<open>The tables and the clock a queue operation does not touch.\<close>

definition queue_frame :: "'a database_scheme \<Rightarrow> 'a database_scheme \<Rightarrow> bool" where
  "queue_frame d d' \<longleftrightarrow> results d' = results d \<and> tails d' = tails d
     \<and> model_benches d' = model_benches d \<and> device_benches d' = device_benches d
     \<and> device_enabled_rows d' = device_enabled_rows d
     \<and> clock d' = clock d \<and> id_supply d' = id_supply d \<and> result_faults d' = result_faults d
     \<and> state_faults d' = state_faults d \<and> driver d' = driver d \<and> database.more d' = database.more d
     \<and> next_id d \<le> next_id d' \<and> (notified d \<longrightarrow> notified d')"

lemma queue_frame_refl [simp]: "queue_frame d d" by (simp add: queue_frame_def)

lemma queue_frame_trans: "queue_frame a b \<Longrightarrow> queue_frame b c \<Longrightarrow> queue_frame a c"
  by (auto simp: queue_frame_def)

lemma queue_op_frame:
  "queue_frame d (snd (Submit_queue q e d))" "queue_frame d (snd (Delete q i d))"
  "queue_frame d (snd (Extend q i n d))" "queue_frame d (snd (UpdateBody q i b d))"
  "queue_frame d (snd (ReleaseLease q i d))" "queue_frame d (snd (Defer q i n d))"
  "queue_frame d (snd (LeaseByID q i n d))" "queue_frame d (snd (MoveTo q q' i p d))"
  "queue_frame d (snd (DeleteBoth q i q' i' d))"
  "queue_frame d (snd (DeleteAndReleaseLease q i q' i' d))"
  "queue_frame d (snd (ReleaseLeaseAndDelete q i q' i' d))"
  "queue_frame d (snd (LeaseAndSubmit q i n q' e d))"
  by (auto simp: queue_op_defs queue_tx_defs queue_frame_def Let_def split: qtx_split option.splits)

lemma query_frame:
  "rows (snd (Peek q n d)) = rows d" "queue_frame d (snd (Peek q n d))"
  "rows (snd (PeekAll q n d)) = rows d" "queue_frame d (snd (PeekAll q n d))"
  "rows (snd (ListAbandoned q d)) = rows d" "queue_frame d (snd (ListAbandoned q d))"
  "rows (snd (Depth q d)) = rows d" "queue_frame d (snd (Depth q d))"
  by (auto simp: Peek_def PeekAll_def ListAbandoned_def Depth_def queue_frame_def split: qtx_split)

lemma queue_frameD:
  assumes "queue_frame d d'"
  shows "results d' = results d" "tails d' = tails d" "clock d' = clock d"
    "database.more d' = database.more d" "driver d' = driver d"
    "result_faults d' = result_faults d" "state_faults d' = state_faults d"
    "model_benches d' = model_benches d" "device_benches d' = device_benches d"
  using assms by (simp_all add: queue_frame_def)

lemmas queue_op_results [simp] =
  queue_op_frame [THEN queue_frameD(1)] query_frame(2,4,6,8) [THEN queue_frameD(1)]
lemmas queue_op_tails [simp] =
  queue_op_frame [THEN queue_frameD(2)] query_frame(2,4,6,8) [THEN queue_frameD(2)]
lemmas queue_op_clock [simp] =
  queue_op_frame [THEN queue_frameD(3)] query_frame(2,4,6,8) [THEN queue_frameD(3)]

lemma find_leasable:
  assumes "find (leasable t q i) rs = Some r"
  shows "r \<in> set rs" "leasable t q i r"
  using assms by (auto simp: find_Some_iff)

subsection \<open>The table after each operation\<close>

text \<open>A failed statement or transaction leaves the rows as they were.\<close>

lemma queue_op_error:
  "fst (Submit_queue q e d) = Inl x \<Longrightarrow> rows (snd (Submit_queue q e d)) = rows d"
  "fst (Delete q i d) = Inl x \<Longrightarrow> rows (snd (Delete q i d)) = rows d"
  "fst (MoveTo q q' i p d) = Inl x \<Longrightarrow> rows (snd (MoveTo q q' i p d)) = rows d"
  "fst (DeleteBoth q i q' i' d) = Inl x \<Longrightarrow> rows (snd (DeleteBoth q i q' i' d)) = rows d"
  "fst (DeleteAndReleaseLease q i q' i' d) = Inl x
     \<Longrightarrow> rows (snd (DeleteAndReleaseLease q i q' i' d)) = rows d"
  "fst (LeaseAndSubmit q i n q' e d) = Inl x \<Longrightarrow> rows (snd (LeaseAndSubmit q i n q' e d)) = rows d"
  "fst (Extend q i n d) = Inl x \<Longrightarrow> rows (snd (Extend q i n d)) = rows d"
  "fst (UpdateBody q i b d) = Inl x \<Longrightarrow> rows (snd (UpdateBody q i b d)) = rows d"
  "fst (ReleaseLease q i d) = Inl x \<Longrightarrow> rows (snd (ReleaseLease q i d)) = rows d"
  "fst (Defer q i n d) = Inl x \<Longrightarrow> rows (snd (Defer q i n d)) = rows d"
  "fst (ReleaseLeaseAndDelete q i q' i' d) = Inl x
     \<Longrightarrow> rows (snd (ReleaseLeaseAndDelete q i q' i' d)) = rows d"
  by (simp_all add: queue_op_defs qtx_Inl)

lemma queue_op_ok_rows:
  assumes "goqite_ok (driver d)"
  shows "fst (Submit_queue q e d) = Inr j
      \<Longrightarrow> j = fresh_id d \<and> rows (snd (Submit_queue q e d))
            = rows d @ [new_row (clock d) j q (Encoded e) (env_priority e)]"
    "fst (Delete q i d) = Inr u \<Longrightarrow> rows (snd (Delete q i d)) = filter (\<lambda>r. \<not> is_row q i r) (rows d)"
    "fst (DeleteBoth q i q' i' d) = Inr u
      \<Longrightarrow> rows (snd (DeleteBoth q i q' i' d))
            = filter (\<lambda>r. \<not> is_row q i r \<and> \<not> is_row q' i' r) (rows d)"
    "fst (DeleteAndReleaseLease q i q' i' d) = Inr u
      \<Longrightarrow> rows (snd (DeleteAndReleaseLease q i q' i' d))
            = update_where (is_row q' i') (reset_row (clock d - 1000))
                (filter (\<lambda>r. \<not> is_row q i r) (rows d))"
    "fst (ReleaseLeaseAndDelete q i q' i' d) = Inr u
      \<Longrightarrow> rows (snd (ReleaseLeaseAndDelete q i q' i' d))
            = filter (\<lambda>r. \<not> is_row q i r)
                (update_where (is_row q' i') (reset_row (clock d - 1000)) (rows d))"
    "fst (ReleaseLease q i d) = Inr u
      \<Longrightarrow> rows (snd (ReleaseLease q i d))
            = update_where (is_row q i) (reset_row (clock d - 1000)) (rows d)"
    "fst (Defer q i n d) = Inr u
      \<Longrightarrow> rows (snd (Defer q i n d)) = update_where (is_row q i) (reset_row (clock d + n)) (rows d)"
    "fst (UpdateBody q i b d) = Inr u
      \<Longrightarrow> rows (snd (UpdateBody q i b d)) = update_where (is_row q i) (\<lambda>r. r\<lparr>row_body := b\<rparr>) (rows d)"
    "fst (Extend q i n d) = Inr u
      \<Longrightarrow> rows (snd (Extend q i n d))
            = update_where (is_row q i) (\<lambda>r. r\<lparr>row_timeout := clock d + n\<rparr>) (rows d)"
  using assms
  by (auto simp: queue_op_defs queue_tx_defs goqite_ok_simps Let_def fresh_id_def
      conj_commute dest!: qtx_Inr)

lemma LeaseByID_cases:
  assumes "LeaseByID q i n d = (res, d')"
  obtains (fault) "res = Inl DbError" "rows d' = rows d"
  | (miss) "res = Inr None" "rows d' = rows d" "\<And>r. r \<in> set (rows d) \<Longrightarrow> \<not> leasable (clock d) q i r"
  | (hit) r where "r \<in> set (rows d)" "leasable (clock d) q i r"
      "res = Inr (Some \<lparr> msg_id = i, msg_body = row_body r \<rparr>)"
      "rows d' = update_where (leasable (clock d) q i) (lease_row (clock d + n)) (rows d)"
proof (cases "faulty (queue_faults d)")
  case True
  with assms show ?thesis by (intro fault) (auto simp: LeaseByID_def qtx_def)
next
  case False
  show ?thesis
  proof (cases "find (leasable (clock d) q i) (rows d)")
    case None
    with False assms show ?thesis
      by (intro miss) (simp_all add: LeaseByID_def qtx_def Let_def leaseByIDTx_def,
          auto simp: find_None_iff)
  next
    case (Some r)
    with False assms find_leasable [OF Some] show ?thesis
      by (intro hit [of r])
        (auto simp: LeaseByID_def qtx_def Let_def leaseByIDTx_def set_rows_def)
  qed
qed

end
