(* ===== verification/Queue_Laws.thy ===== *)
theory Queue_Laws
  imports Queue
begin

text \<open>
  What the durable queue promises to the scheduler: the table stays well formed, a row is
  delivered at most once until something re-arms it, a peek is ordered and complete, moves
  conserve jobs and never touch leased rows, and a released row gets its old place back.
\<close>

subsection \<open>Well-formedness is preserved\<close>

lemma drawn_mono: "queue_frame d d' \<Longrightarrow> drawn d \<subseteq> drawn d'"
  by (auto simp: queue_frame_def drawn_def)

lemma database_okI:
  assumes "database_ok d" "queue_frame d d'" "distinct (map row_id (rows d'))"
    and "\<And>r. r \<in> set (rows d') \<Longrightarrow> row_id r \<in> drawn d' \<and> body_gmid (row_body r) \<in> insert [] (drawn d')"
  shows "database_ok d'"
  using assms by (auto simp: database_ok_def queue_frame_def)

lemma database_ok_kept:
  assumes "database_ok d" "queue_frame d d'" "distinct (map row_id (rows d'))"
    and "\<And>r. r \<in> set (rows d') \<Longrightarrow> \<exists>r0 \<in> set (rows d). row_id r = row_id r0 \<and> row_body r = row_body r0"
  shows "database_ok d'"
proof (rule database_okI [OF assms(1-3)])
  fix r assume "r \<in> set (rows d')"
  with assms(4) obtain r0 where "r0 \<in> set (rows d)" "row_id r = row_id r0" "row_body r = row_body r0"
    by blast
  with assms(1) drawn_mono [OF assms(2)]
  show "row_id r \<in> drawn d' \<and> body_gmid (row_body r) \<in> insert [] (drawn d')"
    by (auto simp: database_ok_def)
qed

lemma update_where_witness:
  assumes "r \<in> set (update_where c u rs)" "\<And>r. f (u r) = f r \<and> g (u r) = g r"
  shows "\<exists>r0 \<in> set rs. f r = f r0 \<and> g r = g r0"
  using assms by (auto simp: set_update_where)

lemma reset_row_keeps [simp]:
  "row_id (reset_row t r) = row_id r" "row_body (reset_row t r) = row_body r"
  "row_queue (reset_row t r) = row_queue r" "row_priority (reset_row t r) = row_priority r"
  "row_created (reset_row t r) = row_created r" "is_row q i (reset_row t r) = is_row q i r"
  by (simp_all add: reset_row_def is_row_def)

lemma lease_row_keeps [simp]:
  "row_id (lease_row t r) = row_id r" "row_body (lease_row t r) = row_body r"
  "row_queue (lease_row t r) = row_queue r" "row_priority (lease_row t r) = row_priority r"
  "row_created (lease_row t r) = row_created r" "is_row q i (lease_row t r) = is_row q i r"
  by (simp_all add: lease_row_def is_row_def)

lemma distinct_ids_filter:
  "distinct (map row_id rs) \<Longrightarrow> distinct (map row_id (filter P rs))"
  by (simp add: distinct_map_filter)

lemma distinct_ids_update:
  "distinct (map row_id rs) \<Longrightarrow> (\<And>r. row_id (u r) = row_id r)
     \<Longrightarrow> distinct (map row_id (update_where c u rs))"
  by (simp add: map_update_where)

text \<open>The rows of a table after inserting a row under the next id.\<close>

lemma database_ok_insert:
  assumes ok: "database_ok d" and f: "queue_frame d d'" "next_id d' = Suc (next_id d)"
    and rows: "rows d' = rs @ [new_row t (fresh_id d) q b p]"
    and rs: "distinct (map row_id rs)"
      "\<And>r. r \<in> set rs \<Longrightarrow> \<exists>r0 \<in> set (rows d). row_id r = row_id r0 \<and> row_body r = row_body r0"
    and g: "body_gmid b \<in> insert [] (drawn d)"
  shows "database_ok d'"
proof (rule database_okI [OF ok f(1)])
  have "fresh_id d \<notin> row_id ` set rs"
    using rs(2) database_okD(4) [OF ok] by (metis (no_types, lifting) imageE image_eqI)
  with rs(1) show "distinct (map row_id (rows d'))" by (simp add: rows new_row_def)
next
  fix r assume r: "r \<in> set (rows d')"
  have fresh: "fresh_id d \<in> drawn d'"
    using f by (auto simp: fresh_id_def drawn_def queue_frame_def)
  show "row_id r \<in> drawn d' \<and> body_gmid (row_body r) \<in> insert [] (drawn d')"
  proof (cases "r \<in> set rs")
    case True
    then obtain r0 where "r0 \<in> set (rows d)" "row_id r = row_id r0" "row_body r = row_body r0"
      using rs(2) by blast
    then show ?thesis using ok drawn_mono [OF f(1)] by (auto simp: database_ok_def)
  next
    case False
    with r have "r = new_row t (fresh_id d) q b p" by (simp add: rows)
    then show ?thesis using fresh g drawn_mono [OF f(1)] by (auto simp: new_row_def)
  qed
qed

lemma next_id_send:
  "fst (Submit_queue q e d) = Inr j \<Longrightarrow> next_id (snd (Submit_queue q e d)) = Suc (next_id d)"
  by (auto simp: Submit_queue_def send_tx_def signal_def dest!: qtx_Inr)

lemma database_ok_same:
  "database_ok d \<Longrightarrow> queue_frame d d' \<Longrightarrow> rows d' = rows d \<Longrightarrow> database_ok d'"
  using database_ok_kept [of d d'] by (auto simp: database_ok_def)

lemma Submit_queue_ok:
  assumes "database_ok d" "env_global_msg_id e \<in> insert [] (drawn d)"
  shows "database_ok (snd (Submit_queue q e d))"
proof (cases "fst (Submit_queue q e d)")
  case Inl
  then show ?thesis using database_ok_same assms queue_op_frame queue_op_error by metis
next
  case (Inr j)
  show ?thesis
    using assms queue_op_ok_rows(1) [OF database_okD(1) [OF assms(1)] Inr] next_id_send [OF Inr]
    by (intro database_ok_insert [OF assms(1) queue_op_frame(1), where rs = "rows d"])
      (auto simp: body_gmid_def database_ok_def)
qed

lemma shrink_ok:
  assumes "database_ok d" "queue_frame d d'" "rows d' = filter P (update_where c u (rows d))"
    and "\<And>r. row_id (u r) = row_id r \<and> row_body (u r) = row_body r"
  shows "database_ok d'"
  using assms
  by (intro database_ok_kept [OF assms(1,2)])
    (auto simp: assms(3) distinct_ids_filter distinct_ids_update database_okD
      intro: update_where_witness [where f = row_id and g = row_body])

lemma update_where_True: "update_where (\<lambda>_. False) u rs = rs"
  by (simp add: update_where_none)

lemma op_ok_by_rows:
  assumes "database_ok d" "queue_frame d d'"
    and "rows d' = rows d \<or> (\<exists>P c u. rows d' = filter P (update_where c u (rows d))
           \<and> (\<forall>r. row_id (u r) = row_id r \<and> row_body (u r) = row_body r))"
  shows "database_ok d'"
  using assms database_ok_same shrink_ok by blast

lemma filter_update_commute:
  assumes "\<And>r. P (u r) = P r"
  shows "update_where c u (filter P rs) = filter P (update_where c u rs)"
  using assms by (induction rs) auto

lemma Delete_ok: assumes "database_ok d" shows "database_ok (snd (Delete q i d))"
proof (rule op_ok_by_rows [OF assms queue_op_frame(2)], cases "fst (Delete q i d)")
  case (Inr u)
  then show "rows (snd (Delete q i d)) = rows d \<or> (\<exists>P c u. rows (snd (Delete q i d))
      = filter P (update_where c u (rows d)) \<and> (\<forall>r. row_id (u r) = row_id r \<and> row_body (u r) = row_body r))"
    using queue_op_ok_rows(2) [OF database_okD(1) [OF assms]]
    by (intro disjI2 exI [of _ "\<lambda>r. \<not> is_row q i r"] exI [of _ "\<lambda>_. False"] exI [of _ id])
      (auto simp: update_where_True)
qed (simp add: queue_op_error)

lemma DeleteBoth_ok: assumes "database_ok d" shows "database_ok (snd (DeleteBoth q i q' i' d))"
proof (rule op_ok_by_rows [OF assms queue_op_frame(9)], cases "fst (DeleteBoth q i q' i' d)")
  case (Inr u)
  then show "rows (snd (DeleteBoth q i q' i' d)) = rows d \<or> (\<exists>P c u. rows (snd (DeleteBoth q i q' i' d))
      = filter P (update_where c u (rows d)) \<and> (\<forall>r. row_id (u r) = row_id r \<and> row_body (u r) = row_body r))"
    using queue_op_ok_rows(3) [OF database_okD(1) [OF assms]]
    by (intro disjI2 exI [of _ "\<lambda>r. \<not> is_row q i r \<and> \<not> is_row q' i' r"] exI [of _ "\<lambda>_. False"]
        exI [of _ id]) (auto simp: update_where_True)
qed (simp add: queue_op_error)

lemma update_only_ok:
  assumes "database_ok d" "queue_frame d d'"
    and "rows d' = rows d \<or> rows d' = update_where c u (rows d)"
    and "\<And>r. row_id (u r) = row_id r \<and> row_body (u r) = row_body r"
  shows "database_ok d'"
  using assms(3)
proof
  assume "rows d' = update_where c u (rows d)"
  then have "rows d' = filter (\<lambda>_. True) (update_where c u (rows d))" by simp
  with assms show ?thesis by (blast intro: op_ok_by_rows)
qed (use assms database_ok_same in blast)

lemma Extend_ok: assumes "database_ok d" shows "database_ok (snd (Extend q i n d))"
proof (rule update_only_ok [OF assms queue_op_frame(3)])
  show "rows (snd (Extend q i n d)) = rows d \<or> rows (snd (Extend q i n d))
    = update_where (is_row q i) (\<lambda>r. r\<lparr>row_timeout := clock d + n\<rparr>) (rows d)"
    using queue_op_ok_rows(9) [OF database_okD(1) [OF assms]] queue_op_error(7)
    by (cases "fst (Extend q i n d)") auto
qed simp

lemma ReleaseLease_ok: assumes "database_ok d" shows "database_ok (snd (ReleaseLease q i d))"
proof (rule update_only_ok [OF assms queue_op_frame(5)])
  show "rows (snd (ReleaseLease q i d)) = rows d \<or> rows (snd (ReleaseLease q i d))
    = update_where (is_row q i) (reset_row (clock d - 1000)) (rows d)"
    using queue_op_ok_rows(6) [OF database_okD(1) [OF assms]] queue_op_error(9)
    by (cases "fst (ReleaseLease q i d)") auto
qed simp

lemma Defer_ok: assumes "database_ok d" shows "database_ok (snd (Defer q i n d))"
proof (rule update_only_ok [OF assms queue_op_frame(6)])
  show "rows (snd (Defer q i n d)) = rows d \<or> rows (snd (Defer q i n d))
    = update_where (is_row q i) (reset_row (clock d + n)) (rows d)"
    using queue_op_ok_rows(7) [OF database_okD(1) [OF assms]] queue_op_error(10)
    by (cases "fst (Defer q i n d)") auto
qed simp

lemma DeleteAndReleaseLease_ok:
  assumes "database_ok d"
  shows "database_ok (snd (DeleteAndReleaseLease q i q' i' d))"
proof (cases "fst (DeleteAndReleaseLease q i q' i' d)")
  case Inl
  then show ?thesis using database_ok_same [OF assms queue_op_frame(10)] queue_op_error(5) by blast
next
  case (Inr u)
  have "rows (snd (DeleteAndReleaseLease q i q' i' d)) = filter (\<lambda>r. \<not> is_row q i r)
      (update_where (is_row q' i') (reset_row (clock d - 1000)) (rows d))"
    using queue_op_ok_rows(4) [OF database_okD(1) [OF assms] Inr]
    by (simp add: filter_update_commute)
  then show ?thesis by (rule shrink_ok [OF assms queue_op_frame(10)]) simp
qed

lemma ReleaseLeaseAndDelete_ok:
  assumes "database_ok d"
  shows "database_ok (snd (ReleaseLeaseAndDelete q i q' i' d))"
proof (cases "fst (ReleaseLeaseAndDelete q i q' i' d)")
  case Inl
  then show ?thesis using database_ok_same [OF assms queue_op_frame(11)] queue_op_error(11) by blast
next
  case (Inr u)
  show ?thesis
    by (rule shrink_ok [OF assms queue_op_frame(11)
          queue_op_ok_rows(5) [OF database_okD(1) [OF assms] Inr]]) simp
qed

lemma LeaseByID_ok:
  assumes "database_ok d"
  shows "database_ok (snd (LeaseByID q i n d))"
proof (rule LeaseByID_cases [of q i n d "fst (LeaseByID q i n d)" "snd (LeaseByID q i n d)"])
  fix r assume "rows (snd (LeaseByID q i n d))
    = update_where (leasable (clock d) q i) (lease_row (clock d + n)) (rows d)"
  then show ?thesis
    by (intro update_only_ok [OF assms queue_op_frame(7), where u = "lease_row (clock d + n)"]) auto
qed (auto intro: database_ok_same [OF assms queue_op_frame(7)])

lemma UpdateBody_ok:
  assumes "database_ok d" "body_gmid b \<in> insert [] (drawn d)"
  shows "database_ok (snd (UpdateBody q i b d))"
proof (cases "fst (UpdateBody q i b d)")
  case Inl
  then show ?thesis
    using database_ok_same [OF assms(1) queue_op_frame(4)] queue_op_error(8) by blast
next
  case (Inr u)
  note rows = queue_op_ok_rows(8) [OF database_okD(1) [OF assms(1)] Inr]
  show ?thesis
  proof (rule database_okI [OF assms(1) queue_op_frame(4)])
    show "distinct (map row_id (rows (snd (UpdateBody q i b d))))"
      by (simp add: rows distinct_ids_update database_okD(2) [OF assms(1)])
    fix r assume "r \<in> set (rows (snd (UpdateBody q i b d)))"
    then obtain r0 where "r0 \<in> set (rows d)" "row_id r = row_id r0"
      "row_body r = row_body r0 \<or> row_body r = b"
      unfolding rows by (auto simp: set_update_where)
    moreover from this(1) have "row_id r0 \<in> drawn d" "body_gmid (row_body r0) \<in> insert [] (drawn d)"
      using assms(1) by (auto simp: database_ok_def)
    ultimately show "row_id r \<in> drawn (snd (UpdateBody q i b d))
        \<and> body_gmid (row_body r) \<in> insert [] (drawn (snd (UpdateBody q i b d)))"
      using assms(2) drawn_mono [OF queue_op_frame(4) [of d q i b]] by auto
  qed
qed

subsection \<open>The two hand-overs\<close>

text \<open>\<open>MoveTo\<close> and \<open>LeaseAndSubmit\<close>: an error or a lost race changes no row; a success claims
  exactly the leasable row \<open>i\<close> and adds one row under a fresh id.\<close>

lemma MoveTo_cases:
  assumes "database_ok d" "MoveTo q q' i p d = (res, d')"
  obtains (fault) "res = Inl DbError" "rows d' = rows d"
  | (miss) "res = Inr False" "rows d' = rows d" "\<And>r. r \<in> set (rows d) \<Longrightarrow> \<not> leasable (clock d) q i r"
  | (hit) r where "r \<in> set (rows d)" "leasable (clock d) q i r" "res = Inr True"
      "rows d' = filter (\<lambda>r. row_id r \<noteq> i) (rows d)
         @ [new_row (clock d) (fresh_id d) q' (row_body r) p]"
      "next_id d' = Suc (next_id d)"
proof (cases "faulty (queue_faults d)")
  case True
  with assms show ?thesis by (intro fault) (auto simp: MoveTo_def qtx_def)
next
  case False
  show ?thesis
  proof (cases "find (leasable (clock d) q i) (rows d)")
    case None
    with False assms show ?thesis
      by (intro miss) (simp_all add: MoveTo_def qtx_def Let_def, auto simp: find_None_iff)
  next
    case (Some r)
    note r = find_leasable [OF Some]
    have "leasable (clock d) q i r' \<longleftrightarrow> row_id r' = i" if "r' \<in> set (rows d)" for r'
      using that r distinct_map_inj [OF database_okD(2) [OF assms(1)] _ r(1), of r']
      by (auto simp: leasable_def is_row_def)
    then have "filter (\<lambda>r. \<not> leasable (clock d) q i r) (rows d) = filter (\<lambda>r. row_id r \<noteq> i) (rows d)"
      by (intro filter_cong) auto
    with False Some assms r show ?thesis
      by (intro hit [of r]) (auto simp: MoveTo_def qtx_def Let_def set_rows_def send_tx_def
          signal_def fresh_id_def goqite_ok_simps database_okD(1))
  qed
qed

lemma LeaseAndSubmit_cases:
  assumes "database_ok d" "LeaseAndSubmit q i n q' e d = (res, d')"
  obtains (fault) "res = Inl DbError" "rows d' = rows d"
  | (miss) "res = Inr ('''', False)" "rows d' = rows d"
      "\<And>r. r \<in> set (rows d) \<Longrightarrow> \<not> leasable (clock d) q i r"
  | (hit) r where "r \<in> set (rows d)" "leasable (clock d) q i r" "res = Inr (fresh_id d, True)"
      "rows d' = update_where (leasable (clock d) q i) (lease_row (clock d + n)) (rows d)
         @ [new_row (clock d) (fresh_id d) q' (Encoded e) (env_priority e)]"
      "next_id d' = Suc (next_id d)"
proof (cases "faulty (queue_faults d)")
  case True
  with assms show ?thesis by (intro fault) (auto simp: LeaseAndSubmit_def qtx_def)
next
  case False
  show ?thesis
  proof (cases "find (leasable (clock d) q i) (rows d)")
    case None
    with False assms show ?thesis
      by (intro miss) (simp_all add: LeaseAndSubmit_def leaseByIDTx_def qtx_def Let_def,
          auto simp: find_None_iff)
  next
    case (Some r)
    with False assms find_leasable [OF Some] show ?thesis
      by (intro hit [of r]) (auto simp: LeaseAndSubmit_def leaseByIDTx_def qtx_def Let_def
          set_rows_def send_tx_def signal_def fresh_id_def goqite_ok_simps database_okD(1))
  qed
qed

lemma MoveTo_ok:
  assumes "database_ok d"
  shows "database_ok (snd (MoveTo q q' i p d))"
proof (rule MoveTo_cases [OF assms, of q q' i p "fst (MoveTo q q' i p d)" "snd (MoveTo q q' i p d)"])
  fix r assume h: "r \<in> set (rows d)" "next_id (snd (MoveTo q q' i p d)) = Suc (next_id d)"
    "rows (snd (MoveTo q q' i p d)) = filter (\<lambda>r. row_id r \<noteq> i) (rows d)
         @ [new_row (clock d) (fresh_id d) q' (row_body r) p]"
  show ?thesis
  proof (rule database_ok_insert [OF assms queue_op_frame(8) h(2,3)])
    show "distinct (map row_id (filter (\<lambda>r. row_id r \<noteq> i) (rows d)))"
      by (simp add: distinct_ids_filter database_okD(2) [OF assms])
    show "body_gmid (row_body r) \<in> insert [] (drawn d)"
      using assms h(1) by (simp add: database_ok_def)
  qed auto
qed (auto intro: database_ok_same [OF assms queue_op_frame(8)])

lemma LeaseAndSubmit_ok:
  assumes "database_ok d" "env_global_msg_id e \<in> insert [] (drawn d)"
  shows "database_ok (snd (LeaseAndSubmit q i n q' e d))"
proof (rule LeaseAndSubmit_cases [OF assms(1), of q i n q' e "fst (LeaseAndSubmit q i n q' e d)"
      "snd (LeaseAndSubmit q i n q' e d)"])
  fix r assume h: "next_id (snd (LeaseAndSubmit q i n q' e d)) = Suc (next_id d)"
    "rows (snd (LeaseAndSubmit q i n q' e d))
       = update_where (leasable (clock d) q i) (lease_row (clock d + n)) (rows d)
         @ [new_row (clock d) (fresh_id d) q' (Encoded e) (env_priority e)]"
  show ?thesis
  proof (rule database_ok_insert [OF assms(1) queue_op_frame(12) h])
    show "distinct (map row_id (update_where (leasable (clock d) q i) (lease_row (clock d + n)) (rows d)))"
      by (simp add: distinct_ids_update database_okD(2) [OF assms(1)])
    show "body_gmid (Encoded e) \<in> insert [] (drawn d)"
      using assms(2) by (simp add: body_gmid_def)
  qed (erule update_where_witness, simp)
qed (auto intro: database_ok_same [OF assms(1) queue_op_frame(12)])

subsection \<open>At most one delivery\<close>

text \<open>The operations of the queue as commands, and time passing between them.\<close>

datatype queue_op =
    QSubmit queue_name "rat envelope"
  | QDelete queue_name message_id
  | QExtend queue_name message_id time
  | QUpdateBody queue_name message_id body
  | QReleaseLease queue_name message_id
  | QDefer queue_name message_id time
  | QLeaseByID queue_name message_id time
  | QMoveTo queue_name queue_name message_id int
  | QDeleteBoth queue_name message_id queue_name message_id
  | QDeleteAndReleaseLease queue_name message_id queue_name message_id
  | QReleaseLeaseAndDelete queue_name message_id queue_name message_id
  | QLeaseAndSubmit queue_name message_id time queue_name "rat envelope"
  | QTick time

fun exec_op :: "queue_op \<Rightarrow> 'a database_scheme \<Rightarrow> 'a database_scheme" where
  "exec_op (QSubmit q e) d = snd (Submit_queue q e d)"
| "exec_op (QDelete q i) d = snd (Delete q i d)"
| "exec_op (QExtend q i n) d = snd (Extend q i n d)"
| "exec_op (QUpdateBody q i b) d = snd (UpdateBody q i b d)"
| "exec_op (QReleaseLease q i) d = snd (ReleaseLease q i d)"
| "exec_op (QDefer q i n) d = snd (Defer q i n d)"
| "exec_op (QLeaseByID q i n) d = snd (LeaseByID q i n d)"
| "exec_op (QMoveTo q q' i p) d = snd (MoveTo q q' i p d)"
| "exec_op (QDeleteBoth q i q' i') d = snd (DeleteBoth q i q' i' d)"
| "exec_op (QDeleteAndReleaseLease q i q' i') d = snd (DeleteAndReleaseLease q i q' i' d)"
| "exec_op (QReleaseLeaseAndDelete q i q' i') d = snd (ReleaseLeaseAndDelete q i q' i' d)"
| "exec_op (QLeaseAndSubmit q i n q' e) d = snd (LeaseAndSubmit q i n q' e d)"
| "exec_op (QTick n) d = d\<lparr>clock := clock d + n\<rparr>"

text \<open>The command hands row \<open>i\<close> to a consumer, and the commands that re-arm a delivered row.\<close>

fun delivers :: "message_id \<Rightarrow> queue_op \<Rightarrow> 'a database_scheme \<Rightarrow> bool" where
  "delivers i (QLeaseByID q j n) d \<longleftrightarrow> j = i \<and> (case fst (LeaseByID q j n d) of Inr (Some _) \<Rightarrow> True | _ \<Rightarrow> False)"
| "delivers i (QMoveTo q q' j p) d \<longleftrightarrow> j = i \<and> fst (MoveTo q q' j p d) = Inr True"
| "delivers i (QLeaseAndSubmit q j n q' e) d \<longleftrightarrow>
     j = i \<and> (case fst (LeaseAndSubmit q j n q' e d) of Inr (_, b) \<Rightarrow> b | _ \<Rightarrow> False)"
| "delivers i _ d \<longleftrightarrow> False"

fun rearms :: "message_id \<Rightarrow> queue_op \<Rightarrow> bool" where
  "rearms i (QReleaseLease q j) \<longleftrightarrow> j = i"
| "rearms i (QDefer q j n) \<longleftrightarrow> j = i"
| "rearms i (QDeleteAndReleaseLease q j q' j') \<longleftrightarrow> j' = i"
| "rearms i (QReleaseLeaseAndDelete q j q' j') \<longleftrightarrow> j' = i"
| "rearms i _ \<longleftrightarrow> False"

text \<open>Envelopes written by a command name only ids that were handed out.\<close>

fun op_ok :: "queue_op \<Rightarrow> 'a database_scheme \<Rightarrow> bool" where
  "op_ok (QSubmit q e) d \<longleftrightarrow> env_global_msg_id e \<in> insert [] (drawn d)"
| "op_ok (QUpdateBody q i b) d \<longleftrightarrow> body_gmid b \<in> insert [] (drawn d)"
| "op_ok (QLeaseAndSubmit q i n q' e) d \<longleftrightarrow> env_global_msg_id e \<in> insert [] (drawn d)"
| "op_ok _ d \<longleftrightarrow> True"

fun ops_ok :: "queue_op list \<Rightarrow> 'a database_scheme \<Rightarrow> bool" where
  "ops_ok [] d \<longleftrightarrow> True"
| "ops_ok (op # ops) d \<longleftrightarrow> op_ok op d \<and> ops_ok ops (exec_op op d)"

fun deliveries :: "message_id \<Rightarrow> queue_op list \<Rightarrow> 'a database_scheme \<Rightarrow> nat" where
  "deliveries i [] d = 0"
| "deliveries i (op # ops) d = (if delivers i op d then 1 else 0) + deliveries i ops (exec_op op d)"

lemma exec_op_ok:
  assumes "database_ok d" "op_ok op d"
  shows "database_ok (exec_op op d)"
  using assms
  by (cases op) (auto intro: Submit_queue_ok Delete_ok Extend_ok UpdateBody_ok ReleaseLease_ok
      Defer_ok LeaseByID_ok MoveTo_ok DeleteBoth_ok DeleteAndReleaseLease_ok
      ReleaseLeaseAndDelete_ok LeaseAndSubmit_ok, simp add: database_ok_def drawn_def)

text \<open>Row \<open>i\<close> still has delivery budget.\<close>

definition deliverable :: "message_id \<Rightarrow> row list \<Rightarrow> bool" where
  "deliverable i rs \<longleftrightarrow> (\<exists>r \<in> set rs. row_id r = i \<and> row_received r < MaxReceive)"

lemma deliverable_update_where:
  assumes "\<And>r. row_id (u r) = row_id r" "\<And>r. row_id r = i \<Longrightarrow> c r \<Longrightarrow> row_received r \<le> row_received (u r)"
  shows "deliverable i (update_where c u rs) \<Longrightarrow> deliverable i rs"
  using assms by (fastforce simp: deliverable_def set_update_where)

lemma deliverable_filter: "deliverable i (filter P rs) \<Longrightarrow> deliverable i rs"
  by (auto simp: deliverable_def)

lemma deliverable_new:
  "j \<noteq> i \<Longrightarrow> deliverable i (rs @ [new_row t j q b p]) = deliverable i rs"
  by (auto simp: deliverable_def new_row_def)

lemma deliverable_lease:
  "deliverable i (update_where (leasable t q j) (lease_row u) rs) \<Longrightarrow> deliverable i rs"
  by (rule deliverable_update_where) (auto simp: lease_row_def)

lemma not_deliverable_leased:
  assumes "distinct (map row_id rs)" "r \<in> set rs" "leasable t q i r"
  shows "\<not> deliverable i (update_where (leasable t q i) (lease_row u) rs)"
proof
  assume "deliverable i (update_where (leasable t q i) (lease_row u) rs)"
  then obtain r' where r': "r' \<in> set (update_where (leasable t q i) (lease_row u) rs)"
    "row_id r' = i" "row_received r' < MaxReceive"
    by (auto simp: deliverable_def)
  from r'(1) obtain r0 where r0: "r0 \<in> set rs" "r' = (if leasable t q i r0 then lease_row u r0 else r0)"
    by (auto simp: set_update_where)
  with r' have "row_id r0 = i" by (auto split: if_splits)
  with assms r0(1) have "r0 = r"
    using distinct_map_inj by (fastforce simp: leasable_def is_row_def)
  with assms(3) r0(2) r'(3) show False by (simp add: lease_row_def MaxReceive_def)
qed

lemma delivers_deliverable:
  assumes ok: "database_ok d" and del: "delivers i op d"
  shows "deliverable i (rows d)" "\<not> deliverable i (rows (exec_op op d))"
proof -
  have lease: "r \<in> set (rows d) \<Longrightarrow> leasable (clock d) q i r \<Longrightarrow> deliverable i (rows d)" for r q
    by (auto simp: deliverable_def leasable_def is_row_def)
  have "deliverable i (rows d) \<and> \<not> deliverable i (rows (exec_op op d))"
  proof (cases op)
    case [simp]: (QLeaseByID q j n)
    from del have "j = i" by simp
    with del LeaseByID_cases [of q i n d "fst (LeaseByID q i n d)" "snd (LeaseByID q i n d)"]
    obtain r where "r \<in> set (rows d)" "leasable (clock d) q i r" "rows (snd (LeaseByID q i n d))
        = update_where (leasable (clock d) q i) (lease_row (clock d + n)) (rows d)"
      by (auto split: sum.splits option.splits)
    with \<open>j = i\<close> lease not_deliverable_leased [OF database_okD(2) [OF ok]] show ?thesis by simp
  next
    case [simp]: (QMoveTo q q' j p)
    from del have ji: "j = i" and res: "fst (MoveTo q q' i p d) = Inr True" by auto
    obtain d' where d': "MoveTo q q' i p d = (Inr True, d')"
      using res by (metis prod.collapse)
    from MoveTo_cases [OF ok d'] obtain r where r: "r \<in> set (rows d)" "leasable (clock d) q i r"
      "rows (snd (MoveTo q q' i p d)) = filter (\<lambda>r. row_id r \<noteq> i) (rows d)
         @ [new_row (clock d) (fresh_id d) q' (row_body r) p]"
      using d' by auto
    have "fresh_id d \<noteq> i"
      using r database_okD(4) [OF ok] by (auto simp: leasable_def is_row_def)
    then have "\<not> deliverable i (rows (snd (MoveTo q q' i p d)))"
      using r(3) by (simp add: deliverable_new) (auto simp: deliverable_def)
    with r lease ji show ?thesis by simp
  next
    case [simp]: (QLeaseAndSubmit q j n q' e)
    from del have ji: "j = i"
      and res: "case fst (LeaseAndSubmit q i n q' e d) of Inr (_, b) \<Rightarrow> b | _ \<Rightarrow> False" by auto
    then obtain k d' where d': "LeaseAndSubmit q i n q' e d = (Inr (k, True), d')"
      by (cases "LeaseAndSubmit q i n q' e d") (auto split: sum.splits prod.splits)
    from LeaseAndSubmit_cases [OF ok d'] obtain r where r: "r \<in> set (rows d)" "leasable (clock d) q i r"
      "rows (snd (LeaseAndSubmit q i n q' e d)) =
         update_where (leasable (clock d) q i) (lease_row (clock d + n)) (rows d)
         @ [new_row (clock d) (fresh_id d) q' (Encoded e) (env_priority e)]"
      using d' by auto
    have "fresh_id d \<noteq> i"
      using r database_okD(4) [OF ok] by (auto simp: leasable_def is_row_def)
    with r lease ji not_deliverable_leased [OF database_okD(2) [OF ok] r(1,2)] show ?thesis
      by (simp add: deliverable_new)
  qed (use del in auto)
  then show "deliverable i (rows d)" "\<not> deliverable i (rows (exec_op op d))" by auto
qed

lemma not_rearmed:
  assumes ok: "database_ok d" and i: "i \<in> drawn d" and r: "\<not> rearms i op"
    and d': "deliverable i (rows (exec_op op d))"
  shows "deliverable i (rows d)"
proof -
  note g = database_okD(1) [OF ok]
  have fresh: "fresh_id d \<noteq> i"
    using i ok fresh_id_not_drawn by (auto simp: database_ok_def)
  note dest = deliverable_filter deliverable_lease
  have rel: "j \<noteq> i \<Longrightarrow> deliverable i (update_where (is_row q j) (reset_row t) rs) \<Longrightarrow> deliverable i rs"
    for q j t rs by (erule deliverable_update_where [rotated 2]) (auto simp: is_row_def)
  show ?thesis
  proof (cases op)
    case (QSubmit q e)
    with d' fresh queue_op_error(1) [of q e d] queue_op_ok_rows(1) [OF g, of q e] show ?thesis
      by (cases "fst (Submit_queue q e d)") (auto simp: deliverable_new)
  next
    case (QDelete q j)
    with d' queue_op_error(2) [of q j d] queue_op_ok_rows(2) [OF g, of q j] show ?thesis
      by (cases "fst (Delete q j d)") (auto dest: dest)
  next
    case (QExtend q j n)
    with d' queue_op_error(7) [of q j n d] queue_op_ok_rows(9) [OF g, of q j n] show ?thesis
      by (cases "fst (Extend q j n d)") (auto elim!: deliverable_update_where [rotated 2])
  next
    case (QUpdateBody q j b)
    with d' queue_op_error(8) [of q j b d] queue_op_ok_rows(8) [OF g, of q j b] show ?thesis
      by (cases "fst (UpdateBody q j b d)") (auto elim!: deliverable_update_where [rotated 2])
  next
    case (QReleaseLease q j)
    with d' r queue_op_error(9) [of q j d] queue_op_ok_rows(6) [OF g, of q j] show ?thesis
      by (cases "fst (ReleaseLease q j d)") (auto dest: rel)
  next
    case (QDefer q j n)
    with d' r queue_op_error(10) [of q j n d] queue_op_ok_rows(7) [OF g, of q j n] show ?thesis
      by (cases "fst (Defer q j n d)") (auto dest: rel)
  next
    case (QLeaseByID q j n)
    obtain res d'' where e: "LeaseByID q j n d = (res, d'')" by fastforce
    from d' QLeaseByID e show ?thesis
      by (cases rule: LeaseByID_cases [OF e]) (auto dest: dest)
  next
    case (QMoveTo q q' j p)
    obtain res d'' where e: "MoveTo q q' j p d = (res, d'')" by fastforce
    from d' fresh QMoveTo e show ?thesis
      by (cases rule: MoveTo_cases [OF ok e]) (auto simp: deliverable_new dest: dest)
  next
    case (QDeleteBoth q j q' j')
    with d' queue_op_error(4) [of q j q' j' d] queue_op_ok_rows(3) [OF g, of q j q' j'] show ?thesis
      by (cases "fst (DeleteBoth q j q' j' d)") (auto dest: dest)
  next
    case (QDeleteAndReleaseLease q j q' j')
    with d' r queue_op_error(5) [of q j q' j' d] queue_op_ok_rows(4) [OF g, of q j q' j'] show ?thesis
      by (cases "fst (DeleteAndReleaseLease q j q' j' d)") (auto dest: rel dest)
  next
    case (QReleaseLeaseAndDelete q j q' j')
    with d' r queue_op_error(11) [of q j q' j' d] queue_op_ok_rows(5) [OF g, of q j q' j'] show ?thesis
      by (cases "fst (ReleaseLeaseAndDelete q j q' j' d)") (auto dest: rel dest)
  next
    case (QLeaseAndSubmit q j n q' e)
    obtain res d'' where e: "LeaseAndSubmit q j n q' e d = (res, d'')" by fastforce
    from d' fresh QLeaseAndSubmit e show ?thesis
      by (cases rule: LeaseAndSubmit_cases [OF ok e]) (auto simp: deliverable_new dest: dest)
  qed (use d' in auto)
qed

lemma drawn_exec_op: "drawn d \<subseteq> drawn (exec_op op d)"
proof (cases op)
  case (QTick n)
  then show ?thesis by (simp add: drawn_def)
qed (simp_all add: drawn_mono queue_op_frame)

lemma deliveries_spent:
  assumes "database_ok d" "ops_ok ops d" "i \<in> drawn d" "\<forall>op \<in> set ops. \<not> rearms i op"
  shows "deliveries i ops d \<le> (if deliverable i (rows d) then 1 else 0)"
  using assms
proof (induction ops arbitrary: d)
  case (Cons op ops)
  then have ok: "database_ok (exec_op op d)" and i: "i \<in> drawn (exec_op op d)"
    using exec_op_ok drawn_exec_op [of d op] by auto
  have ih: "deliveries i ops (exec_op op d) \<le> (if deliverable i (rows (exec_op op d)) then 1 else 0)"
    using Cons ok i by simp
  show ?case
    using ih delivers_deliverable [OF Cons.prems(1), of i op]
      not_rearmed [OF Cons.prems(1,3), of op] Cons.prems(4)
    by (auto split: if_splits)
qed simp

text \<open>C4. Whatever the queues do and however the clock advances, a row is handed out at most once
  (by \<open>LeaseByID\<close>, \<open>LeaseAndSubmit\<close> or a stealing \<open>MoveTo\<close>) until one of the four operations that
  reset its delivery count names it: an expired lease alone never leads to a second dispatch.\<close>

theorem at_most_one_delivery:
  assumes "database_ok d" "ops_ok ops d" "i \<in> drawn d" "\<forall>op \<in> set ops. \<not> rearms i op"
  shows "deliveries i ops d \<le> 1"
  using deliveries_spent [OF assms] by (simp split: if_splits)

definition two_leases :: "queue_op list" where
  "two_leases = [QLeaseByID ''q'' ''m'' 10, QTick 50, QLeaseByID ''q'' ''m'' 10]"

definition one_row_db :: database where
  "one_row_db = (empty_database 5)\<lparr>rows := [new_row 5 ''m'' ''q'' (Garbage HeaderTooShort) 0], next_id := 1\<rparr>"

lemma one_row_db_ok: "database_ok one_row_db"
  by (auto simp: one_row_db_def database_ok_def empty_database_def new_row_def drawn_def inj_def
      body_gmid_def)

theorem at_most_one_delivery_witness:
  "deliveries ''m'' two_leases one_row_db \<le> 1 \<and> delivers ''m'' (hd two_leases) one_row_db"
proof -
  have "delivers ''m'' (hd two_leases) one_row_db"
    by (simp add: two_leases_def one_row_db_def LeaseByID_def qtx_def leaseByIDTx_def
        empty_database_def new_row_def leasable_def is_row_def visible_def MaxReceive_def)
  moreover have "ops_ok two_leases one_row_db" by (simp add: two_leases_def)
  moreover have "''m'' \<in> drawn one_row_db"
    by (auto simp: one_row_db_def drawn_def empty_database_def)
  ultimately show ?thesis
    using at_most_one_delivery [OF one_row_db_ok, of two_leases "''m''"]
    by (simp add: two_leases_def)
qed

subsection \<open>Peeking\<close>

text \<open>\<open>ORDER BY priority DESC, created\<close>.\<close>

definition before :: "row \<Rightarrow> row \<Rightarrow> bool" where
  "before r r' \<longleftrightarrow> row_priority r > row_priority r'
     \<or> row_priority r = row_priority r' \<and> row_created r \<le> row_created r'"

lemma sorted_queue_order: "sorted_wrt before (queue_order rs)"
proof -
  have "sorted (map (\<lambda>r. (- row_priority r, row_created r)) (queue_order rs))"
    by (simp add: queue_order_def)
  then show ?thesis
    by (simp add: sorted_map before_def less_eq_prod_def sorted_wrt_iff_nth_less)
      (metis order_le_less)
qed

lemma set_queue_order [simp]: "set (queue_order rs) = set rs"
  by (simp add: queue_order_def)

lemma length_queue_order [simp]: "length (queue_order rs) = length rs"
  by (simp add: queue_order_def)

text \<open>C11. A successful \<open>Peek\<close> returns messages of rows of this queue that are visible now, at most
  \<open>limit\<close> of them, higher priority first and older first within a priority; and when a visible
  row of the queue is missing from the answer, the limit was reached and every returned row
  precedes it.\<close>

theorem Peek_ordered_complete:
  assumes "fst (Peek q limit d) = Inr ms"
  shows "\<exists>rs. ms = map message_of rs \<and> length rs \<le> limit \<and> sorted_wrt before rs
    \<and> (\<forall>r \<in> set rs. r \<in> set (rows d) \<and> row_queue r = q \<and> visible (clock d) r)
    \<and> (\<forall>r \<in> set (rows d). row_queue r = q \<and> visible (clock d) r \<and> r \<notin> set rs
         \<longrightarrow> length rs = limit \<and> (\<forall>r' \<in> set rs. before r' r))"
proof -
  define all where "all = queue_order (filter (\<lambda>r. row_queue r = q \<and> visible (clock d) r) (rows d))"
  have ms: "ms = map message_of (take limit all)"
    using assms by (auto simp: Peek_def all_def dest!: qtx_Inr)
  have srt: "sorted_wrt before (take limit all @ drop limit all)"
    using sorted_queue_order by (simp add: all_def)
  have "length (take limit all) = limit \<and> (\<forall>r' \<in> set (take limit all). before r' r)"
    if "r \<in> set (rows d)" "row_queue r = q \<and> visible (clock d) r" "r \<notin> set (take limit all)" for r
  proof -
    from that have "r \<in> set (take limit all @ drop limit all)" by (simp add: all_def)
    with that(3) have "r \<in> set (drop limit all)" by (auto simp del: append_take_drop_id)
    moreover from this have "limit \<le> length all" by (cases "limit \<le> length all") auto
    ultimately show ?thesis using srt unfolding sorted_wrt_append by auto
  qed
  moreover have "\<forall>r \<in> set (take limit all). r \<in> set (rows d) \<and> row_queue r = q \<and> visible (clock d) r"
    by (auto simp: all_def dest: in_set_takeD)
  ultimately show ?thesis
    using ms srt unfolding sorted_wrt_append by (intro exI [of _ "take limit all"]) auto
qed

theorem Peek_ordered_complete_witness:
  "\<exists>rs. map message_of rs = [\<lparr> msg_id = ''m'', msg_body = Garbage HeaderTooShort \<rparr>]
     \<and> sorted_wrt before rs"
proof -
  have "fst (Peek ''q'' 1 one_row_db) = Inr [\<lparr> msg_id = ''m'', msg_body = Garbage HeaderTooShort \<rparr>]"
    by (simp add: Peek_def qtx_def one_row_db_def empty_database_def new_row_def visible_def
        message_of_def queue_order_def)
  from Peek_ordered_complete [OF this] show ?thesis by metis
qed

subsection \<open>Moving and releasing\<close>

text \<open>\<open>MoveTo\<close> conserves jobs under every outcome, database errors included: the multiset of
  bodies in the table never changes; a row that is leased, past its budget or simply not the named
  one is left exactly as it was; and it reports success only after claiming a leasable row, whose
  copy then sits in the destination queue, undelivered, with the requested priority.\<close>

theorem MoveTo_conserves:
  assumes "database_ok d" "MoveTo q q' i p d = (res, d')"
  shows "image_mset row_body (mset (rows d')) = image_mset row_body (mset (rows d))
    \<and> (\<forall>r \<in> set (rows d). \<not> leasable (clock d) q i r \<longrightarrow> r \<in> set (rows d'))
    \<and> (res = Inr True \<longleftrightarrow> rows d' \<noteq> rows d)
    \<and> (res = Inr True \<longrightarrow> (\<exists>r \<in> set (rows d). leasable (clock d) q i r
         \<and> new_row (clock d) (fresh_id d) q' (row_body r) p \<in> set (rows d')
         \<and> (\<forall>r' \<in> set (rows d'). row_id r' \<noteq> i)))"
  using assms
proof (cases rule: MoveTo_cases)
  case (hit r)
  note dist = database_okD(2) [OF assms(1)]
  have i: "row_id r = i" using hit by (auto simp: leasable_def is_row_def)
  have only: "r' \<in> set (rows d) \<Longrightarrow> row_id r' = i \<Longrightarrow> r' = r" for r'
    using distinct_map_inj [OF dist _ hit(1)] i by simp
  have "mset (rows d) = mset (filter (\<lambda>r. row_id r \<noteq> i) (rows d)) + {#r#}"
  proof -
    have "filter (\<lambda>r. row_id r \<noteq> i) (rows d) = removeAll r (rows d)"
      unfolding removeAll_filter_not_eq using only i by (intro filter_cong) auto
    also have "\<dots> = remove1 r (rows d)"
      using dist by (simp add: distinct_map distinct_remove1_removeAll)
    finally show ?thesis using hit(1) by simp
  qed
  from arg_cong [OF this, of "image_mset row_body"]
  have "image_mset row_body (mset (rows d')) = image_mset row_body (mset (rows d))"
    unfolding hit(4) by (simp add: new_row_def)
  moreover have "fresh_id d \<noteq> i" using hit(1) i database_okD(4) [OF assms(1)] by auto
  moreover have "rows d' \<noteq> rows d"
  proof
    assume "rows d' = rows d"
    with hit(1) have "r \<in> set (rows d')" by simp
    with hit(4) i \<open>fresh_id d \<noteq> i\<close> show False by (auto dest: arg_cong [where f = row_id])
  qed
  ultimately show ?thesis
    using hit only by (auto dest: arg_cong [where f = row_id])
qed auto

theorem MoveTo_conserves_witness:
  "\<exists>d'. MoveTo ''q'' ''w'' ''m'' 3 one_row_db = (Inr True, d')
     \<and> image_mset row_body (mset (rows d')) = {# Garbage HeaderTooShort #}"
proof -
  obtain res d' where e: "MoveTo ''q'' ''w'' ''m'' 3 one_row_db = (res, d')" by fastforce
  have "res = Inr True"
    using e by (simp add: MoveTo_def qtx_def one_row_db_def empty_database_def new_row_def leasable_def
        is_row_def visible_def MaxReceive_def set_rows_def send_tx_def signal_def Let_def split: prod.splits)
  moreover have "image_mset row_body (mset (rows d')) = {# Garbage HeaderTooShort #}"
    using MoveTo_conserves [OF one_row_db_ok e] by (simp add: one_row_db_def new_row_def)
  ultimately show ?thesis using e by blast
qed

lemma insort_key_map:
  "insort_key f (g x) (map g xs) = map g (insort_key (\<lambda>x. f (g x)) x xs)"
  by (induction xs) auto

lemma sort_key_map: "sort_key f (map g xs) = map g (sort_key (\<lambda>x. f (g x)) xs)"
  by (induction xs) (auto simp: insort_key_map)

text \<open>Leasing a row and releasing it again, any time later, puts it back into its old place:
  every later \<open>Peek\<close> answers as if the lease had never happened.\<close>

theorem lease_release_keeps_place:
  assumes "LeaseByID q i n d = (Inr (Some m), d1)" "0 \<le> t"
    and "database_ok d"
    and "ReleaseLease q i (d1\<lparr>clock := clock d + t\<rparr>) = (Inr (), d2)"
  shows "fst (Peek q limit d2)
       = fst (Peek q limit (d\<lparr>clock := clock d2, queue_faults := queue_faults d2\<rparr>))"
proof -
  let ?lease = "\<lambda>r. if leasable (clock d) q i r then lease_row (clock d + n) r else r"
  let ?reset = "\<lambda>r. if is_row q i r then reset_row (clock d + t - 1000) r else r"
  have r1: "rows d1 = map ?lease (rows d)"
    using assms(1) by (auto elim!: LeaseByID_cases simp: update_where_def)
  have fr: "queue_frame d d1" using queue_op_frame(7) [of d q i n] assms(1) by simp
  have c2: "clock d2 = clock d + t"
    using queue_op_frame(5) [of "d1\<lparr>clock := clock d + t\<rparr>" q i] assms(4) by (simp add: queue_frame_def)
  have r2: "rows d2 = map (\<lambda>r. ?reset (?lease r)) (rows d)"
    using queue_op_ok_rows(6) [of "d1\<lparr>clock := clock d + t\<rparr>" q i] database_okD(1) [OF assms(3)] assms(4) fr r1
    by (auto simp: queue_frame_def update_where_def o_def)
  obtain r where hit: "r \<in> set (rows d)" "leasable (clock d) q i r"
    using assms(1) by (auto elim!: LeaseByID_cases)
  have only: "r' = r" if "r' \<in> set (rows d)" "is_row q i r'" for r'
    using that hit distinct_map_inj [OF database_okD(2) [OF assms(3)]]
    by (auto simp: leasable_def is_row_def)
  let ?g = "\<lambda>r. ?reset (?lease r)"
  let ?P = "\<lambda>r. row_queue r = q \<and> visible (clock d + t) r"
  have keep: "row_priority (?g r) = row_priority r" "row_created (?g r) = row_created r"
    "message_of (?g r) = message_of r" for r by (auto simp: message_of_def)
  have "?P (?g r') = ?P r'" if "r' \<in> set (rows d)" for r'
    using that only [of r'] hit assms(2)
    by (auto simp: leasable_def visible_def reset_row_def is_row_def)
  then have "filter ?P (rows d2) = map ?g (filter ?P (rows d))"
    unfolding r2 filter_map o_def by (intro arg_cong [where f = "map ?g"] filter_cong) auto
  then have "map message_of (take limit (queue_order (filter ?P (rows d2))))
      = map message_of (take limit (queue_order (filter ?P (rows d))))"
    by (simp only: queue_order_def sort_key_map keep take_map map_map o_def)
  then show ?thesis
    by (simp add: Peek_def qtx_def Let_def c2)
qed

theorem lease_release_keeps_place_witness:
  "\<exists>d2 :: database. fst (Peek ''q'' 1 d2) = Inr [\<lparr> msg_id = ''m'', msg_body = Garbage HeaderTooShort \<rparr>]"
proof -
  define d1 where "d1 = snd (LeaseByID ''q'' ''m'' 10 one_row_db)"
  define d2 where "d2 = snd (ReleaseLease ''q'' ''m'' (d1\<lparr>clock := clock one_row_db + 7\<rparr>))"
  note defs = LeaseByID_def qtx_def one_row_db_def empty_database_def new_row_def leasable_def
    is_row_def visible_def MaxReceive_def set_rows_def leaseByIDTx_def ReleaseLease_def
    signal_def release_tx_def
  have 1: "LeaseByID ''q'' ''m'' 10 one_row_db
      = (Inr (Some \<lparr> msg_id = ''m'', msg_body = Garbage HeaderTooShort \<rparr>), d1)"
    by (simp add: d1_def defs)
  have 2: "ReleaseLease ''q'' ''m'' (d1\<lparr>clock := clock one_row_db + 7\<rparr>) = (Inr (), d2)"
    by (simp add: d2_def d1_def defs)
  have "queue_faults d2 = []" by (simp add: d2_def d1_def defs)
  moreover have "clock d2 = 12" by (simp add: d2_def d1_def defs)
  ultimately have "fst (Peek ''q'' 1 d2) = Inr [\<lparr> msg_id = ''m'', msg_body = Garbage HeaderTooShort \<rparr>]"
    using lease_release_keeps_place [OF 1 _ one_row_db_ok 2, of 1]
    by (simp add: Peek_def qtx_def one_row_db_def empty_database_def
        new_row_def visible_def message_of_def queue_order_def)
  then show ?thesis by blast
qed

end
