(* ===== verification/Config.thy ===== *)
theory Config
  imports Mass_Prelude
begin

text \<open>
  \<open>internal/config/config.go\<close>: the effective settings the scheduler reads, the log levels, and the
  command-string helpers. A duration setting is the result of \<open>time.ParseDuration\<close> on the
  configured text (\<open>None\<close> when the text is empty or does not parse), in milliseconds.
\<close>

subsection \<open>Effective settings\<close>

record config =
  cf_result_ttl :: "time option"
  cf_idle_eviction_ttl :: "time option"
  cf_stream_replay_ttl :: "time option"
  cf_load_attempts :: int
  cf_bench_budget_seconds :: rat
  cf_bench_slots_cap :: int
  cf_listen_addr :: string
  cf_registry_url :: string
  cf_update_url :: string
  cf_db_dialect :: string
  cf_db_dsn :: string

definition DefaultResultTTL :: time where "DefaultResultTTL = 24 * 60 * 60 * 1000"
definition DefaultIdleEvictionTTL :: time where "DefaultIdleEvictionTTL = 30 * 1000"
definition DefaultStreamReplayTTL :: time where "DefaultStreamReplayTTL = 30 * 1000"
definition DefaultLoadAttempts :: int where "DefaultLoadAttempts = 1"
definition DefaultBenchBudgetSeconds :: rat where "DefaultBenchBudgetSeconds = 5 / 2"
definition DefaultBenchSlotsCap :: int where "DefaultBenchSlotsCap = 16"
definition DefaultListenAddr :: string where "DefaultListenAddr = ''127.0.0.1:3455''"
definition DefaultRegistryURL :: string where
  "DefaultRegistryURL = ''https://raw.githubusercontent.com/chinese-room-solutions/mass-registry/main/index.yml''"
definition DefaultUpdateURL :: string where
  "DefaultUpdateURL = ''https://github.com/chinese-room-solutions/mass''"

definition EffectiveResultTTL :: "config \<Rightarrow> time" where
  "EffectiveResultTTL c = (case cf_result_ttl c of None \<Rightarrow> DefaultResultTTL | Some t \<Rightarrow> t)"

definition EffectiveIdleEvictionTTL :: "config \<Rightarrow> time" where
  "EffectiveIdleEvictionTTL c =
     (case cf_idle_eviction_ttl c of None \<Rightarrow> DefaultIdleEvictionTTL | Some t \<Rightarrow> t)"

definition EffectiveStreamReplayTTL :: "config \<Rightarrow> time" where
  "EffectiveStreamReplayTTL c =
     (case cf_stream_replay_ttl c of None \<Rightarrow> DefaultStreamReplayTTL | Some t \<Rightarrow> t)"

definition EffectiveLoadAttempts :: "config \<Rightarrow> int" where
  "EffectiveLoadAttempts c =
     (if cf_load_attempts c \<le> 0 then DefaultLoadAttempts else cf_load_attempts c)"

definition EffectiveBenchBudgetSeconds :: "config \<Rightarrow> rat" where
  "EffectiveBenchBudgetSeconds c =
     (if cf_bench_budget_seconds c \<le> 0 then DefaultBenchBudgetSeconds else cf_bench_budget_seconds c)"

definition EffectiveBenchSlotsCap :: "config \<Rightarrow> int" where
  "EffectiveBenchSlotsCap c =
     (if cf_bench_slots_cap c \<le> 0 then DefaultBenchSlotsCap else cf_bench_slots_cap c)"

definition EffectiveListenAddr :: "config \<Rightarrow> string" where
  "EffectiveListenAddr c = (if cf_listen_addr c \<noteq> '''' then cf_listen_addr c else DefaultListenAddr)"

definition EffectiveRegistryURL :: "config \<Rightarrow> string" where
  "EffectiveRegistryURL c = (if cf_registry_url c \<noteq> '''' then cf_registry_url c else DefaultRegistryURL)"

definition EffectiveUpdateURL :: "config \<Rightarrow> string" where
  "EffectiveUpdateURL c = (if cf_update_url c \<noteq> '''' then cf_update_url c else DefaultUpdateURL)"

lemma effective_positive [simp]:
  "0 < EffectiveLoadAttempts c" "0 < EffectiveBenchBudgetSeconds c" "0 < EffectiveBenchSlotsCap c"
  by (auto simp: EffectiveLoadAttempts_def EffectiveBenchBudgetSeconds_def EffectiveBenchSlotsCap_def
      DefaultLoadAttempts_def DefaultBenchBudgetSeconds_def DefaultBenchSlotsCap_def)

subsection \<open>Log levels\<close>

datatype zerolog_level = TraceLevel | DebugLevel | InfoLevel | WarnLevel | ErrorLevel | FatalLevel
  | PanicLevel | Disabled | OtherLevel int

fun MarshalText :: "zerolog_level \<Rightarrow> string" where
  "MarshalText TraceLevel = ''trace''"
| "MarshalText DebugLevel = ''debug''"
| "MarshalText InfoLevel = ''info''"
| "MarshalText WarnLevel = ''warn''"
| "MarshalText ErrorLevel = ''error''"
| "MarshalText FatalLevel = ''fatal''"
| "MarshalText PanicLevel = ''panic''"
| "MarshalText Disabled = ''disabled''"
| "MarshalText (OtherLevel n) = ''info''"

definition UnmarshalText :: "string \<Rightarrow> zerolog_level option" where
  "UnmarshalText t =
     (if t = ''trace'' then Some TraceLevel else if t = ''debug'' then Some DebugLevel
      else if t = ''info'' then Some InfoLevel else if t = ''warn'' then Some WarnLevel
      else if t = ''error'' then Some ErrorLevel else if t = ''fatal'' then Some FatalLevel
      else if t = ''panic'' then Some PanicLevel else if t = ''disabled'' then Some Disabled
      else None)"

subsection \<open>Command strings\<close>

text \<open>The loop of \<open>SplitCommand\<close>: finished parts, the current token and the quote flag.\<close>

fun split_loop :: "string \<Rightarrow> string list \<Rightarrow> string \<Rightarrow> bool \<Rightarrow> string list" where
  "split_loop [] parts current inQuote =
     (if length current > 0 then parts @ [current] else parts)"
| "split_loop (ch # cs) parts current inQuote =
     (if ch = CHR 0x22 then split_loop cs parts current (\<not> inQuote)
      else if ch = CHR '' '' \<and> \<not> inQuote
      then (if length current > 0 then split_loop cs (parts @ [current]) [] inQuote
            else split_loop cs parts current inQuote)
      else split_loop cs parts (current @ [ch]) inQuote)"

definition SplitCommand :: "string \<Rightarrow> string list" where
  "SplitCommand command = split_loop command [] [] False"

definition QuotePath :: "string \<Rightarrow> string" where
  "QuotePath path = (if CHR '' '' \<in> set path then [CHR 0x22] @ path @ [CHR 0x22] else path)"

fun join_space :: "string list \<Rightarrow> string" where
  "join_space [] = []"
| "join_space [p] = p"
| "join_space (p # ps) = p @ [CHR '' ''] @ join_space ps"

text \<open>\<open>strings.ReplaceAll\<close> for a non-empty pattern: leftmost, non-overlapping.\<close>

fun replace_from :: "nat \<Rightarrow> string \<Rightarrow> string \<Rightarrow> string \<Rightarrow> string" where
  "replace_from 0 old new s = s"
| "replace_from (Suc n) old new s =
     (if s = [] then []
      else if take (length old) s = old then new @ replace_from n old new (drop (length old) s)
      else hd s # replace_from n old new (tl s))"

definition replace_all :: "string \<Rightarrow> string \<Rightarrow> string \<Rightarrow> string" where
  "replace_all old new s = replace_from (length s) old new s"

definition ExpandVars :: "string \<Rightarrow> (string \<times> string) list \<Rightarrow> string" where
  "ExpandVars s vars = foldl (\<lambda>s (k, v). replace_all (''${'' @ k @ ''}'') v s) s vars"

definition ExpandCommandVars :: "string \<Rightarrow> (string \<times> string) list \<Rightarrow> string" where
  "ExpandCommandVars command vars =
     join_space (map (\<lambda>p. let expanded = ExpandVars p vars
                          in if expanded \<noteq> p then QuotePath expanded else p) (SplitCommand command))"

definition plain_token :: "string \<Rightarrow> bool" where
  "plain_token t \<longleftrightarrow> t \<noteq> [] \<and> CHR 0x22 \<notin> set t"

lemma split_loop_quoted:
  assumes "CHR 0x22 \<notin> set t"
  shows "split_loop (t @ CHR 0x22 # cs) parts cur True = split_loop cs parts (cur @ t) False"
  using assms by (induction t arbitrary: cur) auto

lemma split_loop_bare:
  assumes "CHR 0x22 \<notin> set t" "CHR '' '' \<notin> set t"
  shows "split_loop (t @ cs) parts cur False = split_loop cs parts (cur @ t) False"
  using assms by (induction t arbitrary: cur) auto

lemma split_loop_token:
  assumes "plain_token t"
  shows "split_loop (QuotePath t @ cs) parts [] False = split_loop cs parts t False"
  using assms split_loop_quoted [of t cs parts "[]"] split_loop_bare [of t cs parts "[]"]
  by (auto simp: QuotePath_def plain_token_def)

lemma split_loop_join:
  assumes "\<forall>t \<in> set ts. plain_token t"
  shows "split_loop (join_space (map QuotePath ts)) parts [] False = parts @ ts"
  using assms
proof (induction ts arbitrary: parts rule: join_space.induct)
  case (2 t)
  then show ?case using split_loop_token [of t "[]" parts] by (simp add: plain_token_def)
next
  case (3 t t' ts)
  then have "plain_token t" by simp
  then have "split_loop (join_space (map QuotePath (t # t' # ts))) parts [] False
      = split_loop (join_space (map QuotePath (t' # ts))) (parts @ [t]) [] False"
    by (simp add: split_loop_token) (simp add: plain_token_def)
  with 3 show ?case by simp
qed simp

text \<open>A command line built by quoting each token splits back into exactly those tokens: for
  all non-empty tokens without a double quote, spaces included.\<close>

theorem SplitCommand_QuotePath:
  assumes "\<forall>t \<in> set ts. plain_token t"
  shows "SplitCommand (join_space (map QuotePath ts)) = ts"
  using split_loop_join [OF assms, of "[]"] by (simp add: SplitCommand_def)

theorem SplitCommand_QuotePath_witness:
  "SplitCommand (join_space (map QuotePath [''C:/Program Files/app'', ''--flag''])) =
     [''C:/Program Files/app'', ''--flag'']"
  using SplitCommand_QuotePath [of "[''C:/Program Files/app'', ''--flag'']"]
  by (simp add: plain_token_def)

text \<open>\<open>ExpandCommandVars\<close> unquotes a token that it does not change: expanding nothing already
  splits a quoted path at its spaces.\<close>

lemma ExpandCommandVars_unquotes:
  "SplitCommand (ExpandCommandVars (QuotePath ''my app'' @ '' -x'') [])
     = [''my'', ''app'', ''-x''] \<and>
   SplitCommand (QuotePath ''my app'' @ '' -x'') = [''my app'', ''-x'']"
  by (simp add: ExpandCommandVars_def SplitCommand_def QuotePath_def ExpandVars_def)

end
