(* ===== verification/Results.thy ===== *)
theory Results
  imports Queue_Laws
begin

text \<open>
  \<open>internal/queue/results.go\<close> (the result table) and \<open>internal/queue/sweeper.go\<close> (the startup
  sweep over abandoned rows). Completion times are the clock's value; the code stores them as
  text in UTC.
\<close>

subsection \<open>Statements on the result table\<close>

definition update_result :: "request_id \<Rightarrow> (result_row \<Rightarrow> bool) \<Rightarrow> (result_row \<Rightarrow> result_row)
    \<Rightarrow> (request_id \<times> result_row) list \<Rightarrow> (request_id \<times> result_row) list" where
  "update_result i c u = update_where (\<lambda>(k, r). k = i \<and> c r) (\<lambda>(k, r). (k, u r))"

lemma keys_update_result [simp]: "keys (update_result i c u rs) = keys rs"
  unfolding update_result_def by (rule map_update_where) (simp add: split_beta)

lemma map_of_update_result:
  "map_of (update_result i c u rs) k =
     (if k = i then map_option (\<lambda>r. if c r then u r else r) (map_of rs i) else map_of rs k)"
  if "distinct (keys rs)"
  using that by (induction rs) (auto simp: update_result_def map_of_eq_None_iff)

definition Create :: "request_id \<Rightarrow> 'a database_scheme \<Rightarrow> (db_error + unit) \<times> 'a database_scheme" where
  "Create i d = rtx (\<lambda>d. if i \<in> set (keys (results d)) then (Inl DuplicateKey, d)
     else (Inr (), d\<lparr>results := results d @ [(i, \<lparr> res_status = Pending, res_body = None,
        res_error = None, res_created = clock d, res_completed = None \<rparr>)]\<rparr>)) d"

definition set_result :: "request_id \<Rightarrow> (result_row \<Rightarrow> bool) \<Rightarrow> (time \<Rightarrow> result_row \<Rightarrow> result_row)
    \<Rightarrow> 'a database_scheme \<Rightarrow> (db_error + unit) \<times> 'a database_scheme" where
  "set_result i c u d =
     rtx (\<lambda>d. (Inr (), d\<lparr>results := update_result i c (u (clock d)) (results d)\<rparr>)) d"

definition ProcessingResult :: "request_id \<Rightarrow> 'a database_scheme \<Rightarrow> (db_error + unit) \<times> 'a database_scheme" where
  "ProcessingResult i =
     set_result i (\<lambda>r. res_status r = Pending) (\<lambda>now r. r\<lparr>res_status := Processing\<rparr>)"

definition PendingResult :: "request_id \<Rightarrow> 'a database_scheme \<Rightarrow> (db_error + unit) \<times> 'a database_scheme" where
  "PendingResult i =
     set_result i (\<lambda>r. res_status r = Processing) (\<lambda>now r. r\<lparr>res_status := Pending\<rparr>)"

definition Complete :: "request_id \<Rightarrow> bytes \<Rightarrow> 'a database_scheme \<Rightarrow> (db_error + unit) \<times> 'a database_scheme" where
  "Complete i body = set_result i (\<lambda>r. True)
     (\<lambda>now r. r\<lparr>res_status := Done, res_body := Some body, res_completed := Some now\<rparr>)"

definition Fail :: "request_id \<Rightarrow> string \<Rightarrow> 'a database_scheme \<Rightarrow> (db_error + unit) \<times> 'a database_scheme" where
  "Fail i msg = set_result i (\<lambda>r. True)
     (\<lambda>now r. r\<lparr>res_status := Failed, res_error := Some msg, res_completed := Some now\<rparr>)"

definition Get :: "request_id \<Rightarrow> 'a database_scheme \<Rightarrow> (db_error + result_row option) \<times> 'a database_scheme" where
  "Get i d = rtx (\<lambda>d. (Inr (map_of (results d) i), d)) d"

definition terminal :: "result_status \<Rightarrow> bool" where
  "terminal s \<longleftrightarrow> s = Done \<or> s = Failed"

definition expired :: "time \<Rightarrow> result_row \<Rightarrow> bool" where
  "expired cutoff r \<longleftrightarrow> terminal (res_status r)
     \<and> (case res_completed r of None \<Rightarrow> False | Some t \<Rightarrow> t < cutoff)"

definition Cleanup :: "time \<Rightarrow> 'a database_scheme \<Rightarrow> (db_error + nat) \<times> 'a database_scheme" where
  "Cleanup ttl d = rtx (\<lambda>d.
     let keep = filter (\<lambda>(k, r). \<not> expired (clock d - ttl) r) (results d)
     in (Inr (length (results d) - length keep), d\<lparr>results := keep\<rparr>)) d"

lemmas result_op_defs = Create_def ProcessingResult_def PendingResult_def Complete_def Fail_def
  Get_def Cleanup_def set_result_def rtx_def

subsection \<open>The life cycle of a result\<close>

definition status_of :: "request_id \<Rightarrow> 'a database_scheme \<Rightarrow> result_status option" where
  "status_of i d = map_option res_status (map_of (results d) i)"

definition settled :: "request_id \<Rightarrow> 'a database_scheme \<Rightarrow> bool" where
  "settled i d \<longleftrightarrow> (case status_of i d of None \<Rightarrow> True | Some s \<Rightarrow> terminal s)"

text \<open>The transitions a single statement may make on one key.\<close>

definition allowed :: "result_status option \<Rightarrow> result_status option \<Rightarrow> bool" where
  "allowed s s' \<longleftrightarrow> s' = s \<or> (s = None \<and> s' = Some Pending)
     \<or> (s = Some Pending \<and> s' = Some Processing) \<or> (s = Some Processing \<and> s' = Some Pending)
     \<or> (s \<noteq> None \<and> (s' = Some Done \<or> s' = Some Failed))
     \<or> ((s = Some Done \<or> s = Some Failed) \<and> s' = None)"

text \<open>What a statement on the result table leaves alone.\<close>

definition result_frame :: "'a database_scheme \<Rightarrow> 'a database_scheme \<Rightarrow> bool" where
  "result_frame d d' \<longleftrightarrow> rows d' = rows d \<and> tails d' = tails d
     \<and> model_benches d' = model_benches d \<and> device_benches d' = device_benches d
     \<and> device_enabled_rows d' = device_enabled_rows d
     \<and> clock d' = clock d \<and> id_supply d' = id_supply d \<and> next_id d' = next_id d
     \<and> notified d' = notified d \<and> queue_faults d' = queue_faults d
     \<and> state_faults d' = state_faults d \<and> driver d' = driver d
     \<and> database.more d' = database.more d"

lemma result_frame_refl [simp]: "result_frame d d" by (simp add: result_frame_def)

lemma result_frame_trans: "result_frame a b \<Longrightarrow> result_frame b c \<Longrightarrow> result_frame a c"
  by (auto simp: result_frame_def)

lemma result_op_frame:
  "result_frame d (snd (Create i d))" "result_frame d (snd (ProcessingResult i d))"
  "result_frame d (snd (PendingResult i d))" "result_frame d (snd (Complete i b d))"
  "result_frame d (snd (Fail i m d))" "result_frame d (snd (Get i d))"
  "result_frame d (snd (Cleanup t d))"
  by (auto simp: result_op_defs result_frame_def Let_def)

lemma Get_results [simp]: "results (snd (Get i d)) = results d"
  by (simp add: Get_def rtx_def Let_def)

lemma result_frame_ok:
  assumes "database_ok d" "result_frame d d'" "distinct (keys (results d'))"
  shows "database_ok d'"
  using assms by (simp add: database_ok_def result_frame_def drawn_def)

lemma result_op_ok:
  assumes "database_ok d"
  shows "database_ok (snd (Create i d))" "database_ok (snd (ProcessingResult i d))"
    "database_ok (snd (PendingResult i d))" "database_ok (snd (Complete i b d))"
    "database_ok (snd (Fail i m d))" "database_ok (snd (Get i d))"
    "database_ok (snd (Cleanup t d))"
  using database_okD(6) [OF assms]
  by (auto intro!: result_frame_ok [OF assms result_op_frame(1)]
      result_frame_ok [OF assms result_op_frame(2)] result_frame_ok [OF assms result_op_frame(3)]
      result_frame_ok [OF assms result_op_frame(4)] result_frame_ok [OF assms result_op_frame(5)]
      result_frame_ok [OF assms result_op_frame(6)] result_frame_ok [OF assms result_op_frame(7)])
    (auto simp: result_op_defs Let_def distinct_map_filter)

datatype result_op =
    RCreate request_id | RProcessing request_id | RPending request_id
  | RComplete request_id bytes | RFail request_id string | RGet request_id | RCleanup time

fun exec_result :: "result_op \<Rightarrow> 'a database_scheme \<Rightarrow> 'a database_scheme" where
  "exec_result (RCreate i) d = snd (Create i d)"
| "exec_result (RProcessing i) d = snd (ProcessingResult i d)"
| "exec_result (RPending i) d = snd (PendingResult i d)"
| "exec_result (RComplete i b) d = snd (Complete i b d)"
| "exec_result (RFail i m) d = snd (Fail i m d)"
| "exec_result (RGet i) d = snd (Get i d)"
| "exec_result (RCleanup t) d = snd (Cleanup t d)"

lemma exec_result_ok: "database_ok d \<Longrightarrow> database_ok (exec_result op d)"
  by (cases op) (simp_all add: result_op_ok)

lemma set_result_results:
  "results (snd (set_result i c u d)) = results d
   \<or> results (snd (set_result i c u d)) = update_result i c (u (clock d)) (results d)"
  by (simp add: set_result_def rtx_def Let_def)

lemma set_result_status:
  assumes "database_ok d"
  shows "status_of k (snd (set_result i c u d)) = status_of k d
    \<or> k = i \<and> (\<exists>r. map_of (results d) i = Some r \<and> c r
         \<and> status_of k (snd (set_result i c u d)) = Some (res_status (u (clock d) r)))"
proof -
  have "status_of k d' = status_of k d \<or> k = i \<and> (\<exists>r. map_of (results d) i = Some r \<and> c r
         \<and> status_of k d' = Some (res_status (u (clock d) r)))"
    if "results d' = update_result i c (u (clock d)) (results d)" for d' :: "'a database_scheme"
    unfolding status_of_def that map_of_update_result [OF database_okD(6) [OF assms]]
    by (cases "map_of (results d) i") (simp_all del: map_of_eq_Some_iff)
  then show ?thesis
    using set_result_results [of i c u d] by (metis status_of_def)
qed

text \<open>The statements that change a status, in the shape of the life cycle.\<close>

lemma mark_status:
  assumes "database_ok d"
  shows "status_of k (snd (ProcessingResult i d)) = status_of k d
      \<or> status_of k d = Some Pending \<and> status_of k (snd (ProcessingResult i d)) = Some Processing"
    "status_of k (snd (PendingResult i d)) = status_of k d
      \<or> status_of k d = Some Processing \<and> status_of k (snd (PendingResult i d)) = Some Pending"
    "status_of k (snd (Complete i b d)) = status_of k d
      \<or> k = i \<and> status_of k d \<noteq> None \<and> status_of k (snd (Complete i b d)) = Some Done"
    "status_of k (snd (Fail i m d)) = status_of k d
      \<or> k = i \<and> status_of k d \<noteq> None \<and> status_of k (snd (Fail i m d)) = Some Failed"
    "status_of k (snd (Create i d)) = status_of k d
      \<or> k = i \<and> status_of k d = None \<and> status_of k (snd (Create i d)) = Some Pending"
    "status_of k (snd (Get i d)) = status_of k d"
  using set_result_status [OF assms, of k i]
  unfolding ProcessingResult_def PendingResult_def Complete_def Fail_def
      apply (fastforce simp: status_of_def)+
  by (auto simp: Create_def rtx_def Let_def status_of_def map_add_def map_of_eq_None_iff
      split: option.splits)

lemma map_of_filter_snd:
  "distinct (keys xs) \<Longrightarrow> map_of (filter (\<lambda>(k, r). P r) xs) k =
     (case map_of xs k of None \<Rightarrow> None | Some r \<Rightarrow> if P r then Some r else None)"
  by (induction xs) (auto simp: map_of_eq_None_iff split: option.splits)

lemma Cleanup_map_of:
  assumes "database_ok d" "fst (Cleanup ttl d) = Inr n"
  shows "map_of (results (snd (Cleanup ttl d))) k =
    (case map_of (results d) k of None \<Rightarrow> None
     | Some r \<Rightarrow> if expired (clock d - ttl) r then None else Some r)"
  using assms(2) map_of_filter_snd [OF database_okD(6) [OF assms(1)], of "\<lambda>r. \<not> expired (clock d - ttl) r" k]
  by (auto simp: Cleanup_def rtx_def Let_def split: if_splits option.splits)

lemma exec_result_allowed:
  assumes ok: "database_ok d"
  shows "allowed (status_of k d) (status_of k (exec_result op d))"
proof (cases op)
  case (RCleanup ttl)
  show ?thesis
  proof (cases "fst (Cleanup ttl d)")
    case Inl
    then have "results (snd (Cleanup ttl d)) = results d"
      by (auto simp: Cleanup_def rtx_def Let_def split: if_splits)
    with RCleanup show ?thesis by (simp add: status_of_def allowed_def)
  next
    case (Inr n)
    then have "status_of k (snd (Cleanup ttl d)) = status_of k d
      \<or> status_of k (snd (Cleanup ttl d)) = None \<and> (\<exists>s. status_of k d = Some s \<and> terminal s)"
      using Cleanup_map_of [OF ok Inr, of k]
      by (cases "map_of (results d) k") (auto simp: status_of_def expired_def)
    with RCleanup show ?thesis by (auto simp: allowed_def terminal_def)
  qed
qed (use mark_status [OF ok, of k] in \<open>simp_all add: allowed_def\<close>, metis+)

lemma terminal_stays:
  assumes "database_ok d" "status_of k d = Some s" "terminal s" "\<forall>t. op \<noteq> RCleanup t"
  shows "\<exists>s'. status_of k (exec_result op d) = Some s' \<and> terminal s'"
proof -
  note m = mark_status [OF assms(1), of k]
  show ?thesis
  proof (cases op)
    case (RProcessing i) then show ?thesis using m(1) [of i] assms by (auto simp: terminal_def)
  next
    case (RPending i) then show ?thesis using m(2) [of i] assms by (auto simp: terminal_def)
  next
    case (RComplete i b) then show ?thesis using m(3) [of i b] assms by (auto simp: terminal_def)
  next
    case (RFail i e) then show ?thesis using m(4) [of i e] assms by (auto simp: terminal_def)
  next
    case (RCreate i) then show ?thesis using m(5) [of i] assms by auto
  next
    case (RGet i) then show ?thesis using m(6) [of i] assms by auto
  qed (use assms in auto)
qed


definition results_db :: database where
  "results_db = (empty_database 100)\<lparr>results := [(''a'', \<lparr> res_status = Done, res_body = Some [1],
     res_error = None, res_created = 1, res_completed = Some 7 \<rparr>)]\<rparr>"


end
