(* ===== verification/Sweeper.thy ===== *)
theory Sweeper
  imports Results
begin

text \<open>
  \<open>internal/queue/sweeper.go\<close>: the startup sweep that fails and deletes the jobs a crash left
  past their delivery budget, and the invariant every part of the program maintains between the
  queues and the results: a result that is not terminal has a durability anchor, a row of the
  global queue that carries its request.
\<close>

subsection \<open>The sweep\<close>

definition reap_message :: string where
  "reap_message = ''task abandoned: delivered 1 of 1 times, no result reported''"

definition reap_request :: "message \<Rightarrow> request_id" where
  "reap_request m = (case unmarshal_body (msg_body m) of
      Inl _ \<Rightarrow> msg_id m
    | Inr e \<Rightarrow> if env_request_id e \<noteq> '''' then env_request_id e else msg_id m)"

definition reapOne :: "queue_name \<Rightarrow> queue_name option \<Rightarrow> message \<Rightarrow> 'a database_scheme
    \<Rightarrow> (db_error + unit) \<times> 'a database_scheme" where
  "reapOne q anchorQ m d =
     (let requestID = reap_request m; anchorID = body_gmid (msg_body m) in
      case Get requestID d of
        (Inl err, d) \<Rightarrow> (Inl err, d)
      | (Inr existing, d) \<Rightarrow>
          let already = (case existing of None \<Rightarrow> False | Some r \<Rightarrow> terminal (res_status r));
              (failed, d) = (if already then (Inr (), d) else Fail requestID reap_message d)
          in case failed of
               Inl err \<Rightarrow>
                 if err = NoRows
                 then (if anchorQ \<noteq> None \<and> anchorID \<noteq> ''''
                       then DeleteBoth q (msg_id m) (the anchorQ) anchorID d
                       else Delete q (msg_id m) d)
                 else (Inl err, d)
             | Inr _ \<Rightarrow>
                 if anchorQ \<noteq> None \<and> anchorID \<noteq> ''''
                 then DeleteBoth q (msg_id m) (the anchorQ) anchorID d
                 else Delete q (msg_id m) d)"

fun reapEach :: "queue_name \<Rightarrow> queue_name option \<Rightarrow> message list \<Rightarrow> nat \<Rightarrow> 'a database_scheme
    \<Rightarrow> nat \<times> 'a database_scheme" where
  "reapEach q anchorQ [] n d = (n, d)"
| "reapEach q anchorQ (m # ms) n d =
     (case reapOne q anchorQ m d of
        (Inl _, d) \<Rightarrow> reapEach q anchorQ ms n d
      | (Inr _, d) \<Rightarrow> reapEach q anchorQ ms (Suc n) d)"

definition reapQueue :: "queue_name \<Rightarrow> queue_name option \<Rightarrow> 'a database_scheme
    \<Rightarrow> (nat \<times> db_error option) \<times> 'a database_scheme" where
  "reapQueue q anchorQ d = (case ListAbandoned q d of
      (Inl err, d) \<Rightarrow> ((0, Some err), d)
    | (Inr ms, d) \<Rightarrow> let (n, d) = reapEach q anchorQ ms 0 d in ((n, None), d))"

fun reapWorkers :: "queue_name list \<Rightarrow> nat \<Rightarrow> 'a database_scheme
    \<Rightarrow> (nat \<times> db_error option) \<times> 'a database_scheme" where
  "reapWorkers [] tot d = ((tot, None), d)"
| "reapWorkers (q # qs) tot d = (case reapQueue q (Some GlobalQueueName) d of
      ((n, Some err), d) \<Rightarrow> ((tot + n, Some err), d)
    | ((n, None), d) \<Rightarrow> reapWorkers qs (tot + n) d)"

definition ReapAbandoned :: "queue_name list \<Rightarrow> 'a database_scheme
    \<Rightarrow> (nat \<times> db_error option) \<times> 'a database_scheme" where
  "ReapAbandoned workerQueues d = (case reapQueue GlobalQueueName None d of
      ((tot, Some err), d) \<Rightarrow> ((tot, Some err), d)
    | ((tot, None), d) \<Rightarrow> reapWorkers workerQueues tot d)"

subsection \<open>The durability anchor\<close>

text \<open>The request a row stands for, the link from a worker row to its global anchor, and the
  invariant: no live result without an anchor.\<close>

definition job_id :: "row \<Rightarrow> request_id" where
  "job_id r = reap_request (message_of r)"

definition is_anchor :: "request_id \<Rightarrow> row \<Rightarrow> bool" where
  "is_anchor i r \<longleftrightarrow> row_queue r = GlobalQueueName \<and> job_id r = i"

definition live :: "request_id \<Rightarrow> 'a database_scheme \<Rightarrow> bool" where
  "live i d \<longleftrightarrow> (\<exists>s. status_of i d = Some s \<and> \<not> terminal s)"

definition anchored :: "'a database_scheme \<Rightarrow> bool" where
  "anchored d \<longleftrightarrow> (\<forall>i. live i d \<longrightarrow> (\<exists>r \<in> set (rows d). is_anchor i r))"

definition linked :: "'a database_scheme \<Rightarrow> bool" where
  "linked d \<longleftrightarrow> (\<forall>w \<in> set (rows d). row_queue w \<noteq> GlobalQueueName \<longrightarrow>
     (\<forall>a \<in> set (rows d). is_row GlobalQueueName (body_gmid (row_body w)) a \<longrightarrow> job_id a = job_id w))"

text \<open>Rows disappear only when their job is settled, and results only leave the live states.\<close>

definition settles :: "'a database_scheme \<Rightarrow> 'a database_scheme \<Rightarrow> bool" where
  "settles d d' \<longleftrightarrow> set (rows d') \<subseteq> set (rows d)
     \<and> (\<forall>r \<in> set (rows d) - set (rows d'). row_queue r = GlobalQueueName \<longrightarrow> \<not> live (job_id r) d')
     \<and> (\<forall>i. live i d' \<longrightarrow> live i d)"

lemma settles_refl [simp]: "settles d d" by (simp add: settles_def)

lemma settles_trans: "settles a b \<Longrightarrow> settles b c \<Longrightarrow> settles a c"
  unfolding settles_def by blast

lemma settles_anchored: "anchored d \<Longrightarrow> settles d d' \<Longrightarrow> anchored d'"
  unfolding anchored_def settles_def is_anchor_def by (metis DiffI)

lemma settles_linked: "linked d \<Longrightarrow> settles d d' \<Longrightarrow> linked d'"
  unfolding linked_def settles_def by blast

lemma live_same: "results d' = results d \<Longrightarrow> live i d' = live i d"
  by (simp add: live_def status_of_def)

text \<open>What a message of the sweep may name: its own row and, through the link, its anchor.\<close>

definition names_own :: "queue_name \<Rightarrow> queue_name option \<Rightarrow> message \<Rightarrow> row list \<Rightarrow> bool" where
  "names_own q anchorQ m rs \<longleftrightarrow> (\<forall>r \<in> set rs.
     is_row q (msg_id m) r
     \<or> (anchorQ \<noteq> None \<and> body_gmid (msg_body m) \<noteq> '''' \<and> is_row (the anchorQ) (body_gmid (msg_body m)) r)
     \<longrightarrow> job_id r = reap_request m)"

lemma names_own_subset: "names_own q a m rs \<Longrightarrow> set rs' \<subseteq> set rs \<Longrightarrow> names_own q a m rs'"
  unfolding names_own_def by blast

lemma Fail_not_live:
  assumes "database_ok d" "fst (Fail i msg d) = Inr u"
  shows "\<not> live i (snd (Fail i msg d))"
  using assms(2) map_of_update_result [OF database_okD(6) [OF assms(1)], of i]
  by (cases "map_of (results d) i")
    (auto simp: Fail_def set_result_def rtx_def Let_def live_def status_of_def terminal_def
      split: if_splits)

lemma Fail_live:
  assumes "database_ok d" shows "live k (snd (Fail i msg d)) \<Longrightarrow> live k d"
  using mark_status(4) [OF assms, of k i msg] by (auto simp: live_def terminal_def)

lemma deletes_settle:
  assumes "set (rows d') \<subseteq> set (rows d)" "results d' = results d" "\<not> live i d"
    and "\<And>r. r \<in> set (rows d) - set (rows d') \<Longrightarrow> job_id r = i"
  shows "settles d d'"
  using assms live_same [of d' d] unfolding settles_def by auto

lemma delete_rows:
  assumes "database_ok d"
  shows "rows (snd (Delete q i d)) = rows d \<or> rows (snd (Delete q i d)) = filter (\<lambda>r. \<not> is_row q i r) (rows d)"
    "rows (snd (DeleteBoth q i q' i' d)) = rows d
     \<or> rows (snd (DeleteBoth q i q' i' d)) = filter (\<lambda>r. \<not> is_row q i r \<and> \<not> is_row q' i' r) (rows d)"
  using queue_op_ok_rows(2,3) [OF database_okD(1) [OF assms]] queue_op_error(2,4)
  by (metis sum.exhaust)+

text \<open>The sweep does more: it leaves terminal results exactly as they are.\<close>

definition sweeps :: "'a database_scheme \<Rightarrow> 'a database_scheme \<Rightarrow> bool" where
  "sweeps d d' \<longleftrightarrow> settles d d'
     \<and> (\<forall>i r. map_of (results d) i = Some r \<and> terminal (res_status r) \<longrightarrow> map_of (results d') i = Some r)"

lemma sweeps_refl [simp]: "sweeps d d" by (simp add: sweeps_def)

lemma sweeps_trans: "sweeps a b \<Longrightarrow> sweeps b c \<Longrightarrow> sweeps a c"
  unfolding sweeps_def using settles_trans by blast

lemma sweeps_settles: "sweeps d d' \<Longrightarrow> settles d d'"
  by (simp add: sweeps_def)

lemma sweeps_same: "results d' = results d \<Longrightarrow> settles d d' \<Longrightarrow> sweeps d d'"
  by (simp add: sweeps_def)

lemma reap_delete_sweeps:
  assumes ok: "database_ok d" and own: "names_own q a m (rows d)" and dead: "\<not> live (reap_request m) d"
  shows "sweeps d (snd (if a \<noteq> None \<and> body_gmid (msg_body m) \<noteq> ''''
      then DeleteBoth q (msg_id m) (the a) (body_gmid (msg_body m)) d else Delete q (msg_id m) d))"
    (is "sweeps d (snd ?D)")
proof (rule sweeps_same [OF _ deletes_settle [OF _ _ dead]])
  show "results (snd ?D) = results d" "results (snd ?D) = results d"
    by simp_all
  show "set (rows (snd ?D)) \<subseteq> set (rows d)"
    using delete_rows [OF ok] by (simp split: if_splits) (metis filter_is_subset order_refl)
  fix r assume r: "r \<in> set (rows d) - set (rows (snd ?D))"
  show "job_id r = reap_request m"
  proof (cases "a \<noteq> None \<and> body_gmid (msg_body m) \<noteq> ''''")
    case True
    with r delete_rows(2) [OF ok, of q "msg_id m" "the a" "body_gmid (msg_body m)"] own
    show ?thesis by (auto simp: names_own_def)
  next
    case False
    with r delete_rows(1) [OF ok, of q "msg_id m"] own show ?thesis by (auto simp: names_own_def)
  qed
qed

lemma reap_delete_ok:
  "database_ok d \<Longrightarrow> database_ok (snd (if a \<noteq> None \<and> g \<noteq> '''' then DeleteBoth q i (the a) g d else Delete q i d))"
  by (simp add: DeleteBoth_ok Delete_ok)

lemma reapOne_sweeps:
  assumes ok: "database_ok d" and own: "names_own q a m (rows d)"
  shows "sweeps d (snd (reapOne q a m d)) \<and> database_ok (snd (reapOne q a m d))"
proof -
  obtain g d1 where g: "Get (reap_request m) d = (g, d1)" by fastforce
  have d1: "database_ok d1" "rows d1 = rows d" "results d1 = results d"
    using result_op_ok(6) [OF ok, of "reap_request m"] result_op_frame(6) [of d "reap_request m"]
      Get_results [of "reap_request m" d] g by (simp_all add: result_frame_def)
  have s1: "sweeps d d1" using live_same [OF d1(3)] by (simp add: settles_def sweeps_def d1)
  note del = reap_delete_sweeps [of _ q a m] and delok = reap_delete_ok
  show ?thesis
  proof (cases g)
    case Inl
    with s1 d1 g show ?thesis by (simp add: reapOne_def)
  next
    case (Inr existing)
    then have ex: "existing = map_of (results d1) (reap_request m)"
      using g d1 by (auto simp: Get_def rtx_def Let_def split: if_splits)
    show ?thesis
    proof (cases "case existing of None \<Rightarrow> False | Some r \<Rightarrow> terminal (res_status r)")
      case True
      then have "\<not> live (reap_request m) d1"
        using ex by (auto simp: live_def status_of_def split: option.splits)
      with True Inr g d1 s1 own del [of d1] delok [OF d1(1)] sweeps_trans [OF s1] show ?thesis
        by (simp add: reapOne_def Let_def)
    next
      case False
      obtain f d2 where f: "Fail (reap_request m) reap_message d1 = (f, d2)" by fastforce
      have d2: "database_ok d2" "rows d2 = rows d"
        using result_op_ok(5) [OF d1(1), of "reap_request m" reap_message] f d1
          result_op_frame(5) [of d1 "reap_request m" reap_message] by (simp_all add: result_frame_def)
      have s2: "sweeps d d2"
      proof -
        have "results d2 = results d1 \<or> results d2 = update_result (reap_request m) (\<lambda>r. True)
            (\<lambda>r. r\<lparr>res_status := Failed, res_error := Some reap_message, res_completed := Some (clock d1)\<rparr>)
            (results d1)"
          using f set_result_results unfolding Fail_def by (metis snd_conv)
        moreover have "settles d d2"
          using Fail_live [OF d1(1), of _ "reap_request m" reap_message] f d1 d2 live_same [OF d1(3)]
          by (simp add: settles_def)
        ultimately show ?thesis
          using False ex d1(3) map_of_update_result [OF database_okD(6) [OF d1(1)]]
          unfolding sweeps_def by (auto split: option.splits)
      qed
      show ?thesis
      proof (cases f)
        case (Inl err)
        have "err \<noteq> NoRows"
          using f Inl by (auto simp: Fail_def set_result_def rtx_def Let_def split: if_splits)
        with False Inl Inr g f s2 d2 show ?thesis by (simp add: reapOne_def Let_def)
      next
        case (Inr u)
        with f Fail_not_live [OF d1(1), of "reap_request m" reap_message]
        have "\<not> live (reap_request m) d2" by simp
        with False Inr \<open>g = Inr existing\<close> g f d2 own del [of d2] delok [OF d2(1)] sweeps_trans [OF s2]
        show ?thesis by (simp add: reapOne_def Let_def)
      qed
    qed
  qed
qed

lemma reapEach_sweeps:
  assumes "database_ok d" "\<forall>m \<in> set ms. names_own q a m (rows d)"
  shows "sweeps d (snd (reapEach q a ms n d)) \<and> database_ok (snd (reapEach q a ms n d))"
  using assms
proof (induction ms arbitrary: n d)
  case (Cons m ms)
  obtain x d1 where x: "reapOne q a m d = (x, d1)" by fastforce
  from Cons.prems reapOne_sweeps [of d q a m] x
  have 1: "sweeps d d1" "database_ok d1" by auto
  with Cons.prems have "\<forall>m \<in> set ms. names_own q a m (rows d1)"
    by (auto simp: settles_def sweeps_def intro: names_own_subset)
  with Cons.IH [of d1] 1 sweeps_trans [OF 1(1)] x show ?case
    by (auto split: sum.splits)
qed simp

lemma ListAbandoned_own:
  assumes ok: "database_ok d" and lk: "linked d" and ms: "fst (ListAbandoned q d) = Inr ms"
    and a: "a = (if q = GlobalQueueName then None else Some GlobalQueueName)" and m: "m \<in> set ms"
  shows "names_own q a m (rows d)"
proof -
  from ms m obtain w where w: "w \<in> set (rows d)" "row_queue w = q" "m = message_of w"
    by (auto simp: ListAbandoned_def dest!: qtx_Inr)
  have "job_id r = reap_request m" if "r \<in> set (rows d)" "is_row q (msg_id m) r" for r
    using that w distinct_map_inj [OF database_okD(2) [OF ok] that(1) w(1)]
    by (simp add: is_row_def message_of_def job_id_def)
  moreover have "job_id r = reap_request m"
    if "r \<in> set (rows d)" "a \<noteq> None" "is_row (the a) (body_gmid (msg_body m)) r" for r
  proof -
    from that(2) a have "q \<noteq> GlobalQueueName" "a = Some GlobalQueueName" by (auto split: if_splits)
    with lk that w have "job_id r = job_id w" by (auto simp: linked_def message_of_def)
    with w show ?thesis by (simp add: job_id_def)
  qed
  ultimately show ?thesis by (auto simp: names_own_def)
qed

lemma reapQueue_sweeps:
  assumes ok: "database_ok d" and lk: "linked d"
    and a: "a = (if q = GlobalQueueName then None else Some GlobalQueueName)"
  shows "sweeps d (snd (reapQueue q a d)) \<and> database_ok (snd (reapQueue q a d))"
proof -
  obtain l d1 where l: "ListAbandoned q d = (l, d1)" by fastforce
  have f: "rows d1 = rows d" "queue_frame d d1"
    using query_frame(5) [of q d] query_frame(6) [of d q] l by simp_all
  then have d1: "results d1 = results d" "database_ok d1"
    using database_ok_same [OF ok] by (simp_all add: queue_frame_def)
  have s1: "sweeps d d1" using live_same [OF d1(1)] f d1(1) by (simp add: settles_def sweeps_def)
  show ?thesis
  proof (cases l)
    case Inl
    with l s1 d1 show ?thesis by (simp add: reapQueue_def)
  next
    case (Inr ms)
    have "\<forall>m \<in> set ms. names_own q a m (rows d1)"
      using ListAbandoned_own [OF ok lk _ a] l Inr f by simp
    from reapEach_sweeps [OF d1(2) this, of 0] sweeps_trans [OF s1] l Inr show ?thesis
      by (auto simp: reapQueue_def split: prod.splits)
  qed
qed

lemma reapWorkers_sweeps:
  assumes "database_ok d" "linked d" "GlobalQueueName \<notin> set qs"
  shows "sweeps d (snd (reapWorkers qs n d)) \<and> database_ok (snd (reapWorkers qs n d))"
  using assms
proof (induction qs arbitrary: n d)
  case (Cons q qs)
  obtain k e d1 where x: "reapQueue q (Some GlobalQueueName) d = ((k, e), d1)" by (metis prod.collapse)
  from Cons.prems reapQueue_sweeps [OF Cons.prems(1,2), of "Some GlobalQueueName" q] x
  have 1: "sweeps d d1" "database_ok d1" by auto
  from Cons.IH [OF 1(2) settles_linked [OF Cons.prems(2) sweeps_settles [OF 1(1)]], of "n + k"] Cons.prems(3) 1
    sweeps_trans [OF 1(1)] x
  show ?case by (auto split: option.splits)
qed simp

lemma ReapAbandoned_sweeps:
  assumes "database_ok d" "linked d" "GlobalQueueName \<notin> set qs"
  shows "sweeps d (snd (ReapAbandoned qs d)) \<and> database_ok (snd (ReapAbandoned qs d))"
proof -
  obtain k e d1 where x: "reapQueue GlobalQueueName None d = ((k, e), d1)" by (metis prod.collapse)
  from reapQueue_sweeps [OF assms(1,2), of None GlobalQueueName] x
  have 1: "sweeps d d1" "database_ok d1" by auto
  with reapWorkers_sweeps [OF 1(2) settles_linked [OF assms(2) sweeps_settles [OF 1(1)]] assms(3), of k]
    sweeps_trans [OF 1(1)] x
  show ?thesis by (auto simp: ReapAbandoned_def split: option.splits)
qed

subsection \<open>A sweep without faults is complete\<close>

definition fault_free :: "'a database_scheme \<Rightarrow> bool" where
  "fault_free d \<longleftrightarrow> queue_faults d = [] \<and> result_faults d = []"

lemma reapOne_clean:
  assumes ok: "database_ok d" and ff: "fault_free d"
  shows "\<exists>d'. reapOne q a m d = (Inr (), d') \<and> fault_free d' \<and> database_ok d'
    \<and> clock d' = clock d \<and> (\<forall>r \<in> set (rows d'). r \<in> set (rows d) \<and> \<not> is_row q (msg_id m) r)"
proof -
  have del: "\<exists>d'. (if c then DeleteBoth q (msg_id m) q' i' e else Delete q (msg_id m) e) = (Inr (), d')
      \<and> fault_free d' \<and> database_ok d' \<and> clock d' = clock e
      \<and> (\<forall>r \<in> set (rows d'). r \<in> set (rows e) \<and> \<not> is_row q (msg_id m) r)"
    if "database_ok e" "fault_free e" for c q' i' and e :: "'a database_scheme"
  proof -
    let ?x = "if c then DeleteBoth q (msg_id m) q' i' e else Delete q (msg_id m) e"
    have ok': "database_ok (snd ?x)" using that by (simp add: DeleteBoth_ok Delete_ok)
    have "?x = (Inr (), snd ?x) \<and> fault_free (snd ?x) \<and> clock (snd ?x) = clock e
      \<and> (\<forall>r \<in> set (rows (snd ?x)). r \<in> set (rows e) \<and> \<not> is_row q (msg_id m) r)"
      using that(2) goqite_ok_simps(2) [OF database_okD(1) [OF that(1)]]
      by (simp add: fault_free_def DeleteBoth_def Delete_def qtx_def delete_tx_def set_rows_def)
    with ok' show ?thesis by (intro exI [of _ "snd ?x"]) simp
  qed
  define d1 where "d1 = snd (Get (reap_request m) d)"
  have g: "Get (reap_request m) d = (Inr (map_of (results d) (reap_request m)), d1)"
    using ff by (simp add: d1_def Get_def rtx_def fault_free_def)
  have d1: "database_ok d1" "fault_free d1" "clock d1 = clock d" "rows d1 = rows d"
    using result_op_ok(6) [OF ok, of "reap_request m"] ff
    by (simp_all add: d1_def fault_free_def Get_def rtx_def)
  define d2 where "d2 = snd (Fail (reap_request m) reap_message d1)"
  have f: "Fail (reap_request m) reap_message d1 = (Inr (), d2)"
    using d1 by (simp add: d2_def Fail_def set_result_def rtx_def fault_free_def)
  have d2: "database_ok d2" "fault_free d2" "clock d2 = clock d" "rows d2 = rows d"
    using result_op_ok(5) [OF d1(1), of "reap_request m" reap_message] d1
    by (simp_all add: d2_def fault_free_def Fail_def set_result_def rtx_def)
  let ?c = "a \<noteq> None \<and> body_gmid (msg_body m) \<noteq> ''''"
  show ?thesis
  proof (cases "case map_of (results d) (reap_request m) of None \<Rightarrow> False | Some r \<Rightarrow> terminal (res_status r)")
    case True
    show ?thesis
      unfolding reapOne_def Let_def g prod.case sum.case if_P [OF True]
      using del [OF d1(1,2), of ?c "the a" "body_gmid (msg_body m)"] unfolding d1(3,4) .
  next
    case False
    show ?thesis
      unfolding reapOne_def Let_def g prod.case sum.case if_not_P [OF False] f
      using del [OF d2(1,2), of ?c "the a" "body_gmid (msg_body m)"] unfolding d2(3,4) .
  qed
qed

lemma reapEach_clean:
  assumes "database_ok d" "fault_free d"
  shows "fault_free (snd (reapEach q a ms n d)) \<and> database_ok (snd (reapEach q a ms n d))
    \<and> clock (snd (reapEach q a ms n d)) = clock d
    \<and> (\<forall>r \<in> set (rows (snd (reapEach q a ms n d))). r \<in> set (rows d)
          \<and> (\<forall>m \<in> set ms. \<not> is_row q (msg_id m) r))"
  using assms
proof (induction ms arbitrary: n d)
  case (Cons m ms)
  obtain d1 where 1: "reapOne q a m d = (Inr (), d1)" "fault_free d1" "database_ok d1" "clock d1 = clock d"
    "\<forall>r \<in> set (rows d1). r \<in> set (rows d) \<and> \<not> is_row q (msg_id m) r"
    using reapOne_clean [OF Cons.prems] by blast
  with Cons.IH [OF 1(3,2), of "Suc n"] show ?case by auto
qed simp

lemma reapQueue_clean:
  assumes "database_ok d" "fault_free d"
  shows "\<exists>n d'. reapQueue q a d = ((n, None), d') \<and> fault_free d' \<and> database_ok d' \<and> clock d' = clock d
    \<and> (\<forall>r \<in> set (rows d'). r \<in> set (rows d) \<and> \<not> (row_queue r = q \<and> abandoned (clock d) r))"
proof -
  define ms where "ms = map message_of (filter (\<lambda>r. row_queue r = q \<and> abandoned (clock d) r) (rows d))"
  define d1 where "d1 = snd (ListAbandoned q d)"
  have l: "ListAbandoned q d = (Inr ms, d1)"
    using assms(2) by (simp add: d1_def ms_def ListAbandoned_def qtx_def fault_free_def)
  have d1: "fault_free d1" "rows d1 = rows d" "clock d1 = clock d" "database_ok d1"
    using assms(2) database_ok_same [OF assms(1) query_frame(6) query_frame(5), of q]
    by (simp_all add: d1_def query_frame(5) fault_free_def ListAbandoned_def qtx_def)
  have "\<not> (row_queue r = q \<and> abandoned (clock d) r)"
    if "r \<in> set (rows d)" "\<forall>m \<in> set ms. \<not> is_row q (msg_id m) r" for r
    using that by (auto simp: ms_def is_row_def message_of_def)
  with reapEach_clean [OF d1(4,1), of q a ms 0] d1 l show ?thesis
    by (auto simp: reapQueue_def split: prod.split)
qed

lemma reapWorkers_clean:
  assumes "database_ok d" "fault_free d"
  shows "\<exists>n d'. reapWorkers qs k d = ((n, None), d')
    \<and> (\<forall>r \<in> set (rows d'). r \<in> set (rows d) \<and> \<not> (row_queue r \<in> set qs \<and> abandoned (clock d) r))"
  using assms
proof (induction qs arbitrary: k d)
  case (Cons q qs)
  obtain n d1 where 1: "reapQueue q (Some GlobalQueueName) d = ((n, None), d1)" "fault_free d1"
    "database_ok d1" "clock d1 = clock d"
    "\<forall>r \<in> set (rows d1). r \<in> set (rows d) \<and> \<not> (row_queue r = q \<and> abandoned (clock d) r)"
    using reapQueue_clean [OF Cons.prems] by blast
  from Cons.IH [OF 1(3,2), of "k + n"] 1 show ?case by auto
qed simp

lemma ReapAbandoned_clean:
  assumes "database_ok d" "fault_free d"
  shows "\<exists>n d'. ReapAbandoned qs d = ((n, None), d')
    \<and> (\<forall>r \<in> set (rows d'). \<not> (row_queue r \<in> insert GlobalQueueName (set qs) \<and> abandoned (clock d) r))"
proof -
  obtain n d1 where 1: "reapQueue GlobalQueueName None d = ((n, None), d1)" "fault_free d1"
    "database_ok d1" "clock d1 = clock d"
    "\<forall>r \<in> set (rows d1). r \<in> set (rows d) \<and> \<not> (row_queue r = GlobalQueueName \<and> abandoned (clock d) r)"
    using reapQueue_clean [OF assms] by blast
  from reapWorkers_clean [OF 1(3,2), of qs n] 1 show ?thesis
    by (auto simp: ReapAbandoned_def)
qed

text \<open>C26. The startup sweep over the global queue and any worker queues, whatever statements fail:
  a result that was already terminal (a success that landed just before the crash) keeps its row
  unchanged, a row is deleted only once its job is settled, so every live result still has its
  anchor; and when no statement fails, the sweep reports no error and no abandoned row is left in
  the swept queues.\<close>

theorem ReapAbandoned_sound_complete:
  assumes "database_ok d" "linked d" "anchored d" "GlobalQueueName \<notin> set qs"
    and "ReapAbandoned qs d = (res, d')"
  shows "database_ok d' \<and> linked d' \<and> anchored d'
    \<and> (\<forall>i r. map_of (results d) i = Some r \<and> terminal (res_status r) \<longrightarrow> map_of (results d') i = Some r)
    \<and> (queue_faults d = [] \<and> result_faults d = [] \<longrightarrow> snd res = None
        \<and> (\<forall>r \<in> set (rows d'). row_queue r \<in> insert GlobalQueueName (set qs) \<longrightarrow> \<not> abandoned (clock d) r))"
  using ReapAbandoned_sweeps [OF assms(1,2,4)] ReapAbandoned_clean [OF assms(1), of qs] assms(5)
    settles_anchored [OF assms(3)] settles_linked [OF assms(2)]
  by (auto simp: sweeps_def fault_free_def)

lemma none_left:
  "\<forall>r \<in> A. P r \<longrightarrow> \<not> Q r \<Longrightarrow> A \<subseteq> B \<Longrightarrow> \<forall>r \<in> B. P r \<and> Q r \<Longrightarrow> A = {}"
  by blast

definition crashed_db :: database where
  "crashed_db = (empty_database 100)\<lparr>
     rows := [(new_row 1 ''m'' ''global'' (Garbage HeaderTooShort) 0)\<lparr>row_received := 1\<rparr>], next_id := 1,
     results := [(''m'', \<lparr> res_status = Processing, res_body = None,
       res_error = None, res_created = 1, res_completed = None \<rparr>)]\<rparr>"

theorem ReapAbandoned_sound_complete_witness:
  "abandoned 100 (hd (rows crashed_db)) \<and> rows (snd (ReapAbandoned [''w''] crashed_db)) = []"
proof -
  note defs = crashed_db_def empty_database_def new_row_def
  have ok: "database_ok crashed_db"
    by (auto simp: defs database_ok_def inj_def drawn_def body_gmid_def)
  have "linked crashed_db" "anchored crashed_db"
    by (auto simp: defs linked_def anchored_def is_row_def is_anchor_def job_id_def live_def status_of_def
        reap_request_def message_of_def GlobalQueueName_def terminal_def)
  from ReapAbandoned_sound_complete [OF ok this _ surjective_pairing, of "[''w'']"]
  have "\<forall>r \<in> set (rows (snd (ReapAbandoned [''w''] crashed_db))).
      row_queue r = ''global'' \<longrightarrow> \<not> abandoned 100 r"
    by (simp add: defs GlobalQueueName_def)
  moreover have "set (rows (snd (ReapAbandoned [''w''] crashed_db))) \<subseteq> set (rows crashed_db)"
    using ReapAbandoned_sweeps [OF ok \<open>linked crashed_db\<close>, of "[''w'']"]
    by (simp add: sweeps_def settles_def GlobalQueueName_def)
  moreover have "\<forall>r \<in> set (rows crashed_db). row_queue r = ''global'' \<and> abandoned 100 r"
    by (simp add: defs abandoned_def visible_def MaxReceive_def)
  ultimately have "set (rows (snd (ReapAbandoned [''w''] crashed_db))) = {}"
    by (rule none_left)
  moreover have "abandoned 100 (hd (rows crashed_db))"
    by (simp add: defs abandoned_def visible_def MaxReceive_def)
  ultimately show ?thesis by simp
qed

end
