(* ===== verification/Store.thy ===== *)
theory Store
  imports Sweeper
begin

text \<open>
  The rest of \<open>internal/store\<close> the scheduler works with: the tail table
  (\<open>worker_queue_state.go\<close>), the model and device benchmark tables (\<open>model_benchmarks.go\<close>,
  \<open>benchmarks.go\<close>) and the operator's device toggles (\<open>worker_device_enabled.go\<close>). Timestamps are
  the clock's value.
\<close>

subsection \<open>Worker queue state\<close>

definition UpsertWorkerQueueState :: "queue_name \<Rightarrow> queue_state \<Rightarrow> 'a database_scheme
    \<Rightarrow> (db_error + unit) \<times> 'a database_scheme" where
  "UpsertWorkerQueueState q st d = stx (\<lambda>d. (Inr (), d\<lparr>tails :=
     (case map_of (tails d) q of
        None \<Rightarrow> AList.update q (st\<lparr>qs_updated := clock d\<rparr>) (tails d)
      | Some old \<Rightarrow> AList.update q (old\<lparr>qs_worker_id := qs_worker_id st,
          qs_device_ids := qs_device_ids st, qs_updated := clock d\<rparr>) (tails d))\<rparr>)) d"

definition GetWorkerQueueState :: "queue_name \<Rightarrow> 'a database_scheme
    \<Rightarrow> (db_error + queue_state) \<times> 'a database_scheme" where
  "GetWorkerQueueState q d = stx (\<lambda>d. (case map_of (tails d) q of
     None \<Rightarrow> (Inl NoRows, d) | Some st \<Rightarrow> (Inr st, d))) d"

definition ListWorkerQueueStates :: "'a database_scheme
    \<Rightarrow> (db_error + (queue_name \<times> queue_state) list) \<times> 'a database_scheme" where
  "ListWorkerQueueStates d = stx (\<lambda>d. (Inr (sort_key fst (tails d)), d)) d"

definition DeleteWorkerQueueState :: "queue_name \<Rightarrow> 'a database_scheme
    \<Rightarrow> (db_error + unit) \<times> 'a database_scheme" where
  "DeleteWorkerQueueState q d = stx (\<lambda>d. (Inr (), d\<lparr>tails := AList.delete q (tails d)\<rparr>)) d"

definition update_tail :: "queue_name \<Rightarrow> (time \<Rightarrow> queue_state \<Rightarrow> queue_state) \<Rightarrow> 'a database_scheme
    \<Rightarrow> (db_error + unit) \<times> 'a database_scheme" where
  "update_tail q u d = stx (\<lambda>d. (Inr (), d\<lparr>tails :=
     (case map_of (tails d) q of None \<Rightarrow> tails d
      | Some st \<Rightarrow> AList.update q (u (clock d) st) (tails d))\<rparr>)) d"

definition AddTailSeconds :: "queue_name \<Rightarrow> seconds \<Rightarrow> 'a database_scheme
    \<Rightarrow> (db_error + unit) \<times> 'a database_scheme" where
  "AddTailSeconds q delta = update_tail q (\<lambda>now st.
     st\<lparr>qs_tail_seconds := max 0 (qs_tail_seconds st + delta), qs_updated := now\<rparr>)"

definition AddTailSecondsAndSetModel :: "queue_name \<Rightarrow> seconds \<Rightarrow> model_id \<Rightarrow> 'a database_scheme
    \<Rightarrow> (db_error + unit) \<times> 'a database_scheme" where
  "AddTailSecondsAndSetModel q delta m = update_tail q (\<lambda>now st.
     st\<lparr>qs_tail_seconds := max 0 (qs_tail_seconds st + delta), qs_tail_model := m, qs_updated := now\<rparr>)"

definition SetTailSeconds :: "queue_name \<Rightarrow> seconds \<Rightarrow> model_id \<Rightarrow> 'a database_scheme
    \<Rightarrow> (db_error + unit) \<times> 'a database_scheme" where
  "SetTailSeconds q v m =
     (let v = (if v < 0 then 0 else v)
      in update_tail q (\<lambda>now st. st\<lparr>qs_tail_seconds := v, qs_tail_model := m, qs_updated := now\<rparr>))"

subsection \<open>Benchmarks\<close>

definition mb_key :: "model_benchmark \<Rightarrow> worker_id \<times> string \<times> model_id" where
  "mb_key r = (mb_worker_id r, mb_device_set r, mb_model_id r)"

definition upsertModelBenchmark :: "model_benchmark \<Rightarrow> 'a database_scheme
    \<Rightarrow> (db_error + unit) \<times> 'a database_scheme" where
  "upsertModelBenchmark r d = stx (\<lambda>d.
     let now = clock d div 1000;
         created = (case map_of (model_benches d) (mb_key r) of None \<Rightarrow> now | Some old \<Rightarrow> mb_created old)
     in (Inr (), d\<lparr>model_benches := AList.update (mb_key r)
          (r\<lparr>mb_created := created, mb_updated := now\<rparr>) (model_benches d)\<rparr>)) d"

definition SaveModelBenchmark :: "model_benchmark \<Rightarrow> 'a database_scheme
    \<Rightarrow> (db_error + unit) \<times> 'a database_scheme" where
  "SaveModelBenchmark r = upsertModelBenchmark (r\<lparr>mb_error := ''''\<rparr>)"

definition SaveModelBenchmarkError :: "model_benchmark \<Rightarrow> 'a database_scheme
    \<Rightarrow> (db_error + unit) \<times> 'a database_scheme" where
  "SaveModelBenchmarkError r d =
     (if mb_error r = [] then (Inl EmptyVerdict, d)
      else upsertModelBenchmark (r\<lparr>mb_units_per_sec := 0, mb_graph_secs := 0, mb_base_bytes := 0,
             mb_per_slot_bytes := 0\<rparr>) d)"

definition GetModelBenchmark :: "worker_id \<Rightarrow> string \<Rightarrow> model_id \<Rightarrow> 'a database_scheme
    \<Rightarrow> (db_error + model_benchmark) \<times> 'a database_scheme" where
  "GetModelBenchmark w ds m d = stx (\<lambda>d. (case map_of (model_benches d) (w, ds, m) of
     None \<Rightarrow> (Inl NoRows, d) | Some r \<Rightarrow> (Inr r, d))) d"

definition ListModelBenchmarksByModel :: "model_id \<Rightarrow> 'a database_scheme
    \<Rightarrow> (db_error + model_benchmark list) \<times> 'a database_scheme" where
  "ListModelBenchmarksByModel m d = stx (\<lambda>d. (Inr (map snd (sort_key fst
     (filter (\<lambda>((w, ds, m'), r). m' = m) (model_benches d)))), d)) d"

definition DeleteModelBenchmarksByModel :: "model_id \<Rightarrow> 'a database_scheme
    \<Rightarrow> (db_error + unit) \<times> 'a database_scheme" where
  "DeleteModelBenchmarksByModel m d = stx (\<lambda>d. (Inr (),
     d\<lparr>model_benches := filter (\<lambda>((w, ds, m'), r). m' \<noteq> m) (model_benches d)\<rparr>)) d"

definition DeleteModelBenchmarksByWorker :: "worker_id \<Rightarrow> 'a database_scheme
    \<Rightarrow> (db_error + unit) \<times> 'a database_scheme" where
  "DeleteModelBenchmarksByWorker i d = stx (\<lambda>d. (Inr (),
     d\<lparr>model_benches := filter (\<lambda>((w, ds, m'), r). w \<noteq> i) (model_benches d)\<rparr>)) d"

definition SaveBenchmark :: "device_benchmark \<Rightarrow> 'a database_scheme
    \<Rightarrow> (db_error + unit) \<times> 'a database_scheme" where
  "SaveBenchmark r d = stx (\<lambda>d. (Inr (), d\<lparr>device_benches :=
     AList.update (be_worker_id r, be_device_id r) r (device_benches d)\<rparr>)) d"

definition GetBenchmark :: "worker_id \<Rightarrow> device_id \<Rightarrow> 'a database_scheme
    \<Rightarrow> (db_error + device_benchmark) \<times> 'a database_scheme" where
  "GetBenchmark w i d = stx (\<lambda>d. (case map_of (device_benches d) (w, i) of
     None \<Rightarrow> (Inl NoRows, d) | Some r \<Rightarrow> (Inr r, d))) d"

definition ListBenchmarks :: "'a database_scheme
    \<Rightarrow> (db_error + device_benchmark list) \<times> 'a database_scheme" where
  "ListBenchmarks d = stx (\<lambda>d. (Inr (map snd (sort_key fst (device_benches d))), d)) d"

definition DeleteBenchmark :: "worker_id \<Rightarrow> device_id \<Rightarrow> 'a database_scheme
    \<Rightarrow> (db_error + unit) \<times> 'a database_scheme" where
  "DeleteBenchmark w i d = stx (\<lambda>d. (Inr (),
     d\<lparr>device_benches := AList.delete (w, i) (device_benches d)\<rparr>)) d"

definition HasBenchmark :: "worker_id \<Rightarrow> device_id \<Rightarrow> 'a database_scheme
    \<Rightarrow> (db_error + bool) \<times> 'a database_scheme" where
  "HasBenchmark w i d = stx (\<lambda>d. (Inr (map_of (device_benches d) (w, i) \<noteq> None), d)) d"

subsection \<open>Device toggles\<close>

definition SetWorkerDeviceEnabled :: "worker_id \<Rightarrow> device_id \<Rightarrow> bool \<Rightarrow> 'a database_scheme
    \<Rightarrow> (db_error + unit) \<times> 'a database_scheme" where
  "SetWorkerDeviceEnabled w i b d = stx (\<lambda>d. (Inr (), d\<lparr>device_enabled_rows :=
     AList.update (w, i) b (device_enabled_rows d)\<rparr>)) d"

definition GetWorkerDeviceEnabled :: "worker_id \<Rightarrow> device_id \<Rightarrow> 'a database_scheme
    \<Rightarrow> (db_error + bool) \<times> 'a database_scheme" where
  "GetWorkerDeviceEnabled w i d = stx (\<lambda>d. (case map_of (device_enabled_rows d) (w, i) of
     None \<Rightarrow> (Inl NoRows, d) | Some b \<Rightarrow> (Inr b, d))) d"

definition ListWorkerDevicesEnabled :: "worker_id \<Rightarrow> 'a database_scheme
    \<Rightarrow> (db_error + (device_id \<times> bool) list) \<times> 'a database_scheme" where
  "ListWorkerDevicesEnabled w d = stx (\<lambda>d. (Inr (sort_key fst
     (map (\<lambda>((w', i), b). (i, b)) (filter (\<lambda>((w', i), b). w' = w) (device_enabled_rows d)))), d)) d"

definition SetWorkerDevicesEnabledBulk :: "worker_id \<Rightarrow> device_id list \<Rightarrow> bool \<Rightarrow> 'a database_scheme
    \<Rightarrow> (db_error + unit) \<times> 'a database_scheme" where
  "SetWorkerDevicesEnabledBulk w is b d =
     (if length is = 0 then (Inr (), d)
      else stx (\<lambda>d. (Inr (), d\<lparr>device_enabled_rows :=
        foldl (\<lambda>rs i. AList.update (w, i) b rs) (device_enabled_rows d) is\<rparr>)) d)"

subsection \<open>Frames\<close>

lemmas state_op_defs = UpsertWorkerQueueState_def GetWorkerQueueState_def ListWorkerQueueStates_def
  DeleteWorkerQueueState_def update_tail_def AddTailSeconds_def AddTailSecondsAndSetModel_def
  SetTailSeconds_def upsertModelBenchmark_def GetModelBenchmark_def
  ListModelBenchmarksByModel_def DeleteModelBenchmarksByModel_def DeleteModelBenchmarksByWorker_def
  SaveBenchmark_def GetBenchmark_def ListBenchmarks_def DeleteBenchmark_def HasBenchmark_def stx_def

text \<open>Statements of the state store touch neither the queues nor the results.\<close>

definition state_frame :: "'a database_scheme \<Rightarrow> 'a database_scheme \<Rightarrow> bool" where
  "state_frame d d' \<longleftrightarrow> rows d' = rows d \<and> results d' = results d \<and> clock d' = clock d
     \<and> id_supply d' = id_supply d \<and> next_id d' = next_id d \<and> notified d' = notified d
     \<and> queue_faults d' = queue_faults d \<and> result_faults d' = result_faults d
     \<and> driver d' = driver d \<and> database.more d' = database.more d
     \<and> (distinct (keys (tails d)) \<longrightarrow> distinct (keys (tails d')))"

lemma state_frame_refl [simp]: "state_frame d d" by (simp add: state_frame_def)

lemma state_frame_trans: "state_frame a b \<Longrightarrow> state_frame b c \<Longrightarrow> state_frame a c"
  by (auto simp: state_frame_def)

lemma distinct_update_keys: "distinct (keys xs) \<Longrightarrow> distinct (keys (AList.update k v xs))"
  by (simp add: distinct_update)

lemma distinct_delete_keys: "distinct (keys xs) \<Longrightarrow> distinct (keys (AList.delete k xs))"
  by (simp add: distinct_delete)

lemma state_op_frame:
  "state_frame d (snd (UpsertWorkerQueueState q st d))" "state_frame d (snd (GetWorkerQueueState q d))"
  "state_frame d (snd (ListWorkerQueueStates d))" "state_frame d (snd (DeleteWorkerQueueState q d))"
  "state_frame d (snd (AddTailSeconds q x d))" "state_frame d (snd (AddTailSecondsAndSetModel q x m d))"
  "state_frame d (snd (SetTailSeconds q x m d))" "state_frame d (snd (GetModelBenchmark w ds m d))"
  "state_frame d (snd (GetBenchmark w i d))"
  by (auto simp: state_op_defs state_frame_def Let_def distinct_update distinct_delete
      split: option.split)

lemma state_frame_more: "state_frame d d' \<Longrightarrow> database.more d' = database.more d"
  by (simp add: state_frame_def)

lemma state_frame_ok: "database_ok d \<Longrightarrow> state_frame d d' \<Longrightarrow> database_ok d'"
  by (simp add: database_ok_def state_frame_def drawn_def)

lemma state_frame_anchors:
  assumes "state_frame d d'"
  shows "anchored d' = anchored d" "linked d' = linked d" "live i d' = live i d"
  using assms by (simp_all add: anchored_def linked_def live_def status_of_def state_frame_def)

end
