(* ===== verification/Stream_Buffer.thy ===== *)
theory Stream_Buffer
  imports Mass_Prelude
begin

text \<open>
  \<open>internal/scheduler/stream_buffer.go\<close>: the per-job replay buffer. The dispatcher appends the
  worker's chunks; a consumer is the goroutine \<open>pump\<close> with its cursor and the chunks it has sent
  on its channel. Locking makes \<open>Append\<close> and one turn of the pump loop atomic; they interleave
  freely. The notify channel only wakes consumers, so a turn may happen at any time.
\<close>

datatype job_chunk_type = JobChunkTypeChunk | JobChunkTypeProgress | JobChunkTypeCompleted | JobChunkTypeError

record job_chunk =
  jc_type :: job_chunk_type
  jc_chunk :: bytes
  jc_final :: bytes
  jc_pct :: rat
  jc_note :: string
  jc_err :: string

definition streamBufferMaxBytes :: int where "streamBufferMaxBytes = 10 * 1024 * 1024"

type_synonym sequenced_chunk = "nat \<times> job_chunk"

record job_buffer =
  jb_created :: time
  jb_chunks :: "sequenced_chunk list"
  jb_bytes :: int
  jb_next :: nat
  jb_floor :: nat
  jb_terminal :: bool
  jb_terminal_at :: time

definition newJobBuffer :: "time \<Rightarrow> job_buffer" where
  "newJobBuffer now = \<lparr> jb_created = now, jb_chunks = [], jb_bytes = 0, jb_next = 0, jb_floor = 0,
     jb_terminal = False, jb_terminal_at = 0 \<rparr>"

definition chunkSize :: "job_chunk \<Rightarrow> int" where
  "chunkSize c = int (length (jc_chunk c)) + int (length (jc_final c)) + int (length (jc_err c))
     + int (length (jc_note c))"

fun enforceCap :: "sequenced_chunk list \<Rightarrow> int \<Rightarrow> nat \<Rightarrow> sequenced_chunk list \<times> int \<times> nat" where
  "enforceCap [] bytes low = ([], bytes, low)"
| "enforceCap ((s, c) # cs) bytes low =
     (if bytes > streamBufferMaxBytes then enforceCap cs (bytes - chunkSize c) (s + 1)
      else ((s, c) # cs, bytes, low))"

definition terminal_chunk :: "job_chunk \<Rightarrow> bool" where
  "terminal_chunk c \<longleftrightarrow> jc_type c = JobChunkTypeCompleted \<or> jc_type c = JobChunkTypeError"

fun Append :: "time \<Rightarrow> job_chunk option \<Rightarrow> job_buffer \<Rightarrow> nat \<times> job_buffer" where
  "Append now None b = (0, b)"
| "Append now (Some c) b =
     (let seq = jb_next b;
          (chunks, bytes, low) =
            enforceCap (jb_chunks b @ [(seq, c)]) (jb_bytes b + chunkSize c) (jb_floor b);
          b = b\<lparr>jb_next := seq + 1, jb_chunks := chunks, jb_bytes := bytes, jb_floor := low\<rparr>
      in (seq, if terminal_chunk c \<and> \<not> jb_terminal b
               then b\<lparr>jb_terminal := True, jb_terminal_at := now\<rparr> else b))"

definition terminalReached :: "job_buffer \<Rightarrow> bool \<times> time" where
  "terminalReached b = (jb_terminal b, jb_terminal_at b)"

subsection \<open>Consumers\<close>

record consumer =
  cs_cursor :: nat
  cs_out :: "sequenced_chunk list"
  cs_closed :: bool

definition Attach :: "nat \<Rightarrow> consumer" where
  "Attach resumeSeq = \<lparr> cs_cursor = resumeSeq, cs_out = [], cs_closed = False \<rparr>"

definition gapChunk :: job_chunk where
  "gapChunk = \<lparr> jc_type = JobChunkTypeError, jc_chunk = [], jc_final = [], jc_pct = 0, jc_note = '''',
     jc_err = ''stream replay buffer overflowed past requested seq'' \<rparr>"

text \<open>One turn of the loop in \<open>pump\<close>; \<open>Some n\<close> is a context cancelled after \<open>n\<close> more sends.\<close>

definition pumpTurn :: "job_buffer \<Rightarrow> nat option \<Rightarrow> consumer \<Rightarrow> consumer" where
  "pumpTurn b cancel c =
     (if cs_closed c then c
      else if cs_cursor c < jb_floor b
      then c\<lparr>cs_out := cs_out c @ (if cancel = Some 0 then [] else [(cs_cursor c, gapChunk)]),
             cs_closed := True\<rparr>
      else
        let batch = filter (\<lambda>(s, _). \<not> s < cs_cursor c) (jb_chunks b);
            sent = (case cancel of None \<Rightarrow> batch | Some n \<Rightarrow> take n batch);
            cursor = (if sent = [] then cs_cursor c else fst (last sent) + 1)
        in c\<lparr>cs_out := cs_out c @ sent, cs_cursor := cursor,
             cs_closed := (cancel \<noteq> None \<or> jb_terminal b)\<rparr>)"

subsection \<open>The buffer holds the newest chunks\<close>

definition numbered :: "job_chunk list \<Rightarrow> nat \<Rightarrow> nat \<Rightarrow> sequenced_chunk list" where
  "numbered h i j = map (\<lambda>k. (k, h ! k)) [i..<j]"

definition buffer_ok :: "job_chunk list \<Rightarrow> job_buffer \<Rightarrow> bool" where
  "buffer_ok h b \<longleftrightarrow> jb_next b = length h \<and> jb_floor b \<le> length h
     \<and> jb_chunks b = numbered h (jb_floor b) (length h)
     \<and> jb_bytes b = sum_list (map (chunkSize \<circ> snd) (jb_chunks b))
     \<and> jb_bytes b \<le> streamBufferMaxBytes
     \<and> (jb_terminal b \<longleftrightarrow> (\<exists>c \<in> set h. terminal_chunk c))"

lemma chunkSize_nonneg [simp]: "0 \<le> chunkSize c" by (simp add: chunkSize_def)

lemma numbered_Nil [simp]: "numbered h i i = []" by (simp add: numbered_def)

lemma numbered_Cons: "i < j \<Longrightarrow> numbered h i j = (i, h ! i) # numbered h (Suc i) j"
  by (simp add: numbered_def upt_conv_Cons)

lemma numbered_append: "i \<le> j \<Longrightarrow> j \<le> k \<Longrightarrow> numbered h i j @ numbered h j k = numbered h i k"
  using upt_add_eq_append [of i j "k - j"] by (simp add: numbered_def flip: map_append)

lemma numbered_snoc: "i \<le> length h \<Longrightarrow> numbered h i (length h) @ [(length h, c)] = numbered (h @ [c]) i (Suc (length h))"
  by (auto simp: numbered_def nth_append)

lemma numbered_extend: "j \<le> length h \<Longrightarrow> numbered (h @ [c]) i j = numbered h i j"
  by (auto simp: numbered_def nth_append)

lemma enforceCap_suffix:
  assumes "i \<le> j" "bytes = sum_list (map (chunkSize \<circ> snd) (numbered h i j))"
  shows "\<exists>k. i \<le> k \<and> k \<le> j \<and> enforceCap (numbered h i j) bytes i
      = (numbered h k j, sum_list (map (chunkSize \<circ> snd) (numbered h k j)), k)
    \<and> sum_list (map (chunkSize \<circ> snd) (numbered h k j)) \<le> streamBufferMaxBytes"
  using assms
proof (induction "j - i" arbitrary: i bytes)
  case 0
  then have "i = j" by simp
  with 0 show ?case by (auto simp: streamBufferMaxBytes_def intro!: exI [of _ j])
next
  case (Suc n)
  then have lt: "i < j" by simp
  show ?case
  proof (cases "bytes > streamBufferMaxBytes")
    case True
    have "n = j - Suc i" "Suc i \<le> j"
      "bytes - chunkSize (h ! i) = sum_list (map (chunkSize \<circ> snd) (numbered h (Suc i) j))"
      using Suc.hyps(2) Suc.prems(2) lt by (simp_all add: numbered_Cons [OF lt])
    from Suc.hyps(1) [OF this] obtain k where "Suc i \<le> k" "k \<le> j" "enforceCap (numbered h (Suc i) j) (bytes - chunkSize (h ! i)) (Suc i)
      = (numbered h k j, sum_list (map (chunkSize \<circ> snd) (numbered h k j)), k)"
      "sum_list (map (chunkSize \<circ> snd) (numbered h k j)) \<le> streamBufferMaxBytes"
      by blast
    with True lt show ?thesis by (intro exI [of _ k]) (simp add: numbered_Cons [OF lt])
  next
    case False
    with lt Suc.prems(2) show ?thesis by (intro exI [of _ i]) (simp add: numbered_Cons [OF lt])
  qed
qed

lemma Append_ok:
  assumes "buffer_ok h b"
  shows "buffer_ok (h @ [c]) (snd (Append now (Some c) b)) \<and> fst (Append now (Some c) b) = length h
    \<and> jb_floor b \<le> jb_floor (snd (Append now (Some c) b))"
proof -
  let ?all = "numbered (h @ [c]) (jb_floor b) (Suc (length h))"
  have all: "jb_chunks b @ [(jb_next b, c)] = ?all"
    using assms numbered_snoc [of "jb_floor b" h c] by (simp add: buffer_ok_def)
  have bytes: "jb_bytes b + chunkSize c = sum_list (map (chunkSize \<circ> snd) ?all)"
    using assms unfolding all [symmetric] by (simp add: buffer_ok_def)
  obtain k where k: "jb_floor b \<le> k" "k \<le> Suc (length h)"
    "enforceCap ?all (jb_bytes b + chunkSize c) (jb_floor b)
      = (numbered (h @ [c]) k (Suc (length h)),
         sum_list (map (chunkSize \<circ> snd) (numbered (h @ [c]) k (Suc (length h)))), k)"
    "sum_list (map (chunkSize \<circ> snd) (numbered (h @ [c]) k (Suc (length h)))) \<le> streamBufferMaxBytes"
    using enforceCap_suffix [OF _ bytes] assms by (auto simp: buffer_ok_def)
  define b' where "b' = snd (Append now (Some c) b)"
  have app: "jb_next b' = Suc (jb_next b)" "jb_floor b' = k"
    "jb_chunks b' = numbered (h @ [c]) k (Suc (length h))"
    "jb_bytes b' = sum_list (map (chunkSize \<circ> snd) (numbered (h @ [c]) k (Suc (length h))))"
    "jb_terminal b' = (jb_terminal b \<or> terminal_chunk c)" "fst (Append now (Some c) b) = jb_next b"
    unfolding b'_def Append.simps Let_def all k(3) by auto
  from assms k(1,2,4) show ?thesis
    unfolding b'_def [symmetric] buffer_ok_def app by auto
qed

lemma newJobBuffer_ok: "buffer_ok [] (newJobBuffer t)"
  by (simp add: buffer_ok_def newJobBuffer_def streamBufferMaxBytes_def)

subsection \<open>What a consumer receives\<close>

datatype stream_event = Appended time job_chunk | Turn "nat option"

fun stream_step :: "stream_event \<Rightarrow> job_buffer \<times> consumer \<Rightarrow> job_buffer \<times> consumer" where
  "stream_step (Appended now c) (b, k) = (snd (Append now (Some c) b), k)"
| "stream_step (Turn cancel) (b, k) = (b, pumpTurn b cancel k)"

fun history :: "stream_event list \<Rightarrow> job_chunk list" where
  "history [] = []"
| "history (Appended now c # es) = c # history es"
| "history (Turn cancel # es) = history es"

lemma history_append [simp]: "history (xs @ ys) = history xs @ history ys"
  by (induction xs rule: history.induct) auto

definition received :: "job_chunk list \<Rightarrow> nat \<Rightarrow> nat \<Rightarrow> nat \<Rightarrow> consumer \<Rightarrow> bool" where
  "received h low r j k \<longleftrightarrow> r \<le> j \<and> j \<le> max r (length h)
     \<and> (cs_out k = numbered h r j \<and> cs_cursor k = j
        \<or> cs_out k = numbered h r j @ [(j, gapChunk)] \<and> cs_closed k \<and> j < low)"

lemma batch_numbered:
  "filter (\<lambda>(s, _). \<not> s < m) (numbered h i j) = numbered h (max i m) j"
proof (induction "j - i" arbitrary: i)
  case 0
  then show ?case by (simp add: numbered_def)
next
  case (Suc n)
  then have "i < j" by simp
  with Suc show ?case by (cases "i < m") (auto simp: numbered_Cons max_def not_le Suc_le_eq)
qed

lemma take_numbered: "take n (numbered h i j) = numbered h i (min j (i + n))"
  by (cases "i \<le> j") (auto simp: numbered_def take_map min_def)

lemma last_numbered: "numbered h i j \<noteq> [] \<Longrightarrow> fst (last (numbered h i j)) = j - 1"
  by (cases "i < j") (auto simp: numbered_def last_map)

lemma pumpTurn_received:
  assumes b: "buffer_ok h b" and k: "received h (jb_floor b) r j k"
  shows "\<exists>j'. received h (jb_floor b) r j' (pumpTurn b cancel k)"
proof (cases "cs_closed k")
  case True
  with k show ?thesis by (auto simp: pumpTurn_def)
next
  case open_: False
  with k have out: "cs_out k = numbered h r j" "cs_cursor k = j" "r \<le> j" "j \<le> max r (length h)"
    by (auto simp: received_def)
  show ?thesis
  proof (cases "j < jb_floor b")
    case True
    with open_ out show ?thesis
      by (intro exI [of _ j]) (auto simp: pumpTurn_def received_def)
  next
    case False
    define n where "n = (case cancel of None \<Rightarrow> length h | Some n \<Rightarrow> min (length h) (j + n))"
    have batch: "filter (\<lambda>(s, _). \<not> s < j) (jb_chunks b) = numbered h j (length h)"
      using b False by (simp add: buffer_ok_def batch_numbered max_def)
    have sent: "(case cancel of None \<Rightarrow> numbered h j (length h) | Some m \<Rightarrow> take m (numbered h j (length h)))
        = numbered h j n"
      by (simp add: n_def take_numbered split: option.split)
    have turn: "pumpTurn b cancel k = k\<lparr>cs_out := numbered h r j @ numbered h j n,
        cs_cursor := if numbered h j n = [] then j else fst (last (numbered h j n)) + 1,
        cs_closed := (cancel \<noteq> None \<or> jb_terminal b)\<rparr>"
      using open_ out False by (simp add: pumpTurn_def batch sent Let_def)
    show ?thesis
    proof (cases "j < n")
      case True
      then have "numbered h j n \<noteq> []" "fst (last (numbered h j n)) = n - 1"
        using last_numbered [of h j n] by (auto simp: numbered_def)
      moreover have "n \<le> length h" by (simp add: n_def split: option.split)
      ultimately show ?thesis
        using True out by (intro exI [of _ n]) (auto simp: turn received_def numbered_append)
    next
      case False
      then have "numbered h j n = []" by (simp add: numbered_def)
      with out show ?thesis by (intro exI [of _ j]) (simp add: turn received_def)
    qed
  qed
qed

lemma stream_run:
  "buffer_ok (history es) (fst (fold stream_step es (newJobBuffer t, Attach r)))
   \<and> (\<exists>j. received (history es) (jb_floor (fst (fold stream_step es (newJobBuffer t, Attach r)))) r j
         (snd (fold stream_step es (newJobBuffer t, Attach r))))"
proof (induction es rule: rev_induct)
  case Nil
  then show ?case
    using newJobBuffer_ok by (auto simp: received_def Attach_def)
next
  case (snoc e es)
  obtain b k where bk: "fold stream_step es (newJobBuffer t, Attach r) = (b, k)" by fastforce
  with snoc obtain j where ih: "buffer_ok (history es) b" "received (history es) (jb_floor b) r j k" by auto
  show ?case
  proof (cases e)
    case (Appended now c)
    have "received (history es @ [c]) (jb_floor (snd (Append now (Some c) b))) r j k"
    proof (cases "j \<le> length (history es)")
      case True
      with ih(2) Append_ok [OF ih(1), of c now] show ?thesis
        by (auto simp: received_def numbered_extend)
    next
      case False
      with ih(2) have "j = r" by (auto simp: received_def)
      with ih(2) Append_ok [OF ih(1), of c now] show ?thesis by (auto simp: received_def)
    qed
    with Append_ok [OF ih(1), of c now] Appended bk show ?thesis by auto
  next
    case (Turn cancel)
    with pumpTurn_received [OF ih] ih bk show ?thesis by auto
  qed
qed

text \<open>C28. Replay and resume are exact. Whatever order chunks are appended and consumer turns run
  (cancellations included), a consumer that attached at \<open>r\<close> has received precisely the chunks
  numbered \<open>r, r+1, ..., j-1\<close>, each once and in order, followed at most by the synthetic overflow
  error, and that only when chunk \<open>j\<close> really was dropped. The buffer always retains a contiguous
  suffix of the history of at most ten MiB, and an uncancelled turn of an open consumer that is not
  behind the retained suffix delivers everything appended so far and closes exactly when the
  terminal frame has been appended.\<close>

theorem stream_resume_exact:
  fixes es :: "stream_event list" and t :: time and r :: nat
  defines "b \<equiv> fst (fold stream_step es (newJobBuffer t, Attach r))"
    and "k \<equiv> snd (fold stream_step es (newJobBuffer t, Attach r))"
  shows "(\<exists>j. received (history es) (jb_floor b) r j k)
    \<and> jb_chunks b = numbered (history es) (jb_floor b) (length (history es))
    \<and> sum_list (map (chunkSize \<circ> snd) (jb_chunks b)) \<le> streamBufferMaxBytes
    \<and> (\<not> cs_closed k \<and> jb_floor b \<le> cs_cursor k \<longrightarrow>
         cs_out (pumpTurn b None k) = numbered (history es) r (max (cs_cursor k) (length (history es)))
         \<and> (cs_closed (pumpTurn b None k) \<longleftrightarrow> (\<exists>c \<in> set (history es). terminal_chunk c)))"
proof -
  have b: "buffer_ok (history es) b" and j: "\<exists>j. received (history es) (jb_floor b) r j k"
    using stream_run [of es t r] by (simp_all add: b_def k_def)
  have "cs_out (pumpTurn b None k) = numbered (history es) r (max (cs_cursor k) (length (history es)))
         \<and> (cs_closed (pumpTurn b None k) \<longleftrightarrow> (\<exists>c \<in> set (history es). terminal_chunk c))"
    if o: "\<not> cs_closed k" "jb_floor b \<le> cs_cursor k"
  proof -
    from j o obtain i where i: "cs_out k = numbered (history es) r i" "cs_cursor k = i" "r \<le> i"
      by (auto simp: received_def)
    have "numbered (history es) r i @ numbered (history es) i (length (history es))
        = numbered (history es) r (max i (length (history es)))"
    proof (cases "i \<le> length (history es)")
      case True
      with i numbered_append [of r i "length (history es)" "history es"] show ?thesis
        by (simp add: max_def)
    next
      case False
      then show ?thesis by (simp add: numbered_def)
    qed
    with b i o show ?thesis
      by (simp add: pumpTurn_def buffer_ok_def batch_numbered max_def Let_def)
  qed
  with b j show ?thesis by (auto simp: buffer_ok_def)
qed

definition note_chunk :: "job_chunk_type \<Rightarrow> job_chunk" where
  "note_chunk ty = gapChunk\<lparr>jc_type := ty, jc_err := ''''\<rparr>"

theorem stream_resume_exact_witness:
  "cs_out (snd (fold stream_step [Appended 1 (note_chunk JobChunkTypeChunk), Turn None,
       Appended 2 (note_chunk JobChunkTypeCompleted), Turn None] (newJobBuffer 0, Attach 0)))
     = [(0, note_chunk JobChunkTypeChunk), (1, note_chunk JobChunkTypeCompleted)]
   \<and> jb_floor (fst (fold stream_step [Appended 1 (note_chunk JobChunkTypeChunk)] (newJobBuffer 0, Attach 0))) \<le> 0"
  using stream_resume_exact [of "[Appended 1 (note_chunk JobChunkTypeChunk), Turn None,
       Appended 2 (note_chunk JobChunkTypeCompleted)]" 0 0]
  by (simp add: note_chunk_def gapChunk_def newJobBuffer_def Attach_def pumpTurn_def chunkSize_def
      streamBufferMaxBytes_def terminal_chunk_def numbered_def upt_rec)

text \<open>The documented promise that the terminal frame is never lost does not hold of the buffer: a
  terminal frame larger than the cap is dropped by its own append, and a consumer waiting for it
  receives the overflow error instead.\<close>

lemma oversize_terminal_dropped:
  assumes "buffer_ok h b" "chunkSize c > streamBufferMaxBytes"
  shows "jb_chunks (snd (Append now (Some c) b)) = []
    \<and> cs_out (pumpTurn (snd (Append now (Some c) b)) None (Attach (length h))) = [(length h, gapChunk)]"
proof -
  define b' where "b' = snd (Append now (Some c) b)"
  have ok: "jb_floor b' \<le> Suc (length h)" "jb_chunks b' = numbered (h @ [c]) (jb_floor b') (Suc (length h))"
    "sum_list (map (chunkSize \<circ> snd) (jb_chunks b')) \<le> streamBufferMaxBytes"
    using Append_ok [OF assms(1), of c now, THEN conjunct1, folded b'_def]
    unfolding buffer_ok_def by auto
  have "jb_floor b' = Suc (length h)"
  proof (rule ccontr)
    assume "jb_floor b' \<noteq> Suc (length h)"
    with ok(1) have "(length h, c) \<in> set (jb_chunks b')"
      by (auto simp: ok(2) numbered_def)
    then have "chunkSize c \<in> set (map (chunkSize \<circ> snd) (jb_chunks b'))" by force
    moreover have "\<And>x. x \<in> set (map (chunkSize \<circ> snd) (jb_chunks b')) \<Longrightarrow> 0 \<le> x" by auto
    ultimately have "chunkSize c \<le> sum_list (map (chunkSize \<circ> snd) (jb_chunks b'))"
      by (metis sum_list_nonneg_member)
    with ok(3) assms(2) show False by simp
  qed
  with ok(2) show ?thesis unfolding b'_def [symmetric] by (simp add: pumpTurn_def Attach_def)
qed

end
