(* ===== verification/Worker.thy ===== *)
theory Worker
  imports Stream_Buffer
begin

text \<open>
  \<open>internal/worker\<close>: a worker on its bidirectional stream (\<open>stream_worker.go\<close>), the fleet of
  connected workers (\<open>fleet.go\<close>) and the operator's device whitelist (\<open>enabled_devices.go\<close>).

  Calls that wait for the worker's answer (load, unload, benchmark, model benchmark) register a
  one-shot reply slot; streaming jobs register a channel. A slot or channel that is written after
  it was closed would panic in Go; the model counts these as \<open>panics\<close>. Ids minted by the uuid
  package are arguments.
\<close>

subsection \<open>Devices, models and enabled devices\<close>

datatype device_type = DeviceTypeCPU | DeviceTypeGPU | DeviceTypeOther

record device =
  dev_id :: device_id
  dev_name :: string
  dev_type :: device_type
  dev_total_mb :: int

record device_stats =
  ds_device_id :: device_id
  ds_used_mb :: int
  ds_total_mb :: int
  ds_utilization :: rat

record loaded_model =
  lm_model_id :: model_id
  lm_pool_size :: int
  lm_active :: int
  lm_source :: string
  lm_idle_since :: "time option"
  lm_device_ids :: "device_id list"
  lm_files :: "string list"

record enabled_devices =
  ed_all :: bool
  ed_ids :: "device_id list"

definition ComputeEnabledDevices :: "device_id list \<Rightarrow> (device_id \<times> bool) list \<Rightarrow> enabled_devices" where
  "ComputeEnabledDevices advertised state =
     (if length state = 0 then \<lparr> ed_all = True, ed_ids = [] \<rparr>
      else \<lparr> ed_all = False,
             ed_ids = filter (\<lambda>i. case map_of state i of None \<Rightarrow> True | Some b \<Rightarrow> b) advertised \<rparr>)"

subsection \<open>Reply slots\<close>

record 'r slots =
  sl_waiting :: "string list"
  sl_answers :: "(string \<times> 'r) list"

definition empty_slots :: "'r slots" where
  "empty_slots = \<lparr> sl_waiting = [], sl_answers = [] \<rparr>"

definition open_slot :: "string \<Rightarrow> 'r slots \<Rightarrow> 'r slots" where
  "open_slot i s = s\<lparr>sl_waiting := i # sl_waiting s\<rparr>"

text \<open>Deliver: look up and delete under the lock, then send and close.\<close>

definition answer_slot :: "string \<Rightarrow> 'r \<Rightarrow> 'r slots \<Rightarrow> 'r slots" where
  "answer_slot i r s =
     (if i \<in> set (sl_waiting s)
      then s\<lparr>sl_waiting := removeAll i (sl_waiting s), sl_answers := sl_answers s @ [(i, r)]\<rparr>
      else s)"

definition forget_slot :: "string \<Rightarrow> 'r slots \<Rightarrow> 'r slots" where
  "forget_slot i s = s\<lparr>sl_waiting := removeAll i (sl_waiting s)\<rparr>"

definition answer_all :: "'r \<Rightarrow> 'r slots \<Rightarrow> 'r slots" where
  "answer_all r s = s\<lparr>sl_waiting := [], sl_answers := sl_answers s @ map (\<lambda>i. (i, r)) (sl_waiting s)\<rparr>"

datatype 'r call_outcome = CallError string | CallOffline | CallResult 'r

record job_channel =
  ch_items :: "job_chunk list"
  ch_closed :: bool

definition ch_send :: "job_chunk \<Rightarrow> job_channel \<Rightarrow> job_channel" where
  "ch_send c ch = ch\<lparr>ch_items := ch_items ch @ [c]\<rparr>"

definition ch_close :: "job_channel \<Rightarrow> job_channel" where
  "ch_close ch = ch\<lparr>ch_closed := True\<rparr>"

record model_bench_result =
  mr_elapsed :: rat
  mr_graph :: rat
  mr_base_bytes :: int
  mr_per_slot_bytes :: int

datatype model_bench_error = ErrBenchIncapable string | ErrBenchTransient string | BenchOffline

subsection \<open>The worker\<close>

record stream_worker =
  w_id :: worker_id
  w_name :: string
  w_version :: string
  w_runtime :: runtime_name
  w_devices :: "device list"
  w_online :: bool
  w_last_seen :: time
  w_loopback :: bool
  w_headroom_pct :: int
  w_device_stats :: "device_stats list"
  w_cache_files :: "string list"
  w_loaded :: "loaded_model list"
  w_available_cap :: int
  w_active_jobs :: int
  w_jobs :: "string list"
  w_channels :: "(string \<times> job_channel) list"
  w_loads :: "int call_outcome slots"
  w_unloads :: "unit call_outcome slots"
  w_benches :: "string list call_outcome slots"
  w_model_benches :: "(model_bench_error + model_bench_result) slots"
  w_panics :: nat

record worker_register =
  reg_name :: string
  reg_version :: string
  reg_runtime_name :: runtime_name
  reg_devices :: "device list"
  reg_headroom_pct :: int

definition NewStreamWorker :: "worker_id \<Rightarrow> worker_register \<Rightarrow> bool \<Rightarrow> time \<Rightarrow> stream_worker" where
  "NewStreamWorker i reg loopback now = \<lparr> w_id = i, w_name = reg_name reg, w_version = reg_version reg, w_runtime = reg_runtime_name reg,
     w_devices = reg_devices reg, w_online = True, w_last_seen = now, w_loopback = loopback,
     w_headroom_pct = reg_headroom_pct reg, w_device_stats = [], w_cache_files = [], w_loaded = [],
     w_available_cap = 0, w_active_jobs = 0, w_jobs = [], w_channels = [], w_loads = empty_slots,
     w_unloads = empty_slots, w_benches = empty_slots, w_model_benches = empty_slots, w_panics = 0 \<rparr>"

definition HeartbeatStale :: "time \<Rightarrow> time \<Rightarrow> stream_worker \<Rightarrow> bool" where
  "HeartbeatStale window now w = (if \<not> w_online w then False else now - w_last_seen w > window)"

text \<open>A write to a channel that is closed, or a second close, is a panic.\<close>

definition chan_op :: "string \<Rightarrow> (job_channel \<Rightarrow> job_channel) \<Rightarrow> stream_worker \<Rightarrow> stream_worker" where
  "chan_op i f w = (case map_of (w_channels w) i of
      None \<Rightarrow> w
    | Some ch \<Rightarrow> if ch_closed ch then w\<lparr>w_panics := Suc (w_panics w)\<rparr>
                 else w\<lparr>w_channels := AList.update i (f ch) (w_channels w)\<rparr>)"

fun close_channels :: "string list \<Rightarrow> stream_worker \<Rightarrow> stream_worker" where
  "close_channels [] w = w"
| "close_channels (i # is) w = close_channels is (chan_op i ch_close w)"

definition SetOffline :: "stream_worker \<Rightarrow> stream_worker" where
  "SetOffline w =
     (let w = w\<lparr>w_online := False\<rparr>;
          w = (close_channels (w_jobs w) w)\<lparr>w_jobs := []\<rparr>
      in w\<lparr>w_loads := answer_all CallOffline (w_loads w),
           w_unloads := answer_all CallOffline (w_unloads w),
           w_benches := answer_all CallOffline (w_benches w),
           w_model_benches := answer_all (Inl BenchOffline) (w_model_benches w)\<rparr>)"

definition DeliverJobChunk :: "string \<Rightarrow> job_chunk \<Rightarrow> stream_worker \<Rightarrow> stream_worker" where
  "DeliverJobChunk jobID chunk w =
     (let term = terminal_chunk chunk in
      if jobID \<in> set (w_jobs w)
      then let w = (if term then w\<lparr>w_jobs := removeAll jobID (w_jobs w)\<rparr> else w);
               w = chan_op jobID (ch_send chunk) w
           in if term then chan_op jobID ch_close w else w
      else w)"

definition DeliverLoadResult :: "string \<Rightarrow> int \<Rightarrow> string \<Rightarrow> stream_worker \<Rightarrow> stream_worker" where
  "DeliverLoadResult jobID pool errMsg w = w\<lparr>w_loads := answer_slot jobID
     (if errMsg \<noteq> '''' then CallError errMsg else CallResult pool) (w_loads w)\<rparr>"

definition DeliverUnloadResult :: "string \<Rightarrow> string \<Rightarrow> stream_worker \<Rightarrow> stream_worker" where
  "DeliverUnloadResult jobID errMsg w = w\<lparr>w_unloads := answer_slot jobID
     (if errMsg \<noteq> '''' then CallError errMsg else CallResult ()) (w_unloads w)\<rparr>"

definition DeliverBenchResult :: "string \<Rightarrow> string list \<Rightarrow> string \<Rightarrow> stream_worker \<Rightarrow> stream_worker" where
  "DeliverBenchResult jobID res errMsg w = w\<lparr>w_benches := answer_slot jobID
     (if errMsg \<noteq> '''' then CallError errMsg else CallResult res) (w_benches w)\<rparr>"

definition DeliverModelBenchResult :: "model_id \<Rightarrow> model_bench_error + model_bench_result
    \<Rightarrow> stream_worker \<Rightarrow> stream_worker" where
  "DeliverModelBenchResult modelID out w =
     w\<lparr>w_model_benches := answer_slot modelID out (w_model_benches w)\<rparr>"

text \<open>Outbound calls: register first, send, unregister when the send fails. \<open>sent\<close> is whether the
  stream accepted the message; an offline worker refuses before sending.\<close>

definition send_ok :: "bool \<Rightarrow> stream_worker \<Rightarrow> bool" where
  "send_ok sent w \<longleftrightarrow> w_online w \<and> sent"

definition AssignJob :: "string \<Rightarrow> bool \<Rightarrow> stream_worker \<Rightarrow> (string option) \<times> stream_worker" where
  "AssignJob jobID sent w =
     (let w = w\<lparr>w_jobs := jobID # w_jobs w,
                w_channels := (jobID, \<lparr> ch_items = [], ch_closed = False \<rparr>) # w_channels w\<rparr>
      in if \<not> send_ok sent w then (None, w\<lparr>w_jobs := removeAll jobID (w_jobs w)\<rparr>)
         else (Some jobID, w))"

definition beginLoad :: "string \<Rightarrow> int \<Rightarrow> bool \<Rightarrow> stream_worker \<Rightarrow> bool \<times> stream_worker" where
  "beginLoad jobID maxConcurrent sent w =
     (if maxConcurrent \<le> 0 then (False, w)
      else let w = w\<lparr>w_loads := open_slot jobID (w_loads w)\<rparr>
           in if \<not> send_ok sent w then (False, w\<lparr>w_loads := forget_slot jobID (w_loads w)\<rparr>)
              else (True, w))"

fun mark_entry :: "model_id \<Rightarrow> int \<Rightarrow> string \<Rightarrow> time \<Rightarrow> loaded_model list \<Rightarrow> loaded_model list" where
  "mark_entry m pool source now [] =
     [\<lparr> lm_model_id = m, lm_pool_size = pool, lm_active = 0, lm_source = source,
        lm_idle_since = Some now, lm_device_ids = [], lm_files = [] \<rparr>]"
| "mark_entry m pool source now (l # ls) =
     (if lm_model_id l = m
      then l\<lparr>lm_pool_size := pool, lm_source := (if source \<noteq> '''' then source else lm_source l)\<rparr> # ls
      else l # mark_entry m pool source now ls)"

definition markLoaded :: "model_id \<Rightarrow> int \<Rightarrow> string \<Rightarrow> time \<Rightarrow> stream_worker \<Rightarrow> stream_worker" where
  "markLoaded m pool source now w = w\<lparr>w_loaded := mark_entry m pool source now (w_loaded w)\<rparr>"

text \<open>The caller of \<open>LoadModel\<close> resumes with its outcome and stamps the loaded-model index.\<close>

definition finishLoad :: "model_id \<Rightarrow> string \<Rightarrow> time \<Rightarrow> int call_outcome \<Rightarrow> stream_worker
    \<Rightarrow> stream_worker" where
  "finishLoad m source now out w = (case out of
      CallResult pool \<Rightarrow> markLoaded m pool source now w | _ \<Rightarrow> w)"

definition beginUnload :: "string \<Rightarrow> bool \<Rightarrow> stream_worker \<Rightarrow> bool \<times> stream_worker" where
  "beginUnload jobID sent w =
     (let w = w\<lparr>w_unloads := open_slot jobID (w_unloads w)\<rparr>
      in if \<not> send_ok sent w then (False, w\<lparr>w_unloads := forget_slot jobID (w_unloads w)\<rparr>)
         else (True, w))"

definition benchSend :: "string \<Rightarrow> bool \<Rightarrow> stream_worker \<Rightarrow> bool \<times> stream_worker" where
  "benchSend jobID sent w =
     (let w = w\<lparr>w_benches := open_slot jobID (w_benches w)\<rparr>
      in if \<not> send_ok sent w then (False, w\<lparr>w_benches := forget_slot jobID (w_benches w)\<rparr>)
         else (True, w))"

definition beginBenchModel :: "model_id \<Rightarrow> bool \<Rightarrow> stream_worker \<Rightarrow> bool \<times> stream_worker" where
  "beginBenchModel modelID sent w =
     (if modelID \<in> set (sl_waiting (w_model_benches w)) then (False, w)
      else let w = w\<lparr>w_model_benches := open_slot modelID (w_model_benches w)\<rparr>
           in if \<not> send_ok sent w
              then (False, w\<lparr>w_model_benches := forget_slot modelID (w_model_benches w)\<rparr>)
              else (True, w))"

definition cancelBenchModel :: "model_id \<Rightarrow> stream_worker \<Rightarrow> stream_worker" where
  "cancelBenchModel modelID w = w\<lparr>w_model_benches := forget_slot modelID (w_model_benches w)\<rparr>"

subsection \<open>Heartbeats\<close>

record heartbeat_model =
  hm_model_id :: model_id
  hm_pool_size :: int
  hm_active :: int
  hm_device_ids :: "device_id list"
  hm_files :: "string list"

record heartbeat =
  hb_active_jobs :: int
  hb_available_capacity :: int
  hb_device_stats :: "device_stats list"
  hb_cache_files :: "string list"
  hb_loaded_models :: "heartbeat_model list"

text \<open>A Go map filled in a loop keeps the last entry of a key.\<close>

definition last_entry :: "loaded_model list \<Rightarrow> model_id \<Rightarrow> loaded_model option" where
  "last_entry ls m = map_of (rev (map (\<lambda>l. (lm_model_id l, l)) ls)) m"

definition merge_loaded :: "time \<Rightarrow> loaded_model list \<Rightarrow> heartbeat_model \<Rightarrow> loaded_model" where
  "merge_loaded now prev lm =
     (let old = last_entry prev (hm_model_id lm) in
      \<lparr> lm_model_id = hm_model_id lm, lm_pool_size = hm_pool_size lm, lm_active = hm_active lm,
        lm_source = (case old of Some o' \<Rightarrow> lm_source o' | None \<Rightarrow> ''''),
        lm_idle_since =
          (if hm_active lm > 0 then None
           else case old of
             Some o' \<Rightarrow> (if lm_idle_since o' \<noteq> None then lm_idle_since o' else Some now)
           | None \<Rightarrow> Some now),
        lm_device_ids = hm_device_ids lm, lm_files = hm_files lm \<rparr>)"

definition sameLoadedSet :: "loaded_model list \<Rightarrow> loaded_model list \<Rightarrow> bool" where
  "sameLoadedSet a b =
     (if length a \<noteq> length b then False
      else list_all (\<lambda>lm. case last_entry a (lm_model_id lm) of
          None \<Rightarrow> False
        | Some prev \<Rightarrow> lm_pool_size prev = lm_pool_size lm \<and> lm_active prev = lm_active lm) b)"

definition ApplyHeartbeat :: "time \<Rightarrow> heartbeat \<Rightarrow> stream_worker \<Rightarrow> bool \<times> stream_worker" where
  "ApplyHeartbeat now hb w =
     (let loaded = map (merge_loaded now (w_loaded w)) (hb_loaded_models hb);
          changed = (\<not> sameLoadedSet (w_loaded w) loaded)
      in (changed, w\<lparr>w_online := True, w_last_seen := now, w_active_jobs := hb_active_jobs hb,
           w_available_cap := hb_available_capacity hb,
           w_device_stats := (if length (hb_device_stats hb) > 0 then hb_device_stats hb
                              else w_device_stats w),
           w_cache_files := hb_cache_files hb, w_loaded := loaded\<rparr>))"

subsection \<open>The fleet\<close>

record fleet =
  fl_workers :: "(worker_id \<times> stream_worker) list"
  fl_order :: "worker_id list"

definition empty_fleet :: fleet where "empty_fleet = \<lparr> fl_workers = [], fl_order = [] \<rparr>"

definition Register :: "stream_worker \<Rightarrow> fleet \<Rightarrow> bool \<times> fleet" where
  "Register w f = (if map_of (fl_workers f) (w_id w) \<noteq> None then (False, f)
     else (True, f\<lparr>fl_workers := AList.update (w_id w) w (fl_workers f),
                   fl_order := fl_order f @ [w_id w]\<rparr>))"

definition Deregister :: "worker_id \<Rightarrow> fleet \<Rightarrow> bool \<times> fleet" where
  "Deregister i f = (if map_of (fl_workers f) i = None then (False, f)
     else (True, f\<lparr>fl_workers := AList.delete i (fl_workers f), fl_order := remove1 i (fl_order f)\<rparr>))"

definition Get_worker :: "worker_id \<Rightarrow> fleet \<Rightarrow> stream_worker option" where
  "Get_worker i f = map_of (fl_workers f) i"

definition All_workers :: "fleet \<Rightarrow> stream_worker list" where
  "All_workers f = List.map_filter (map_of (fl_workers f)) (fl_order f)"

definition SelectWorker :: "fleet \<Rightarrow> stream_worker option" where
  "SelectWorker f = find w_online (All_workers f)"

subsection \<open>Every call is answered at most once\<close>

text \<open>The contract of a reply table, and what follows for any sequence of operations on it that
  mints fresh ids.\<close>

datatype 'r slot_op = SOpen string | SAnswer string 'r | SForget string | SAnswerAll 'r

locale reply_table =
  fixes opens :: "string \<Rightarrow> 's \<Rightarrow> 's"
    and answers :: "string \<Rightarrow> 'r \<Rightarrow> 's \<Rightarrow> 's"
    and forgets :: "string \<Rightarrow> 's \<Rightarrow> 's"
    and answers_all :: "'r \<Rightarrow> 's \<Rightarrow> 's"
    and waiting :: "'s \<Rightarrow> string set"
    and replies :: "'s \<Rightarrow> string \<Rightarrow> nat"
    and table_ok :: "'s \<Rightarrow> bool"
  assumes opens_ok: "table_ok s \<Longrightarrow> i \<notin> waiting s \<Longrightarrow> table_ok (opens i s)"
    and opens_waiting: "waiting (opens i s) = insert i (waiting s)"
    and opens_replies: "replies (opens i s) = replies s"
    and answers_ok: "table_ok s \<Longrightarrow> table_ok (answers i r s)"
    and answers_waiting: "waiting (answers i r s) = waiting s - {i}"
    and answers_replies: "table_ok s \<Longrightarrow>
      replies (answers i r s) j = replies s j + (if j = i \<and> i \<in> waiting s then 1 else 0)"
    and forgets_ok: "table_ok s \<Longrightarrow> table_ok (forgets i s)"
    and forgets_waiting: "waiting (forgets i s) = waiting s - {i}"
    and forgets_replies: "replies (forgets i s) = replies s"
    and answers_all_ok: "table_ok s \<Longrightarrow> table_ok (answers_all r s)"
    and answers_all_waiting: "waiting (answers_all r s) = {}"
    and answers_all_replies: "table_ok s \<Longrightarrow>
      replies (answers_all r s) j = replies s j + (if j \<in> waiting s then 1 else 0)"
begin

fun run_slots :: "'r slot_op list \<Rightarrow> 's \<Rightarrow> 's" where
  "run_slots [] s = s"
| "run_slots (SOpen i # ops) s = run_slots ops (opens i s)"
| "run_slots (SAnswer i r # ops) s = run_slots ops (answers i r s)"
| "run_slots (SForget i # ops) s = run_slots ops (forgets i s)"
| "run_slots (SAnswerAll r # ops) s = run_slots ops (answers_all r s)"

definition fresh_opens :: "'r slot_op list \<Rightarrow> 's \<Rightarrow> bool" where
  "fresh_opens ops s \<longleftrightarrow> distinct [i. SOpen i \<leftarrow> ops]
     \<and> (\<forall>i. SOpen i \<in> set ops \<longrightarrow> i \<notin> waiting s \<and> replies s i = 0)"

definition answered_once :: "'s \<Rightarrow> bool" where
  "answered_once s \<longleftrightarrow> table_ok s \<and> (\<forall>i. replies s i \<le> 1 \<and> (i \<in> waiting s \<longrightarrow> replies s i = 0))"

lemma answered_once_step:
  assumes "answered_once s"
  shows "i \<notin> waiting s \<Longrightarrow> replies s i = 0 \<Longrightarrow> answered_once (opens i s)"
    "answered_once (answers i r s)" "answered_once (forgets i s)" "answered_once (answers_all r s)"
  using assms
  by (auto simp: answered_once_def opens_ok opens_waiting opens_replies answers_ok answers_waiting
      answers_replies forgets_ok forgets_waiting forgets_replies answers_all_ok
      answers_all_waiting answers_all_replies)

lemma run_slots_once:
  assumes "answered_once s" "fresh_opens ops s"
  shows "answered_once (run_slots ops s)"
  using assms
proof (induction ops s rule: run_slots.induct)
  case (2 i ops s)
  then show ?case
    by (auto simp: fresh_opens_def opens_waiting opens_replies intro!: 2(1) answered_once_step)
next
  case (3 i r ops s)
  moreover have "replies (answers i r s) j = 0" if "SOpen j \<in> set ops" for j
    using 3 that by (auto simp: fresh_opens_def answers_replies answered_once_def)
  ultimately show ?case
    by (auto simp: fresh_opens_def answers_waiting intro!: 3(1) answered_once_step)
next
  case (4 i ops s)
  then show ?case
    by (auto simp: fresh_opens_def forgets_waiting forgets_replies intro!: 4(1) answered_once_step)
next
  case (5 r ops s)
  moreover have "replies (answers_all r s) j = 0" if "SOpen j \<in> set ops" for j
    using 5 that by (auto simp: fresh_opens_def answers_all_replies answered_once_def)
  ultimately show ?case
    by (auto simp: fresh_opens_def answers_all_waiting intro!: 5(1) answered_once_step)
qed simp

lemma offline_answers:
  assumes "answered_once s" "i \<in> waiting s"
  shows "replies (answers_all r s) i = 1 \<and> waiting (answers_all r s) = {}"
  using assms by (simp add: answered_once_def answers_all_replies answers_all_waiting)

end

definition slot_waiting :: "'r slots \<Rightarrow> string set" where
  "slot_waiting s = set (sl_waiting s)"

definition slot_replies :: "'r slots \<Rightarrow> string \<Rightarrow> nat" where
  "slot_replies s i = length (filter (\<lambda>p. fst p = i) (sl_answers s))"

definition slots_ok :: "'r slots \<Rightarrow> bool" where
  "slots_ok s \<longleftrightarrow> distinct (sl_waiting s)"

lemma count_pairs:
  "distinct ws \<Longrightarrow> length (filter (\<lambda>x. x = i) ws) = (if i \<in> set ws then 1 else 0)"
  by (induction ws) (auto simp: filter_empty_conv)

interpretation reply_slots: reply_table open_slot answer_slot forget_slot answer_all
  slot_waiting slot_replies slots_ok
  by unfold_locales
    (auto simp: open_slot_def answer_slot_def forget_slot_def answer_all_def slot_waiting_def
      slot_replies_def slots_ok_def distinct_removeAll count_pairs o_def filter_empty_conv)

lemma empty_slots_once: "reply_slots.answered_once empty_slots"
  by (simp add: reply_slots.answered_once_def empty_slots_def slots_ok_def slot_waiting_def
      slot_replies_def)

subsection \<open>Channels of streaming jobs\<close>

datatype worker_event =
    WAssign string bool
  | WChunk string job_chunk
  | WLoad string int bool
  | WLoadResult string int string
  | WUnload string bool
  | WUnloadResult string string
  | WBench string bool
  | WBenchResult string "string list" string
  | WBenchModel model_id bool
  | WBenchModelResult model_id "model_bench_error + model_bench_result"
  | WBenchModelCancel model_id
  | WHeartbeat time heartbeat
  | WOffline

fun worker_step :: "worker_event \<Rightarrow> stream_worker \<Rightarrow> stream_worker" where
  "worker_step (WAssign i sent) w = snd (AssignJob i sent w)"
| "worker_step (WChunk i c) w = DeliverJobChunk i c w"
| "worker_step (WLoad i n sent) w = snd (beginLoad i n sent w)"
| "worker_step (WLoadResult i n e) w = DeliverLoadResult i n e w"
| "worker_step (WUnload i sent) w = snd (beginUnload i sent w)"
| "worker_step (WUnloadResult i e) w = DeliverUnloadResult i e w"
| "worker_step (WBench i sent) w = snd (benchSend i sent w)"
| "worker_step (WBenchResult i r e) w = DeliverBenchResult i r e w"
| "worker_step (WBenchModel m sent) w = snd (beginBenchModel m sent w)"
| "worker_step (WBenchModelResult m out) w = DeliverModelBenchResult m out w"
| "worker_step (WBenchModelCancel m) w = cancelBenchModel m w"
| "worker_step (WHeartbeat now hb) w = snd (ApplyHeartbeat now hb w)"
| "worker_step WOffline w = SetOffline w"

text \<open>Ids come from \<open>uuid.NewString\<close>: none is used twice.\<close>

definition slot_fresh :: "string \<Rightarrow> 'r slots \<Rightarrow> bool" where
  "slot_fresh i s \<longleftrightarrow> i \<notin> slot_waiting s \<and> slot_replies s i = 0"

fun event_fresh :: "worker_event \<Rightarrow> stream_worker \<Rightarrow> bool" where
  "event_fresh (WAssign i sent) w \<longleftrightarrow> map_of (w_channels w) i = None"
| "event_fresh (WLoad i n sent) w \<longleftrightarrow> slot_fresh i (w_loads w)"
| "event_fresh (WUnload i sent) w \<longleftrightarrow> slot_fresh i (w_unloads w)"
| "event_fresh (WBench i sent) w \<longleftrightarrow> slot_fresh i (w_benches w)"
| "event_fresh _ w \<longleftrightarrow> True"

fun events_fresh :: "worker_event list \<Rightarrow> stream_worker \<Rightarrow> bool" where
  "events_fresh [] w \<longleftrightarrow> True"
| "events_fresh (e # es) w \<longleftrightarrow> event_fresh e w \<and> events_fresh es (worker_step e w)"

text \<open>Nothing follows a terminal frame on a job's channel, and a channel that got one is closed.\<close>

definition channel_ok :: "job_channel \<Rightarrow> bool" where
  "channel_ok ch \<longleftrightarrow> (\<forall>c \<in> set (butlast (ch_items ch)). \<not> terminal_chunk c)
     \<and> (ch_items ch \<noteq> [] \<and> terminal_chunk (last (ch_items ch)) \<longrightarrow> ch_closed ch)"

definition routing_ok :: "stream_worker \<Rightarrow> bool" where
  "routing_ok w \<longleftrightarrow> w_panics w = 0 \<and> distinct (w_jobs w)
     \<and> (\<forall>i \<in> set (w_jobs w). \<exists>ch. map_of (w_channels w) i = Some ch \<and> \<not> ch_closed ch)
     \<and> (\<forall>i ch. map_of (w_channels w) i = Some ch \<longrightarrow> channel_ok ch)"

definition worker_ok :: "stream_worker \<Rightarrow> bool" where
  "worker_ok w \<longleftrightarrow> routing_ok w \<and> reply_slots.answered_once (w_loads w)
     \<and> reply_slots.answered_once (w_unloads w) \<and> reply_slots.answered_once (w_benches w)"

text \<open>What the channel operations leave alone.\<close>

definition same_slots :: "stream_worker \<Rightarrow> stream_worker \<Rightarrow> bool" where
  "same_slots w w' \<longleftrightarrow> w_loads w' = w_loads w \<and> w_unloads w' = w_unloads w
     \<and> w_benches w' = w_benches w \<and> w_model_benches w' = w_model_benches w"

lemma chan_op_frame [simp]:
  "same_slots w (chan_op i f w)" "w_jobs (chan_op i f w) = w_jobs w"
  "w_online (chan_op i f w) = w_online w"
  by (simp_all add: chan_op_def same_slots_def split: option.split)

lemma chan_op_open:
  assumes "map_of (w_channels w) i = Some ch" "\<not> ch_closed ch"
  shows "map_of (w_channels (chan_op i f w)) = (map_of (w_channels w))(i \<mapsto> f ch)"
    "w_panics (chan_op i f w) = w_panics w"
  using assms by (simp_all add: chan_op_def)

lemma close_channels_spec:
  assumes "distinct is" "\<forall>i \<in> set is. \<exists>ch. map_of (w_channels w) i = Some ch \<and> \<not> ch_closed ch"
  shows "w_panics (close_channels is w) = w_panics w \<and> w_jobs (close_channels is w) = w_jobs w
    \<and> same_slots w (close_channels is w) \<and> w_online (close_channels is w) = w_online w
    \<and> (\<forall>j. map_of (w_channels (close_channels is w)) j =
         (if j \<in> set is then map_option ch_close (map_of (w_channels w) j) else map_of (w_channels w) j))"
  using assms
proof (induction "is" arbitrary: w)
  case Nil
  then show ?case by (simp add: same_slots_def)
next
  case (Cons i "is")
  then obtain ch where ch: "map_of (w_channels w) i = Some ch" "\<not> ch_closed ch" by auto
  note op = chan_op_open [OF ch, of ch_close]
  have "\<forall>j \<in> set is. \<exists>ch. map_of (w_channels (chan_op i ch_close w)) j = Some ch \<and> \<not> ch_closed ch"
    using Cons.prems by (auto simp: op)
  with Cons.IH [of "chan_op i ch_close w"] Cons.prems ch op chan_op_frame(1) [of w i ch_close]
  show ?case by (auto simp: same_slots_def)
qed

lemma channel_ok_close: "channel_ok ch \<Longrightarrow> channel_ok (ch_close ch)"
  by (simp add: channel_ok_def ch_close_def)

lemma channel_open_clean:
  assumes "channel_ok ch" "\<not> ch_closed ch"
  shows "\<forall>c \<in> set (ch_items ch). \<not> terminal_chunk c"
  using assms by (cases "ch_items ch" rule: rev_cases) (auto simp: channel_ok_def)

lemma channel_ok_send:
  assumes "channel_ok ch" "\<not> ch_closed ch"
  shows "\<not> terminal_chunk c \<Longrightarrow> channel_ok (ch_send c ch)" "channel_ok (ch_close (ch_send c ch))"
  using channel_open_clean [OF assms] by (simp_all add: channel_ok_def ch_send_def ch_close_def)

lemma routing_DeliverJobChunk:
  assumes w: "routing_ok w"
  shows "routing_ok (DeliverJobChunk i c w) \<and> same_slots w (DeliverJobChunk i c w)"
proof (cases "i \<in> set (w_jobs w)")
  case False
  with w show ?thesis by (simp add: DeliverJobChunk_def same_slots_def Let_def)
next
  case True
  with w obtain ch where ch: "map_of (w_channels w) i = Some ch" "\<not> ch_closed ch" "channel_ok ch"
    by (auto simp: routing_ok_def)
  show ?thesis
  proof (cases "terminal_chunk c")
    case False
    then have d: "DeliverJobChunk i c w = chan_op i (ch_send c) w"
      using True by (simp add: DeliverJobChunk_def Let_def)
    show ?thesis
      using w ch False channel_ok_send(1) [OF ch(3,2), of c]
      by (auto simp: d routing_ok_def chan_op_open [OF ch(1,2)] ch_send_def)
  next
    case fin: True
    define w1 where "w1 = w\<lparr>w_jobs := removeAll i (w_jobs w)\<rparr>"
    have ch1: "map_of (w_channels w1) i = Some ch" by (simp add: w1_def ch)
    note o1 = chan_op_open [OF ch1 ch(2), of "ch_send c"]
    have ch2: "map_of (w_channels (chan_op i (ch_send c) w1)) i = Some (ch_send c ch)"
      "\<not> ch_closed (ch_send c ch)"
      using ch(2) by (simp_all add: o1 ch_send_def)
    note o2 = chan_op_open [OF ch2, of ch_close]
    have d: "DeliverJobChunk i c w = chan_op i ch_close (chan_op i (ch_send c) w1)"
      using True fin by (simp add: DeliverJobChunk_def Let_def w1_def)
    have "same_slots w (chan_op i ch_close (chan_op i (ch_send c) w1))"
      using chan_op_frame(1) [of w1 i "ch_send c"]
        chan_op_frame(1) [of "chan_op i (ch_send c) w1" i ch_close]
      by (simp add: same_slots_def w1_def)
    moreover have "w_jobs w1 = removeAll i (w_jobs w)" "w_channels w1 = w_channels w" "w_panics w1 = w_panics w"
      by (simp_all add: w1_def)
    ultimately show ?thesis
      using w ch channel_ok_send(2) [OF ch(3,2), of c]
      by (auto simp: d routing_ok_def o1 o2 distinct_removeAll)
  qed
qed

lemma routing_AssignJob:
  assumes "routing_ok w" "map_of (w_channels w) i = None"
  shows "routing_ok (snd (AssignJob i sent w)) \<and> same_slots w (snd (AssignJob i sent w))"
proof -
  have "i \<notin> set (w_jobs w)" using assms by (auto simp: routing_ok_def)
  with assms show ?thesis
    by (auto simp: AssignJob_def routing_ok_def same_slots_def channel_ok_def Let_def)
qed

lemma routing_frame:
  "routing_ok w \<Longrightarrow> w_panics w' = w_panics w \<Longrightarrow> w_jobs w' = w_jobs w
     \<Longrightarrow> w_channels w' = w_channels w \<Longrightarrow> routing_ok w'"
  by (simp add: routing_ok_def)

lemma routing_SetOffline:
  assumes "routing_ok w"
  shows "routing_ok (SetOffline w) \<and> w_jobs (SetOffline w) = [] \<and> \<not> w_online (SetOffline w)
    \<and> (\<forall>i \<in> set (w_jobs w). \<exists>ch. map_of (w_channels (SetOffline w)) i = Some ch \<and> ch_closed ch)
    \<and> w_loads (SetOffline w) = answer_all CallOffline (w_loads w)
    \<and> w_unloads (SetOffline w) = answer_all CallOffline (w_unloads w)
    \<and> w_benches (SetOffline w) = answer_all CallOffline (w_benches w)"
proof -
  define w0 where "w0 = w\<lparr>w_online := False\<rparr>"
  define w1 where "w1 = close_channels (w_jobs w) w0"
  have open_: "\<forall>i \<in> set (w_jobs w). \<exists>ch. map_of (w_channels w0) i = Some ch \<and> \<not> ch_closed ch"
    and dist: "distinct (w_jobs w)"
    using assms by (simp_all add: routing_ok_def w0_def)
  note spec = close_channels_spec [OF dist open_, folded w1_def]
  have chans: "map_of (w_channels w1) j =
      (if j \<in> set (w_jobs w) then map_option ch_close (map_of (w_channels w) j) else map_of (w_channels w) j)" for j
    using spec by (simp add: w0_def)
  have off: "w_panics (SetOffline w) = w_panics w1" "w_jobs (SetOffline w) = []"
    "w_online (SetOffline w) = w_online w1" "w_channels (SetOffline w) = w_channels w1"
    "w_loads (SetOffline w) = answer_all CallOffline (w_loads w1)"
    "w_unloads (SetOffline w) = answer_all CallOffline (w_unloads w1)"
    "w_benches (SetOffline w) = answer_all CallOffline (w_benches w1)"
    by (simp_all add: SetOffline_def Let_def w1_def w0_def)
  have "\<exists>ch. map_of (w_channels w1) i = Some ch \<and> ch_closed ch" if "i \<in> set (w_jobs w)" for i
    using that open_ by (auto simp: chans w0_def ch_close_def)
  moreover have "channel_ok ch" if "map_of (w_channels w1) i = Some ch" for i ch
    using that assms channel_ok_close unfolding chans routing_ok_def by (auto split: if_splits)
  ultimately show ?thesis
    unfolding off using spec assms by (auto simp: routing_ok_def off same_slots_def w0_def)
qed

lemma worker_step_ok:
  assumes w: "worker_ok w" and f: "event_fresh e w"
  shows "worker_ok (worker_step e w)"
proof -
  note once = reply_slots.answered_once_step
  note fresh = slot_fresh_def
  have r: "routing_ok w" and s: "reply_slots.answered_once (w_loads w)"
    "reply_slots.answered_once (w_unloads w)" "reply_slots.answered_once (w_benches w)"
    using w by (simp_all add: worker_ok_def)
  note keep = routing_frame [OF r]
  show ?thesis
  proof (cases e)
    case (WAssign i sent)
    with routing_AssignJob [OF r, of i sent] f s show ?thesis
      by (simp add: worker_ok_def same_slots_def)
  next
    case (WChunk i c)
    with routing_DeliverJobChunk [OF r, of i c] s show ?thesis
      by (simp add: worker_ok_def same_slots_def)
  next
    case (WLoad i n sent)
    with f s once(1) [OF s(1), of i] once(3) [OF once(1) [OF s(1)], of i i] show ?thesis
      by (auto simp: worker_ok_def beginLoad_def Let_def fresh intro!: keep)
  next
    case (WUnload i sent)
    with f s once(1) [OF s(2), of i] once(3) [OF once(1) [OF s(2)], of i i] show ?thesis
      by (auto simp: worker_ok_def beginUnload_def Let_def fresh intro!: keep)
  next
    case (WBench i sent)
    with f s once(1) [OF s(3), of i] once(3) [OF once(1) [OF s(3)], of i i] show ?thesis
      by (auto simp: worker_ok_def benchSend_def Let_def fresh intro!: keep)
  next
    case WOffline
    with routing_SetOffline [OF r] s show ?thesis by (simp add: worker_ok_def once(4))
  next
    case (WBenchModel m sent)
    with s show ?thesis by (auto simp: worker_ok_def beginBenchModel_def Let_def intro!: keep)
  qed (use s in \<open>auto simp: once(2) worker_ok_def DeliverLoadResult_def DeliverUnloadResult_def
      DeliverBenchResult_def DeliverModelBenchResult_def cancelBenchModel_def ApplyHeartbeat_def
      Let_def intro!: keep\<close>)
qed

lemma NewStreamWorker_ok: "worker_ok (NewStreamWorker i reg lb now)"
  by (simp add: worker_ok_def routing_ok_def NewStreamWorker_def empty_slots_once)

lemma worker_run_ok:
  "worker_ok w \<Longrightarrow> events_fresh es w \<Longrightarrow> worker_ok (fold worker_step es w)"
  by (induction es arbitrary: w) (auto simp: worker_step_ok)

text \<open>Reply routing of a worker, over every sequence of calls, deliveries, heartbeats and
  disconnects with fresh call ids: no send on a closed channel and no double close ever happens
  (the panic the lock discipline exists to exclude); every job channel carries at most one terminal
  frame, as its last item, and is closed after it; every load, unload and benchmark call is answered
  at most once; and a disconnect closes every routed job channel and answers every waiting call, so
  no caller is left blocked.\<close>

theorem worker_routing_safe:
  assumes "events_fresh es (NewStreamWorker i reg lb now)"
  defines "w \<equiv> fold worker_step es (NewStreamWorker i reg lb now)"
  shows "w_panics w = 0
    \<and> (\<forall>j ch. map_of (w_channels w) j = Some ch \<longrightarrow> channel_ok ch)
    \<and> (\<forall>j. slot_replies (w_loads w) j \<le> 1 \<and> slot_replies (w_unloads w) j \<le> 1
         \<and> slot_replies (w_benches w) j \<le> 1)
    \<and> (\<forall>j \<in> set (w_jobs w). \<exists>ch. map_of (w_channels (SetOffline w)) j = Some ch \<and> ch_closed ch)
    \<and> (\<forall>j \<in> slot_waiting (w_loads w). slot_replies (w_loads (SetOffline w)) j = 1)
    \<and> (\<forall>j \<in> slot_waiting (w_unloads w). slot_replies (w_unloads (SetOffline w)) j = 1)
    \<and> w_jobs (SetOffline w) = [] \<and> slot_waiting (w_loads (SetOffline w)) = {}"
proof -
  have ok: "worker_ok w" unfolding w_def using worker_run_ok [OF NewStreamWorker_ok assms(1)] .
  then have r: "routing_ok w" and s: "reply_slots.answered_once (w_loads w)"
    "reply_slots.answered_once (w_unloads w)" "reply_slots.answered_once (w_benches w)"
    by (simp_all add: worker_ok_def)
  note off = routing_SetOffline [OF r]
  from r s off reply_slots.offline_answers [OF s(1)] reply_slots.offline_answers [OF s(2)] show ?thesis
    by (auto simp: routing_ok_def reply_slots.answered_once_def reply_slots.answers_all_waiting)
qed

definition sample_register :: worker_register where
  "sample_register = \<lparr> reg_name = ''n'', reg_version = ''1'', reg_runtime_name = ''llama-cpp'', reg_devices = [], reg_headroom_pct = 90 \<rparr>"

definition sample_events :: "worker_event list" where
  "sample_events = [WAssign ''j1'' True, WLoad ''l1'' 4 True, WChunk ''j1'' (note_chunk JobChunkTypeCompleted),
     WChunk ''j1'' (note_chunk JobChunkTypeChunk), WAssign ''j2'' True]"

theorem worker_routing_safe_witness:
  "w_jobs (fold worker_step sample_events (NewStreamWorker ''w'' sample_register True 0)) = [''j2'']
   \<and> slot_replies (w_loads (SetOffline
        (fold worker_step sample_events (NewStreamWorker ''w'' sample_register True 0)))) ''l1'' = 1"
proof -
  note defs = sample_events_def NewStreamWorker_def AssignJob_def beginLoad_def DeliverJobChunk_def
    send_ok_def empty_slots_def open_slot_def slot_fresh_def slot_waiting_def slot_replies_def
    note_chunk_def terminal_chunk_def chan_op_def Let_def ch_send_def ch_close_def
  have "events_fresh sample_events (NewStreamWorker ''w'' sample_register True 0)"
    by (simp add: defs)
  from worker_routing_safe [OF this] show ?thesis by (simp add: defs)
qed

end
