(* ===== verification/Sched_State.thy ===== *)
theory Sched_State
  imports Store Stream_Buffer Worker Config
begin

text \<open>
  The state of the scheduler (the struct \<open>Scheduler\<close> of \<open>internal/scheduler/scheduler.go\<close>) and its
  elementary operations: replay buffers, the dispatcher's wake-up, the result-store helpers and the
  names of worker queues. The shared database is the first part of the record, so every statement
  of the queue and the stores applies to the scheduler state directly.

  \<open>InitQueue\<close> sets the pool, the global queue, the result store and the state store together: they
  are one flag. A Go map is an association list, in an arbitrary order where the code iterates over
  it. Replay buffers are objects: a dispatch or pump keeps its reference when the map drops or
  replaces the entry, so they live in a heap and the map holds addresses. What leaves the process or
  goes to the benchmark queues is appended to a log. The environment is data: the callbacks that tell
  what is enabled, the file system (\<open>sc_stat\<close>) and the text of a driver error (\<open>sc_error_text\<close>).
\<close>

record tail_state =
  ts_seconds :: seconds
  ts_model :: model_id

record inflight_record =
  if_queue :: queue_name
  if_seconds :: seconds
  if_model :: model_id
  if_job :: string
  if_worker :: worker_id
  if_cancelled :: bool
  if_reserved :: int
  if_runtime :: runtime_name

datatype effect = QueueChanged | BenchSweep worker_id | BenchStop worker_id
  | SentCancel worker_id string | JobDispatched runtime_name string | LoadedChanged worker_id
  | WorkerDisconnect runtime_name | WorkersGauge runtime_name nat | DepthGauge string nat
  | InflightGauge runtime_name nat | SentDeleteFiles worker_id "string list"

record sched = database +
  sc_fleet :: fleet
  sc_initialised :: bool
  sc_queues :: "queue_name list"
  sc_mirror :: "(queue_name \<times> tail_state) list"
  sc_worker_enabled :: "worker_id \<Rightarrow> bool"
  sc_device_enabled :: "worker_id \<Rightarrow> device_id \<Rightarrow> bool"
  sc_models_dir :: string
  sc_stat :: "string \<Rightarrow> string \<Rightarrow> (int \<times> int) option"
  sc_buffers :: "(request_id \<times> nat) list"
  sc_heap :: "(request_id \<times> job_buffer) list"
  sc_inflight_seconds :: "(queue_name \<times> seconds) list"
  sc_inflight :: "(request_id \<times> inflight_record) list"
  sc_dispatching :: "(request_id \<times> bool) list"
  sc_reservations :: "(worker_id \<times> int) list"
  sc_reestimating :: "worker_id list"
  sc_bench_cache :: "((worker_id \<times> device_id) \<times> device_benchmark) list"
  sc_model_cache :: "((worker_id \<times> string) \<times> (model_benchmark \<times> bool)) list"
  sc_gated :: "worker_id list"
  sc_draining :: "(queue_name \<times> bool) list"
  sc_orphans :: "(queue_name \<times> time) list"
  sc_orphan_grace :: time
  sc_prev_runtimes :: "runtime_name list \<times> runtime_name list"
  sc_error_text :: "db_error \<Rightarrow> string"
  sc_kicked :: bool
  sc_cfg :: config
  sc_log :: "effect list"

definition dispatchLeaseDuration :: time where "dispatchLeaseDuration = 60 * 1000"
definition jobBufferMaxAge :: time where "jobBufferMaxAge = 24 * 60 * 60 * 1000"
definition anchorLeaseDuration :: time where "anchorLeaseDuration = jobBufferMaxAge"
definition disconnectRequeueBudget :: int where "disconnectRequeueBudget = 3"
definition orphanQueueGrace :: time where "orphanQueueGrace = 2 * 60 * 1000"
definition stealThreshold :: nat where "stealThreshold = 2"
definition peekAllLimit :: nat where "peekAllLimit = 256"
definition queuePeekLimit :: nat where "queuePeekLimit = 2 ^ 31 - 1"
definition pendingRetryInterval :: time where "pendingRetryInterval = 200"

definition emit :: "effect \<Rightarrow> sched \<Rightarrow> sched" where
  "emit e s = s\<lparr>sc_log := sc_log s @ [e]\<rparr>"

definition broadcastQueueChange :: "sched \<Rightarrow> sched" where
  "broadcastQueueChange s = emit QueueChanged s"

definition kick :: "sched \<Rightarrow> sched" where
  "kick s = s\<lparr>sc_kicked := True\<rparr>"

subsection \<open>Names of worker queues\<close>

definition worker_prefix :: string where "worker_prefix = ''worker|''"

definition workerQueueName :: "worker_id \<Rightarrow> queue_name" where
  "workerQueueName i = worker_prefix @ i"

definition parseWorkerQueueName :: "queue_name \<Rightarrow> worker_id option" where
  "parseWorkerQueueName q =
     (if take 7 q \<noteq> worker_prefix then None
      else let rest = drop 7 q in if rest = '''' then None else Some rest)"

lemma parse_workerQueueName: "i \<noteq> '''' \<Longrightarrow> parseWorkerQueueName (workerQueueName i) = Some i"
  by (simp add: parseWorkerQueueName_def workerQueueName_def worker_prefix_def)

lemma parseWorkerQueueName_inverse:
  "parseWorkerQueueName q = Some i \<Longrightarrow> q = workerQueueName i \<and> i \<noteq> ''''"
  by (auto simp: parseWorkerQueueName_def workerQueueName_def Let_def split: if_splits)
    (metis append_take_drop_id)

lemma workerQueueName_not_global [simp]: "workerQueueName i \<noteq> GlobalQueueName"
  "GlobalQueueName \<noteq> workerQueueName i"
  by (simp_all add: workerQueueName_def worker_prefix_def GlobalQueueName_def)

lemma workerQueueName_inj [simp]: "workerQueueName i = workerQueueName j \<longleftrightarrow> i = j"
  by (simp add: workerQueueName_def)

subsection \<open>Replay buffers\<close>

text \<open>Allocating a buffer, labelled with the request it is made for, and appending to it through
  its address.\<close>

definition alloc_buffer :: "request_id \<Rightarrow> sched \<Rightarrow> nat \<times> sched" where
  "alloc_buffer i s = (length (sc_heap s), s\<lparr>sc_heap := sc_heap s @ [(i, newJobBuffer (clock s))]\<rparr>)"

definition append_buffer :: "nat \<Rightarrow> job_chunk \<Rightarrow> sched \<Rightarrow> sched" where
  "append_buffer b c s = s\<lparr>sc_heap := (sc_heap s)[b :=
     (fst (sc_heap s ! b), snd (Append (clock s) (Some c) (snd (sc_heap s ! b))))]\<rparr>"

definition error_chunk :: "string \<Rightarrow> job_chunk" where
  "error_chunk msg = \<lparr> jc_type = JobChunkTypeError, jc_chunk = [], jc_final = [], jc_pct = 0, jc_note = '''',
     jc_err = msg \<rparr>"

definition ensureJobBuffer :: "request_id \<Rightarrow> sched \<Rightarrow> nat \<times> sched" where
  "ensureJobBuffer i s = (case map_of (sc_buffers s) i of
      Some b \<Rightarrow> (b, s)
    | None \<Rightarrow> let (b, s) = alloc_buffer i s in (b, s\<lparr>sc_buffers := AList.update i b (sc_buffers s)\<rparr>))"

definition dropJob :: "request_id \<Rightarrow> sched \<Rightarrow> sched" where
  "dropJob i s = s\<lparr>sc_buffers := AList.delete i (sc_buffers s)\<rparr>"

definition StreamChunks :: "request_id \<Rightarrow> nat \<Rightarrow> sched \<Rightarrow> (nat \<times> consumer) option" where
  "StreamChunks i resumeSeq s =
     map_option (\<lambda>b. (b, Attach resumeSeq)) (map_of (sc_buffers s) i)"

subsection \<open>Result store helpers\<close>

definition with_results :: "(sched \<Rightarrow> (db_error + unit) \<times> sched) \<Rightarrow> sched \<Rightarrow> sched" where
  "with_results f s = (if sc_initialised s then snd (f s) else s)"

definition completeResult :: "request_id \<Rightarrow> bytes \<Rightarrow> sched \<Rightarrow> sched" where
  "completeResult i body = with_results (Complete i body)"

definition processingResult :: "request_id \<Rightarrow> sched \<Rightarrow> sched" where
  "processingResult i = with_results (ProcessingResult i)"

definition pendingResult :: "request_id \<Rightarrow> sched \<Rightarrow> sched" where
  "pendingResult i = with_results (PendingResult i)"

definition failResult :: "request_id \<Rightarrow> string \<Rightarrow> sched \<Rightarrow> sched" where
  "failResult i msg = with_results (Fail i msg)"

definition isTerminalStatus :: "result_status \<Rightarrow> bool" where
  "isTerminalStatus st \<longleftrightarrow> st = Done \<or> st = Failed"

definition resultIsTerminal :: "request_id \<Rightarrow> sched \<Rightarrow> bool \<times> sched" where
  "resultIsTerminal i s =
     (if \<not> sc_initialised s then (False, s)
      else case Get i s of
        (Inl _, s) \<Rightarrow> (False, s)
      | (Inr r, s) \<Rightarrow> ((case r of None \<Rightarrow> False | Some r \<Rightarrow> isTerminalStatus (res_status r)), s))"

datatype get_error = NotInitialised | GetFailed db_error | ErrNoResult

definition GetResult :: "request_id \<Rightarrow> sched \<Rightarrow> (get_error + result_row) \<times> sched" where
  "GetResult i s =
     (if \<not> sc_initialised s then (Inl NotInitialised, s)
      else case Get i s of
        (Inl e, s) \<Rightarrow> (Inl (GetFailed e), s)
      | (Inr None, s) \<Rightarrow> (Inl ErrNoResult, s)
      | (Inr (Some r), s) \<Rightarrow> (Inr r, s))"

definition CleanupResults :: "sched \<Rightarrow> (db_error + nat) \<times> sched" where
  "CleanupResults s =
     (if \<not> sc_initialised s then (Inr 0, s) else Cleanup (EffectiveResultTTL (sc_cfg s)) s)"

subsection \<open>Construction\<close>

definition New :: "config \<Rightarrow> database \<Rightarrow> sched" where
  "New cfg d = database.extend d
     \<lparr> sc_fleet = empty_fleet, sc_initialised = False, sc_queues = [], sc_mirror = [],
       sc_worker_enabled = (\<lambda>_. True), sc_device_enabled = (\<lambda>_ _. True), sc_models_dir = '''',
       sc_stat = (\<lambda>_ _. None), sc_buffers = [], sc_heap = [], sc_inflight_seconds = [],
       sc_inflight = [], sc_dispatching = [], sc_reservations = [], sc_reestimating = [],
       sc_bench_cache = [], sc_model_cache = [], sc_gated = [], sc_draining = [], sc_orphans = [],
       sc_orphan_grace = orphanQueueGrace, sc_prev_runtimes = ([], []),
       sc_error_text = (\<lambda>_. ''''), sc_kicked = False,
       sc_cfg = cfg, sc_log = [] \<rparr>"

definition InitQueue :: "sched \<Rightarrow> sched" where
  "InitQueue s = s\<lparr>sc_initialised := True\<rparr>"

definition isWorkerEnabled :: "worker_id \<Rightarrow> sched \<Rightarrow> bool" where
  "isWorkerEnabled i s = sc_worker_enabled s i"

definition isDeviceEnabled :: "worker_id \<Rightarrow> device_id \<Rightarrow> sched \<Rightarrow> bool" where
  "isDeviceEnabled i d s = sc_device_enabled s i d"

end
