(* ===== verification/Ledger.thy ===== *)
theory Ledger
  imports Sched_State
begin

text \<open>
  The bookkeeping of \<open>scheduler.go\<close> that scoring and dispatch read: the in-memory mirror of the tail
  table, the in-flight ledger with its memory reservations, the marker of a job that is being
  dispatched, and the drain slots that keep one drainer per worker queue.
\<close>

subsection \<open>The tail mirror\<close>

definition tailSeconds :: "queue_name \<Rightarrow> sched \<Rightarrow> seconds" where
  "tailSeconds q s = (case map_of (sc_mirror s) q of None \<Rightarrow> 0 | Some t \<Rightarrow> ts_seconds t)"

definition tailModel :: "queue_name \<Rightarrow> sched \<Rightarrow> model_id" where
  "tailModel q s = (case map_of (sc_mirror s) q of None \<Rightarrow> '''' | Some t \<Rightarrow> ts_model t)"

definition update_mirror :: "queue_name \<Rightarrow> (tail_state \<Rightarrow> tail_state) \<Rightarrow> sched \<Rightarrow> sched" where
  "update_mirror q f s = (case map_of (sc_mirror s) q of
      None \<Rightarrow> s | Some t \<Rightarrow> s\<lparr>sc_mirror := AList.update q (f t) (sc_mirror s)\<rparr>)"

definition with_store :: "(sched \<Rightarrow> (db_error + unit) \<times> sched) \<Rightarrow> sched \<Rightarrow> sched" where
  "with_store f s = (if sc_initialised s then snd (f s) else s)"

definition creditTail :: "queue_name \<Rightarrow> seconds \<Rightarrow> model_id \<Rightarrow> sched \<Rightarrow> sched" where
  "creditTail q delta m s =
     with_store (AddTailSecondsAndSetModel q delta m)
       (update_mirror q (\<lambda>t. t\<lparr>ts_seconds := max 0 (ts_seconds t + delta), ts_model := m\<rparr>) s)"

definition debitTail :: "queue_name \<Rightarrow> seconds \<Rightarrow> sched \<Rightarrow> sched" where
  "debitTail q delta s =
     with_store (AddTailSeconds q (- delta))
       (update_mirror q (\<lambda>t. t\<lparr>ts_seconds := max 0 (ts_seconds t - delta)\<rparr>) s)"

text \<open>The last step of a re-estimation, the connect of a worker, and the removal of a queue.\<close>

definition replaceTail :: "queue_name \<Rightarrow> seconds \<Rightarrow> model_id \<Rightarrow> sched \<Rightarrow> sched" where
  "replaceTail q v m s =
     with_store (SetTailSeconds q v m)
       (update_mirror q (\<lambda>t. \<lparr> ts_seconds = max 0 v, ts_model = m \<rparr>) s)"

definition openTail :: "queue_name \<Rightarrow> worker_id \<Rightarrow> device_id list \<Rightarrow> sched \<Rightarrow> sched" where
  "openTail q w devs s =
     with_store (UpsertWorkerQueueState q \<lparr> qs_worker_id = w, qs_device_ids = devs,
         qs_tail_seconds = 0, qs_tail_model = '''', qs_updated = 0 \<rparr>)
       (if map_of (sc_mirror s) q \<noteq> None then s
        else s\<lparr>sc_mirror := AList.update q \<lparr> ts_seconds = 0, ts_model = '''' \<rparr> (sc_mirror s)\<rparr>)"

definition closeTail :: "queue_name \<Rightarrow> sched \<Rightarrow> sched" where
  "closeTail q s = with_store (DeleteWorkerQueueState q)
     (broadcastQueueChange (s\<lparr>sc_mirror := AList.delete q (sc_mirror s)\<rparr>))"

subsection \<open>The in-flight ledger\<close>

definition inflightFloatEpsilon :: seconds where "inflightFloatEpsilon = 1 / 10 ^ 9"

definition getInflightSeconds :: "queue_name \<Rightarrow> sched \<Rightarrow> seconds" where
  "getInflightSeconds q s = (case map_of (sc_inflight_seconds s) q of None \<Rightarrow> 0 | Some x \<Rightarrow> x)"

definition getMemoryReservation :: "worker_id \<Rightarrow> sched \<Rightarrow> int" where
  "getMemoryReservation w s = (case map_of (sc_reservations s) w of None \<Rightarrow> 0 | Some x \<Rightarrow> x)"

definition startInflight :: "queue_name \<Rightarrow> request_id \<Rightarrow> model_id \<Rightarrow> runtime_name \<Rightarrow> seconds \<Rightarrow> int
    \<Rightarrow> sched \<Rightarrow> bool \<times> sched" where
  "startInflight q rid m rt secs reserved s =
     (let wid = (case parseWorkerQueueName q of None \<Rightarrow> '''' | Some w \<Rightarrow> w) in
      if map_of (sc_dispatching s) rid = Some True then (False, s)
      else (True, s\<lparr>
        sc_dispatching := AList.delete rid (sc_dispatching s),
        sc_inflight_seconds := AList.update q (getInflightSeconds q s + secs) (sc_inflight_seconds s),
        sc_reservations := (if reserved > 0 \<and> wid \<noteq> ''''
          then AList.update wid (getMemoryReservation wid s + reserved) (sc_reservations s)
          else sc_reservations s),
        sc_inflight := AList.update rid \<lparr> if_queue = q, if_seconds = secs, if_model = m, if_job = '''',
          if_worker = wid, if_cancelled = False, if_reserved = reserved, if_runtime = rt \<rparr>
          (sc_inflight s)\<rparr>))"

definition finishInflight :: "request_id \<Rightarrow> sched \<Rightarrow> sched" where
  "finishInflight rid s = (case map_of (sc_inflight s) rid of
      None \<Rightarrow> s
    | Some rec \<Rightarrow>
        let s = s\<lparr>sc_inflight := AList.delete rid (sc_inflight s)\<rparr>;
            remaining = getMemoryReservation (if_worker rec) s - if_reserved rec;
            s = (if if_reserved rec > 0 \<and> if_worker rec \<noteq> ''''
                 then s\<lparr>sc_reservations := (if remaining \<le> 0
                        then AList.delete (if_worker rec) (sc_reservations s)
                        else AList.update (if_worker rec) remaining (sc_reservations s))\<rparr>
                 else s);
            residual = getInflightSeconds (if_queue rec) s - if_seconds rec
        in s\<lparr>sc_inflight_seconds := (if residual \<le> inflightFloatEpsilon
               then AList.delete (if_queue rec) (sc_inflight_seconds s)
               else AList.update (if_queue rec) residual (sc_inflight_seconds s))\<rparr>)"

definition update_inflight :: "request_id \<Rightarrow> (inflight_record \<Rightarrow> inflight_record) \<Rightarrow> sched \<Rightarrow> sched" where
  "update_inflight rid f s = (case map_of (sc_inflight s) rid of
      None \<Rightarrow> s | Some rec \<Rightarrow> s\<lparr>sc_inflight := AList.update rid (f rec) (sc_inflight s)\<rparr>)"

definition attachWorkerJobID :: "request_id \<Rightarrow> string \<Rightarrow> sched \<Rightarrow> sched" where
  "attachWorkerJobID rid job = update_inflight rid (\<lambda>rec. rec\<lparr>if_job := job\<rparr>)"

definition markInflightCancelled :: "request_id \<Rightarrow> sched \<Rightarrow> (worker_id \<times> string) option \<times> sched" where
  "markInflightCancelled rid s = (case map_of (sc_inflight s) rid of
      None \<Rightarrow> (None, s)
    | Some rec \<Rightarrow> (Some (if_worker rec, if_job rec),
        update_inflight rid (\<lambda>rec. rec\<lparr>if_cancelled := True\<rparr>) s))"

definition isInflightCancelled :: "request_id \<Rightarrow> sched \<Rightarrow> bool" where
  "isInflightCancelled rid s = (case map_of (sc_inflight s) rid of
      None \<Rightarrow> False | Some rec \<Rightarrow> if_cancelled rec)"

definition inflightRuntime :: "request_id \<Rightarrow> sched \<Rightarrow> runtime_name" where
  "inflightRuntime rid s = (case map_of (sc_inflight s) rid of
      None \<Rightarrow> '''' | Some rec \<Rightarrow> if_runtime rec)"

definition inflightCountForWorker :: "worker_id \<Rightarrow> sched \<Rightarrow> nat" where
  "inflightCountForWorker w s = length (filter (\<lambda>(rid, rec). if_worker rec = w) (sc_inflight s))"

definition workerHasInflightForModel :: "worker_id \<Rightarrow> model_id \<Rightarrow> sched \<Rightarrow> bool" where
  "workerHasInflightForModel w m s \<longleftrightarrow>
     list_ex (\<lambda>(rid, rec). if_worker rec = w \<and> if_model rec = m) (sc_inflight s)"

definition effectiveCapacity :: "stream_worker \<Rightarrow> sched \<Rightarrow> int" where
  "effectiveCapacity w s =
     w_available_cap w - max 0 (int (inflightCountForWorker (w_id w) s) - w_active_jobs w)"

definition markDispatching :: "request_id \<Rightarrow> sched \<Rightarrow> sched" where
  "markDispatching rid s = s\<lparr>sc_dispatching := AList.update rid False (sc_dispatching s)\<rparr>"

definition clearDispatching :: "request_id \<Rightarrow> sched \<Rightarrow> sched" where
  "clearDispatching rid s = s\<lparr>sc_dispatching := AList.delete rid (sc_dispatching s)\<rparr>"

definition requestCancelDuringDispatch :: "request_id \<Rightarrow> sched \<Rightarrow> bool \<times> sched" where
  "requestCancelDuringDispatch rid s =
     (if map_of (sc_dispatching s) rid = None then (False, s)
      else (True, s\<lparr>sc_dispatching := AList.update rid True (sc_dispatching s)\<rparr>))"

subsection \<open>Drain slots\<close>

definition tryMarkDraining :: "queue_name \<Rightarrow> sched \<Rightarrow> bool \<times> sched" where
  "tryMarkDraining q s =
     (if map_of (sc_draining s) q \<noteq> None
      then (False, s\<lparr>sc_draining := AList.update q True (sc_draining s)\<rparr>)
      else (True, s\<lparr>sc_draining := AList.update q False (sc_draining s)\<rparr>))"

definition finishDraining :: "queue_name \<Rightarrow> sched \<Rightarrow> bool \<times> sched" where
  "finishDraining q s = (map_of (sc_draining s) q = Some True,
     s\<lparr>sc_draining := AList.delete q (sc_draining s)\<rparr>)"

definition isDraining :: "queue_name \<Rightarrow> sched \<Rightarrow> bool" where
  "isDraining q s \<longleftrightarrow> map_of (sc_draining s) q \<noteq> None"

subsection \<open>A tail register\<close>

text \<open>What the scoring relies on: the seconds queued and the last model per queue. The contract
  is stated once and met by the in-memory mirror and, while no statement fails, by the table.\<close>

locale tail_register =
  fixes good :: "'s \<Rightarrow> bool"
    and look :: "'s \<Rightarrow> queue_name \<Rightarrow> (seconds \<times> model_id) option"
    and credit :: "queue_name \<Rightarrow> seconds \<Rightarrow> model_id \<Rightarrow> 's \<Rightarrow> 's"
    and debit :: "queue_name \<Rightarrow> seconds \<Rightarrow> 's \<Rightarrow> 's"
    and replace :: "queue_name \<Rightarrow> seconds \<Rightarrow> model_id \<Rightarrow> 's \<Rightarrow> 's"
    and create :: "queue_name \<Rightarrow> worker_id \<Rightarrow> device_id list \<Rightarrow> 's \<Rightarrow> 's"
    and remove :: "queue_name \<Rightarrow> 's \<Rightarrow> 's"
  assumes look_credit: "good s \<Longrightarrow> look (credit q x m s) =
      (case look s q of None \<Rightarrow> look s | Some (t, _) \<Rightarrow> (look s)(q \<mapsto> (max 0 (t + x), m)))"
    and look_debit: "good s \<Longrightarrow> look (debit q x s) =
      (case look s q of None \<Rightarrow> look s | Some (t, m) \<Rightarrow> (look s)(q \<mapsto> (max 0 (t - x), m)))"
    and look_replace: "good s \<Longrightarrow> look (replace q x m s) =
      (case look s q of None \<Rightarrow> look s | Some _ \<Rightarrow> (look s)(q \<mapsto> (max 0 x, m)))"
    and look_create: "good s \<Longrightarrow> look (create q w ds s) =
      (case look s q of None \<Rightarrow> (look s)(q \<mapsto> (0, '''')) | Some _ \<Rightarrow> look s)"
    and look_remove: "good s \<Longrightarrow> look (remove q s) = (look s)(q := None)"
    and good_ops: "good s \<Longrightarrow> good (credit q x m s)" "good s \<Longrightarrow> good (debit q x s)"
      "good s \<Longrightarrow> good (replace q x m s)" "good s \<Longrightarrow> good (create q w ds s)" "good s \<Longrightarrow> good (remove q s)"

datatype tail_event =
    TCredit queue_name seconds model_id
  | TDebit queue_name seconds
  | TReplace queue_name seconds model_id
  | TCreate queue_name worker_id "device_id list"
  | TRemove queue_name

context tail_register
begin

fun apply_event :: "tail_event \<Rightarrow> 's \<Rightarrow> 's" where
  "apply_event (TCredit q x m) s = credit q x m s"
| "apply_event (TDebit q x) s = debit q x s"
| "apply_event (TReplace q x m) s = replace q x m s"
| "apply_event (TCreate q w ds) s = create q w ds s"
| "apply_event (TRemove q) s = remove q s"

lemma apply_good: "good s \<Longrightarrow> good (apply_event e s)"
  by (cases e) (simp_all add: good_ops)

lemma run_good: "good s \<Longrightarrow> good (fold apply_event es s)"
  by (induction es arbitrary: s) (auto simp: apply_good)

lemmas look_ops = look_credit look_debit look_replace look_create look_remove

lemma apply_nonneg:
  assumes "good s" "\<forall>q t m. look s q = Some (t, m) \<longrightarrow> 0 \<le> t" "look (apply_event e s) q = Some (t, m)"
  shows "0 \<le> t"
proof -
  have nn: "look s q' = Some (t', m') \<Longrightarrow> 0 \<le> t'" for q' t' m' using assms(2) by blast
  show ?thesis
    using assms(1,3) by (cases e) (auto simp: look_ops split: option.splits if_splits intro: nn)
qed

lemma run_nonneg:
  assumes "good s" "\<forall>q t m. look s q = Some (t, m) \<longrightarrow> 0 \<le> t"
  shows "look (fold apply_event es s) q = Some (t, m) \<Longrightarrow> 0 \<le> t"
  using assms
proof (induction es arbitrary: s)
  case (Cons e es)
  show ?case
    by (rule Cons.IH [of "apply_event e s"])
      (use Cons.prems apply_nonneg [OF Cons.prems(2,3)] in \<open>auto simp: apply_good\<close>)
qed auto

end

text \<open>A step of a register depends only on what it shows.\<close>

definition tail_effect :: "tail_event \<Rightarrow> (queue_name \<Rightarrow> (seconds \<times> model_id) option)
    \<Rightarrow> queue_name \<Rightarrow> (seconds \<times> model_id) option" where
  "tail_effect e f = (case e of
      TCredit q x m \<Rightarrow> (case f q of None \<Rightarrow> f | Some (t, _) \<Rightarrow> f(q \<mapsto> (max 0 (t + x), m)))
    | TDebit q x \<Rightarrow> (case f q of None \<Rightarrow> f | Some (t, m) \<Rightarrow> f(q \<mapsto> (max 0 (t - x), m)))
    | TReplace q x m \<Rightarrow> (case f q of None \<Rightarrow> f | Some _ \<Rightarrow> f(q \<mapsto> (max 0 x, m)))
    | TCreate q w ds \<Rightarrow> (case f q of None \<Rightarrow> f(q \<mapsto> (0, '''')) | Some _ \<Rightarrow> f)
    | TRemove q \<Rightarrow> f(q := None))"

context tail_register
begin

lemma look_apply: "good s \<Longrightarrow> look (apply_event e s) = tail_effect e (look s)"
  by (cases e) (simp_all add: look_ops tail_effect_def)

lemma look_run: "good s \<Longrightarrow> look (fold apply_event es s) = fold tail_effect es (look s)"
  by (induction es arbitrary: s) (simp_all add: look_apply apply_good)

end

definition mirror_look :: "sched \<Rightarrow> queue_name \<Rightarrow> (seconds \<times> model_id) option" where
  "mirror_look s q = map_option (\<lambda>t. (ts_seconds t, ts_model t)) (map_of (sc_mirror s) q)"

definition table_look :: "sched \<Rightarrow> queue_name \<Rightarrow> (seconds \<times> model_id) option" where
  "table_look s q = map_option (\<lambda>t. (qs_tail_seconds t, qs_tail_model t)) (map_of (tails s) q)"

definition table_good :: "sched \<Rightarrow> bool" where
  "table_good s \<longleftrightarrow> sc_initialised s \<and> state_faults s = []"

lemmas tail_op_defs = creditTail_def debitTail_def replaceTail_def openTail_def closeTail_def
  with_store_def update_mirror_def broadcastQueueChange_def emit_def

text \<open>Statements on the tail table leave the scheduler's own state alone, and the mirror updates
  leave the database alone.\<close>

lemma sched_of_more:
  assumes "database.more (d' :: sched) = database.more d"
  shows "sc_mirror d' = sc_mirror d" "sc_initialised d' = sc_initialised d"
    "sc_queues d' = sc_queues d" "sc_fleet d' = sc_fleet d" "sc_buffers d' = sc_buffers d"
    "sc_heap d' = sc_heap d" "sc_inflight d' = sc_inflight d" "sc_dispatching d' = sc_dispatching d"
    "sc_inflight_seconds d' = sc_inflight_seconds d" "sc_reservations d' = sc_reservations d"
    "sc_reestimating d' = sc_reestimating d" "sc_bench_cache d' = sc_bench_cache d"
    "sc_model_cache d' = sc_model_cache d" "sc_gated d' = sc_gated d" "sc_draining d' = sc_draining d"
    "sc_orphans d' = sc_orphans d" "sc_orphan_grace d' = sc_orphan_grace d" "sc_kicked d' = sc_kicked d"
    "sc_cfg d' = sc_cfg d" "sc_log d' = sc_log d" "sc_worker_enabled d' = sc_worker_enabled d"
    "sc_device_enabled d' = sc_device_enabled d" "sc_models_dir d' = sc_models_dir d"
    "sc_stat d' = sc_stat d" "sc_prev_runtimes d' = sc_prev_runtimes d"
  using assms by (cases d; cases d'; simp)+

lemma mirror_update_look:
  "mirror_look (update_mirror q f s) = (case map_of (sc_mirror s) q of None \<Rightarrow> mirror_look s
     | Some t \<Rightarrow> (mirror_look s)(q \<mapsto> (ts_seconds (f t), ts_model (f t))))"
  by (auto simp: mirror_look_def update_mirror_def fun_eq_iff split: option.split)

lemma with_store_mirror:
  assumes "\<And>d. database.more (snd (f d)) = database.more d"
  shows "mirror_look (with_store f s) = mirror_look s" "sc_initialised (with_store f s) = sc_initialised s"
  using sched_of_more [OF assms] by (simp_all add: with_store_def mirror_look_def fun_eq_iff)

lemmas state_more = state_op_frame(6,5,7,1,4) [THEN state_frame_more]

interpretation mirror: tail_register "\<lambda>_. True" mirror_look creditTail debitTail replaceTail openTail closeTail
proof unfold_locales
  show "mirror_look (creditTail q x m s) = (case mirror_look s q of None \<Rightarrow> mirror_look s
      | Some (t, _) \<Rightarrow> (mirror_look s)(q \<mapsto> (max 0 (t + x), m)))" for q x m s
    by (simp add: creditTail_def with_store_mirror(1) [OF state_more(1)] mirror_update_look)
      (simp add: mirror_look_def split: option.split)
  show "mirror_look (debitTail q x s) = (case mirror_look s q of None \<Rightarrow> mirror_look s
      | Some (t, m) \<Rightarrow> (mirror_look s)(q \<mapsto> (max 0 (t - x), m)))" for q x s
    by (simp add: debitTail_def with_store_mirror(1) [OF state_more(2)] mirror_update_look)
      (simp add: mirror_look_def split: option.split)
  show "mirror_look (replaceTail q x m s) = (case mirror_look s q of None \<Rightarrow> mirror_look s
      | Some _ \<Rightarrow> (mirror_look s)(q \<mapsto> (max 0 x, m)))" for q x m s
    by (simp add: replaceTail_def with_store_mirror(1) [OF state_more(3)] mirror_update_look)
      (simp add: mirror_look_def split: option.split)
  show "mirror_look (openTail q w ds s) = (case mirror_look s q of
      None \<Rightarrow> (mirror_look s)(q \<mapsto> (0, '''')) | Some _ \<Rightarrow> mirror_look s)" for q w ds s
    by (simp add: openTail_def with_store_mirror(1) [OF state_more(4)])
      (auto simp: mirror_look_def fun_eq_iff split: option.split)
  show "mirror_look (closeTail q s) = (mirror_look s)(q := None)" for q s
    by (simp add: closeTail_def with_store_mirror(1) [OF state_more(5)] broadcastQueueChange_def emit_def)
      (auto simp: mirror_look_def fun_eq_iff)
qed simp_all

text \<open>The table, seen after one statement that does not fail.\<close>

lemma update_tail_look:
  assumes "table_good s"
  shows "table_look (snd (update_tail q u s)) = (case map_of (tails s) q of None \<Rightarrow> table_look s
     | Some t \<Rightarrow> (table_look s)(q \<mapsto> (qs_tail_seconds (u (clock s) t), qs_tail_model (u (clock s) t))))"
    "table_good (snd (update_tail q u s))"
  using assms by (auto simp: table_good_def table_look_def update_tail_def stx_def fun_eq_iff Let_def
      split: option.split)

lemma mirror_part_frame:
  "tails (update_mirror q f s) = tails s" "clock (update_mirror q f s) = clock s"
  "table_good (update_mirror q f s) = table_good s" "table_look (update_mirror q f s) = table_look s"
  "sc_initialised (update_mirror q f s) = sc_initialised s"
  by (auto simp: update_mirror_def table_good_def table_look_def fun_eq_iff split: option.split)

interpretation tail_table: tail_register table_good table_look creditTail debitTail replaceTail openTail closeTail
proof unfold_locales
  fix s assume g: "table_good s"
  then have i: "sc_initialised s" "state_faults s = []" by (simp_all add: table_good_def)
  note upd = update_tail_look [where s = "update_mirror q f s" for q f, unfolded mirror_part_frame, OF g]
  show "table_look (creditTail q x m s) = (case table_look s q of None \<Rightarrow> table_look s
      | Some (t, _) \<Rightarrow> (table_look s)(q \<mapsto> (max 0 (t + x), m)))" for q x m
    using i by (simp add: creditTail_def with_store_def mirror_part_frame AddTailSecondsAndSetModel_def upd)
      (simp add: table_look_def split: option.split)
  show "table_look (debitTail q x s) = (case table_look s q of None \<Rightarrow> table_look s
      | Some (t, m) \<Rightarrow> (table_look s)(q \<mapsto> (max 0 (t - x), m)))" for q x
    using i by (simp add: debitTail_def with_store_def mirror_part_frame AddTailSeconds_def upd)
      (simp add: table_look_def split: option.split)
  show "table_look (replaceTail q x m s) = (case table_look s q of None \<Rightarrow> table_look s
      | Some _ \<Rightarrow> (table_look s)(q \<mapsto> (max 0 x, m)))" for q x m
    using i by (simp add: replaceTail_def with_store_def mirror_part_frame SetTailSeconds_def upd Let_def)
      (simp add: table_look_def max_def split: option.split)
  show "table_good (creditTail q x m s)" "table_good (debitTail q x s)" "table_good (replaceTail q x m s)" for q x m
    using i by (simp_all add: creditTail_def debitTail_def replaceTail_def with_store_def mirror_part_frame
        AddTailSecondsAndSetModel_def AddTailSeconds_def SetTailSeconds_def upd Let_def)
  show "table_look (openTail q w ds s) = (case table_look s q of
      None \<Rightarrow> (table_look s)(q \<mapsto> (0, '''')) | Some _ \<Rightarrow> table_look s)" "table_good (openTail q w ds s)" for q w ds
    using i by (auto simp: openTail_def with_store_def UpsertWorkerQueueState_def stx_def table_look_def
        table_good_def fun_eq_iff Let_def split: option.split)
  show "table_look (closeTail q s) = (table_look s)(q := None)" "table_good (closeTail q s)" for q
    using i by (auto simp: closeTail_def with_store_def DeleteWorkerQueueState_def stx_def table_look_def
        table_good_def broadcastQueueChange_def emit_def fun_eq_iff Let_def)
qed

text \<open>C13. The tail mirror refines the tail table: over any sequence of credits, debits,
  re-estimations, connects and removals, while no statement of the state store fails, scoring reads
  from the mirror exactly what the table holds, and the queued seconds never go below zero.\<close>

theorem tail_mirror_agrees:
  assumes "sc_initialised s" "state_faults s = []" "mirror_look s = table_look s"
    and "\<And>q. 0 \<le> tailSeconds q s"
  shows "mirror_look (fold mirror.apply_event es s) = table_look (fold mirror.apply_event es s)
    \<and> 0 \<le> tailSeconds q (fold mirror.apply_event es s)"
proof -
  have g: "table_good s" using assms by (simp add: table_good_def)
  have same: "tail_table.apply_event = mirror.apply_event"
  proof (intro ext)
    show "tail_table.apply_event e t = mirror.apply_event e t" for e t by (cases e) simp_all
  qed
  have "\<forall>q t m. mirror_look s q = Some (t, m) \<longrightarrow> 0 \<le> t"
    using assms(4) by (force simp: mirror_look_def tailSeconds_def split: option.splits)
  note nonneg = mirror.run_nonneg [OF TrueI this]
  have "0 \<le> tailSeconds q (fold mirror.apply_event es s)"
    using nonneg [of es q] by (auto simp: mirror_look_def tailSeconds_def split: option.split)
  with mirror.look_run [OF TrueI, of es s] tail_table.look_run [OF g, of es] assms(3) same show ?thesis by simp
qed

definition busy_sched :: sched where
  "busy_sched = openTail ''worker|a'' ''a'' [] (InitQueue (New
     \<lparr> cf_result_ttl = None, cf_idle_eviction_ttl = None, cf_stream_replay_ttl = None,
       cf_load_attempts = 0, cf_bench_budget_seconds = 0, cf_bench_slots_cap = 0, cf_listen_addr = '''',
       cf_registry_url = '''', cf_update_url = '''', cf_db_dialect = '''', cf_db_dsn = '''' \<rparr>
     (empty_database 0)))"

lemmas busy_sched_eval = busy_sched_def openTail_def InitQueue_def New_def empty_database_def
  with_store_def UpsertWorkerQueueState_def stx_def database.extend_def

theorem tail_mirror_agrees_witness:
  "tailSeconds ''worker|a'' (fold mirror.apply_event
      [TCredit ''worker|a'' 5 ''m'', TDebit ''worker|a'' 7, TCredit ''worker|a'' 2 ''n''] busy_sched) = 2
   \<and> table_look (fold mirror.apply_event
      [TCredit ''worker|a'' 5 ''m'', TDebit ''worker|a'' 7, TCredit ''worker|a'' 2 ''n''] busy_sched)
      ''worker|a'' = Some (2, ''n'')"
proof -
  have "sc_initialised busy_sched" "state_faults busy_sched = []"
    "mirror_look busy_sched = table_look busy_sched" "\<And>q. 0 \<le> tailSeconds q busy_sched"
    by (auto simp: busy_sched_eval mirror_look_def table_look_def tailSeconds_def fun_eq_iff)
  from tail_mirror_agrees [OF this, where es = "[TCredit ''worker|a'' 5 ''m'', TDebit ''worker|a'' 7,
      TCredit ''worker|a'' 2 ''n'']", THEN conjunct1, THEN fun_cong, of "''worker|a''"]
  show ?thesis
    by (simp add: mirror.look_run tail_effect_def tailSeconds_def)
      (simp add: busy_sched_eval mirror_look_def tail_op_defs AddTailSecondsAndSetModel_def
        AddTailSeconds_def update_tail_def stx_def)
qed

subsection \<open>The in-flight ledger is exact\<close>

datatype ledger_event =
    LStart queue_name request_id model_id runtime_name seconds int
  | LFinish request_id
  | LAttach request_id string
  | LCancelRunning request_id
  | LMark request_id
  | LClear request_id
  | LCancelDispatch request_id

fun ledger_step :: "ledger_event \<Rightarrow> sched \<Rightarrow> sched" where
  "ledger_step (LStart q rid m rt secs res) s = snd (startInflight q rid m rt secs res s)"
| "ledger_step (LFinish rid) s = finishInflight rid s"
| "ledger_step (LAttach rid job) s = attachWorkerJobID rid job s"
| "ledger_step (LCancelRunning rid) s = snd (markInflightCancelled rid s)"
| "ledger_step (LMark rid) s = markDispatching rid s"
| "ledger_step (LClear rid) s = clearDispatching rid s"
| "ledger_step (LCancelDispatch rid) s = snd (requestCancelDuringDispatch rid s)"

text \<open>A job is started once at a time, and its predicted seconds exceed the dust threshold.\<close>

fun ledger_fair :: "ledger_event list \<Rightarrow> sched \<Rightarrow> bool" where
  "ledger_fair [] s \<longleftrightarrow> True"
| "ledger_fair (e # es) s \<longleftrightarrow> (case e of
      LStart q rid m rt secs res \<Rightarrow> map_of (sc_inflight s) rid = None \<and> inflightFloatEpsilon < secs
    | _ \<Rightarrow> True) \<and> ledger_fair es (ledger_step e s)"

definition seconds_on :: "queue_name \<Rightarrow> request_id \<times> inflight_record \<Rightarrow> seconds" where
  "seconds_on q p = (if if_queue (snd p) = q then if_seconds (snd p) else 0)"

definition bytes_on :: "worker_id \<Rightarrow> request_id \<times> inflight_record \<Rightarrow> int" where
  "bytes_on w p = (if if_worker (snd p) = w \<and> w \<noteq> '''' then max 0 (if_reserved (snd p)) else 0)"

definition ledger_ok :: "sched \<Rightarrow> bool" where
  "ledger_ok s \<longleftrightarrow> distinct (keys (sc_inflight s))
     \<and> (\<forall>p \<in> set (sc_inflight s). inflightFloatEpsilon < if_seconds (snd p))
     \<and> (\<forall>q. getInflightSeconds q s = sum_list (map (seconds_on q) (sc_inflight s)))
     \<and> (\<forall>w. getMemoryReservation w s = sum_list (map (bytes_on w) (sc_inflight s)))
     \<and> (\<forall>q. map_of (sc_inflight_seconds s) q \<noteq> None \<longrightarrow> (\<exists>p \<in> set (sc_inflight s). if_queue (snd p) = q))"

lemma epsilon_pos: "0 < inflightFloatEpsilon" by (simp add: inflightFloatEpsilon_def)

lemma seconds_sum_small:
  assumes "\<forall>p \<in> set ps. inflightFloatEpsilon < if_seconds (snd p)"
    and "sum_list (map (seconds_on q) ps) \<le> inflightFloatEpsilon"
  shows "\<forall>p \<in> set ps. if_queue (snd p) \<noteq> q"
  using assms
proof (induction ps)
  case (Cons p ps)
  have nonneg: "0 \<le> sum_list (map (seconds_on q) ps)"
    using Cons.prems(1) epsilon_pos
    by (intro sum_list_nonneg_filter_le) (auto simp: seconds_on_def intro: less_imp_le less_trans)
  show ?case
  proof (cases "if_queue (snd p) = q")
    case True
    with Cons.prems have "if_seconds (snd p) + sum_list (map (seconds_on q) ps) \<le> inflightFloatEpsilon"
      "inflightFloatEpsilon < if_seconds (snd p)"
      by (simp_all add: seconds_on_def [of q p])
    with nonneg show ?thesis by linarith
  next
    case False
    with Cons show ?thesis by (simp add: seconds_on_def [of q p])
  qed
qed simp

lemma bytes_sum_nonneg: "0 \<le> sum_list (map (bytes_on w) ps)"
  by (rule sum_list_nonneg_filter_le) (simp add: bytes_on_def)

lemma startInflight_ledger:
  assumes ok: "ledger_ok s" and new: "map_of (sc_inflight s) rid = None"
    and secs: "inflightFloatEpsilon < secs"
  shows "ledger_ok (snd (startInflight q rid m rt secs res s))"
proof (cases "map_of (sc_dispatching s) rid = Some True")
  case True
  with ok show ?thesis by (simp add: startInflight_def)
next
  case False
  define wid where "wid = (case parseWorkerQueueName q of None \<Rightarrow> '''' | Some w \<Rightarrow> w)"
  define rec where "rec = \<lparr> if_queue = q, if_seconds = secs, if_model = m, if_job = '''',
          if_worker = wid, if_cancelled = False, if_reserved = res, if_runtime = rt \<rparr>"
  have app: "AList.update rid rec (sc_inflight s) = sc_inflight s @ [(rid, rec)]"
    using new by (intro AList_update_fresh) (simp add: map_of_eq_None_iff)
  have new': "rid \<notin> fst ` set (sc_inflight s)" using new by (simp add: map_of_eq_None_iff)
  show ?thesis
    using ok secs False new'
    by (auto simp: startInflight_def Let_def wid_def [symmetric] rec_def [symmetric] app ledger_ok_def
        getInflightSeconds_def getMemoryReservation_def)
      (auto simp: rec_def seconds_on_def bytes_on_def)
qed

lemma finishInflight_ledger:
  assumes ok: "ledger_ok s"
  shows "ledger_ok (finishInflight rid s)"
proof (cases "map_of (sc_inflight s) rid")
  case None
  with ok show ?thesis by (simp add: finishInflight_def)
next
  case (Some rec)
  define ps where "ps = AList.delete rid (sc_inflight s)"
  have d: "distinct (keys (sc_inflight s))" using ok by (simp add: ledger_ok_def)
  have sums: "sum_list (map f (sc_inflight s)) = f (rid, rec) + sum_list (map f ps)"
    for f :: "_ \<Rightarrow> 'z::comm_monoid_add"
    unfolding ps_def by (rule sum_list_AList_delete [OF Some d])
  have mem: "p \<in> set (sc_inflight s)" if "p \<in> set ps" for p
    using that by (auto simp: ps_def set_AList_delete)
  have eps: "\<forall>p \<in> set ps. inflightFloatEpsilon < if_seconds (snd p)"
    using ok mem by (auto simp: ledger_ok_def)
  have secs: "getInflightSeconds (if_queue rec) s - if_seconds rec = sum_list (map (seconds_on (if_queue rec)) ps)"
    using ok by (simp add: ledger_ok_def sums seconds_on_def)
  have bytes: "if_worker rec \<noteq> '''' \<Longrightarrow> if_reserved rec > 0 \<Longrightarrow>
      getMemoryReservation (if_worker rec) s - if_reserved rec = sum_list (map (bytes_on (if_worker rec)) ps)"
    using ok by (simp add: ledger_ok_def sums bytes_on_def)
  define s' where "s' = finishInflight rid s"
  have s': "sc_inflight s' = ps"
    "sc_inflight_seconds s' = (if sum_list (map (seconds_on (if_queue rec)) ps) \<le> inflightFloatEpsilon
       then AList.delete (if_queue rec) (sc_inflight_seconds s)
       else AList.update (if_queue rec) (sum_list (map (seconds_on (if_queue rec)) ps)) (sc_inflight_seconds s))"
    "sc_reservations s' = (if if_reserved rec > 0 \<and> if_worker rec \<noteq> ''''
       then (if sum_list (map (bytes_on (if_worker rec)) ps) \<le> 0
             then AList.delete (if_worker rec) (sc_reservations s)
             else AList.update (if_worker rec) (sum_list (map (bytes_on (if_worker rec)) ps)) (sc_reservations s))
       else sc_reservations s)"
    using secs bytes
    by (auto simp: s'_def finishInflight_def Some Let_def ps_def getInflightSeconds_def getMemoryReservation_def)
  have small: "sum_list (map (seconds_on q) ps) = 0"
    if "sum_list (map (seconds_on q) ps) \<le> inflightFloatEpsilon" for q
    using seconds_sum_small [OF eps that] by (intro sum_list_map_zero) (auto simp: seconds_on_def)
  have "getInflightSeconds q s' = sum_list (map (seconds_on q) ps)" for q
    using ok small by (auto simp: getInflightSeconds_def s' ledger_ok_def sums seconds_on_def)
  moreover have "getMemoryReservation w s' = sum_list (map (bytes_on w) ps)" for w
    using ok bytes_sum_nonneg [of w ps]
    by (auto simp: getMemoryReservation_def s' ledger_ok_def sums bytes_on_def)
  moreover have "\<exists>p \<in> set ps. if_queue (snd p) = q" if "map_of (sc_inflight_seconds s') q \<noteq> None" for q
  proof (cases "q = if_queue rec")
    case True
    show ?thesis
    proof (rule ccontr)
      assume "\<not> (\<exists>p \<in> set ps. if_queue (snd p) = q)"
      then have "sum_list (map (seconds_on q) ps) = 0"
        by (intro sum_list_map_zero) (auto simp: seconds_on_def)
      with that True epsilon_pos show False by (auto simp: s')
    qed
  next
    case False
    with that have "map_of (sc_inflight_seconds s) q \<noteq> None" by (auto simp: s' split: if_splits)
    with ok obtain p where "p \<in> set (sc_inflight s)" "if_queue (snd p) = q" by (auto simp: ledger_ok_def)
    with False Some d have "p \<in> set ps"
      by (cases p) (auto simp: ps_def set_AList_delete dest: eq_key_imp_eq_value map_of_SomeD)
    with \<open>if_queue (snd p) = q\<close> show ?thesis by blast
  qed
  moreover have "distinct (keys ps)" using d by (simp add: ps_def distinct_delete)
  ultimately show ?thesis using eps by (simp add: ledger_ok_def s'_def [symmetric] s')
qed

lemma update_inflight_ledger:
  assumes ok: "ledger_ok s"
    and f: "\<And>rec. if_queue (f rec) = if_queue rec \<and> if_seconds (f rec) = if_seconds rec
        \<and> if_worker (f rec) = if_worker rec \<and> if_reserved (f rec) = if_reserved rec"
  shows "ledger_ok (update_inflight rid f s)"
proof (cases "map_of (sc_inflight s) rid")
  case None
  with ok show ?thesis by (simp add: update_inflight_def)
next
  case (Some rec)
  have d: "distinct (keys (sc_inflight s))" using ok by (simp add: ledger_ok_def)
  have sums: "sum_list (map (seconds_on q) (AList.update rid (f rec) (sc_inflight s)))
      = sum_list (map (seconds_on q) (sc_inflight s))"
    "sum_list (map (bytes_on w) (AList.update rid (f rec) (sc_inflight s)))
      = sum_list (map (bytes_on w) (sc_inflight s))" for q w
    using f by (auto intro!: sum_list_AList_update [OF Some _ d] simp: seconds_on_def bytes_on_def)
  have mem: "p \<in> set (sc_inflight s) \<or> p = (rid, f rec)" if "p \<in> set (AList.update rid (f rec) (sc_inflight s))" for p
    using that by (simp add: in_AList_update [OF d] split: if_splits)
  have recin: "(rid, rec) \<in> set (sc_inflight s)" using Some by (rule map_of_SomeD)
  have still: "\<exists>p' \<in> set (AList.update rid (f rec) (sc_inflight s)). if_queue (snd p') = if_queue (snd p)"
    if "p \<in> set (sc_inflight s)" for p
  proof (cases "fst p = rid")
    case True
    with that have "(rid, snd p) \<in> set (sc_inflight s)" by (metis prod.collapse)
    from eq_key_imp_eq_value [OF d this recin] have "snd p = rec" .
    moreover have "(rid, f rec) \<in> set (AList.update rid (f rec) (sc_inflight s))"
      by (simp add: in_AList_update [OF d])
    ultimately show ?thesis using f by (metis snd_conv)
  next
    case False
    with that have "p \<in> set (AList.update rid (f rec) (sc_inflight s))"
      by (simp add: in_AList_update [OF d])
    then show ?thesis by blast
  qed
  have "inflightFloatEpsilon < if_seconds (snd p)" if "p \<in> set (AList.update rid (f rec) (sc_inflight s))" for p
    using mem [OF that] ok recin f by (auto simp: ledger_ok_def)
  with ok d show ?thesis
    by (auto simp: update_inflight_def Some ledger_ok_def sums getInflightSeconds_def
        getMemoryReservation_def distinct_update_keys dest: still)
qed

lemma ledger_frame:
  "ledger_ok s \<Longrightarrow> sc_inflight s' = sc_inflight s \<Longrightarrow> sc_inflight_seconds s' = sc_inflight_seconds s
     \<Longrightarrow> sc_reservations s' = sc_reservations s \<Longrightarrow> ledger_ok s'"
  by (simp add: ledger_ok_def getInflightSeconds_def getMemoryReservation_def)

lemma ledger_run_ok:
  "ledger_ok s \<Longrightarrow> ledger_fair es s \<Longrightarrow> ledger_ok (fold ledger_step es s)"
proof (induction es arbitrary: s)
  case (Cons e es)
  have "ledger_ok (ledger_step e s)"
    using Cons.prems
    by (cases e) (auto simp: startInflight_ledger finishInflight_ledger attachWorkerJobID_def
        markInflightCancelled_def markDispatching_def clearDispatching_def requestCancelDuringDispatch_def
        intro!: update_inflight_ledger intro: ledger_frame split: option.split)
  with Cons show ?case by simp
qed simp


lemmas ledger_eval = startInflight_def finishInflight_def attachWorkerJobID_def update_inflight_def
  markInflightCancelled_def markDispatching_def clearDispatching_def requestCancelDuringDispatch_def
  getInflightSeconds_def getMemoryReservation_def parseWorkerQueueName_def worker_prefix_def Let_def

definition sample_config :: config where
  "sample_config = \<lparr> cf_result_ttl = None, cf_idle_eviction_ttl = None, cf_stream_replay_ttl = None,
       cf_load_attempts = 2, cf_bench_budget_seconds = 0, cf_bench_slots_cap = 0, cf_listen_addr = '''',
       cf_registry_url = '''', cf_update_url = '''', cf_db_dialect = '''', cf_db_dsn = '''' \<rparr>"

definition sample_ledger :: "ledger_event list" where
  "sample_ledger = [LMark ''r1'', LStart ''worker|a'' ''r1'' ''m'' ''rt'' 3 100, LStart ''worker|a'' ''r2'' ''m'' ''rt'' 4 0,
     LFinish ''r1'', LFinish ''r1'']"


subsection \<open>A cancel that lands during the dispatch window\<close>

lemma cancel_marker_kept:
  assumes "map_of (sc_dispatching s) rid = Some True" "e \<noteq> LMark rid" "e \<noteq> LClear rid"
  shows "map_of (sc_dispatching (ledger_step e s)) rid = Some True"
proof (cases e)
  case (LStart q i m rt secs res)
  with assms show ?thesis by (cases "i = rid") (simp_all add: startInflight_def Let_def)
qed (use assms in \<open>auto simp: finishInflight_def attachWorkerJobID_def update_inflight_def
    markInflightCancelled_def markDispatching_def clearDispatching_def requestCancelDuringDispatch_def
    Let_def split: option.splits\<close>)

text \<open>A cancel accepted while a job is being dispatched is never lost: whatever other jobs do
  in between, the promotion of the cancelled job to in-flight is refused and creates no record, so
  the dispatcher aborts before assigning it; a cancel outside that window is not accepted here.\<close>

theorem cancel_during_dispatch_honoured:
  assumes "requestCancelDuringDispatch rid s = (accepted, s')"
    and "\<forall>e \<in> set es. e \<noteq> LMark rid \<and> e \<noteq> LClear rid"
  shows "if accepted
    then startInflight q rid m rt secs res (fold ledger_step es s') = (False, fold ledger_step es s')
    else s' = s \<and> rid \<notin> set (keys (sc_dispatching s))"
proof (cases accepted)
  case True
  have "map_of (sc_dispatching s') rid = Some True"
    using assms(1) True by (auto simp: requestCancelDuringDispatch_def split: if_splits)
  then have "map_of (sc_dispatching (fold ledger_step es s')) rid = Some True"
    using assms(2)
  proof (induction es arbitrary: s')
    case (Cons e es)
    then show ?case using cancel_marker_kept [of s' rid e] by simp
  qed simp
  with True show ?thesis by (simp add: startInflight_def Let_def)
next
  case False
  with assms(1) show ?thesis
    by (auto simp: requestCancelDuringDispatch_def map_of_eq_None_iff split: if_splits)
qed

theorem cancel_during_dispatch_honoured_witness:
  "\<exists>s'. requestCancelDuringDispatch ''r'' (markDispatching ''r'' (New sample_config (empty_database 0))) = (True, s')
     \<and> fst (startInflight ''worker|a'' ''r'' ''m'' ''rt'' 3 0
          (fold ledger_step [LMark ''x'', LFinish ''r''] s')) = False"
proof -
  obtain s' where s': "requestCancelDuringDispatch ''r'' (markDispatching ''r''
      (New sample_config (empty_database 0))) = (True, s')"
    by (simp add: ledger_eval New_def database.extend_def)
  from cancel_during_dispatch_honoured [OF this, of "[LMark ''x'', LFinish ''r'']"] s' show ?thesis by auto
qed

end
