(* ===== verification/Placement.thy ===== *)
theory Placement
  imports Ledger
begin

text \<open>
  Scoring and candidacy: the queries of \<open>scheduler.go\<close> over the fleet, the benchmark lookups with
  their caches (\<open>model_bench.go\<close> and \<open>getBenchmark\<close>), pool sizing and memory projection, and
  \<open>pickWorkerQueue\<close>, which sends a job where it is expected to complete soonest.

  A lookup that misses the cache reads the state store and fills the cache, so lookups return the
  changed state. The file system is \<open>sc_stat\<close>: size and modification time of a model file below the
  models directory.
\<close>

subsection \<open>Workers and their devices\<close>

definition WorkersForRuntime :: "runtime_name \<Rightarrow> sched \<Rightarrow> stream_worker list" where
  "WorkersForRuntime rt s = sort_key w_id (filter
     (\<lambda>w. w_online w \<and> w_runtime w = rt \<and> isWorkerEnabled (w_id w) s) (All_workers (sc_fleet s)))"

definition workerHasModel :: "stream_worker \<Rightarrow> model_id \<Rightarrow> bool" where
  "workerHasModel w m \<longleftrightarrow> m = '''' \<or> list_ex (\<lambda>lm. lm_model_id lm = m) (w_loaded w)"

definition WorkersWithModel :: "runtime_name \<Rightarrow> model_id \<Rightarrow> sched \<Rightarrow> stream_worker list" where
  "WorkersWithModel rt m s = filter (\<lambda>w. workerHasModel w m) (WorkersForRuntime rt s)"

definition containsModelID :: "loaded_model list \<Rightarrow> model_id \<Rightarrow> bool" where
  "containsModelID lms m = list_ex (\<lambda>lm. lm_model_id lm = m) lms"

definition enabledDeviceIDs :: "stream_worker \<Rightarrow> sched \<Rightarrow> device_id list" where
  "enabledDeviceIDs w s =
     map dev_id (filter (\<lambda>dev. isDeviceEnabled (w_id w) (dev_id dev) s) (w_devices w))"

definition enabled_of :: "device_type \<Rightarrow> stream_worker \<Rightarrow> sched \<Rightarrow> device_id list" where
  "enabled_of t w s = map dev_id (filter
     (\<lambda>dev. dev_type dev = t \<and> isDeviceEnabled (w_id w) (dev_id dev) s) (w_devices w))"

definition predictDeviceSet :: "stream_worker \<Rightarrow> sched \<Rightarrow> device_id list" where
  "predictDeviceSet w s =
     (let gpus = enabled_of DeviceTypeGPU w s; cpus = enabled_of DeviceTypeCPU w s
      in if length gpus > 0 then sort gpus else sort cpus)"

definition deviceSet :: "stream_worker \<Rightarrow> sched \<Rightarrow> device_id list" where
  "deviceSet w s =
     (let gpus = enabled_of DeviceTypeGPU w s
      in if length gpus > 0 then gpus
         else case enabled_of DeviceTypeCPU w s of [] \<Rightarrow> [] | c # _ \<Rightarrow> [c])"

text \<open>Residents that must be evicted before a fresh load of \<open>target\<close> on the predicted devices.\<close>

definition residentsBlockingLoad :: "stream_worker \<Rightarrow> model_id \<Rightarrow> device_id list \<Rightarrow> loaded_model list" where
  "residentsBlockingLoad w target predicted =
     (if length predicted = 0 then []
      else filter (\<lambda>lm.
        if lm_model_id lm = target
        then lm_device_ids lm \<noteq> [] \<and> list_ex (\<lambda>d. d \<notin> set predicted) (lm_device_ids lm)
        else lm_device_ids lm = [] \<or> list_ex (\<lambda>d. d \<in> set predicted) (lm_device_ids lm)) (w_loaded w))"

subsection \<open>Device benchmarks\<close>

definition zero_benchmark :: device_benchmark where
  "zero_benchmark = \<lparr> be_worker_id = '''', be_device_id = '''', be_device_name = '''',
     be_memory_gbs = 0, be_load_gbs = 0, be_flops = 0, be_benched_at = 0 \<rparr>"

definition benchPresent :: "device_benchmark \<Rightarrow> bool" where
  "benchPresent row \<longleftrightarrow> be_device_id row \<noteq> ''''"

definition getBenchmark :: "worker_id \<Rightarrow> device_id \<Rightarrow> sched \<Rightarrow> (device_benchmark \<times> bool) \<times> sched" where
  "getBenchmark w i s = (case map_of (sc_bench_cache s) (w, i) of
      Some row \<Rightarrow> ((row, benchPresent row), s)
    | None \<Rightarrow>
        if \<not> sc_initialised s then ((zero_benchmark, False), s)
        else case GetBenchmark w i s of
          (Inl _, s) \<Rightarrow> ((zero_benchmark, False),
             s\<lparr>sc_bench_cache := AList.update (w, i) zero_benchmark (sc_bench_cache s)\<rparr>)
        | (Inr row, s) \<Rightarrow> ((row, benchPresent row),
             s\<lparr>sc_bench_cache := AList.update (w, i) row (sc_bench_cache s)\<rparr>))"

definition InvalidateBench :: "worker_id \<Rightarrow> device_id \<Rightarrow> sched \<Rightarrow> sched" where
  "InvalidateBench w i s = s\<lparr>sc_bench_cache := AList.delete (w, i) (sc_bench_cache s)\<rparr>"

definition InvalidateWorkerBench :: "worker_id \<Rightarrow> sched \<Rightarrow> sched" where
  "InvalidateWorkerBench w s = s\<lparr>sc_bench_cache := filter (\<lambda>((w', _), _). w' \<noteq> w) (sc_bench_cache s)\<rparr>"

fun bench_some :: "worker_id \<Rightarrow> device_id list \<Rightarrow> sched \<Rightarrow> bool \<times> sched" where
  "bench_some w [] s = (False, s)"
| "bench_some w (i # is) s =
     (if \<not> isDeviceEnabled w i s then bench_some w is s
      else case getBenchmark w i s of
        ((_, True), s) \<Rightarrow> (True, s)
      | ((_, False), s) \<Rightarrow> bench_some w is s)"

definition workerIsSchedulable :: "stream_worker \<Rightarrow> sched \<Rightarrow> bool \<times> sched" where
  "workerIsSchedulable w s =
     (if \<not> sc_initialised s then (True, s) else bench_some (w_id w) (map dev_id (w_devices w)) s)"

fun sum_load_gbs :: "worker_id \<Rightarrow> device_id list \<Rightarrow> rat \<Rightarrow> sched \<Rightarrow> rat \<times> sched" where
  "sum_load_gbs w [] acc s = (acc, s)"
| "sum_load_gbs w (i # is) acc s = (case getBenchmark w i s of
     ((row, ok), s) \<Rightarrow>
       sum_load_gbs w is (if \<not> ok \<or> be_load_gbs row \<le> 0 then acc else acc + be_load_gbs row) s)"

definition effectiveLoadThroughput :: "stream_worker \<Rightarrow> sched \<Rightarrow> rat \<times> sched" where
  "effectiveLoadThroughput w s =
     (case sum_load_gbs (w_id w) (deviceSet w s) 0 s of (gbs, s) \<Rightarrow> (gbs * 10 ^ 9, s))"

subsection \<open>Model benchmarks\<close>

definition zero_model_benchmark :: model_benchmark where
  "zero_model_benchmark = \<lparr> mb_worker_id = '''', mb_device_set = '''', mb_model_id = '''',
     mb_units_per_sec = 0, mb_graph_secs = 0, mb_base_bytes = 0, mb_per_slot_bytes = 0,
     mb_model_size = 0, mb_model_mtime = 0, mb_error = '''', mb_created = 0, mb_updated = 0 \<rparr>"

fun deviceSetKey :: "device_id list \<Rightarrow> string" where
  "deviceSetKey [] = ''''"
| "deviceSetKey [d] = d"
| "deviceSetKey (d # ds) = d @ '','' @ deviceSetKey ds"

fun bench_key_loop :: "model_file option list \<Rightarrow> string \<Rightarrow> string" where
  "bench_key_loop [] seen = seen"
| "bench_key_loop (None # fs) seen = bench_key_loop fs seen"
| "bench_key_loop (Some f # fs) seen =
     (if mf_filename f = '''' then bench_key_loop fs seen
      else if mf_role f = MODEL_FILE_ROLE_PRIMARY then mf_filename f
      else bench_key_loop fs (if seen = '''' then mf_filename f else seen))"

definition benchModelKey :: "model_file option list \<Rightarrow> string" where
  "benchModelKey fs = bench_key_loop fs ''''"

definition cache_key :: "string \<Rightarrow> string \<Rightarrow> string" where
  "cache_key devSet modelKey = devSet @ ''|'' @ modelKey"

definition lookupModelBenchmark :: "worker_id \<Rightarrow> string \<Rightarrow> string \<Rightarrow> sched
    \<Rightarrow> (model_benchmark \<times> bool) \<times> sched" where
  "lookupModelBenchmark w devSet modelKey s =
     (case map_of (sc_model_cache s) (w, cache_key devSet modelKey) of
        Some e \<Rightarrow> (e, s)
      | None \<Rightarrow>
          if \<not> sc_initialised s then ((zero_model_benchmark, False), s)
          else let (r, s) = GetModelBenchmark w devSet modelKey s;
                   e = (case r of
                       Inl _ \<Rightarrow> (zero_model_benchmark, False)
                     | Inr row \<Rightarrow> (row, mb_error row = '''' \<and> mb_units_per_sec row > 0))
               in (e, s\<lparr>sc_model_cache :=
                    AList.update (w, cache_key devSet modelKey) e (sc_model_cache s)\<rparr>))"

definition InvalidateModelBenchmarks :: "worker_id \<Rightarrow> sched \<Rightarrow> sched" where
  "InvalidateModelBenchmarks w s =
     (if w = '''' then s\<lparr>sc_model_cache := []\<rparr>
      else s\<lparr>sc_model_cache := filter (\<lambda>((w', _), _). w' \<noteq> w) (sc_model_cache s)\<rparr>)"

definition modelFileUnchanged :: "model_benchmark \<Rightarrow> sched \<Rightarrow> bool" where
  "modelFileUnchanged row s =
     (if sc_models_dir s = '''' \<or> mb_model_id row = '''' then True
      else case sc_stat s (sc_models_dir s) (mb_model_id row) of
          None \<Rightarrow> False
        | Some (sz, mtime) \<Rightarrow> sz = mb_model_size row \<and> mtime = mb_model_mtime row)"

definition modelBenchmark :: "stream_worker \<Rightarrow> 'f envelope \<Rightarrow> sched \<Rightarrow> model_benchmark option \<times> sched" where
  "modelBenchmark w env s =
     (let ds = predictDeviceSet w s in
      if length ds = 0 then (None, s)
      else case lookupModelBenchmark (w_id w) (deviceSetKey ds) (benchModelKey (env_files env)) s of
        ((row, ok), s) \<Rightarrow> (if \<not> ok \<or> \<not> modelFileUnchanged row s then None else Some row, s))"

fun conclusion_loop :: "string \<Rightarrow> stream_worker list \<Rightarrow> nat \<Rightarrow> string \<Rightarrow> sched
    \<Rightarrow> (bool \<times> string) \<times> sched" where
  "conclusion_loop modelKey [] eligible errText s = ((eligible = 0, errText), s)"
| "conclusion_loop modelKey (w # ws) eligible errText s =
     (let ds = predictDeviceSet w s in
      if length ds = 0 then conclusion_loop modelKey ws eligible errText s
      else case lookupModelBenchmark (w_id w) (deviceSetKey ds) modelKey s of
        ((row, ok), s) \<Rightarrow>
          if ok \<and> modelFileUnchanged row s then ((True, ''''), s)
          else if mb_error row \<noteq> '''' \<and> modelFileUnchanged row s
          then conclusion_loop modelKey ws (Suc eligible) (mb_error row) s
          else ((True, ''''), s))"

definition modelBenchConclusion :: "'f envelope \<Rightarrow> sched \<Rightarrow> (bool \<times> string) \<times> sched" where
  "modelBenchConclusion env s =
     (let modelKey = benchModelKey (env_files env) in
      if modelKey = '''' then ((True, ''''), s)
      else conclusion_loop modelKey (WorkersForRuntime (env_runtime_name env) s) 0 '''' s)"

subsection \<open>Memory and pool size\<close>

definition freeMemoryBytes :: "stream_worker \<Rightarrow> sched \<Rightarrow> int" where
  "freeMemoryBytes w s =
     (let ds = deviceSet w s;
          totals = map_of (rev (map (\<lambda>d. (dev_id d, dev_total_mb d)) (w_devices w)));
          used = map_of (rev (map (\<lambda>d. (ds_device_id d, ds_used_mb d)) (w_device_stats w)));
          free = sum_list (map (\<lambda>i. case totals i of
              None \<Rightarrow> 0
            | Some tot \<Rightarrow> max 0 ((tot - (case used i of None \<Rightarrow> 0 | Some u \<Rightarrow> u)) * 1024 * 1024)) (remdups ds));
          r = getMemoryReservation (w_id w) s
      in if length ds = 0 then 0
         else max 0 (if r > 0 then free - r else free))"

definition filesRequireLoopback :: "model_file option list \<Rightarrow> bool" where
  "filesRequireLoopback fs = list_ex (\<lambda>f. case f of None \<Rightarrow> False | Some f \<Rightarrow> mf_url f = '''') fs"

definition totalLoadBytes :: "model_file option list \<Rightarrow> int" where
  "totalLoadBytes fs = sum_list (map (\<lambda>f. case f of None \<Rightarrow> 0 | Some f \<Rightarrow> max 0 (mf_size_bytes f)) fs)"

definition memoryEligible :: "stream_worker \<Rightarrow> 'f envelope \<Rightarrow> model_benchmark \<Rightarrow> sched \<Rightarrow> bool" where
  "memoryEligible w env row s =
     (if mb_base_bytes row \<le> 0 then True
      else if env_model_id env \<noteq> '''' \<and> workerHasModel w (env_model_id env) then True
      else freeMemoryBytes w s \<ge> mb_base_bytes row)"

definition eligibleWorker :: "stream_worker \<Rightarrow> 'f envelope \<Rightarrow> model_benchmark \<Rightarrow> sched \<Rightarrow> bool" where
  "eligibleWorker w env row s =
     (if filesRequireLoopback (env_files env) \<and> \<not> w_loopback w then False
      else memoryEligible w env row s)"

definition defaultHeadroomPct :: int where "defaultHeadroomPct = 75"

definition effectiveHeadroomPct :: "stream_worker \<Rightarrow> 'f envelope \<Rightarrow> int" where
  "effectiveHeadroomPct w env =
     (if sint (env_headroom_pct env) \<ge> 1 \<and> sint (env_headroom_pct env) \<le> 100
      then sint (env_headroom_pct env)
      else if w_headroom_pct w \<ge> 1 \<and> w_headroom_pct w \<le> 100 then w_headroom_pct w
      else defaultHeadroomPct)"

definition plannedPoolSize :: "stream_worker \<Rightarrow> 'f envelope \<Rightarrow> model_benchmark \<Rightarrow> sched \<Rightarrow> int" where
  "plannedPoolSize w env row s =
     (let slotsCap = EffectiveBenchSlotsCap (sc_cfg s);
          slots = (if mb_graph_secs row > 0
                   then \<lfloor>EffectiveBenchBudgetSeconds (sc_cfg s) / mb_graph_secs row\<rfloor> else slotsCap);
          slots = min (max slots 1) slotsCap
      in if mb_per_slot_bytes row \<le> 0 \<or> mb_base_bytes row \<le> 0 then slots
         else let headroom = go_div ((freeMemoryBytes w s - mb_base_bytes row)
                     * effectiveHeadroomPct w env) 100
              in if headroom \<le> 0 then 1
                 else min slots (1 + go_div headroom (mb_per_slot_bytes row)))"

definition projectedLoadBytes :: "stream_worker \<Rightarrow> 'f envelope \<Rightarrow> model_benchmark \<Rightarrow> sched \<Rightarrow> int" where
  "projectedLoadBytes w env row s =
     (if mb_base_bytes row \<le> 0 then 0
      else if mb_per_slot_bytes row \<le> 0 then mb_base_bytes row
      else mb_base_bytes row + (plannedPoolSize w env row s - 1) * mb_per_slot_bytes row)"

subsection \<open>Scoring\<close>

definition loadLatencyForCand :: "stream_worker \<Rightarrow> queue_name \<Rightarrow> 'f envelope \<Rightarrow> seconds \<Rightarrow> int \<Rightarrow> rat
    \<Rightarrow> sched \<Rightarrow> seconds" where
  "loadLatencyForCand w q env tailSec loadBytes loadBytesSec s =
     (if env_model_id env = '''' \<or> loadBytes \<le> 0 then 0
      else if tailSec > 0 \<and> tailModel q s = env_model_id env then 0
      else if \<not> tailSec > 0 \<and> workerHasModel w (env_model_id env)
        \<and> length (residentsBlockingLoad w (env_model_id env) (predictDeviceSet w s)) = 0 then 0
      else if loadBytesSec \<le> 0 then 0
      else of_int loadBytes / loadBytesSec)"

record cand =
  cd_worker :: stream_worker
  cd_queue :: queue_name
  cd_row :: model_benchmark
  cd_load :: rat

fun collect_cands :: "rat envelope \<Rightarrow> stream_worker list \<Rightarrow> sched \<Rightarrow> cand list \<times> sched" where
  "collect_cands env [] s = ([], s)"
| "collect_cands env (w # ws) s =
     (case modelBenchmark w env s of
        (None, s) \<Rightarrow> collect_cands env ws s
      | (Some row, s) \<Rightarrow>
          if \<not> eligibleWorker w env row s \<or> workerQueueName (w_id w) \<notin> set (sc_queues s)
          then collect_cands env ws s
          else let (load, s) = effectiveLoadThroughput w s;
                   (cs, s) = collect_cands env ws s
               in (\<lparr> cd_worker = w, cd_queue = workerQueueName (w_id w), cd_row = row, cd_load = load \<rparr> # cs, s))"

definition queued_seconds :: "rat envelope \<Rightarrow> cand \<Rightarrow> sched \<Rightarrow> seconds" where
  "queued_seconds env c s =
     (let projected = projectedLoadBytes (cd_worker c) env (cd_row c) s;
          loadBytes = (if projected \<le> 0 then totalLoadBytes (env_files env) else projected)
      in env_cost env / mb_units_per_sec (cd_row c)
         + loadLatencyForCand (cd_worker c) (cd_queue c) env (tailSeconds (cd_queue c) s) loadBytes
             (cd_load c) s)"

definition score :: "rat envelope \<Rightarrow> cand \<Rightarrow> sched \<Rightarrow> seconds" where
  "score env c s = getInflightSeconds (cd_queue c) s + tailSeconds (cd_queue c) s + queued_seconds env c s"

fun choose_best :: "rat envelope \<Rightarrow> cand list \<Rightarrow> cand option \<Rightarrow> sched \<Rightarrow> cand option" where
  "choose_best env [] best s = best"
| "choose_best env (c # cs) best s =
     choose_best env cs (case best of
        None \<Rightarrow> Some c | Some b \<Rightarrow> if score env c s < score env b s then Some c else Some b) s"

definition pickWorkerQueue :: "rat envelope \<Rightarrow> sched \<Rightarrow> (cand \<times> seconds) option \<times> sched" where
  "pickWorkerQueue env s =
     (case WorkersForRuntime (env_runtime_name env) s of
        [] \<Rightarrow> (None, s)
      | ws \<Rightarrow> let (cs, s) = collect_cands env ws s
              in (map_option (\<lambda>c. (c, queued_seconds env c s)) (choose_best env cs None s), s))"

definition predictedQueuedSeconds :: "stream_worker \<Rightarrow> rat envelope \<Rightarrow> rat \<Rightarrow> model_id \<Rightarrow> sched
    \<Rightarrow> seconds \<times> sched" where
  "predictedQueuedSeconds w env loadBytesSec residentID s =
     (case modelBenchmark w env s of
        (None, s) \<Rightarrow> (0, s)
      | (Some row, s) \<Rightarrow>
          let taskSec = env_cost env / mb_units_per_sec row;
              projected = projectedLoadBytes w env row s;
              load = (if projected \<le> 0 then totalLoadBytes (env_files env) else projected);
              switchSec = (if env_model_id env \<noteq> '''' \<and> env_model_id env \<noteq> residentID
                  \<and> load > 0 \<and> loadBytesSec > 0 then of_int load / loadBytesSec else 0)
          in (taskSec + switchSec, s))"

subsection \<open>Pool sizing stays inside the budgets\<close>

lemma freeMemoryBytes_nonneg [simp]: "0 \<le> freeMemoryBytes w s"
  by (simp add: freeMemoryBytes_def Let_def)

lemma effectiveHeadroomPct_range: "1 \<le> effectiveHeadroomPct w env" "effectiveHeadroomPct w env \<le> 100"
  by (simp_all add: effectiveHeadroomPct_def defaultHeadroomPct_def)

lemma slot_extra_fits:
  fixes space per pct :: int
  assumes "0 \<le> space" "0 < per" "0 \<le> pct" "pct \<le> 100"
  shows "go_div (go_div (space * pct) 100) per * per \<le> space"
proof -
  have 1: "go_div (space * pct) 100 = (space * pct) div 100" "0 \<le> (space * pct) div 100"
    using assms by (simp_all add: go_div_pos pos_imp_zdiv_nonneg_iff)
  have "(space * pct) div 100 \<le> (space * 100) div 100"
    using assms by (intro zdiv_mono1 mult_left_mono) simp_all
  then have 2: "(space * pct) div 100 \<le> space" by simp
  have "((space * pct) div 100) div per * per \<le> (space * pct) div 100"
    using assms by (simp add: minus_mod_eq_div_mult [symmetric])
  with 1 2 assms show ?thesis by (simp add: go_div_pos)
qed


definition bench_row :: model_benchmark where
  "bench_row = zero_model_benchmark\<lparr>mb_units_per_sec := 10, mb_graph_secs := 1 / 2,
     mb_base_bytes := 1000000, mb_per_slot_bytes := 200000\<rparr>"

definition gpu_worker :: stream_worker where
  "gpu_worker = (NewStreamWorker ''a'' \<lparr> reg_name = ''g'', reg_version = ''1'', reg_runtime_name = ''rt'',
      reg_devices = [\<lparr> dev_id = ''gpu0'', dev_name = ''G'', dev_type = DeviceTypeGPU, dev_total_mb = 2 \<rparr>],
      reg_headroom_pct = 90 \<rparr> True 0)"

definition sample_envelope :: "rat envelope" where
  "sample_envelope = \<lparr> env_priority = 1, env_attempts = 0, env_cost = 30, env_queued_seconds = 0,
     env_runtime_name = ''rt'', env_model_id = ''m'', env_source = ''gateway:rt'', env_request_id = ''r'',
     env_global_msg_id = '''', env_files = [Some \<lparr> mf_filename = ''f.gguf'', mf_url = '''',
       mf_size_bytes = 500, mf_role = MODEL_FILE_ROLE_PRIMARY \<rparr>], env_load_hints = [], env_payload = [],
     env_headroom_pct = 0 \<rparr>"


subsection \<open>The caches are transparent\<close>

text \<open>A lookup changes nothing but the caches (and consumes a fault of the state store).\<close>

definition caches_only :: "sched \<Rightarrow> sched \<Rightarrow> bool" where
  "caches_only s s' \<longleftrightarrow> s' = s\<lparr>state_faults := state_faults s', sc_bench_cache := sc_bench_cache s',
     sc_model_cache := sc_model_cache s'\<rparr>"

lemma caches_only_refl [simp]: "caches_only s s" by (simp add: caches_only_def)

lemma caches_onlyE:
  assumes "caches_only s s'"
  obtains a b c where "s' = s\<lparr>state_faults := a, sc_bench_cache := b, sc_model_cache := c\<rparr>"
  using assms by (auto simp: caches_only_def)

lemma caches_onlyI: "caches_only s (s\<lparr>state_faults := a, sc_bench_cache := b, sc_model_cache := c\<rparr>)"
  by (simp add: caches_only_def)

lemma caches_only_trans: "caches_only s s' \<Longrightarrow> caches_only s' s'' \<Longrightarrow> caches_only s s''"
  by (elim caches_onlyE) (simp add: caches_only_def)

lemma caches_only_fields:
  assumes "caches_only s s'"
  shows "sc_fleet s' = sc_fleet s" "sc_queues s' = sc_queues s" "sc_mirror s' = sc_mirror s"
    "sc_inflight s' = sc_inflight s" "sc_inflight_seconds s' = sc_inflight_seconds s"
    "sc_reservations s' = sc_reservations s" "sc_device_enabled s' = sc_device_enabled s"
    "sc_worker_enabled s' = sc_worker_enabled s" "sc_models_dir s' = sc_models_dir s"
    "sc_stat s' = sc_stat s" "sc_initialised s' = sc_initialised s" "sc_cfg s' = sc_cfg s"
    "rows s' = rows s" "results s' = results s" "clock s' = clock s" "tails s' = tails s"
    "id_supply s' = id_supply s" "next_id s' = next_id s" "queue_faults s' = queue_faults s"
    "result_faults s' = result_faults s" "driver s' = driver s" "model_benches s' = model_benches s"
    "device_benches s' = device_benches s" "sc_buffers s' = sc_buffers s" "sc_heap s' = sc_heap s"
    "sc_dispatching s' = sc_dispatching s" "sc_gated s' = sc_gated s" "sc_draining s' = sc_draining s"
    "sc_log s' = sc_log s" "sc_kicked s' = sc_kicked s" "notified s' = notified s"
    "sc_orphans s' = sc_orphans s" "sc_orphan_grace s' = sc_orphan_grace s"
  by (rule caches_onlyE [OF assms], simp)+

lemmas placement_query_defs = isDeviceEnabled_def isWorkerEnabled_def enabled_of_def enabledDeviceIDs_def
  predictDeviceSet_def deviceSet_def WorkersForRuntime_def freeMemoryBytes_def getMemoryReservation_def
  memoryEligible_def eligibleWorker_def modelFileUnchanged_def plannedPoolSize_def projectedLoadBytes_def
  tailSeconds_def tailModel_def getInflightSeconds_def loadLatencyForCand_def queued_seconds_def score_def

lemma caches_only_queries:
  assumes "caches_only s s'"
  shows "isDeviceEnabled w i s' = isDeviceEnabled w i s" "predictDeviceSet v s' = predictDeviceSet v s"
    "deviceSet v s' = deviceSet v s" "WorkersForRuntime rt s' = WorkersForRuntime rt s"
    "eligibleWorker v env row s' = eligibleWorker v env row s"
    "modelFileUnchanged row s' = modelFileUnchanged row s"
    "queued_seconds e c s' = queued_seconds e c s" "score e c s' = score e c s"
  unfolding placement_query_defs caches_only_fields [OF assms] by (rule refl)+

text \<open>What the tables say, without the caches.\<close>

definition bench_truth :: "worker_id \<Rightarrow> device_id \<Rightarrow> sched \<Rightarrow> device_benchmark" where
  "bench_truth w i s = (case map_of (device_benches s) (w, i) of None \<Rightarrow> zero_benchmark | Some r \<Rightarrow> r)"

definition model_truth :: "worker_id \<Rightarrow> string \<Rightarrow> string \<Rightarrow> sched \<Rightarrow> model_benchmark \<times> bool" where
  "model_truth w ds m s = (case map_of (model_benches s) (w, ds, m) of
      None \<Rightarrow> (zero_model_benchmark, False)
    | Some row \<Rightarrow> (row, mb_error row = '''' \<and> mb_units_per_sec row > 0))"

definition plain :: "string \<Rightarrow> bool" where "plain i \<longleftrightarrow> CHR ''|'' \<notin> set i"

definition coherent :: "sched \<Rightarrow> bool" where
  "coherent s \<longleftrightarrow> sc_initialised s \<and> state_faults s = []
     \<and> (\<forall>w i row. map_of (sc_bench_cache s) (w, i) = Some row \<longrightarrow> row = bench_truth w i s)
     \<and> (\<forall>w ds m e. plain ds \<longrightarrow> map_of (sc_model_cache s) (w, cache_key ds m) = Some e \<longrightarrow> e = model_truth w ds m s)"

lemma cache_key_inj: "plain ds \<Longrightarrow> plain ds' \<Longrightarrow> cache_key ds m = cache_key ds' m' \<longleftrightarrow> ds = ds' \<and> m = m'"
proof (induction ds arbitrary: ds')
  case Nil
  then show ?case by (cases ds') (auto simp: cache_key_def plain_def)
next
  case (Cons c ds)
  show ?case
  proof (cases ds')
    case Nil
    with Cons.prems show ?thesis by (auto simp: cache_key_def plain_def)
  next
    case (Cons c' ds'')
    with Cons.IH [of ds''] Cons.prems show ?thesis by (auto simp: cache_key_def plain_def)
  qed
qed

lemma truth_caches:
  assumes "caches_only s s'"
  shows "bench_truth w i s' = bench_truth w i s" "model_truth w ds m s' = model_truth w ds m s"
  by (simp_all add: bench_truth_def model_truth_def caches_only_fields [OF assms])

lemma getBenchmark_spec:
  assumes "coherent s"
  shows "fst (getBenchmark w i s) = (bench_truth w i s, benchPresent (bench_truth w i s))
    \<and> caches_only s (snd (getBenchmark w i s)) \<and> coherent (snd (getBenchmark w i s))"
proof (cases "map_of (sc_bench_cache s) (w, i)")
  case (Some row)
  with assms show ?thesis by (simp add: getBenchmark_def coherent_def)
next
  case None
  have init: "sc_initialised s" "state_faults s = []" using assms by (simp_all add: coherent_def)
  define s' where "s' = s\<lparr>state_faults := [], sc_bench_cache := AList.update (w, i) (bench_truth w i s) (sc_bench_cache s)\<rparr>"
  have fs: "s\<lparr>state_faults := []\<rparr> = s" using init by simp
  have g: "getBenchmark w i s = ((bench_truth w i s, benchPresent (bench_truth w i s)), s')"
    using None init fs
    by (simp add: getBenchmark_def GetBenchmark_def stx_def Let_def bench_truth_def s'_def split: option.split)
      (simp add: benchPresent_def zero_benchmark_def)
  have c: "caches_only s s'" unfolding s'_def by (simp add: caches_only_def)
  have "coherent s'"
    using assms truth_caches [OF c] by (auto simp: coherent_def) (simp_all add: s'_def split: if_splits)
  with g c show ?thesis by simp
qed

lemma lookupModelBenchmark_spec:
  assumes co: "coherent s" and pl: "plain ds"
  shows "fst (lookupModelBenchmark w ds m s) = model_truth w ds m s
    \<and> caches_only s (snd (lookupModelBenchmark w ds m s)) \<and> coherent (snd (lookupModelBenchmark w ds m s))"
proof (cases "map_of (sc_model_cache s) (w, cache_key ds m)")
  case (Some row)
  with co have "row = model_truth w ds m s" using pl unfolding coherent_def by blast
  with Some co show ?thesis by (simp add: lookupModelBenchmark_def)
next
  case None
  have init: "sc_initialised s" "state_faults s = []" using co by (simp_all add: coherent_def)
  define s' where "s' = s\<lparr>state_faults := [], sc_model_cache :=
    AList.update (w, cache_key ds m) (model_truth w ds m s) (sc_model_cache s)\<rparr>"
  have fs: "s\<lparr>state_faults := []\<rparr> = s" using init by simp
  have g: "lookupModelBenchmark w ds m s = (model_truth w ds m s, s')"
    using None init fs
    by (simp add: lookupModelBenchmark_def GetModelBenchmark_def stx_def Let_def model_truth_def s'_def
        split: option.split)
  have c: "caches_only s s'" unfolding s'_def by (simp add: caches_only_def)
  have "coherent s'"
    using co truth_caches [OF c] cache_key_inj [OF _ pl]
    by (auto simp: coherent_def) (auto simp: s'_def split: if_splits)
  with g c show ?thesis by simp
qed

text \<open>The picker against the tables.\<close>

definition plain_devices :: "sched \<Rightarrow> bool" where
  "plain_devices s \<longleftrightarrow> (\<forall>w \<in> set (All_workers (sc_fleet s)). \<forall>d \<in> set (w_devices w). plain (dev_id d))"

definition measured_row :: "'f envelope \<Rightarrow> stream_worker \<Rightarrow> sched \<Rightarrow> model_benchmark option" where
  "measured_row env w s =
     (let ds = predictDeviceSet w s;
          (row, ok) = model_truth (w_id w) (deviceSetKey ds) (benchModelKey (env_files env)) s
      in if ds \<noteq> [] \<and> ok \<and> modelFileUnchanged row s then Some row else None)"

definition upload_rate :: "stream_worker \<Rightarrow> sched \<Rightarrow> rat" where
  "upload_rate w s = sum_list (map (\<lambda>i. let row = bench_truth (w_id w) i s
     in if benchPresent row then max 0 (be_load_gbs row) else 0) (deviceSet w s)) * 10 ^ 9"

definition target_of :: "'f envelope \<Rightarrow> stream_worker \<Rightarrow> sched \<Rightarrow> cand option" where
  "target_of env w s = (case measured_row env w s of
      None \<Rightarrow> None
    | Some row \<Rightarrow>
        if eligibleWorker w env row s \<and> workerQueueName (w_id w) \<in> set (sc_queues s)
        then Some \<lparr> cd_worker = w, cd_queue = workerQueueName (w_id w), cd_row = row, cd_load = upload_rate w s \<rparr>
        else None)"

lemma plain_deviceSetKey: "\<forall>d \<in> set ds. plain d \<Longrightarrow> plain (deviceSetKey ds)"
  by (induction ds rule: deviceSetKey.induct) (auto simp: plain_def)

lemma plain_predict:
  assumes "\<forall>d \<in> set (w_devices w). plain (dev_id d)"
  shows "plain (deviceSetKey (predictDeviceSet w s))"
  using assms by (intro plain_deviceSetKey) (auto simp: predictDeviceSet_def enabled_of_def Let_def)

lemma modelBenchmark_spec:
  assumes co: "coherent s" and pl: "\<forall>d \<in> set (w_devices w). plain (dev_id d)"
  shows "fst (modelBenchmark w env s) = measured_row env w s
    \<and> caches_only s (snd (modelBenchmark w env s)) \<and> coherent (snd (modelBenchmark w env s))"
proof (cases "predictDeviceSet w s = []")
  case True
  with co show ?thesis by (simp add: modelBenchmark_def measured_row_def split: prod.split)
next
  case False
  obtain row ok s1 where l: "lookupModelBenchmark (w_id w) (deviceSetKey (predictDeviceSet w s))
      (benchModelKey (env_files env)) s = ((row, ok), s1)" by (metis prod.collapse)
  from lookupModelBenchmark_spec [OF co plain_predict [OF pl], of "w_id w" s "benchModelKey (env_files env)"] l
  have 1: "model_truth (w_id w) (deviceSetKey (predictDeviceSet w s)) (benchModelKey (env_files env)) s = (row, ok)"
    "caches_only s s1" "coherent s1" by auto
  from 1 False l caches_only_queries(6) [OF 1(2)] show ?thesis
    by (simp add: modelBenchmark_def measured_row_def)
qed

lemma sum_load_gbs_spec:
  assumes "coherent s"
  shows "fst (sum_load_gbs w is acc s) = acc + sum_list (map (\<lambda>i. let row = bench_truth w i s
       in if benchPresent row then max 0 (be_load_gbs row) else 0) is)
    \<and> caches_only s (snd (sum_load_gbs w is acc s)) \<and> coherent (snd (sum_load_gbs w is acc s))"
  using assms
proof (induction "is" arbitrary: acc s)
  case (Cons i "is")
  obtain row ok s1 where g: "getBenchmark w i s = ((row, ok), s1)" by (metis prod.collapse)
  with getBenchmark_spec [OF Cons.prems, of w i]
  have 1: "row = bench_truth w i s" "ok = benchPresent row" "caches_only s s1" "coherent s1" by auto
  from Cons.IH [OF 1(4), of "if \<not> ok \<or> be_load_gbs row \<le> 0 then acc else acc + be_load_gbs row"]
    truth_caches [OF 1(3)] caches_only_trans [OF 1(3)] g 1
  show ?case by (auto simp: Let_def max_def)
qed simp

lemma effectiveLoadThroughput_spec:
  assumes "coherent s"
  shows "fst (effectiveLoadThroughput w s) = upload_rate w s
    \<and> caches_only s (snd (effectiveLoadThroughput w s)) \<and> coherent (snd (effectiveLoadThroughput w s))"
  using sum_load_gbs_spec [OF assms, of "w_id w" "deviceSet w s" 0]
  by (auto simp: effectiveLoadThroughput_def upload_rate_def split: prod.split)

lemma target_caches:
  assumes "caches_only s s'"
  shows "measured_row env w s' = measured_row env w s" "target_of env w s' = target_of env w s"
proof -
  note q = caches_only_queries [OF assms] truth_caches [OF assms]
  show m: "measured_row env w s' = measured_row env w s"
    by (simp add: measured_row_def q)
  show "target_of env w s' = target_of env w s"
    by (simp add: target_of_def m q upload_rate_def caches_only_fields [OF assms] split: option.split)
qed

lemma collect_cands_spec:
  assumes "coherent s" "\<forall>w \<in> set ws. \<forall>d \<in> set (w_devices w). plain (dev_id d)"
  shows "fst (collect_cands env ws s) = List.map_filter (\<lambda>w. target_of env w s) ws
    \<and> caches_only s (snd (collect_cands env ws s)) \<and> coherent (snd (collect_cands env ws s))"
  using assms
proof (induction ws arbitrary: s)
  case Nil
  then show ?case by (simp add: map_filter_simps)
next
  case (Cons w ws)
  obtain r s1 where m: "modelBenchmark w env s = (r, s1)" by fastforce
  with modelBenchmark_spec [OF Cons.prems(1), of w env] Cons.prems(2)
  have 1: "r = measured_row env w s" "caches_only s s1" "coherent s1" by auto
  show ?case
  proof (cases "target_of env w s")
    case None
    then have c: "collect_cands env (w # ws) s = collect_cands env ws s1"
      using m 1 by (auto simp: target_of_def caches_only_queries caches_only_fields split: option.splits if_splits)
    from Cons.IH [OF 1(3)] Cons.prems(2) None caches_only_trans [OF 1(2)] show ?thesis
      unfolding c by (simp add: map_filter_simps target_caches [OF 1(2)])
  next
    case (Some c)
    obtain rate s2 where e: "effectiveLoadThroughput w s1 = (rate, s2)" by fastforce
    with effectiveLoadThroughput_spec [OF 1(3), of w]
    have 2: "rate = upload_rate w s1" "caches_only s1 s2" "coherent s2" by auto
    have rate: "rate = upload_rate w s"
      by (simp add: 2 upload_rate_def caches_only_queries [OF 1(2)] truth_caches [OF 1(2)])
    have c: "collect_cands env (w # ws) s = (let (cs, s) = collect_cands env ws s2 in (c # cs, s))"
      using m 1 e rate Some
      by (auto simp: target_of_def caches_only_queries caches_only_fields Let_def split: option.splits if_splits)
    from Cons.IH [OF 2(3)] Cons.prems(2) Some caches_only_trans [OF 1(2) caches_only_trans [OF 2(2)]]
    show ?thesis unfolding c
      by (auto simp: map_filter_simps Let_def target_caches [OF 1(2)] target_caches [OF 2(2)] split: prod.split)
  qed
qed

lemma choose_best_first:
  "\<exists>b us vs. choose_best env cs (Some a) s = Some b \<and> a # cs = us @ b # vs
     \<and> (\<forall>u \<in> set us. score env b s < score env u s) \<and> (\<forall>v \<in> set vs. score env b s \<le> score env v s)"
proof (induction cs arbitrary: a)
  case (Cons c cs)
  show ?case
  proof (cases "score env c s < score env a s")
    case True
    with Cons.IH [of c] obtain b us vs where b: "choose_best env cs (Some c) s = Some b"
      "c # cs = us @ b # vs" "\<forall>u \<in> set us. score env b s < score env u s"
      "\<forall>v \<in> set vs. score env b s \<le> score env v s" by blast
    have "score env b s \<le> score env c s"
      using b(2,3) by (cases us) auto
    with b(3) True have "\<forall>u \<in> set (a # us). score env b s < score env u s" by simp
    moreover have "choose_best env (c # cs) (Some a) s = Some b" using b(1) True by simp
    moreover have "a # c # cs = (a # us) @ b # vs" using b(2) by simp
    ultimately show ?thesis using b(4) by blast
  next
    case False
    with Cons.IH [of a] obtain b us vs where b: "choose_best env cs (Some a) s = Some b"
      "a # cs = us @ b # vs" "\<forall>u \<in> set us. score env b s < score env u s"
      "\<forall>v \<in> set vs. score env b s \<le> score env v s" by blast
    show ?thesis
    proof (cases us)
      case Nil
      with b False show ?thesis by (intro exI [of _ b] exI [of _ "[]"] exI [of _ "c # cs"]) auto
    next
      case (Cons u us')
      with b have 1: "u = a" "cs = us' @ b # vs" by simp_all
      with b(3) Cons False have "\<forall>u \<in> set (a # c # us'). score env b s < score env u s" by force
      moreover have "choose_best env (c # cs) (Some a) s = Some b" using b(1) False by simp
      moreover have "a # c # cs = (a # c # us') @ b # vs" using 1 by simp
      ultimately show ?thesis using b(4) by blast
    qed
  qed
qed (auto intro: exI [of _ "[]"])

lemma in_map_filter: "y \<in> set (List.map_filter f xs) \<longleftrightarrow> (\<exists>x \<in> set xs. f x = Some y)"
  by (induction xs) (auto simp: map_filter_simps split: option.split)

lemma target_worker: "target_of env w s = Some c \<Longrightarrow> cd_worker c = w"
  by (auto simp: target_of_def split: option.splits if_splits)

lemma sorted_targets:
  assumes "sorted (map w_id ws)"
  shows "sorted (map (\<lambda>c. w_id (cd_worker c)) (List.map_filter (\<lambda>w. target_of env w s) ws))"
  using assms
proof (induction ws)
  case (Cons w ws)
  have "w_id w \<le> w_id (cd_worker c)" if "c \<in> set (List.map_filter (\<lambda>w. target_of env w s) ws)" for c
    using that Cons.prems target_worker by (fastforce simp: in_map_filter)
  with Cons show ?case
    by (auto simp: map_filter_simps target_of_def split: option.splits if_splits)
qed (simp add: map_filter_simps)

text \<open>C8. \<open>pickWorkerQueue\<close> against the tables, when the caches hold what the tables say and no
  statement fails: it declines exactly when no online, enabled worker of the runtime has a usable
  measurement on its current device set for an unchanged file, can reach the files, has the memory
  and owns a queue; otherwise it returns such a worker whose predicted completion time (in flight,
  queued, load and compute seconds) is minimal, the lowest worker id among ties, with the queued
  seconds the tail will carry; and it changes nothing but the caches, which stay correct.\<close>

theorem pickWorkerQueue_optimal:
  assumes co: "coherent s" and pl: "plain_devices s" and pick: "pickWorkerQueue env s = (res, s')"
  shows "(case res of
      None \<Rightarrow> \<forall>w \<in> set (WorkersForRuntime (env_runtime_name env) s). target_of env w s = None
    | Some (c, secs) \<Rightarrow> secs = queued_seconds env c s
        \<and> (\<exists>w \<in> set (WorkersForRuntime (env_runtime_name env) s). target_of env w s = Some c)
        \<and> (\<forall>w \<in> set (WorkersForRuntime (env_runtime_name env) s). \<forall>c'. target_of env w s = Some c'
             \<longrightarrow> score env c s \<le> score env c' s
               \<and> (score env c' s = score env c s \<longrightarrow> w_id (cd_worker c) \<le> w_id w)))
    \<and> caches_only s s' \<and> coherent s'"
proof -
  define ws where "ws = WorkersForRuntime (env_runtime_name env) s"
  have sorted_ws: "sorted (map w_id ws)" by (simp add: ws_def WorkersForRuntime_def)
  have plain_ws: "\<forall>w \<in> set ws. \<forall>d \<in> set (w_devices w). plain (dev_id d)"
    using pl by (auto simp: ws_def WorkersForRuntime_def plain_devices_def)
  obtain cs s1 where c: "collect_cands env ws s = (cs, s1)" by fastforce
  with collect_cands_spec [OF co plain_ws, of env]
  have 1: "cs = List.map_filter (\<lambda>w. target_of env w s) ws" "caches_only s s1" "coherent s1" by auto
  have p: "res = map_option (\<lambda>c. (c, queued_seconds env c s)) (choose_best env cs None s1)" "s' = s1"
    using pick c 1(1)
    by (auto simp: pickWorkerQueue_def ws_def [symmetric] map_filter_simps caches_only_queries [OF 1(2)]
        split: list.splits)
  have best: "choose_best env xs b s1 = choose_best env xs b s" for xs b
    by (induction xs arbitrary: b) (simp_all add: caches_only_queries [OF 1(2)] split: option.split)
  show ?thesis
  proof (cases cs)
    case Nil
    then have "target_of env w s = None" if "w \<in> set ws" for w
      using that 1(1) in_map_filter [of _ "\<lambda>w. target_of env w s" ws] by (cases "target_of env w s") auto
    with Nil p 1 show ?thesis by (simp add: ws_def)
  next
    case (Cons a cs')
    from choose_best_first [of env cs' a s] obtain b us vs where b0:
      "choose_best env cs' (Some a) s = Some b" "a # cs' = us @ b # vs" and
      min: "\<forall>u \<in> set us. score env b s < score env u s" "\<forall>v \<in> set vs. score env b s \<le> score env v s"
      by blast
    have "choose_best env cs None s = Some b" by (simp add: Cons b0(1))
    moreover have "cs = us @ b # vs" by (simp only: Cons b0(2))
    ultimately have b: "choose_best env cs None s = Some b" "cs = us @ b # vs"
      "\<forall>u \<in> set us. score env b s < score env u s" "\<forall>v \<in> set vs. score env b s \<le> score env v s"
      using min by blast+
    have srt: "sorted (map (\<lambda>c. w_id (cd_worker c)) cs)" using sorted_targets [OF sorted_ws] by (simp add: 1)
    have tie: "score env b s \<le> score env c' s
        \<and> (score env c' s = score env b s \<longrightarrow> w_id (cd_worker b) \<le> w_id (cd_worker c'))"
      if "c' \<in> set cs" for c'
      using that b(3,4) srt unfolding b(2) by (fastforce simp: sorted_append)
    have mem: "c' \<in> set cs \<and> cd_worker c' = w" if "w \<in> set ws" "target_of env w s = Some c'" for w c'
      using that target_worker by (auto simp: 1 in_map_filter)
    have "b \<in> set cs" by (simp add: b(2))
    then obtain w where w: "w \<in> set ws" "target_of env w s = Some b"
      by (auto simp: 1 in_map_filter)
    have "res = Some (b, queued_seconds env b s)" by (simp add: p best b(1))
    note res = this
    have opt: "score env b s \<le> score env c' s
        \<and> (score env c' s = score env b s \<longrightarrow> w_id (cd_worker b) \<le> w_id w)"
      if "w \<in> set ws" "target_of env w s = Some c'" for w c'
      using tie [of c'] mem [OF that] by blast
    have "\<exists>w \<in> set ws. target_of env w s = Some b" using w by blast
    then show ?thesis
      unfolding res ws_def [symmetric] p(2) using opt 1(2,3) by simp
  qed
qed

definition two_workers :: sched where
  "two_workers = (InitQueue (New sample_config (empty_database 0)))\<lparr>
     sc_fleet := \<lparr> fl_workers = [(''a'', gpu_worker), (''b'', gpu_worker\<lparr>w_id := ''b''\<rparr>)], fl_order = [''b'', ''a''] \<rparr>,
     sc_queues := [''worker|b'', ''worker|a''],
     sc_mirror := [(''worker|a'', \<lparr> ts_seconds = 100, ts_model = ''m'' \<rparr>)],
     model_benches := [((''a'', ''gpu0'', ''f.gguf''), bench_row), ((''b'', ''gpu0'', ''f.gguf''), bench_row)]\<rparr>"

lemmas two_workers_eval = two_workers_def InitQueue_def New_def database.extend_def empty_database_def
  gpu_worker_def NewStreamWorker_def

definition worker_b :: cand where
  "worker_b = \<lparr> cd_worker = gpu_worker\<lparr>w_id := ''b''\<rparr>, cd_queue = ''worker|b'', cd_row = bench_row, cd_load = 0 \<rparr>"

lemma target_b: "target_of sample_envelope (gpu_worker\<lparr>w_id := ''b''\<rparr>) two_workers = Some worker_b"
proof -
  have "predictDeviceSet (gpu_worker\<lparr>w_id := ''b''\<rparr>) two_workers = [''gpu0'']"
    "deviceSet (gpu_worker\<lparr>w_id := ''b''\<rparr>) two_workers = [''gpu0'']"
    by (simp_all add: two_workers_eval predictDeviceSet_def deviceSet_def enabled_of_def isDeviceEnabled_def)
  note sets = this
  have "measured_row sample_envelope (gpu_worker\<lparr>w_id := ''b''\<rparr>) two_workers = Some bench_row"
    unfolding measured_row_def sets
    by (simp add: two_workers_eval model_truth_def sample_envelope_def benchModelKey_def
        modelFileUnchanged_def bench_row_def zero_model_benchmark_def)
  moreover have "freeMemoryBytes (gpu_worker\<lparr>w_id := ''b''\<rparr>) two_workers = 2097152"
    unfolding freeMemoryBytes_def sets by (simp add: two_workers_eval getMemoryReservation_def)
  then have "eligibleWorker (gpu_worker\<lparr>w_id := ''b''\<rparr>) sample_envelope bench_row two_workers"
    by (simp add: eligibleWorker_def memoryEligible_def bench_row_def gpu_worker_def NewStreamWorker_def)
  moreover have "upload_rate (gpu_worker\<lparr>w_id := ''b''\<rparr>) two_workers = 0"
    unfolding upload_rate_def sets
    by (simp add: two_workers_eval bench_truth_def benchPresent_def zero_benchmark_def)
  ultimately show ?thesis
    by (simp add: target_of_def worker_b_def workerQueueName_def worker_prefix_def)
      (simp add: two_workers_eval)
qed

theorem pickWorkerQueue_optimal_witness:
  "\<exists>c secs s'. pickWorkerQueue sample_envelope two_workers = (Some (c, secs), s')
     \<and> score sample_envelope c two_workers \<le> score sample_envelope worker_b two_workers"
proof -
  have co: "coherent two_workers" by (simp add: coherent_def two_workers_eval)
  have pl: "plain_devices two_workers"
    by (simp add: plain_devices_def two_workers_eval All_workers_def map_filter_simps plain_def)
  obtain res s' where p: "pickWorkerQueue sample_envelope two_workers = (res, s')" by fastforce
  have b: "gpu_worker\<lparr>w_id := ''b''\<rparr> \<in> set (WorkersForRuntime (env_runtime_name sample_envelope) two_workers)"
    by (simp add: WorkersForRuntime_def two_workers_eval All_workers_def map_filter_simps isWorkerEnabled_def
        sample_envelope_def)
  note opt = pickWorkerQueue_optimal [OF co pl p]
  show ?thesis
  proof (cases res)
    case None
    with opt b target_b show ?thesis by auto
  next
    case (Some cs)
    obtain c secs where cs: "cs = (c, secs)" by fastforce
    with opt Some b target_b p show ?thesis by auto
  qed
qed

subsection \<open>A job is failed as unbenchable only when every eligible worker refused\<close>

definition refused :: "'f envelope \<Rightarrow> stream_worker \<Rightarrow> sched \<Rightarrow> bool" where
  "refused env w s \<longleftrightarrow> (\<exists>row.
     map_of (model_benches s) (w_id w, deviceSetKey (predictDeviceSet w s), benchModelKey (env_files env)) = Some row
     \<and> mb_error row \<noteq> '''' \<and> modelFileUnchanged row s)"

lemma refused_caches: "caches_only s s' \<Longrightarrow> refused env w s' = refused env w s"
  by (simp add: refused_def caches_only_queries caches_only_fields)

lemma conclusion_err:
  assumes "conclusion_loop k ws n err s = ((pending, e), s')" "\<not> pending" "n = 0 \<or> err \<noteq> ''''"
  shows "e \<noteq> ''''"
  using assms
proof (induction ws arbitrary: n err s)
  case (Cons w ws)
  show ?case
  proof (cases "predictDeviceSet w s = []")
    case True
    with Cons.prems have "conclusion_loop k ws n err s = ((pending, e), s')" by (simp add: Let_def)
    from Cons.IH [OF this Cons.prems(2,3)] show ?thesis .
  next
    case False
    obtain row ok s1 where "lookupModelBenchmark (w_id w) (deviceSetKey (predictDeviceSet w s)) k s
        = ((row, ok), s1)" by (metis prod.collapse)
    with Cons.prems(1,2) False have "mb_error row \<noteq> ''''"
      "conclusion_loop k ws (Suc n) (mb_error row) s1 = ((pending, e), s')"
      by (auto simp: Let_def split: if_splits)
    with Cons.IH [of "Suc n" "mb_error row" s1] Cons.prems(2) show ?thesis by simp
  qed
qed auto

lemma conclusion_loop_spec:
  assumes "coherent s" "\<forall>w \<in> set ws. \<forall>d \<in> set (w_devices w). plain (dev_id d)"
    and "conclusion_loop (benchModelKey (env_files env)) ws n err s = ((pending, err'), s')"
  shows "caches_only s s' \<and> coherent s'
    \<and> (\<not> pending \<longrightarrow> (n = 0 \<longrightarrow> (\<exists>w \<in> set ws. predictDeviceSet w s \<noteq> []))
         \<and> (\<forall>w \<in> set ws. predictDeviceSet w s \<noteq> [] \<longrightarrow> refused env w s))
    \<and> ((\<exists>w \<in> set ws. measured_row env w s \<noteq> None) \<longrightarrow> pending)"
  using assms
proof (induction ws arbitrary: n err s)
  case Nil
  then show ?case by auto
next
  case (Cons w ws)
  show ?case
  proof (cases "predictDeviceSet w s = []")
    case True
    then have none: "measured_row env w s = None" by (simp add: measured_row_def split: prod.splits)
    from True Cons.prems(3) have "conclusion_loop (benchModelKey (env_files env)) ws n err s = ((pending, err'), s')"
      by (simp add: Let_def)
    from Cons.IH [OF Cons.prems(1) _ this] Cons.prems(2) True none show ?thesis by simp
  next
    case False
    obtain row ok s1 where l: "lookupModelBenchmark (w_id w) (deviceSetKey (predictDeviceSet w s))
        (benchModelKey (env_files env)) s = ((row, ok), s1)" by (metis prod.collapse)
    have pl: "plain (deviceSetKey (predictDeviceSet w s))" using Cons.prems(2) by (intro plain_predict) simp
    from lookupModelBenchmark_spec [OF Cons.prems(1) pl, of "w_id w" "benchModelKey (env_files env)"] l
    have 1: "model_truth (w_id w) (deviceSetKey (predictDeviceSet w s)) (benchModelKey (env_files env)) s = (row, ok)"
      "caches_only s s1" "coherent s1" by auto
    note q = caches_only_queries [OF 1(2)] refused_caches [OF 1(2)] target_caches [OF 1(2)]
    show ?thesis
    proof (cases "\<not> (ok \<and> modelFileUnchanged row s) \<and> mb_error row \<noteq> '''' \<and> modelFileUnchanged row s")
      case True
      then have ref: "refused env w s" "measured_row env w s = None"
        using 1(1) by (auto simp: refused_def measured_row_def model_truth_def zero_model_benchmark_def split: option.splits)
      have "conclusion_loop (benchModelKey (env_files env)) ws (Suc n) (mb_error row) s1 = ((pending, err'), s')"
        using Cons.prems(3) False l True by (simp add: q Let_def split: if_splits)
      from Cons.IH [OF 1(3) _ this] Cons.prems(2) have ih: "caches_only s1 s'" "coherent s'"
        "\<not> pending \<longrightarrow> (\<forall>w \<in> set ws. predictDeviceSet w s \<noteq> [] \<longrightarrow> refused env w s)"
        "(\<exists>w \<in> set ws. measured_row env w s \<noteq> None) \<longrightarrow> pending"
        by (simp_all add: q)
      from ih(1) have "caches_only s s'" by (rule caches_only_trans [OF 1(2)])
      with ih(2-4) ref False show ?thesis by simp
    next
      case other: False
      then have "pending" "s' = s1"
        using Cons.prems(3) False l by (auto simp: q Let_def split: if_splits)
      with 1 show ?thesis by simp
    qed
  qed
qed

text \<open>C24. A job is declared unrunnable only on evidence: when \<open>modelBenchConclusion\<close> stops waiting,
  at least one online enabled worker of the runtime has a usable device set, every such worker has a
  recorded incapable verdict for exactly this model on exactly its current device set and an
  unchanged file, and the verdict is not empty; while any worker could run the job it keeps waiting.\<close>

theorem unbenchable_only_when_all_refused:
  assumes "coherent s" "plain_devices s" "modelBenchConclusion env s = ((pending, errText), s')"
  shows "(\<not> pending \<longrightarrow> errText \<noteq> ''''
        \<and> (\<exists>w \<in> set (WorkersForRuntime (env_runtime_name env) s). predictDeviceSet w s \<noteq> [])
        \<and> (\<forall>w \<in> set (WorkersForRuntime (env_runtime_name env) s).
             predictDeviceSet w s \<noteq> [] \<longrightarrow> refused env w s))
    \<and> ((\<exists>w \<in> set (WorkersForRuntime (env_runtime_name env) s). measured_row env w s \<noteq> None) \<longrightarrow> pending)
    \<and> caches_only s s' \<and> coherent s'"
proof (cases "benchModelKey (env_files env) = ''''")
  case True
  with assms show ?thesis by (auto simp: modelBenchConclusion_def)
next
  case False
  have plain_ws: "\<forall>w \<in> set (WorkersForRuntime (env_runtime_name env) s). \<forall>d \<in> set (w_devices w). plain (dev_id d)"
    using assms(2) by (auto simp: WorkersForRuntime_def plain_devices_def)
  from False assms(3) have loop: "conclusion_loop (benchModelKey (env_files env))
      (WorkersForRuntime (env_runtime_name env) s) 0 '''' s = ((pending, errText), s')"
    by (simp add: modelBenchConclusion_def)
  note spec = conclusion_loop_spec [OF assms(1) plain_ws loop]
  have "errText \<noteq> ''''" if "\<not> pending"
    using conclusion_err [OF loop that] by simp
  with spec show ?thesis by simp
qed

definition refused_sched :: sched where
  "refused_sched = two_workers\<lparr>model_benches :=
     [((''a'', ''gpu0'', ''f.gguf''), bench_row\<lparr>mb_error := ''out of memory''\<rparr>),
      ((''b'', ''gpu0'', ''f.gguf''), bench_row\<lparr>mb_error := ''unsupported''\<rparr>)]\<rparr>"

theorem unbenchable_only_when_all_refused_witness:
  "\<exists>s'. modelBenchConclusion sample_envelope refused_sched = ((False, ''unsupported''), s')
     \<and> refused sample_envelope gpu_worker refused_sched"
proof -
  have co: "coherent refused_sched" by (simp add: coherent_def refused_sched_def two_workers_eval)
  have pl: "plain_devices refused_sched"
    by (simp add: plain_devices_def refused_sched_def two_workers_eval All_workers_def map_filter_simps plain_def)
  have ws: "WorkersForRuntime ''rt'' refused_sched = [gpu_worker, gpu_worker\<lparr>w_id := ''b''\<rparr>]"
    by (simp add: WorkersForRuntime_def refused_sched_def two_workers_eval All_workers_def map_filter_simps
        isWorkerEnabled_def)
  have ds: "predictDeviceSet w (s\<lparr>sc_model_cache := c\<rparr>) = predictDeviceSet w s"
    "predictDeviceSet w (s\<lparr>state_faults := f\<rparr>) = predictDeviceSet w s" for w s c f
    by (simp_all add: predictDeviceSet_def enabled_of_def isDeviceEnabled_def)
  have sets: "predictDeviceSet gpu_worker refused_sched = [''gpu0'']"
    "predictDeviceSet (gpu_worker\<lparr>w_id := ''b''\<rparr>) refused_sched = [''gpu0'']"
    by (simp_all add: refused_sched_def two_workers_eval predictDeviceSet_def enabled_of_def isDeviceEnabled_def)
  have ids: "w_id gpu_worker = ''a''" by (simp add: gpu_worker_def NewStreamWorker_def)
  have init: "state_faults refused_sched = []" "sc_model_cache refused_sched = []" "sc_initialised refused_sched"
    "sc_models_dir refused_sched = ''''" "model_benches refused_sched =
      [((''a'', ''gpu0'', ''f.gguf''), bench_row\<lparr>mb_error := ''out of memory''\<rparr>),
       ((''b'', ''gpu0'', ''f.gguf''), bench_row\<lparr>mb_error := ''unsupported''\<rparr>)]"
    by (simp_all add: refused_sched_def two_workers_eval)
  have env: "env_runtime_name sample_envelope = ''rt''" "benchModelKey (env_files sample_envelope) = ''f.gguf''"
    by (simp_all add: sample_envelope_def benchModelKey_def)
  obtain s' where r: "modelBenchConclusion sample_envelope refused_sched = ((False, ''unsupported''), s')"
    by (simp add: modelBenchConclusion_def env ws Let_def sets ds ids lookupModelBenchmark_def GetModelBenchmark_def
        stx_def init cache_key_def modelFileUnchanged_def)
  from unbenchable_only_when_all_refused [OF co pl r] r show ?thesis
    by (simp add: env ws sets)
qed

end
