(* ===== verification/Safety.thy ===== *)
theory Safety
  imports Placement
begin

text \<open>
  What every handler of the scheduler maintains between the queues, the results and the replay
  buffers, and how each elementary operation maintains it:

  \<^item> a job whose result is not terminal is kept: its global anchor is there, and either ready to be
    placed or backed by a row on a worker queue;
  \<^item> a worker row names the anchor of its own job and no other;
  \<^item> a replay buffer shows a terminal frame only after the durable result is terminal.

  The result store does not fail here (\<open>result_faults = []\<close>); the queue and the state store may fail
  at any statement. \<open>X\<close> is a set of requests the caller accounts for separately.
\<close>

subsection \<open>The invariant\<close>

fun body_rid :: "body \<Rightarrow> request_id option" where
  "body_rid (Encoded e) = Some (env_request_id e)"
| "body_rid (Garbage err) = None"

definition named :: "'a database_scheme \<Rightarrow> bool" where
  "named d \<longleftrightarrow> (\<forall>r \<in> set (rows d). body_rid (row_body r) \<noteq> Some '''')"

definition backed :: "request_id \<Rightarrow> row list \<Rightarrow> bool" where
  "backed i rs \<longleftrightarrow> (\<exists>a \<in> set rs. is_anchor i a \<and> (row_received a = 0
     \<or> (\<exists>w \<in> set rs. row_queue w \<noteq> GlobalQueueName \<and> body_gmid (row_body w) = row_id a \<and> job_id w = i)))"

definition durable :: "sched \<Rightarrow> bool" where
  "durable s \<longleftrightarrow> (\<forall>(i, b) \<in> set (sc_buffers s). b < length (sc_heap s) \<and> fst (sc_heap s ! b) = i)
     \<and> (\<forall>(i, jb) \<in> set (sc_heap s). jb_terminal jb \<longrightarrow> \<not> live i s)"

definition safe :: "request_id set \<Rightarrow> sched \<Rightarrow> bool" where
  "safe X s \<longleftrightarrow> database_ok s \<and> linked s \<and> named s \<and> result_faults s = [] \<and> sc_initialised s
     \<and> (\<forall>i. live i s \<and> i \<notin> X \<longrightarrow> backed i (rows s)) \<and> durable s"

text \<open>How states evolve: rows with known ids keep their queue, job and anchor; buffers keep their
  owner; and no result comes (back) to life.\<close>

definition from_row :: "row \<Rightarrow> row \<Rightarrow> bool" where
  "from_row r r' \<longleftrightarrow> row_id r = row_id r' \<and> row_queue r = row_queue r' \<and> job_id r = job_id r'
     \<and> body_gmid (row_body r) = body_gmid (row_body r') \<and> body_rid (row_body r) = body_rid (row_body r')"

lemma from_row_refl [simp]: "from_row r r" by (simp add: from_row_def)

lemma from_row_trans: "from_row a b \<Longrightarrow> from_row b c \<Longrightarrow> from_row a c"
  unfolding from_row_def by metis

text \<open>The worker queues are never called like the global one.\<close>

definition proper :: "sched \<Rightarrow> bool" where
  "proper s \<longleftrightarrow> GlobalQueueName \<notin> set (sc_queues s) \<and> GlobalQueueName \<notin> set (keys (tails s))"

definition extends :: "sched \<Rightarrow> sched \<Rightarrow> bool" where
  "extends s s' \<longleftrightarrow> id_supply s' = id_supply s \<and> drawn s \<subseteq> drawn s' \<and> (proper s \<longrightarrow> proper s')
     \<and> (\<forall>r' \<in> set (rows s'). row_id r' \<in> drawn s \<longrightarrow> (\<exists>r \<in> set (rows s). from_row r r'))
     \<and> length (sc_heap s) \<le> length (sc_heap s')
     \<and> (\<forall>b < length (sc_heap s). fst (sc_heap s' ! b) = fst (sc_heap s ! b))"

definition evolves :: "sched \<Rightarrow> sched \<Rightarrow> bool" where
  "evolves s s' \<longleftrightarrow> extends s s' \<and> (\<forall>i. live i s' \<longrightarrow> live i s)"

text \<open>The row of a queue under an id, if there is one, is a row of job \<open>j\<close>; \<open>names\<close> says which anchor
  it carries.\<close>

definition owned :: "request_id \<Rightarrow> queue_name \<Rightarrow> message_id \<Rightarrow> sched \<Rightarrow> bool" where
  "owned j q i s \<longleftrightarrow> i \<in> insert [] (drawn s) \<and> (\<forall>r \<in> set (rows s). is_row q i r \<longrightarrow> job_id r = j)"

definition names :: "message_id \<Rightarrow> queue_name \<Rightarrow> message_id \<Rightarrow> sched \<Rightarrow> bool" where
  "names g q i s \<longleftrightarrow> i \<in> insert [] (drawn s)
     \<and> (\<forall>r \<in> set (rows s). is_row q i r \<longrightarrow> body_gmid (row_body r) = g)"

lemma row_kept: "r \<in> set rs \<Longrightarrow> \<exists>r0 \<in> set rs. from_row r0 r"
  by (rule bexI [of _ r]) simp_all

lemma extends_refl [simp]: "extends s s" by (auto simp: extends_def row_kept)

lemma extends_trans: assumes "extends a b" "extends b c" shows "extends a c"
  unfolding extends_def
proof (intro conjI ballI impI allI)
  show "id_supply c = id_supply a" "drawn a \<subseteq> drawn c" "proper a \<Longrightarrow> proper c"
    using assms by (auto simp: extends_def)
  show "length (sc_heap a) \<le> length (sc_heap c)" using assms by (auto simp: extends_def)
  show "fst (sc_heap c ! k) = fst (sc_heap a ! k)" if "k < length (sc_heap a)" for k
    using assms that by (simp add: extends_def)
  fix r assume r: "r \<in> set (rows c)" "row_id r \<in> drawn a"
  then have "row_id r \<in> drawn b" using assms(1) by (auto simp: extends_def)
  with assms(2) r obtain r1 where r1: "r1 \<in> set (rows b)" "from_row r1 r" by (auto simp: extends_def)
  with r have "row_id r1 \<in> drawn a" by (simp add: from_row_def)
  with assms(1) r1(1) obtain r0 where "r0 \<in> set (rows a)" "from_row r0 r1" by (auto simp: extends_def)
  with r1 show "\<exists>r0 \<in> set (rows a). from_row r0 r" using from_row_trans by blast
qed

lemma evolves_refl [simp]: "evolves s s" by (simp add: evolves_def)

lemma evolves_trans [trans]: "evolves a b \<Longrightarrow> evolves b c \<Longrightarrow> evolves a c"
  unfolding evolves_def using extends_trans by blast

lemma known_row:
  assumes "extends s s'" "database_ok s'" "i \<in> insert [] (drawn s)" "r \<in> set (rows s')" "is_row q i r"
  obtains r0 where "r0 \<in> set (rows s)" "is_row q i r0" "from_row r0 r"
proof -
  have "row_id r \<in> drawn s'" "row_id r \<noteq> []"
    using assms(2,4) by (auto simp: database_ok_def drawn_def)
  with assms(3,5) have "row_id r \<in> drawn s" by (auto simp: is_row_def)
  with assms(1,4) obtain r0 where "r0 \<in> set (rows s)" "from_row r0 r" by (auto simp: extends_def)
  with assms(5) that show ?thesis by (auto simp: is_row_def from_row_def)
qed

lemma owned_extends:
  assumes "owned j q i s" "extends s s'" "database_ok s'"
  shows "owned j q i s'"
proof -
  have i: "i \<in> insert [] (drawn s)" using assms(1) by (simp add: owned_def)
  have "job_id r = j" if "r \<in> set (rows s')" "is_row q i r" for r
    using known_row [OF assms(2,3) i that] assms(1) by (metis from_row_def owned_def)
  with i assms(2) show ?thesis by (auto simp: owned_def extends_def)
qed

lemma names_extends:
  assumes "names g q i s" "extends s s'" "database_ok s'"
  shows "names g q i s'"
proof -
  have i: "i \<in> insert [] (drawn s)" using assms(1) by (simp add: names_def)
  have "body_gmid (row_body r) = g" if "r \<in> set (rows s')" "is_row q i r" for r
    using known_row [OF assms(2,3) i that] assms(1) by (metis from_row_def names_def)
  with i assms(2) show ?thesis by (auto simp: names_def extends_def)
qed

lemma safeD:
  assumes "safe X s"
  shows "database_ok s" "linked s" "named s" "result_faults s = []" "sc_initialised s" "durable s"
    "live i s \<Longrightarrow> i \<notin> X \<Longrightarrow> backed i (rows s)"
  using assms by (auto simp: safe_def)

lemma row_ids:
  assumes "database_ok d" "r \<in> set (rows d)"
  shows "row_id r \<noteq> []" "row_id r \<in> drawn d"
  using assms by (auto simp: database_ok_def drawn_def)

lemma job_id_rid: "job_id r = (case body_rid (row_body r) of
    None \<Rightarrow> row_id r | Some i \<Rightarrow> if i \<noteq> '''' then i else row_id r)"
  by (cases "row_body r") (simp_all add: job_id_def reap_request_def message_of_def)

lemma job_id_named: "named d \<Longrightarrow> r \<in> set (rows d) \<Longrightarrow> row_body r = Encoded e \<Longrightarrow> job_id r = env_request_id e"
  by (force simp: named_def job_id_rid)

subsection \<open>Operations that leave the jobs alone\<close>

definition core_same :: "sched \<Rightarrow> sched \<Rightarrow> bool" where
  "core_same s s' \<longleftrightarrow> rows s' = rows s \<and> results s' = results s \<and> id_supply s' = id_supply s
     \<and> next_id s' = next_id s \<and> driver s' = driver s \<and> result_faults s' = result_faults s
     \<and> sc_initialised s' = sc_initialised s \<and> sc_buffers s' = sc_buffers s \<and> sc_heap s' = sc_heap s
     \<and> (distinct (keys (tails s)) \<longrightarrow> distinct (keys (tails s'))) \<and> (proper s \<longrightarrow> proper s')"

lemma core_same_refl [simp]: "core_same s s" by (simp add: core_same_def)

lemma core_same_trans [trans]: "core_same a b \<Longrightarrow> core_same b c \<Longrightarrow> core_same a c"
  by (auto simp: core_same_def)

lemma core_safe:
  assumes "core_same s s'" "safe X s"
  shows "safe X s'" "evolves s s'"
proof -
  have l: "live i s' = live i s" for i using assms(1) by (simp add: core_same_def live_def status_of_def)
  have d: "drawn s' = drawn s" using assms(1) by (simp add: core_same_def drawn_def)
  from assms l d show "safe X s'"
    by (simp add: safe_def core_same_def database_ok_def linked_def named_def durable_def)
  from assms(1) l d show "evolves s s'" by (auto simp: evolves_def extends_def core_same_def row_kept)
qed

lemma state_frame_core:
  fixes s s' :: sched
  assumes "state_frame s s'" "GlobalQueueName \<notin> set (keys (tails s)) \<Longrightarrow> GlobalQueueName \<notin> set (keys (tails s'))"
  shows "core_same s s'"
  using assms sched_of_more [of s' s] by (simp add: state_frame_def core_same_def proper_def)

lemma caches_only_core: "caches_only s s' \<Longrightarrow> core_same s s'"
  by (simp add: core_same_def caches_only_fields proper_def)

lemma with_store_core:
  assumes "\<And>d. state_frame d (snd (f d))"
    and "\<And>d. GlobalQueueName \<notin> set (keys (tails d)) \<Longrightarrow> GlobalQueueName \<notin> set (keys (tails (snd (f d))))"
  shows "core_same s (with_store f s)"
  using assms by (auto simp: with_store_def intro: state_frame_core)

lemma update_tail_keys: "keys (tails (snd (update_tail q u d))) = keys (tails d)"
  by (auto simp: update_tail_def stx_def Let_def AList.update_keys map_of_eq_None_iff
      split: option.split dest: map_of_SomeD)
    (metis map_of_eq_None_iff option.distinct(1) set_map)

text \<open>Statements on the tail table add at most the queue they name.\<close>

lemma tail_statement_keys:
  "keys (tails (snd (AddTailSecondsAndSetModel q x m d))) = keys (tails d)"
  "keys (tails (snd (AddTailSeconds q x d))) = keys (tails d)"
  "keys (tails (snd (SetTailSeconds q x m d))) = keys (tails d)"
  "set (keys (tails (snd (UpsertWorkerQueueState q st d)))) \<subseteq> insert q (set (keys (tails d)))"
  "set (keys (tails (snd (DeleteWorkerQueueState q d)))) \<subseteq> set (keys (tails d))"
  unfolding AddTailSecondsAndSetModel_def AddTailSeconds_def SetTailSeconds_def Let_def
  by (simp_all only: update_tail_keys if_distrib)
    (auto simp: UpsertWorkerQueueState_def DeleteWorkerQueueState_def stx_def Let_def
      AList.update_keys AList.delete_keys split: option.splits simp del: set_map)

lemma bookkeeping_core [simp]:
  "core_same s (kick s)" "core_same s (emit e s)" "core_same s (broadcastQueueChange s)"
  "core_same s (update_mirror q f s)" "core_same s (finishInflight rid s)"
  "core_same s (snd (startInflight q rid m rt secs res s))" "core_same s (attachWorkerJobID rid job s)"
  "core_same s (snd (markInflightCancelled rid s))" "core_same s (markDispatching rid s)"
  "core_same s (clearDispatching rid s)" "core_same s (snd (requestCancelDuringDispatch rid s))"
  "core_same s (snd (tryMarkDraining q s))" "core_same s (snd (finishDraining q s))"
  "core_same s (InvalidateBench w i s)" "core_same s (InvalidateWorkerBench w s)"
  "core_same s (InvalidateModelBenchmarks w s)"
  by (auto simp: core_same_def proper_def kick_def emit_def broadcastQueueChange_def update_mirror_def
      finishInflight_def startInflight_def attachWorkerJobID_def markInflightCancelled_def
      update_inflight_def markDispatching_def clearDispatching_def requestCancelDuringDispatch_def
      tryMarkDraining_def finishDraining_def InvalidateBench_def InvalidateWorkerBench_def
      InvalidateModelBenchmarks_def Let_def split: option.split)

lemma tail_ops_core [simp]:
  "core_same s (creditTail q x m s)" "core_same s (debitTail q x s)" "core_same s (replaceTail q x m s)"
  "q \<noteq> GlobalQueueName \<Longrightarrow> core_same s (openTail q w ds s)" "core_same s (closeTail q s)"
proof -
  note w = with_store_core [OF state_op_frame(6)] with_store_core [OF state_op_frame(5)]
    with_store_core [OF state_op_frame(7)] with_store_core [OF state_op_frame(1)]
    with_store_core [OF state_op_frame(4)]
  have 1: "core_same s0 (with_store (AddTailSecondsAndSetModel q x m) s0)"
    "core_same s0 (with_store (AddTailSeconds q y) s0)" "core_same s0 (with_store (SetTailSeconds q x m) s0)"
    "core_same s0 (with_store (DeleteWorkerQueueState q) s0)" for s0 y
    by (rule w, (metis tail_statement_keys(1-3) | use tail_statement_keys(5) in blast))+
  have 2: "core_same s0 (with_store (UpsertWorkerQueueState q st) s0)" if "q \<noteq> GlobalQueueName" for s0 st
    by (intro w) (use tail_statement_keys(4) that in blast)
  show "core_same s (creditTail q x m s)" "core_same s (debitTail q x s)" "core_same s (replaceTail q x m s)"
    unfolding creditTail_def debitTail_def replaceTail_def
    by (rule core_same_trans [OF _ 1(1)] core_same_trans [OF _ 1(2)] core_same_trans [OF _ 1(3)], simp)+
  show "q \<noteq> GlobalQueueName \<Longrightarrow> core_same s (openTail q w ds s)" unfolding openTail_def
    by (rule core_same_trans [OF _ 2]) (simp_all add: core_same_def proper_def)
  show "core_same s (closeTail q s)" unfolding closeTail_def
    by (rule core_same_trans [OF _ 1(4)]) (simp add: core_same_def broadcastQueueChange_def emit_def proper_def)
qed

text \<open>Lookups change only the caches, whether or not statements fail.\<close>

lemma stx_get_frame:
  "snd (GetBenchmark w i s) = s\<lparr>state_faults := tl (state_faults s)\<rparr>"
  "snd (GetModelBenchmark w ds m s) = s\<lparr>state_faults := tl (state_faults s)\<rparr>"
  by (simp_all add: GetBenchmark_def GetModelBenchmark_def stx_def Let_def split: option.split)

lemma getBenchmark_caches [simp]: "caches_only s (snd (getBenchmark w i s))"
proof -
  obtain r s1 where g: "GetBenchmark w i s = (r, s1)" by fastforce
  then have "s1 = s\<lparr>state_faults := tl (state_faults s)\<rparr>" using stx_get_frame(1) [of w i s] by simp
  with g show ?thesis by (auto simp: getBenchmark_def caches_only_def split: option.split sum.split)
qed

lemma lookupModelBenchmark_caches [simp]: "caches_only s (snd (lookupModelBenchmark w ds m s))"
proof -
  obtain r s1 where g: "GetModelBenchmark w ds m s = (r, s1)" by fastforce
  then have "s1 = s\<lparr>state_faults := tl (state_faults s)\<rparr>" using stx_get_frame(2) [of w ds m s] by simp
  with g show ?thesis by (auto simp: lookupModelBenchmark_def caches_only_def Let_def split: option.split sum.split)
qed

lemma modelBenchmark_caches [simp]: "caches_only s (snd (modelBenchmark w env s))"
proof -
  obtain e s1 where l: "lookupModelBenchmark (w_id w) (deviceSetKey (predictDeviceSet w s))
      (benchModelKey (env_files env)) s = (e, s1)" by fastforce
  then have "caches_only s s1" by (metis lookupModelBenchmark_caches snd_conv)
  with l show ?thesis by (simp add: modelBenchmark_def Let_def split: prod.split)
qed

lemma bench_some_caches [simp]: "caches_only s (snd (bench_some w is s))"
proof (induction "is" arbitrary: s)
  case (Cons i "is")
  obtain r ok s1 where g: "getBenchmark w i s = ((r, ok), s1)" by (metis prod.collapse)
  then have "caches_only s s1" by (metis getBenchmark_caches snd_conv)
  with g Cons [of s1] Cons [of s] show ?case by (auto intro: caches_only_trans split: bool.split)
qed simp

lemma sum_load_gbs_caches [simp]: "caches_only s (snd (sum_load_gbs w is acc s))"
proof (induction "is" arbitrary: acc s)
  case (Cons i "is")
  obtain r ok s1 where g: "getBenchmark w i s = ((r, ok), s1)" by (metis prod.collapse)
  then have "caches_only s s1" by (metis getBenchmark_caches snd_conv)
  with g Cons [of s1] show ?case by (auto intro: caches_only_trans)
qed simp

lemma effectiveLoadThroughput_caches [simp]: "caches_only s (snd (effectiveLoadThroughput w s))"
proof -
  obtain g s1 where l: "sum_load_gbs (w_id w) (deviceSet w s) 0 s = (g, s1)" by fastforce
  then have "caches_only s s1" by (metis sum_load_gbs_caches snd_conv)
  with l show ?thesis by (simp add: effectiveLoadThroughput_def)
qed

lemma workerIsSchedulable_caches [simp]: "caches_only s (snd (workerIsSchedulable w s))"
  by (simp add: workerIsSchedulable_def)

lemma collect_cands_caches [simp]: "caches_only s (snd (collect_cands env ws s))"
proof (induction ws arbitrary: s)
  case (Cons w ws)
  obtain r s1 where m: "modelBenchmark w env s = (r, s1)" by fastforce
  then have 1: "caches_only s s1" by (metis modelBenchmark_caches snd_conv)
  obtain rate s2 where e: "effectiveLoadThroughput w s1 = (rate, s2)" by fastforce
  then have 2: "caches_only s1 s2" by (metis effectiveLoadThroughput_caches snd_conv)
  obtain cs s3 where c: "collect_cands env ws s2 = (cs, s3)" by fastforce
  with Cons [of s2] have 3: "caches_only s2 s3" by simp
  from m e c Cons [of s1] caches_only_trans [OF 1] caches_only_trans [OF 1 caches_only_trans [OF 2 3]]
  show ?case by (auto split: option.split)
qed simp

lemma pickWorkerQueue_caches [simp]: "caches_only s (snd (pickWorkerQueue env s))"
proof -
  obtain cs s1 where c: "collect_cands env (WorkersForRuntime (env_runtime_name env) s) s = (cs, s1)" by fastforce
  then have "caches_only s s1" by (metis collect_cands_caches snd_conv)
  with c show ?thesis by (auto simp: pickWorkerQueue_def split: list.split)
qed

lemma conclusion_loop_caches [simp]: "caches_only s (snd (conclusion_loop k ws n err s))"
proof (induction ws arbitrary: n err s)
  case (Cons w ws)
  obtain r ok s1 where l: "lookupModelBenchmark (w_id w) (deviceSetKey (predictDeviceSet w s)) k s = ((r, ok), s1)"
    by (metis prod.collapse)
  then have "caches_only s s1" by (metis lookupModelBenchmark_caches snd_conv)
  with l Cons show ?case by (auto simp: Let_def intro: caches_only_trans)
qed simp

lemma modelBenchConclusion_caches [simp]: "caches_only s (snd (modelBenchConclusion env s))"
  by (simp add: modelBenchConclusion_def Let_def)

lemma predictedQueuedSeconds_caches [simp]: "caches_only s (snd (predictedQueuedSeconds w env r m s))"
proof -
  obtain e s1 where l: "modelBenchmark w env s = (e, s1)" by fastforce
  then have "caches_only s s1" by (metis modelBenchmark_caches snd_conv)
  with l show ?thesis by (simp add: predictedQueuedSeconds_def Let_def split: option.split)
qed

subsection \<open>Operations on the rows\<close>

definition derived :: "row list \<Rightarrow> row list \<Rightarrow> bool" where
  "derived rs rs' \<longleftrightarrow> distinct (map row_id rs') \<and> (\<forall>r' \<in> set rs'. \<exists>r \<in> set rs. from_row r r')"

lemma derived_filter: "distinct (map row_id rs) \<Longrightarrow> derived rs (filter P rs)"
  by (auto simp: derived_def distinct_map_filter row_kept)

lemma derived_update:
  assumes "distinct (map row_id rs)" "\<And>r. r \<in> set rs \<Longrightarrow> c r \<Longrightarrow> from_row r (u r)"
  shows "derived rs (update_where c u rs)"
proof -
  have "row_id (if c r then u r else r) = row_id r" if "r \<in> set rs" for r
    using assms(2) [OF that] by (auto simp: from_row_def)
  then have "map row_id (update_where c u rs) = map row_id rs"
    by (simp add: update_where_def)
  moreover have "\<exists>r \<in> set rs. from_row r r'" if "r' \<in> set (update_where c u rs)" for r'
    using that assms(2) from_row_refl unfolding set_update_where by blast
  ultimately show ?thesis using assms(1) by (simp add: derived_def)
qed

lemma derived_trans: "derived a b \<Longrightarrow> derived b c \<Longrightarrow> derived a c"
  unfolding derived_def using from_row_trans by meson

lemma from_row_meta: "row_id r' = row_id r \<Longrightarrow> row_queue r' = row_queue r \<Longrightarrow> row_body r' = row_body r
    \<Longrightarrow> from_row r r'"
  by (auto simp: from_row_def job_id_def reap_request_def message_of_def)

lemma queue_frame_fields:
  fixes s s' :: sched
  assumes "queue_frame s s'"
  shows "results s' = results s" "result_faults s' = result_faults s" "tails s' = tails s"
    "id_supply s' = id_supply s" "driver s' = driver s" "sc_initialised s' = sc_initialised s"
    "sc_buffers s' = sc_buffers s" "sc_heap s' = sc_heap s" "proper s' = proper s"
  using assms sched_of_more [of s' s] by (simp_all add: queue_frame_def proper_def)

lemma live_queue_frame: "queue_frame d d' \<Longrightarrow> live i d' = live i d"
  by (simp add: live_def status_of_def queue_frame_def)

lemma durable_queue_frame: "queue_frame s s' \<Longrightarrow> durable s' = durable s"
  by (simp add: durable_def queue_frame_fields live_queue_frame)

lemma linked_derived:
  assumes "linked d" "derived (rows d) (rows d')"
  shows "linked d'"
  unfolding linked_def
proof (intro ballI impI)
  fix w a assume wa: "w \<in> set (rows d')" "row_queue w \<noteq> GlobalQueueName" "a \<in> set (rows d')"
    "is_row GlobalQueueName (body_gmid (row_body w)) a"
  with assms(2) obtain w0 a0 where "w0 \<in> set (rows d)" "from_row w0 w" "a0 \<in> set (rows d)" "from_row a0 a"
    unfolding derived_def by meson
  with assms(1) wa show "job_id a = job_id w"
    unfolding linked_def is_row_def from_row_def by metis
qed

lemma named_derived: "named d \<Longrightarrow> derived (rows d) (rows d') \<Longrightarrow> named d'"
  unfolding named_def derived_def from_row_def by metis

text \<open>An operation that only removes or rewrites rows.\<close>

lemma safe_derived:
  assumes safe: "safe X s" and f: "queue_frame s s'" and der: "derived (rows s) (rows s')"
    and keep: "\<And>i. live i s \<Longrightarrow> i \<notin> X \<Longrightarrow> backed i (rows s) \<Longrightarrow> backed i (rows s')"
  shows "safe X s' \<and> evolves s s'"
proof -
  have ok: "database_ok s'"
  proof (rule database_okI [OF safeD(1) [OF safe] f])
    show "distinct (map row_id (rows s'))" using der by (simp add: derived_def)
    fix r' assume "r' \<in> set (rows s')"
    with der obtain r where r: "r \<in> set (rows s)" "from_row r r'" by (auto simp: derived_def)
    then have "row_id r \<in> drawn s" "body_gmid (row_body r) \<in> insert [] (drawn s)"
      using safeD(1) [OF safe] by (auto simp: database_ok_def)
    with r(2) drawn_mono [OF f]
    show "row_id r' \<in> drawn s' \<and> body_gmid (row_body r') \<in> insert [] (drawn s')"
      unfolding from_row_def by auto
  qed
  have "backed i (rows s')" if "live i s'" "i \<notin> X" for i
    using that safeD(7) [OF safe, of i] keep [of i] by (simp add: live_queue_frame [OF f])
  with ok safe linked_derived [OF safeD(2) [OF safe] der] named_derived [OF safeD(3) [OF safe] der]
  have "safe X s'"
    by (simp add: safe_def queue_frame_fields [OF f] durable_queue_frame [OF f] live_queue_frame [OF f])
  moreover have "extends s s'"
    using der drawn_mono [OF f] by (auto simp: extends_def derived_def queue_frame_fields [OF f])
  ultimately show ?thesis by (simp add: evolves_def live_queue_frame [OF f])
qed

text \<open>An operation that also inserts one row under a fresh id.\<close>

lemma safe_inserted:
  assumes safe: "safe X s" and f: "queue_frame s s'" and n: "next_id s' = Suc (next_id s)"
    and rs': "rows s' = rs @ [new_row t (fresh_id s) q b p]" and der: "derived (rows s) rs"
    and named: "body_rid b \<noteq> Some ''''"
    and g: "body_gmid b \<in> insert [] (drawn s)"
    and link: "\<And>a. q \<noteq> GlobalQueueName \<Longrightarrow> a \<in> set rs \<Longrightarrow> is_row GlobalQueueName (body_gmid b) a
        \<Longrightarrow> job_id a = job_id (new_row t (fresh_id s) q b p)"
    and keep: "\<And>i. live i s \<Longrightarrow> i \<notin> X \<Longrightarrow> backed i (rows s) \<Longrightarrow> backed i (rows s')"
  shows "safe X s' \<and> evolves s s'"
proof -
  let ?n = "new_row t (fresh_id s) q b p"
  have dr: "drawn s' = insert (fresh_id s) (drawn s)"
    using n f by (auto simp: drawn_def fresh_id_def queue_frame_def lessThan_Suc)
  have orig: "\<exists>r \<in> set (rows s). from_row r r'" if "r' \<in> set rs" for r'
    using that der by (auto simp: derived_def)
  have fresh: "fresh_id s \<notin> drawn s"
    using safeD(1) [OF safe] by (simp add: database_ok_def fresh_id_not_drawn)
  have old: "row_id r' \<in> drawn s \<and> body_gmid (row_body r') \<in> insert [] (drawn s)" if mem: "r' \<in> set rs" for r'
  proof -
    obtain r where r: "r \<in> set (rows s)" "from_row r r'" using orig [OF mem] by blast
    then have "row_id r \<in> drawn s" "body_gmid (row_body r) \<in> insert [] (drawn s)"
      using safeD(1) [OF safe] by (auto simp: database_ok_def)
    with r(2) show ?thesis unfolding from_row_def by auto
  qed
  have gn: "body_gmid (row_body ?n) = body_gmid b" by simp
  have ok: "database_ok s'"
  proof (rule database_okI [OF safeD(1) [OF safe] f])
    show "distinct (map row_id (rows s'))"
      using der old fresh by (auto simp: rs' derived_def)
    fix r' assume "r' \<in> set (rows s')"
    with old g show "row_id r' \<in> drawn s' \<and> body_gmid (row_body r') \<in> insert [] (drawn s')"
      by (auto simp: rs' dr)
  qed
  have "linked s'"
    unfolding linked_def
  proof (intro ballI impI)
    fix w a assume wa: "w \<in> set (rows s')" "row_queue w \<noteq> GlobalQueueName" "a \<in> set (rows s')"
      "is_row GlobalQueueName (body_gmid (row_body w)) a"
    show "job_id a = job_id w"
    proof (cases "a = ?n")
      case True
      with wa(4) have "body_gmid (row_body w) = fresh_id s" by (simp add: is_row_def)
      moreover have "w \<noteq> ?n" using wa(2,4) True by (metis is_row_def)
      ultimately have False
        using wa(1) old [of w] fresh database_okD(3) [OF safeD(1) [OF safe]] by (auto simp: rs')
      then show ?thesis ..
    next
      case False
      with wa(3) have a: "a \<in> set rs" by (simp add: rs')
      show ?thesis
      proof (cases "w = ?n")
        case True
        with link [OF _ a] wa show ?thesis by simp
      next
        case False
        with wa(1) have "w \<in> set rs" by (simp add: rs')
        from orig [OF this] orig [OF a] safeD(2) [OF safe] wa show ?thesis
          unfolding linked_def is_row_def from_row_def by metis
      qed
    qed
  qed
  moreover have "named s'"
    unfolding named_def
  proof
    fix r assume r: "r \<in> set (rows s')"
    show "body_rid (row_body r) \<noteq> Some ''''"
    proof (cases "r = ?n")
      case True
      with named show ?thesis by simp
    next
      case False
      with r have "r \<in> set rs" by (simp add: rs')
      from orig [OF this] obtain r0 where "r0 \<in> set (rows s)" "body_rid (row_body r0) = body_rid (row_body r)"
        by (auto simp: from_row_def)
      with safeD(3) [OF safe] show ?thesis by (metis named_def)
    qed
  qed
  moreover have "backed i (rows s')" if "live i s'" "i \<notin> X" for i
    using that safeD(7) [OF safe, of i] keep [of i] by (simp add: live_queue_frame [OF f])
  ultimately have "safe X s'"
    using ok safe by (simp add: safe_def queue_frame_fields [OF f] durable_queue_frame [OF f] live_queue_frame [OF f])
  moreover have "extends s s'"
    using orig fresh dr by (auto simp: extends_def rs' queue_frame_fields [OF f])
  ultimately show ?thesis by (simp add: evolves_def live_queue_frame [OF f])
qed

text \<open>When a job stays backed.\<close>

lemma backed_filter:
  assumes "backed i rs" "\<And>r. r \<in> set rs \<Longrightarrow> \<not> P r \<Longrightarrow> job_id r \<noteq> i"
  shows "backed i (filter P rs)"
  using assms unfolding backed_def is_anchor_def by auto

lemma backed_update:
  assumes "backed i rs"
    and "\<And>r. r \<in> set rs \<Longrightarrow> c r \<Longrightarrow> from_row r (u r)
      \<and> (row_queue r = GlobalQueueName \<longrightarrow> row_received (u r) \<le> row_received r)"
  shows "backed i (update_where c u rs)"
proof -
  define v where "v r = (if c r then u r else r)" for r
  have v: "from_row r (v r)" "row_queue r = GlobalQueueName \<Longrightarrow> row_received (v r) \<le> row_received r"
    if "r \<in> set rs" for r
    using assms(2) that by (auto simp: v_def)
  have set_v: "set (update_where c u rs) = v ` set rs" by (simp add: update_where_def v_def)
  from assms(1) obtain a where a: "a \<in> set rs" "is_anchor i a" "row_received a = 0
     \<or> (\<exists>w \<in> set rs. row_queue w \<noteq> GlobalQueueName \<and> body_gmid (row_body w) = row_id a \<and> job_id w = i)"
    by (auto simp: backed_def)
  have "is_anchor i (v a)" using a v [OF a(1)] by (auto simp: is_anchor_def from_row_def)
  moreover have "row_received (v a) = 0 \<or> (\<exists>w \<in> set (update_where c u rs). row_queue w \<noteq> GlobalQueueName
      \<and> body_gmid (row_body w) = row_id (v a) \<and> job_id w = i)"
    using a(3)
  proof
    assume "row_received a = 0"
    with v(2) [OF a(1)] a(2) show ?thesis by (simp add: is_anchor_def)
  next
    assume "\<exists>w \<in> set rs. row_queue w \<noteq> GlobalQueueName \<and> body_gmid (row_body w) = row_id a \<and> job_id w = i"
    then obtain w where "w \<in> set rs" "row_queue w \<noteq> GlobalQueueName" "body_gmid (row_body w) = row_id a" "job_id w = i"
      by blast
    with v(1) [OF this(1)] v(1) [OF a(1)] show ?thesis by (auto simp: set_v from_row_def)
  qed
  ultimately show ?thesis using a(1) by (auto simp: backed_def set_v)
qed

lemma backed_append: "backed i rs \<Longrightarrow> backed i (rs @ xs)"
  by (auto simp: backed_def)

subsection \<open>Each queue operation\<close>

lemma same_rows_step:
  assumes "safe X s" "queue_frame s s'" "rows s' = rows s"
  shows "safe X s' \<and> evolves s s'"
  by (rule safe_derived [OF assms(1,2)])
    (use assms safeD(1) [OF assms(1)] in \<open>auto simp: derived_def database_ok_def row_kept\<close>)

lemma query_step:
  assumes "safe X s"
  shows "safe X (snd (Peek q n s)) \<and> evolves s (snd (Peek q n s))"
    "safe X (snd (PeekAll q n s)) \<and> evolves s (snd (PeekAll q n s))"
    "safe X (snd (ListAbandoned q s)) \<and> evolves s (snd (ListAbandoned q s))"
    "safe X (snd (Depth q s)) \<and> evolves s (snd (Depth q s))"
  using same_rows_step [OF assms query_frame(2,1)] same_rows_step [OF assms query_frame(4,3)]
    same_rows_step [OF assms query_frame(6,5)] same_rows_step [OF assms query_frame(8,7)] by blast+

text \<open>Rewriting rows in place.\<close>

lemma update_step:
  assumes safe: "safe X s" and f: "queue_frame s s'"
    and rs: "rows s' = rows s \<or> rows s' = update_where c u (rows s)"
    and u: "\<And>r. r \<in> set (rows s) \<Longrightarrow> c r \<Longrightarrow> from_row r (u r)
      \<and> (row_queue r = GlobalQueueName \<longrightarrow> row_received (u r) \<le> row_received r)"
  shows "safe X s' \<and> evolves s s'"
  using rs
proof
  assume rs: "rows s' = update_where c u (rows s)"
  show ?thesis
  proof (rule safe_derived [OF safe f])
    show "derived (rows s) (rows s')"
      unfolding rs by (rule derived_update) (use u safeD(1) [OF safe] in \<open>auto simp: database_ok_def\<close>)
    show "backed i (rows s')" if "backed i (rows s)" for i
      unfolding rs by (rule backed_update [OF that u])
  qed
qed (rule same_rows_step [OF safe f])

lemma lease_steps:
  assumes safe: "safe X s"
  shows "safe X (snd (Extend q i n s)) \<and> evolves s (snd (Extend q i n s))"
    "safe X (snd (Defer q i n s)) \<and> evolves s (snd (Defer q i n s))"
    "safe X (snd (ReleaseLease q i s)) \<and> evolves s (snd (ReleaseLease q i s))"
    "q \<noteq> GlobalQueueName \<Longrightarrow> safe X (snd (LeaseByID q i n s)) \<and> evolves s (snd (LeaseByID q i n s))"
proof -
  note g = database_okD(1) [OF safeD(1) [OF safe]]
  have "rows (snd (Extend q i n s)) = rows s \<or> rows (snd (Extend q i n s))
      = update_where (is_row q i) (\<lambda>r. r\<lparr>row_timeout := clock s + n\<rparr>) (rows s)"
    using queue_op_ok_rows(9) [OF g] queue_op_error(7) by (cases "fst (Extend q i n s)") auto
  from update_step [OF safe queue_op_frame(3) this]
  show "safe X (snd (Extend q i n s)) \<and> evolves s (snd (Extend q i n s))"
    by (simp add: from_row_meta)
  have "rows (snd (Defer q i n s)) = rows s \<or> rows (snd (Defer q i n s))
      = update_where (is_row q i) (reset_row (clock s + n)) (rows s)"
    using queue_op_ok_rows(7) [OF g] queue_op_error(10) by (cases "fst (Defer q i n s)") auto
  from update_step [OF safe queue_op_frame(6) this]
  show "safe X (snd (Defer q i n s)) \<and> evolves s (snd (Defer q i n s))"
    by (simp add: from_row_meta) (simp add: reset_row_def)
  have "rows (snd (ReleaseLease q i s)) = rows s \<or> rows (snd (ReleaseLease q i s))
      = update_where (is_row q i) (reset_row (clock s - 1000)) (rows s)"
    using queue_op_ok_rows(6) [OF g] queue_op_error(9) by (cases "fst (ReleaseLease q i s)") auto
  from update_step [OF safe queue_op_frame(5) this]
  show "safe X (snd (ReleaseLease q i s)) \<and> evolves s (snd (ReleaseLease q i s))"
    by (simp add: from_row_meta) (simp add: reset_row_def)
  assume q: "q \<noteq> GlobalQueueName"
  show "safe X (snd (LeaseByID q i n s)) \<and> evolves s (snd (LeaseByID q i n s))"
  proof (rule update_step [OF safe queue_op_frame(7), where c = "leasable (clock s) q i" and u = "lease_row (clock s + n)"])
    show "rows (snd (LeaseByID q i n s)) = rows s
      \<or> rows (snd (LeaseByID q i n s)) = update_where (leasable (clock s) q i) (lease_row (clock s + n)) (rows s)"
      by (rule LeaseByID_cases [of q i n s "fst (LeaseByID q i n s)" "snd (LeaseByID q i n s)"]) simp_all
    show "from_row r (lease_row (clock s + n) r)
      \<and> (row_queue r = GlobalQueueName \<longrightarrow> row_received (lease_row (clock s + n) r) \<le> row_received r)"
      if "leasable (clock s) q i r" for r
      using that q by (auto simp: from_row_meta leasable_def is_row_def)
  qed
qed

text \<open>Deleting the rows of a settled job.\<close>

lemma filter_step:
  assumes safe: "safe X s" and f: "queue_frame s s'"
    and rs: "rows s' = rows s \<or> rows s' = filter P (rows s)"
    and own: "\<And>r. r \<in> set (rows s) \<Longrightarrow> \<not> P r \<Longrightarrow> \<not> live (job_id r) s \<or> job_id r \<in> X"
  shows "safe X s' \<and> evolves s s'"
  using rs
proof
  assume rs: "rows s' = filter P (rows s)"
  show ?thesis
  proof (rule safe_derived [OF safe f])
    show "derived (rows s) (rows s')"
      unfolding rs by (rule derived_filter) (use safeD(1) [OF safe] in \<open>simp add: database_ok_def\<close>)
    show "backed i (rows s')" if "live i s" "i \<notin> X" "backed i (rows s)" for i
      unfolding rs by (rule backed_filter [OF that(3)]) (use own that in auto)
  qed
qed (rule same_rows_step [OF safe f])

lemma delete_steps:
  assumes safe: "safe X s" and dead: "\<not> live j s \<or> j \<in> X"
  shows "owned j q i s \<Longrightarrow> safe X (snd (Delete q i s)) \<and> evolves s (snd (Delete q i s))"
    "owned j q i s \<Longrightarrow> owned j q' i' s \<Longrightarrow>
       safe X (snd (DeleteBoth q i q' i' s)) \<and> evolves s (snd (DeleteBoth q i q' i' s))"
proof -
  note d = delete_rows [OF safeD(1) [OF safe]]
  show "safe X (snd (Delete q i s)) \<and> evolves s (snd (Delete q i s))" if "owned j q i s"
    by (rule filter_step [OF safe queue_op_frame(2) d(1)]) (use that dead in \<open>auto simp: owned_def\<close>)
  show "safe X (snd (DeleteBoth q i q' i' s)) \<and> evolves s (snd (DeleteBoth q i q' i' s))"
    if "owned j q i s" "owned j q' i' s"
    by (rule filter_step [OF safe queue_op_frame(9) d(2)]) (use that dead in \<open>auto simp: owned_def\<close>)
qed

text \<open>A worker row that decodes to nothing backs no anchor.\<close>

lemma delete_garbage_step:
  assumes safe: "safe X s" and q: "q \<noteq> GlobalQueueName" and g: "names [] q i s"
  shows "safe X (snd (Delete q i s)) \<and> evolves s (snd (Delete q i s))"
  using delete_rows(1) [OF safeD(1) [OF safe], of q i]
proof
  assume rs: "rows (snd (Delete q i s)) = filter (\<lambda>r. \<not> is_row q i r) (rows s)"
  show ?thesis
  proof (rule safe_derived [OF safe queue_op_frame(2)])
    show "derived (rows s) (rows (snd (Delete q i s)))"
      unfolding rs by (rule derived_filter) (use safeD(1) [OF safe] in \<open>simp add: database_ok_def\<close>)
    show "backed k (rows (snd (Delete q i s)))" if "backed k (rows s)" for k
    proof -
      from that obtain a where a: "a \<in> set (rows s)" "is_anchor k a" "row_received a = 0
         \<or> (\<exists>w \<in> set (rows s). row_queue w \<noteq> GlobalQueueName \<and> body_gmid (row_body w) = row_id a \<and> job_id w = k)"
        by (auto simp: backed_def)
      have "\<not> is_row q i a" using a(2) q by (auto simp: is_anchor_def is_row_def)
      moreover have "\<not> is_row q i w" if "w \<in> set (rows s)" "body_gmid (row_body w) = row_id a" for w
        using that g row_ids(1) [OF safeD(1) [OF safe] a(1)] by (auto simp: names_def)
      ultimately show ?thesis unfolding backed_def rs using a by auto
    qed
  qed
qed (rule same_rows_step [OF safe queue_op_frame(2)])

text \<open>Handing a job back: the worker row goes, its anchor becomes placeable again.\<close>

lemma release_step:
  assumes safe: "safe X s" and q: "q \<noteq> GlobalQueueName" and g: "names g q i s"
  shows "safe X (snd (DeleteAndReleaseLease q i GlobalQueueName g s))
    \<and> evolves s (snd (DeleteAndReleaseLease q i GlobalQueueName g s))"
proof (cases "fst (DeleteAndReleaseLease q i GlobalQueueName g s)")
  case Inl
  then show ?thesis
    by (intro same_rows_step [OF safe queue_op_frame(10)]) (rule queue_op_error(5))
next
  case (Inr x)
  define rs where "rs = filter (\<lambda>r. \<not> is_row q i r) (rows s)"
  have rs': "rows (snd (DeleteAndReleaseLease q i GlobalQueueName g s))
      = update_where (is_row GlobalQueueName g) (reset_row (clock s - 1000)) rs"
    using queue_op_ok_rows(4) [OF database_okD(1) [OF safeD(1) [OF safe]] Inr] by (simp add: rs_def)
  have dist: "distinct (map row_id (rows s))" using safeD(1) [OF safe] by (simp add: database_ok_def)
  show ?thesis
  proof (rule safe_derived [OF safe queue_op_frame(10)])
    show "derived (rows s) (rows (snd (DeleteAndReleaseLease q i GlobalQueueName g s)))"
    proof -
      have "derived rs (update_where (is_row GlobalQueueName g) (reset_row (clock s - 1000)) rs)"
        by (rule derived_update) (simp_all add: rs_def distinct_map_filter dist from_row_meta)
      with derived_filter [OF dist] show ?thesis unfolding rs' rs_def by (rule derived_trans)
    qed
    show "backed k (rows (snd (DeleteAndReleaseLease q i GlobalQueueName g s)))" if "backed k (rows s)" for k
    proof -
      from that obtain a where a: "a \<in> set (rows s)" "is_anchor k a" "row_received a = 0
         \<or> (\<exists>w \<in> set (rows s). row_queue w \<noteq> GlobalQueueName \<and> body_gmid (row_body w) = row_id a \<and> job_id w = k)"
        by (auto simp: backed_def)
      define v where "v r = (if is_row GlobalQueueName g r then reset_row (clock s - 1000) r else r)" for r
      have set_v: "set (rows (snd (DeleteAndReleaseLease q i GlobalQueueName g s))) = v ` set rs"
        by (simp add: rs' update_where_def v_def)
      have v: "from_row r (v r)" "row_received r = 0 \<Longrightarrow> row_received (v r) = 0" for r
        by (simp_all add: v_def from_row_meta reset_row_def)
      have va: "v a \<in> v ` set rs" "is_anchor k (v a)"
        using a q v(1) [of a] by (auto simp: rs_def is_anchor_def is_row_def from_row_def)
      show ?thesis
      proof (cases "row_received a = 0 \<or> row_id a = g")
        case True
        then have "row_received (v a) = 0"
          using a(2) v(2) by (auto simp: v_def is_anchor_def is_row_def reset_row_def)
        with va show ?thesis unfolding backed_def set_v by blast
      next
        case False
        with a(3) obtain w where w: "w \<in> set (rows s)" "row_queue w \<noteq> GlobalQueueName"
          "body_gmid (row_body w) = row_id a" "job_id w = k" by blast
        with False g have "\<not> is_row q i w" by (auto simp: names_def)
        with w have "v w \<in> v ` set rs" by (simp add: rs_def)
        moreover have "row_queue (v w) \<noteq> GlobalQueueName" "body_gmid (row_body (v w)) = row_id (v a)" "job_id (v w) = k"
          using w v(1) [of w] v(1) [of a] unfolding from_row_def by simp_all
        ultimately show ?thesis using va unfolding backed_def set_v by blast
      qed
    qed
  qed
qed

text \<open>Inserting a job on the global queue, and placing one on a worker queue.\<close>

lemma safe_mono: "safe X s \<Longrightarrow> X \<subseteq> Y \<Longrightarrow> safe Y s"
  by (auto simp: safe_def)

lemma safe_settled: "safe (insert j X) s \<Longrightarrow> \<not> live j s \<Longrightarrow> safe X s"
  by (auto simp: safe_def)

lemma backed_new: "env_request_id e = i \<Longrightarrow> i \<noteq> '''' \<Longrightarrow>
    backed i (rs @ [new_row t j GlobalQueueName (Encoded e) p])"
  by (auto simp: backed_def is_anchor_def job_id_rid)

lemma submit_step:
  assumes safe: "safe (insert j X) s" and e: "env_request_id e = j" "j \<noteq> ''''" "env_global_msg_id e = ''''"
  shows "case Submit_queue GlobalQueueName e s of
      (Inl _, s') \<Rightarrow> safe (insert j X) s' \<and> evolves s s'
    | (Inr i, s') \<Rightarrow> safe X s' \<and> evolves s s' \<and> i = fresh_id s \<and> i \<in> drawn s' \<and> owned j GlobalQueueName i s'"
proof -
  obtain r s' where op: "Submit_queue GlobalQueueName e s = (r, s')" by fastforce
  have f: "queue_frame s s'" using queue_op_frame(1) [of s GlobalQueueName e] op by simp
  note ok = safeD(1) [OF safe]
  show ?thesis
  proof (cases r)
    case (Inl err)
    then have "rows s' = rows s" using queue_op_error(1) [of GlobalQueueName e s err] op by simp
    from same_rows_step [OF safe f this] op Inl show ?thesis by simp
  next
    case (Inr i)
    then have i: "i = fresh_id s" and rs: "rows s' = rows s @ [new_row (clock s) i GlobalQueueName (Encoded e) (env_priority e)]"
      using queue_op_ok_rows(1) [OF database_okD(1) [OF ok], of GlobalQueueName e i] op by simp_all
    have n: "next_id s' = Suc (next_id s)" using next_id_send [of GlobalQueueName e s i] op Inr by simp
    have step: "safe (insert j X) s' \<and> evolves s s'"
      by (rule safe_inserted [OF safe f n rs [unfolded i]])
        (use e ok in \<open>auto simp: derived_def database_ok_def row_kept rs body_gmid_def intro: backed_append\<close>)
    moreover have "backed j (rows s')" unfolding rs by (rule backed_new [OF e(1,2)])
    ultimately have "safe X s'" by (auto simp: safe_def)
    moreover have dr: "i \<in> drawn s'" using i n f by (auto simp: drawn_def fresh_id_def queue_frame_def)
    moreover have "owned j GlobalQueueName i s'"
    proof -
      have "job_id x = j" if "x \<in> set (rows s')" "row_id x = i" for x
      proof (cases "x \<in> set (rows s)")
        case True
        with that i have "fresh_id s \<in> row_id ` set (rows s)" by (metis imageI)
        with database_okD(4) [OF ok] show ?thesis by simp
      next
        case False
        with that e show ?thesis by (auto simp: rs job_id_rid)
      qed
      with dr show ?thesis by (auto simp: owned_def is_row_def)
    qed
    ultimately show ?thesis using op Inr step i by simp
  qed
qed

lemma place_step:
  assumes safe: "safe X s" and q: "q \<noteq> GlobalQueueName"
    and e: "env_global_msg_id e = i" "env_request_id e \<noteq> ''''"
    and own: "owned (env_request_id e) GlobalQueueName i s"
  shows "safe X (snd (LeaseAndSubmit GlobalQueueName i n q e s))
    \<and> evolves s (snd (LeaseAndSubmit GlobalQueueName i n q e s))"
proof -
  obtain r s' where op: "LeaseAndSubmit GlobalQueueName i n q e s = (r, s')" by fastforce
  have f: "queue_frame s s'" using queue_op_frame(12) [of s GlobalQueueName i n q e] op by simp
  note ok = safeD(1) [OF safe]
  let ?w = "new_row (clock s) (fresh_id s) q (Encoded e) (env_priority e)"
  have "safe X s' \<and> evolves s s'"
    using ok op
  proof (cases rule: LeaseAndSubmit_cases)
    case (hit a)
    define v where "v = (\<lambda>r. if leasable (clock s) GlobalQueueName i r then lease_row (clock s + n) r else r)"
    define rs where "rs = update_where (leasable (clock s) GlobalQueueName i) (lease_row (clock s + n)) (rows s)"
    have set_rs: "set rs = v ` set (rows s)" by (simp add: rs_def update_where_def v_def)
    have v: "from_row r (v r)" for r by (simp add: v_def from_row_meta)
    have jw: "job_id ?w = env_request_id e" using e by (simp add: job_id_rid)
    show ?thesis
    proof (rule safe_inserted [OF safe f hit(5) hit(4) [folded rs_def]])
      show "derived (rows s) rs"
        unfolding rs_def by (rule derived_update) (use ok in \<open>simp_all add: database_ok_def from_row_meta\<close>)
      show "body_rid (Encoded e) \<noteq> Some ''''" "body_gmid (Encoded e) \<in> insert [] (drawn s)"
        using e own by (simp_all add: body_gmid_def owned_def)
      fix a assume a: "a \<in> set rs" "is_row GlobalQueueName (body_gmid (Encoded e)) a"
      then obtain a0 where a0: "a0 \<in> set (rows s)" "a = v a0" by (auto simp: set_rs)
      with v [of a0] a have "is_row GlobalQueueName i a0" "job_id a = job_id a0"
        using e by (auto simp: is_row_def from_row_def body_gmid_def)
      with own a0 jw show "job_id a = job_id ?w" by (simp add: owned_def)
    next
      fix k assume "backed k (rows s)"
      then obtain a where a: "a \<in> set (rows s)" "is_anchor k a" "row_received a = 0
         \<or> (\<exists>w \<in> set (rows s). row_queue w \<noteq> GlobalQueueName \<and> body_gmid (row_body w) = row_id a \<and> job_id w = k)"
        by (auto simp: backed_def)
      have va: "v a \<in> set rs" "is_anchor k (v a)" "row_id (v a) = row_id a"
        using a v [of a] by (auto simp: set_rs is_anchor_def from_row_def)
      have w: "?w \<in> set (rows s')" by (simp add: hit(4))
      show "backed k (rows s')"
      proof (cases "leasable (clock s) GlobalQueueName i a")
        case True
        then have "is_row GlobalQueueName i a" by (simp add: leasable_def)
        with own a have "job_id ?w = k" "body_gmid (row_body ?w) = row_id (v a)"
          using va e jw by (auto simp: owned_def is_anchor_def is_row_def body_gmid_def)
        with w va q show ?thesis unfolding backed_def hit(4) [folded rs_def] by force
      next
        case False
        then have "v a = a" by (simp add: v_def)
        moreover have "v w \<in> set rs \<and> row_queue (v w) = row_queue w \<and> body_gmid (row_body (v w)) = body_gmid (row_body w)
            \<and> job_id (v w) = job_id w" if "w \<in> set (rows s)" for w
          using that v [of w] by (auto simp: set_rs from_row_def)
        ultimately show ?thesis
          using a va unfolding backed_def hit(4) [folded rs_def] by (metis Un_iff set_append)
      qed
    qed
  qed (rule same_rows_step [OF safe f], assumption)+
  with op show ?thesis by simp
qed

lemma move_step:
  assumes safe: "safe X s" and q: "q \<noteq> GlobalQueueName" "q' \<noteq> GlobalQueueName"
  shows "safe X (snd (MoveTo q q' i p s)) \<and> evolves s (snd (MoveTo q q' i p s))"
proof -
  obtain r s' where op: "MoveTo q q' i p s = (r, s')" by fastforce
  have f: "queue_frame s s'" using queue_op_frame(8) [of s q q' i p] op by simp
  note ok = safeD(1) [OF safe]
  have "safe X s' \<and> evolves s s'"
    using ok op
  proof (cases rule: MoveTo_cases)
    case (hit m)
    let ?n = "new_row (clock s) (fresh_id s) q' (row_body m) p"
    define rs where "rs = filter (\<lambda>r. row_id r \<noteq> i) (rows s)"
    have m: "row_id m = i" "row_queue m = q" using hit(2) by (simp_all add: leasable_def is_row_def)
    have uniq: "r = m" if "r \<in> set (rows s)" "row_id r = i" for r
      using that hit(1) m database_okD(2) [OF ok] distinct_map_inj by metis
    show ?thesis
    proof (rule safe_inserted [OF safe f hit(5) hit(4) [folded rs_def]])
      show "derived (rows s) rs"
        unfolding rs_def by (rule derived_filter) (use ok in \<open>simp add: database_ok_def\<close>)
      show "body_rid (row_body m) \<noteq> Some ''''" "body_gmid (row_body m) \<in> insert [] (drawn s)"
        using safeD(3) [OF safe] hit(1) ok by (auto simp: named_def database_ok_def)
      fix a assume a: "a \<in> set rs" "is_row GlobalQueueName (body_gmid (row_body m)) a"
      then have "body_gmid (row_body m) \<noteq> []"
        using row_ids(1) [OF ok, of a] by (auto simp: rs_def is_row_def)
      then have "body_rid (row_body m) \<noteq> None" by (cases "row_body m") (auto simp: body_gmid_def)
      then have "job_id ?n = job_id m"
        using safeD(3) [OF safe] hit(1) by (auto simp: job_id_rid named_def split: option.split)
      with safeD(2) [OF safe] hit(1) a m q show "job_id a = job_id ?n"
        by (auto simp: linked_def rs_def)
    next
      fix k assume "backed k (rows s)"
      then obtain a where a: "a \<in> set (rows s)" "is_anchor k a" "row_received a = 0
         \<or> (\<exists>w \<in> set (rows s). row_queue w \<noteq> GlobalQueueName \<and> body_gmid (row_body w) = row_id a \<and> job_id w = k)"
        by (auto simp: backed_def)
      have "a \<in> set rs"
        using a uniq [of a] m q by (auto simp: rs_def is_anchor_def)
      moreover have "\<exists>w' \<in> set (rows s'). row_queue w' \<noteq> GlobalQueueName
          \<and> body_gmid (row_body w') = row_id a \<and> job_id w' = k"
        if w: "w \<in> set (rows s)" "row_queue w \<noteq> GlobalQueueName" "body_gmid (row_body w) = row_id a" "job_id w = k" for w
      proof (cases "row_id w = i")
        case True
        with uniq w have "w = m" by simp
        have "row_id a \<noteq> []" by (rule row_ids(1) [OF ok a(1)])
        with w \<open>w = m\<close> have "body_rid (row_body m) \<noteq> None" by (cases "row_body m") (auto simp: body_gmid_def)
        then have "job_id ?n = job_id m"
          using safeD(3) [OF safe] hit(1) by (auto simp: job_id_rid named_def split: option.split)
        with w \<open>w = m\<close> q show ?thesis by (intro bexI [of _ ?n]) (simp_all add: hit(4))
      next
        case False
        with w show ?thesis by (intro bexI [of _ w]) (simp_all add: hit(4))
      qed
      ultimately show "backed k (rows s')"
        using a(2,3) unfolding backed_def hit(4) [folded rs_def] by (metis Un_iff set_append)
    qed
  qed (rule same_rows_step [OF safe f], assumption)+
  with op show ?thesis by simp
qed

lemma rewrite_step:
  assumes safe: "safe X s" and q: "q \<noteq> GlobalQueueName"
    and same: "\<And>r. r \<in> set (rows s) \<Longrightarrow> is_row q i r \<Longrightarrow>
      body_rid (row_body r) = body_rid b \<and> body_gmid (row_body r) = body_gmid b"
  shows "safe X (snd (UpdateBody q i b s)) \<and> evolves s (snd (UpdateBody q i b s))"
proof -
  have "rows (snd (UpdateBody q i b s)) = rows s
      \<or> rows (snd (UpdateBody q i b s)) = update_where (is_row q i) (\<lambda>r. r\<lparr>row_body := b\<rparr>) (rows s)"
    using queue_op_ok_rows(8) [OF database_okD(1) [OF safeD(1) [OF safe]]] queue_op_error(8)
    by (cases "fst (UpdateBody q i b s)") auto
  note step = update_step [OF safe queue_op_frame(4) this]
  show ?thesis
  proof (rule step)
    fix r assume r: "r \<in> set (rows s)" "is_row q i r"
    have "from_row r (r\<lparr>row_body := b\<rparr>)"
      using same [OF r] by (cases "body_rid b") (simp_all add: from_row_def job_id_rid)
    with r q show "from_row r (r\<lparr>row_body := b\<rparr>) \<and>
        (row_queue r = GlobalQueueName \<longrightarrow> row_received (r\<lparr>row_body := b\<rparr>) \<le> row_received r)"
      by (simp add: is_row_def)
  qed
qed

subsection \<open>Results and buffers\<close>

lemma result_step:
  assumes safe: "safe X s" and f: "result_frame s s'" and keys: "distinct (keys (results s'))"
    and rf: "result_faults s' = []" and live: "\<And>i. live i s' \<Longrightarrow> live i s"
  shows "safe X s' \<and> evolves s s'"
proof -
  have more: "sc_initialised s' = sc_initialised s" "sc_buffers s' = sc_buffers s" "sc_heap s' = sc_heap s"
    using f sched_of_more [of s' s] by (simp_all add: result_frame_def)
  have rs: "rows s' = rows s" "drawn s' = drawn s" "id_supply s' = id_supply s" "proper s' = proper s"
    using f sched_of_more [of s' s] by (simp_all add: result_frame_def drawn_def proper_def)
  have "database_ok s'" by (rule result_frame_ok [OF safeD(1) [OF safe] f keys])
  moreover have "durable s'" using safeD(6) [OF safe] live by (auto simp: durable_def more)
  ultimately have "safe X s'"
    using safe live by (auto simp: safe_def rs more rf linked_def named_def)
  with live show ?thesis by (auto simp: evolves_def extends_def rs more row_kept)
qed

lemma live_status: "live i d \<longleftrightarrow> status_of i d = Some Pending \<or> status_of i d = Some Processing"
proof -
  have "\<not> terminal x \<longleftrightarrow> x = Pending \<or> x = Processing" for x
    by (cases x) (simp_all add: terminal_def)
  then show ?thesis by (auto simp: live_def)
qed

lemma set_result_faults: "result_faults s = [] \<Longrightarrow> result_faults (snd (set_result i c u s)) = []"
  by (simp add: set_result_def rtx_def Let_def)

lemma failResult_step:
  assumes "safe X s"
  shows "safe X (failResult i msg s)" "evolves s (failResult i msg s)" "\<not> live i (failResult i msg s)"
proof -
  note ok = safeD(1) [OF assms] and init = safeD(5) [OF assms]
  have e: "failResult i msg s = snd (Fail i msg s)" using init by (simp add: failResult_def with_results_def)
  have k: "distinct (keys (results (snd (Fail i msg s))))"
    using result_op_ok(5) [OF ok, of i msg] by (simp add: database_ok_def)
  have "safe X (snd (Fail i msg s)) \<and> evolves s (snd (Fail i msg s))"
    by (rule result_step [OF assms result_op_frame(5) k])
      (use safeD(4) [OF assms] Fail_live [OF ok] set_result_faults in \<open>auto simp: Fail_def\<close>)
  then show "safe X (failResult i msg s)" "evolves s (failResult i msg s)" by (simp_all add: e)
  have "fst (Fail i msg s) = Inr ()"
    using safeD(4) [OF assms] by (simp add: Fail_def set_result_def rtx_def Let_def)
  from Fail_not_live [OF ok this] show "\<not> live i (failResult i msg s)" by (simp add: e)
qed

lemma completeResult_step:
  assumes "safe X s"
  shows "safe X (completeResult i body s)" "evolves s (completeResult i body s)"
    "\<not> live i (completeResult i body s)"
proof -
  note ok = safeD(1) [OF assms] and init = safeD(5) [OF assms]
  have e: "completeResult i body s = snd (Complete i body s)"
    using init by (simp add: completeResult_def with_results_def)
  have k: "distinct (keys (results (snd (Complete i body s))))"
    using result_op_ok(4) [OF ok, of i body] by (simp add: database_ok_def)
  note m = mark_status(3) [OF ok, of _ i body]
  have l: "live k (snd (Complete i body s)) \<Longrightarrow> live k s" for k
    using m [of k] by (auto simp: live_def terminal_def)
  have "safe X (snd (Complete i body s)) \<and> evolves s (snd (Complete i body s))"
    by (rule result_step [OF assms result_op_frame(4) k])
      (use safeD(4) [OF assms] l set_result_faults in \<open>auto simp: Complete_def\<close>)
  then show "safe X (completeResult i body s)" "evolves s (completeResult i body s)" by (simp_all add: e)
  have "results (snd (Complete i body s)) = update_result i (\<lambda>r. True)
     (\<lambda>r. r\<lparr>res_status := Done, res_body := Some body, res_completed := Some (clock s)\<rparr>) (results s)"
    using safeD(4) [OF assms] by (simp add: Complete_def set_result_def rtx_def Let_def)
  then show "\<not> live i (completeResult i body s)"
    using map_of_update_result [OF database_okD(6) [OF ok], of i]
    by (cases "map_of (results s) i") (auto simp: e live_def status_of_def terminal_def)
qed

lemma progress_steps:
  assumes "safe X s"
  shows "safe X (processingResult i s)" "evolves s (processingResult i s)"
    "safe X (pendingResult i s)" "evolves s (pendingResult i s)"
proof -
  note ok = safeD(1) [OF assms] and init = safeD(5) [OF assms]
  have e: "processingResult i s = snd (ProcessingResult i s)" "pendingResult i s = snd (PendingResult i s)"
    using init by (simp_all add: processingResult_def pendingResult_def with_results_def)
  have k: "distinct (keys (results (snd (ProcessingResult i s))))" "distinct (keys (results (snd (PendingResult i s))))"
    using result_op_ok(2,3) [OF ok, of i] by (simp_all add: database_ok_def)
  have l: "live k (snd (ProcessingResult i s)) \<Longrightarrow> live k s" "live k (snd (PendingResult i s)) \<Longrightarrow> live k s" for k
    using mark_status(1,2) [OF ok, of k i] by (auto simp: live_status)
  have "safe X (snd (ProcessingResult i s)) \<and> evolves s (snd (ProcessingResult i s))"
    by (rule result_step [OF assms result_op_frame(2) k(1)])
      (use safeD(4) [OF assms] l set_result_faults in \<open>auto simp: ProcessingResult_def\<close>)
  moreover have "safe X (snd (PendingResult i s)) \<and> evolves s (snd (PendingResult i s))"
    by (rule result_step [OF assms result_op_frame(3) k(2)])
      (use safeD(4) [OF assms] l set_result_faults in \<open>auto simp: PendingResult_def\<close>)
  ultimately show "safe X (processingResult i s)" "evolves s (processingResult i s)"
    "safe X (pendingResult i s)" "evolves s (pendingResult i s)" by (simp_all add: e)
qed

lemma Get_step:
  assumes "safe X s"
  shows "safe X (snd (Get i s)) \<and> evolves s (snd (Get i s))"
    "fst (Get i s) = Inr (map_of (results s) i)" "results (snd (Get i s)) = results s"
proof -
  have k: "distinct (keys (results (snd (Get i s))))" using safeD(1) [OF assms] by (simp add: database_ok_def)
  have "result_faults (snd (Get i s)) = []" using safeD(4) [OF assms] by (simp add: Get_def rtx_def Let_def)
  from result_step [OF assms result_op_frame(6) k this] live_same [OF Get_results]
  show "safe X (snd (Get i s)) \<and> evolves s (snd (Get i s))" by blast
  show "fst (Get i s) = Inr (map_of (results s) i)" "results (snd (Get i s)) = results s"
    using safeD(4) [OF assms] by (simp_all add: Get_def rtx_def Let_def)
qed

lemma not_live_terminal:
  "\<not> live i d \<longleftrightarrow> (case map_of (results d) i of None \<Rightarrow> True | Some r \<Rightarrow> isTerminalStatus (res_status r))"
  by (auto simp: live_def status_of_def isTerminalStatus_def terminal_def split: option.split)

lemma resultIsTerminal_step:
  assumes "safe X s"
  shows "safe X (snd (resultIsTerminal i s))" "evolves s (snd (resultIsTerminal i s))"
    "fst (resultIsTerminal i s) \<Longrightarrow> \<not> live i s" "live j (snd (resultIsTerminal i s)) = live j s"
proof -
  obtain r s1 where g: "Get i s = (r, s1)" by fastforce
  with Get_step [OF assms, of i] have 1: "safe X s1 \<and> evolves s s1" "r = Inr (map_of (results s) i)"
    "results s1 = results s" by simp_all
  have e: "resultIsTerminal i s = ((case map_of (results s) i of None \<Rightarrow> False
      | Some r \<Rightarrow> isTerminalStatus (res_status r)), s1)"
    using g 1 safeD(5) [OF assms] by (simp add: resultIsTerminal_def)
  with 1 live_same [OF 1(3)] show "safe X (snd (resultIsTerminal i s))" "evolves s (snd (resultIsTerminal i s))"
    "live j (snd (resultIsTerminal i s)) = live j s" by simp_all
  show "fst (resultIsTerminal i s) \<Longrightarrow> \<not> live i s"
    using e by (auto simp: not_live_terminal split: option.splits)
qed

text \<open>Buffers.\<close>

lemma heap_step:
  assumes safe: "safe X s" and s': "s' = s\<lparr>sc_buffers := bs, sc_heap := h\<rparr>"
    and dur: "durable s'" and len: "length (sc_heap s) \<le> length h"
    and own: "\<And>b. b < length (sc_heap s) \<Longrightarrow> fst (h ! b) = fst (sc_heap s ! b)"
  shows "safe X s' \<and> evolves s s'"
proof -
  have l: "live i s' = live i s" for i by (simp add: s' live_def status_of_def)
  have d: "drawn s' = drawn s" by (simp add: s' drawn_def)
  have "safe X s'"
    using safe dur l d by (simp add: safe_def database_ok_def linked_def named_def) (simp add: s')
  moreover have "proper s' = proper s" by (simp add: s' proper_def)
  ultimately show ?thesis
    using l d len own by (auto simp: evolves_def extends_def row_kept) (auto simp: s' row_kept)
qed

definition holds_buffer :: "request_id \<Rightarrow> nat \<Rightarrow> sched \<Rightarrow> bool" where
  "holds_buffer i b s \<longleftrightarrow> b < length (sc_heap s) \<and> fst (sc_heap s ! b) = i"

lemma holds_buffer_extends: "holds_buffer i b s \<Longrightarrow> extends s s' \<Longrightarrow> holds_buffer i b s'"
  by (auto simp: holds_buffer_def extends_def)

lemma durable_live: "live k (s\<lparr>sc_buffers := bs, sc_heap := h\<rparr>) = live k s"
  by (simp add: live_def status_of_def)

lemma Append_terminal: "jb_terminal (snd (Append t (Some c) b)) \<longleftrightarrow> jb_terminal b \<or> terminal_chunk c"
  by (auto simp: Let_def split: prod.split)

lemma append_buffer_step:
  assumes safe: "safe X s" and b: "holds_buffer i b s" and c: "terminal_chunk c \<Longrightarrow> \<not> live i s"
  shows "safe X (append_buffer b c s) \<and> evolves s (append_buffer b c s)"
proof (rule heap_step [OF safe])
  let ?h = "(sc_heap s)[b := (fst (sc_heap s ! b), snd (Append (clock s) (Some c) (snd (sc_heap s ! b))))]"
  show e: "append_buffer b c s = s\<lparr>sc_buffers := sc_buffers s, sc_heap := ?h\<rparr>"
    by (simp add: append_buffer_def)
  have cell: "(fst (sc_heap s ! b), snd (sc_heap s ! b)) \<in> set (sc_heap s)"
    using b by (metis holds_buffer_def nth_mem prod.collapse)
  have old: "jb_terminal (snd (sc_heap s ! b)) \<Longrightarrow> \<not> live i s"
    using safeD(6) [OF safe] cell b unfolding durable_def holds_buffer_def by fastforce
  have "jb_terminal jb \<longrightarrow> \<not> live k s" if "(k, jb) \<in> set ?h" for k jb
  proof -
    from set_update_subset_insert that
    have "(k, jb) \<in> insert (fst (sc_heap s ! b), snd (Append (clock s) (Some c) (snd (sc_heap s ! b)))) (set (sc_heap s))"
      by (rule subsetD)
    then show ?thesis
      using safeD(6) [OF safe] old b c Append_terminal
      by (auto simp: durable_def holds_buffer_def simp del: Append.simps)
  qed
  moreover have "fst (?h ! k) = fst (sc_heap s ! k)" if "k < length (sc_heap s)" for k
    using that by (cases "k = b") simp_all
  ultimately show "durable (append_buffer b c s)"
    using safeD(6) [OF safe] unfolding e durable_def durable_live by (auto simp del: Append.simps)
  show "length (sc_heap s) \<le> length ?h" by simp
  show "fst (?h ! k) = fst (sc_heap s ! k)" if "k < length (sc_heap s)" for k
    using that by (cases "k = b") simp_all
qed

lemma dropJob_step:
  assumes "safe X s" shows "safe X (dropJob i s) \<and> evolves s (dropJob i s)"
proof (rule heap_step [OF assms])
  show e: "dropJob i s = s\<lparr>sc_buffers := AList.delete i (sc_buffers s), sc_heap := sc_heap s\<rparr>"
    by (simp add: dropJob_def)
  show "durable (dropJob i s)"
    using safeD(6) [OF assms] unfolding e durable_def durable_live by (auto simp: set_AList_delete)
qed simp_all

lemma ensureJobBuffer_step:
  assumes "safe X s" "ensureJobBuffer i s = (b, s')"
  shows "safe X s' \<and> evolves s s' \<and> holds_buffer i b s' \<and> rows s' = rows s \<and> results s' = results s
    \<and> map_of (sc_buffers s') i = Some b"
proof (cases "map_of (sc_buffers s) i")
  case (Some b')
  with assms have "s' = s" "b' = b" by (simp_all add: ensureJobBuffer_def)
  moreover have "(i, b') \<in> set (sc_buffers s)" using Some by (rule map_of_SomeD)
  ultimately show ?thesis
    using assms(1) Some safeD(6) [OF assms(1)] by (auto simp: durable_def holds_buffer_def)
next
  case None
  define h where "h = sc_heap s @ [(i, newJobBuffer (clock s))]"
  have s': "s' = s\<lparr>sc_buffers := AList.update i b (sc_buffers s), sc_heap := h\<rparr>" "b = length (sc_heap s)"
    using assms(2) None by (auto simp: ensureJobBuffer_def alloc_buffer_def h_def)
  have upd: "AList.update i b (sc_buffers s) = sc_buffers s @ [(i, b)]" for b
    using None by (intro AList_update_fresh) (simp add: map_of_eq_None_iff)
  have "durable s'"
    using safeD(6) [OF assms(1)] s'(2)
    unfolding s'(1) durable_def durable_live
    by (auto simp: upd h_def nth_append newJobBuffer_def)
  from heap_step [OF assms(1) s'(1) this] s'(2) show ?thesis
    by (simp add: s'(1) holds_buffer_def h_def nth_append)
qed

lemma error_chunk_terminal [simp]: "terminal_chunk (error_chunk msg)"
  by (simp add: terminal_chunk_def error_chunk_def)

end
