(* ===== verification/Submission.thy ===== *)
theory Submission
  imports Safety
begin

text \<open>
  The way into the queues: \<open>Submit\<close>, \<open>placeOnWorkerQueue\<close> and \<open>drainGlobal\<close> of \<open>scheduler.go\<close>.

  The request id is the value \<open>uuid.NewString\<close> returns. A loop over rows is a function on one row
  and its iteration, because between two rows any other goroutine may run.
\<close>

record submit_request =
  sr_runtime :: runtime_name
  sr_model :: model_id
  sr_payload :: bytes
  sr_cost :: rat
  sr_files :: "model_file option list"
  sr_load_hints :: bytes
  sr_headroom :: "32 word"
  sr_source :: string
  sr_priority :: int

datatype submit_error = RuntimeRequired | ErrInvalidCost | ErrFieldTooLong string
  | ErrNoWorker | SubmitNotInitialised | CreateFailed db_error | SubmitFailed db_error

definition preflight :: "submit_request \<Rightarrow> sched \<Rightarrow> bool" where
  "preflight req s \<longleftrightarrow> length (WorkersForRuntime (sr_runtime req) s) \<noteq> 0"

definition placeOnWorkerQueue :: "rat envelope \<Rightarrow> sched \<Rightarrow> sched" where
  "placeOnWorkerQueue env s = (case pickWorkerQueue env s of
      (None, s) \<Rightarrow> s
    | (Some (c, queuedSeconds), s) \<Rightarrow>
        let env = env\<lparr>env_queued_seconds := queuedSeconds\<rparr> in
        if \<not> sc_initialised s then s
        else case LeaseAndSubmit GlobalQueueName (env_global_msg_id env) anchorLeaseDuration (cd_queue c) env s of
          (Inl _, s) \<Rightarrow> s
        | (Inr (_, leased), s) \<Rightarrow>
            if \<not> leased then s
            else broadcastQueueChange (creditTail (cd_queue c) queuedSeconds (env_model_id env) s))"

definition submit_source :: "submit_request \<Rightarrow> string" where
  "submit_source req = (if sr_source req = '''' then ''gateway:'' @ sr_runtime req else sr_source req)"

definition submit_envelope :: "request_id \<Rightarrow> submit_request \<Rightarrow> rat envelope" where
  "submit_envelope rid req = \<lparr> env_priority = sr_priority req, env_attempts = 0,
     env_cost = sr_cost req, env_queued_seconds = 0, env_runtime_name = sr_runtime req,
     env_model_id = sr_model req, env_source = submit_source req, env_request_id = rid,
     env_global_msg_id = '''', env_files = sr_files req, env_load_hints = sr_load_hints req,
     env_payload = sr_payload req, env_headroom_pct = sr_headroom req \<rparr>"

definition submit_check :: "submit_request \<Rightarrow> sched \<Rightarrow> submit_error option" where
  "submit_check req s =
     (if sr_runtime req = '''' then Some RuntimeRequired
      else if sr_cost req \<le> 0 then Some ErrInvalidCost
      else if length (sr_runtime req) > 255 then Some (ErrFieldTooLong ''runtime_name'')
      else if length (sr_model req) > 255 then Some (ErrFieldTooLong ''model_id'')
      else if length (submit_source req) > 255 then Some (ErrFieldTooLong ''source'')
      else if \<not> preflight req s then Some ErrNoWorker
      else if \<not> sc_initialised s then Some SubmitNotInitialised
      else None)"

definition Submit :: "request_id \<Rightarrow> submit_request \<Rightarrow> sched \<Rightarrow> (submit_error + request_id) \<times> sched" where
  "Submit rid req s = (case submit_check req s of
      Some e \<Rightarrow> (Inl e, s)
    | None \<Rightarrow>
        let (b, s) = alloc_buffer rid s;
            s = s\<lparr>sc_buffers := AList.update rid b (sc_buffers s)\<rparr>
        in case Create rid s of
          (Inl e, s) \<Rightarrow> (Inl (CreateFailed e), dropJob rid s)
        | (Inr _, s) \<Rightarrow> (case Submit_queue GlobalQueueName (submit_envelope rid req) s of
              (Inl e, s) \<Rightarrow> (Inl (SubmitFailed e), dropJob rid s)
            | (Inr i, s) \<Rightarrow>
                let env = (submit_envelope rid req)\<lparr>env_global_msg_id := i\<rparr>;
                    s = broadcastQueueChange s
                in (Inr rid, kick (placeOnWorkerQueue env s))))"

subsection \<open>Draining the global queue\<close>

definition unbenchable_text :: "string \<Rightarrow> string" where
  "unbenchable_text errText =
     (let errText = (if errText = '''' then ''no worker can run this model'' else errText)
      in ''model benchmark failed on every eligible worker: '' @ errText)"

definition failUnbenchable :: "message_id \<Rightarrow> rat envelope \<Rightarrow> string \<Rightarrow> sched \<Rightarrow> sched" where
  "failUnbenchable i env errText s =
     (let errText = unbenchable_text errText;
          s = emit (JobDispatched (env_runtime_name env) ''error'') s;
          s = failResult (env_request_id env) errText s;
          (b, s) = ensureJobBuffer (env_request_id env) s;
          s = append_buffer b (error_chunk errText) s;
          s = snd (Delete GlobalQueueName i s)
      in broadcastQueueChange s)"

definition drain_global_row :: "message \<Rightarrow> sched \<Rightarrow> bool \<times> sched" where
  "drain_global_row m s = (case unmarshal_body (msg_body m) of
      Inl _ \<Rightarrow> (False, s)
    | Inr env \<Rightarrow>
        let env = env\<lparr>env_global_msg_id := msg_id m\<rparr> in
        case pickWorkerQueue env s of
          (None, s) \<Rightarrow> (case modelBenchConclusion env s of
              ((benchPending, errText), s) \<Rightarrow>
                if benchPending then (True, s)
                else (False, failUnbenchable (msg_id m) env errText s))
        | (Some (c, queuedSeconds), s) \<Rightarrow>
            let env = env\<lparr>env_queued_seconds := queuedSeconds\<rparr> in
            case LeaseAndSubmit GlobalQueueName (msg_id m) anchorLeaseDuration (cd_queue c) env s of
              (Inl _, s) \<Rightarrow> (False, s)
            | (Inr (_, leased), s) \<Rightarrow>
                (False, if \<not> leased then s
                        else creditTail (cd_queue c) queuedSeconds (env_model_id env) s))"

fun drain_global_rows :: "message list \<Rightarrow> bool \<Rightarrow> sched \<Rightarrow> bool \<times> sched" where
  "drain_global_rows [] pending s = (pending, s)"
| "drain_global_rows (m # ms) pending s = (case drain_global_row m s of
     (p, s) \<Rightarrow> drain_global_rows ms (pending \<or> p) s)"

definition drainGlobal :: "sched \<Rightarrow> bool \<times> sched" where
  "drainGlobal s =
     (if \<not> sc_initialised s then (False, s)
      else case Peek GlobalQueueName 32 s of
        (Inl _, s) \<Rightarrow> (False, s)
      | (Inr ms, s) \<Rightarrow> drain_global_rows ms False s)"

subsection \<open>Every step keeps the jobs\<close>

abbreviation advances :: "request_id set \<Rightarrow> sched \<Rightarrow> sched \<Rightarrow> bool" where
  "advances X s s' \<equiv> safe X s' \<and> evolves s s'"

lemma advances_trans: "advances X a b \<Longrightarrow> advances X b c \<Longrightarrow> advances X a c"
  by (blast intro: evolves_trans)

lemma core_advances: "core_same s s' \<Longrightarrow> safe X s \<Longrightarrow> advances X s s'"
  by (simp add: core_safe)

lemma caches_advances: "caches_only s s' \<Longrightarrow> safe X s \<Longrightarrow> advances X s s'"
  by (rule core_advances [OF caches_only_core])

lemma owned_evolves: "owned j q i s \<Longrightarrow> advances X s s' \<Longrightarrow> owned j q i s'"
  by (rule owned_extends) (auto simp: evolves_def safe_def)

lemma names_evolves: "names g q i s \<Longrightarrow> advances X s s' \<Longrightarrow> names g q i s'"
  by (rule names_extends) (auto simp: evolves_def safe_def)

lemma buffer_evolves: "holds_buffer i b s \<Longrightarrow> advances X s s' \<Longrightarrow> holds_buffer i b s'"
  by (auto simp: evolves_def intro: holds_buffer_extends)

lemma live_evolves: "evolves s s' \<Longrightarrow> \<not> live i s \<Longrightarrow> \<not> live i s'"
  by (auto simp: evolves_def)

text \<open>A request id that \<open>uuid.NewString\<close> may return: new, and in another format than message ids.\<close>

definition fresh_request :: "request_id \<Rightarrow> sched \<Rightarrow> bool" where
  "fresh_request i s \<longleftrightarrow> i \<noteq> '''' \<and> i \<notin> set (keys (results s)) \<and> i \<notin> fst ` set (sc_heap s)
     \<and> i \<notin> range (id_supply s)"

lemma create_step:
  assumes safe: "safe X s" and new: "i \<notin> set (keys (results s))"
    and heap: "\<forall>(k, jb) \<in> set (sc_heap s). k = i \<longrightarrow> \<not> jb_terminal jb"
    and op: "Create i s = (r, s')"
  shows "r = Inr ()" "safe (insert i X) s'" "extends s s'" "live k s' \<longleftrightarrow> live k s \<or> k = i"
proof -
  have rf: "result_faults s = []" by (rule safeD(4) [OF safe])
  define row where "row = (i, \<lparr> res_status = Pending, res_body = None, res_error = None,
      res_created = clock s, res_completed = None \<rparr>)"
  have s': "s' = s\<lparr>results := results s @ [row]\<rparr>" and r: "r = Inr ()"
    using op new rf by (auto simp: Create_def rtx_def row_def Let_def)
  show "r = Inr ()" by (rule r)
  have f: "rows s' = rows s" "drawn s' = drawn s" "sc_heap s' = sc_heap s" "sc_buffers s' = sc_buffers s"
    "result_faults s' = []" "sc_initialised s' = sc_initialised s" "driver s' = driver s"
    "id_supply s' = id_supply s" "tails s' = tails s" "results s' = results s @ [row]"
    by (simp_all add: s' rf drawn_def)
  have live: "live k s' \<longleftrightarrow> live k s \<or> k = i" for k
  proof -
    have "map_of (results s) i = None" using new by (simp add: map_of_eq_None_iff)
    then show ?thesis
      by (auto simp: live_def status_of_def f row_def map_add_def terminal_def split: option.splits)
  qed
  then show "live k s' \<longleftrightarrow> live k s \<or> k = i" .
  have "proper s' = proper s" by (simp add: s' proper_def)
  then show "extends s s'" by (auto simp: extends_def f row_kept)
  have "database_ok s'" using safeD(1) [OF safe] new by (auto simp: database_ok_def f row_def)
  moreover have "durable s'"
    using safeD(6) [OF safe] heap by (fastforce simp: durable_def f live)
  ultimately show "safe (insert i X) s'"
    using safe by (auto simp: safe_def f live linked_def named_def)
qed

lemma collect_cands_queue: "c \<in> set (fst (collect_cands env ws s)) \<Longrightarrow> \<exists>w \<in> set ws. cd_worker c = w \<and> cd_queue c = workerQueueName (w_id w)"
proof (induction ws arbitrary: s)
  case (Cons w ws)
  obtain b s1 where m: "modelBenchmark w env s = (b, s1)" by fastforce
  obtain l s2 where l: "effectiveLoadThroughput w s1 = (l, s2)" by fastforce
  obtain cs s3 where r: "collect_cands env ws s2 = (cs, s3)" by fastforce
  show ?case
    using Cons.prems Cons.IH [of s1] Cons.IH [of s2]
    by (auto simp: m l r split: option.splits if_splits)
qed simp

lemma choose_best_in: "choose_best env cs best s = Some c \<Longrightarrow> c \<in> set cs \<or> best = Some c"
  by (induction cs arbitrary: best) (fastforce split: option.splits if_splits)+

lemma pick_target:
  assumes "pickWorkerQueue env s = (Some (c, x), s')"
  shows "cd_queue c = workerQueueName (w_id (cd_worker c))"
proof -
  from assms obtain ws where "c \<in> set (fst (collect_cands env ws s))"
    unfolding pickWorkerQueue_def
    by (auto simp del: collect_cands.simps split: list.splits prod.splits dest!: choose_best_in)
      (metis fst_conv)
  with collect_cands_queue show ?thesis by fastforce
qed

lemma pick_advances:
  assumes "safe X s" "pickWorkerQueue env s = (r, s')"
  shows "advances X s s'"
  using caches_advances [OF pickWorkerQueue_caches assms(1), of env] assms(2) by simp

lemma tail_advances:
  assumes "safe X s"
  shows "advances X s (creditTail q x m s)" "advances X s (debitTail q x s)"
    "advances X s (broadcastQueueChange s)" "advances X s (kick s)" "advances X s (emit e s)"
  by (rule core_advances [OF _ assms], simp)+

lemma lease_place_advances:
  assumes safe: "safe X s" and own: "owned j GlobalQueueName i s" "j \<noteq> ''''"
    and e: "env_request_id e = j" "env_global_msg_id e = i"
    and pick: "pickWorkerQueue e0 s0 = (Some (c, x), s1)"
    and op: "LeaseAndSubmit GlobalQueueName i n (cd_queue c) e s = (r, s')"
  shows "advances X s s'"
proof -
  have q: "cd_queue c \<noteq> GlobalQueueName" using pick_target [OF pick] by simp
  show ?thesis
    using place_step [OF safe q e(2), of n] own e op by simp
qed

lemma placeOnWorkerQueue_advances:
  assumes safe: "safe X s" and own: "owned (env_request_id env) GlobalQueueName (env_global_msg_id env) s"
    and rid: "env_request_id env \<noteq> ''''"
  shows "advances X s (placeOnWorkerQueue env s)"
proof -
  obtain r s1 where pick: "pickWorkerQueue env s = (r, s1)" by fastforce
  note a1 = pick_advances [OF safe pick]
  show ?thesis
  proof (cases r)
    case None
    with pick a1 show ?thesis by (simp add: placeOnWorkerQueue_def)
  next
    case (Some cx)
    then obtain c x where cx: "r = Some (c, x)" by (cases cx) simp
    note pick = pick [unfolded cx]
    define e where "e = env\<lparr>env_queued_seconds := x\<rparr>"
    obtain l s2 where op: "LeaseAndSubmit GlobalQueueName (env_global_msg_id env) anchorLeaseDuration (cd_queue c) e s1
        = (l, s2)" by fastforce
    have "advances X s1 s2"
      by (rule lease_place_advances [OF _ owned_evolves [OF own a1] rid _ _ pick op])
        (use a1 in \<open>simp_all add: e_def\<close>)
    note a2 = advances_trans [OF a1 this]
    have "advances X s2 (broadcastQueueChange (creditTail (cd_queue c) x (env_model_id env) s2))"
      using tail_advances a2 by (meson advances_trans)
    with a2 have "advances X s (broadcastQueueChange (creditTail (cd_queue c) x (env_model_id env) s2))"
      by (rule advances_trans)
    with a1 a2 show ?thesis
      by (auto simp: placeOnWorkerQueue_def pick Let_def op [unfolded e_def] split: sum.split prod.split)
  qed
qed

text \<open>What \<open>Submit\<close> does to the jobs: an accepted request is kept from here on; a refused one leaves
  nothing behind, except that a request whose queue insert failed keeps its result row.\<close>

lemma Submit_safe:
  assumes safe: "safe X s" and fresh: "fresh_request rid s" and op: "Submit rid req s = (r, s')"
  shows "safe (case r of Inl _ \<Rightarrow> insert rid X | Inr _ \<Rightarrow> X) s'" "extends s s'"
    "live k s' \<Longrightarrow> live k s \<or> k = rid" "r = Inr i \<Longrightarrow> i = rid"
proof -
  have "safe (case r of Inl _ \<Rightarrow> insert rid X | Inr _ \<Rightarrow> X) s' \<and> extends s s'
      \<and> (live k s' \<longrightarrow> live k s \<or> k = rid) \<and> (r = Inr i \<longrightarrow> i = rid)"
  proof (cases "submit_check req s")
    case (Some e)
    with op have "s' = s" "r = Inl e" by (simp_all add: Submit_def)
    with safe show ?thesis by (auto intro: safe_mono)
  next
    case None
    define b where "b = length (sc_heap s)"
    define s1 where "s1 = s\<lparr>sc_heap := sc_heap s @ [(rid, newJobBuffer (clock s))],
        sc_buffers := AList.update rid b (sc_buffers s)\<rparr>"
    have rid: "rid \<noteq> ''''" "rid \<notin> set (keys (results s))" "rid \<notin> fst ` set (sc_heap s)"
      using fresh by (simp_all add: fresh_request_def)
    have unused: "rid \<notin> set (keys (sc_buffers s))"
      using safeD(6) [OF safe] rid(3) by (fastforce simp: durable_def in_set_conv_nth)
    have a1: "advances X s s1"
    proof (rule heap_step [OF safe])
      show e: "s1 = s\<lparr>sc_buffers := AList.update rid b (sc_buffers s),
          sc_heap := sc_heap s @ [(rid, newJobBuffer (clock s))]\<rparr>"
        by (simp add: s1_def)
      show "durable s1"
        using safeD(6) [OF safe] AList_update_fresh [OF unused, of b]
        unfolding e durable_def durable_live
        by (auto simp: b_def nth_append newJobBuffer_def)
    qed (simp_all add: nth_append)
    obtain c s2 where create: "Create rid s1 = (c, s2)" by fastforce
    have heap: "\<forall>(k, jb) \<in> set (sc_heap s1). k = rid \<longrightarrow> \<not> jb_terminal jb"
      using rid(3) by (force simp: s1_def newJobBuffer_def)
    have r1: "rid \<notin> set (keys (results s1))" using rid(2) by (simp add: s1_def)
    note c2 = create_step [OF conjunct1 [OF a1] r1 heap create]
    define e where "e = submit_envelope rid req"
    have e: "env_request_id e = rid" "env_global_msg_id e = ''''" by (simp_all add: e_def submit_envelope_def)
    obtain q s3 where sub: "Submit_queue GlobalQueueName e s2 = (q, s3)" by fastforce
    note step = submit_step [OF c2(2) e(1) rid(1) e(2)]
    have lv: "live k s2 \<longrightarrow> live k s \<or> k = rid" for k
      using a1 by (auto simp: c2(4) evolves_def)
    have ex: "extends s s2" using a1 c2(3) by (auto simp: evolves_def intro: extends_trans)
    have goal: "safe Y s' \<and> extends s s' \<and> (live k s' \<longrightarrow> live k s \<or> k = rid)" if "advances Y s2 s'" for Y s'
      using that ex lv by (auto simp: evolves_def intro: extends_trans)
    show ?thesis
    proof (cases q)
      case (Inl err)
      then have "advances (insert rid X) s2 s3" using step sub by simp
      moreover from this have "advances (insert rid X) s3 (dropJob rid s3)" by (intro dropJob_step) simp
      ultimately have a: "advances (insert rid X) s2 (dropJob rid s3)" by (rule advances_trans)
      have "Submit rid req s = (Inl (SubmitFailed err), dropJob rid s3)"
        using create c2(1) sub Inl
        by (simp add: Submit_def None alloc_buffer_def Let_def s1_def b_def e_def)
      with op have "s' = dropJob rid s3" "r = Inl (SubmitFailed err)" by simp_all
      with goal [OF a] show ?thesis by simp
    next
      case (Inr g)
      then have a3: "advances X s2 s3" using step sub by simp
      have own: "owned rid GlobalQueueName g s3" using step unfolding sub Inr prod.case sum.case by blast
      define e' where "e' = e\<lparr>env_global_msg_id := g\<rparr>"
      have a4: "advances X s3 (broadcastQueueChange s3)" using a3 by (intro tail_advances(3)) simp
      have a5: "advances X (broadcastQueueChange s3) (placeOnWorkerQueue e' (broadcastQueueChange s3))"
        by (rule placeOnWorkerQueue_advances)
          (use a4 rid(1) e owned_evolves [OF own a4] in \<open>simp_all add: e'_def\<close>)
      have a6: "advances X (placeOnWorkerQueue e' (broadcastQueueChange s3))
          (kick (placeOnWorkerQueue e' (broadcastQueueChange s3)))"
        using a5 by (intro tail_advances(4)) simp
      have a: "advances X s2 (kick (placeOnWorkerQueue e' (broadcastQueueChange s3)))"
        using a3 a4 a5 a6 advances_trans by blast
      have "Submit rid req s = (Inr rid, kick (placeOnWorkerQueue e' (broadcastQueueChange s3)))"
        using create c2(1) sub Inr
        by (simp add: Submit_def None alloc_buffer_def Let_def s1_def b_def e_def e'_def)
      with op have "s' = kick (placeOnWorkerQueue e' (broadcastQueueChange s3))" "r = Inr rid" by simp_all
      with goal [OF a] show ?thesis by simp
    qed
  qed
  then show "safe (case r of Inl _ \<Rightarrow> insert rid X | Inr _ \<Rightarrow> X) s'" "extends s s'"
    "live k s' \<Longrightarrow> live k s \<or> k = rid" "r = Inr i \<Longrightarrow> i = rid" by blast+
qed

subsection \<open>Messages in hand\<close>

text \<open>What a message read from a queue stands for, as long as nobody rewrote its row's job.\<close>

definition msg_job :: "'m message_scheme \<Rightarrow> request_id" where
  "msg_job m = (case body_rid (msg_body m) of Some i \<Rightarrow> i | None \<Rightarrow> msg_id m)"

definition tells :: "request_id option \<Rightarrow> queue_name \<Rightarrow> message_id \<Rightarrow> sched \<Rightarrow> bool" where
  "tells o' q i s \<longleftrightarrow> i \<in> insert [] (drawn s)
     \<and> (\<forall>r \<in> set (rows s). is_row q i r \<longrightarrow> body_rid (row_body r) = o')"

lemma tells_extends:
  assumes "tells o' q i s" "extends s s'" "database_ok s'"
  shows "tells o' q i s'"
proof -
  have i: "i \<in> insert [] (drawn s)" using assms(1) by (simp add: tells_def)
  have "body_rid (row_body r) = o'" if r: "r \<in> set (rows s')" "is_row q i r" for r
    using known_row [OF assms(2,3) i r] assms(1) by (metis tells_def from_row_def)
  with i assms(2) show ?thesis by (auto simp: tells_def extends_def)
qed

definition claims :: "queue_name \<Rightarrow> 'm message_scheme \<Rightarrow> sched \<Rightarrow> bool" where
  "claims q m s \<longleftrightarrow> body_rid (msg_body m) \<noteq> Some '''' \<and> owned (msg_job m) q (msg_id m) s
     \<and> tells (body_rid (msg_body m)) q (msg_id m) s
     \<and> names (body_gmid (msg_body m)) q (msg_id m) s
     \<and> (q \<noteq> GlobalQueueName \<longrightarrow> owned (msg_job m) GlobalQueueName (body_gmid (msg_body m)) s)"

lemma claims_extends: "claims q m s \<Longrightarrow> extends s s' \<Longrightarrow> database_ok s' \<Longrightarrow> claims q m s'"
  unfolding claims_def by (blast intro: owned_extends names_extends tells_extends)

lemma claims_evolves: "claims q m s \<Longrightarrow> advances X s s' \<Longrightarrow> claims q m s'"
  by (rule claims_extends) (auto simp: evolves_def safe_def)

lemma claims_row:
  assumes safe: "safe X s" and r: "r \<in> set (rows s)" "row_queue r = q"
    and m: "msg_id m = row_id r" "msg_body m = row_body r"
  shows "claims q m s"
proof -
  note ok = safeD(1) [OF safe]
  have uniq: "r' = r" if "r' \<in> set (rows s)" "row_id r' = row_id r" for r'
    using ok that r(1) by (auto simp: database_ok_def distinct_map inj_on_def)
  have named: "body_rid (row_body r) \<noteq> Some ''''"
    using safeD(3) [OF safe] r(1) by (simp add: named_def)
  have job: "msg_job m = job_id r"
    using named by (simp add: msg_job_def job_id_rid m split: option.split)
  have ids: "row_id r \<in> drawn s" "body_gmid (row_body r) \<in> insert [] (drawn s)"
    using row_ids(2) [OF ok r(1)] ok r(1) by (auto simp: database_ok_def)
  show ?thesis
    using named ids uniq safeD(2) [OF safe] r
    unfolding claims_def job m by (auto simp: owned_def names_def tells_def is_row_def linked_def)
qed

lemma Peek_claims:
  assumes "safe X s" "Peek q n s = (Inr ms, s')" "m \<in> set ms"
  shows "claims q m s'"
proof -
  have a: "advances X s s'" using query_step(1) [OF assms(1), of q n] assms(2) by simp
  from assms(2,3) obtain r where "r \<in> set (rows s)" "row_queue r = q" "m = message_of r"
    by (auto simp: Peek_def qtx_def Let_def queue_order_def split: if_splits dest!: in_set_takeD)
  then have "claims q m s" by (intro claims_row [OF assms(1)]) (simp_all add: message_of_def)
  then show ?thesis using a by (rule claims_evolves)
qed

lemma PeekAll_claims:
  assumes "safe X s" "PeekAll q n s = (Inr ms, s')" "m \<in> set ms"
  shows "claims q m s'"
proof -
  have a: "advances X s s'" using query_step(2) [OF assms(1), of q n] assms(2) by simp
  from assms(2,3) obtain r where "r \<in> set (rows s)" "row_queue r = q" "msg_id m = row_id r" "msg_body m = row_body r"
    by (auto simp: PeekAll_def qtx_def Let_def queue_order_def split: if_splits dest!: in_set_takeD)
  then have "claims q m s" by (intro claims_row [OF assms(1)])
  then show ?thesis using a by (rule claims_evolves)
qed

lemma LeaseByID_claims:
  assumes "safe X s" "q \<noteq> GlobalQueueName" "LeaseByID q i n s = (Inr (Some m), s')"
  shows "claims q m s'" "msg_id m = i"
proof -
  have a: "advances X s s'" using lease_steps(4) [OF assms(1,2), of i n] assms(3) by simp
  have "\<exists>r \<in> set (rows s). row_queue r = q \<and> m = \<lparr> msg_id = row_id r, msg_body = row_body r \<rparr> \<and> row_id r = i"
    using assms(3)
    by (auto simp: LeaseByID_def leaseByIDTx_def qtx_def Let_def is_row_def leasable_def find_Some_iff
        split: if_splits option.splits)
  then obtain r where r: "r \<in> set (rows s)" "row_queue r = q" "m = \<lparr> msg_id = row_id r, msg_body = row_body r \<rparr>" "row_id r = i"
    by blast
  then have "claims q m s" by (intro claims_row [OF assms(1)]) simp_all
  then show "claims q m s'" using a by (rule claims_evolves)
  show "msg_id m = i" using r by simp
qed

lemma claims_encoded:
  assumes "claims q m s" "msg_body m = Encoded e"
  shows "env_request_id e \<noteq> ''''" "owned (env_request_id e) q (msg_id m) s"
    "names (env_global_msg_id e) q (msg_id m) s"
    "q \<noteq> GlobalQueueName \<Longrightarrow> owned (env_request_id e) GlobalQueueName (env_global_msg_id e) s"
  using assms by (auto simp: claims_def msg_job_def body_gmid_def)

lemma failUnbenchable_advances:
  assumes safe: "safe X s" and own: "owned (env_request_id env) GlobalQueueName i s"
  shows "advances X s (failUnbenchable i env msg s)"
proof -
  define j where "j = env_request_id env"
  define etext where "etext = unbenchable_text msg"
  define s1 where "s1 = emit (JobDispatched (env_runtime_name env) ''error'') s"
  define s2 where "s2 = failResult j etext s1"
  obtain b s3 where e: "ensureJobBuffer j s2 = (b, s3)" by fastforce
  define s4 where "s4 = append_buffer b (error_chunk etext) s3"
  define s5 where "s5 = snd (Delete GlobalQueueName i s4)"
  have a1: "advances X s s1" unfolding s1_def by (rule tail_advances(5) [OF safe])
  have a2: "advances X s1 s2" "\<not> live j s2"
    using failResult_step [of X s1] a1 by (simp_all add: s2_def)
  have a3: "advances X s2 s3" "holds_buffer j b s3" "\<not> live j s3"
    using ensureJobBuffer_step [OF _ e] a2 live_evolves by blast+
  have a4: "advances X s3 s4" unfolding s4_def using a3 by (intro append_buffer_step) auto
  have a14: "advances X s s4" using a1 a2 a3 a4 advances_trans by blast
  have dead: "\<not> live j s4" using a3 a4 live_evolves by blast
  have a5: "advances X s4 s5"
    unfolding s5_def using a14 dead owned_evolves [OF own a14] by (intro delete_steps(1)) (auto simp: j_def)
  have a6: "advances X s5 (broadcastQueueChange s5)" using a5 by (intro tail_advances(3)) simp
  have "failUnbenchable i env msg s = broadcastQueueChange s5"
    using e by (simp add: failUnbenchable_def Let_def etext_def s1_def s2_def s4_def s5_def j_def)
  with a14 a5 a6 advances_trans show ?thesis by metis
qed

lemma drain_global_row_advances:
  assumes safe: "safe X s" and m: "claims GlobalQueueName m s"
  shows "advances X s (snd (drain_global_row m s))"
proof (cases "msg_body m")
  case (Garbage err)
  with safe show ?thesis by (simp add: drain_global_row_def)
next
  case (Encoded e0)
  define e where "e = e0\<lparr>env_global_msg_id := msg_id m\<rparr>"
  have e: "env_request_id e \<noteq> ''''" "owned (env_request_id e) GlobalQueueName (msg_id m) s"
    "env_global_msg_id e = msg_id m"
    using claims_encoded [OF m Encoded] by (simp_all add: e_def)
  obtain r s1 where pick: "pickWorkerQueue e s = (r, s1)" by fastforce
  note a1 = pick_advances [OF safe pick]
  show ?thesis
  proof (cases r)
    case None
    obtain p etext s2 where c: "modelBenchConclusion e s1 = ((p, etext), s2)" by (metis surj_pair)
    have a2: "advances X s1 s2"
      using caches_advances [OF modelBenchConclusion_caches, of X s1 e] a1 c by simp
    note a12 = advances_trans [OF a1 a2]
    have "advances X s2 (failUnbenchable (msg_id m) e etext s2)"
      using a12 owned_evolves [OF e(2) a12] by (intro failUnbenchable_advances) simp_all
    from a12 advances_trans [OF a12 this] show ?thesis
      by (simp add: drain_global_row_def Encoded e_def [symmetric] pick None c)
  next
    case (Some cx)
    obtain c x where cx: "cx = (c, x)" by (cases cx) simp
    note pick = pick [unfolded Some cx]
    define e' where "e' = e\<lparr>env_queued_seconds := x\<rparr>"
    obtain l s2 where op: "LeaseAndSubmit GlobalQueueName (msg_id m) anchorLeaseDuration (cd_queue c) e' s1
        = (l, s2)" by fastforce
    have "advances X s1 s2"
      by (rule lease_place_advances [OF _ owned_evolves [OF e(2) a1] e(1) _ _ pick op])
        (use a1 e(3) in \<open>simp_all add: e'_def\<close>)
    note a2 = advances_trans [OF a1 this]
    have "advances X s2 (creditTail (cd_queue c) x (env_model_id e) s2)"
      using a2 by (intro tail_advances(1)) simp
    with a2 advances_trans [OF a2 this] show ?thesis
      by (auto simp: drain_global_row_def Encoded e_def [symmetric] pick Let_def op [unfolded e'_def]
          split: sum.split prod.split)
  qed
qed

lemma drain_global_rows_advances:
  assumes "safe X s" "\<And>m. m \<in> set ms \<Longrightarrow> claims GlobalQueueName m s"
  shows "advances X s (snd (drain_global_rows ms p s))"
  using assms
proof (induction ms arbitrary: p s)
  case (Cons m ms)
  obtain b s1 where d: "drain_global_row m s = (b, s1)" by fastforce
  have a: "advances X s s1" using drain_global_row_advances [OF Cons.prems(1), of m] Cons.prems(2) d by simp
  have "advances X s1 (snd (drain_global_rows ms (p \<or> b) s1))"
    using a Cons.prems(2) by (intro Cons.IH) (auto intro: claims_evolves)
  with a d show ?case by (auto intro: evolves_trans)
qed simp

lemma drainGlobal_advances:
  assumes "safe X s" shows "advances X s (snd (drainGlobal s))"
proof -
  obtain r s1 where p: "Peek GlobalQueueName 32 s = (r, s1)" by fastforce
  have a: "advances X s s1" using query_step(1) [OF assms, of GlobalQueueName 32] p by simp
  have "advances X s1 (snd (drain_global_rows ms False s1))" if "r = Inr ms" for ms
    using a p that Peek_claims [OF assms] by (intro drain_global_rows_advances) auto
  with a assms show ?thesis
    by (auto simp: drainGlobal_def p split: sum.split intro: evolves_trans)
qed

end
