(* ===== verification/Lifecycle.thy ===== *)
theory Lifecycle
  imports Submission
begin

text \<open>
  Worker queues from connect to disconnect, and the periodic sweeps (\<open>scheduler.go\<close>): materialising
  a worker's queue, re-estimating it after a device toggle, draining it back to the global queue,
  recovery and the reaping of abandoned rows at start, the orphan sweep, the replay-buffer sweep, the
  gauges and idle eviction.

  Every loop over rows, queues or buffers is a function on one element and its iteration.
\<close>

subsection \<open>Evicting models\<close>

text \<open>\<open>unload\<close> is whether the worker's \<open>UnloadModel\<close> call succeeds.\<close>

definition EvictModel :: "(worker_id \<Rightarrow> model_id \<Rightarrow> bool) \<Rightarrow> runtime_name \<Rightarrow> model_id \<Rightarrow> worker_id
    \<Rightarrow> sched \<Rightarrow> nat \<times> sched" where
  "EvictModel unload rt m wid s =
     (let ws = filter (\<lambda>w. wid = '''' \<or> w_id w = wid) (WorkersWithModel rt m s);
          done = filter (\<lambda>w. unload (w_id w) m) ws
      in (length done, fold (\<lambda>w. emit (LoadedChanged (w_id w))) done s))"

definition idle_victims :: "time \<Rightarrow> stream_worker \<Rightarrow> loaded_model list" where
  "idle_victims cutoff w = filter (\<lambda>lm. \<not> (lm_active lm > 0 \<or> (case lm_idle_since lm of
      None \<Rightarrow> True | Some t \<Rightarrow> t > cutoff))) (w_loaded w)"

definition evictIdleOnce :: "(worker_id \<Rightarrow> model_id \<Rightarrow> bool) \<Rightarrow> time \<Rightarrow> sched \<Rightarrow> sched" where
  "evictIdleOnce unload ttl s =
     (let cutoff = clock s - ttl
      in fold (\<lambda>w s. if \<not> w_online w then s
            else fold (\<lambda>lm s. snd (EvictModel unload (w_runtime w) (lm_model_id lm) (w_id w) s))
                   (idle_victims cutoff w) s)
           (All_workers (sc_fleet s)) s)"

subsection \<open>Connect and re-estimate\<close>

definition OnWorkerConnected :: "stream_worker \<Rightarrow> sched \<Rightarrow> sched" where
  "OnWorkerConnected w s =
     (if \<not> sc_initialised s then s
      else case workerIsSchedulable w s of
        (schedulable, s) \<Rightarrow>
          if \<not> schedulable then s
          else let q = workerQueueName (w_id w);
                   devs = enabledDeviceIDs w s;
                   s = (if q \<in> set (sc_queues s) then s else s\<lparr>sc_queues := sc_queues s @ [q]\<rparr>);
                   s = openTail q (w_id w) devs s
               in kick (emit (BenchSweep (w_id w)) s))"

definition TryReestimateLock :: "worker_id \<Rightarrow> sched \<Rightarrow> bool \<times> sched" where
  "TryReestimateLock w s =
     (if w \<in> set (sc_reestimating s) then (False, s)
      else (True, s\<lparr>sc_reestimating := w # sc_reestimating s\<rparr>))"

definition releaseReestimate :: "worker_id \<Rightarrow> sched \<Rightarrow> sched" where
  "releaseReestimate w s = s\<lparr>sc_reestimating := removeAll w (sc_reestimating s)\<rparr>"

record reestimate =
  re_sum :: seconds
  re_model :: model_id
  re_resident :: model_id

definition reestimate_row :: "queue_name \<Rightarrow> stream_worker \<Rightarrow> rat \<Rightarrow> peek_row \<Rightarrow> reestimate \<Rightarrow> sched
    \<Rightarrow> reestimate \<times> sched" where
  "reestimate_row q sw loadBytesSec m acc s = (case unmarshal_body (msg_body m) of
      Inl _ \<Rightarrow> (acc, s)
    | Inr env \<Rightarrow>
        let advance = (\<lambda>x acc. if env_model_id env \<noteq> ''''
              then \<lparr> re_sum = re_sum acc + x, re_model = env_model_id env, re_resident = env_model_id env \<rparr>
              else acc\<lparr>re_sum := re_sum acc + x\<rparr>)
        in if peek_leased m then (advance (env_queued_seconds env) acc, s)
           else case predictedQueuedSeconds sw env loadBytesSec (re_resident acc) s of
             (newQueued, s) \<Rightarrow>
               let env' = env\<lparr>env_queued_seconds := newQueued\<rparr>;
                   s = snd (UpdateBody q (msg_id m) (Encoded env') s)
               in (advance newQueued acc, s))"

fun reestimate_rows :: "queue_name \<Rightarrow> stream_worker \<Rightarrow> rat \<Rightarrow> peek_row list \<Rightarrow> reestimate \<Rightarrow> sched
    \<Rightarrow> reestimate \<times> sched" where
  "reestimate_rows q sw r [] acc s = (acc, s)"
| "reestimate_rows q sw r (m # ms) acc s = (case reestimate_row q sw r m acc s of
     (acc, s) \<Rightarrow> reestimate_rows q sw r ms acc s)"

definition ReestimateWorkerQueue :: "worker_id \<Rightarrow> sched \<Rightarrow> sched" where
  "ReestimateWorkerQueue w s = (case Get_worker w (sc_fleet s) of
      None \<Rightarrow> s
    | Some sw \<Rightarrow>
        let q = workerQueueName w in
        if q \<notin> set (sc_queues s) \<or> \<not> sc_initialised s then s
        else case PeekAll q peekAllLimit s of
          (Inl _, s) \<Rightarrow> s
        | (Inr ms, s) \<Rightarrow>
            let (loadBytesSec, s) = effectiveLoadThroughput sw s;
                resident = (case w_loaded sw of [] \<Rightarrow> '''' | lm # _ \<Rightarrow> lm_model_id lm);
                (acc, s) = reestimate_rows q sw loadBytesSec ms
                  \<lparr> re_sum = 0, re_model = '''', re_resident = resident \<rparr> s
            in broadcastQueueChange (replaceTail q (re_sum acc) (re_model acc) s))"

subsection \<open>Draining a worker queue\<close>

fun decimal_digits :: "nat \<Rightarrow> nat \<Rightarrow> string" where
  "decimal_digits 0 n = ''''"
| "decimal_digits (Suc k) n =
     (if n < 10 then [char_of (48 + n)] else decimal_digits k (n div 10) @ [char_of (48 + n mod 10)])"

definition decimal :: "nat \<Rightarrow> string" where
  "decimal n = decimal_digits (Suc n) n"

definition disconnect_text :: "8 word \<Rightarrow> string" where
  "disconnect_text attempts = ''worker disconnected while the job was running (attempt ''
     @ decimal (unat (attempts + 1)) @ ''/'' @ decimal (nat disconnectRequeueBudget) @ '')''"

definition drain_row :: "queue_name \<Rightarrow> bool \<Rightarrow> peek_row \<Rightarrow> sched \<Rightarrow> sched" where
  "drain_row q includeLeased m s =
     (if peek_leased m \<and> \<not> includeLeased then s
      else case unmarshal_body (msg_body m) of
        Inl _ \<Rightarrow> s
      | Inr env \<Rightarrow>
          let rid = env_request_id env;
              g = env_global_msg_id env;
              deleteBoth = (\<lambda>s. snd (DeleteBoth q (msg_id m) GlobalQueueName g s))
          in if isInflightCancelled rid s then deleteBoth (failResult rid ''cancelled by operator'' s)
             else case resultIsTerminal rid s of
               (True, s) \<Rightarrow> deleteBoth s
             | (False, s) \<Rightarrow>
                 if \<not> peek_leased m then snd (DeleteAndReleaseLease q (msg_id m) GlobalQueueName g s)
                 else if uint (env_attempts env) + 1 \<ge> disconnectRequeueBudget
                 then deleteBoth (failResult rid (disconnect_text (env_attempts env)) s)
                 else
                   let env' = env\<lparr>env_attempts := env_attempts env + 1, env_global_msg_id := '''',
                         env_queued_seconds := 0\<rparr>
                   in case DeleteBoth q (msg_id m) GlobalQueueName g s of
                        (Inl _, s) \<Rightarrow> s
                      | (Inr _, s) \<Rightarrow> (case Submit_queue GlobalQueueName env' s of
                            (Inl err, s) \<Rightarrow> failResult rid
                              (''requeue after worker disconnect failed: '' @ sc_error_text s err) s
                          | (Inr _, s) \<Rightarrow> pendingResult rid s))"

fun drain_rows :: "queue_name \<Rightarrow> bool \<Rightarrow> peek_row list \<Rightarrow> sched \<Rightarrow> sched" where
  "drain_rows q includeLeased [] s = s"
| "drain_rows q includeLeased (m # ms) s = drain_rows q includeLeased ms (drain_row q includeLeased m s)"

definition drainWorkerQueue :: "queue_name \<Rightarrow> bool \<Rightarrow> sched \<Rightarrow> sched" where
  "drainWorkerQueue q includeLeased s = (case PeekAll q peekAllLimit s of
      (Inl _, s) \<Rightarrow> s
    | (Inr ms, s) \<Rightarrow> drain_rows q includeLeased ms s)"

definition removeWorkerQueue :: "worker_id \<Rightarrow> sched \<Rightarrow> sched" where
  "removeWorkerQueue w s =
     (let q = workerQueueName w in
      if \<not> sc_initialised s \<or> q \<notin> set (sc_queues s) then s
      else let s = drainWorkerQueue q True s;
               s = s\<lparr>sc_queues := removeAll q (sc_queues s)\<rparr>
           in closeTail q s)"

definition OnWorkerDevicesChanged :: "worker_id \<Rightarrow> sched \<Rightarrow> sched" where
  "OnWorkerDevicesChanged w s = (case Get_worker w (sc_fleet s) of
      None \<Rightarrow> s
    | Some sw \<Rightarrow>
        let q = workerQueueName w in
        if \<not> sc_initialised s \<or> q \<notin> set (sc_queues s) then s
        else if length (deviceSet sw s) = 0 then broadcastQueueChange (drainWorkerQueue q False s)
        else broadcastQueueChange (kick (emit (BenchSweep (w_id sw)) s)))"

definition OnWorkerDisconnected :: "worker_id \<Rightarrow> sched \<Rightarrow> sched" where
  "OnWorkerDisconnected w s =
     (let rt = (case Get_worker w (sc_fleet s) of None \<Rightarrow> '''' | Some sw \<Rightarrow> w_runtime sw);
          s = emit (WorkerDisconnect rt) s;
          s = InvalidateWorkerBench w s;
          s = InvalidateModelBenchmarks w s;
          s = emit (BenchStop w) s
      in removeWorkerQueue w s)"

subsection \<open>Start: reap what a crash stranded, reattach the queues\<close>

fun recover_queues :: "(queue_name \<times> queue_state) list \<Rightarrow> sched \<Rightarrow> sched" where
  "recover_queues [] s = s"
| "recover_queues ((q, st) # sts) s = recover_queues sts
     (if q \<in> set (sc_queues s) then s else s\<lparr>sc_queues := sc_queues s @ [q]\<rparr>)"

fun recover_tails :: "(queue_name \<times> queue_state) list \<Rightarrow> sched \<Rightarrow> sched" where
  "recover_tails [] s = s"
| "recover_tails ((q, st) # sts) s = recover_tails sts
     (if map_of (sc_mirror s) q \<noteq> None then s
      else s\<lparr>sc_mirror := AList.update q
        \<lparr> ts_seconds = max 0 (qs_tail_seconds st), ts_model = qs_tail_model st \<rparr> (sc_mirror s)\<rparr>)"

definition recoverPersistedQueues :: "sched \<Rightarrow> sched" where
  "recoverPersistedQueues s =
     (if \<not> sc_initialised s then s
      else case ListWorkerQueueStates s of
        (Inl _, s) \<Rightarrow> s
      | (Inr sts, s) \<Rightarrow> recover_tails sts (recover_queues sts s))"

definition reapAbandonedAtStartup :: "sched \<Rightarrow> sched" where
  "reapAbandonedAtStartup s =
     (if \<not> sc_initialised s then s
      else case ListWorkerQueueStates s of
        (Inl _, s) \<Rightarrow> snd (ReapAbandoned [] s)
      | (Inr sts, s) \<Rightarrow> snd (ReapAbandoned (map fst sts) s))"

definition Start :: "sched \<Rightarrow> sched" where
  "Start s = recoverPersistedQueues (reapAbandonedAtStartup s)"

subsection \<open>Periodic sweeps\<close>

definition reap_text :: string where
  "reap_text = ''job reaped: no terminal frame within 24h0m0s''"

definition reap_buffer :: "request_id \<times> nat \<Rightarrow> sched \<Rightarrow> sched" where
  "reap_buffer = (\<lambda>(i, b) s. append_buffer b (error_chunk reap_text) (failResult i reap_text s))"

definition sweepReplayBuffers :: "time \<Rightarrow> sched \<Rightarrow> sched" where
  "sweepReplayBuffers ttl s =
     (let terminalCutoff = clock s - ttl;
          ageCutoff = clock s - jobBufferMaxAge;
          finished = (\<lambda>(i, b). let (terminal, since) = terminalReached (snd (sc_heap s ! b))
             in terminal \<and> since < terminalCutoff);
          aged = (\<lambda>(i, b). let jb = snd (sc_heap s ! b)
             in \<not> fst (terminalReached jb) \<and> jb_created jb < ageCutoff);
          lapsed = filter aged (sc_buffers s)
      in fold reap_buffer lapsed
           (s\<lparr>sc_buffers := filter (\<lambda>e. \<not> finished e \<and> \<not> aged e) (sc_buffers s)\<rparr>))"

fun orphan_scan :: "queue_name list \<Rightarrow> worker_id list \<Rightarrow> queue_name list \<Rightarrow> sched
    \<Rightarrow> (worker_id list \<times> queue_name list) \<times> sched" where
  "orphan_scan [] lapsed present s = ((lapsed, present), s)"
| "orphan_scan (q # qs) lapsed present s = (case parseWorkerQueueName q of
      None \<Rightarrow> orphan_scan qs lapsed present s
    | Some w \<Rightarrow>
        if Get_worker w (sc_fleet s) \<noteq> None
        then orphan_scan qs lapsed present (s\<lparr>sc_orphans := AList.delete q (sc_orphans s)\<rparr>)
        else case map_of (sc_orphans s) q of
          None \<Rightarrow> orphan_scan qs lapsed (present @ [q])
                    (s\<lparr>sc_orphans := AList.update q (clock s) (sc_orphans s)\<rparr>)
        | Some since \<Rightarrow>
            if clock s - since \<ge> sc_orphan_grace s
            then orphan_scan qs (lapsed @ [w]) (present @ [q])
                   (s\<lparr>sc_orphans := AList.delete q (sc_orphans s)\<rparr>)
            else orphan_scan qs lapsed (present @ [q]) s)"

definition sweepOrphanQueues :: "sched \<Rightarrow> sched" where
  "sweepOrphanQueues s = (case orphan_scan (sc_queues s) [] [] s of
     ((lapsed, present), s) \<Rightarrow>
       fold removeWorkerQueue lapsed
         (s\<lparr>sc_orphans := filter (\<lambda>(q, _). q \<in> set present) (sc_orphans s)\<rparr>))"

subsection \<open>Gauges\<close>

definition count_labels :: "runtime_name list \<Rightarrow> (runtime_name \<times> nat) list" where
  "count_labels rts = fold (\<lambda>rt m. AList.update rt
     (Suc (case map_of m rt of None \<Rightarrow> 0 | Some n \<Rightarrow> n)) m) rts []"

fun worker_depth :: "queue_name list \<Rightarrow> nat \<Rightarrow> sched \<Rightarrow> nat \<times> sched" where
  "worker_depth [] n s = (n, s)"
| "worker_depth (q # qs) n s = (case Depth q s of
      (Inl _, s) \<Rightarrow> worker_depth qs n s
    | (Inr d, s) \<Rightarrow> worker_depth qs (n + d) s)"

definition global_depth :: "sched \<Rightarrow> nat \<times> sched" where
  "global_depth s =
     (if \<not> sc_initialised s then (0, s)
      else case Depth GlobalQueueName s of (Inl _, s) \<Rightarrow> (0, s) | (Inr d, s) \<Rightarrow> (d, s))"

definition refreshGauges :: "sched \<Rightarrow> sched" where
  "refreshGauges s =
     (let byRuntime = count_labels (map w_runtime (All_workers (sc_fleet s)));
          s = fold (\<lambda>(rt, n). emit (WorkersGauge rt n)) byRuntime s;
          (globalPending, s) = global_depth s;
          (workerPending, s) = worker_depth (sc_queues s) 0 s;
          s = emit (DepthGauge ''worker'' workerPending) (emit (DepthGauge ''global'' globalPending) s);
          inflight = count_labels (map (if_runtime \<circ> snd) (sc_inflight s));
          s = fold (\<lambda>(rt, n). emit (InflightGauge rt n)) inflight s;
          (prevWorkers, prevInflight) = sc_prev_runtimes s;
          s = fold (\<lambda>rt. emit (WorkersGauge rt 0)) (filter (\<lambda>rt. rt \<notin> set (keys byRuntime)) prevWorkers) s;
          s = fold (\<lambda>rt. emit (InflightGauge rt 0)) (filter (\<lambda>rt. rt \<notin> set (keys inflight)) prevInflight) s
      in s\<lparr>sc_prev_runtimes := (keys byRuntime, keys inflight)\<rparr>)"

subsection \<open>Every step keeps the jobs\<close>

lemma fold_core:
  assumes "\<And>x s. x \<in> set xs \<Longrightarrow> core_same s (f x s)"
  shows "core_same s (fold f xs s)"
  using assms
proof (induction xs arbitrary: s)
  case (Cons x xs)
  have "core_same s (f x s)" using Cons.prems by simp
  also have "core_same (f x s) (fold f xs (f x s))" using Cons by simp
  finally show ?case by simp
qed simp

lemma fold_advances:
  assumes "safe X s" "\<And>x s. safe X s \<Longrightarrow> x \<in> set xs \<Longrightarrow> advances X s (f x s)"
  shows "advances X s (fold f xs s)"
  using assms
proof (induction xs arbitrary: s)
  case (Cons x xs)
  have a: "advances X s (f x s)" using Cons.prems by simp
  then have "advances X (f x s) (fold f xs (f x s))" using Cons by simp
  with a show ?case by (auto intro: evolves_trans)
qed simp

lemma EvictModel_core [simp]: "core_same s (snd (EvictModel unload rt m w s))"
  by (simp add: EvictModel_def Let_def fold_core)

lemma evictIdleOnce_core [simp]: "core_same s (evictIdleOnce unload ttl s)"
  by (auto simp: evictIdleOnce_def Let_def intro!: fold_core)

lemma field_core [simp]:
  "GlobalQueueName \<notin> set qs - set (sc_queues s) \<Longrightarrow> core_same s (s\<lparr>sc_queues := qs\<rparr>)" "core_same s (s\<lparr>sc_mirror := m\<rparr>)" "core_same s (s\<lparr>sc_orphans := os\<rparr>)"
  "core_same s (s\<lparr>sc_reestimating := ws\<rparr>)" "core_same s (s\<lparr>sc_prev_runtimes := p\<rparr>)"
  "core_same s (s\<lparr>sc_fleet := f\<rparr>)"
  by (auto simp add: core_same_def proper_def)

lemma OnWorkerConnected_advances:
  assumes safe: "safe X s" shows "advances X s (OnWorkerConnected w s)"
proof (cases "sc_initialised s")
  case True
  obtain b s1 where w: "workerIsSchedulable w s = (b, s1)" by fastforce
  have a1: "core_same s s1"
    using caches_only_core [OF workerIsSchedulable_caches, of s w] w by simp
  define q where "q = workerQueueName (w_id w)"
  define s2 where "s2 = (if q \<in> set (sc_queues s1) then s1 else s1\<lparr>sc_queues := sc_queues s1 @ [q]\<rparr>)"
  define s3 where "s3 = openTail q (w_id w) (enabledDeviceIDs w s1) s2"
  have "core_same s1 s2" by (simp add: s2_def q_def)
  also have "core_same s2 s3" by (simp add: s3_def q_def)
  also have "core_same s3 (emit (BenchSweep (w_id w)) s3)" by simp
  also have "core_same \<dots> (kick \<dots>)" by simp
  finally have a2: "core_same s (kick (emit (BenchSweep (w_id w)) s3))" by (rule core_same_trans [OF a1])
  have "OnWorkerConnected w s = (if b then kick (emit (BenchSweep (w_id w)) s3) else s1)"
    using True by (simp add: OnWorkerConnected_def w Let_def q_def s2_def s3_def)
  with core_advances [OF a1 safe] core_advances [OF a2 safe] show ?thesis by simp
qed (use safe in \<open>simp add: OnWorkerConnected_def\<close>)

lemma claims_rewrite:
  assumes safe: "safe X s" and q: "q \<noteq> GlobalQueueName" and m: "claims q m s" "msg_body m = Encoded e"
    and e': "env_request_id e' = env_request_id e" "env_global_msg_id e' = env_global_msg_id e"
  shows "advances X s (snd (UpdateBody q (msg_id m) (Encoded e') s))"
  by (rule rewrite_step [OF safe q])
    (use m e' in \<open>auto simp: claims_def names_def tells_def body_gmid_def\<close>)

lemma claims_delete:
  assumes safe: "safe X s" and q: "q \<noteq> GlobalQueueName" and m: "claims q m s" "msg_body m = Encoded e"
    and dead: "\<not> live (env_request_id e) s \<or> env_request_id e \<in> X"
  shows "advances X s (snd (DeleteBoth q (msg_id m) GlobalQueueName (env_global_msg_id e) s))"
    "advances X s (snd (Delete q (msg_id m) s))"
  using delete_steps [OF safe dead] claims_encoded [OF m] q by blast+

lemma claims_release:
  assumes safe: "safe X s" and q: "q \<noteq> GlobalQueueName" and m: "claims q m s" "msg_body m = Encoded e"
  shows "advances X s (snd (DeleteAndReleaseLease q (msg_id m) GlobalQueueName (env_global_msg_id e) s))"
  by (rule release_step [OF safe q claims_encoded(3) [OF m]])

lemma reestimate_row_advances:
  assumes safe: "safe X s" and q: "q \<noteq> GlobalQueueName" and m: "claims q m s"
  shows "advances X s (snd (reestimate_row q sw r m acc s))"
proof (cases "msg_body m")
  case (Encoded e)
  obtain x s1 where p: "predictedQueuedSeconds sw e r (re_resident acc) s = (x, s1)" by fastforce
  have a1: "advances X s s1"
    using caches_advances [OF predictedQueuedSeconds_caches safe, of sw e r "re_resident acc"] p by simp
  have "advances X s1 (snd (UpdateBody q (msg_id m) (Encoded (e\<lparr>env_queued_seconds := x\<rparr>)) s1))"
    by (rule claims_rewrite [OF _ q claims_evolves [OF m a1] Encoded]) (use a1 in simp_all)
  from advances_trans [OF a1 this] safe show ?thesis
    by (simp add: reestimate_row_def Encoded p Let_def)
qed (use safe in \<open>simp add: reestimate_row_def\<close>)

lemma reestimate_rows_advances:
  assumes "safe X s" "q \<noteq> GlobalQueueName" "\<And>m. m \<in> set ms \<Longrightarrow> claims q m s"
  shows "advances X s (snd (reestimate_rows q sw r ms acc s))"
  using assms
proof (induction ms arbitrary: acc s)
  case (Cons m ms)
  obtain acc' s1 where d: "reestimate_row q sw r m acc s = (acc', s1)" by fastforce
  have a: "advances X s s1"
    using reestimate_row_advances [OF Cons.prems(1,2), of m sw r acc] Cons.prems(3) d by simp
  have "advances X s1 (snd (reestimate_rows q sw r ms acc' s1))"
    using a Cons.prems(2,3) by (intro Cons.IH) (auto intro: claims_evolves)
  with a d show ?case by (auto intro: evolves_trans)
qed simp

lemma ReestimateWorkerQueue_advances:
  assumes safe: "safe X s" shows "advances X s (ReestimateWorkerQueue w s)"
proof (cases "Get_worker w (sc_fleet s)")
  case (Some sw)
  define q where "q = workerQueueName w"
  obtain r s1 where p: "PeekAll q peekAllLimit s = (r, s1)" by fastforce
  have a1: "advances X s s1" using query_step(2) [OF safe, of q peekAllLimit] p by simp
  obtain l s2 where l: "effectiveLoadThroughput sw s1 = (l, s2)" by fastforce
  have a2: "advances X s1 s2"
    using caches_advances [OF effectiveLoadThroughput_caches, of X s1 sw] a1 l by simp
  note a12 = advances_trans [OF a1 a2]
  show ?thesis
  proof (cases r)
    case (Inl err)
    with safe a1 show ?thesis
      by (simp add: ReestimateWorkerQueue_def Some Let_def q_def [symmetric] p)
  next
    case (Inr ms)
    define acc where "acc = \<lparr> re_sum = 0, re_model = '''',
      re_resident = (case w_loaded sw of [] \<Rightarrow> '''' | lm # _ \<Rightarrow> lm_model_id lm) \<rparr>"
    obtain acc' s3 where rows: "reestimate_rows q sw l ms acc s2 = (acc', s3)" by fastforce
    have "advances X s2 (snd (reestimate_rows q sw l ms acc s2))"
      using a2 PeekAll_claims [OF safe p [unfolded Inr]]
      by (intro reestimate_rows_advances) (auto simp: q_def intro: claims_evolves)
    then have a3: "advances X s2 s3" by (simp add: rows)
    have "core_same s3 (replaceTail q (re_sum acc') (re_model acc') s3)" by simp
    also have "core_same \<dots> (broadcastQueueChange \<dots>)" by simp
    finally have a4: "advances X s3 (broadcastQueueChange (replaceTail q (re_sum acc') (re_model acc') s3))"
      using a3 by (intro core_advances) simp_all
    from a12 a3 a4 have "advances X s (broadcastQueueChange (replaceTail q (re_sum acc') (re_model acc') s3))"
      using advances_trans by blast
    with safe show ?thesis
      by (simp add: ReestimateWorkerQueue_def Some Let_def q_def [symmetric] p Inr l acc_def [symmetric] rows)
  qed
qed (use safe in \<open>simp add: ReestimateWorkerQueue_def\<close>)

text \<open>Requeueing: both rows go and a fresh anchor is submitted, with the job in nobody's hands in
  between.\<close>

lemma requeue_advances:
  assumes safe: "safe X s" and j: "owned j q i s" "owned j GlobalQueueName g s"
    and e: "env_request_id e = j" "j \<noteq> ''''" "env_global_msg_id e = ''''"
    and del: "del s = (r, s1)" "del = DeleteBoth q i GlobalQueueName g \<or> del = Delete q i"
    and sub: "Submit_queue GlobalQueueName e s1 = (r', s2)"
  shows "advances (insert j X) s s1" "r = Inl err \<Longrightarrow> advances X s s1"
    "advances (insert j X) s s2" "r' = Inr i' \<Longrightarrow> advances X s s2"
proof -
  have sj: "safe (insert j X) s" using safe by (rule safe_mono) auto
  have "s1 = snd (del s)" using del(1) by simp
  with del(2) delete_steps(1) [OF sj _ j(1)] delete_steps(2) [OF sj _ j]
  show a1: "advances (insert j X) s s1" by auto
  note step = submit_step [OF conjunct1 [OF a1] e]
  from step sub have "advances (insert j X) s1 s2"
    by (cases r') (auto intro: safe_mono)
  with a1 show "advances (insert j X) s s2" by (rule advances_trans)
  show "advances X s s1" if "r = Inl err"
  proof -
    have "rows s1 = rows s" "queue_frame s s1"
      using del that queue_op_error(2,4) queue_op_frame [of s] by (metis fst_conv snd_conv)+
    from same_rows_step [OF safe this(2,1)] show ?thesis .
  qed
  show "advances X s s2" if "r' = Inr i'"
    using step sub that a1 by (auto intro: evolves_trans)
qed

lemma failResult_settles:
  assumes "advances (insert j X) s s1"
  shows "advances X s (failResult j msg s1)"
  using failResult_step [of "insert j X" s1 j msg] assms safe_settled evolves_trans by blast

lemma drain_row_advances:
  assumes safe: "safe X s" and q: "q \<noteq> GlobalQueueName" and m: "claims q m s"
  shows "advances X s (drain_row q inc m s)"
proof (cases "msg_body m")
  case (Encoded e)
  define j where "j = env_request_id e"
  define g where "g = env_global_msg_id e"
  note ids = claims_encoded [OF m Encoded, folded j_def g_def]
  have own: "owned j q (msg_id m) s" "owned j GlobalQueueName g s" using ids q by simp_all
  have drop: "advances X s (snd (DeleteBoth q (msg_id m) GlobalQueueName g (failResult j txt' s)))" for txt'
  proof -
    have f: "advances X s (failResult j txt' s)" "\<not> live j (failResult j txt' s)"
      using failResult_step [OF safe, of j txt'] by simp_all
    have "advances X (failResult j txt' s)
        (snd (DeleteBoth q (msg_id m) GlobalQueueName g (failResult j txt' s)))"
      unfolding g_def by (rule claims_delete(1) [OF _ q claims_evolves [OF m f(1)] Encoded]) (use f in \<open>simp_all add: j_def\<close>)
    with f(1) show ?thesis by (rule advances_trans)
  qed
  obtain t s1 where t: "resultIsTerminal j s = (t, s1)" by fastforce
  have a1: "advances X s s1" and dead: "t \<Longrightarrow> \<not> live j s1"
    using resultIsTerminal_step(1,2) [OF safe, of j] resultIsTerminal_step(3) [OF safe, of j]
      resultIsTerminal_step(4) [OF safe, where j = j and i = j] unfolding t by simp_all
  note m1 = claims_evolves [OF m a1]
  note own1 = own [THEN owned_evolves, OF a1]
  define e' where "e' = e\<lparr>env_attempts := env_attempts e + 1, env_global_msg_id := '''', env_queued_seconds := 0\<rparr>"
  have e': "env_request_id e' = j" "env_global_msg_id e' = ''''" by (simp_all add: e'_def j_def)
  obtain r s2 where del: "DeleteBoth q (msg_id m) GlobalQueueName g s1 = (r, s2)" by fastforce
  obtain r' s3 where sub: "Submit_queue GlobalQueueName e' s2 = (r', s3)" by fastforce
  note re = requeue_advances [where del = "DeleteBoth q (msg_id m) GlobalQueueName g",
      OF conjunct1 [OF a1] own1 e'(1) ids(1) e'(2) del disjI1 [OF refl] sub]
  have terminal: "advances X s s2" if t
    using claims_delete(1) [OF conjunct1 [OF a1] q m1 Encoded, folded g_def j_def] dead that a1 del
    by (auto intro: evolves_trans)
  have release: "advances X s (snd (DeleteAndReleaseLease q (msg_id m) GlobalQueueName g s1))"
    using claims_release [OF conjunct1 [OF a1] q m1 Encoded] a1 by (auto simp: g_def intro: evolves_trans)
  have budget: "advances X s (snd (DeleteBoth q (msg_id m) GlobalQueueName g (failResult j txt' s1)))" for txt'
  proof -
    have f: "advances X s1 (failResult j txt' s1)" "\<not> live j (failResult j txt' s1)"
      using failResult_step [OF conjunct1 [OF a1], of j txt'] by simp_all
    have "advances X (failResult j txt' s1)
        (snd (DeleteBoth q (msg_id m) GlobalQueueName g (failResult j txt' s1)))"
      unfolding g_def by (rule claims_delete(1) [OF _ q claims_evolves [OF m1 f(1)] Encoded]) (use f in \<open>simp_all add: j_def\<close>)
    with a1 f(1) show ?thesis using advances_trans by blast
  qed
  have requeue: "advances X s (case r of Inl _ \<Rightarrow> s2
      | Inr _ \<Rightarrow> (case r' of Inl err \<Rightarrow> failResult j (''requeue after worker disconnect failed: '' @ sc_error_text s3 err) s3
          | Inr _ \<Rightarrow> pendingResult j s3))"
  proof (cases r)
    case (Inl err)
    with re(2) a1 show ?thesis by (auto intro: evolves_trans)
  next
    case (Inr u)
    show ?thesis
    proof (cases r')
      case (Inl err)
      have "advances (insert j X) s s3"
        using a1 re(3) by (auto intro: evolves_trans)
      with Inl Inr show ?thesis using failResult_settles by simp
    next
      case (Inr i')
      then have "advances X s1 s3" using re(4) by blast
      with progress_steps(3,4) [of X s3 j] have "advances X s1 (pendingResult j s3)"
        by (auto intro: evolves_trans)
      with a1 Inr \<open>r = Inr u\<close> show ?thesis by (auto intro: evolves_trans)
    qed
  qed
  show ?thesis
    using safe drop terminal release budget requeue
    by (auto simp: drain_row_def Encoded Let_def j_def [symmetric] g_def [symmetric] t del e'_def [symmetric] sub
        split: bool.split sum.split)
qed (use safe in \<open>simp add: drain_row_def\<close>)

lemma drain_rows_advances:
  assumes "safe X s" "q \<noteq> GlobalQueueName" "\<And>m. m \<in> set ms \<Longrightarrow> claims q m s"
  shows "advances X s (drain_rows q inc ms s)"
  using assms
proof (induction ms arbitrary: s)
  case (Cons m ms)
  have a: "advances X s (drain_row q inc m s)"
    using drain_row_advances [OF Cons.prems(1,2), of m] Cons.prems(3) by simp
  have "advances X (drain_row q inc m s) (drain_rows q inc ms (drain_row q inc m s))"
    using a Cons.prems(2,3) by (intro Cons.IH) (auto intro: claims_evolves)
  with a show ?case by (auto intro: evolves_trans)
qed simp

lemma drainWorkerQueue_advances:
  assumes safe: "safe X s" and q: "q \<noteq> GlobalQueueName"
  shows "advances X s (drainWorkerQueue q inc s)"
proof -
  obtain r s1 where p: "PeekAll q peekAllLimit s = (r, s1)" by fastforce
  have a: "advances X s s1" using query_step(2) [OF safe, of q peekAllLimit] p by simp
  have "advances X s1 (drain_rows q inc ms s1)" if "r = Inr ms" for ms
    using a q PeekAll_claims [OF safe p [unfolded that]] by (intro drain_rows_advances) auto
  with a show ?thesis by (auto simp: drainWorkerQueue_def p split: sum.split intro: evolves_trans)
qed

lemma removeWorkerQueue_advances:
  assumes safe: "safe X s" shows "advances X s (removeWorkerQueue w s)"
proof -
  define q where "q = workerQueueName w"
  define s1 where "s1 = drainWorkerQueue q True s"
  have a1: "advances X s s1" using safe by (simp add: s1_def q_def drainWorkerQueue_advances)
  have "core_same s1 (s1\<lparr>sc_queues := removeAll q (sc_queues s1)\<rparr>)" by simp
  also have "core_same \<dots> (closeTail q \<dots>)" by simp
  finally have "advances X s1 (closeTail q (s1\<lparr>sc_queues := removeAll q (sc_queues s1)\<rparr>))"
    using a1 by (intro core_advances) simp_all
  with safe a1 show ?thesis
    by (auto simp: removeWorkerQueue_def Let_def q_def [symmetric] s1_def [symmetric] intro: evolves_trans)
qed

lemma OnWorkerDevicesChanged_advances:
  assumes safe: "safe X s" shows "advances X s (OnWorkerDevicesChanged w s)"
proof -
  define q where "q = workerQueueName w"
  have a: "advances X s (drainWorkerQueue q False s)" using safe by (simp add: q_def drainWorkerQueue_advances)
  then have "advances X s (broadcastQueueChange (drainWorkerQueue q False s))"
    using tail_advances(3) by (blast intro: evolves_trans)
  moreover have "advances X s (broadcastQueueChange (kick (emit e s)))" for e
    by (rule core_advances [OF _ safe]) (meson bookkeeping_core core_same_trans)
  ultimately show ?thesis
    using safe by (auto simp: OnWorkerDevicesChanged_def Let_def q_def [symmetric] split: option.split)
qed

lemma OnWorkerDisconnected_advances:
  assumes safe: "safe X s" shows "advances X s (OnWorkerDisconnected w s)"
proof -
  define rt where "rt = (case Get_worker w (sc_fleet s) of None \<Rightarrow> '''' | Some sw \<Rightarrow> w_runtime sw)"
  define s1 where "s1 = emit (BenchStop w) (InvalidateModelBenchmarks w (InvalidateWorkerBench w (emit (WorkerDisconnect rt) s)))"
  have "core_same s s1" unfolding s1_def by (meson bookkeeping_core core_same_trans)
  from core_advances [OF this safe] removeWorkerQueue_advances [of X s1 w]
  show ?thesis
    by (auto simp: OnWorkerDisconnected_def Let_def rt_def [symmetric] s1_def [symmetric] intro: evolves_trans)
qed

lemma reap_buffer_advances:
  assumes "safe X s" "holds_buffer i b s"
  shows "advances X s (reap_buffer (i, b) s)"
proof -
  note f = failResult_step [OF assms(1), of i reap_text]
  have "advances X (failResult i reap_text s)
      (append_buffer b (error_chunk reap_text) (failResult i reap_text s))"
    using f buffer_evolves [OF assms(2)] by (intro append_buffer_step) auto
  with f show ?thesis by (auto simp: reap_buffer_def intro: evolves_trans)
qed

lemma held_buffers: "safe X s \<Longrightarrow> (i, b) \<in> set (sc_buffers s) \<Longrightarrow> holds_buffer i b s"
  using safeD(6) by (fastforce simp: durable_def holds_buffer_def)

lemma filter_buffers_advances:
  assumes "safe X s" shows "advances X s (s\<lparr>sc_buffers := filter P (sc_buffers s)\<rparr>)"
proof (rule heap_step [OF assms])
  show "durable (s\<lparr>sc_buffers := filter P (sc_buffers s)\<rparr>)"
    using safeD(6) [OF assms] by (auto simp: durable_def live_def status_of_def)
  show "s\<lparr>sc_buffers := filter P (sc_buffers s)\<rparr>
      = s\<lparr>sc_buffers := filter P (sc_buffers s), sc_heap := sc_heap s\<rparr>" by simp
qed simp_all

lemma sweepReplayBuffers_advances:
  assumes safe: "safe X s" shows "advances X s (sweepReplayBuffers ttl s)"
proof -
  have "advances X s0 (fold reap_buffer xs s0)" if "safe X s0" "\<forall>(i, b) \<in> set xs. holds_buffer i b s0" for xs s0
    using that
  proof (induction xs arbitrary: s0)
    case (Cons x xs)
    obtain i b where x: "x = (i, b)" by fastforce
    have a: "advances X s0 (reap_buffer x s0)" using Cons.prems by (simp add: x reap_buffer_advances)
    then have "advances X (reap_buffer x s0) (fold reap_buffer xs (reap_buffer x s0))"
      using Cons.prems(2) buffer_evolves by (intro Cons.IH) fastforce+
    with a show ?case by (auto intro: evolves_trans)
  qed simp
  note loop = this
  define P :: "request_id \<times> nat \<Rightarrow> bool" where "P = (\<lambda>(i, b). jb_terminal (snd (sc_heap s ! b)) \<and> jb_terminal_at (snd (sc_heap s ! b)) < clock s - ttl)"
  define A :: "request_id \<times> nat \<Rightarrow> bool" where "A = (\<lambda>(i, b). \<not> jb_terminal (snd (sc_heap s ! b)) \<and> jb_created (snd (sc_heap s ! b)) < clock s - jobBufferMaxAge)"
  define s1 where "s1 = s\<lparr>sc_buffers := filter (\<lambda>e. \<not> P e \<and> \<not> A e) (sc_buffers s)\<rparr>"
  have a1: "advances X s s1" unfolding s1_def by (rule filter_buffers_advances [OF safe])
  have "sweepReplayBuffers ttl s = fold reap_buffer (filter A (sc_buffers s)) s1"
    by (simp add: sweepReplayBuffers_def Let_def terminalReached_def P_def A_def s1_def split_beta)
  moreover have "advances X s1 (fold reap_buffer (filter A (sc_buffers s)) s1)"
    using a1 held_buffers [OF safe] by (intro loop) (auto intro: buffer_evolves)
  ultimately show ?thesis using a1 by (auto intro: evolves_trans)
qed

lemma orphan_scan_core: "core_same s (snd (orphan_scan qs ex pr s))"
proof (induction qs arbitrary: ex pr s)
  case (Cons q qs)
  then show ?case
    by (auto simp: split: option.split intro: core_same_trans [OF field_core(3)])
qed simp

lemma sweepOrphanQueues_advances:
  assumes safe: "safe X s" shows "advances X s (sweepOrphanQueues s)"
proof -
  obtain ex pr s1 where o': "orphan_scan (sc_queues s) [] [] s = ((ex, pr), s1)" by (metis surj_pair)
  define s2 where "s2 = s1\<lparr>sc_orphans := filter (\<lambda>(q, _). q \<in> set pr) (sc_orphans s1)\<rparr>"
  have "core_same s s1" using orphan_scan_core [of s "sc_queues s" "[]" "[]"] o' by simp
  also have "core_same s1 s2" by (simp add: s2_def)
  finally have a: "advances X s s2" by (rule core_advances [OF _ safe])
  then have "advances X s2 (fold removeWorkerQueue ex s2)"
    by (intro fold_advances removeWorkerQueue_advances) simp_all
  with a show ?thesis by (auto simp: sweepOrphanQueues_def o' s2_def [symmetric] intro: evolves_trans)
qed

lemma worker_depth_advances: "safe X s \<Longrightarrow> advances X s (snd (worker_depth qs n s))"
proof (induction qs arbitrary: n s)
  case (Cons q qs)
  obtain r s1 where d: "Depth q s = (r, s1)" by fastforce
  have "advances X s s1" using query_step(4) [OF Cons.prems, of q] d by simp
  with Cons.IH [of s1] show ?case by (auto simp: d split: sum.split intro: evolves_trans)
qed simp

lemma global_depth_advances: "safe X s \<Longrightarrow> advances X s (snd (global_depth s))"
proof -
  assume safe: "safe X s"
  obtain r s1 where d: "Depth GlobalQueueName s = (r, s1)" by fastforce
  have "advances X s s1" using query_step(4) [OF safe, of GlobalQueueName] d by simp
  with safe show ?thesis by (auto simp: global_depth_def d split: sum.split)
qed

lemma refreshGauges_advances:
  assumes safe: "safe X s" shows "advances X s (refreshGauges s)"
proof -
  have emits: "advances X s0 (fold (\<lambda>x. emit (f x)) xs s0)" if "safe X s0" for s0 :: sched and f :: "'b \<Rightarrow> effect" and xs
    by (rule core_advances [OF fold_core that]) simp
  define by' where "by' = count_labels (map w_runtime (All_workers (sc_fleet s)))"
  define s1 where "s1 = fold (\<lambda>(rt, n). emit (WorkersGauge rt n)) by' s"
  obtain g s2 where g: "global_depth s1 = (g, s2)" by fastforce
  obtain d s3 where d: "worker_depth (sc_queues s2) 0 s2 = (d, s3)" by fastforce
  define s4 where "s4 = emit (DepthGauge ''worker'' d) (emit (DepthGauge ''global'' g) s3)"
  define fl where "fl = count_labels (map (if_runtime \<circ> snd) (sc_inflight s4))"
  define s5 where "s5 = fold (\<lambda>(rt, n). emit (InflightGauge rt n)) fl s4"
  obtain pw pi' where p: "sc_prev_runtimes s5 = (pw, pi')" by fastforce
  define s6 where "s6 = fold (\<lambda>rt. emit (WorkersGauge rt 0)) (filter (\<lambda>rt. rt \<notin> set (keys by')) pw) s5"
  define s7 where "s7 = fold (\<lambda>rt. emit (InflightGauge rt 0)) (filter (\<lambda>rt. rt \<notin> set (keys fl)) pi') s6"
  have 1: "advances X s s1" unfolding s1_def split_beta by (rule emits [OF safe])
  have 2: "advances X s1 s2" using global_depth_advances [of X s1] 1 g by simp
  have 3: "advances X s2 s3" using worker_depth_advances [of X s2 "sc_queues s2" 0] 2 d by simp
  have 4: "advances X s3 s4" unfolding s4_def
    by (rule core_advances [OF core_same_trans [OF bookkeeping_core(2) bookkeeping_core(2)]]) (use 3 in simp)
  have 5: "advances X s4 s5" unfolding s5_def split_beta by (rule emits) (use 4 in simp)
  have 6: "advances X s5 s6" unfolding s6_def by (rule emits) (use 5 in simp)
  have 7: "advances X s6 s7" unfolding s7_def by (rule emits) (use 6 in simp)
  have 8: "advances X s7 (s7\<lparr>sc_prev_runtimes := (keys by', keys fl)\<rparr>)" by (rule core_advances) (use 7 in simp_all)
  have "refreshGauges s = s7\<lparr>sc_prev_runtimes := (keys by', keys fl)\<rparr>"
    unfolding refreshGauges_def by'_def [symmetric] Let_def s1_def [symmetric] g d prod.case
      s4_def [symmetric] fl_def [symmetric] s5_def [symmetric] p s6_def [symmetric] s7_def [symmetric] ..
  with 1 2 3 4 5 6 7 8 show ?thesis using advances_trans by metis
qed

text \<open>Starting up.\<close>

lemma Fail_step:
  assumes "safe X s"
  shows "fst (Fail i msg s) = Inr ()" "advances X s (snd (Fail i msg s))" "\<not> live i (snd (Fail i msg s))"
  using failResult_step [OF assms, of i msg] safeD(4,5) [OF assms]
  by (auto simp: failResult_def with_results_def Fail_def set_result_def rtx_def Let_def)

lemma reapOne_advances:
  assumes safe: "safe X s" and m: "claims q m s"
    and a: "anchorQ = (if q = GlobalQueueName then None else Some GlobalQueueName)"
  shows "advances X s (snd (reapOne q anchorQ m s))"
proof -
  define j where "j = msg_job m"
  have rq: "reap_request m = j"
    using m by (cases "msg_body m") (auto simp: reap_request_def j_def msg_job_def claims_def)
  obtain s1 where g: "Get j s = (Inr (map_of (results s) j), s1)"
    using Get_step(2) [OF safe, of j] by (metis prod.collapse)
  have a1: "advances X s s1" "results s1 = results s"
    using Get_step(1,3) [OF safe, of j] g by simp_all
  define already where "already = (case map_of (results s) j of None \<Rightarrow> False | Some r \<Rightarrow> terminal (res_status r))"
  define s2 where "s2 = (if already then s1 else snd (Fail j reap_message s1))"
  have ok: "(if already then (Inr (), s1) else Fail j reap_message s1) = (Inr (), s2)"
    using Fail_step(1) [of X s1 j reap_message] a1(1) by (auto simp: s2_def) (metis prod.collapse)
  have a2: "advances X s1 s2" using a1(1) Fail_step(2) [of X s1 j reap_message] by (simp add: s2_def)
  have "\<not> live j s1" if already
    using that a1(2) by (auto simp: already_def live_def status_of_def split: option.splits)
  then have dead: "\<not> live j s2"
    using a1(1) Fail_step(3) [of X s1 j reap_message] by (simp add: s2_def)
  have a12: "advances X s s2" using a1(1) a2 by (rule advances_trans)
  note m2 = claims_evolves [OF m a12]
  have d1: "advances X s2 (snd (Delete q (msg_id m) s2))"
    using m2 dead a12 by (intro delete_steps(1)) (auto simp: claims_def j_def)
  have d2: "q \<noteq> GlobalQueueName \<Longrightarrow>
      advances X s2 (snd (DeleteBoth q (msg_id m) GlobalQueueName (body_gmid (msg_body m)) s2))"
    using m2 dead a12 by (intro delete_steps(2)) (auto simp: claims_def j_def)
  have "snd (reapOne q anchorQ m s) = (if anchorQ \<noteq> None \<and> body_gmid (msg_body m) \<noteq> ''''
      then snd (DeleteBoth q (msg_id m) (the anchorQ) (body_gmid (msg_body m)) s2) else snd (Delete q (msg_id m) s2))"
    using ok by (simp add: reapOne_def rq Let_def g already_def [symmetric])
  with a12 d1 d2 a show ?thesis by (auto intro: evolves_trans)
qed

lemma reapQueue_advances:
  assumes safe: "safe X s" and a: "anchorQ = (if q = GlobalQueueName then None else Some GlobalQueueName)"
  shows "advances X s (snd (reapQueue q anchorQ s))"
proof -
  have loop: "advances X s0 (snd (reapEach q anchorQ ms n s0))"
    if "safe X s0" "\<And>m. m \<in> set ms \<Longrightarrow> claims q m s0" for s0 ms n
    using that
  proof (induction ms arbitrary: n s0)
    case (Cons m ms)
    obtain r s1 where o': "reapOne q anchorQ m s0 = (r, s1)" by fastforce
    have a1: "advances X s0 s1" using reapOne_advances [OF Cons.prems(1) _ a, of m] Cons.prems(2) o' by simp
    have "advances X s1 (snd (reapEach q anchorQ ms k s1))" for k
      using a1 Cons.prems(2) by (intro Cons.IH) (auto intro: claims_evolves)
    with a1 show ?case by (auto simp: o' split: sum.split intro: evolves_trans)
  qed simp
  obtain r s1 where l: "ListAbandoned q s = (r, s1)" by fastforce
  have a1: "advances X s s1" using query_step(3) [OF safe, of q] l by simp
  have "claims q m s1" if "r = Inr ms" "m \<in> set ms" for ms m
  proof -
    from l that obtain x where "x \<in> set (rows s)" "row_queue x = q" "m = message_of x"
      by (auto simp: ListAbandoned_def qtx_def Let_def split: if_splits)
    then have "claims q m s" by (intro claims_row [OF safe]) (simp_all add: message_of_def)
    then show ?thesis using a1 by (rule claims_evolves)
  qed
  with loop a1 have "advances X s1 (snd (reapEach q anchorQ ms 0 s1))" if "r = Inr ms" for ms using that by blast
  with a1 show ?thesis by (auto simp: reapQueue_def l split: sum.split prod.split intro: evolves_trans)
qed

lemma ReapAbandoned_advances:
  assumes safe: "safe X s" and qs: "GlobalQueueName \<notin> set qs"
  shows "advances X s (snd (ReapAbandoned qs s))"
proof -
  have loop: "advances X s0 (snd (reapWorkers qs n s0))" if "safe X s0" "GlobalQueueName \<notin> set qs" for s0 n qs
    using that
  proof (induction qs arbitrary: n s0)
    case (Cons q qs)
    obtain k e s1 where o': "reapQueue q (Some GlobalQueueName) s0 = ((k, e), s1)" by (metis surj_pair)
    have a1: "advances X s0 s1"
      using reapQueue_advances [OF Cons.prems(1), of "Some GlobalQueueName" q] Cons.prems(2) o' by auto
    with Cons.IH [of s1] Cons.prems(2) show ?case by (auto simp: o' split: option.split intro: evolves_trans)
  qed simp
  obtain k e s1 where o': "reapQueue GlobalQueueName None s = ((k, e), s1)" by (metis surj_pair)
  have a1: "advances X s s1" using reapQueue_advances [OF safe, of None GlobalQueueName] o' by simp
  with loop [of s1 qs] qs show ?thesis by (auto simp: ReapAbandoned_def o' split: option.split intro: evolves_trans)
qed

lemma list_states:
  assumes "ListWorkerQueueStates s = (r, s')"
  shows "core_same s s'" "r = Inr sts \<Longrightarrow> fst ` set sts = set (keys (tails s'))"
  using assms by (auto simp: ListWorkerQueueStates_def stx_def Let_def core_same_def proper_def split: if_splits)

lemma recover_core: "GlobalQueueName \<notin> fst ` set sts \<Longrightarrow> core_same s (recover_tails sts (recover_queues sts s))"
proof -
  have t: "core_same s0 (recover_tails sts s0)" for s0
    by (induction sts s0 rule: recover_tails.induct) (auto intro: core_same_trans [OF field_core(2)])
  have "GlobalQueueName \<notin> fst ` set sts \<Longrightarrow> core_same s0 (recover_queues sts s0)" for s0
  proof (induction sts s0 rule: recover_queues.induct)
    case (2 q st sts s)
    have "core_same s (if q \<in> set (sc_queues s) then s else s\<lparr>sc_queues := sc_queues s @ [q]\<rparr>)"
      using 2(2) by simp
    with 2 show ?case by (auto intro: core_same_trans)
  qed simp
  with t show "GlobalQueueName \<notin> fst ` set sts \<Longrightarrow> ?thesis" by (blast intro: core_same_trans)
qed

lemma Start_advances:
  assumes safe: "safe X s" and p: "proper s" shows "advances X s (Start s)"
proof -
  have reap: "advances X s (reapAbandonedAtStartup s)"
  proof -
    obtain r s1 where l: "ListWorkerQueueStates s = (r, s1)" by fastforce
    have a1: "advances X s s1" by (rule core_advances [OF list_states(1) [OF l] safe])
    have "GlobalQueueName \<notin> fst ` set sts" if "r = Inr sts" for sts
      using list_states [OF l] that p by (auto simp: core_same_def proper_def)
    then have "advances X s1 (snd (ReapAbandoned (map fst sts) s1))" if "r = Inr sts" for sts
      using ReapAbandoned_advances [of X s1 "map fst sts"] a1 that by auto
    moreover have "advances X s1 (snd (ReapAbandoned [] s1))" using ReapAbandoned_advances [of X s1 "[]"] a1 by simp
    ultimately show ?thesis
      using a1 safe by (auto simp: reapAbandonedAtStartup_def l split: sum.split intro: evolves_trans)
  qed
  define s0 where "s0 = reapAbandonedAtStartup s"
  have p0: "proper s0" using reap p by (auto simp: s0_def evolves_def extends_def)
  have "core_same s0 (recoverPersistedQueues s0)"
  proof -
    obtain r s1 where l: "ListWorkerQueueStates s0 = (r, s1)" by fastforce
    have "core_same s1 (recover_tails sts (recover_queues sts s1))" if "r = Inr sts" for sts
      using list_states [OF l] that p0 by (intro recover_core) (auto simp: core_same_def proper_def)
    with list_states(1) [OF l] show ?thesis
      by (auto simp: recoverPersistedQueues_def l split: sum.split intro: core_same_trans)
  qed
  then have "advances X s0 (recoverPersistedQueues s0)" using reap by (intro core_advances) (simp_all add: s0_def)
  with reap show ?thesis by (auto simp: Start_def s0_def intro: evolves_trans)
qed

end
