(* ===== verification/Dispatch.thy ===== *)
theory Dispatch
  imports Lifecycle
begin

text \<open>
  From a worker queue to the worker and back (\<open>scheduler.go\<close>): leasing a row, the device-set gate,
  the load on demand, the hand-over to the worker, the pump that turns the worker's stream into the
  job's result, and work stealing.

  \<open>dispatchEnvelope\<close> blocks three times: on the unloading of the models in its way, on the load and
  on the assignment. It is cut there; what its stack frame holds between two parts is a record. The
  answers of the worker are arguments of the parts that receive them, and the worker itself is the
  state it has when a part reads it.
\<close>

subsection \<open>Ways out of a dispatch\<close>

text \<open>The pump's \<open>deleteBothRows\<close> does the same as \<open>cleanupRows\<close>, without the wake-up.\<close>

definition deleteBothRows :: "queue_name \<Rightarrow> message_id \<Rightarrow> message_id \<Rightarrow> sched \<Rightarrow> sched" where
  "deleteBothRows q i g s =
     (if sc_initialised s \<and> g \<noteq> ''''
      then broadcastQueueChange (snd (DeleteBoth q i GlobalQueueName g s))
      else broadcastQueueChange (snd (Delete q i s)))"

definition cleanupRows :: "queue_name \<Rightarrow> message_id \<Rightarrow> message_id \<Rightarrow> sched \<Rightarrow> sched" where
  "cleanupRows q i g s =
     kick (if sc_initialised s \<and> g \<noteq> ''''
           then broadcastQueueChange (snd (DeleteBoth q i GlobalQueueName g s))
           else broadcastQueueChange (snd (Delete q i s)))"

definition releaseLeaseForRetry :: "queue_name \<Rightarrow> message_id \<Rightarrow> sched \<Rightarrow> sched" where
  "releaseLeaseForRetry q i s = snd (Defer q i pendingRetryInterval s)"

definition retryAfterLoadFailure :: "queue_name \<Rightarrow> message_id \<Rightarrow> rat envelope \<Rightarrow> sched \<Rightarrow> bool \<times> sched" where
  "retryAfterLoadFailure q i env s =
     (if uint (env_attempts env) + 1 \<ge> EffectiveLoadAttempts (sc_cfg s) then (False, s)
      else if \<not> sc_initialised s then (False, s)
      else case (if env_global_msg_id env \<noteq> ''''
                 then DeleteBoth q i GlobalQueueName (env_global_msg_id env) s else Delete q i s) of
        (Inl _, s) \<Rightarrow> (False, s)
      | (Inr _, s) \<Rightarrow>
          let env = env\<lparr>env_attempts := env_attempts env + 1, env_global_msg_id := '''',
                env_queued_seconds := 0\<rparr>
          in case Submit_queue GlobalQueueName env s of
               (Inl _, s) \<Rightarrow> (False, s)
             | (Inr _, s) \<Rightarrow> (True, broadcastQueueChange (kick s)))"

text \<open>A failure that ends the job: the durable result first, the terminal frame after it.\<close>

definition fail_job :: "request_id \<Rightarrow> string \<Rightarrow> nat \<Rightarrow> sched \<Rightarrow> sched" where
  "fail_job rid msg b s = append_buffer b (error_chunk msg) (failResult rid msg s)"

subsection \<open>The device-set gate\<close>

record dispatch =
  dp_queue :: queue_name
  dp_msg :: message_id
  dp_env :: "rat envelope"
  dp_buffer :: nat
  dp_worker :: worker_id
  dp_runtime :: runtime_name
  dp_row :: model_benchmark
  dp_load :: bool
  dp_pool :: int
  dp_reserved :: int

text \<open>The replay buffer of the job, made anew after a restart while its result is still open.\<close>

definition dispatch_buffer :: "queue_name \<Rightarrow> message_id \<Rightarrow> rat envelope \<Rightarrow> sched \<Rightarrow> nat option \<times> sched" where
  "dispatch_buffer q i env s = (case map_of (sc_buffers s) (env_request_id env) of
      Some b \<Rightarrow> (Some b, s)
    | None \<Rightarrow> (case GetResult (env_request_id env) s of
          (Inl ErrNoResult, s) \<Rightarrow>
            (None, cleanupRows q i (env_global_msg_id env)
               (failResult (env_request_id env) ''no replay buffer for request'' s))
        | (Inl _, s) \<Rightarrow> let (b, s) = ensureJobBuffer (env_request_id env) s in (Some b, s)
        | (Inr r, s) \<Rightarrow>
            if isTerminalStatus (res_status r)
            then (None, cleanupRows q i (env_global_msg_id env) s)
            else let (b, s) = ensureJobBuffer (env_request_id env) s in (Some b, s)))"

text \<open>The gate proper: bounce when the model has no measured row here or a resident in the way is
  busy; otherwise go on with the residents to evict.\<close>

definition dispatch_gate :: "stream_worker \<Rightarrow> queue_name \<Rightarrow> message_id \<Rightarrow> rat envelope \<Rightarrow> nat \<Rightarrow> sched
    \<Rightarrow> (dispatch \<times> model_id list) option \<times> sched" where
  "dispatch_gate sw q i env b s =
     (let predicted = predictDeviceSet sw s;
          blockers = residentsBlockingLoad sw (env_model_id env) predicted;
          needsLoad = (env_model_id env \<noteq> ''''
            \<and> (\<not> workerHasModel sw (env_model_id env) \<or> containsModelID blockers (env_model_id env)))
      in case modelBenchmark sw env s of
           (None, s) \<Rightarrow> (None, releaseLeaseForRetry q i s)
         | (Some row, s) \<Rightarrow>
             if list_ex (\<lambda>lm. lm_active lm > 0 \<or> workerHasInflightForModel (w_id sw) (lm_model_id lm) s) blockers
             then (None, releaseLeaseForRetry q i s)
             else (Some (\<lparr> dp_queue = q, dp_msg = i, dp_env = env, dp_buffer = b, dp_worker = w_id sw,
                dp_runtime = w_runtime sw, dp_row = row, dp_load = needsLoad,
                dp_pool = 0,
                dp_reserved = (if needsLoad then projectedLoadBytes sw env row s else 0) \<rparr>,
                map lm_model_id blockers), s))"

text \<open>One round of the eviction loop; \<open>None\<close> when the row was bounced.\<close>

definition dispatch_evict :: "(worker_id \<Rightarrow> model_id \<Rightarrow> bool) \<Rightarrow> dispatch \<Rightarrow> model_id \<Rightarrow> sched
    \<Rightarrow> bool \<times> sched" where
  "dispatch_evict unload d m s = (case EvictModel unload (dp_runtime d) m (dp_worker d) s of
     (n, s) \<Rightarrow> if n = 0 then (False, releaseLeaseForRetry (dp_queue d) (dp_msg d) s) else (True, s))"

text \<open>Past the gate: from here a cancel leaves its mark instead of getting lost. The load request pins
  the pool to the size planned against the memory that is free now.\<close>

definition dispatch_commit :: "stream_worker \<Rightarrow> dispatch \<Rightarrow> sched \<Rightarrow> dispatch \<times> sched" where
  "dispatch_commit sw d s =
     (let s = markDispatching (env_request_id (dp_env d)) s
      in (if dp_load d then d\<lparr>dp_pool := plannedPoolSize sw (dp_env d) (dp_row d) s\<rparr> else d, s))"

subsection \<open>Load, start, assign\<close>

text \<open>\<open>Inl\<close> is the error text of \<open>LoadModel\<close>, \<open>Inr\<close> the pool size the worker reports.\<close>

definition dispatch_load :: "string + int \<Rightarrow> dispatch \<Rightarrow> sched \<Rightarrow> bool \<times> sched" where
  "dispatch_load outcome d s =
     (let env = dp_env d; rid = env_request_id env in
      if \<not> dp_load d then (True, s)
      else case outcome of
        Inr _ \<Rightarrow> (True, emit (LoadedChanged (dp_worker d)) s)
      | Inl err \<Rightarrow> (case retryAfterLoadFailure (dp_queue d) (dp_msg d) env s of
            (True, s) \<Rightarrow> (False, clearDispatching rid s)
          | (False, s) \<Rightarrow>
              (False, clearDispatching rid (cleanupRows (dp_queue d) (dp_msg d) (env_global_msg_id env)
                (fail_job rid err (dp_buffer d) s)))))"

definition dispatch_start :: "dispatch \<Rightarrow> sched \<Rightarrow> bool \<times> sched" where
  "dispatch_start d s =
     (let env = dp_env d; rid = env_request_id env;
          taskSec = env_cost env / mb_units_per_sec (dp_row d)
      in case startInflight (dp_queue d) rid (env_model_id env) (env_runtime_name env) taskSec (dp_reserved d) s of
           (False, s) \<Rightarrow>
             let s = emit (JobDispatched (env_runtime_name env) ''cancelled'') s;
                 s = fail_job rid ''cancelled by operator'' (dp_buffer d) s;
                 s = cleanupRows (dp_queue d) (dp_msg d) (env_global_msg_id env) s
             in (False, clearDispatching rid s)
         | (True, s) \<Rightarrow>
             (True, broadcastQueueChange (debitTail (dp_queue d) (env_queued_seconds env)
                (processingResult rid s))))"

text \<open>\<open>Inl\<close> is the error text of \<open>AssignJob\<close>, \<open>Inr\<close> the worker's job id.\<close>

definition dispatch_assign :: "string + string \<Rightarrow> dispatch \<Rightarrow> sched \<Rightarrow> bool \<times> sched" where
  "dispatch_assign outcome d s =
     (let env = dp_env d; rid = env_request_id env in
      case outcome of
        Inl err \<Rightarrow>
          let s = emit (JobDispatched (env_runtime_name env) ''error'') s;
              s = fail_job rid err (dp_buffer d) s;
              s = finishInflight rid s;
              s = cleanupRows (dp_queue d) (dp_msg d) (env_global_msg_id env) s
          in (False, clearDispatching rid s)
      | Inr job \<Rightarrow> (True, clearDispatching rid (attachWorkerJobID rid job s)))"

text \<open>The keep-alive goroutine of a dispatch extends the lease again and again.\<close>

definition keepAlive :: "queue_name \<Rightarrow> message_id \<Rightarrow> sched \<Rightarrow> sched" where
  "keepAlive q i s = snd (Extend q i dispatchLeaseDuration s)"

subsection \<open>Draining a worker queue into dispatches\<close>

definition leaseForDispatch :: "queue_name \<Rightarrow> message_id \<Rightarrow> sched \<Rightarrow> rat envelope option \<times> sched" where
  "leaseForDispatch q i s = (case LeaseByID q i dispatchLeaseDuration s of
      (Inl _, s) \<Rightarrow> (None, s)
    | (Inr None, s) \<Rightarrow> (None, s)
    | (Inr (Some m), s) \<Rightarrow> (case unmarshal_body (msg_body m) of
          Inl _ \<Rightarrow> (None, snd (Delete q (msg_id m) s))
        | Inr env \<Rightarrow> (Some env, s)))"

definition drain_batch :: "stream_worker \<Rightarrow> sched \<Rightarrow> int" where
  "drain_batch sw s =
     (let capacity = effectiveCapacity sw s
      in if inflightCountForWorker (w_id sw) s = 0 then max capacity 1 else capacity)"

text \<open>What \<open>drainOneWorkerQueue\<close> decides to dispatch: the worker and the messages, in order.\<close>

definition drainOneWorkerQueue :: "queue_name \<Rightarrow> sched \<Rightarrow> (stream_worker \<times> message list) option \<times> sched" where
  "drainOneWorkerQueue q s = (case parseWorkerQueueName q of
      None \<Rightarrow> (None, s)
    | Some w \<Rightarrow> (case Get_worker w (sc_fleet s) of
          None \<Rightarrow> (None, s)
        | Some sw \<Rightarrow>
            if \<not> w_online sw \<or> w \<in> set (sc_gated s) then (None, s)
            else let batch = drain_batch sw s in
              if batch \<le> 0 then (None, s)
              else case Peek q (nat batch) s of
                (Inl _, s) \<Rightarrow> (None, s)
              | (Inr ms, s) \<Rightarrow> (Some (sw, ms), s)))"

subsection \<open>The pump\<close>

record pump =
  pp_queue :: queue_name
  pp_msg :: message_id
  pp_global :: message_id
  pp_request :: request_id
  pp_buffer :: nat
  pp_final :: bytes
  pp_err :: string
  pp_terminal :: "job_chunk option"

definition startPump :: "dispatch \<Rightarrow> pump" where
  "startPump d = \<lparr> pp_queue = dp_queue d, pp_msg = dp_msg d, pp_global = env_global_msg_id (dp_env d),
     pp_request = env_request_id (dp_env d), pp_buffer = dp_buffer d, pp_final = [], pp_err = '''',
     pp_terminal = None \<rparr>"

definition pump_chunk :: "job_chunk \<Rightarrow> pump \<Rightarrow> sched \<Rightarrow> pump \<times> sched" where
  "pump_chunk c p s = (case jc_type c of
      JobChunkTypeCompleted \<Rightarrow> (p\<lparr>pp_final := jc_final c, pp_terminal := Some c\<rparr>, s)
    | JobChunkTypeError \<Rightarrow> (p\<lparr>pp_err := jc_err c, pp_terminal := Some c\<rparr>, s)
    | _ \<Rightarrow> (p, append_buffer (pp_buffer p) c s))"

text \<open>After the stream has closed; \<open>online\<close> is the worker's status then.\<close>

definition pump_close :: "bool \<Rightarrow> pump \<Rightarrow> sched \<Rightarrow> sched" where
  "pump_close online p s =
     (let rid = pp_request p;
          wasCancelled = isInflightCancelled rid s;
          rt = inflightRuntime rid s;
          s = kick (finishInflight rid s);
          finish = (\<lambda>s. deleteBothRows (pp_queue p) (pp_msg p) (pp_global p) s)
      in case pp_terminal p of
           Some c \<Rightarrow>
             if pp_err p \<noteq> ''''
             then let err = (if wasCancelled then ''cancelled by operator'' else pp_err p);
                      c = (if wasCancelled then c\<lparr>jc_err := err\<rparr> else c);
                      s = emit (JobDispatched rt (if wasCancelled then ''cancelled'' else ''error'')) s;
                      s = failResult rid err s
                  in finish (append_buffer (pp_buffer p) c s)
             else let s = emit (JobDispatched rt ''ok'') s;
                      s = completeResult rid (pp_final p) s
                  in finish (append_buffer (pp_buffer p) c s)
         | None \<Rightarrow>
             if wasCancelled
             then finish (fail_job rid ''cancelled by operator'' (pp_buffer p)
                    (emit (JobDispatched rt ''cancelled'') s))
             else if \<not> online then s
             else finish (fail_job rid ''worker stream closed before terminal frame'' (pp_buffer p)
                    (emit (JobDispatched rt ''error'') s)))"

subsection \<open>Work stealing\<close>

text \<open>The queues of one runtime with their depths, in the order of the fleet.\<close>

fun queue_stats :: "stream_worker list \<Rightarrow> sched \<Rightarrow> (stream_worker \<times> nat) list \<times> sched" where
  "queue_stats [] s = ([], s)"
| "queue_stats (w # ws) s = (case Depth (workerQueueName (w_id w)) s of
      (Inl _, s) \<Rightarrow> queue_stats ws s
    | (Inr d, s) \<Rightarrow> (case queue_stats ws s of (st, s) \<Rightarrow> ((w, d) # st, s)))"

text \<open>The deepest peer an idle worker may take from: first of the deepest, deep enough, not being
  drained.\<close>

fun deepest_peer :: "worker_id \<Rightarrow> (stream_worker \<times> nat) list \<Rightarrow> (stream_worker \<times> nat) option \<Rightarrow> sched
    \<Rightarrow> (stream_worker \<times> nat) option" where
  "deepest_peer w [] best s = best"
| "deepest_peer w ((p, d) # st) best s =
     (if w_id p = w \<or> d \<le> stealThreshold \<or> isDraining (workerQueueName (w_id p)) s
      then deepest_peer w st best s
      else deepest_peer w st (case best of
          None \<Rightarrow> Some (p, d)
        | Some (b, e) \<Rightarrow> if d > e then Some (p, d) else Some (b, e)) s)"

definition steal_row :: "stream_worker \<Rightarrow> queue_name \<Rightarrow> queue_name \<Rightarrow> message \<Rightarrow> sched \<Rightarrow> sched" where
  "steal_row idle src dst m s = (case unmarshal_body (msg_body m) of
      Inl _ \<Rightarrow> s
    | Inr env \<Rightarrow> (case modelBenchmark idle env s of
          (None, s) \<Rightarrow> s
        | (Some row, s) \<Rightarrow>
            if \<not> eligibleWorker idle env row s then s
            else case MoveTo src dst (msg_id m) (env_priority env) s of
              (Inl _, s) \<Rightarrow> s
            | (Inr moved, s) \<Rightarrow>
                if moved then creditTail dst (env_queued_seconds env) (env_model_id env)
                    (debitTail src (env_queued_seconds env) s)
                else s))"

definition steal_for :: "(stream_worker \<times> nat) list \<Rightarrow> stream_worker \<times> nat \<Rightarrow> sched \<Rightarrow> sched" where
  "steal_for stats = (\<lambda>(idle, depth) s.
     if depth > 0 \<or> effectiveCapacity idle s \<le> 0 then s
     else case deepest_peer (w_id idle) stats None s of
       None \<Rightarrow> s
     | Some (peer, _) \<Rightarrow>
         let src = workerQueueName (w_id peer); dst = workerQueueName (w_id idle) in
         case Peek src 1 s of
           (Inl _, s) \<Rightarrow> s
         | (Inr [], s) \<Rightarrow> s
         | (Inr (m # _), s) \<Rightarrow> steal_row idle src dst m s)"

definition stealWithinRuntime :: "stream_worker list \<Rightarrow> sched \<Rightarrow> sched" where
  "stealWithinRuntime ws s = (case queue_stats ws s of
     (stats, s) \<Rightarrow> if length stats < 2 then s else fold (steal_for stats) stats s)"

definition steal_group :: "runtime_name \<Rightarrow> sched \<Rightarrow> stream_worker list" where
  "steal_group rt s = filter (\<lambda>w. w_online w \<and> isWorkerEnabled (w_id w) s
     \<and> workerQueueName (w_id w) \<in> set (sc_queues s) \<and> w_runtime w = rt) (All_workers (sc_fleet s))"

definition attemptSteals :: "sched \<Rightarrow> sched" where
  "attemptSteals s =
     (let groups = map (\<lambda>rt. steal_group rt s) (remdups (map w_runtime (All_workers (sc_fleet s))))
      in fold (\<lambda>ws s. if length ws < 2 then s else stealWithinRuntime ws s) groups s)"

text \<open>The dispatcher's pass starts a drainer for every queue that has none.\<close>

fun start_drainers :: "queue_name list \<Rightarrow> sched \<Rightarrow> queue_name list \<times> sched" where
  "start_drainers [] s = ([], s)"
| "start_drainers (q # qs) s = (case tryMarkDraining q s of
      (started, s) \<Rightarrow> (case start_drainers qs s of
        (ds, s) \<Rightarrow> (if started then q # ds else ds, s)))"

definition endDrainer :: "queue_name \<Rightarrow> sched \<Rightarrow> sched" where
  "endDrainer q s = (case finishDraining q s of (rerun, s) \<Rightarrow> if rerun then kick s else s)"

definition dispatchPass :: "sched \<Rightarrow> (bool \<times> queue_name list) \<times> sched" where
  "dispatchPass s =
     (let s = sweepOrphanQueues s;
          (pending, s) = drainGlobal s;
          (drainers, s) = start_drainers (sc_queues s) s;
          s = attemptSteals s
      in ((pending, drainers), s))"

subsection \<open>Every step keeps the jobs\<close>

abbreviation row_msg :: "message_id \<Rightarrow> rat envelope \<Rightarrow> message" where
  "row_msg i env \<equiv> \<lparr> msg_id = i, msg_body = Encoded env \<rparr>"

definition dispatch_ok :: "dispatch \<Rightarrow> sched \<Rightarrow> bool" where
  "dispatch_ok d s \<longleftrightarrow> dp_queue d \<noteq> GlobalQueueName \<and> claims (dp_queue d) (row_msg (dp_msg d) (dp_env d)) s
     \<and> holds_buffer (env_request_id (dp_env d)) (dp_buffer d) s"

definition pump_ok :: "pump \<Rightarrow> sched \<Rightarrow> bool" where
  "pump_ok p s \<longleftrightarrow> owned (pp_request p) (pp_queue p) (pp_msg p) s
     \<and> owned (pp_request p) GlobalQueueName (pp_global p) s \<and> holds_buffer (pp_request p) (pp_buffer p) s
     \<and> (case pp_terminal p of None \<Rightarrow> True | Some c \<Rightarrow> terminal_chunk c)"

lemma dispatch_ok_extends: "dispatch_ok d s \<Longrightarrow> extends s s' \<Longrightarrow> database_ok s' \<Longrightarrow> dispatch_ok d s'"
  unfolding dispatch_ok_def by (blast intro: claims_extends holds_buffer_extends)

lemma dispatch_ok_evolves: "dispatch_ok d s \<Longrightarrow> advances X s s' \<Longrightarrow> dispatch_ok d s'"
  by (rule dispatch_ok_extends) (auto simp: evolves_def safe_def)

lemma pump_ok_extends: "pump_ok p s \<Longrightarrow> extends s s' \<Longrightarrow> database_ok s' \<Longrightarrow> pump_ok p s'"
  unfolding pump_ok_def by (blast intro: owned_extends holds_buffer_extends)

lemma pump_ok_evolves: "pump_ok p s \<Longrightarrow> advances X s s' \<Longrightarrow> pump_ok p s'"
  by (rule pump_ok_extends) (auto simp: evolves_def safe_def)

lemma dispatch_okD:
  assumes "dispatch_ok d s"
  shows "dp_queue d \<noteq> GlobalQueueName" "env_request_id (dp_env d) \<noteq> ''''"
    "owned (env_request_id (dp_env d)) (dp_queue d) (dp_msg d) s"
    "owned (env_request_id (dp_env d)) GlobalQueueName (env_global_msg_id (dp_env d)) s"
    "holds_buffer (env_request_id (dp_env d)) (dp_buffer d) s"
  using assms claims_encoded [of "dp_queue d" "row_msg (dp_msg d) (dp_env d)" s "dp_env d"]
  by (simp_all add: dispatch_ok_def)

lemma startPump_ok: "dispatch_ok d s \<Longrightarrow> pump_ok (startPump d) s"
  using dispatch_okD [of d s] by (simp add: pump_ok_def startPump_def)

lemma core_then:
  assumes "safe X s" "core_same s s'" shows "advances X s s'"
  by (rule core_advances [OF assms(2,1)])

lemma rows_away:
  assumes safe: "safe X s" and own: "owned j q i s" "owned j GlobalQueueName g s" and dead: "\<not> live j s"
  shows "advances X s (cleanupRows q i g s)" "advances X s (deleteBothRows q i g s)"
proof -
  have "advances X s (broadcastQueueChange (snd (DeleteBoth q i GlobalQueueName g s)))"
    "advances X s (broadcastQueueChange (snd (Delete q i s)))"
    using delete_steps [OF safe, of j q i] own dead tail_advances(3) by (blast intro: evolves_trans)+
  moreover from this have "advances X s (kick (broadcastQueueChange (snd (DeleteBoth q i GlobalQueueName g s))))"
    "advances X s (kick (broadcastQueueChange (snd (Delete q i s))))"
    using tail_advances(4) by (blast intro: evolves_trans)+
  ultimately show "advances X s (cleanupRows q i g s)" "advances X s (deleteBothRows q i g s)"
    by (simp_all add: cleanupRows_def deleteBothRows_def)
qed

lemma fail_job_advances:
  assumes safe: "safe X s" and b: "holds_buffer j b s"
  shows "advances X s (fail_job j msg b s)" "\<not> live j (fail_job j msg b s)"
proof -
  note f = failResult_step [OF safe, of j msg]
  have a: "advances X (failResult j msg s) (fail_job j msg b s)"
    unfolding fail_job_def using f buffer_evolves [OF b] by (intro append_buffer_step) auto
  with f show "advances X s (fail_job j msg b s)" by (auto intro: evolves_trans)
  from a f(3) show "\<not> live j (fail_job j msg b s)" by (blast dest: live_evolves)
qed

text \<open>The common end: some bookkeeping, the failure, some bookkeeping, the rows.\<close>

lemma fail_and_clean:
  assumes safe: "safe X s" and own: "owned j q i s" "owned j GlobalQueueName g s" "holds_buffer j b s"
    and pre: "core_same s s1" and post: "core_same (fail_job j msg b s1) s2"
  shows "advances X s (cleanupRows q i g s2)" "advances X s (deleteBothRows q i g s2)"
proof -
  have a1: "advances X s s1" by (rule core_then [OF safe pre])
  note f = fail_job_advances [OF conjunct1 [OF a1] buffer_evolves [OF own(3) a1], of msg]
  have a2: "advances X (fail_job j msg b s1) s2" by (rule core_then [OF conjunct1 [OF f(1)] post])
  have a: "advances X s s2" using a1 f(1) a2 advances_trans by blast
  have "\<not> live j s2" using f(2) a2 by (blast dest: live_evolves)
  note rows_away [OF conjunct1 [OF a] owned_evolves [OF own(1) a] owned_evolves [OF own(2) a] this]
  with a show "advances X s (cleanupRows q i g s2)" "advances X s (deleteBothRows q i g s2)"
    by (blast intro: evolves_trans)+
qed

lemma releaseLeaseForRetry_advances: "safe X s \<Longrightarrow> advances X s (releaseLeaseForRetry q i s)"
  unfolding releaseLeaseForRetry_def by (rule lease_steps(2))

lemma keepAlive_advances: "safe X s \<Longrightarrow> advances X s (keepAlive q i s)"
  unfolding keepAlive_def by (rule lease_steps(1))

lemma leaseForDispatch_advances:
  assumes safe: "safe X s" and q: "q \<noteq> GlobalQueueName" and op: "leaseForDispatch q i s = (r, s')"
  shows "advances X s s'" "r = Some env \<Longrightarrow> claims q (row_msg i env) s'"
proof -
  obtain l s1 where lease: "LeaseByID q i dispatchLeaseDuration s = (l, s1)" by fastforce
  have a1: "advances X s s1" using lease_steps(4) [OF safe q, of i dispatchLeaseDuration] lease by simp
  have m: "claims q m s1" "msg_id m = i" if "l = Inr (Some m)" for m
    using LeaseByID_claims [OF safe q] lease that by blast+
  have del: "advances X s1 (snd (Delete q (msg_id m) s1))" if "l = Inr (Some m)" "msg_body m = Garbage err" for m err
    using m(1) [OF that(1)] that(2) a1 q
    by (intro delete_garbage_step) (auto simp: claims_def body_gmid_def)
  show "advances X s s'"
    using op a1 del
    by (auto simp: leaseForDispatch_def lease split: sum.splits option.splits body.splits intro: evolves_trans
        elim!: unmarshal_body.elims)
  show "claims q (row_msg i env) s'" if "r = Some env"
    using op that m
    by (auto simp: leaseForDispatch_def lease claims_def msg_job_def split: sum.splits option.splits
        elim!: unmarshal_body.elims)
qed

lemma GetResult_step:
  assumes "safe X s" "GetResult i s = (r, s')"
  shows "advances X s s'" "r = Inl ErrNoResult \<Longrightarrow> \<not> live i s'"
    "r = Inr x \<Longrightarrow> isTerminalStatus (res_status x) \<Longrightarrow> \<not> live i s'"
proof -
  obtain s1 where g: "Get i s = (Inr (map_of (results s) i), s1)"
    using Get_step(2) [OF assms(1), of i] by (metis prod.collapse)
  have a: "advances X s s1" "results s1 = results s" using Get_step(1,3) [OF assms(1), of i] g by simp_all
  show "advances X s s'" "r = Inl ErrNoResult \<Longrightarrow> \<not> live i s'"
    "r = Inr x \<Longrightarrow> isTerminalStatus (res_status x) \<Longrightarrow> \<not> live i s'"
    using assms(2) a safeD(5) [OF assms(1)]
    by (auto simp: GetResult_def g live_def status_of_def isTerminalStatus_def terminal_def split: option.splits)
qed

lemma dispatch_buffer_advances:
  assumes safe: "safe X s" and q: "q \<noteq> GlobalQueueName" and m: "claims q (row_msg i env) s"
    and op: "dispatch_buffer q i env s = (r, s')"
  shows "advances X s s'" "r = Some b \<Longrightarrow> holds_buffer (env_request_id env) b s'"
proof -
  define j where "j = env_request_id env"
  have own: "owned j q i s" "owned j GlobalQueueName (env_global_msg_id env) s"
    using claims_encoded [OF m] q by (simp_all add: j_def)
  obtain g s1 where get: "GetResult j s = (g, s1)" by fastforce
  note gs = GetResult_step [OF safe get]
  note own1 = own [THEN owned_evolves, OF gs(1)]
  obtain b0 s2 where e: "ensureJobBuffer j s1 = (b0, s2)" by fastforce
  have ens: "advances X s1 s2" "holds_buffer j b0 s2"
    using ensureJobBuffer_step [OF conjunct1 [OF gs(1)] e] by blast+
  have none: "advances X s (cleanupRows q i (env_global_msg_id env) (failResult j t s1))" for t
  proof -
    note f = failResult_step [OF conjunct1 [OF gs(1)], of j t]
    have a: "advances X s (failResult j t s1)" using gs(1) f by (blast intro: evolves_trans)
    from rows_away(1) [OF f(1) own [THEN owned_evolves, OF a] f(3)] a show ?thesis by (blast intro: evolves_trans)
  qed
  have dead: "advances X s (cleanupRows q i (env_global_msg_id env) s1)" if "\<not> live j s1"
    using rows_away(1) [OF conjunct1 [OF gs(1)] own1 that] gs(1) by (blast intro: evolves_trans)
  show "advances X s s'"
  proof (cases "map_of (sc_buffers s) j")
    case None
    then show ?thesis
      using op gs none dead ens
      by (auto simp: dispatch_buffer_def j_def [symmetric] get e split: sum.splits get_error.splits if_splits
          intro: evolves_trans)
  qed (use op safe in \<open>simp add: dispatch_buffer_def j_def [symmetric]\<close>)
  show "holds_buffer (env_request_id env) b s'" if "r = Some b"
  proof (cases "map_of (sc_buffers s) j")
    case None
    then show ?thesis
      using op ens that
      by (auto simp: dispatch_buffer_def j_def [symmetric] get e split: sum.splits get_error.splits if_splits)
  next
    case (Some b')
    then show ?thesis
      using op that held_buffers [OF safe map_of_SomeD [OF Some]]
      by (simp add: dispatch_buffer_def j_def [symmetric])
  qed
qed

lemma dispatch_gate_advances:
  assumes safe: "safe X s" and q: "q \<noteq> GlobalQueueName" and m: "claims q (row_msg i env) s"
    and b: "holds_buffer (env_request_id env) b s" and op: "dispatch_gate sw q i env b s = (r, s')"
  shows "advances X s s'" "r = Some (d, ms) \<Longrightarrow> dispatch_ok d s'"
proof -
  obtain o' s1 where mb: "modelBenchmark sw env s = (o', s1)" by fastforce
  have a1: "advances X s s1"
    using caches_advances [OF modelBenchmark_caches safe, of sw env] mb by simp
  have rel: "advances X s (releaseLeaseForRetry q i s1)"
    using a1 releaseLeaseForRetry_advances by (blast intro: evolves_trans)
  show "advances X s s'"
    using op a1 rel by (auto simp: dispatch_gate_def Let_def mb split: option.splits if_splits)
  show "dispatch_ok d s'" if "r = Some (d, ms)"
    using op that q claims_evolves [OF m a1] buffer_evolves [OF b a1]
    by (auto simp: dispatch_gate_def Let_def mb dispatch_ok_def split: option.splits if_splits)
qed

lemma dispatch_evict_advances:
  assumes safe: "safe X s" shows "advances X s (snd (dispatch_evict unload d m s))"
proof -
  obtain n s1 where e: "EvictModel unload (dp_runtime d) m (dp_worker d) s = (n, s1)" by fastforce
  have "advances X s s1"
    using core_then [OF safe EvictModel_core, of unload "dp_runtime d" m "dp_worker d"] e by simp
  with releaseLeaseForRetry_advances [of X s1] show ?thesis
    by (auto simp: dispatch_evict_def e intro: evolves_trans)
qed

lemma dispatch_commit_advances:
  assumes safe: "safe X s" and d: "dispatch_ok d s" and op: "dispatch_commit sw d s = (d', s')"
  shows "advances X s s'" "dispatch_ok d' s'"
proof -
  show a: "advances X s s'"
    using op core_then [OF safe bookkeeping_core(9)] by (auto simp: dispatch_commit_def Let_def)
  have "dispatch_ok d s'" using d a by (rule dispatch_ok_evolves)
  then show "dispatch_ok d' s'" using op by (auto simp: dispatch_commit_def Let_def dispatch_ok_def split: if_splits)
qed

lemma clearDispatching_after: "advances X s s' \<Longrightarrow> advances X s (clearDispatching rid s')"
  using core_then bookkeeping_core(10) by (blast intro: evolves_trans)

lemma retryAfterLoadFailure_advances:
  assumes safe: "safe X s" and own: "owned j q i s" "owned j GlobalQueueName (env_global_msg_id env) s"
    and j: "env_request_id env = j" "j \<noteq> ''''" and op: "retryAfterLoadFailure q i env s = (r, s')"
  shows "advances (insert j X) s s'" "r \<Longrightarrow> advances X s s'"
proof -
  define g where "g = env_global_msg_id env"
  define del :: "sched \<Rightarrow> (db_error + unit) \<times> sched"
    where "del = (if g \<noteq> '''' then DeleteBoth q i GlobalQueueName g else Delete q i)"
  define e where "e = env\<lparr>env_attempts := env_attempts env + 1, env_global_msg_id := '''', env_queued_seconds := 0\<rparr>"
  obtain x s1 where d: "del s = (x, s1)" by fastforce
  obtain y s2 where sub: "Submit_queue GlobalQueueName e s1 = (y, s2)" by fastforce
  have e: "env_request_id e = j" "env_global_msg_id e = ''''" using j by (simp_all add: e_def)
  have del: "del = DeleteBoth q i GlobalQueueName g \<or> del = Delete q i" by (simp add: del_def)
  note re = requeue_advances [OF safe own [folded g_def] e(1) j(2) e(2) d del sub]
  have after: "advances Y s2 (broadcastQueueChange (kick s2))" if "safe Y s2" for Y
    by (rule core_then [OF that core_same_trans [OF bookkeeping_core(1) bookkeeping_core(3)]])
  have sj: "safe (insert j X) s" using safe by (rule safe_mono) auto
  have eq: "retryAfterLoadFailure q i env s =
     (if uint (env_attempts env) + 1 \<ge> EffectiveLoadAttempts (sc_cfg s) \<or> \<not> sc_initialised s then (False, s)
      else case x of Inl _ \<Rightarrow> (False, s1)
        | Inr _ \<Rightarrow> (case y of Inl _ \<Rightarrow> (False, s2) | Inr _ \<Rightarrow> (True, broadcastQueueChange (kick s2))))"
    using d sub
    by (auto simp: retryAfterLoadFailure_def g_def [symmetric] del_def e_def [symmetric] Let_def
        split: sum.split if_splits)
  show "advances (insert j X) s s'"
    using op [unfolded eq] sj re(1,3) after
    by (auto split: if_splits sum.splits intro: evolves_trans)
  show "advances X s s'" if r
    using op [unfolded eq] that re(4) after
    by (auto split: if_splits sum.splits intro: evolves_trans)
qed

lemma dispatch_load_advances:
  assumes safe: "safe X s" and d: "dispatch_ok d s" and op: "dispatch_load outcome d s = (r, s')"
  shows "advances X s s'"
proof -
  define j where "j = env_request_id (dp_env d)"
  note D = dispatch_okD [OF d, folded j_def]
  obtain r0 s1 where re: "retryAfterLoadFailure (dp_queue d) (dp_msg d) (dp_env d) s = (r0, s1)" by fastforce
  note R = retryAfterLoadFailure_advances [OF safe D(3,4) j_def [symmetric] D(2) re]
  have fail: "advances X s (clearDispatching j (cleanupRows (dp_queue d) (dp_msg d) (env_global_msg_id (dp_env d))
      (fail_job j err (dp_buffer d) s1)))" for err
  proof -
    have "advances (insert j X) s (cleanupRows (dp_queue d) (dp_msg d) (env_global_msg_id (dp_env d))
        (fail_job j err (dp_buffer d) s1))"
      using fail_and_clean(1) [OF conjunct1 [OF R(1)] owned_evolves [OF D(3) R(1)] owned_evolves [OF D(4) R(1)]
          buffer_evolves [OF D(5) R(1)] core_same_refl core_same_refl] R(1)
      by (blast intro: evolves_trans)
    moreover have "\<not> live j (fail_job j err (dp_buffer d) s1)"
      using fail_job_advances(2) [OF conjunct1 [OF R(1)] buffer_evolves [OF D(5) R(1)]] .
    moreover have "advances (insert j X) (fail_job j err (dp_buffer d) s1)
        (cleanupRows (dp_queue d) (dp_msg d) (env_global_msg_id (dp_env d)) (fail_job j err (dp_buffer d) s1))"
    proof -
      note f = fail_job_advances [OF conjunct1 [OF R(1)] buffer_evolves [OF D(5) R(1)], of err]
      have a: "advances (insert j X) s (fail_job j err (dp_buffer d) s1)"
        using R(1) f(1) by (blast intro: evolves_trans)
      show ?thesis
        by (rule rows_away(1) [OF conjunct1 [OF f(1)] owned_evolves [OF D(3) a] owned_evolves [OF D(4) a] f(2)])
    qed
    ultimately have "advances X s (cleanupRows (dp_queue d) (dp_msg d) (env_global_msg_id (dp_env d))
        (fail_job j err (dp_buffer d) s1))"
      by (blast intro: safe_settled dest: live_evolves)
    then show ?thesis by (rule clearDispatching_after)
  qed
  have "advances X s (emit e s)" for e by (rule tail_advances(5) [OF safe])
  moreover have "advances X s (clearDispatching j s1)" if r0 using R(2) [OF that] by (rule clearDispatching_after)
  ultimately show ?thesis
    using safe fail op
    by (auto simp: dispatch_load_def Let_def re j_def [symmetric] split: if_splits sum.splits bool.splits)
qed

lemma dispatch_start_advances:
  assumes safe: "safe X s" and d: "dispatch_ok d s" and op: "dispatch_start d s = (r, s')"
  shows "advances X s s'"
proof -
  define j where "j = env_request_id (dp_env d)"
  define rt where "rt = env_runtime_name (dp_env d)"
  note D = dispatch_okD [OF d, folded j_def]
  obtain ok s1 where st: "startInflight (dp_queue d) j (env_model_id (dp_env d)) rt
      (env_cost (dp_env d) / mb_units_per_sec (dp_row d)) (dp_reserved d) s = (ok, s1)" by fastforce
  have c1: "core_same s s1" using bookkeeping_core(6) st by (metis snd_conv)
  have a1: "advances X s s1" by (rule core_then [OF safe c1])
  have "advances X s (cleanupRows (dp_queue d) (dp_msg d) (env_global_msg_id (dp_env d))
      (fail_job j ''cancelled by operator'' (dp_buffer d) (emit (JobDispatched rt ''cancelled'') s1)))"
    by (rule fail_and_clean(1) [OF safe D(3-5) core_same_trans [OF c1 bookkeeping_core(2)] core_same_refl])
  note fail = clearDispatching_after [OF this]
  have p: "advances X s (processingResult j s1)"
    using progress_steps(1,2) [OF conjunct1 [OF a1], of j] a1 by (blast intro: evolves_trans)
  have "advances X s (broadcastQueueChange (debitTail q x (processingResult j s1)))" for q x
    using core_then [OF conjunct1 [OF p] core_same_trans [OF tail_ops_core(2) bookkeeping_core(3)]] p
    by (blast intro: evolves_trans)
  with fail op show ?thesis
    by (auto simp: dispatch_start_def Let_def j_def [symmetric] rt_def [symmetric] st split: bool.splits)
qed

lemma dispatch_assign_advances:
  assumes safe: "safe X s" and d: "dispatch_ok d s" and op: "dispatch_assign outcome d s = (r, s')"
  shows "advances X s s'"
proof -
  define j where "j = env_request_id (dp_env d)"
  note D = dispatch_okD [OF d, folded j_def]
  have "advances X s (cleanupRows (dp_queue d) (dp_msg d) (env_global_msg_id (dp_env d))
      (finishInflight j (fail_job j err (dp_buffer d) (emit e s))))" for err e
    by (rule fail_and_clean(1) [OF safe D(3-5) bookkeeping_core(2) bookkeeping_core(5)])
  note fail = clearDispatching_after [OF this]
  have "advances X s (attachWorkerJobID j job s)" for job by (rule core_then [OF safe bookkeeping_core(7)])
  note ok = clearDispatching_after [OF this]
  from fail ok op show ?thesis
    by (auto simp: dispatch_assign_def Let_def j_def [symmetric] split: sum.splits)
qed

lemma pump_chunk_advances:
  assumes safe: "safe X s" and p: "pump_ok p s" and op: "pump_chunk c p s = (p', s')"
  shows "advances X s s'" "pump_ok p' s'"
proof -
  have b: "holds_buffer (pp_request p) (pp_buffer p) s" using p by (simp add: pump_ok_def)
  show a: "advances X s s'"
    using op safe append_buffer_step [OF safe b, of c]
    by (auto simp: pump_chunk_def terminal_chunk_def split: job_chunk_type.splits)
  have "pump_ok p s'" using p a by (rule pump_ok_evolves)
  then show "pump_ok p' s'"
    using op by (auto simp: pump_chunk_def pump_ok_def terminal_chunk_def split: job_chunk_type.splits)
qed

lemma pump_close_advances:
  assumes safe: "safe X s" and p: "pump_ok p s"
  shows "advances X s (pump_close online p s)"
proof -
  define j where "j = pp_request p"
  define s1 where "s1 = kick (finishInflight j s)"
  have P: "owned j (pp_queue p) (pp_msg p) s" "owned j GlobalQueueName (pp_global p) s"
    "holds_buffer j (pp_buffer p) s" and tc: "pp_terminal p = Some c \<Longrightarrow> terminal_chunk c" for c
    using p by (auto simp: pump_ok_def j_def)
  have c1: "core_same s s1" unfolding s1_def by (rule core_same_trans [OF bookkeeping_core(5) bookkeeping_core(1)])
  have a1: "advances X s s1" by (rule core_then [OF safe c1])
  have lost: "advances X s (deleteBothRows (pp_queue p) (pp_msg p) (pp_global p)
      (fail_job j err (pp_buffer p) (emit e s1)))" for err e
    by (rule fail_and_clean(2) [OF safe P core_same_trans [OF c1 bookkeeping_core(2)] core_same_refl])
  have settle: "advances X s (deleteBothRows (pp_queue p) (pp_msg p) (pp_global p)
      (append_buffer (pp_buffer p) c s2))" if "advances X s s2" "\<not> live j s2" for s2 c
  proof -
    have a2: "advances X s2 (append_buffer (pp_buffer p) c s2)"
      using that buffer_evolves [OF P(3) that(1)] by (intro append_buffer_step) auto
    have a: "advances X s (append_buffer (pp_buffer p) c s2)" using that(1) a2 by (rule advances_trans)
    have "\<not> live j (append_buffer (pp_buffer p) c s2)" using that(2) a2 by (blast dest: live_evolves)
    from rows_away(2) [OF conjunct1 [OF a] owned_evolves [OF P(1) a] owned_evolves [OF P(2) a] this] a
    show ?thesis by (blast intro: evolves_trans)
  qed
  have e: "advances X s (emit ev s1)" for ev
    using tail_advances(5) [OF conjunct1 [OF a1]] a1 by (blast intro: evolves_trans)
  have f: "advances X s (failResult j err (emit ev s1))" "\<not> live j (failResult j err (emit ev s1))" for err ev
    using failResult_step [OF conjunct1 [OF e]] e by (blast intro: evolves_trans)+
  have g: "advances X s (completeResult j body (emit ev s1))" "\<not> live j (completeResult j body (emit ev s1))" for body ev
    using completeResult_step [OF conjunct1 [OF e]] e by (blast intro: evolves_trans)+
  show ?thesis
    using a1 lost settle [OF f] settle [OF g]
    by (simp add: pump_close_def Let_def j_def [symmetric] s1_def [symmetric] split: option.split)
qed

text \<open>Stealing moves a row between worker queues, which leaves every anchor backed.\<close>

lemma queue_stats_advances: "safe X s \<Longrightarrow> advances X s (snd (queue_stats ws s))"
proof (induction ws arbitrary: s)
  case (Cons w ws)
  obtain r s1 where d: "Depth (workerQueueName (w_id w)) s = (r, s1)" by fastforce
  obtain st s2 where q: "queue_stats ws s1 = (st, s2)" by fastforce
  have "advances X s s1" using query_step(4) [OF Cons.prems, of "workerQueueName (w_id w)"] d by simp
  with Cons.IH [of s1] q show ?case by (auto simp: d split: sum.split intro: evolves_trans)
qed simp

lemma steal_row_advances:
  assumes safe: "safe X s" and q: "src \<noteq> GlobalQueueName" "dst \<noteq> GlobalQueueName"
  shows "advances X s (steal_row idle src dst m s)"
proof (cases "msg_body m")
  case (Encoded env)
  obtain b s1 where mb: "modelBenchmark idle env s = (b, s1)" by fastforce
  have a1: "advances X s s1" using caches_advances [OF modelBenchmark_caches safe, of idle env] mb by simp
  obtain r s2 where mv: "MoveTo src dst (msg_id m) (env_priority env) s1 = (r, s2)" by fastforce
  have a2: "advances X s s2"
    using move_step [OF conjunct1 [OF a1] q, of "msg_id m" "env_priority env"] a1 mv by (auto intro: evolves_trans)
  have "advances X s (creditTail dst x k (debitTail src x s2))" for x k
    using core_then [OF conjunct1 [OF a2] core_same_trans [OF tail_ops_core(2,1)]] a2 by (blast intro: evolves_trans)
  with safe a1 a2 show ?thesis
    by (simp add: steal_row_def Encoded mb mv split: option.split sum.split)
qed (use safe in \<open>simp add: steal_row_def\<close>)

lemma steal_for_advances:
  assumes safe: "safe X s" shows "advances X s (steal_for stats idle s)"
proof -
  obtain w depth where i: "idle = (w, depth)" by fastforce
  have "advances X s (case Peek src 1 s of (Inl _, s) \<Rightarrow> s | (Inr [], s) \<Rightarrow> s
      | (Inr (m # _), s) \<Rightarrow> steal_row w src (workerQueueName (w_id w)) m s)" if "src \<noteq> GlobalQueueName" for src
  proof -
    obtain r s1 where p: "Peek src 1 s = (r, s1)" by fastforce
    have a1: "advances X s s1" using query_step(1) [OF safe, of src 1] p by simp
    have "advances X s (steal_row w src (workerQueueName (w_id w)) m s1)" for m
      using steal_row_advances [OF conjunct1 [OF a1] that, of "workerQueueName (w_id w)"] a1
      by (auto intro: evolves_trans)
    with a1 show ?thesis unfolding p by (simp split: sum.split list.split)
  qed
  note take = this [OF workerQueueName_not_global(1)]
  show ?thesis using safe take by (simp add: steal_for_def i Let_def del: One_nat_def split: option.split)
qed

lemma stealWithinRuntime_advances:
  assumes safe: "safe X s" shows "advances X s (stealWithinRuntime ws s)"
proof -
  obtain st s1 where q: "queue_stats ws s = (st, s1)" by fastforce
  have a: "advances X s s1" using queue_stats_advances [OF safe, of ws] q by simp
  then have "advances X s1 (fold (steal_for st) st s1)"
    by (intro fold_advances steal_for_advances) simp_all
  with a show ?thesis by (auto simp: stealWithinRuntime_def q intro: evolves_trans)
qed

lemma attemptSteals_advances: "safe X s \<Longrightarrow> advances X s (attemptSteals s)"
  unfolding attemptSteals_def Let_def by (rule fold_advances) (auto simp: stealWithinRuntime_advances)

lemma start_drainers_core: "core_same s (snd (start_drainers qs s))"
proof (induction qs arbitrary: s)
  case (Cons q qs)
  obtain b s1 where t: "tryMarkDraining q s = (b, s1)" by fastforce
  have "core_same s s1" using bookkeeping_core(12) t by (metis snd_conv)
  with Cons.IH [of s1] show ?case by (auto simp: t split: prod.split intro: core_same_trans)
qed simp

lemma endDrainer_core: "core_same s (endDrainer q s)"
proof -
  obtain b s1 where f: "finishDraining q s = (b, s1)" by fastforce
  have "core_same s s1" using bookkeeping_core(13) f by (metis snd_conv)
  then show ?thesis by (auto simp: endDrainer_def f intro: core_same_trans)
qed

lemma dispatchPass_advances:
  assumes safe: "safe X s" shows "advances X s (snd (dispatchPass s))"
proof -
  define s1 where "s1 = sweepOrphanQueues s"
  obtain p s2 where g: "drainGlobal s1 = (p, s2)" by fastforce
  obtain ds s3 where d: "start_drainers (sc_queues s2) s2 = (ds, s3)" by fastforce
  have a1: "advances X s s1" unfolding s1_def by (rule sweepOrphanQueues_advances [OF safe])
  have a2: "advances X s1 s2" using drainGlobal_advances [of X s1] a1 g by simp
  have a3: "advances X s2 s3" using core_then [OF conjunct1 [OF a2] start_drainers_core] d by (metis snd_conv)
  have a4: "advances X s3 (attemptSteals s3)" using a3 by (intro attemptSteals_advances) simp
  from a1 a2 a3 a4 have "advances X s (attemptSteals s3)" using advances_trans by blast
  then show ?thesis by (simp add: dispatchPass_def Let_def s1_def [symmetric] g d)
qed

lemma drainOneWorkerQueue_advances:
  assumes safe: "safe X s" and op: "drainOneWorkerQueue q s = (r, s')"
  shows "advances X s s'" "r = Some (sw, ms) \<Longrightarrow> \<exists>w. q = workerQueueName w \<and> Get_worker w (sc_fleet s) = Some sw
    \<and> w_online sw \<and> w \<notin> set (sc_gated s)"
    "r = Some (sw, ms) \<Longrightarrow> m \<in> set ms \<Longrightarrow> claims q m s'"
proof -

  have step: "advances X s (snd (Peek q n s))" for n by (rule query_step(1) [OF safe])
  show "advances X s s'"
    using op safe step
    by (auto simp: drainOneWorkerQueue_def Let_def split: option.splits if_splits prod.splits sum.splits)
      (metis snd_conv)+
  show "r = Some (sw, ms) \<Longrightarrow> \<exists>w. q = workerQueueName w \<and> Get_worker w (sc_fleet s) = Some sw
    \<and> w_online sw \<and> w \<notin> set (sc_gated s)"
    using op
    by (auto simp: drainOneWorkerQueue_def Let_def split: option.splits if_splits prod.splits sum.splits
        dest: parseWorkerQueueName_inverse)
  show "r = Some (sw, ms) \<Longrightarrow> m \<in> set ms \<Longrightarrow> claims q m s'"
    using op
    by (auto simp: drainOneWorkerQueue_def Let_def split: option.splits if_splits prod.splits sum.splits
        intro: Peek_claims [OF safe])
qed

end
