(* ===== verification/Queue_View.thy ===== *)
theory Queue_View
  imports Dispatch
begin

text \<open>
  The operator's side of the scheduler (\<open>queue_view.go\<close>): the snapshot of the queues, the files the
  queued jobs need, and the cancel and evict operations with their errors.

  A snapshot receives the measurements running at that moment, which the benchmark orchestrator
  reports. \<open>sent\<close> is whether the worker's stream accepts a message.
\<close>

subsection \<open>Snapshots\<close>

record queue_row =
  qr_msg_id :: message_id
  qr_request_id :: request_id
  qr_runtime :: runtime_name
  qr_model :: model_id
  qr_source :: string
  qr_priority :: int
  qr_queued_seconds :: seconds
  qr_payload_bytes :: nat
  qr_inflight :: bool

record running_bench =
  rb_model_key :: string
  rb_runtime :: runtime_name

record queue_section =
  sec_name :: queue_name
  sec_worker :: worker_id
  sec_rows :: "queue_row list"
  sec_depth :: seconds
  sec_bench :: "running_bench option"

definition inflightRequestIDs :: "sched \<Rightarrow> request_id list" where
  "inflightRequestIDs s = keys (sc_inflight s)"

definition envelopeToRow :: "request_id list \<Rightarrow> 'm message_scheme \<Rightarrow> queue_row option" where
  "envelopeToRow inflight m = (case unmarshal_body (msg_body m) of
      Inl _ \<Rightarrow> None
    | Inr env \<Rightarrow> Some \<lparr> qr_msg_id = msg_id m, qr_request_id = env_request_id env,
        qr_runtime = env_runtime_name env, qr_model = env_model_id env, qr_source = env_source env,
        qr_priority = env_priority env, qr_queued_seconds = env_queued_seconds env,
        qr_payload_bytes = length (env_payload env),
        qr_inflight = (env_request_id env \<in> set inflight) \<rparr>)"

definition sumQueuedSeconds :: "queue_row list \<Rightarrow> seconds" where
  "sumQueuedSeconds rs = fold (\<lambda>r tot. if qr_queued_seconds r > 0 then tot + qr_queued_seconds r else tot) rs 0"

definition peekRowsUnleased :: "queue_name \<Rightarrow> request_id list \<Rightarrow> sched \<Rightarrow> (db_error + queue_row list) \<times> sched" where
  "peekRowsUnleased q inflight s = (case Peek q queuePeekLimit s of
      (Inl err, s) \<Rightarrow> (Inl err, s)
    | (Inr ms, s) \<Rightarrow> (Inr (List.map_filter (envelopeToRow inflight) ms), s))"

definition peekRowsAll :: "queue_name \<Rightarrow> request_id list \<Rightarrow> sched \<Rightarrow> (db_error + queue_row list) \<times> sched" where
  "peekRowsAll q inflight s = (case PeekAll q queuePeekLimit s of
      (Inl err, s) \<Rightarrow> (Inl err, s)
    | (Inr ms, s) \<Rightarrow> (Inr (List.map_filter (envelopeToRow inflight) ms), s))"

type_synonym benches = "(worker_id \<times> running_bench) list"

fun worker_sections :: "queue_name list \<Rightarrow> request_id list \<Rightarrow> benches \<Rightarrow> sched
    \<Rightarrow> (db_error + queue_section list \<times> benches) \<times> sched" where
  "worker_sections [] inflight benches s = (Inr ([], benches), s)"
| "worker_sections (q # qs) inflight benches s = (case peekRowsAll q inflight s of
      (Inl err, s) \<Rightarrow> (Inl err, s)
    | (Inr rs, s) \<Rightarrow>
        let w = (case parseWorkerQueueName q of None \<Rightarrow> '''' | Some w \<Rightarrow> w);
            sec = \<lparr> sec_name = q, sec_worker = w, sec_rows = rs, sec_depth = sumQueuedSeconds rs,
                    sec_bench = map_of benches w \<rparr>
        in case worker_sections qs inflight (AList.delete w benches) s of
             (Inl err, s) \<Rightarrow> (Inl err, s)
           | (Inr (secs, left), s) \<Rightarrow> (Inr (sec # secs, left), s))"

definition bench_sections :: "benches \<Rightarrow> queue_section list" where
  "bench_sections benches = map (\<lambda>w. \<lparr> sec_name = workerQueueName w, sec_worker = w, sec_rows = [],
     sec_depth = 0, sec_bench = map_of benches w \<rparr>) (sort (keys benches))"

definition QueueSnapshot :: "benches \<Rightarrow> sched \<Rightarrow> (db_error + queue_section list) \<times> sched" where
  "QueueSnapshot benches s =
     (let inflight = inflightRequestIDs s;
          (head, s) = (if \<not> sc_initialised s then (Inr [], s)
             else case peekRowsUnleased GlobalQueueName inflight s of
               (Inl err, s) \<Rightarrow> (Inl err, s)
             | (Inr rs, s) \<Rightarrow> (Inr [\<lparr> sec_name = GlobalQueueName, sec_worker = '''', sec_rows = rs,
                 sec_depth = sumQueuedSeconds rs, sec_bench = None \<rparr>], s))
      in case head of
           Inl err \<Rightarrow> (Inl err, s)
         | Inr secs \<Rightarrow> (case worker_sections (sort (sc_queues s)) inflight benches s of
               (Inl err, s) \<Rightarrow> (Inl err, s)
             | (Inr (secs', left), s) \<Rightarrow> (Inr (secs @ secs' @ bench_sections left), s)))"

definition body_files :: "body \<Rightarrow> string list" where
  "body_files b = (case unmarshal_body b of
      Inl _ \<Rightarrow> []
    | Inr env \<Rightarrow> filter (\<lambda>f. f \<noteq> '''') (map (\<lambda>f. case f of None \<Rightarrow> '''' | Some f \<Rightarrow> mf_filename f) (env_files env)))"

fun queued_files :: "queue_name list \<Rightarrow> sched \<Rightarrow> (db_error + string list) \<times> sched" where
  "queued_files [] s = (Inr [], s)"
| "queued_files (q # qs) s = (case PeekAll q queuePeekLimit s of
      (Inl err, s) \<Rightarrow> (Inl err, s)
    | (Inr ms, s) \<Rightarrow> (case queued_files qs s of
          (Inl err, s) \<Rightarrow> (Inl err, s)
        | (Inr fs, s) \<Rightarrow> (Inr (concat (map (\<lambda>m. body_files (msg_body m)) ms) @ fs), s)))"

definition QueuedModelFiles :: "sched \<Rightarrow> (db_error + string list) \<times> sched" where
  "QueuedModelFiles s =
     (case queued_files ((if sc_initialised s then [GlobalQueueName] else []) @ sc_queues s) s of
        (Inl err, s) \<Rightarrow> (Inl err, s)
      | (Inr fs, s) \<Rightarrow> (Inr (remdups fs), s))"

subsection \<open>Cancelling and evicting\<close>

datatype cancel_error = CancelNotInitialised | ErrRowInFlight | ErrUnknownQueue queue_name
  | ErrEvictGlobalRow | ErrNotInflight request_id | ErrWorkerGone worker_id | CancelFailed db_error
  | MissingAnchor | MissingWorkerID | CancelSendFailed

definition findUnleasedRow :: "queue_name \<Rightarrow> message_id \<Rightarrow> sched \<Rightarrow> (db_error + message option) \<times> sched" where
  "findUnleasedRow q i s = (case Peek q queuePeekLimit s of
      (Inl err, s) \<Rightarrow> (Inl err, s)
    | (Inr ms, s) \<Rightarrow> (Inr (find (\<lambda>m. msg_id m = i) ms), s))"

text \<open>The end of a cancel: the result and the buffer of the row's request.\<close>

definition cancel_result :: "body \<Rightarrow> sched \<Rightarrow> sched" where
  "cancel_result b s = (case unmarshal_body b of
      Inl _ \<Rightarrow> s
    | Inr env \<Rightarrow> if env_request_id env \<noteq> ''''
        then dropJob (env_request_id env) (failResult (env_request_id env) ''cancelled by operator'' s) else s)"

definition cancelGlobal :: "message_id \<Rightarrow> sched \<Rightarrow> (cancel_error + unit) \<times> sched" where
  "cancelGlobal i s = (case findUnleasedRow GlobalQueueName i s of
      (Inl err, s) \<Rightarrow> (Inl (CancelFailed err), s)
    | (Inr None, s) \<Rightarrow> (Inl ErrRowInFlight, s)
    | (Inr (Some m), s) \<Rightarrow> (case Delete GlobalQueueName i s of
          (Inl err, s) \<Rightarrow> (Inl (CancelFailed err), s)
        | (Inr _, s) \<Rightarrow> (Inr (), broadcastQueueChange (cancel_result (msg_body m) s))))"

definition cancelWorkerQueue :: "queue_name \<Rightarrow> message_id \<Rightarrow> sched \<Rightarrow> (cancel_error + unit) \<times> sched" where
  "cancelWorkerQueue q i s = (case findUnleasedRow q i s of
      (Inl err, s) \<Rightarrow> (Inl (CancelFailed err), s)
    | (Inr None, s) \<Rightarrow> (Inl ErrRowInFlight, s)
    | (Inr (Some m), s) \<Rightarrow>
        let g = body_gmid (msg_body m) in
        case (if g = '''' \<or> \<not> sc_initialised s then Delete q i s else DeleteBoth q i GlobalQueueName g s) of
          (Inl err, s) \<Rightarrow> (Inl (CancelFailed err), s)
        | (Inr _, s) \<Rightarrow> (Inr (), broadcastQueueChange (cancel_result (msg_body m) s)))"

definition CancelQueuedRow :: "queue_name \<Rightarrow> message_id \<Rightarrow> sched \<Rightarrow> (cancel_error + unit) \<times> sched" where
  "CancelQueuedRow q i s =
     (if q = GlobalQueueName
      then (if \<not> sc_initialised s then (Inl CancelNotInitialised, s) else cancelGlobal i s)
      else if q \<notin> set (sc_queues s) then (Inl (ErrUnknownQueue q), s)
      else cancelWorkerQueue q i s)"

definition EvictQueuedRowToGlobal :: "queue_name \<Rightarrow> message_id \<Rightarrow> sched \<Rightarrow> (cancel_error + unit) \<times> sched" where
  "EvictQueuedRowToGlobal q i s =
     (if q = GlobalQueueName then (Inl ErrEvictGlobalRow, s)
      else if q \<notin> set (sc_queues s) then (Inl (ErrUnknownQueue q), s)
      else if \<not> sc_initialised s then (Inl CancelNotInitialised, s)
      else case findUnleasedRow q i s of
        (Inl err, s) \<Rightarrow> (Inl (CancelFailed err), s)
      | (Inr None, s) \<Rightarrow> (Inl ErrRowInFlight, s)
      | (Inr (Some m), s) \<Rightarrow> (case unmarshal_body (msg_body m) of
            Inl _ \<Rightarrow> (Inl MissingAnchor, s)
          | Inr env \<Rightarrow>
              if env_global_msg_id env = '''' then (Inl MissingAnchor, s)
              else case DeleteAndReleaseLease q i GlobalQueueName (env_global_msg_id env) s of
                (Inl err, s) \<Rightarrow> (Inl (CancelFailed err), s)
              | (Inr _, s) \<Rightarrow> (Inr (), broadcastQueueChange (kick (debitTail q (env_queued_seconds env) s)))))"

definition CancelRunningJob :: "bool \<Rightarrow> request_id \<Rightarrow> sched \<Rightarrow> (cancel_error + unit) \<times> sched" where
  "CancelRunningJob sent rid s = (case markInflightCancelled rid s of
      (None, s) \<Rightarrow> (Inl (ErrNotInflight rid), s)
    | (Some (w, job), s) \<Rightarrow>
        if job = '''' then (Inr (), broadcastQueueChange s)
        else if w = '''' then (Inl MissingWorkerID, s)
        else case Get_worker w (sc_fleet s) of
          None \<Rightarrow> (Inl (ErrWorkerGone w), s)
        | Some sw \<Rightarrow>
            if \<not> send_ok sent sw then (Inl CancelSendFailed, s)
            else (Inr (), broadcastQueueChange (emit (SentCancel w job) s)))"

definition names_request :: "request_id \<Rightarrow> 'm message_scheme \<Rightarrow> bool" where
  "names_request rid m \<longleftrightarrow> body_rid (msg_body m) = Some rid"

definition findPendingGlobalRow :: "request_id \<Rightarrow> sched \<Rightarrow> (db_error + message_id option) \<times> sched" where
  "findPendingGlobalRow rid s = (case Peek GlobalQueueName queuePeekLimit s of
      (Inl err, s) \<Rightarrow> (Inl err, s)
    | (Inr ms, s) \<Rightarrow> (Inr (map_option msg_id (find (names_request rid) ms)), s))"

fun findPendingWorkerRow :: "request_id \<Rightarrow> queue_name list \<Rightarrow> sched
    \<Rightarrow> (db_error + (queue_name \<times> message_id) option) \<times> sched" where
  "findPendingWorkerRow rid [] s = (Inr None, s)"
| "findPendingWorkerRow rid (q # qs) s = (case Peek q queuePeekLimit s of
      (Inl err, s) \<Rightarrow> (Inl err, s)
    | (Inr ms, s) \<Rightarrow> (case find (names_request rid) ms of
          Some m \<Rightarrow> (Inr (Some (q, msg_id m)), s)
        | None \<Rightarrow> findPendingWorkerRow rid qs s))"

text \<open>After both scans came back empty.\<close>

definition cancel_dispatched :: "bool \<Rightarrow> request_id \<Rightarrow> sched \<Rightarrow> (cancel_error + unit) \<times> sched" where
  "cancel_dispatched sent rid s = (case requestCancelDuringDispatch rid s of
      (True, s) \<Rightarrow> (Inr (), broadcastQueueChange s)
    | (False, s) \<Rightarrow> CancelRunningJob sent rid s)"

definition CancelByRequestID :: "bool \<Rightarrow> request_id \<Rightarrow> sched \<Rightarrow> (cancel_error + unit) \<times> sched" where
  "CancelByRequestID sent rid s =
     (case (if sc_initialised s then findPendingGlobalRow rid s else (Inr None, s)) of
        (Inl err, s) \<Rightarrow> (Inl (CancelFailed err), s)
      | (Inr (Some i), s) \<Rightarrow> cancelGlobal i s
      | (Inr None, s) \<Rightarrow> (case findPendingWorkerRow rid (sc_queues s) s of
            (Inl err, s) \<Rightarrow> (Inl (CancelFailed err), s)
          | (Inr (Some (q, i)), s) \<Rightarrow> cancelWorkerQueue q i s
          | (Inr None, s) \<Rightarrow> cancel_dispatched sent rid s))"

subsection \<open>Every step keeps the jobs\<close>

text \<open>Request ids and message ids have different formats; requests only appear through \<open>Submit\<close>.\<close>

definition apart :: "sched \<Rightarrow> bool" where
  "apart s \<longleftrightarrow> (\<forall>i. live i s \<longrightarrow> i \<notin> range (id_supply s))"

lemma apart_evolves: "apart s \<Longrightarrow> evolves s s' \<Longrightarrow> apart s'"
  by (auto simp: apart_def evolves_def extends_def)

lemma findUnleasedRow_step:
  assumes safe: "safe X s" and op: "findUnleasedRow q i s = (r, s')"
  shows "advances X s s'" "r = Inr (Some m) \<Longrightarrow> claims q m s' \<and> msg_id m = i \<and> i \<in> range (id_supply s')"
proof -
  obtain x s1 where p: "Peek q queuePeekLimit s = (x, s1)" by fastforce
  have a: "advances X s s1" using query_step(1) [OF safe, of q queuePeekLimit] p by simp
  then show "advances X s s'" using op by (auto simp: findUnleasedRow_def p split: sum.splits)
  show "claims q m s' \<and> msg_id m = i \<and> i \<in> range (id_supply s')" if "r = Inr (Some m)"
  proof -
    from op that obtain ms where x: "x = Inr ms" "find (\<lambda>m. msg_id m = i) ms = Some m" "s' = s1"
      by (auto simp: findUnleasedRow_def p split: sum.splits)
    then have m: "m \<in> set ms" "msg_id m = i" by (auto simp: find_Some_iff)
    with p x obtain r where "r \<in> set (rows s)" "row_id r = i"
      by (auto simp: Peek_def qtx_def Let_def queue_order_def message_of_def split: if_splits dest!: in_set_takeD)
    then have "i \<in> drawn s" using row_ids(2) [OF safeD(1) [OF safe]] by blast
    then have "i \<in> range (id_supply s')"
      using a x(3) by (auto simp: evolves_def extends_def drawn_def)
    with Peek_claims [OF safe p [unfolded x(1)] m(1)] m(2) x(3) show ?thesis by simp
  qed
qed

lemma cancel_result_advances:
  assumes "advances (insert j X) s s1" "b = Encoded e" "env_request_id e = j" "j \<noteq> ''''"
  shows "advances X s (broadcastQueueChange (cancel_result b s1))" "\<not> live j (cancel_result b s1)"
proof -
  have a1: "advances X s (failResult j ''cancelled by operator'' s1)"
    using assms(1) by (rule failResult_settles)
  have dead: "\<not> live j (failResult j ''cancelled by operator'' s1)"
    using failResult_step(3) assms(1) by blast
  have a2: "advances X (failResult j ''cancelled by operator'' s1) (dropJob j (failResult j ''cancelled by operator'' s1))"
    using a1 by (intro dropJob_step) simp
  show "advances X s (broadcastQueueChange (cancel_result b s1))"
    using a1 a2 tail_advances(3) assms by (simp add: cancel_result_def) (blast intro: evolves_trans)
  show "\<not> live j (cancel_result b s1)"
    using a2 dead assms by (auto simp: cancel_result_def dest: live_evolves)
qed

lemma delete_error:
  assumes "safe X s" "Delete q i s = (Inl err, s')" shows "advances X s s'"
proof -
  have "queue_frame s s'" "rows s' = rows s"
    using queue_op_frame(2) [of s q i] queue_op_error(2) [of q i s err] assms(2) by auto
  from same_rows_step [OF assms(1) this] show ?thesis .
qed

lemma deleteBoth_error:
  assumes "safe X s" "DeleteBoth q i q' i' s = (Inl err, s')" shows "advances X s s'"
proof -
  have "queue_frame s s'" "rows s' = rows s"
    using queue_op_frame [of s] queue_op_error(4) [of q i q' i' s err] assms(2) by (metis fst_conv snd_conv)+
  from same_rows_step [OF assms(1) this] show ?thesis .
qed

lemma cancelGlobal_advances:
  assumes safe: "safe X s" and apart: "apart s" and op: "cancelGlobal i s = (r, s')"
  shows "advances X s s'"
proof -
  obtain x s1 where f: "findUnleasedRow GlobalQueueName i s = (x, s1)" by fastforce
  note F = findUnleasedRow_step [OF safe f]
  obtain y s2 where d: "Delete GlobalQueueName i s1 = (y, s2)" by fastforce
  have fin: "advances X s (broadcastQueueChange (cancel_result (msg_body m) s2))" if x: "x = Inr (Some m)" for m
  proof -
    note m = F(2) [OF x]
    have s2: "s2 = snd (Delete GlobalQueueName i s1)" using d by simp
    show ?thesis
    proof (cases "msg_body m")
      case (Encoded e)
      define j where "j = env_request_id e"
      have own: "owned j GlobalQueueName i s1" "j \<noteq> ''''" using claims_encoded [of _ m] m Encoded by (auto simp: j_def)
      have "safe (insert j X) s1" using F(1) by (auto intro: safe_mono)
      then have "advances (insert j X) s1 s2" unfolding s2 using own by (intro delete_steps(1)) auto
      from cancel_result_advances(1) [OF this Encoded j_def [symmetric] own(2)] F(1)
      show ?thesis by (blast intro: evolves_trans)
    next
      case (Garbage err)
      have "owned i GlobalQueueName i s1" using m Garbage by (auto simp: claims_def msg_job_def)
      moreover have "\<not> live i s1"
        using apart_evolves [OF apart conjunct2 [OF F(1)]] m by (auto simp: apart_def)
      ultimately have "advances X s1 s2" unfolding s2 using F(1) by (intro delete_steps(1)) auto
      with F(1) Garbage tail_advances(3) show ?thesis
        by (simp add: cancel_result_def) (blast intro: evolves_trans)
    qed
  qed
  have del: "advances X s1 s2" if "y = Inl err" for err
    using delete_error [of X s1] F(1) d that by blast
  show ?thesis
    using op F(1) fin del
    by (auto simp: cancelGlobal_def f d split: sum.splits option.splits intro: evolves_trans)
qed

lemma cancelWorkerQueue_advances:
  assumes safe: "safe X s" and q: "q \<noteq> GlobalQueueName" and op: "cancelWorkerQueue q i s = (r, s')"
  shows "advances X s s'"
proof -
  obtain x s1 where f: "findUnleasedRow q i s = (x, s1)" by fastforce
  note F = findUnleasedRow_step [OF safe f]
  have main: "advances X s (case (if g = '''' \<or> \<not> sc_initialised s1 then Delete q i s1
        else DeleteBoth q i GlobalQueueName g s1) of
      (Inl _, s2) \<Rightarrow> s2 | (Inr _, s2) \<Rightarrow> broadcastQueueChange (cancel_result (msg_body m) s2))"
    if x: "x = Inr (Some m)" and g: "g = body_gmid (msg_body m)" for m g
  proof -
    have m: "claims q m s1" "msg_id m = i" using F(2) [OF x] by blast+
    define op where "op = (if g = '''' \<or> \<not> sc_initialised s1 then Delete q i s1 else DeleteBoth q i GlobalQueueName g s1)"
    obtain y s2 where d: "op = (y, s2)" by fastforce
    have err: "advances X s1 s2" if "y = Inl e" for e
      using delete_error [of X s1] deleteBoth_error [of X s1] F(1) d that by (auto simp: op_def split: if_splits)
    have fin: "advances X s (broadcastQueueChange (cancel_result (msg_body m) s2))"
    proof (cases "msg_body m")
      case (Encoded e)
      define j where "j = env_request_id e"
      have own: "owned j q i s1" "owned j GlobalQueueName g s1" "j \<noteq> ''''"
        using claims_encoded [OF m(1) Encoded] m(2) q g Encoded by (auto simp: j_def body_gmid_def)
      have sj: "safe (insert j X) s1" using F(1) by (auto intro: safe_mono)
      have "advances (insert j X) s1 s2"
        using delete_steps(1) [OF sj _ own(1)] delete_steps(2) [OF sj _ own(1,2)] d
        by (auto simp: op_def split: if_splits)
      from cancel_result_advances(1) [OF this Encoded j_def [symmetric] own(3)] F(1)
      show ?thesis by (blast intro: evolves_trans)
    next
      case (Garbage e)
      then have "g = ''''" using g by (simp add: body_gmid_def)
      moreover have "advances X s1 (snd (Delete q i s1))"
        using m Garbage F(1) q by (intro delete_garbage_step) (auto simp: claims_def body_gmid_def)
      ultimately have "advances X s1 s2" using d by (simp add: op_def)
      with F(1) Garbage tail_advances(3) show ?thesis
        by (simp add: cancel_result_def) (blast intro: evolves_trans)
    qed
    from F(1) err fin show ?thesis
      unfolding op_def [symmetric] d by (auto split: sum.split intro: evolves_trans)
  qed
  show ?thesis
    using op F(1) main [OF _ refl]
    by (cases x) (auto simp: cancelWorkerQueue_def f Let_def split: option.splits prod.splits sum.splits)
qed

lemma CancelQueuedRow_advances:
  assumes "safe X s" "apart s" "CancelQueuedRow q i s = (r, s')"
  shows "advances X s s'"
proof (cases "q = GlobalQueueName")
  case True
  with assms show ?thesis
    using cancelGlobal_advances [OF assms(1,2), of i r s'] by (simp add: CancelQueuedRow_def split: if_splits)
next
  case False
  with assms show ?thesis
    using cancelWorkerQueue_advances [OF assms(1) False, of i r s'] by (simp add: CancelQueuedRow_def split: if_splits)
qed

lemma EvictQueuedRowToGlobal_advances:
  assumes safe: "safe X s" and op: "EvictQueuedRowToGlobal q i s = (r, s')"
  shows "advances X s s'"
proof (cases "q = GlobalQueueName")
  case False
  obtain x s1 where f: "findUnleasedRow q i s = (x, s1)" by fastforce
  note F = findUnleasedRow_step [OF safe f]
  have rel: "advances X s (snd (DeleteAndReleaseLease q i GlobalQueueName (env_global_msg_id e) s1))"
    if "x = Inr (Some m)" "msg_body m = Encoded e" for m e
  proof -
    have m: "claims q m s1" "msg_id m = i" using F(2) [OF that(1)] by blast+
    from claims_release [OF conjunct1 [OF F(1)] False m(1) that(2)]
    show ?thesis unfolding m(2) by (rule advances_trans [OF F(1)])
  qed
  have fin: "advances X s (broadcastQueueChange (kick (debitTail q y s2)))" if "advances X s s2" for s2 y
    by (rule advances_trans [OF that core_then [OF conjunct1 [OF that]
        core_same_trans [OF core_same_trans [OF tail_ops_core(2) bookkeeping_core(1)] bookkeeping_core(3)]]])

  have s': "s' = snd (EvictQueuedRowToGlobal q i s)" using op by simp
  show ?thesis
  proof (cases "\<exists>m e. x = Inr (Some m) \<and> msg_body m = Encoded e")
    case True
    then obtain m e where m: "x = Inr (Some m)" "msg_body m = Encoded e" by blast
    obtain y s2 where d: "DeleteAndReleaseLease q i GlobalQueueName (env_global_msg_id e) s1 = (y, s2)" by fastforce
    have "s' \<in> {s, s1, s2} \<or> (\<exists>z. s' = broadcastQueueChange (kick (debitTail q z s2)))"
      unfolding s' by (cases y) (simp_all add: EvictQueuedRowToGlobal_def f m d, blast)
    moreover have a: "advances X s s2" using rel [OF m] unfolding d by simp
    moreover have "advances X s s" using safe by simp
    ultimately show ?thesis using F(1) fin [OF a] by (elim disjE exE insertE emptyE) simp_all
  next
    case no: False
    have "s' \<in> {s, s1}"
    proof (cases x)
      case (Inr o')
      show ?thesis
      proof (cases o')
        case (Some m)
        with no Inr obtain err where "msg_body m = Garbage err" by (cases "msg_body m") auto
        with Inr Some show ?thesis by (simp add: s' EvictQueuedRowToGlobal_def f)
      qed (use Inr in \<open>simp add: s' EvictQueuedRowToGlobal_def f\<close>)
    qed (simp add: s' EvictQueuedRowToGlobal_def f)
    moreover have "advances X s s" using safe by simp
    ultimately show ?thesis using F(1) by (elim insertE emptyE) simp_all
  qed
qed (use op safe in \<open>simp add: EvictQueuedRowToGlobal_def\<close>)

lemma CancelRunningJob_core: "core_same s (snd (CancelRunningJob sent rid s))"
proof -
  obtain r s1 where m: "markInflightCancelled rid s = (r, s1)" by fastforce
  have a: "core_same s s1" using bookkeeping_core(8) m by (metis snd_conv)
  have "core_same s (broadcastQueueChange s1)" "core_same s (broadcastQueueChange (emit e s1))" for e
    using core_same_trans [OF a bookkeeping_core(3)]
      core_same_trans [OF core_same_trans [OF a bookkeeping_core(2)] bookkeeping_core(3)] by blast+
  with a show ?thesis
    by (auto simp: CancelRunningJob_def m split: option.split prod.split)
qed

lemma cancel_dispatched_core: "core_same s (snd (cancel_dispatched sent rid s))"
proof -
  obtain b s1 where m: "requestCancelDuringDispatch rid s = (b, s1)" by fastforce
  have a: "core_same s s1" using bookkeeping_core(11) m by (metis snd_conv)
  from core_same_trans [OF a CancelRunningJob_core] core_same_trans [OF a bookkeeping_core(3)]
  show ?thesis by (auto simp: cancel_dispatched_def m split: bool.split)
qed

lemma findPendingGlobalRow_step: "safe X s \<Longrightarrow> advances X s (snd (findPendingGlobalRow rid s))"
  using query_step(1) [of X s GlobalQueueName queuePeekLimit]
  by (auto simp: findPendingGlobalRow_def split: prod.split sum.split)

lemma findPendingWorkerRow_step:
  assumes "safe X s" "findPendingWorkerRow rid qs s = (r, s')"
  shows "advances X s s'" "r = Inr (Some (q, i)) \<Longrightarrow> q \<in> set qs"
proof -
  have "advances X s s' \<and> (r = Inr (Some (q, i)) \<longrightarrow> q \<in> set qs)"
    using assms
  proof (induction qs arbitrary: s)
    case (Cons q' qs)
    obtain x s1 where p: "Peek q' queuePeekLimit s = (x, s1)" by fastforce
    have a: "advances X s s1" using query_step(1) [OF Cons.prems(1), of q' queuePeekLimit] p by simp
    with Cons.IH [of s1] Cons.prems(2) show ?case
      by (auto simp: p split: sum.splits option.splits intro: evolves_trans)
  qed auto
  then show "advances X s s'" "r = Inr (Some (q, i)) \<Longrightarrow> q \<in> set qs" by blast+
qed

lemma CancelByRequestID_advances:
  assumes safe: "safe X s" and apart: "apart s" and proper: "proper s"
    and op: "CancelByRequestID sent rid s = (r, s')"
  shows "advances X s s'"
proof -
  define g where "g = (if sc_initialised s then findPendingGlobalRow rid s else (Inr None, s))"
  obtain x s1 where gx: "g = (x, s1)" by fastforce
  have a1: "advances X s s1"
    using findPendingGlobalRow_step [OF safe, of rid] gx safe by (auto simp: g_def split: if_splits)
  obtain y s2 where w: "findPendingWorkerRow rid (sc_queues s1) s1 = (y, s2)" by fastforce
  note W = findPendingWorkerRow_step [OF conjunct1 [OF a1] w]
  have p1: "GlobalQueueName \<notin> set (sc_queues s1)"
    using a1 proper by (auto simp: evolves_def extends_def proper_def)
  have ap: "apart s1" by (rule apart_evolves [OF apart conjunct2 [OF a1]])
  have 1: "advances X s1 (snd (cancelGlobal i s1))" for i
    using cancelGlobal_advances [OF conjunct1 [OF a1] ap] by (metis prod.collapse)
  have 2: "advances X s2 (snd (cancelWorkerQueue q i s2))" if "y = Inr (Some (q, i))" for q i
    using cancelWorkerQueue_advances [OF conjunct1 [OF W(1)]] W(2) [OF that] p1 by (metis prod.collapse)
  have 3: "advances X s2 (snd (cancel_dispatched sent rid s2))"
    by (rule core_then [OF conjunct1 [OF W(1)] cancel_dispatched_core])
  have s': "s' = (case x of Inl _ \<Rightarrow> s1 | Inr (Some i) \<Rightarrow> snd (cancelGlobal i s1)
      | Inr None \<Rightarrow> (case y of Inl _ \<Rightarrow> s2 | Inr (Some (q, i)) \<Rightarrow> snd (cancelWorkerQueue q i s2)
          | Inr None \<Rightarrow> snd (cancel_dispatched sent rid s2)))"
    using op unfolding CancelByRequestID_def g_def [symmetric] gx
    by (auto simp: w split: sum.splits option.splits)
  show ?thesis
    using a1 W(1) 1 2 3 unfolding s'
    by (auto split: sum.split option.split intro: evolves_trans)
qed

lemma peekRows_step:
  assumes "safe X s"
  shows "advances X s (snd (peekRowsUnleased q inflight s))" "advances X s (snd (peekRowsAll q inflight s))"
  using query_step(1,2) [OF assms, of q queuePeekLimit]
  by (auto simp: peekRowsUnleased_def peekRowsAll_def split: prod.split sum.split)

lemma QueueSnapshot_advances:
  assumes safe: "safe X s" shows "advances X s (snd (QueueSnapshot benches s))"
proof -
  have sections: "advances X s0 (snd (worker_sections qs inflight bs s0))" if "safe X s0" for s0 qs inflight bs
    using that
  proof (induction qs arbitrary: bs s0)
    case (Cons q qs)
    obtain r s1 where p: "peekRowsAll q inflight s0 = (r, s1)" by fastforce
    have a: "advances X s0 s1" using peekRows_step(2) [OF Cons.prems, of q inflight] p by simp
    define bs' where "bs' = AList.delete (case parseWorkerQueueName q of None \<Rightarrow> '''' | Some w \<Rightarrow> w) bs"
    obtain y s2 where w: "worker_sections qs inflight bs' s1 = (y, s2)" by fastforce
    have b: "advances X s1 s2" using Cons.IH [of s1 bs'] a w by simp
    have "snd (worker_sections (q # qs) inflight bs s0) \<in> {s1, s2}"
      by (cases r; cases y) (auto simp: p Let_def bs'_def [symmetric] w)
    with a b show ?case by (auto intro: evolves_trans)
  qed simp
  obtain r s1 where p: "peekRowsUnleased GlobalQueueName (inflightRequestIDs s) s = (r, s1)" by fastforce
  have a: "advances X s s1" using peekRows_step(1) [OF safe, of GlobalQueueName "inflightRequestIDs s"] p by simp
  obtain y s2 where w: "worker_sections (sort (sc_queues s1)) (inflightRequestIDs s) benches s1 = (y, s2)" by fastforce
  have b: "advances X s1 s2" using sections [of s1 "sort (sc_queues s1)"] a w by (metis snd_conv)
  have "snd (QueueSnapshot benches s) \<in> {s1, s2}"
    using safeD(5) [OF safe] by (cases r; cases y) (auto simp: QueueSnapshot_def p w Let_def)
  with a b show ?thesis by (auto intro: evolves_trans)
qed

lemma QueuedModelFiles_advances:
  assumes safe: "safe X s" shows "advances X s (snd (QueuedModelFiles s))"
proof -
  have loop: "advances X s0 (snd (queued_files qs s0))" if "safe X s0" for s0 qs
    using that
  proof (induction qs arbitrary: s0)
    case (Cons q qs)
    obtain r s1 where p: "PeekAll q queuePeekLimit s0 = (r, s1)" by fastforce
    have a: "advances X s0 s1" using query_step(2) [OF Cons.prems, of q queuePeekLimit] p by simp
    with Cons.IH [of s1] show ?case by (auto simp: p split: sum.split prod.split intro: evolves_trans)
  qed simp
  obtain y s1 where w: "queued_files ((if sc_initialised s then [GlobalQueueName] else []) @ sc_queues s) s = (y, s1)"
    by fastforce
  have "advances X s s1" using loop [OF safe] w by (metis snd_conv)
  then show ?thesis by (cases y) (simp_all add: QueuedModelFiles_def w)
qed

end
