(* ===== verification/System.thy ===== *)
theory System
  imports Queue_View
begin

text \<open>
  The running scheduler as a step relation. A world is the scheduler's state, the requests whose
  submission was refused, and what the goroutines hold between their atomic parts: a message read
  from a queue, a dispatch in one of its phases, a pump. Any goroutine may move at any time; the
  fleet, the toggles, the file system, the clock and the faults of the queue and state statements
  change freely; and the process may die and start again from the database.

  The relation allows more than the code does (loops may take their rows in any order, an operation
  may run with any worker snapshot and any answer of the worker), so what holds of every reachable
  world holds of the code.
\<close>

subsection \<open>What goroutines hold\<close>

datatype thread =
    PlacingRow message
  | DrainingRow queue_name bool peek_row
  | ReestimatingRow queue_name peek_row
  | Leasing queue_name stream_worker message
  | Dispatching queue_name stream_worker message_id "rat envelope"
  | Gating queue_name stream_worker message_id "rat envelope" nat
  | Evicting dispatch "model_id list"
  | Loading dispatch
  | Starting dispatch
  | Assigning dispatch
  | Pumping pump
  | ReapingBuffer request_id nat

fun thread_ok :: "thread \<Rightarrow> sched \<Rightarrow> bool" where
  "thread_ok (PlacingRow m) s = claims GlobalQueueName m s"
| "thread_ok (DrainingRow q inc m) s = (q \<noteq> GlobalQueueName \<and> claims q m s)"
| "thread_ok (ReestimatingRow q m) s = (q \<noteq> GlobalQueueName \<and> claims q m s)"
| "thread_ok (Leasing q sw m) s = (q \<noteq> GlobalQueueName)"
| "thread_ok (Dispatching q sw i env) s = (q \<noteq> GlobalQueueName \<and> claims q (row_msg i env) s)"
| "thread_ok (Gating q sw i env b) s =
     (q \<noteq> GlobalQueueName \<and> claims q (row_msg i env) s \<and> holds_buffer (env_request_id env) b s)"
| "thread_ok (Evicting d ms) s = dispatch_ok d s"
| "thread_ok (Loading d) s = dispatch_ok d s"
| "thread_ok (Starting d) s = dispatch_ok d s"
| "thread_ok (Assigning d) s = dispatch_ok d s"
| "thread_ok (Pumping p) s = pump_ok p s"
| "thread_ok (ReapingBuffer i b) s = holds_buffer i b s"

lemma thread_ok_extends: "thread_ok t s \<Longrightarrow> extends s s' \<Longrightarrow> database_ok s' \<Longrightarrow> thread_ok t s'"
  by (cases t) (auto intro: claims_extends holds_buffer_extends dispatch_ok_extends pump_ok_extends)

record world =
  wo_sched :: sched
  wo_refused :: "request_id set"
  wo_threads :: "thread list"

subsection \<open>Handlers that run through\<close>

text \<open>What surrounds the scheduler: the fleet and its toggles, files, time, faults and benchmarks.\<close>

inductive environment :: "sched \<Rightarrow> sched \<Rightarrow> bool" where
  fleet_moves: "environment s (s\<lparr>sc_fleet := f\<rparr>)"
| toggle_worker: "environment s (s\<lparr>sc_worker_enabled := f\<rparr>)"
| toggle_device: "environment s (s\<lparr>sc_device_enabled := f\<rparr>)"
| files_change: "environment s (s\<lparr>sc_stat := f\<rparr>)"
| models_dir: "environment s (s\<lparr>sc_models_dir := d\<rparr>)"
| time_passes: "environment s (s\<lparr>clock := t\<rparr>)" if "clock s \<le> t"
| queue_faults: "environment s (s\<lparr>queue_faults := fs\<rparr>)"
| state_faults: "environment s (s\<lparr>state_faults := fs\<rparr>)"
| bench_saved: "environment s (snd (SaveModelBenchmark row s))"
| bench_failed: "environment s (snd (SaveModelBenchmarkError row s))"
| device_benched: "environment s (snd (SaveBenchmark dev s))"
| gate_raised: "environment s (s\<lparr>sc_gated := w # sc_gated s\<rparr>)"
| gate_lifted: "environment s (s\<lparr>sc_gated := removeAll w (sc_gated s)\<rparr>)"
| timer_kick: "environment s (kick s)"

inductive handler :: "sched \<Rightarrow> sched \<Rightarrow> bool" where
  environment: "handler s s'" if "environment s s'"
| connected: "handler s (OnWorkerConnected w s)"
| disconnected: "handler s (OnWorkerDisconnected w s)"
| devices_changed: "handler s (OnWorkerDevicesChanged w s)"
| lock_reestimate: "handler s (snd (TryReestimateLock w s))"
| reestimate: "handler s (ReestimateWorkerQueue w s)"
| unlock_reestimate: "handler s (releaseReestimate w s)"
| dispatcher: "handler s (snd (dispatchPass s))"
| drainer_ends: "handler s (endDrainer q s)"
| keep_alive: "handler s (keepAlive q i s)"
| cancel_row: "handler s (snd (CancelQueuedRow q i s))"
| evict_row: "handler s (snd (EvictQueuedRowToGlobal q i s))"
| cancel_running: "handler s (snd (CancelRunningJob sent rid s))"
| cancel_request: "handler s (snd (CancelByRequestID sent rid s))"
| snapshot: "handler s (snd (QueueSnapshot benches s))"
| queued_files: "handler s (snd (QueuedModelFiles s))"
| get_result: "handler s (snd (GetResult rid s))"
| cleanup: "handler s (snd (CleanupResults s))"
| sweep_buffers: "handler s (sweepReplayBuffers ttl s)"
| gauges: "handler s (refreshGauges s)"
| evict_model: "handler s (snd (EvictModel unload rt m w s))"
| evict_idle: "handler s (evictIdleOnce unload ttl s)"
| bench_cache: "handler s (InvalidateBench w d s)"
| model_cache: "handler s (InvalidateModelBenchmarks w s)"

subsection \<open>Goroutines\<close>

text \<open>Starting to work on the rows of a queue, or on the buffers past their age.\<close>

inductive starts :: "sched \<Rightarrow> thread list \<Rightarrow> sched \<Rightarrow> bool" where
  drain_global: "starts s (map PlacingRow ms) s'"
    if "Peek GlobalQueueName 32 s = (Inr ms, s')"
| drain_worker: "starts s (map (DrainingRow q inc) ms) s'"
    if "q \<in> set (sc_queues s)" "PeekAll q peekAllLimit s = (Inr ms, s')"
| reestimate_worker: "starts s (map (ReestimatingRow q) ms) s'"
    if "q \<in> set (sc_queues s)" "PeekAll q peekAllLimit s = (Inr ms, s')"
| dispatch_worker: "starts s (map (Leasing q sw) ms) s'"
    if "drainOneWorkerQueue q s = (Some (sw, ms), s')"
| close_queue: "starts s [] (closeTail q (s\<lparr>sc_queues := removeAll q (sc_queues s)\<rparr>))"

text \<open>One atomic part of a goroutine and what it holds afterwards.\<close>

inductive moves :: "thread \<Rightarrow> sched \<Rightarrow> thread list \<Rightarrow> sched \<Rightarrow> bool" where
  place: "moves (PlacingRow m) s [] (snd (drain_global_row m s))"
| drain: "moves (DrainingRow q inc m) s [] (drain_row q inc m s)"
| rewrite: "moves (ReestimatingRow q m) s [] (snd (reestimate_row q sw r m acc s))"
| lease_fails: "moves (Leasing q sw m) s [] s'"
    if "leaseForDispatch q (msg_id m) s = (None, s')"
| lease: "moves (Leasing q sw m) s [Dispatching q sw' (msg_id m) env] s'"
    if "leaseForDispatch q (msg_id m) s = (Some env, s')"
| buffer_gone: "moves (Dispatching q sw i env) s [] s'"
    if "dispatch_buffer q i env s = (None, s')"
| buffer: "moves (Dispatching q sw i env) s [Gating q sw' i env b] s'"
    if "dispatch_buffer q i env s = (Some b, s')"
| bounce: "moves (Gating q sw i env b) s [] s'"
    if "dispatch_gate sw q i env b s = (None, s')"
| pass_gate: "moves (Gating q sw i env b) s [Evicting d ms] s'"
    if "dispatch_gate sw q i env b s = (Some (d, ms), s')"
| evict_fails: "moves (Evicting d (m # ms)) s [] s'"
    if "dispatch_evict unload d m s = (False, s')"
| evict: "moves (Evicting d (m # ms)) s [Evicting d ms] s'"
    if "dispatch_evict unload d m s = (True, s')"
| commit: "moves (Evicting d []) s [Loading d'] s'"
    if "dispatch_commit sw d s = (d', s')"
| load_fails: "moves (Loading d) s [] s'"
    if "dispatch_load outcome d s = (False, s')"
| load: "moves (Loading d) s [Starting d] s'"
    if "dispatch_load outcome d s = (True, s')"
| aborted: "moves (Starting d) s [] s'"
    if "dispatch_start d s = (False, s')"
| start: "moves (Starting d) s [Assigning d] s'"
    if "dispatch_start d s = (True, s')"
| assign_fails: "moves (Assigning d) s [] s'"
    if "dispatch_assign outcome d s = (False, s')"
| assign: "moves (Assigning d) s [Pumping (startPump d)] s'"
    if "dispatch_assign outcome d s = (True, s')"
| chunk: "moves (Pumping p) s [Pumping p'] s'"
    if "pump_chunk c p s = (p', s')"
| stream_closed: "moves (Pumping p) s [] (pump_close online p s)"
| reap: "moves (ReapingBuffer i b) s [] (reap_buffer (i, b) s)"

subsection \<open>Worlds\<close>

definition restart :: "config \<Rightarrow> sched \<Rightarrow> sched" where
  "restart cfg s = Start (InitQueue (New cfg (database.truncate s)))"

inductive step :: "world \<Rightarrow> world \<Rightarrow> bool" where
  submit: "step w \<lparr> wo_sched = s',
      wo_refused = (case r of Inl _ \<Rightarrow> insert rid (wo_refused w) | Inr _ \<Rightarrow> wo_refused w),
      wo_threads = wo_threads w \<rparr>"
    if "fresh_request rid (wo_sched w)" "rid \<notin> wo_refused w" "Submit rid req (wo_sched w) = (r, s')"
| handle: "step w (w\<lparr>wo_sched := s'\<rparr>)"
    if "handler (wo_sched w) s'"
| begin_work: "step w (w\<lparr>wo_sched := s', wo_threads := wo_threads w @ ts\<rparr>)"
    if "starts (wo_sched w) ts s'"
| go_on: "step w (w\<lparr>wo_sched := s', wo_threads := ts1 @ ts @ ts2\<rparr>)"
    if "wo_threads w = ts1 @ t # ts2" "moves t (wo_sched w) ts s'"
| crash: "step w (w\<lparr>wo_sched := restart cfg (wo_sched w), wo_threads := []\<rparr>)"

text \<open>Any database whose driver keeps its contract, with nothing in it yet.\<close>

definition blank :: "database \<Rightarrow> bool" where
  "blank d \<longleftrightarrow> database_ok d \<and> rows d = [] \<and> results d = [] \<and> tails d = [] \<and> result_faults d = []"

definition initial :: "config \<Rightarrow> database \<Rightarrow> world" where
  "initial cfg d = \<lparr> wo_sched = InitQueue (New cfg d), wo_refused = {}, wo_threads = [] \<rparr>"

inductive reachable :: "world \<Rightarrow> bool" where
  init: "reachable (initial cfg d)" if "blank d"
| step: "reachable w'" if "reachable w" "step w w'"

definition world_ok :: "world \<Rightarrow> bool" where
  "world_ok w \<longleftrightarrow> safe (wo_refused w) (wo_sched w) \<and> apart (wo_sched w) \<and> proper (wo_sched w)
     \<and> (\<forall>t \<in> set (wo_threads w). thread_ok t (wo_sched w))"

subsection \<open>Every step keeps the jobs\<close>

lemma update_fields_core:
  fixes s :: sched
  shows "core_same s (s\<lparr>sc_fleet := f\<rparr>)" "core_same s (s\<lparr>sc_worker_enabled := we\<rparr>)"
    "core_same s (s\<lparr>sc_device_enabled := de\<rparr>)" "core_same s (s\<lparr>sc_stat := st\<rparr>)"
    "core_same s (s\<lparr>sc_models_dir := dir\<rparr>)" "core_same s (s\<lparr>sc_gated := g\<rparr>)"
    "core_same s (s\<lparr>clock := t\<rparr>)" "core_same s (s\<lparr>queue_faults := qf\<rparr>)"
    "core_same s (s\<lparr>state_faults := sf\<rparr>)"
  by (simp_all add: core_same_def proper_def)

lemma bench_rows_core:
  fixes s :: sched
  shows "core_same s (snd (SaveModelBenchmark row s))" "core_same s (snd (SaveModelBenchmarkError row s))"
    "core_same s (snd (SaveBenchmark dev s))"
  by (auto simp: core_same_def proper_def SaveModelBenchmark_def SaveModelBenchmarkError_def
      SaveBenchmark_def upsertModelBenchmark_def stx_def Let_def split: option.splits)

lemma environment_core: "environment s s' \<Longrightarrow> core_same s s'"
  by (induction rule: environment.induct) (simp_all add: update_fields_core bench_rows_core)

lemma lock_core:
  "core_same s (snd (TryReestimateLock w s))" "core_same s (releaseReestimate w s)"
  by (simp_all add: TryReestimateLock_def releaseReestimate_def core_same_def proper_def)

lemma CleanupResults_advances:
  assumes "safe X s" shows "advances X s (snd (CleanupResults s))"
proof -
  note ok = safeD(1) [OF assms]
  let ?t = "EffectiveResultTTL (sc_cfg s)"
  let ?s = "snd (Cleanup ?t s)"
  have e: "snd (CleanupResults s) = ?s" using safeD(5) [OF assms] by (simp add: CleanupResults_def)
  have n: "\<exists>n. fst (Cleanup ?t s) = Inr n"
    using safeD(4) [OF assms] by (simp add: Cleanup_def rtx_def Let_def)
  have keys: "distinct (keys (results ?s))"
    using result_op_ok(7) [OF ok, of ?t] by (simp add: database_ok_def)
  have faults: "result_faults ?s = []"
    using safeD(4) [OF assms] by (simp add: Cleanup_def rtx_def Let_def)
  have "live i s" if "live i ?s" for i
    using that n Cleanup_map_of [OF ok, of ?t _ i]
    by (auto simp: live_def status_of_def split: option.splits if_splits)
  from result_step [OF assms result_op_frame(7) keys faults this] show ?thesis by (simp add: e)
qed

lemma GetResult_advances:
  assumes "safe X s" shows "advances X s (snd (GetResult i s))"
  using Get_step(1) [OF assms, of i] safeD(5) [OF assms]
  by (auto simp: GetResult_def split: prod.split sum.split option.split)

lemma handler_advances:
  assumes "handler s s'" "safe X s" "apart s" "proper s"
  shows "advances X s s'"
  using assms
proof (induction rule: handler.induct)
  case (cancel_row s q i)
  then show ?case by (metis CancelQueuedRow_advances prod.collapse)
next
  case (evict_row s q i)
  then show ?case by (metis EvictQueuedRowToGlobal_advances prod.collapse)
next
  case (cancel_request s sent rid)
  then show ?case by (metis CancelByRequestID_advances prod.collapse)
qed (simp_all add: core_then environment_core OnWorkerConnected_advances OnWorkerDisconnected_advances
    OnWorkerDevicesChanged_advances lock_core ReestimateWorkerQueue_advances dispatchPass_advances
    endDrainer_core keepAlive_advances CancelRunningJob_core QueueSnapshot_advances
    QueuedModelFiles_advances GetResult_advances CleanupResults_advances sweepReplayBuffers_advances
    refreshGauges_advances)

lemma starts_advances:
  assumes "starts s ts s'" "safe X s" "proper s"
  shows "advances X s s' \<and> (\<forall>t \<in> set ts. thread_ok t s')"
  using assms
proof (induction rule: starts.induct)
  case (drain_global s ms s')
  with query_step(1) [of X s GlobalQueueName 32] Peek_claims [of X s GlobalQueueName 32 ms s']
  show ?case by auto
next
  case (drain_worker q s ms s' inc)
  then have "q \<noteq> GlobalQueueName" by (auto simp: proper_def)
  with drain_worker query_step(2) [of X s q peekAllLimit] PeekAll_claims [of X s q peekAllLimit ms s']
  show ?case by auto
next
  case (reestimate_worker q s ms s')
  then have "q \<noteq> GlobalQueueName" by (auto simp: proper_def)
  with reestimate_worker query_step(2) [of X s q peekAllLimit] PeekAll_claims [of X s q peekAllLimit ms s']
  show ?case by auto
next
  case (dispatch_worker q s sw ms s')
  from drainOneWorkerQueue_advances [OF dispatch_worker(2,1)] have "advances X s s'" "q \<noteq> GlobalQueueName"
    by auto
  then show ?case by auto
next
  case (close_queue s q)
  have "core_same s (closeTail q (s\<lparr>sc_queues := removeAll q (sc_queues s)\<rparr>))"
    by (rule core_same_trans [where b = "s\<lparr>sc_queues := removeAll q (sc_queues s)\<rparr>"])
      (auto simp: core_same_def [of s] proper_def)
  then show ?case by (simp add: core_then [OF close_queue(1)])
qed

lemma thread_kept: "advances X s s' \<Longrightarrow> thread_ok t s \<Longrightarrow> thread_ok t s'"
  by (rule thread_ok_extends) (auto simp: evolves_def safe_def)

lemma moves_advances:
  assumes "moves t s ts s'" "safe X s" "thread_ok t s"
  shows "advances X s s' \<and> (\<forall>t \<in> set ts. thread_ok t s')"
  using assms
proof (induction rule: moves.induct)
  case (place m s)
  then show ?case using drain_global_row_advances [of X s m] by simp
next
  case (drain q inc m s)
  then show ?case using drain_row_advances [of X s q m inc] by simp
next
  case (rewrite q m s sw r acc)
  then show ?case using reestimate_row_advances [of X s q m sw r acc] by simp
next
  case (lease_fails q m s s' sw)
  then show ?case using leaseForDispatch_advances(1) [of X s q "msg_id m" None s'] by simp
next
  case (lease q m s env s' sw sw')
  then show ?case using leaseForDispatch_advances [of X s q "msg_id m" "Some env" s'] by simp
next
  case (buffer_gone q i env s s' sw)
  then show ?case using dispatch_buffer_advances(1) [of X s q i env None s'] by simp
next
  case (buffer q i env s b s' sw sw')
  then have m: "q \<noteq> GlobalQueueName" "claims q (row_msg i env) s" by simp_all
  from dispatch_buffer_advances [OF buffer(2) this buffer(1)] have a: "advances X s s'"
    and b: "holds_buffer (env_request_id env) b s'" by simp_all
  from a b m claims_evolves [OF m(2) a] show ?case by simp
next
  case (bounce sw q i env b s s')
  then show ?case using dispatch_gate_advances(1) [of X s q i env b sw None s'] by simp
next
  case (pass_gate sw q i env b s d ms s')
  then show ?case using dispatch_gate_advances [of X s q i env b sw "Some (d, ms)" s'] by simp
next
  case (evict_fails unload d m s s' ms)
  then show ?case using dispatch_evict_advances [of X s unload d m] by simp
next
  case (evict unload d m s s' ms)
  then have a: "advances X s s'" using dispatch_evict_advances [of X s unload d m] by simp
  from thread_kept [OF this, of "Evicting d ms"] evict(3) a show ?case by simp
next
  case (commit sw d s d' s')
  then show ?case using dispatch_commit_advances [of X s d sw d' s'] by simp
next
  case (load_fails outcome d s s')
  then show ?case using dispatch_load_advances [of X s d outcome False s'] by simp
next
  case (load outcome d s s')
  then have a: "advances X s s'" using dispatch_load_advances [of X s d outcome True s'] by simp
  from thread_kept [OF this, of "Starting d"] load(3) a show ?case by simp
next
  case (aborted d s s')
  then show ?case using dispatch_start_advances [of X s d False s'] by simp
next
  case (start d s s')
  then have a: "advances X s s'" using dispatch_start_advances [of X s d True s'] by simp
  from thread_kept [OF this, of "Assigning d"] start(3) a show ?case by simp
next
  case (assign_fails outcome d s s')
  then show ?case using dispatch_assign_advances [of X s d outcome False s'] by simp
next
  case (assign outcome d s s')
  then have a: "advances X s s'" using dispatch_assign_advances [of X s d outcome True s'] by simp
  from thread_kept [OF this, of "Assigning d"] startPump_ok [of d s'] assign(3) a show ?case by simp
next
  case (chunk c p s p' s')
  then show ?case using pump_chunk_advances [of X s p c p' s'] by simp
next
  case (stream_closed p s online)
  then show ?case using pump_close_advances [of X s p online] by simp
next
  case (reap i b s)
  then show ?case using reap_buffer_advances [of X s i b] by simp
qed

text \<open>A crash forgets the buffers and every goroutine; what the database holds is enough to go on.\<close>

lemma live_truncate:
  "live i (InitQueue (New cfg (database.truncate s))) = live i s"
  by (simp add: live_def status_of_def InitQueue_def New_def database.defs)

lemma restart_safe:
  assumes "safe X s" "proper s"
  shows "safe X (restart cfg s)" "proper (restart cfg s)" "live i (restart cfg s) \<Longrightarrow> live i s"
    "id_supply (restart cfg s) = id_supply s"
proof -
  let ?s = "InitQueue (New cfg (database.truncate s))"
  have fields: "rows ?s = rows s" "results ?s = results s" "tails ?s = tails s" "id_supply ?s = id_supply s"
    "next_id ?s = next_id s" "driver ?s = driver s" "result_faults ?s = result_faults s"
    "sc_initialised ?s" "sc_buffers ?s = []" "sc_heap ?s = []" "sc_queues ?s = []"
    by (simp_all add: InitQueue_def New_def database.defs)
  have "drawn ?s = drawn s" by (simp add: drawn_def fields)
  then have safe: "safe X ?s"
    using assms(1) by (simp add: safe_def fields live_truncate durable_def database_ok_def linked_def named_def)
  have proper: "proper ?s" using assms(2) by (simp add: proper_def fields)
  from Start_advances [OF safe proper] have a: "advances X ?s (restart cfg s)"
    by (simp add: restart_def)
  then show "safe X (restart cfg s)" by blast
  from a proper show "proper (restart cfg s)" by (simp add: evolves_def extends_def)
  from a show "live i (restart cfg s) \<Longrightarrow> live i s" by (auto simp: evolves_def live_truncate)
  from a show "id_supply (restart cfg s) = id_supply s" by (simp add: evolves_def extends_def fields)
qed

subsection \<open>Reachable worlds\<close>

inductive_cases step_cases: "step w w'"

lemma initial_ok: assumes "blank d" shows "world_ok (initial cfg d)"
proof -
  let ?s = "InitQueue (New cfg d)"
  have fields: "rows ?s = rows d" "results ?s = results d" "tails ?s = tails d" "next_id ?s = next_id d"
    "id_supply ?s = id_supply d" "driver ?s = driver d" "result_faults ?s = result_faults d"
    "sc_buffers ?s = []" "sc_heap ?s = []" "sc_queues ?s = []" "sc_initialised ?s"
    by (simp_all add: InitQueue_def New_def database.defs)
  have "drawn ?s = drawn d" by (simp add: drawn_def fields)
  then have "database_ok ?s" using assms by (simp add: blank_def database_ok_def fields)
  with assms show ?thesis
    by (simp add: world_ok_def initial_def safe_def linked_def named_def durable_def proper_def
        apart_def live_def status_of_def fields blank_def)
qed

lemma world_ok_moves:
  assumes ok: "world_ok w" and a: "advances (wo_refused w) (wo_sched w) s'"
    and ts: "\<And>t. t \<in> set ts \<Longrightarrow> t \<in> set (wo_threads w) \<or> thread_ok t s'"
  shows "world_ok (w\<lparr>wo_sched := s', wo_threads := ts\<rparr>)"
proof -
  from a ok have "proper s'" by (simp add: world_ok_def evolves_def extends_def)
  moreover have "apart s'" by (rule apart_evolves [OF _ conjunct2 [OF a]]) (use ok in \<open>simp add: world_ok_def\<close>)
  moreover have "thread_ok t s'" if "t \<in> set ts" for t
    using ts [OF that] ok thread_kept [OF a, of t] by (auto simp: world_ok_def)
  ultimately show ?thesis using a by (simp add: world_ok_def)
qed

lemma submit_world_ok:
  assumes ok: "world_ok w" and fresh: "fresh_request rid (wo_sched w)"
    and op: "Submit rid req (wo_sched w) = (r, s')"
  shows "world_ok \<lparr> wo_sched = s',
      wo_refused = (case r of Inl _ \<Rightarrow> insert rid (wo_refused w) | Inr _ \<Rightarrow> wo_refused w),
      wo_threads = wo_threads w \<rparr>"
proof -
  let ?s = "wo_sched w"
  from ok have o: "safe (wo_refused w) ?s" "apart ?s" "proper ?s"
    "\<And>t. t \<in> set (wo_threads w) \<Longrightarrow> thread_ok t ?s" by (simp_all add: world_ok_def)
  note S = Submit_safe [OF o(1) fresh op]
  have "id_supply s' = id_supply ?s" using S(2) by (simp add: extends_def)
  then have "apart s'" using o(2) S(3) fresh unfolding apart_def fresh_request_def by metis
  moreover have "proper s'" using S(2) o(3) by (simp add: extends_def)
  moreover have "thread_ok t s'" if "t \<in> set (wo_threads w)" for t
    by (rule thread_ok_extends [OF o(4) [OF that] S(2) safeD(1) [OF S(1)]])
  ultimately show ?thesis using S(1) by (simp add: world_ok_def)
qed

lemma step_world_ok:
  assumes "step w w'" "world_ok w" shows "world_ok w'"
  using assms
proof (induction rule: step.induct)
  case (submit rid w req r s')
  then show ?case using submit_world_ok by simp
next
  case (handle w s')
  then have "advances (wo_refused w) (wo_sched w) s'"
    by (intro handler_advances) (simp_all add: world_ok_def)
  from world_ok_moves [OF handle(2) this, of "wo_threads w"] show ?case by simp
next
  case (begin_work w ts s')
  then have "advances (wo_refused w) (wo_sched w) s' \<and> (\<forall>t \<in> set ts. thread_ok t s')"
    by (intro starts_advances) (simp_all add: world_ok_def)
  then show ?case by (intro world_ok_moves [OF begin_work(2)]) auto
next
  case (go_on w ts1 t ts2 ts s')
  then have "advances (wo_refused w) (wo_sched w) s' \<and> (\<forall>t \<in> set ts. thread_ok t s')"
    by (intro moves_advances) (auto simp: world_ok_def)
  then show ?case by (intro world_ok_moves [OF go_on(3)]) (auto simp: go_on(1))
next
  case (crash w cfg)
  then show ?case using restart_safe [where X = "wo_refused w" and s = "wo_sched w" and cfg = cfg]
    by (auto simp: world_ok_def apart_def)
qed

lemma reachable_ok: "reachable w \<Longrightarrow> world_ok w"
  by (induction rule: reachable.induct) (auto intro: initial_ok step_world_ok)

subsection \<open>What holds in every reachable world\<close>

text \<open>A world with two workers connected, none benchmarked yet, and one request submitted.\<close>

definition demo_request :: submit_request where
  "demo_request = \<lparr> sr_runtime = ''rt'', sr_model = ''m'', sr_payload = [1], sr_cost = 10, sr_files = [],
     sr_load_hints = [], sr_headroom = 0, sr_source = '''', sr_priority = 0 \<rparr>"

definition demo_start :: world where
  "demo_start = (let w = initial sample_config (empty_database 0)
     in w\<lparr>wo_sched := (wo_sched w)\<lparr>sc_fleet := sc_fleet two_workers\<rparr>\<rparr>)"

lemma demo_start_reachable: "reachable demo_start"
proof -
  let ?w = "initial sample_config (empty_database 0)"
  have "blank (empty_database 0)"
    using empty_database_ok [of 0] by (simp add: blank_def) (simp add: empty_database_def)
  then have "reachable ?w" by (rule reachable.init)
  moreover have "step ?w demo_start"
    unfolding demo_start_def Let_def by (intro step.handle handler.environment environment.fleet_moves)
  ultimately show ?thesis by (rule reachable.step)
qed

lemma demo_fields:
  "results (wo_sched demo_start) = []" "sc_heap (wo_sched demo_start) = []"
  "queue_faults (wo_sched demo_start) = []" "id_supply (wo_sched demo_start) n = replicate (Suc n) (CHR ''m'')"
  "sc_fleet (wo_sched demo_start) = sc_fleet two_workers" "sc_worker_enabled (wo_sched demo_start) = (\<lambda>_. True)"
  "sc_initialised (wo_sched demo_start)" "wo_refused demo_start = {}" "wo_threads demo_start = []"
  "rows (wo_sched demo_start) = []" "sc_queues (wo_sched demo_start) = []"
  by (simp_all add: demo_start_def Let_def initial_def InitQueue_def New_def database.defs empty_database_def)

lemma demo_admitted: "submit_check demo_request (wo_sched demo_start) = None"
  by (simp add: submit_check_def demo_request_def submit_source_def preflight_def WorkersForRuntime_def
      demo_fields two_workers_eval All_workers_def map_filter_simps isWorkerEnabled_def)

lemma demo_fresh: "fresh_request ''r'' (wo_sched demo_start)"
  by (auto simp: fresh_request_def demo_fields)

end
