(* ===== verification/Admission.thy ===== *)
theory Admission
  imports System
begin

text \<open>
  What \<open>Submit\<close> of \<open>scheduler.go\<close> answers and leaves behind, and the ledger of jobs a client can
  rely on: which requests are open and which were refused. Every step of a reachable world is a step
  of that ledger.
\<close>

subsection \<open>Placement moves rows, never results\<close>

lemma tail_results [simp]:
  "results (creditTail q x m s) = results s" "sc_buffers (creditTail q x m s) = sc_buffers s"
  "results (broadcastQueueChange s) = results s" "sc_buffers (broadcastQueueChange s) = sc_buffers s"
  "results (kick s) = results s" "sc_buffers (kick s) = sc_buffers s"
  using tail_ops_core(1) [of s q x m] by (simp_all add: core_same_def broadcastQueueChange_def emit_def kick_def)

lemma placeOnWorkerQueue_keeps:
  "results (placeOnWorkerQueue env s) = results s \<and> sc_buffers (placeOnWorkerQueue env s) = sc_buffers s"
proof -
  obtain r s1 where pick: "pickWorkerQueue env s = (r, s1)" by fastforce
  have s1: "results s1 = results s" "sc_buffers s1 = sc_buffers s" "sc_initialised s1 = sc_initialised s"
    using caches_only_fields [OF pickWorkerQueue_caches [where env = env and s = s]] pick by simp_all
  show ?thesis
  proof (cases r)
    case None
    with pick s1 show ?thesis by (simp add: placeOnWorkerQueue_def)
  next
    case (Some cx)
    then obtain c x where cx: "r = Some (c, x)" by (cases cx) simp
    define e where "e = env\<lparr>env_queued_seconds := x\<rparr>"
    obtain l s2 where op: "LeaseAndSubmit GlobalQueueName (env_global_msg_id env) anchorLeaseDuration (cd_queue c) e s1
        = (l, s2)" by fastforce
    have "queue_frame s1 s2"
      using queue_op_frame(12) [of s1 GlobalQueueName "env_global_msg_id env" anchorLeaseDuration "cd_queue c" e] op
      by simp
    from queue_frame_fields [OF this] s1 show ?thesis
      by (auto simp: placeOnWorkerQueue_def pick cx Let_def op [unfolded e_def] split: sum.split prod.split)
  qed
qed

subsection \<open>The outcome of Submit\<close>

lemma live_new:
  assumes "results s' = results s @ [(i, r)]" "map_of (results s) i = None" "res_status r = Pending"
  shows "live k s' \<longleftrightarrow> live k s \<or> k = i"
  using assms by (auto simp: live_def status_of_def map_add_def terminal_def split: option.splits)

lemma Submit_cases:
  assumes safe: "safe X s" and fresh: "fresh_request rid s" and op: "Submit rid req s = (r, s')"
    and check: "submit_check req s = None"
  shows "results s' = results s @ [(rid, \<lparr> res_status = Pending, res_body = None, res_error = None,
      res_created = clock s, res_completed = None \<rparr>)]"
    "r = Inr rid \<and> rid \<in> set (keys (sc_buffers s'))
     \<or> (\<exists>e. r = Inl (SubmitFailed e)) \<and> rid \<notin> set (keys (sc_buffers s')) \<and> rows s' = rows s"
    "queue_faults s = [] \<Longrightarrow> r = Inr rid"
proof -
  define b where "b = length (sc_heap s)"
  define s1 where "s1 = s\<lparr>sc_heap := sc_heap s @ [(rid, newJobBuffer (clock s))],
      sc_buffers := AList.update rid b (sc_buffers s)\<rparr>"
  define row where "row = (rid, \<lparr> res_status = Pending, res_body = None, res_error = None,
      res_created = clock s, res_completed = None \<rparr>)"
  define s2 where "s2 = s1\<lparr>results := results s @ [row]\<rparr>"
  have create: "Create rid s1 = (Inr (), s2)"
    using fresh safeD(4) [OF safe]
    by (auto simp: Create_def rtx_def row_def s1_def s2_def fresh_request_def Let_def)
  define e where "e = submit_envelope rid req"
  obtain q s3 where sub: "Submit_queue GlobalQueueName e s2 = (q, s3)" by fastforce
  have "queue_frame s2 s3" using queue_op_frame(1) [of s2 GlobalQueueName e] sub by simp
  note f = queue_frame_fields [OF this]
  have s2: "results s2 = results s @ [row]" "rid \<in> set (keys (sc_buffers s2))" "rows s2 = rows s"
    by (simp_all add: s2_def s1_def dom_update)
  have "Submit rid req s = (case q of
      Inl err \<Rightarrow> (Inl (SubmitFailed err), dropJob rid s3)
    | Inr g \<Rightarrow> (Inr rid, kick (placeOnWorkerQueue (e\<lparr>env_global_msg_id := g\<rparr>) (broadcastQueueChange s3))))"
    using create sub by (simp add: Submit_def check alloc_buffer_def Let_def s1_def b_def e_def split: sum.split)
  with op have res: "(r, s') = (case q of
      Inl err \<Rightarrow> (Inl (SubmitFailed err), dropJob rid s3)
    | Inr g \<Rightarrow> (Inr rid, kick (placeOnWorkerQueue (e\<lparr>env_global_msg_id := g\<rparr>) (broadcastQueueChange s3))))"
    by simp
  show "results s' = results s @ [(rid, \<lparr> res_status = Pending, res_body = None, res_error = None,
      res_created = clock s, res_completed = None \<rparr>)]"
    using res f(1) s2(1) placeOnWorkerQueue_keeps
    by (simp add: row_def dropJob_def split: sum.splits)
  show "r = Inr rid \<and> rid \<in> set (keys (sc_buffers s'))
     \<or> (\<exists>e. r = Inl (SubmitFailed e)) \<and> rid \<notin> set (keys (sc_buffers s')) \<and> rows s' = rows s"
  proof (cases q)
    case (Inl err)
    with queue_op_error(1) [of GlobalQueueName e s2 err] sub have "rows s3 = rows s" by (simp add: s2)
    with res Inl show ?thesis by (auto simp: dropJob_def delete_notin_dom)
  next
    case (Inr g)
    with res f(7) s2(2) show ?thesis by (simp add: placeOnWorkerQueue_keeps)
  qed
  assume "queue_faults s = []"
  then have "queue_faults s2 = []" by (simp add: s2_def s1_def)
  then have "\<exists>g. fst (Submit_queue GlobalQueueName e s2) = Inr g"
    by (simp add: Submit_queue_def qtx_def Let_def split: prod.split)
  with sub res show "r = Inr rid" by auto
qed

lemma fresh_unbuffered:
  assumes "safe X s" "fresh_request rid s" shows "map_of (sc_buffers s) rid = None"
proof -
  have "rid \<notin> set (keys (sc_buffers s))"
    using safeD(6) [OF assms(1)] assms(2) by (fastforce simp: durable_def fresh_request_def in_set_conv_nth)
  then show ?thesis by (simp add: map_of_eq_None_iff)
qed

lemma fresh_dead: "fresh_request rid s \<Longrightarrow> \<not> live rid s"
  by (simp add: fresh_request_def live_def status_of_def map_of_eq_None_iff [symmetric] image_set [symmetric])

lemma Submit_opens:
  assumes safe: "safe X s" and fresh: "fresh_request rid s" and op: "Submit rid req s = (r, s')"
  shows "live k s' \<longleftrightarrow> live k s \<or> k = rid \<and> submit_check req s = None"
proof (cases "submit_check req s")
  case None
  have "map_of (results s) rid = None" using fresh by (simp add: fresh_request_def map_of_eq_None_iff)
  from live_new [OF Submit_cases(1) [OF safe fresh op None] this] None show ?thesis by simp
next
  case (Some e)
  with op show ?thesis by (simp add: Submit_def)
qed

text \<open>C5. What Submit answers is what it did. A request the checks refuse changes nothing and gets the
  check's error. An accepted one gets its id back, with an open result row, a job row (with its anchor)
  in the queues and a replay buffer to attach to. A request whose queue insert failed gets the error and
  leaves neither row nor buffer, but its result row stays pending: nothing will ever close it.\<close>

theorem Submit_outcome:
  assumes "reachable w" "rid \<notin> wo_refused w" "fresh_request rid (wo_sched w)"
    and "Submit rid req (wo_sched w) = (r, s')"
  shows "(\<forall>e. submit_check req (wo_sched w) = Some e \<longrightarrow> r = Inl e \<and> s' = wo_sched w)
    \<and> (\<forall>i. r = Inr i \<longrightarrow> i = rid \<and> live rid s' \<and> backed rid (rows s') \<and> StreamChunks rid n s' \<noteq> None)
    \<and> (\<forall>e. r = Inl e \<longrightarrow> rows s' = rows (wo_sched w) \<and> StreamChunks rid n s' = None)
    \<and> (live rid s' \<longleftrightarrow> submit_check req (wo_sched w) = None)"
proof -
  let ?s = "wo_sched w"
  have safe: "safe (wo_refused w) ?s" using reachable_ok [OF assms(1)] by (simp add: world_ok_def)
  note opens = Submit_opens [OF safe assms(3,4)]
  note buffer = fresh_unbuffered [OF safe assms(3)]
  have dead: "\<not> live rid ?s" by (rule fresh_dead [OF assms(3)])
  show ?thesis
  proof (cases "submit_check req ?s")
    case (Some e)
    with assms(4) have "r = Inl e" "s' = ?s" by (simp_all add: Submit_def)
    with Some buffer dead show ?thesis by (simp add: StreamChunks_def)
  next
    case None
    have "safe (wo_refused w) s'" if "r = Inr rid"
      using Submit_safe(1) [OF safe assms(3,4)] that by simp
    then have "backed rid (rows s')" if "r = Inr rid"
      using that opens [of rid] None assms(2) by (simp add: safe_def)
    with Submit_cases(2) [OF safe assms(3,4) None] opens [of rid] None show ?thesis
      by (auto simp: StreamChunks_def map_of_eq_None_iff)
  qed
qed

lemma demo_submit:
  obtains s where "Submit ''r'' demo_request (wo_sched demo_start) = (Inr ''r'', s)"
proof -
  have "safe {} (wo_sched demo_start)"
    using reachable_ok [OF demo_start_reachable] by (simp add: world_ok_def demo_fields)
  from Submit_cases(3) [OF this demo_fresh _ demo_admitted] demo_fields(3) that show thesis
    by (metis surj_pair)
qed

theorem Submit_outcome_witness:
  "\<exists>s. Submit ''r'' demo_request (wo_sched demo_start) = (Inr ''r'', s) \<and> live ''r'' s \<and> backed ''r'' (rows s)"
proof -
  obtain s where op: "Submit ''r'' demo_request (wo_sched demo_start) = (Inr ''r'', s)" by (rule demo_submit)
  from Submit_outcome [OF demo_start_reachable _ demo_fresh op] op show ?thesis by (simp add: demo_fields)
qed

subsection \<open>The ledger of jobs\<close>

text \<open>What a client can rely on: the open jobs and the requests it was told are refused.\<close>

record job_ledger =
  ld_open :: "request_id set"
  ld_refused :: "request_id set"

inductive jobs_step :: "job_ledger \<Rightarrow> job_ledger \<Rightarrow> bool" where
  accept: "jobs_step l (l\<lparr>ld_open := insert i (ld_open l)\<rparr>)" if "i \<notin> ld_open l" "i \<notin> ld_refused l"
| refuse: "jobs_step l (l\<lparr>ld_refused := insert i (ld_refused l)\<rparr>)" if "i \<notin> ld_open l"
| refuse_late: "jobs_step l (l\<lparr>ld_open := insert i (ld_open l), ld_refused := insert i (ld_refused l)\<rparr>)"
    if "i \<notin> ld_open l"
| settle: "jobs_step l (l\<lparr>ld_open := J\<rparr>)" if "J \<subseteq> ld_open l"

definition job_ledger :: "world \<Rightarrow> job_ledger" where
  "job_ledger w = \<lparr> ld_open = {i. live i (wo_sched w)}, ld_refused = wo_refused w \<rparr>"

lemma settles:
  assumes "\<And>i. live i s' \<Longrightarrow> live i (wo_sched w)"
  shows "jobs_step (job_ledger w) (job_ledger (w\<lparr>wo_sched := s', wo_threads := ts\<rparr>))"
  using jobs_step.settle [of "{i. live i s'}" "job_ledger w"] assms by (auto simp: job_ledger_def)

lemma submit_ledger:
  assumes ok: "safe X (wo_sched w)" and fresh: "fresh_request rid (wo_sched w)" "rid \<notin> wo_refused w"
    and op: "Submit rid req (wo_sched w) = (r, s')"
  shows "jobs_step (job_ledger w) (job_ledger \<lparr> wo_sched = s',
      wo_refused = (case r of Inl _ \<Rightarrow> insert rid (wo_refused w) | Inr _ \<Rightarrow> wo_refused w),
      wo_threads = wo_threads w \<rparr>)"
proof -
  have new: "rid \<notin> ld_open (job_ledger w)" "rid \<notin> ld_refused (job_ledger w)"
    using fresh fresh_dead by (simp_all add: job_ledger_def)
  note opens = Submit_opens [OF ok fresh(1) op]
  show ?thesis
  proof (cases "submit_check req (wo_sched w)")
    case (Some e)
    with op have "r = Inl e" "s' = wo_sched w" by (simp_all add: Submit_def)
    with jobs_step.refuse [OF new(1)] show ?thesis by (simp add: job_ledger_def)
  next
    case None
    then have open': "{i. live i s'} = insert rid {i. live i (wo_sched w)}" using opens by auto
    show ?thesis
    proof (cases r)
      case (Inl e)
      with jobs_step.refuse_late [OF new(1)] open' show ?thesis by (simp add: job_ledger_def)
    next
      case (Inr i)
      with jobs_step.accept [OF new] open' show ?thesis by (simp add: job_ledger_def)
    qed
  qed
qed


definition demo_world :: "sched \<Rightarrow> world" where
  "demo_world s = \<lparr> wo_sched = s, wo_refused = {}, wo_threads = [] \<rparr>"

lemma demo_step:
  assumes "Submit ''r'' demo_request (wo_sched demo_start) = (Inr ''r'', s)"
  shows "step demo_start (demo_world s)"
  using step.submit [OF demo_fresh _ assms] by (simp add: demo_world_def demo_fields)




end
