(* ===== verification/Outcomes.thy ===== *)
theory Outcomes
  imports Admission
begin

text \<open>
  What the multi-step operations of \<open>scheduler.go\<close> achieve when they run through: the end of a stream,
  the retry and requeue budgets, the drain of a disconnected worker's queue, placement, stealing, the
  drain slots and the operator's cancel.
\<close>

subsection \<open>Statements that do not fail\<close>

lemma no_fault:
  assumes "queue_faults s = []"
  shows "queue_faults (snd (Delete q i s)) = []" "fst (Delete q i s) = Inr ()"
    "queue_faults (snd (DeleteBoth q i q' i' s)) = []" "fst (DeleteBoth q i q' i' s) = Inr ()"
    "queue_faults (snd (DeleteAndReleaseLease q i q' i' s)) = []" "fst (DeleteAndReleaseLease q i q' i' s) = Inr ()"
    "queue_faults (snd (Submit_queue q e s)) = []" "\<exists>j. fst (Submit_queue q e s) = Inr j"
    "queue_faults (snd (PeekAll q n s)) = []" "queue_faults (snd (Peek q n s)) = []"
  using assms
  by (simp_all add: queue_op_defs queue_tx_defs qtx_def PeekAll_def Peek_def Let_def split: prod.split)

lemma result_faults_kept [simp]:
  "queue_faults (failResult i msg s) = queue_faults s" "queue_faults (completeResult i b s) = queue_faults s"
  "queue_faults (pendingResult i s) = queue_faults s"
  "rows (failResult i msg s) = rows s" "rows (completeResult i b s) = rows s" "rows (pendingResult i s) = rows s"
  by (simp_all add: failResult_def completeResult_def pendingResult_def with_results_def Fail_def Complete_def
      PendingResult_def set_result_def rtx_def Let_def)

lemma buffer_fields [simp]:
  "rows (append_buffer b c s) = rows s" "results (append_buffer b c s) = results s"
  "queue_faults (append_buffer b c s) = queue_faults s" "sc_initialised (append_buffer b c s) = sc_initialised s"
  "sc_inflight (append_buffer b c s) = sc_inflight s" "clock (append_buffer b c s) = clock s"
  "driver (append_buffer b c s) = driver s" "length (sc_heap (append_buffer b c s)) = length (sc_heap s)"
  by (simp_all add: append_buffer_def)

lemma log_fields [simp]:
  "rows (emit e s) = rows s" "results (emit e s) = results s" "queue_faults (emit e s) = queue_faults s"
  "clock (emit e s) = clock s" "sc_heap (emit e s) = sc_heap s" "sc_initialised (emit e s) = sc_initialised s"
  "sc_inflight (emit e s) = sc_inflight s" "driver (emit e s) = driver s" "result_faults (emit e s) = result_faults s"
  "rows (kick s) = rows s" "results (kick s) = results s" "queue_faults (kick s) = queue_faults s"
  "clock (kick s) = clock s" "sc_heap (kick s) = sc_heap s" "sc_initialised (kick s) = sc_initialised s"
  "sc_inflight (kick s) = sc_inflight s" "driver (kick s) = driver s" "result_faults (kick s) = result_faults s"
  "broadcastQueueChange s = emit QueueChanged s"
  by (simp_all add: emit_def kick_def broadcastQueueChange_def)

lemma finish_fields [simp]:
  "rows (finishInflight i s) = rows s" "results (finishInflight i s) = results s"
  "queue_faults (finishInflight i s) = queue_faults s" "clock (finishInflight i s) = clock s"
  "sc_heap (finishInflight i s) = sc_heap s" "sc_initialised (finishInflight i s) = sc_initialised s"
  "driver (finishInflight i s) = driver s" "result_faults (finishInflight i s) = result_faults s"
  by (auto simp: finishInflight_def Let_def split: option.split)

lemma settled_row:
  assumes "sc_initialised s" "result_faults s = []" "distinct (keys (results s))" "map_of (results s) i = Some r"
  shows "map_of (results (failResult i msg s)) i =
      Some (r\<lparr>res_status := Failed, res_error := Some msg, res_completed := Some (clock s)\<rparr>)"
    "map_of (results (completeResult i body s)) i =
      Some (r\<lparr>res_status := Done, res_body := Some body, res_completed := Some (clock s)\<rparr>)"
  using assms map_of_update_result [OF assms(3), of i]
  by (simp_all add: failResult_def completeResult_def with_results_def Fail_def Complete_def set_result_def
      rtx_def Let_def)

lemma result_fields [simp]:
  "sc_heap (failResult i msg s) = sc_heap s" "sc_heap (completeResult i body s) = sc_heap s"
  "clock (failResult i msg s) = clock s" "clock (completeResult i body s) = clock s"
  "sc_inflight (failResult i msg s) = sc_inflight s" "sc_inflight (completeResult i body s) = sc_inflight s"
  "sc_initialised (failResult i msg s) = sc_initialised s" "sc_initialised (completeResult i body s) = sc_initialised s"
  "driver (failResult i msg s) = driver s" "driver (completeResult i body s) = driver s"
  by (simp_all add: failResult_def completeResult_def with_results_def Fail_def Complete_def set_result_def
      rtx_def Let_def)

lemma rows_away_fields:
  assumes "goqite_ok (driver s)"
  shows "results (deleteBothRows q i g s) = results s" "sc_heap (deleteBothRows q i g s) = sc_heap s"
    "sc_inflight (deleteBothRows q i g s) = sc_inflight s"
    "queue_faults s = [] \<Longrightarrow> r \<in> set (rows (deleteBothRows q i g s)) \<Longrightarrow> r \<in> set (rows s) \<and> \<not> is_row q i r"
    "queue_faults s = [] \<Longrightarrow> sc_initialised s \<Longrightarrow> g \<noteq> '''' \<Longrightarrow>
       r \<in> set (rows (deleteBothRows q i g s)) \<Longrightarrow> \<not> is_row GlobalQueueName g r"
  using assms
  by (auto simp: deleteBothRows_def Delete_def DeleteBoth_def delete_tx_def set_rows_def qtx_def Let_def goqite_ok_simps
      split: if_splits)

subsection \<open>The end of a stream\<close>

text \<open>What the end of the stream means for the job.\<close>

datatype verdict = Succeeds bytes | Fails string | LeftToDrain

definition pump_verdict :: "bool \<Rightarrow> bool \<Rightarrow> job_chunk option \<Rightarrow> verdict" where
  "pump_verdict online cancelled t = (case t of
      Some c \<Rightarrow>
        if jc_type c = JobChunkTypeError \<and> jc_err c \<noteq> ''''
        then Fails (if cancelled then ''cancelled by operator'' else jc_err c)
        else Succeeds (if jc_type c = JobChunkTypeError then [] else jc_final c)
    | None \<Rightarrow> if cancelled then Fails ''cancelled by operator''
        else if \<not> online then LeftToDrain
        else Fails ''worker stream closed before terminal frame'')"

text \<open>The loop over the channel: every frame the worker sends, then the close.\<close>

fun pump_stream :: "job_chunk list \<Rightarrow> pump \<Rightarrow> sched \<Rightarrow> pump \<times> sched" where
  "pump_stream [] p s = (p, s)"
| "pump_stream (c # cs) p s = (case pump_chunk c p s of (p, s) \<Rightarrow> pump_stream cs p s)"

definition appended :: "time \<Rightarrow> job_chunk list \<Rightarrow> job_buffer \<Rightarrow> job_buffer" where
  "appended now cs jb = fold (\<lambda>c jb. snd (Append now (Some c) jb)) cs jb"

lemma append_buffer_cell:
  "b < length (sc_heap s) \<Longrightarrow> snd (sc_heap (append_buffer b c s) ! b) = appended (clock s) [c] (snd (sc_heap s ! b))"
  by (simp add: append_buffer_def appended_def)

lemma pump_stream_plain:
  assumes "\<And>c. c \<in> set cs \<Longrightarrow> \<not> terminal_chunk c" "pp_buffer p < length (sc_heap s)"
  obtains s' where "pump_stream cs p s = (p, s')" "rows s' = rows s" "results s' = results s"
    "queue_faults s' = queue_faults s" "sc_initialised s' = sc_initialised s" "sc_inflight s' = sc_inflight s"
    "driver s' = driver s" "clock s' = clock s" "result_faults s' = result_faults s"
    "length (sc_heap s') = length (sc_heap s)"
    "snd (sc_heap s' ! pp_buffer p) = appended (clock s) cs (snd (sc_heap s ! pp_buffer p))"
  using assms
proof (induction cs arbitrary: s thesis)
  case Nil
  then show ?case by (simp add: appended_def)
next
  case (Cons c cs)
  let ?s = "append_buffer (pp_buffer p) c s"
  have c: "pump_chunk c p s = (p, ?s)"
    using Cons.prems(2) [of c] by (cases "jc_type c") (simp_all add: pump_chunk_def terminal_chunk_def)
  have "pp_buffer p < length (sc_heap ?s)" using Cons.prems(3) by simp
  from Cons.IH [OF _ _ this] Cons.prems(2) obtain s' where
    "pump_stream cs p ?s = (p, s')" "rows s' = rows ?s" "results s' = results ?s"
    "queue_faults s' = queue_faults ?s" "sc_initialised s' = sc_initialised ?s" "sc_inflight s' = sc_inflight ?s"
    "driver s' = driver ?s" "clock s' = clock ?s" "result_faults s' = result_faults ?s"
    "length (sc_heap s') = length (sc_heap ?s)"
    "snd (sc_heap s' ! pp_buffer p) = appended (clock ?s) cs (snd (sc_heap ?s ! pp_buffer p))" by auto
  moreover have "result_faults ?s = result_faults s" by (simp add: append_buffer_def)
  ultimately show ?case
    using c append_buffer_cell [OF Cons.prems(3), of c]
    by (intro Cons.prems(1) [of s']) (simp_all add: appended_def)
qed

definition closing_frames :: "bool \<Rightarrow> bool \<Rightarrow> job_chunk option \<Rightarrow> job_chunk list" where
  "closing_frames online cancelled t = (case pump_verdict online cancelled t of
      LeftToDrain \<Rightarrow> []
    | Succeeds b \<Rightarrow> [the t]
    | Fails msg \<Rightarrow> [case t of None \<Rightarrow> error_chunk msg | Some c \<Rightarrow> c\<lparr>jc_err := msg\<rparr>])"

lemma finished_gone: "distinct (keys (sc_inflight s)) \<Longrightarrow> map_of (sc_inflight (finishInflight i s)) i = None"
  by (auto simp: finishInflight_def Let_def delete_conv' split: option.split)

lemma pump_close_parts:
  assumes p: "pp_terminal p = t" "pp_err p = (case t of Some c \<Rightarrow> if jc_type c = JobChunkTypeError then jc_err c else '''' | None \<Rightarrow> '''')"
      "pp_final p = (case t of Some c \<Rightarrow> if jc_type c = JobChunkTypeCompleted then jc_final c else [] | None \<Rightarrow> [])"
    and t: "\<And>c. t = Some c \<Longrightarrow> terminal_chunk c"
    and v: "v = pump_verdict online (isInflightCancelled (pp_request p) s) t"
    and s1: "s1 = kick (finishInflight (pp_request p) s)"
  shows "v = LeftToDrain \<Longrightarrow> pump_close online p s = s1"
    "\<exists>lab. v = Succeeds body \<longrightarrow> pump_close online p s = deleteBothRows (pp_queue p) (pp_msg p) (pp_global p)
       (append_buffer (pp_buffer p) (the t) (completeResult (pp_request p) body (emit lab s1)))"
    "\<exists>lab. v = Fails msg \<longrightarrow> pump_close online p s = deleteBothRows (pp_queue p) (pp_msg p) (pp_global p)
       (append_buffer (pp_buffer p) (hd (closing_frames online (isInflightCancelled (pp_request p) s) t))
         (failResult (pp_request p) msg (emit lab s1)))"
proof -
  have types: "jc_type c = JobChunkTypeCompleted \<or> jc_type c = JobChunkTypeError" if "t = Some c" for c
    using t [OF that] by (simp add: terminal_chunk_def)
  have same: "c\<lparr>jc_err := jc_err c\<rparr> = c" for c :: job_chunk by simp
  show "v = LeftToDrain \<Longrightarrow> pump_close online p s = s1"
    by (auto simp: v pump_verdict_def pump_close_def p s1 Let_def split: option.splits if_splits)
  show "\<exists>lab. v = Succeeds body \<longrightarrow> pump_close online p s = deleteBothRows (pp_queue p) (pp_msg p) (pp_global p)
       (append_buffer (pp_buffer p) (the t) (completeResult (pp_request p) body (emit lab s1)))"
    using types by (auto simp: v pump_verdict_def pump_close_def p s1 Let_def split: option.splits if_splits)
  show "\<exists>lab. v = Fails msg \<longrightarrow> pump_close online p s = deleteBothRows (pp_queue p) (pp_msg p) (pp_global p)
       (append_buffer (pp_buffer p) (hd (closing_frames online (isInflightCancelled (pp_request p) s) t))
         (failResult (pp_request p) msg (emit lab s1)))"
    using types by (auto simp: v pump_verdict_def closing_frames_def pump_close_def p s1 fail_job_def Let_def
        split: option.splits if_splits)
qed

lemma pump_stream_append:
  "pump_stream (cs @ ds) p s = (case pump_stream cs p s of (p, s) \<Rightarrow> pump_stream ds p s)"
  by (induction cs arbitrary: p s) (simp_all split: prod.split)

lemma pump_stream_end:
  assumes "\<And>c. t = Some c \<Longrightarrow> terminal_chunk c"
  obtains p where "pump_stream (case t of None \<Rightarrow> [] | Some c \<Rightarrow> [c]) (startPump d) s = (p, s)"
    "pp_terminal p = t" "pp_err p = (case t of Some c \<Rightarrow> if jc_type c = JobChunkTypeError then jc_err c else '''' | None \<Rightarrow> '''')"
    "pp_final p = (case t of Some c \<Rightarrow> if jc_type c = JobChunkTypeCompleted then jc_final c else [] | None \<Rightarrow> [])"
    "pp_request p = env_request_id (dp_env d)" "pp_queue p = dp_queue d" "pp_msg p = dp_msg d"
    "pp_global p = env_global_msg_id (dp_env d)" "pp_buffer p = dp_buffer d"
proof (cases t)
  case None
  then show thesis by (intro that [of "startPump d"]) (simp_all add: startPump_def)
next
  case (Some c)
  from assms [OF this] consider "jc_type c = JobChunkTypeCompleted" | "jc_type c = JobChunkTypeError"
    by (auto simp: terminal_chunk_def)
  then show thesis
  proof cases
    case 1
    with Some show thesis
      by (intro that [of "(startPump d)\<lparr>pp_final := jc_final c, pp_terminal := Some c\<rparr>"])
        (simp_all add: startPump_def pump_chunk_def)
  next
    case 2
    with Some show thesis
      by (intro that [of "(startPump d)\<lparr>pp_err := jc_err c, pp_terminal := Some c\<rparr>"])
        (simp_all add: startPump_def pump_chunk_def)
  qed
qed

text \<open>C3. The life of a dispatched job ends the way its stream does. For a stream of frames \<open>cs\<close> and at
  most one terminal frame \<open>t\<close>, the result becomes what the verdict says (a success with the final body,
  or a failure with its text, a cancel winning over an error), the buffer receives every frame in order
  and the terminal frame last, the in-flight record is gone, and, when no statement fails, so are the
  worker row and its anchor. Only a stream cut off by a worker that is offline leaves result and rows as
  they were, for the drain of that worker's queue.\<close>

theorem pump_outcome:
  assumes safe: "safe X s" and d: "dispatch_ok d s"
    and row: "map_of (results s) (env_request_id (dp_env d)) = Some r" and led: "distinct (keys (sc_inflight s))"
    and cs: "\<forall>c \<in> set cs. \<not> terminal_chunk c" and t: "\<forall>c. t = Some c \<longrightarrow> terminal_chunk c"
    and run: "pump_stream (cs @ (case t of None \<Rightarrow> [] | Some c \<Rightarrow> [c])) (startPump d) s = (p, s1)"
    and v: "v = pump_verdict online (isInflightCancelled (env_request_id (dp_env d)) s) t"
    and s': "s' = pump_close online p s1"
  shows "(case v of
        LeftToDrain \<Rightarrow> rows s' = rows s \<and> results s' = results s
      | Succeeds body \<Rightarrow> map_of (results s') (env_request_id (dp_env d)) =
          Some (r\<lparr>res_status := Done, res_body := Some body, res_completed := Some (clock s)\<rparr>)
      | Fails msg \<Rightarrow> map_of (results s') (env_request_id (dp_env d)) =
          Some (r\<lparr>res_status := Failed, res_error := Some msg, res_completed := Some (clock s)\<rparr>))
    \<and> snd (sc_heap s' ! dp_buffer d) = appended (clock s)
        (cs @ closing_frames online (isInflightCancelled (env_request_id (dp_env d)) s) t) (snd (sc_heap s ! dp_buffer d))
    \<and> map_of (sc_inflight s') (env_request_id (dp_env d)) = None
    \<and> (v \<noteq> LeftToDrain \<and> queue_faults s = [] \<longrightarrow> (\<forall>x \<in> set (rows s'). \<not> is_row (dp_queue d) (dp_msg d) x
        \<and> (env_global_msg_id (dp_env d) \<noteq> '''' \<longrightarrow> \<not> is_row GlobalQueueName (env_global_msg_id (dp_env d)) x)))"
proof -
  let ?i = "env_request_id (dp_env d)" and ?b = "dp_buffer d"
  let ?c = "isInflightCancelled ?i s"
  have b: "?b < length (sc_heap s)" using d by (simp add: dispatch_ok_def holds_buffer_def)
  from pump_stream_plain [of cs "startPump d" s] cs b obtain s0 where
    s0: "pump_stream cs (startPump d) s = (startPump d, s0)" "rows s0 = rows s" "results s0 = results s"
    "queue_faults s0 = queue_faults s" "sc_initialised s0 = sc_initialised s" "sc_inflight s0 = sc_inflight s"
    "driver s0 = driver s" "clock s0 = clock s" "result_faults s0 = result_faults s"
    "length (sc_heap s0) = length (sc_heap s)" "snd (sc_heap s0 ! ?b) = appended (clock s) cs (snd (sc_heap s ! ?b))"
    by (auto simp: startPump_def)
  from pump_stream_end [of t d s0] t obtain p' where
    p': "pump_stream (case t of None \<Rightarrow> [] | Some c \<Rightarrow> [c]) (startPump d) s0 = (p', s0)"
    "pp_terminal p' = t" "pp_err p' = (case t of Some c \<Rightarrow> if jc_type c = JobChunkTypeError then jc_err c else '''' | None \<Rightarrow> '''')"
    "pp_final p' = (case t of Some c \<Rightarrow> if jc_type c = JobChunkTypeCompleted then jc_final c else [] | None \<Rightarrow> [])"
    "pp_request p' = ?i" "pp_queue p' = dp_queue d" "pp_msg p' = dp_msg d"
    "pp_global p' = env_global_msg_id (dp_env d)" "pp_buffer p' = ?b" by blast
  from run s0(1) p'(1) have ps: "p = p'" "s1 = s0" by (simp_all add: pump_stream_append)
  have canc: "isInflightCancelled (pp_request p') s0 = ?c" by (simp add: p' s0 isInflightCancelled_def)
  define s2 where "s2 = kick (finishInflight (pp_request p') s0)"
  note parts = pump_close_parts [OF p'(2-4) _ _ s2_def, of v online, unfolded canc, OF _ v]
  have s2: "rows s2 = rows s" "results s2 = results s" "queue_faults s2 = queue_faults s"
    "sc_initialised s2" "driver s2 = driver s" "clock s2 = clock s" "result_faults s2 = []"
    "sc_heap s2 = sc_heap s0" "map_of (sc_inflight s2) ?i = None"
    using safeD(4,5) [OF safe] led finished_gone [of s0 ?i] by (simp_all add: s2_def s0 p'(5))
  have keys: "distinct (keys (results s))" and dr: "goqite_ok (driver s)"
    using safeD(1) [OF safe] by (simp_all add: database_ok_def)
  show ?thesis
  proof (cases v)
    case LeftToDrain
    with parts(1) t have "s' = s2" by (simp add: s' ps)
    with LeftToDrain s2 s0 show ?thesis by (simp add: closing_frames_def v [symmetric])
  next
    case (Succeeds body)
    with parts(2) [of body] t obtain lab where e: "s' = deleteBothRows (dp_queue d) (dp_msg d) (env_global_msg_id (dp_env d))
        (append_buffer ?b (the t) (completeResult ?i body (emit lab s2)))"
      by (auto simp: s' ps p')
    define s3 where "s3 = append_buffer ?b (the t) (completeResult ?i body (emit lab s2))"
    have "goqite_ok (driver s3)" by (simp add: s3_def s2 dr)
    note away = rows_away_fields [OF this, where q = "dp_queue d" and i = "dp_msg d" and g = "env_global_msg_id (dp_env d)"]
    have "map_of (results s3) ?i = Some (r\<lparr>res_status := Done, res_body := Some body, res_completed := Some (clock s)\<rparr>)"
      using settled_row(2) [of "emit lab s2" ?i r body] keys row by (simp add: s3_def s2)
    moreover have "snd (sc_heap s3 ! ?b) = appended (clock s) (cs @ [the t]) (snd (sc_heap s ! ?b))"
      using append_buffer_cell [of ?b "completeResult ?i body (emit lab s2)"] b
      by (simp add: s3_def s2 s0 appended_def)
    moreover have "queue_faults s3 = queue_faults s" "sc_initialised s3" "map_of (sc_inflight s3) ?i = None"
      by (simp_all add: s3_def s2)
    ultimately show ?thesis
      using away Succeeds by (auto simp: e [folded s3_def] closing_frames_def v [symmetric])
  next
    case (Fails msg)
    then obtain T where cf: "closing_frames online ?c t = [T]" by (simp add: closing_frames_def v [symmetric])
    from Fails parts(3) [of msg] t obtain lab where e: "s' = deleteBothRows (dp_queue d) (dp_msg d) (env_global_msg_id (dp_env d))
        (append_buffer ?b T (failResult ?i msg (emit lab s2)))"
      by (auto simp: s' ps p' cf)
    define s3 where "s3 = append_buffer ?b T (failResult ?i msg (emit lab s2))"
    have "goqite_ok (driver s3)" by (simp add: s3_def s2 dr)
    note away = rows_away_fields [OF this, where q = "dp_queue d" and i = "dp_msg d" and g = "env_global_msg_id (dp_env d)"]
    have "map_of (results s3) ?i = Some (r\<lparr>res_status := Failed, res_error := Some msg, res_completed := Some (clock s)\<rparr>)"
      using settled_row(1) [of "emit lab s2" ?i r msg] keys row by (simp add: s3_def s2)
    moreover have "snd (sc_heap s3 ! ?b) = appended (clock s) (cs @ [T]) (snd (sc_heap s ! ?b))"
      using append_buffer_cell [of ?b "failResult ?i msg (emit lab s2)"] b
      by (simp add: s3_def s2 s0 appended_def)
    moreover have "queue_faults s3 = queue_faults s" "sc_initialised s3" "map_of (sc_inflight s3) ?i = None"
      by (simp_all add: s3_def s2)
    ultimately show ?thesis
      using away Fails by (auto simp: e [folded s3_def] cf)
  qed
qed

text \<open>A scheduler with one job leased for worker \<open>a\<close>.\<close>

definition running_envelope :: "rat envelope" where
  "running_envelope = sample_envelope\<lparr>env_global_msg_id := ''m'', env_queued_seconds := 3\<rparr>"

definition anchor_row :: row where
  "anchor_row = (new_row 0 ''m'' GlobalQueueName (Encoded sample_envelope) 1)\<lparr>row_received := 1, row_timeout := 86400000\<rparr>"

definition leased_row :: row where
  "leased_row = (new_row 0 ''mm'' ''worker|a'' (Encoded running_envelope) 1)\<lparr>row_received := 1, row_timeout := 60000\<rparr>"

definition open_result :: result_row where
  "open_result = \<lparr> res_status = Processing, res_body = None, res_error = None, res_created = 0, res_completed = None \<rparr>"

definition running_sched :: sched where
  "running_sched = two_workers\<lparr> rows := [anchor_row, leased_row], next_id := 2,
     results := [(''r'', open_result)],
     sc_heap := [(''r'', newJobBuffer 0)], sc_buffers := [(''r'', 0)],
     sc_inflight := [(''r'', \<lparr> if_queue = ''worker|a'', if_seconds = 3, if_model = ''m'', if_job = ''j'',
       if_worker = ''a'', if_cancelled = False, if_reserved = 0, if_runtime = ''rt'' \<rparr>)] \<rparr>"

lemma running_fields:
  "rows running_sched = [anchor_row, leased_row]" "next_id running_sched = 2"
  "results running_sched = [(''r'', open_result)]" "sc_heap running_sched = [(''r'', newJobBuffer 0)]"
  "sc_buffers running_sched = [(''r'', 0)]" "clock running_sched = 0" "queue_faults running_sched = []"
  "result_faults running_sched = []" "sc_initialised running_sched" "tails running_sched = []"
  "id_supply running_sched = (\<lambda>n. replicate (Suc n) (CHR ''m''))" "driver running_sched = goqite_ref"
  "sc_queues running_sched = [''worker|b'', ''worker|a'']" "state_faults running_sched = []"
  "drawn running_sched = {''m'', ''mm''}"
proof -
  have "{..<2} = {0, 1::nat}" by auto
  then show "drawn running_sched = {''m'', ''mm''}"
    by (simp add: drawn_def running_sched_def two_workers_eval)
qed (simp_all add: running_sched_def two_workers_eval)

lemmas running_rows = anchor_row_def leased_row_def running_envelope_def sample_envelope_def open_result_def
  new_row_def job_id_rid body_gmid_def GlobalQueueName_def is_row_def is_anchor_def

lemma running_live: "live i running_sched \<longleftrightarrow> i = ''r''"
  by (auto simp: live_def status_of_def running_fields open_result_def terminal_def)

lemma running_safe: "safe {} running_sched" "apart running_sched" "proper running_sched"
proof -
  have "database_ok running_sched"
    by (auto simp: database_ok_def running_fields inj_def running_rows)
  moreover have "linked running_sched" "named running_sched"
    by (auto simp: linked_def named_def running_fields running_rows)
  moreover have "backed ''r'' (rows running_sched)"
    by (auto simp: backed_def running_fields running_rows)
  moreover have "durable running_sched" by (auto simp: durable_def running_fields newJobBuffer_def)
  ultimately show "safe {} running_sched" by (simp add: safe_def running_live running_fields)
  show "apart running_sched" by (auto simp: apart_def running_live running_fields)
  show "proper running_sched" by (simp add: proper_def running_fields GlobalQueueName_def)
qed

definition running_dispatch :: dispatch where
  "running_dispatch = \<lparr> dp_queue = ''worker|a'', dp_msg = ''mm'', dp_env = running_envelope, dp_buffer = 0,
     dp_worker = ''a'', dp_runtime = ''rt'', dp_row = bench_row, dp_load = False, dp_pool = 0, dp_reserved = 0 \<rparr>"

lemma running_dispatch_ok: "dispatch_ok running_dispatch running_sched"
  by (auto simp: dispatch_ok_def running_dispatch_def claims_def owned_def tells_def names_def msg_job_def
      holds_buffer_def running_fields running_rows)

theorem pump_outcome_witness:
  "\<exists>p s1. pump_stream [\<lparr> jc_type = JobChunkTypeChunk, jc_chunk = [7], jc_final = [], jc_pct = 0, jc_note = '''', jc_err = '''' \<rparr>,
        \<lparr> jc_type = JobChunkTypeCompleted, jc_chunk = [], jc_final = [9], jc_pct = 0, jc_note = '''', jc_err = '''' \<rparr>]
      (startPump running_dispatch) running_sched = (p, s1)
    \<and> map_of (results (pump_close True p s1)) ''r'' =
        Some (open_result\<lparr>res_status := Done, res_body := Some [9], res_completed := Some 0\<rparr>)"
proof -
  let ?c = "\<lparr> jc_type = JobChunkTypeChunk, jc_chunk = [7], jc_final = [], jc_pct = 0, jc_note = '''', jc_err = '''' \<rparr>"
  let ?t = "\<lparr> jc_type = JobChunkTypeCompleted, jc_chunk = [], jc_final = [9], jc_pct = 0, jc_note = '''', jc_err = '''' \<rparr>"
  have i: "env_request_id (dp_env running_dispatch) = ''r''"
    by (simp add: running_dispatch_def running_envelope_def sample_envelope_def)
  obtain p s1 where run: "pump_stream [?c, ?t] (startPump running_dispatch) running_sched = (p, s1)" by fastforce
  have "map_of (results running_sched) (env_request_id (dp_env running_dispatch)) = Some open_result"
    "distinct (keys (sc_inflight running_sched))"
    by (simp_all add: i running_fields) (simp add: running_sched_def)
  from pump_outcome [OF running_safe(1) running_dispatch_ok this, of "[?c]" "Some ?t" p s1 _ True] run
  have "map_of (results (pump_close True p s1)) ''r'' =
      Some (open_result\<lparr>res_status := Done, res_body := Some [9], res_completed := Some 0\<rparr>)"
    by (auto simp: i terminal_chunk_def pump_verdict_def running_fields)
  with run show ?thesis by blast
qed

text \<open>A worker's error frame without a text is taken for a success with an empty body.\<close>

lemma empty_error_succeeds:
  assumes "jc_type c = JobChunkTypeError" "jc_err c = ''''"
  shows "pump_verdict online cancelled (Some c) = Succeeds []"
    "\<exists>lab. pump_close online (fst (pump_chunk c p s)) s =
      deleteBothRows (pp_queue p) (pp_msg p) (pp_global p)
        (append_buffer (pp_buffer p) c (completeResult (pp_request p) (pp_final p)
          (emit lab (kick (finishInflight (pp_request p) s)))))"
  using assms by (auto simp: pump_verdict_def pump_chunk_def pump_close_def Let_def)

end
