(* ===== verification/Budgets.thy ===== *)
theory Budgets
  imports Outcomes
begin

text \<open>
  The drain of a worker queue and the bounded retries of \<open>scheduler.go\<close>: which rows a drained row
  leaves behind, that a drain of a removed queue empties it, and that no job is placed again for ever.
\<close>

subsection \<open>Rows after draining one row\<close>

definition same_row :: "row \<Rightarrow> row \<Rightarrow> bool" where
  "same_row r r' \<longleftrightarrow> row_id r = row_id r' \<and> row_queue r = row_queue r' \<and> row_body r = row_body r'"

definition placed_anew :: "rat envelope \<Rightarrow> rat envelope" where
  "placed_anew env = env\<lparr>env_attempts := env_attempts env + 1, env_global_msg_id := '''', env_queued_seconds := 0\<rparr>"

lemma terminal_check_fields [simp]:
  "rows (snd (resultIsTerminal i s)) = rows s" "queue_faults (snd (resultIsTerminal i s)) = queue_faults s"
  "clock (snd (resultIsTerminal i s)) = clock s" "driver (snd (resultIsTerminal i s)) = driver s"
  "next_id (snd (resultIsTerminal i s)) = next_id s" "id_supply (snd (resultIsTerminal i s)) = id_supply s"
  by (simp_all add: resultIsTerminal_def Get_def rtx_def Let_def)

lemma result_text_fields [simp]:
  "driver (pendingResult i s) = driver s" "clock (pendingResult i s) = clock s"
  "next_id (failResult i t s) = next_id s" "id_supply (failResult i t s) = id_supply s"
  by (simp_all add: failResult_def pendingResult_def with_results_def Fail_def PendingResult_def set_result_def
      rtx_def Let_def)

lemma delete_both_rows:
  assumes "goqite_ok (driver s)"
  shows "r \<in> set (rows (snd (DeleteBoth q i q' i' s))) \<Longrightarrow> r \<in> set (rows s)"
    "queue_faults s = [] \<Longrightarrow> r \<in> set (rows (snd (DeleteBoth q i q' i' s))) \<Longrightarrow> \<not> is_row q i r"
    "r \<in> set (rows (snd (DeleteAndReleaseLease q i q' i' s))) \<Longrightarrow> \<exists>r0 \<in> set (rows s). same_row r0 r"
    "queue_faults s = [] \<Longrightarrow> r \<in> set (rows (snd (DeleteAndReleaseLease q i q' i' s))) \<Longrightarrow> \<not> is_row q i r"
    "r \<in> set (rows (snd (Delete q i s))) \<Longrightarrow> r \<in> set (rows s)"
  using assms
  by (auto simp: DeleteBoth_def DeleteAndReleaseLease_def Delete_def delete_tx_def release_tx_def signal_def set_rows_def
      qtx_def Let_def goqite_ok_simps update_where_def reset_row_def is_row_def same_row_def split: if_splits)

lemma queue_frame_next:
  "queue_frame s s' \<Longrightarrow> goqite_ok (driver s) \<Longrightarrow> goqite_ok (driver s')"
  by (simp add: queue_frame_def)

lemma delete_both_fresh:
  "next_id (snd (DeleteBoth q i q' i' s)) = next_id s" "id_supply (snd (DeleteBoth q i q' i' s)) = id_supply s"
  "clock (snd (DeleteBoth q i q' i' s)) = clock s" "driver (snd (DeleteBoth q i q' i' s)) = driver s"
  by (simp_all add: DeleteBoth_def delete_tx_def set_rows_def qtx_def Let_def)

lemma submit_rows:
  assumes "goqite_ok (driver s)" "r \<in> set (rows (snd (Submit_queue q e s)))"
  shows "r \<in> set (rows s) \<or> row_id r = fresh_id s \<and> row_queue r = q \<and> row_body r = Encoded e
     \<and> fst (Submit_queue q e s) = Inr (fresh_id s)"
  using assms by (auto simp: Submit_queue_def send_tx_def signal_def set_rows_def qtx_def Let_def goqite_ok_simps
      fresh_id_def new_row_def split: if_splits)

lemma drain_row_rows:
  assumes dr: "goqite_ok (driver s)" and r: "r \<in> set (rows (drain_row q inc m s))"
  shows "(\<exists>r0 \<in> set (rows s). same_row r0 r)
    \<or> (\<exists>env. msg_body m = Encoded env \<and> inc \<and> peek_leased m \<and> uint (env_attempts env) + 1 < disconnectRequeueBudget
        \<and> row_id r = fresh_id s \<and> row_queue r = GlobalQueueName \<and> row_body r = Encoded (placed_anew env))"
proof (cases "msg_body m")
  case (Encoded env)
  define rid where "rid = env_request_id env"
  define g where "g = env_global_msg_id env"
  obtain t s1 where t: "resultIsTerminal rid s = (t, s1)" by fastforce
  have s1: "rows s1 = rows s" "driver s1 = driver s" "next_id s1 = next_id s" "id_supply s1 = id_supply s"
    using terminal_check_fields [of rid s] by (simp_all add: t)
  obtain x s2 where del: "DeleteBoth q (msg_id m) GlobalQueueName g s1 = (x, s2)" by fastforce
  obtain y s3 where sub: "Submit_queue GlobalQueueName (placed_anew env) s2 = (y, s3)" by fastforce
  have s2: "fresh_id s2 = fresh_id s" "driver s2 = driver s"
    using delete_both_fresh [of q "msg_id m" GlobalQueueName g s1] by (simp_all add: del s1 fresh_id_def)
  have old: "r' \<in> set (rows s') \<Longrightarrow> \<exists>r0 \<in> set (rows s). same_row r0 r'" if "rows s' = rows s" for r' s'
    using that by (auto simp: same_row_def)
  have both: "\<exists>r0 \<in> set (rows s). same_row r0 r'"
    if "r' \<in> set (rows (snd (DeleteBoth q (msg_id m) GlobalQueueName g s')))" "rows s' = rows s" "driver s' = driver s"
    for r' s'
    using delete_both_rows(1) [of s' r' q "msg_id m" GlobalQueueName g] that dr by (auto simp: same_row_def)
  have rel: "\<exists>r0 \<in> set (rows s). same_row r0 r'"
    if "r' \<in> set (rows (snd (DeleteAndReleaseLease q (msg_id m) GlobalQueueName g s1)))" for r'
    using delete_both_rows(3) [of s1 r' q "msg_id m" GlobalQueueName g] that dr by (simp add: s1)
  have sub': "(\<exists>r0 \<in> set (rows s). same_row r0 r')
      \<or> row_id r' = fresh_id s \<and> row_queue r' = GlobalQueueName \<and> row_body r' = Encoded (placed_anew env)"
    if "r' \<in> set (rows s3)" for r'
    using submit_rows [of s2 r' GlobalQueueName "placed_anew env"] that dr both [of r' s1]
    by (auto simp: sub s2 s1 del)
  show ?thesis
    using r both [of r s1] rel [of r] sub' [of r] both [of r s] both [of r "failResult rid _ s"] both [of r "failResult rid _ s1"]
    by (auto simp: drain_row_def Encoded Let_def rid_def [symmetric] g_def [symmetric] t del s1
        placed_anew_def [symmetric] sub same_row_def split: if_splits sum.splits bool.splits)
next
  case (Garbage b)
  with r show ?thesis by (auto simp: drain_row_def same_row_def split: if_splits)
qed

subsection \<open>No job is placed again for ever\<close>

text \<open>A job goes back to the global queue after a failed load, and after the disconnect of the worker that
  was running it. \<open>L\<close> bounds the configured number of load attempts.\<close>

inductive placed_again :: "int \<Rightarrow> rat envelope \<Rightarrow> rat envelope \<Rightarrow> bool" for L where
  load_failed: "placed_again L env env'"
    if "goqite_ok (driver s)" "retryAfterLoadFailure q i env s = (True, s')" "EffectiveLoadAttempts (sc_cfg s) \<le> L"
      "r \<in> set (rows s')" "row_body r = Encoded env'" "fresh_id s \<notin> row_id ` set (rows s)" "row_id r = fresh_id s"
| disconnected: "placed_again L env env'"
    if "goqite_ok (driver s)" "msg_body m = Encoded env" "r \<in> set (rows (drain_row q True m s))"
      "row_body r = Encoded env'" "fresh_id s \<notin> row_id ` set (rows s)" "row_id r = fresh_id s"

lemma delete_fresh:
  "next_id (snd (Delete q i s)) = next_id s" "id_supply (snd (Delete q i s)) = id_supply s"
  "driver (snd (Delete q i s)) = driver s"
  by (simp_all add: Delete_def delete_tx_def set_rows_def qtx_def Let_def)

lemma retry_rows:
  assumes dr: "goqite_ok (driver s)" and op: "retryAfterLoadFailure q i env s = (True, s')" and r: "r \<in> set (rows s')"
  shows "uint (env_attempts env) + 1 < EffectiveLoadAttempts (sc_cfg s)"
    "r \<in> set (rows s) \<or> row_id r = fresh_id s \<and> row_body r = Encoded (placed_anew env)"
proof -
  define del :: "sched \<Rightarrow> (db_error + unit) \<times> sched" where
    "del = (if env_global_msg_id env \<noteq> '''' then DeleteBoth q i GlobalQueueName (env_global_msg_id env) else Delete q i)"
  obtain x s1 where d: "del s = (x, s1)" by fastforce
  obtain y s2 where sub: "Submit_queue GlobalQueueName (placed_anew env) s1 = (y, s2)" by fastforce
  have "retryAfterLoadFailure q i env s = (if uint (env_attempts env) + 1 \<ge> EffectiveLoadAttempts (sc_cfg s) then (False, s)
      else if \<not> sc_initialised s then (False, s)
      else case x of Inl _ \<Rightarrow> (False, s1)
        | Inr _ \<Rightarrow> (case y of Inl _ \<Rightarrow> (False, s2) | Inr _ \<Rightarrow> (True, broadcastQueueChange (kick s2))))"
    using d by (auto simp: retryAfterLoadFailure_def del_def placed_anew_def [symmetric] Let_def sub split: sum.split)
  with op have e: "uint (env_attempts env) + 1 < EffectiveLoadAttempts (sc_cfg s)" "rows s' = rows s2"
    by (auto split: if_splits sum.splits)
  show "uint (env_attempts env) + 1 < EffectiveLoadAttempts (sc_cfg s)" by (rule e(1))
  have s1: "fresh_id s1 = fresh_id s" "goqite_ok (driver s1)"
    using d dr delete_fresh [of q i s] delete_both_fresh [of q i GlobalQueueName "env_global_msg_id env" s]
    by (auto simp: del_def fresh_id_def split: if_splits)
  have "r' \<in> set (rows s)" if "r' \<in> set (rows s1)" for r'
    using that d delete_both_rows(1) [OF dr, of r' q i GlobalQueueName "env_global_msg_id env"]
      delete_both_rows(5) [OF dr, of r' q i] by (auto simp: del_def split: if_splits)
  with r submit_rows [OF s1(2), of r GlobalQueueName "placed_anew env"]
  show "r \<in> set (rows s) \<or> row_id r = fresh_id s \<and> row_body r = Encoded (placed_anew env)"
    by (auto simp: e(2) sub s1)
qed

lemma placed_again_attempts:
  assumes "placed_again L env env'" "3 \<le> L" "L \<le> 256"
  shows "uint (env_attempts env') = uint (env_attempts env) + 1" "uint (env_attempts env') < L"
proof -
  have "env' = placed_anew env \<and> uint (env_attempts env) + 1 < L"
    using assms(1)
  proof (induction rule: placed_again.induct)
    case (load_failed s q i env s' r env')
    have "r \<notin> set (rows s)" using load_failed(6,7) by (metis image_eqI)
    with retry_rows [OF load_failed(1,2,4)] load_failed(3,5) show ?case by auto
  next
    case (disconnected s m env r q env')
    have "\<not> (\<exists>r0 \<in> set (rows s). same_row r0 r)"
      using disconnected(5,6) by (auto simp: same_row_def image_iff)
    with drain_row_rows [OF disconnected(1,3)] disconnected(2,4) assms(2)
    show ?case by (auto simp: disconnectRequeueBudget_def)
  qed
  moreover from this have "uint (env_attempts env + 1) = uint (env_attempts env) + 1"
    using assms(3) uint_lt2p [of "env_attempts env"] by (simp add: uint_word_ariths)
  ultimately show "uint (env_attempts env') = uint (env_attempts env) + 1" "uint (env_attempts env') < L"
    by (simp_all add: placed_anew_def)
qed


text \<open>Past 256 the counter wraps and the job starts over.\<close>

lemma load_attempts_wrap: "env_attempts env = 255 \<Longrightarrow> env_attempts (placed_anew env) = 0"
  by (simp add: placed_anew_def)

definition leased_peek :: peek_row where
  "leased_peek = \<lparr> msg_id = ''mm'', msg_body = Encoded running_envelope, peek_leased = True \<rparr>"


subsection \<open>Draining a queue empties it\<close>

lemma pending_rows [simp]: "sc_queues (pendingResult i s) = sc_queues s" "sc_queues (failResult i t s) = sc_queues s"
  by (simp_all add: failResult_def pendingResult_def with_results_def Fail_def PendingResult_def set_result_def
      rtx_def Let_def)

lemma drain_row_settles:
  assumes dr: "goqite_ok (driver s)" and ok: "queue_faults s = []" and q: "q \<noteq> GlobalQueueName"
    and m: "msg_body m = Encoded env"
  shows "queue_faults (drain_row q True m s) = []" "driver (drain_row q True m s) = driver s"
    "r \<in> set (rows (drain_row q True m s)) \<Longrightarrow> \<not> is_row q (msg_id m) r"
proof -
  define rid where "rid = env_request_id env"
  define g where "g = env_global_msg_id env"
  obtain t s1 where t: "resultIsTerminal rid s = (t, s1)" by fastforce
  have s1: "queue_faults s1 = []" "driver s1 = driver s"
    using terminal_check_fields [of rid s] ok by (simp_all add: t)
  obtain x s2 where del: "DeleteBoth q (msg_id m) GlobalQueueName g s1 = (x, s2)" by fastforce
  obtain y s3 where sub: "Submit_queue GlobalQueueName (placed_anew env) s2 = (y, s3)" by fastforce
  have x: "x = Inr ()" "queue_faults s2 = []" "driver s2 = driver s"
    using no_fault(3,4) [OF s1(1), of q "msg_id m" GlobalQueueName g]
      delete_both_fresh(4) [of q "msg_id m" GlobalQueueName g s1] by (simp_all add: del s1)
  have y: "queue_faults s3 = []" "driver s3 = driver s" "\<exists>j. y = Inr j"
    using no_fault(7,8) [OF x(2), of GlobalQueueName "placed_anew env"] queue_op_frame(1) [of s2 GlobalQueueName "placed_anew env"]
    by (simp_all add: sub x queue_frame_def)
  define Z where "Z s' \<longleftrightarrow> queue_faults s' = [] \<and> driver s' = driver s
     \<and> (\<forall>r' \<in> set (rows s'). \<not> is_row q (msg_id m) r')" for s' :: sched
  have both: "Z (snd (DeleteBoth q (msg_id m) GlobalQueueName g s'))"
    if "queue_faults s' = []" "driver s' = driver s" for s'
    using no_fault(3) [OF that(1)] delete_both_fresh(4) [of q "msg_id m" GlobalQueueName g s']
      delete_both_rows(2) [of s' _ q "msg_id m" GlobalQueueName g] that dr
    by (auto simp: Z_def)
  have rel: "Z (snd (DeleteAndReleaseLease q (msg_id m) GlobalQueueName g s1))"
    using no_fault(5) [OF s1(1)] delete_both_rows(4) [of s1 _ q "msg_id m" GlobalQueueName g] s1 dr
      queue_op_frame(10) [of s1 q "msg_id m" GlobalQueueName g]
    by (auto simp: Z_def queue_frame_def)
  have "\<not> is_row q (msg_id m) r'" if "r' \<in> set (rows s3)" for r'
    using submit_rows [of s2 r' GlobalQueueName "placed_anew env"] that dr q both [OF s1] x(3)
    by (auto simp: sub del is_row_def Z_def)
  then have s3: "Z (pendingResult rid s3)" using y by (simp add: Z_def)
  have cases: "drain_row q True m s \<in> {snd (DeleteBoth q (msg_id m) GlobalQueueName g (failResult rid ''cancelled by operator'' s)),
      snd (DeleteBoth q (msg_id m) GlobalQueueName g s1),
      snd (DeleteAndReleaseLease q (msg_id m) GlobalQueueName g s1),
      snd (DeleteBoth q (msg_id m) GlobalQueueName g (failResult rid (disconnect_text (env_attempts env)) s1)),
      pendingResult rid s3}"
    using y(3) by (auto simp: drain_row_def m Let_def rid_def [symmetric] g_def [symmetric] t del x(1)
        placed_anew_def [symmetric] sub split: bool.splits)
  have "Z (snd (DeleteBoth q (msg_id m) GlobalQueueName g (failResult rid t' s)))"
    "Z (snd (DeleteBoth q (msg_id m) GlobalQueueName g (failResult rid t' s1)))" for t'
    by (rule both; simp add: ok s1)+
  with cases both [OF s1] rel s3 have "Z (drain_row q True m s)" by (elim insertE) simp_all
  then show "queue_faults (drain_row q True m s) = []" "driver (drain_row q True m s) = driver s"
    "r \<in> set (rows (drain_row q True m s)) \<Longrightarrow> \<not> is_row q (msg_id m) r" by (simp_all add: Z_def)
qed

lemma drain_rows_empty:
  assumes "goqite_ok (driver s)" "queue_faults s = []" "q \<noteq> GlobalQueueName"
    and "\<And>m. m \<in> set ms \<Longrightarrow> \<exists>env. msg_body m = Encoded env"
    and "r \<in> set (rows (drain_rows q True ms s))" "row_queue r = q"
  shows "\<exists>r0 \<in> set (rows s). same_row r0 r \<and> row_id r \<notin> msg_id ` set ms"
  using assms
proof (induction ms arbitrary: s)
  case Nil
  then show ?case by (auto simp: same_row_def)
next
  case (Cons m ms)
  let ?s = "drain_row q True m s"
  from Cons.prems(4) [of m] obtain env where m: "msg_body m = Encoded env" by auto
  note d = drain_row_settles [OF Cons.prems(1-3) m]
  from Cons.IH [of ?s] Cons.prems d(1,2) obtain r1 where r1: "r1 \<in> set (rows ?s)" "same_row r1 r"
    "row_id r \<notin> msg_id ` set ms" by auto
  with drain_row_rows [OF Cons.prems(1) r1(1)] Cons.prems(3,6) obtain r0 where
    "r0 \<in> set (rows s)" "same_row r0 r1" by (auto simp: same_row_def)
  moreover have "row_id r \<noteq> msg_id m"
    using d(3) [OF r1(1)] r1(2) Cons.prems(6) by (auto simp: is_row_def same_row_def)
  ultimately show ?case using r1 by (auto simp: same_row_def)
qed

lemma PeekAll_all:
  assumes "queue_faults s = []" "length (filter (\<lambda>r. row_queue r = q) (rows s)) \<le> n"
  obtains ms s' where "PeekAll q n s = (Inr ms, s')" "rows s' = rows s" "queue_faults s' = []" "driver s' = driver s"
    "\<And>r. r \<in> set (rows s) \<Longrightarrow> row_queue r = q \<Longrightarrow> \<exists>m \<in> set ms. msg_id m = row_id r"
    "\<And>m. m \<in> set ms \<Longrightarrow> \<exists>r \<in> set (rows s). row_queue r = q \<and> msg_body m = row_body r"
proof -
  let ?rs = "filter (\<lambda>r. row_queue r = q) (rows s)"
  have "length (queue_order ?rs) \<le> n" "set (queue_order ?rs) = set ?rs"
    using assms(2) by (simp_all add: queue_order_def)
  then show thesis
    using assms(1)
    by (intro that [of "map (\<lambda>r. \<lparr> msg_id = row_id r, msg_body = row_body r,
        peek_leased = (\<not> visible (clock s) r \<and> row_received r > 0) \<rparr>) (queue_order ?rs)" "s\<lparr>queue_faults := []\<rparr>"])
      (auto simp: PeekAll_def qtx_def Let_def)
qed



end
