(* ===== verification/Control.thy ===== *)
theory Control
  imports Budgets
begin

text \<open>
  What the operator's commands and the dispatcher's decisions achieve: the answer of a cancel
  (\<open>queue_view.go\<close>), the files of queued jobs, the drain slots and the steals (\<open>scheduler.go\<close>).
\<close>

subsection \<open>Cancelling by request\<close>

lemma Peek_message:
  assumes "Peek q n s = (Inr ms, s')" "m \<in> set ms"
  obtains r where "r \<in> set (rows s)" "row_queue r = q" "msg_id m = row_id r" "msg_body m = row_body r" "visible (clock s) r"
  using assms
  by (auto simp: Peek_def qtx_def Let_def queue_order_def message_of_def split: if_splits dest!: in_set_takeD)

lemma Peek_same:
  "rows (snd (Peek q n s)) = rows s" "results (snd (Peek q n s)) = results s" "clock (snd (Peek q n s)) = clock s"
  "sc_initialised (snd (Peek q n s)) = sc_initialised s" "sc_dispatching (snd (Peek q n s)) = sc_dispatching s"
  "sc_inflight (snd (Peek q n s)) = sc_inflight s" "sc_queues (snd (Peek q n s)) = sc_queues s"
  "sc_heap (snd (Peek q n s)) = sc_heap s"
  by (simp_all add: Peek_def qtx_def Let_def)

lemma Peek_misses:
  assumes "Peek q n s = (Inr ms, s')" "find P ms = None" "length (rows s) \<le> n" "r \<in> set (rows s)"
    "row_queue r = q" "visible (clock s) r"
  shows "\<not> P (message_of r)"
proof -
  let ?rs = "filter (\<lambda>r. row_queue r = q \<and> visible (clock s) r) (rows s)"
  have "length (queue_order ?rs) \<le> n" using assms(3) order.trans [OF length_filter_le] by (auto simp: queue_order_def)
  then have "ms = map message_of (queue_order ?rs)"
    using assms(1) by (auto simp: Peek_def qtx_def Let_def split: if_splits)
  moreover have "r \<in> set (queue_order ?rs)" using assms(4-6) by (simp add: queue_order_def)
  ultimately show ?thesis using assms(2) by (auto simp: find_None_iff)
qed

lemma cancel_result_fields:
  "rows (cancel_result b s) = rows s"
  by (simp add: cancel_result_def dropJob_def split: sum.split)

lemma row_by_id:
  assumes "safe X s" "r \<in> set (rows s)" "r' \<in> set (rows s)" "row_id r = row_id r'"
  shows "r = r'"
  using safeD(1) [OF assms(1)] assms(2-4) by (auto simp: database_ok_def distinct_map inj_on_def)

text \<open>A cancel of the row that names a request: found again it settles the request, otherwise nothing
  happened to rows or results.\<close>

lemma findUnleasedRow_names:
  assumes safe: "safe X s" and f: "findUnleasedRow q i s = (Inr (Some m), s1)"
    and r: "r \<in> set (rows s)" "row_id r = i" "body_rid (row_body r) = Some rid"
  shows "\<exists>e. msg_body m = Encoded e \<and> env_request_id e = rid \<and> rid \<noteq> ''''"
proof -
  from f obtain ms where p: "Peek q queuePeekLimit s = (Inr ms, s1)" "find (\<lambda>m. msg_id m = i) ms = Some m"
    by (auto simp: findUnleasedRow_def split: sum.splits prod.splits)
  then have "m \<in> set ms" "msg_id m = i" by (auto simp: find_Some_iff)
  with Peek_message [OF p(1)] obtain r' where r': "r' \<in> set (rows s)" "row_id r' = i" "msg_body m = row_body r'"
    by metis
  with row_by_id [OF safe r(1) r'(1)] r have "body_rid (msg_body m) = Some rid" by simp
  moreover have "rid \<noteq> ''''" using safeD(3) [OF safe] r by (auto simp: named_def)
  ultimately show ?thesis by (cases "msg_body m") auto
qed

lemma findUnleasedRow_same:
  "rows (snd (findUnleasedRow q i s)) = rows s" "results (snd (findUnleasedRow q i s)) = results s"
proof -
  obtain x s1 where p: "Peek q queuePeekLimit s = (x, s1)" by fastforce
  show "rows (snd (findUnleasedRow q i s)) = rows s" "results (snd (findUnleasedRow q i s)) = results s"
    using Peek_same(1,2) [of q queuePeekLimit s, unfolded p snd_conv]
    by (simp_all add: findUnleasedRow_def p split: sum.split)
qed

lemma cancel_settles:
  assumes "safe X s" "b = Encoded e" "env_request_id e \<noteq> ''''"
  shows "\<not> live (env_request_id e) (broadcastQueueChange (cancel_result b s))"
proof -
  have "\<not> live (env_request_id e) (failResult (env_request_id e) ''cancelled by operator'' s)"
    by (rule failResult_step(3) [OF assms(1)])
  then show ?thesis using assms(2,3) by (simp add: cancel_result_def dropJob_def emit_def live_def status_of_def)
qed

lemma cancelGlobal_outcome:
  assumes safe: "safe X s" and op: "cancelGlobal i s = (x, s')"
    and r: "r \<in> set (rows s)" "row_id r = i" "body_rid (row_body r) = Some rid"
  shows "case x of Inl _ \<Rightarrow> rows s' = rows s \<and> results s' = results s | Inr _ \<Rightarrow> \<not> live rid s'"
proof -
  obtain y s1 where f: "findUnleasedRow GlobalQueueName i s = (y, s1)" by fastforce
  note same = findUnleasedRow_same [of GlobalQueueName i s, unfolded f snd_conv]
  obtain z s2 where d: "Delete GlobalQueueName i s1 = (z, s2)" by fastforce
  have fr: "queue_frame s1 s2" using queue_op_frame(2) [of s1 GlobalQueueName i] by (simp add: d)
  note keep = queue_frame_fields(1) [OF fr]
  have err: "rows s2 = rows s1" if "z = Inl e" for e
    using queue_op_error(2) [of GlobalQueueName i s1 e] that by (simp add: d)
  have s1: "safe UNIV s1" using findUnleasedRow_step(1) [OF safe f] by (auto intro: safe_mono)
  have rs: "rows s2 = rows s1 \<or> rows s2 = filter (\<lambda>r. \<not> is_row GlobalQueueName i r) (rows s1)"
    using delete_rows(1) [OF safeD(1) [OF s1], of GlobalQueueName i] by (simp add: d)
  have s2: "safe UNIV s2" using filter_step [OF s1 fr rs] by simp
  show ?thesis
  proof (cases "\<exists>m. y = Inr (Some m)")
    case True
    then obtain m where y: "y = Inr (Some m)" by blast
    from findUnleasedRow_names [OF safe f [unfolded y] r] obtain e
      where e: "msg_body m = Encoded e" "env_request_id e = rid" "rid \<noteq> ''''" by blast
    show ?thesis
      using op err keep same cancel_settles [OF s2 e(1)] e
      by (auto simp: cancelGlobal_def f y d split: sum.splits)
  next
    case False
    with op same show ?thesis by (auto simp: cancelGlobal_def f split: sum.splits option.splits)
  qed
qed

lemma cancelWorkerQueue_outcome:
  assumes safe: "safe X s" and op: "cancelWorkerQueue q i s = (x, s')"
    and r: "r \<in> set (rows s)" "row_id r = i" "body_rid (row_body r) = Some rid"
  shows "case x of Inl _ \<Rightarrow> rows s' = rows s \<and> results s' = results s | Inr _ \<Rightarrow> \<not> live rid s'"
proof -
  obtain y s1 where f: "findUnleasedRow q i s = (y, s1)" by fastforce
  note same = findUnleasedRow_same [of q i s, unfolded f snd_conv]
  have s1: "safe UNIV s1" using findUnleasedRow_step(1) [OF safe f] by (auto intro: safe_mono)
  show ?thesis
  proof (cases "\<exists>m. y = Inr (Some m)")
    case True
    then obtain m where y: "y = Inr (Some m)" by blast
    from findUnleasedRow_names [OF safe f [unfolded y] r] obtain e
      where e: "msg_body m = Encoded e" "env_request_id e = rid" "rid \<noteq> ''''" by blast
    define g where "g = body_gmid (msg_body m)"
    obtain z s2 where d: "(if g = '''' \<or> \<not> sc_initialised s1 then Delete q i s1
        else DeleteBoth q i GlobalQueueName g s1) = (z, s2)" by fastforce
    have rs: "rows s2 = rows s1 \<or> (\<exists>P. rows s2 = filter P (rows s1))" and fr: "queue_frame s1 s2"
      using d delete_rows [OF safeD(1) [OF s1]] queue_op_frame(2,9) [of s1]
      by (auto split: if_splits) (metis snd_conv)+
    have err: "rows s2 = rows s1" if "z = Inl x" for x
      using d that queue_op_error(2,4) by (metis fst_conv snd_conv)
    have s2: "safe UNIV s2"
      using rs filter_step [OF s1 fr, where P = "\<lambda>r. True"] filter_step [OF s1 fr] by auto
    have "cancelWorkerQueue q i s = (case z of Inl err \<Rightarrow> (Inl (CancelFailed err), s2)
        | Inr _ \<Rightarrow> (Inr (), broadcastQueueChange (cancel_result (msg_body m) s2)))"
      unfolding cancelWorkerQueue_def f y Let_def prod.case sum.case option.case g_def [symmetric] d ..
    with op show ?thesis
      using err queue_frame_fields(1) [OF fr] same cancel_settles [OF s2 e(1)] e
      by (auto split: sum.splits)
  next
    case False
    with op same show ?thesis by (auto simp: cancelWorkerQueue_def f split: sum.splits option.splits)
  qed
qed

lemma findPendingWorkerRow_found:
  assumes "findPendingWorkerRow rid qs s = (Inr (Some (q, i)), s')"
  shows "q \<in> set qs \<and> (\<exists>r \<in> set (rows s). row_id r = i \<and> body_rid (row_body r) = Some rid)"
  using assms
proof (induction qs arbitrary: s)
  case (Cons p qs)
  obtain x s1 where pk: "Peek p queuePeekLimit s = (x, s1)" by fastforce
  have rs: "rows s1 = rows s" using Peek_same(1) [of p queuePeekLimit s] by (simp add: pk)
  from Cons.prems obtain ms where x: "x = Inr ms" by (auto simp: pk split: sum.splits)
  show ?case
  proof (cases "find (names_request rid) ms")
    case None
    with Cons.prems Cons.IH [of s1] show ?thesis by (auto simp: pk x rs)
  next
    case (Some m)
    with Cons.prems have "q = p" "i = msg_id m" by (simp_all add: pk x)
    moreover from Some have "m \<in> set ms" "names_request rid m" by (auto simp: find_Some_iff)
    ultimately show ?thesis using Peek_message [OF pk [unfolded x]] by (auto simp: names_request_def) metis
  qed
qed simp

lemma findPendingWorkerRow_missed:
  assumes "findPendingWorkerRow rid qs s = (Inr None, s')" "length (rows s) \<le> queuePeekLimit"
    "r \<in> set (rows s)" "row_queue r \<in> set qs" "visible (clock s) r"
  shows "body_rid (row_body r) \<noteq> Some rid"
  using assms
proof (induction qs arbitrary: s)
  case (Cons p qs)
  obtain x s1 where pk: "Peek p queuePeekLimit s = (x, s1)" by fastforce
  have rs: "rows s1 = rows s" "clock s1 = clock s" using Peek_same [of p queuePeekLimit s] by (simp_all add: pk)
  from Cons.prems obtain ms where x: "x = Inr ms" by (auto simp: pk split: sum.splits)
  with Cons.prems have none: "find (names_request rid) ms = None" "findPendingWorkerRow rid qs s1 = (Inr None, s')"
    by (auto simp: pk split: option.splits)
  show ?case
  proof (cases "row_queue r = p")
    case True
    with Peek_misses [OF pk [unfolded x] none(1)] Cons.prems show ?thesis by (simp add: names_request_def message_of_def)
  next
    case False
    with Cons.IH [OF none(2)] Cons.prems rs show ?thesis by simp
  qed
qed simp

lemma findPendingWorkerRow_same:
  "rows (snd (findPendingWorkerRow rid qs s)) = rows s \<and> results (snd (findPendingWorkerRow rid qs s)) = results s
   \<and> clock (snd (findPendingWorkerRow rid qs s)) = clock s
   \<and> sc_dispatching (snd (findPendingWorkerRow rid qs s)) = sc_dispatching s
   \<and> sc_inflight (snd (findPendingWorkerRow rid qs s)) = sc_inflight s"
proof (induction qs arbitrary: s)
  case (Cons p qs)
  obtain x s1 where pk: "Peek p queuePeekLimit s = (x, s1)" by fastforce
  note same = Peek_same [of p queuePeekLimit s, unfolded pk snd_conv]
  show ?case using Cons.IH [of s1] same by (auto simp: pk split: sum.split option.split)
qed simp

lemma cancel_row_errors:
  "fst (cancelGlobal i s) \<noteq> Inl (ErrNotInflight j)" "fst (cancelWorkerQueue q i s) \<noteq> Inl (ErrNotInflight j)"
  by (auto simp: cancelGlobal_def cancelWorkerQueue_def Let_def split: sum.split option.split prod.split)

lemma cancel_dispatched_outcome:
  assumes "cancel_dispatched sent rid s = (x, s')"
  shows "rows s' = rows s" "results s' = results s"
    "x = Inr () \<Longrightarrow> map_of (sc_dispatching s') rid = Some True \<or> isInflightCancelled rid s'"
    "x = Inl (ErrNotInflight j) \<Longrightarrow> j = rid \<and> map_of (sc_dispatching s) rid = None \<and> map_of (sc_inflight s) rid = None"
  using assms
  by (auto simp: cancel_dispatched_def requestCancelDuringDispatch_def CancelRunningJob_def markInflightCancelled_def
      update_inflight_def isInflightCancelled_def emit_def broadcastQueueChange_def update_conv' Let_def
      split: if_splits option.splits prod.splits)

text \<open>C9. A cancel does what it answers. When \<open>CancelByRequestID\<close> reports success, the job's result is
  settled, or a mark is left that the running dispatch or the pump of the job will honour. An error leaves
  rows and results alone, and "not in flight" is only answered for a request no visible row names and that
  is neither being dispatched nor running.\<close>

theorem CancelByRequestID_outcome:
  assumes "reachable w" and op: "CancelByRequestID sent rid (wo_sched w) = (x, s')"
  shows "(\<forall>u. x = Inr u \<longrightarrow> \<not> live rid s' \<or> map_of (sc_dispatching s') rid = Some True \<or> isInflightCancelled rid s')
    \<and> (\<forall>e. x = Inl e \<longrightarrow> rows s' = rows (wo_sched w) \<and> results s' = results (wo_sched w))
    \<and> (\<forall>j. x = Inl (ErrNotInflight j) \<and> length (rows (wo_sched w)) \<le> queuePeekLimit \<longrightarrow>
        j = rid \<and> map_of (sc_dispatching (wo_sched w)) rid = None \<and> map_of (sc_inflight (wo_sched w)) rid = None
        \<and> (\<forall>r \<in> set (rows (wo_sched w)). row_queue r \<in> insert GlobalQueueName (set (sc_queues (wo_sched w)))
            \<and> visible (clock (wo_sched w)) r \<longrightarrow> body_rid (row_body r) \<noteq> Some rid))"
proof -
  let ?s = "wo_sched w"
  have safe: "safe (wo_refused w) ?s" using reachable_ok [OF assms(1)] by (simp add: world_ok_def)
  obtain y s1 where pk: "Peek GlobalQueueName queuePeekLimit ?s = (y, s1)" by fastforce
  note same1 = Peek_same [of GlobalQueueName queuePeekLimit ?s, unfolded pk snd_conv]
  have safe1: "safe (wo_refused w) s1" using query_step(1) [OF safe, of GlobalQueueName queuePeekLimit] by (simp add: pk)
  obtain z s2 where wk: "findPendingWorkerRow rid (sc_queues s1) s1 = (z, s2)" by fastforce
  note same2 = findPendingWorkerRow_same [of rid "sc_queues s1" s1, unfolded wk snd_conv]
  have safe2: "safe (wo_refused w) s2" using findPendingWorkerRow_step [OF safe1 wk] by simp
  define P where "P = (CancelByRequestID sent rid ?s)"
  consider (global) ms m where "y = Inr ms" "find (names_request rid) ms = Some m" "cancelGlobal (msg_id m) s1 = (x, s')"
    | (fault) e where "x = Inl (CancelFailed e)" "rows s' = rows ?s" "results s' = results ?s"
    | (worker) q i where "z = Inr (Some (q, i))" "cancelWorkerQueue q i s2 = (x, s')"
    | (none) ms where "y = Inr ms" "find (names_request rid) ms = None" "z = Inr None" "cancel_dispatched sent rid s2 = (x, s')"
    using op safeD(5) [OF safe] same1 same2
    by (auto simp: CancelByRequestID_def findPendingGlobalRow_def pk wk [unfolded same1(7)] split: sum.splits option.splits)
  then show ?thesis
  proof cases
    case global
    from global(2) have m: "m \<in> set ms" "names_request rid m" by (auto simp: find_Some_iff)
    obtain r where "r \<in> set (rows ?s)" "msg_id m = row_id r" "msg_body m = row_body r"
      using Peek_message [OF pk [unfolded global(1)] m(1)] by metis
    with m have "r \<in> set (rows s1)" "row_id r = msg_id m" "body_rid (row_body r) = Some rid"
      by (simp_all add: same1(1) names_request_def)
    from cancelGlobal_outcome [OF safe1 global(3) this] same1 cancel_row_errors(1) [of "msg_id m" s1] global(3)
    show ?thesis by (auto split: sum.splits)
  next
    case (worker q i)
    from findPendingWorkerRow_found [of rid "sc_queues s1" s1 q i s2] wk worker(1) obtain r
      where "r \<in> set (rows s2)" "row_id r = i" "body_rid (row_body r) = Some rid" using same2 by auto
    from cancelWorkerQueue_outcome [OF safe2 worker(2) this] same1 same2 cancel_row_errors(2) [of q i s2] worker(2)
    show ?thesis by (auto split: sum.splits)
  next
    case none
    note d = cancel_dispatched_outcome [OF none(4)]
    have "body_rid (row_body r) \<noteq> Some rid" if "length (rows ?s) \<le> queuePeekLimit" "r \<in> set (rows ?s)"
      "row_queue r \<in> insert GlobalQueueName (set (sc_queues ?s))" "visible (clock ?s) r" for r
    proof (cases "row_queue r = GlobalQueueName")
      case True
      with Peek_misses [OF pk [unfolded none(1)] none(2) that(1,2) True that(4)] show ?thesis
        by (simp add: names_request_def message_of_def)
    next
      case False
      with findPendingWorkerRow_missed [of rid "sc_queues s1" s1 s2 r] that wk none(3) same1 show ?thesis by simp
    qed
    with d same1 same2 show ?thesis by auto
  qed auto
qed

theorem CancelByRequestID_outcome_witness:
  "\<exists>s'. CancelByRequestID True ''nobody'' (wo_sched demo_start) = (Inl (ErrNotInflight ''nobody''), s')
     \<and> rows s' = rows (wo_sched demo_start) \<and> map_of (sc_inflight (wo_sched demo_start)) ''nobody'' = None"
proof -
  let ?s = "wo_sched demo_start"
  have "fst (CancelByRequestID True ''nobody'' ?s) = Inl (ErrNotInflight ''nobody'')"
    by (simp add: CancelByRequestID_def findPendingGlobalRow_def Peek_def qtx_def demo_fields queue_order_def
        cancel_dispatched_def requestCancelDuringDispatch_def CancelRunningJob_def markInflightCancelled_def)
      (simp add: demo_start_def initial_def InitQueue_def New_def database.defs)
  then obtain s' where op: "CancelByRequestID True ''nobody'' ?s = (Inl (ErrNotInflight ''nobody''), s')"
    by (metis prod.collapse)
  have "length (rows ?s) \<le> queuePeekLimit" by (simp add: demo_fields)
  with CancelByRequestID_outcome [OF demo_start_reachable op] op show ?thesis by blast
qed

subsection \<open>Files of queued jobs\<close>

lemma PeekAll_same:
  "rows (snd (PeekAll q n s)) = rows s" "sc_queues (snd (PeekAll q n s)) = sc_queues s"
  by (simp_all add: PeekAll_def qtx_def Let_def)

lemma PeekAll_lists:
  assumes "PeekAll q n s = (Inr ms, s')" "length (rows s) \<le> n" "r \<in> set (rows s)" "row_queue r = q"
  shows "\<exists>m \<in> set ms. msg_id m = row_id r \<and> msg_body m = row_body r"
proof -
  let ?rs = "filter (\<lambda>r. row_queue r = q) (rows s)"
  have "length (queue_order ?rs) \<le> n" using assms(2) order.trans [OF length_filter_le] by (auto simp: queue_order_def)
  moreover have "r \<in> set (queue_order ?rs)" using assms(3,4) by (simp add: queue_order_def)
  ultimately show ?thesis using assms(1) by (auto simp: PeekAll_def qtx_def Let_def split: if_splits)
qed

lemma queued_files_all:
  assumes "queued_files qs s = (Inr fs, s')" "length (rows s) \<le> queuePeekLimit" "r \<in> set (rows s)"
    "row_queue r \<in> set qs"
  shows "set (body_files (row_body r)) \<subseteq> set fs"
  using assms
proof (induction qs arbitrary: s fs)
  case (Cons q qs)
  obtain x s1 where pk: "PeekAll q queuePeekLimit s = (x, s1)" by fastforce
  have rs: "rows s1 = rows s" using PeekAll_same(1) [of q queuePeekLimit s] by (simp add: pk)
  from Cons.prems(1) obtain ms fs' where x: "x = Inr ms" "queued_files qs s1 = (Inr fs', s')"
    "fs = concat (map (\<lambda>m. body_files (msg_body m)) ms) @ fs'"
    by (auto simp: pk split: sum.splits prod.splits)
  show ?case
  proof (cases "row_queue r = q")
    case True
    from PeekAll_lists [OF pk [unfolded x(1)] Cons.prems(2,3) True] show ?thesis by (auto simp: x(3))
  next
    case False
    with Cons.IH [OF x(2)] Cons.prems rs show ?thesis by (auto simp: x(3))
  qed
qed simp

text \<open>No file of a queued job is missed. When \<open>QueuedModelFiles\<close> answers, the answer names, without
  repetition, every non-empty file name of every decodable job in the global queue and in the worker
  queues, leased or not: the cleanup that keeps exactly these files deletes nothing a queued job needs.\<close>

theorem QueuedModelFiles_complete:
  assumes "sc_initialised s" "QueuedModelFiles s = (Inr fs, s')" "length (rows s) \<le> queuePeekLimit"
  shows "distinct fs \<and> (\<forall>r \<in> set (rows s). row_queue r \<in> insert GlobalQueueName (set (sc_queues s))
    \<longrightarrow> (\<forall>e f. row_body r = Encoded e \<and> Some f \<in> set (env_files e) \<and> mf_filename f \<noteq> '''' \<longrightarrow> mf_filename f \<in> set fs))"
proof -
  from assms(1,2) obtain gs where q: "queued_files (GlobalQueueName # sc_queues s) s = (Inr gs, s')" "fs = remdups gs"
    by (auto simp: QueuedModelFiles_def split: sum.splits prod.splits simp del: queued_files.simps)
  have "mf_filename f \<in> set fs" if "r \<in> set (rows s)" "row_queue r \<in> insert GlobalQueueName (set (sc_queues s))"
    "row_body r = Encoded e" "Some f \<in> set (env_files e)" "mf_filename f \<noteq> ''''" for r e f
  proof -
    have "mf_filename f \<in> set (body_files (row_body r))" using that(3-5) by (force simp: body_files_def)
    with queued_files_all [OF q(1) assms(3) that(1)] that(2) q(2) show ?thesis by auto
  qed
  with q(2) show ?thesis by auto
qed

theorem QueuedModelFiles_complete_witness:
  "\<exists>fs s'. QueuedModelFiles running_sched = (Inr fs, s') \<and> ''f.gguf'' \<in> set fs"
proof -
  have "queue_faults s = [] \<Longrightarrow> \<exists>gs. fst (queued_files qs s) = Inr gs" for qs and s :: sched
  proof (induction qs arbitrary: s)
    case (Cons q qs)
    obtain x s1 where pk: "PeekAll q queuePeekLimit s = (x, s1)" by fastforce
    from Cons.prems no_fault(9) [OF Cons.prems, of q queuePeekLimit] have "queue_faults s1 = []" by (simp add: pk)
    moreover have "\<exists>ms. x = Inr ms" using pk Cons.prems by (auto simp: PeekAll_def qtx_def)
    ultimately show ?case using Cons.IH [of s1] by (auto simp: pk split: sum.splits prod.splits)
  qed simp
  from this [OF running_fields(7)] obtain gs s'
    where "queued_files (GlobalQueueName # sc_queues running_sched) running_sched = (Inr gs, s')"
    by (metis prod.collapse)
  then obtain fs where op: "QueuedModelFiles running_sched = (Inr fs, s')"
    by (simp add: QueuedModelFiles_def running_fields(9) del: queued_files.simps)
  have "length (rows running_sched) \<le> queuePeekLimit" by (simp add: running_fields queuePeekLimit_def)
  from QueuedModelFiles_complete [OF running_fields(9) op this] have "''f.gguf'' \<in> set fs"
    by (auto simp: running_fields anchor_row_def leased_row_def new_row_def sample_envelope_def)
  with op show ?thesis by blast
qed

subsection \<open>Drain slots\<close>

text \<open>The dispatcher wakes queues at any time; a drainer runs from a wake that got the slot to its end.\<close>

datatype drain_event = Wake queue_name | EndDrain queue_name

record drain_run =
  dr_sched :: sched
  dr_active :: "queue_name list"
  dr_missed :: "queue_name list"

fun drain_exec :: "drain_event \<Rightarrow> drain_run \<Rightarrow> drain_run" where
  "drain_exec (Wake q) r = (case tryMarkDraining q (dr_sched r) of
     (True, s) \<Rightarrow> r\<lparr>dr_sched := s, dr_active := q # dr_active r\<rparr>
   | (False, s) \<Rightarrow> r\<lparr>dr_sched := s, dr_missed := q # dr_missed r\<rparr>)"
| "drain_exec (EndDrain q) r =
     (if q \<in> set (dr_active r)
      then r\<lparr>dr_sched := endDrainer q (dr_sched r), dr_active := remove1 q (dr_active r),
             dr_missed := removeAll q (dr_missed r)\<rparr>
      else r)"

definition slots_ok :: "drain_run \<Rightarrow> bool" where
  "slots_ok r \<longleftrightarrow> distinct (dr_active r)
     \<and> (\<forall>q. q \<in> set (dr_active r) \<longleftrightarrow> isDraining q (dr_sched r))
     \<and> (\<forall>q. q \<in> set (dr_missed r) \<longleftrightarrow> map_of (sc_draining (dr_sched r)) q = Some True)"

lemma drain_exec_ok: "slots_ok r \<Longrightarrow> slots_ok (drain_exec e r)"
proof (cases e)
  case (Wake q)
  assume "slots_ok r"
  with Wake show ?thesis
    by (auto simp: slots_ok_def tryMarkDraining_def isDraining_def update_conv' split: if_splits)
next
  case (EndDrain q)
  assume "slots_ok r"
  with EndDrain show ?thesis
    by (auto simp: slots_ok_def endDrainer_def finishDraining_def isDraining_def kick_def delete_conv'
        split: if_splits)
qed

text \<open>C14. Over any history of wakes and drainer ends a queue has at most one drainer, the slot is taken
  exactly while it runs, and no wake is lost: a drainer that ends after its queue was woken again wakes the
  dispatcher.\<close>

theorem drain_slots_exclusive:
  assumes "sc_draining s = []" "r = fold drain_exec es \<lparr> dr_sched = s, dr_active = [], dr_missed = [] \<rparr>"
  shows "distinct (dr_active r) \<and> (\<forall>q. q \<in> set (dr_active r) \<longleftrightarrow> isDraining q (dr_sched r))
    \<and> (\<forall>q \<in> set (dr_missed r). q \<in> set (dr_active r) \<and> sc_kicked (endDrainer q (dr_sched r)))"
proof -
  have start: "slots_ok \<lparr> dr_sched = s, dr_active = [], dr_missed = [] \<rparr>"
    using assms(1) by (simp add: slots_ok_def isDraining_def)
  have "slots_ok (fold drain_exec es r0)" if "slots_ok r0" for r0
    using that by (induction es arbitrary: r0) (simp_all add: drain_exec_ok)
  from this [OF start] assms(2) have "slots_ok r" by simp
  then show ?thesis
    by (auto simp: slots_ok_def isDraining_def endDrainer_def finishDraining_def kick_def)
qed

theorem drain_slots_exclusive_witness:
  "\<exists>r. r = fold drain_exec [Wake ''worker|a'', Wake ''worker|a'', EndDrain ''worker|a'', Wake ''worker|a'']
        \<lparr> dr_sched = two_workers, dr_active = [], dr_missed = [] \<rparr>
     \<and> dr_active r = [''worker|a''] \<and> isDraining ''worker|a'' (dr_sched r)"
proof -
  have "sc_draining two_workers = []" by (simp add: two_workers_eval)
  note d = drain_slots_exclusive [OF this refl]
  let ?r = "fold drain_exec [Wake ''worker|a'', Wake ''worker|a'', EndDrain ''worker|a'', Wake ''worker|a'']
        \<lparr> dr_sched = two_workers, dr_active = [], dr_missed = [] \<rparr>"
  have "dr_active ?r = [''worker|a'']"
    by (simp add: tryMarkDraining_def endDrainer_def finishDraining_def kick_def two_workers_eval)
  with d [of "[Wake ''worker|a'', Wake ''worker|a'', EndDrain ''worker|a'', Wake ''worker|a'']"]
  have "dr_active ?r = [''worker|a''] \<and> isDraining ''worker|a'' (dr_sched ?r)" by (metis list.set_intros(1))
  then show ?thesis by blast
qed

subsection \<open>Work stealing\<close>

definition stealable :: "worker_id \<Rightarrow> sched \<Rightarrow> stream_worker \<times> nat \<Rightarrow> bool" where
  "stealable w s = (\<lambda>(p, d). w_id p \<noteq> w \<and> d > stealThreshold \<and> \<not> isDraining (workerQueueName (w_id p)) s)"

lemma deepest_peer_best:
  assumes "deepest_peer w st best s = Some (p, d)"
  shows "(best = Some (p, d) \<or> (p, d) \<in> set st \<and> stealable w s (p, d))
    \<and> (\<forall>(p', d') \<in> set st. stealable w s (p', d') \<longrightarrow> d' \<le> d) \<and> (case best of None \<Rightarrow> True | Some (b, e) \<Rightarrow> e \<le> d)"
  using assms
proof (induction w st best s rule: deepest_peer.induct)
  case (2 w p0 d0 st best s)
  show ?case
  proof (cases "w_id p0 = w \<or> d0 \<le> stealThreshold \<or> isDraining (workerQueueName (w_id p0)) s")
    case True
    with 2 show ?thesis by (auto simp: stealable_def)
  next
    case False
    with 2(2)[OF False] 2(3) show ?thesis by (cases best) (auto simp: stealable_def split: if_splits)
  qed
qed auto

lemma credit_rows [simp]: "rows (creditTail q x m s) = rows s" "rows (debitTail q x s) = rows s"
  using tail_ops_core(1) [of s q x m] tail_ops_core(2) [of s q x] by (simp_all add: core_same_def)

text \<open>Work is only stolen where it pays and fits. A row that is new after an idle worker's turn is a copy,
  under the idle worker's queue, of a visible row of the deepest queue that may be stolen from: a queue of
  another worker, deeper than \<open>stealThreshold\<close> and not being drained. The thief had an empty queue and free
  capacity, a measured benchmark of the model and memory for it; and the row left its old queue.\<close>

theorem steals_fit:
  assumes safe: "safe X s" and new: "r' \<in> set (rows (steal_for stats (idle, depth) s))" "r' \<notin> set (rows s)"
  shows "depth = 0 \<and> effectiveCapacity idle s > 0 \<and> row_queue r' = workerQueueName (w_id idle)
    \<and> (\<exists>(peer, d) \<in> set stats. stealable (w_id idle) s (peer, d)
        \<and> (\<forall>(p, e) \<in> set stats. stealable (w_id idle) s (p, e) \<longrightarrow> e \<le> d)
        \<and> (\<exists>r \<in> set (rows s). row_queue r = workerQueueName (w_id peer) \<and> visible (clock s) r \<and> row_body r = row_body r'
            \<and> r \<notin> set (rows (steal_for stats (idle, depth) s))))
    \<and> (\<exists>env row s1 s2. row_body r' = Encoded env \<and> modelBenchmark idle env s1 = (Some row, s2)
        \<and> eligibleWorker idle env row s2)"
proof -
  have guard: "depth = 0" "effectiveCapacity idle s > 0"
    using new by (auto simp: steal_for_def not_le split: if_splits)
  obtain peer d where deep: "deepest_peer (w_id idle) stats None s = Some (peer, d)"
    using new guard by (auto simp: steal_for_def split: option.splits)
  define src where "src = workerQueueName (w_id peer)"
  define dst where "dst = workerQueueName (w_id idle)"
  obtain x s1 where pk: "Peek src 1 s = (x, s1)" by fastforce
  note same = Peek_same [of src 1 s, unfolded pk snd_conv]
  have e: "steal_for stats (idle, depth) s = (case x of Inl _ \<Rightarrow> s1 | Inr [] \<Rightarrow> s1 | Inr (m # _) \<Rightarrow> steal_row idle src dst m s1)"
    using guard deep pk unfolding steal_for_def src_def dst_def Let_def by simp
  then obtain m ms where x: "x = Inr (m # ms)" using new same(1) by (auto split: sum.splits list.splits)
  then have e: "steal_for stats (idle, depth) s = steal_row idle src dst m s1" using e by simp
  from Peek_message [OF pk [unfolded x], of m] obtain r where r: "r \<in> set (rows s)" "row_queue r = src"
    "msg_id m = row_id r" "msg_body m = row_body r" "visible (clock s) r" by auto
  obtain env where env: "msg_body m = Encoded env"
    using new e same(1) by (cases "msg_body m") (auto simp: steal_row_def)
  obtain b s2 where mb: "modelBenchmark idle env s1 = (b, s2)" by fastforce
  have s2: "rows s2 = rows s" "clock s2 = clock s"
    using caches_only_fields [OF modelBenchmark_caches [where w = idle and env = env and s = s1]] same by (simp_all add: mb)
  obtain row where row: "b = Some row" "eligibleWorker idle env row s2"
    using new e env mb s2 same by (auto simp: steal_row_def split: option.splits if_splits)
  obtain y s3 where mv: "MoveTo src dst (msg_id m) (env_priority env) s2 = (y, s3)" by fastforce
  have rs: "rows (steal_for stats (idle, depth) s) = rows s3"
    using e env mb row mv by (auto simp: steal_row_def split: sum.splits)
  have ok2: "database_ok s2"
  proof -
    have "safe X s1" using query_step(1) [OF safe, of src 1] unfolding pk by simp
    then have "safe X s2" using caches_advances [OF modelBenchmark_caches [where w = idle and env = env and s = s1]] by (simp add: mb)
    then show ?thesis by (rule safeD(1))
  qed
  from ok2 mv show ?thesis
  proof (cases rule: MoveTo_cases)
    case (hit a)
    have a: "a = r"
      using row_by_id [OF safe, of a r] hit(1,2) r by (auto simp: s2 leasable_def is_row_def)
    have r': "r' = new_row (clock s2) (fresh_id s2) dst (row_body a) (env_priority env)"
      using new rs hit(4) s2 by auto
    have "row_id r \<noteq> fresh_id s2" using r(1) database_okD(4) [OF ok2] s2(1) by (metis imageI)
    then have gone: "r \<notin> set (rows s3)" using hit(4) r(3) by (auto simp: new_row_def)
    have "row_body r' = Encoded env" using r(4) env r' a by (simp add: new_row_def)
    then have fits: "\<exists>env row s1 s2. row_body r' = Encoded env \<and> modelBenchmark idle env s1 = (Some row, s2)
        \<and> eligibleWorker idle env row s2"
      using mb row by blast
    have dst: "row_queue r' = workerQueueName (w_id idle)" by (simp add: r' new_row_def dst_def)
    have "\<exists>(peer, d) \<in> set stats. stealable (w_id idle) s (peer, d)
        \<and> (\<forall>(p, e) \<in> set stats. stealable (w_id idle) s (p, e) \<longrightarrow> e \<le> d)
        \<and> (\<exists>r \<in> set (rows s). row_queue r = workerQueueName (w_id peer) \<and> visible (clock s) r \<and> row_body r = row_body r'
            \<and> r \<notin> set (rows (steal_for stats (idle, depth) s)))"
      using deepest_peer_best [OF deep] r r' a gone rs
      by (auto simp: new_row_def src_def intro!: bexI [of _ "(peer, d)"])
    with guard fits dst show ?thesis by blast
  qed (use new rs s2 in auto)
qed

text \<open>Three jobs wait for worker \<open>a\<close>, worker \<open>b\<close> idles.\<close>

definition waiting_row :: "message_id \<Rightarrow> row" where
  "waiting_row i = new_row 0 i ''worker|a'' (Encoded sample_envelope) 1"

definition idle_b :: stream_worker where
  "idle_b = gpu_worker\<lparr>w_id := ''b'', w_available_cap := 2\<rparr>"

definition steal_sched :: sched where
  "steal_sched = two_workers\<lparr> rows := [waiting_row ''m'', waiting_row ''mm'', waiting_row ''mmm''], next_id := 3 \<rparr>"

lemma steal_sched_fields:
  "rows steal_sched = [waiting_row ''m'', waiting_row ''mm'', waiting_row ''mmm'']" "clock steal_sched = 0"
  "queue_faults steal_sched = []" "sc_draining steal_sched = []" "sc_inflight steal_sched = []"
  "driver steal_sched = goqite_ref" "results steal_sched = []" "sc_initialised steal_sched"
  "id_supply steal_sched = (\<lambda>n. replicate (Suc n) (CHR ''m''))" "next_id steal_sched = 3" "tails steal_sched = []"
  "drawn steal_sched = {''m'', ''mm'', ''mmm''}" "result_faults steal_sched = []" "sc_buffers steal_sched = []"
  "sc_heap steal_sched = []"
proof -
  have "{..<3} = {0, 1, 2::nat}" by auto
  then show "drawn steal_sched = {''m'', ''mm'', ''mmm''}"
    by (simp add: drawn_def steal_sched_def two_workers_eval numeral_2_eq_2)
qed (simp_all add: steal_sched_def two_workers_eval)

lemma steal_sched_safe: "safe {} steal_sched"
proof -
  note eval = steal_sched_fields waiting_row_def sample_envelope_def new_row_def GlobalQueueName_def body_gmid_def
  have "database_ok steal_sched" by (auto simp: database_ok_def eval inj_def)
  moreover have "linked steal_sched" "named steal_sched" by (auto simp: linked_def named_def eval is_row_def)
  ultimately show ?thesis by (simp add: safe_def durable_def live_def status_of_def steal_sched_fields)
qed

lemma idle_b_fits:
  "\<exists>s'. modelBenchmark idle_b sample_envelope (steal_sched\<lparr>queue_faults := []\<rparr>) = (Some bench_row, s')
     \<and> eligibleWorker idle_b sample_envelope bench_row s' \<and> rows s' = rows steal_sched \<and> queue_faults s' = []
     \<and> driver s' = goqite_ref \<and> clock s' = 0"
proof -
  let ?s = "steal_sched\<lparr>queue_faults := []\<rparr>"
  obtain r s' where m: "modelBenchmark idle_b sample_envelope ?s = (r, s')" by fastforce
  have sets: "predictDeviceSet idle_b ?s = [''gpu0'']" "deviceSet idle_b ?s = [''gpu0'']"
    by (simp_all add: idle_b_def steal_sched_def two_workers_eval predictDeviceSet_def deviceSet_def enabled_of_def
        isDeviceEnabled_def)
  have co: "coherent ?s" by (simp add: coherent_def steal_sched_def two_workers_eval)
  have pl: "\<forall>d \<in> set (w_devices idle_b). plain (dev_id d)"
    by (simp add: idle_b_def gpu_worker_def NewStreamWorker_def plain_def)
  from modelBenchmark_spec [OF co pl, of sample_envelope] m
  have r: "r = measured_row sample_envelope idle_b ?s" "caches_only ?s s'" by simp_all
  have "measured_row sample_envelope idle_b ?s = Some bench_row"
    unfolding measured_row_def sets
    by (simp add: idle_b_def steal_sched_def two_workers_eval model_truth_def sample_envelope_def benchModelKey_def
        modelFileUnchanged_def bench_row_def zero_model_benchmark_def)
  moreover have "freeMemoryBytes idle_b ?s = 2097152"
    unfolding freeMemoryBytes_def sets
    by (simp add: idle_b_def steal_sched_def two_workers_eval getMemoryReservation_def)
  then have "eligibleWorker idle_b sample_envelope bench_row ?s"
    by (simp add: eligibleWorker_def memoryEligible_def bench_row_def idle_b_def gpu_worker_def NewStreamWorker_def)
  then have "eligibleWorker idle_b sample_envelope bench_row s'" by (simp add: caches_only_queries [OF r(2)])
  ultimately show ?thesis
    using m r caches_only_fields [OF r(2)] by (simp add: steal_sched_fields)
qed

theorem steals_fit_witness:
  "\<exists>r'. r' \<in> set (rows (steal_for [(gpu_worker, 3), (idle_b, 0)] (idle_b, 0) steal_sched))
    \<and> row_queue r' = ''worker|b'' \<and> (\<exists>env. row_body r' = Encoded env)"
proof -
  let ?st = "[(gpu_worker, 3), (idle_b, 0)]"
  obtain s' where mb: "modelBenchmark idle_b sample_envelope (steal_sched\<lparr>queue_faults := []\<rparr>) = (Some bench_row, s')"
    "eligibleWorker idle_b sample_envelope bench_row s'" "rows s' = rows steal_sched" "queue_faults s' = []"
    "driver s' = goqite_ref" "clock s' = 0" using idle_b_fits by blast
  have deep: "deepest_peer (w_id idle_b) ?st None steal_sched = Some (gpu_worker, 3)"
    by (simp add: idle_b_def gpu_worker_def NewStreamWorker_def stealThreshold_def isDraining_def steal_sched_fields)
  have cap: "effectiveCapacity idle_b steal_sched = 2"
    by (simp add: effectiveCapacity_def inflightCountForWorker_def steal_sched_fields idle_b_def gpu_worker_def NewStreamWorker_def)
  have names: "workerQueueName (w_id gpu_worker) = ''worker|a''" "workerQueueName (w_id idle_b) = ''worker|b''"
    by (simp_all add: idle_b_def gpu_worker_def NewStreamWorker_def workerQueueName_def worker_prefix_def)
  have pk: "Peek ''worker|a'' 1 steal_sched = (Inr [message_of (waiting_row ''m'')], steal_sched\<lparr>queue_faults := []\<rparr>)"
    by (simp add: Peek_def qtx_def Let_def steal_sched_fields waiting_row_def new_row_def visible_def MaxReceive_def
        queue_order_def)
  define r' where "r' = new_row 0 (fresh_id s') ''worker|b'' (Encoded sample_envelope) 1"
  have e: "steal_for ?st (idle_b, 0) steal_sched
      = steal_row idle_b ''worker|a'' ''worker|b'' (message_of (waiting_row ''m'')) (steal_sched\<lparr>queue_faults := []\<rparr>)"
    using deep cap pk unfolding steal_for_def names Let_def by (simp add: names)
  have "r' \<in> set (rows (steal_for ?st (idle_b, 0) steal_sched))"
    unfolding e using mb
    by (simp add: steal_row_def message_of_def waiting_row_def new_row_def MoveTo_def qtx_def Let_def leasable_def
        is_row_def visible_def MaxReceive_def steal_sched_fields send_tx_def set_rows_def signal_def goqite_ref_def
        ref_send_def r'_def fresh_id_def sample_envelope_def)
  moreover have "r' \<notin> set (rows steal_sched)"
    by (auto simp: r'_def steal_sched_fields waiting_row_def new_row_def)
  ultimately show ?thesis
    using steals_fit [OF steal_sched_safe, of r' ?st idle_b 0] names(2) by metis
qed

end
