(* ===== verification/Progress.thy ===== *)
theory Progress
  imports Control
begin

text \<open>
  What becomes of a row: the verdict of \<open>drainGlobal\<close> on an anchor, the tail after a re-estimation
  (\<open>scheduler.go\<close>), what a snapshot shows (\<open>queue_view.go\<close>), and what goroutines may rely on.
\<close>

subsection \<open>The verdict on an anchor\<close>

lemma conclusion_caches:
  assumes "modelBenchConclusion env s = (r, s')"
  shows "rows s' = rows s" "results s' = results s" "queue_faults s' = queue_faults s" "clock s' = clock s"
  using caches_only_fields [OF modelBenchConclusion_caches [where env = env and s = s]] assms by simp_all

lemma pick_caches:
  assumes "pickWorkerQueue env s = (r, s')"
  shows "rows s' = rows s" "results s' = results s" "queue_faults s' = queue_faults s" "clock s' = clock s"
    "mirror_look s' = mirror_look s"
  using caches_only_fields [OF pickWorkerQueue_caches [where env = env and s = s]] assms
  by (simp_all add: mirror_look_def fun_eq_iff)

text \<open>C7. The verdict on an anchor. For a decodable anchor the pass over the global queue does one of three
  things. A worker is picked: a worker row for it appears, unleased, carrying the anchor's id and the
  predicted seconds, the anchor is leased for a day and the tail of the queue is charged with them. Or some
  worker still has to measure the model: nothing changes and the pass is asked to come back. Or every
  eligible worker refused: the result is failed with the reason and the anchor is deleted.\<close>

theorem global_row_outcome:
  assumes safe: "safe X s" and ok: "queue_faults s = []" and r: "r \<in> set (rows s)" "row_body r = Encoded e"
    and lease: "leasable (clock s) GlobalQueueName (row_id r) r" and init: "map_of (results s) (env_request_id e) = Some res"
    and run: "drain_global_row (message_of r) s = (pending, s')"
  shows "case pickWorkerQueue (e\<lparr>env_global_msg_id := row_id r\<rparr>) s of
      (Some (c, x), _) \<Rightarrow> \<not> pending
        \<and> (\<exists>v \<in> set (rows s'). row_queue v = cd_queue c \<and> visible (clock s) v \<and> row_received v = 0
            \<and> row_body v = Encoded (e\<lparr>env_global_msg_id := row_id r, env_queued_seconds := x\<rparr>))
        \<and> lease_row (clock s + anchorLeaseDuration) r \<in> set (rows s')
        \<and> mirror_look s' = mirror_look (creditTail (cd_queue c) x (env_model_id e) s)
    | (None, s1) \<Rightarrow> (case fst (modelBenchConclusion (e\<lparr>env_global_msg_id := row_id r\<rparr>) s1) of
          (True, _) \<Rightarrow> pending \<and> rows s' = rows s \<and> results s' = results s
        | (False, msg) \<Rightarrow> \<not> pending \<and> (\<forall>v \<in> set (rows s'). \<not> is_row GlobalQueueName (row_id r) v)
            \<and> map_of (results s') (env_request_id e) = Some (res\<lparr>res_status := Failed,
                res_error := Some (unbenchable_text msg), res_completed := Some (clock s)\<rparr>))"
proof -
  let ?e = "e\<lparr>env_global_msg_id := row_id r\<rparr>"
  obtain p s1 where pick: "pickWorkerQueue ?e s = (p, s1)" by fastforce
  note s1 = pick_caches [OF pick]
  have safe1: "safe X s1" using pick_advances [OF safe pick] by blast
  show ?thesis
  proof (cases p)
    case (Some cx)
    then obtain c x where p: "p = Some (c, x)" by (cases cx) simp
    let ?x = "?e\<lparr>env_queued_seconds := x\<rparr>"
    obtain l s2 where op: "LeaseAndSubmit GlobalQueueName (row_id r) anchorLeaseDuration (cd_queue c) ?x s1 = (l, s2)"
      by fastforce
    have s': "drain_global_row (message_of r) s = (case l of Inl _ \<Rightarrow> (False, s2)
        | Inr (_, leased) \<Rightarrow> (False, if \<not> leased then s2 else creditTail (cd_queue c) x (env_model_id e) s2))"
      using pick op by (simp add: drain_global_row_def message_of_def r(2) p Let_def split: sum.split prod.split)
    have noerr: "l \<noteq> Inl err" for err
    proof
      assume "l = Inl err"
      with op have "fst (LeaseAndSubmit GlobalQueueName (row_id r) anchorLeaseDuration (cd_queue c) ?x s1) = Inl err" by simp
      then show False
        using ok s1(3) by (auto simp: LeaseAndSubmit_def qtx_def Let_def split: if_splits prod.splits)
    qed
    from safeD(1) [OF safe1] op show ?thesis
    proof (cases rule: LeaseAndSubmit_cases)
      case (hit a)
      have a: "a = r"
        using row_by_id [OF safe, of a r] hit(1,2) r by (auto simp: s1 leasable_def is_row_def)
      have moved: "lease_row (clock s + anchorLeaseDuration) r \<in> set (rows s2)"
        using hit r lease by (auto simp: s1 update_where_def)
      define v where "v = new_row (clock s1) (fresh_id s1) (cd_queue c) (Encoded ?x) (env_priority ?x)"
      have v: "v \<in> set (rows s2)" using hit(4) by (simp add: v_def)
      have "s' = creditTail (cd_queue c) x (env_model_id e) s2" "\<not> pending"
        using run hit(3) by (simp_all add: s')
      moreover have "mirror_look s2 = mirror_look s"
      proof -
        have "queue_frame s1 s2"
          using queue_op_frame(12) [of s1 GlobalQueueName "row_id r" anchorLeaseDuration "cd_queue c" ?x] op by simp
        then have "sc_mirror s2 = sc_mirror s1" using sched_of_more(1) [of s2 s1] by (simp add: queue_frame_def)
        then show ?thesis using s1(5) by (simp add: mirror_look_def fun_eq_iff)
      qed
      moreover from this have "mirror_look (creditTail (cd_queue c) x (env_model_id e) s2)
          = mirror_look (creditTail (cd_queue c) x (env_model_id e) s)"
        by (simp only: mirror.look_credit [OF TrueI])
      moreover have "row_queue v = cd_queue c \<and> visible (clock s) v \<and> row_received v = 0 \<and> row_body v = Encoded ?x"
        by (simp add: v_def new_row_def visible_def s1)
      ultimately show ?thesis using moved v p by (auto simp: pick)
    qed (use noerr r lease s1 in auto)
  next
    case None
    obtain pend msg s2 where con: "modelBenchConclusion ?e s1 = ((pend, msg), s2)" by (metis prod.collapse)
    note s2 = conclusion_caches [OF con]
    have safe2: "safe X s2" using caches_advances [OF modelBenchConclusion_caches safe1] con by (metis snd_conv)
    show ?thesis
    proof (cases pend)
      case True
      with run None pick con s1 s2 show ?thesis
        by (simp add: drain_global_row_def message_of_def r(2) Let_def)
    next
      case False
      with run None pick con have s': "\<not> pending" "s' = failUnbenchable (row_id r) ?e msg s2"
        by (simp_all add: drain_global_row_def message_of_def r(2) Let_def)
      define reason where "reason = unbenchable_text msg"
      define s3 where "s3 = failResult (env_request_id e) reason (emit (JobDispatched (env_runtime_name e) ''error'') s2)"
      obtain b s4 where buf: "ensureJobBuffer (env_request_id e) s3 = (b, s4)" by fastforce
      have s4: "rows s4 = rows s3" "results s4 = results s3" "queue_faults s4 = queue_faults s3" "driver s4 = driver s3"
        using buf by (auto simp: ensureJobBuffer_def alloc_buffer_def Let_def split: option.splits)
      have e: "s' = broadcastQueueChange (snd (Delete GlobalQueueName (row_id r) (append_buffer b (error_chunk reason) s4)))"
        by (simp add: s'(2) failUnbenchable_def Let_def reason_def s3_def [unfolded reason_def] buf [unfolded s3_def reason_def])
      have "map_of (results s3) (env_request_id e) = Some (res\<lparr>res_status := Failed, res_error := Some reason,
          res_completed := Some (clock s)\<rparr>)"
        using settled_row(1) [of "emit (JobDispatched (env_runtime_name e) ''error'') s2" "env_request_id e" res reason]
          safeD(1,4,5) [OF safe2] init by (simp add: s3_def s2 s1 database_ok_def)
      moreover have "results s' = results s3"
        using s4 by (simp add: e Delete_def delete_tx_def set_rows_def qtx_def Let_def)
      moreover have "\<not> is_row GlobalQueueName (row_id r) v" if "v \<in> set (rows s')" for v
      proof -
        have "goqite_ok (driver s4)" "queue_faults s4 = []"
          using safeD(1) [OF safe2] ok by (simp_all add: s4 s3_def s2 s1 database_ok_def)
        with that show ?thesis
          by (simp add: e Delete_def delete_tx_def set_rows_def qtx_def Let_def goqite_ok_simps)
      qed
      ultimately show ?thesis using None False s'(1) by (simp add: pick con reason_def)
    qed
  qed
qed

definition anchored_sched :: sched where
  "anchored_sched = two_workers\<lparr> rows := [new_row 0 ''m'' GlobalQueueName (Encoded sample_envelope) 1], next_id := 1,
     results := [(''r'', open_result)], sc_fleet := empty_fleet \<rparr>"

lemma anchored_sched_fields:
  "rows anchored_sched = [new_row 0 ''m'' GlobalQueueName (Encoded sample_envelope) 1]" "next_id anchored_sched = 1"
  "results anchored_sched = [(''r'', open_result)]" "clock anchored_sched = 0" "queue_faults anchored_sched = []"
  "result_faults anchored_sched = []" "sc_initialised anchored_sched" "driver anchored_sched = goqite_ref"
  "tails anchored_sched = []" "id_supply anchored_sched = (\<lambda>n. replicate (Suc n) (CHR ''m''))"
  "sc_buffers anchored_sched = []" "sc_heap anchored_sched = []" "drawn anchored_sched = {''m''}"
proof -
  have "{..<1} = {0::nat}" by auto
  then show "drawn anchored_sched = {''m''}" by (simp add: drawn_def anchored_sched_def two_workers_eval)
qed (simp_all add: anchored_sched_def two_workers_eval)

lemma anchored_sched_safe: "safe {} anchored_sched"
proof -
  have "database_ok anchored_sched" "linked anchored_sched" "named anchored_sched"
    by (auto simp: database_ok_def linked_def named_def anchored_sched_fields inj_def running_rows)
  moreover have "backed i (rows anchored_sched)" if "live i anchored_sched" for i
    using that by (auto simp: live_def status_of_def backed_def anchored_sched_fields running_rows split: if_splits)
  ultimately show ?thesis by (simp add: safe_def durable_def anchored_sched_fields)
qed

theorem global_row_outcome_witness:
  "\<exists>s'. drain_global_row \<lparr> msg_id = ''m'', msg_body = Encoded sample_envelope \<rparr> anchored_sched = (True, s')
    \<and> rows s' = rows anchored_sched \<and> results s' = results anchored_sched"
proof -
  let ?r = "new_row 0 ''m'' GlobalQueueName (Encoded sample_envelope) 1"
  obtain pending s' where run: "drain_global_row (message_of ?r) anchored_sched = (pending, s')" by fastforce
  have "?r \<in> set (rows anchored_sched)" "row_body ?r = Encoded sample_envelope"
    "leasable (clock anchored_sched) GlobalQueueName (row_id ?r) ?r"
    "map_of (results anchored_sched) (env_request_id sample_envelope) = Some open_result"
    by (simp_all add: anchored_sched_fields new_row_def leasable_def is_row_def visible_def MaxReceive_def sample_envelope_def)
  note out = global_row_outcome [OF anchored_sched_safe anchored_sched_fields(5) this run]
  have none: "WorkersForRuntime rt anchored_sched = []" for rt
    by (simp add: WorkersForRuntime_def All_workers_def anchored_sched_def empty_fleet_def map_filter_simps)
  have "pickWorkerQueue e anchored_sched = (None, anchored_sched)"
    "fst (modelBenchConclusion e anchored_sched) = (True, '''')" for e :: "rat envelope"
    by (simp_all add: pickWorkerQueue_def modelBenchConclusion_def none Let_def)
  with out have "pending \<and> rows s' = rows anchored_sched \<and> results s' = results anchored_sched" by simp
  with run show ?thesis by (auto simp: message_of_def new_row_def)
qed

subsection \<open>What goroutines may rely on\<close>

text \<open>C37. What a goroutine holds stays meaningful. From any well-formed world (the initial one is, and every
  step keeps it so), between two parts of a dispatch and whatever happened meanwhile (other goroutines, failing statements), the address of its replay buffer is
  valid and labelled with its request, its queue is a worker queue, and a row found under its queue and
  message id, or under the anchor id its envelope carries, is a row of its own request.\<close>

theorem dispatches_well_formed:
  assumes "world_ok w0" "step\<^sup>*\<^sup>* w0 w" "t \<in> set (wo_threads w)" "t \<in> {Loading d, Starting d, Assigning d} \<or> (\<exists>ms. t = Evicting d ms)"
  shows "dp_queue d \<noteq> GlobalQueueName \<and> dp_buffer d < length (sc_heap (wo_sched w))
    \<and> fst (sc_heap (wo_sched w) ! dp_buffer d) = env_request_id (dp_env d)
    \<and> (\<forall>r \<in> set (rows (wo_sched w)). is_row (dp_queue d) (dp_msg d) r \<longrightarrow> job_id r = env_request_id (dp_env d)
        \<and> body_gmid (row_body r) = env_global_msg_id (dp_env d))
    \<and> (\<forall>r \<in> set (rows (wo_sched w)). is_row GlobalQueueName (env_global_msg_id (dp_env d)) r
        \<longrightarrow> job_id r = env_request_id (dp_env d))"
proof -
  from assms(2,1) have "world_ok w" by (induction rule: rtranclp_induct) (auto intro: step_world_ok)
  with assms(3) have "thread_ok t (wo_sched w)" by (simp add: world_ok_def)
  with assms(4) have d: "dispatch_ok d (wo_sched w)" by auto
  then have c: "claims (dp_queue d) (row_msg (dp_msg d) (dp_env d)) (wo_sched w)" "dp_queue d \<noteq> GlobalQueueName"
    by (simp_all add: dispatch_ok_def)
  with claims_encoded [of "dp_queue d" "row_msg (dp_msg d) (dp_env d)" "wo_sched w" "dp_env d"] d
  show ?thesis by (auto simp: dispatch_ok_def holds_buffer_def owned_def names_def)
qed

definition loading_world :: world where
  "loading_world = \<lparr> wo_sched = running_sched, wo_refused = {}, wo_threads = [Loading running_dispatch] \<rparr>"

theorem dispatches_well_formed_witness:
  "\<exists>w. step\<^sup>*\<^sup>* loading_world w \<and> Loading running_dispatch \<in> set (wo_threads w)
     \<and> sc_kicked (wo_sched w) \<and> fst (sc_heap (wo_sched w) ! 0) = ''r''"
proof -
  let ?w = "loading_world\<lparr>wo_sched := kick (wo_sched loading_world)\<rparr>"
  have "step loading_world ?w"
    by (intro step.handle handler.environment environment.timer_kick)
  then have steps: "step\<^sup>*\<^sup>* loading_world ?w" by blast
  have ok: "world_ok loading_world"
    using running_safe running_dispatch_ok by (simp add: world_ok_def loading_world_def)
  have t: "Loading running_dispatch \<in> set (wo_threads ?w)" by (simp add: loading_world_def)
  have "fst (sc_heap (wo_sched ?w) ! 0) = ''r''"
    using dispatches_well_formed [OF ok steps t, of running_dispatch]
    by (simp add: running_dispatch_def running_envelope_def sample_envelope_def)
  with steps t show ?thesis by (intro exI [of _ ?w]) (simp add: kick_def)
qed

end
