(* ===== verification/Bench.thy ===== *)
theory Bench
  imports Queue_View
begin

text \<open>
  The bench orchestrator (\<open>internal/scheduler/bench_orchestrator.go\<close>): one measured row per worker,
  device set and model. Each connected worker has a runner with a queue of measurements; a runner stays
  reachable from the goroutine that drains it after the orchestrator forgot it, so runners live in a
  store and the orchestrator maps worker ids to addresses.

  The answers of the gateway (the catalogue and the authored payload) and of the worker are arguments.
  \<open>runOne\<close> is cut where it blocks: on the author call, in the gate's polling loop, on the unloading of
  residents and on the measurement. The texts of formatted floats come from \<open>show_float\<close>.
\<close>

subsection \<open>Tasks, runners, orchestrator\<close>

record bench_model =
  bm_id :: string
  bm_key :: model_id

record bench_payload =
  bp_payload :: bytes
  bp_hints :: bytes
  bp_cost :: rat
  bp_files :: "model_file option list"

datatype author_error = ErrBenchModelGone | AuthorFailed string

definition benchMaxAttempts :: nat where "benchMaxAttempts = 3"

definition benchBackoff :: "time list" where "benchBackoff = [30 * 1000, 5 * 60 * 1000]"

text \<open>A task that was never deferred is due at any time.\<close>

record bench_task =
  bt_model :: bench_model
  bt_runtime :: runtime_name
  bt_devset :: string
  bt_attempts :: nat
  bt_ready :: "time option"

record bench_runner =
  br_worker :: worker_id
  br_queue :: "bench_task list"
  br_current :: "bench_task option"
  br_wake :: bool
  br_stop :: bool

record orchestrator =
  bo_started :: bool
  bo_models :: bool
  bo_author :: bool
  bo_runners :: "(worker_id \<times> nat) list"
  bo_heap :: "bench_runner list"

definition newBenchOrchestrator :: orchestrator where
  "newBenchOrchestrator = \<lparr> bo_started = False, bo_models = False, bo_author = False, bo_runners = [], bo_heap = [] \<rparr>"

definition SetBenchProviders :: "bool \<Rightarrow> bool \<Rightarrow> orchestrator \<Rightarrow> orchestrator" where
  "SetBenchProviders models author b = b\<lparr>bo_models := models, bo_author := author\<rparr>"

definition update_runner :: "nat \<Rightarrow> (bench_runner \<Rightarrow> bench_runner) \<Rightarrow> orchestrator \<Rightarrow> orchestrator" where
  "update_runner a f b = b\<lparr>bo_heap := (bo_heap b)[a := f (bo_heap b ! a)]\<rparr>"

subsection \<open>A runner's queue\<close>

definition runner_kick :: "bench_runner \<Rightarrow> bench_runner" where
  "runner_kick r = r\<lparr>br_wake := True\<rparr>"

definition task_due :: "time \<Rightarrow> bench_task \<Rightarrow> bool" where
  "task_due now t = (case bt_ready t of None \<Rightarrow> True | Some ready \<Rightarrow> ready \<le> now)"

text \<open>The loop of \<open>next\<close>: the first due task and the others, or the shortest wait seen.\<close>

fun next_loop :: "time \<Rightarrow> bench_task list \<Rightarrow> bench_task list \<Rightarrow> time \<Rightarrow> (bench_task \<times> bench_task list) + time" where
  "next_loop now earlier [] soonest = Inr soonest"
| "next_loop now earlier (t # ts) soonest =
     (if task_due now t then Inl (t, earlier @ ts)
      else let d = (case bt_ready t of None \<Rightarrow> 0 | Some ready \<Rightarrow> ready - now)
           in next_loop now (earlier @ [t]) ts (if soonest < 0 \<or> d < soonest then d else soonest))"

definition runner_next :: "time \<Rightarrow> bench_runner \<Rightarrow> (bench_task option \<times> time \<times> bool) \<times> bench_runner" where
  "runner_next now r =
     (if length (br_queue r) = 0 then ((None, 0, False), r)
      else case next_loop now [] (br_queue r) (- 1) of
        Inl (t, rest) \<Rightarrow> ((Some t, 0, True), r\<lparr>br_queue := rest, br_current := Some t\<rparr>)
      | Inr soonest \<Rightarrow> ((None, soonest, True), r))"

definition runner_finish :: "bench_runner \<Rightarrow> bench_runner" where
  "runner_finish r = r\<lparr>br_current := None\<rparr>"

definition runner_requeue :: "bench_task \<Rightarrow> time \<Rightarrow> time \<Rightarrow> bench_runner \<Rightarrow> bench_runner" where
  "runner_requeue t delay now r =
     runner_kick (r\<lparr>br_queue := br_queue r @ [t\<lparr>bt_ready := Some (now + delay)\<rparr>]\<rparr>)"

definition runner_shutdown :: "bench_runner \<Rightarrow> bench_runner" where
  "runner_shutdown r = r\<lparr>br_stop := True\<rparr>"

subsection \<open>Queueing\<close>

text \<open>The runner of a worker, made on first use.\<close>

definition find_runner :: "worker_id \<Rightarrow> orchestrator \<Rightarrow> nat \<times> orchestrator" where
  "find_runner w b = (case map_of (bo_runners b) w of
      Some a \<Rightarrow> (a, b)
    | None \<Rightarrow>
        let a = length (bo_heap b)
        in (a, b\<lparr>bo_heap := bo_heap b @ [\<lparr> br_worker = w, br_queue = [], br_current = None, br_wake = False,
                br_stop = False \<rparr>],
              bo_runners := AList.update w a (bo_runners b)\<rparr>))"

definition same_bench :: "model_id \<Rightarrow> string \<Rightarrow> bench_task \<Rightarrow> bool" where
  "same_bench key devSet t \<longleftrightarrow> bm_key (bt_model t) = key \<and> bt_devset t = devSet"

definition put_task :: "stream_worker \<Rightarrow> bench_model \<Rightarrow> string \<Rightarrow> bench_runner \<Rightarrow> bench_runner" where
  "put_task w m devSet r =
     (let dup = ((case br_current r of None \<Rightarrow> False | Some t \<Rightarrow> same_bench (bm_key m) devSet t)
            \<or> list_ex (same_bench (bm_key m) devSet) (br_queue r))
      in if dup then r
         else runner_kick (r\<lparr>br_queue := br_queue r @ [\<lparr> bt_model = m, bt_runtime = w_runtime w,
                bt_devset = devSet, bt_attempts = 0, bt_ready = None \<rparr>]\<rparr>))"

definition enqueue :: "stream_worker \<Rightarrow> bench_model \<Rightarrow> string \<Rightarrow> orchestrator \<Rightarrow> orchestrator" where
  "enqueue w m devSet b =
     (if \<not> bo_started b then b
      else let (a, b) = find_runner (w_id w) b in update_runner a (put_task w m devSet) b)"

definition enqueueIfMissing :: "stream_worker \<Rightarrow> bench_model \<Rightarrow> orchestrator \<times> sched \<Rightarrow> orchestrator \<times> sched" where
  "enqueueIfMissing w m = (\<lambda>(b, s).
     let ds = predictDeviceSet w s in
     if length ds = 0 then (b, s)
     else let devSet = deviceSetKey ds;
              ((row, ok), s) = lookupModelBenchmark (w_id w) devSet (bm_key m) s
          in if (ok \<or> mb_error row \<noteq> '''') \<and> modelFileUnchanged row s then (b, s)
             else (enqueue w m devSet b, s))"

definition allStreamWorkers :: "sched \<Rightarrow> stream_worker list" where
  "allStreamWorkers s = sort_key w_id (filter w_online (All_workers (sc_fleet s)))"

text \<open>\<open>catalogue\<close> is the gateway's answer for the runtime.\<close>

definition sweepWorker :: "stream_worker \<Rightarrow> (runtime_name \<Rightarrow> string + bench_model list)
    \<Rightarrow> orchestrator \<times> sched \<Rightarrow> orchestrator \<times> sched" where
  "sweepWorker w catalogue = (\<lambda>(b, s).
     if \<not> bo_started b \<or> \<not> bo_models b then (b, s)
     else if length (predictDeviceSet w s) = 0 then (b, s)
     else case catalogue (w_runtime w) of
        Inl err \<Rightarrow> (b, s)
      | Inr ms \<Rightarrow> fold (enqueueIfMissing w) ms (b, s))"

definition StartBenchOrchestrator :: "(runtime_name \<Rightarrow> string + bench_model list)
    \<Rightarrow> orchestrator \<times> sched \<Rightarrow> orchestrator \<times> sched" where
  "StartBenchOrchestrator catalogue = (\<lambda>(b, s).
     fold (\<lambda>w. sweepWorker w catalogue) (allStreamWorkers s) (b\<lparr>bo_started := True\<rparr>, s))"

definition queueModelEverywhere :: "runtime_name \<Rightarrow> model_id \<Rightarrow> (runtime_name \<Rightarrow> string + bench_model list)
    \<Rightarrow> orchestrator \<times> sched \<Rightarrow> orchestrator \<times> sched" where
  "queueModelEverywhere rt key catalogue = (\<lambda>(b, s).
     if \<not> bo_started b \<or> \<not> bo_models b then (b, s)
     else case catalogue rt of
        Inl err \<Rightarrow> (b, s)
      | Inr ms \<Rightarrow>
          (fold (\<lambda>m. fold (\<lambda>w b.
              if w_runtime w \<noteq> rt then b
              else let ds = predictDeviceSet w s
                   in if length ds > 0 then enqueue w m (deviceSetKey ds) b else b) (allStreamWorkers s))
            (filter (\<lambda>m. bm_key m = key) ms) b, s))"

definition queueModelsMatching :: "runtime_name \<Rightarrow> string \<Rightarrow> (runtime_name \<Rightarrow> string + bench_model list)
    \<Rightarrow> orchestrator \<times> sched \<Rightarrow> orchestrator \<times> sched" where
  "queueModelsMatching rt relPath catalogue = (\<lambda>(b, s).
     if \<not> bo_started b \<or> \<not> bo_models b then (b, s)
     else case catalogue rt of
        Inl err \<Rightarrow> (b, s)
      | Inr ms \<Rightarrow>
          fold (\<lambda>m. fold (\<lambda>w bs. if w_runtime w = rt then enqueueIfMissing w m bs else bs) (allStreamWorkers s))
            (filter (\<lambda>m. bm_key m = relPath) ms) (b, s))"

definition OnModelDownloaded :: "runtime_name \<Rightarrow> string \<Rightarrow> (runtime_name \<Rightarrow> string + bench_model list)
    \<Rightarrow> orchestrator \<times> sched \<Rightarrow> orchestrator \<times> sched" where
  "OnModelDownloaded rt relPath catalogue bs =
     (if rt = '''' \<or> relPath = '''' then bs else queueModelsMatching rt relPath catalogue bs)"

subsection \<open>Forgetting\<close>

definition cancelModel :: "model_id \<Rightarrow> orchestrator \<Rightarrow> orchestrator" where
  "cancelModel key b = fold (\<lambda>(w, a). update_runner a
     (\<lambda>r. r\<lparr>br_queue := filter (\<lambda>t. bm_key (bt_model t) \<noteq> key) (br_queue r)\<rparr>)) (bo_runners b) b"

definition stopWorker :: "worker_id \<Rightarrow> orchestrator \<Rightarrow> orchestrator" where
  "stopWorker w b = (case map_of (bo_runners b) w of
      None \<Rightarrow> b
    | Some a \<Rightarrow> update_runner a runner_shutdown (b\<lparr>bo_runners := AList.delete w (bo_runners b)\<rparr>))"

definition stopAll :: "orchestrator \<Rightarrow> orchestrator" where
  "stopAll b = fold (\<lambda>(w, a). update_runner a runner_shutdown) (bo_runners b) (b\<lparr>bo_runners := []\<rparr>)"

definition RebenchModel :: "runtime_name \<Rightarrow> model_id \<Rightarrow> (runtime_name \<Rightarrow> string + bench_model list)
    \<Rightarrow> orchestrator \<times> sched \<Rightarrow> string option \<times> orchestrator \<times> sched" where
  "RebenchModel rt key catalogue = (\<lambda>(b, s).
     if \<not> sc_initialised s then (Some ''rebench: store not initialised'', b, s)
     else case DeleteModelBenchmarksByModel key s of
       (Inl err, s) \<Rightarrow> (Some (sc_error_text s err), b, s)
     | (Inr _, s) \<Rightarrow> (None, queueModelEverywhere rt key catalogue (b, InvalidateModelBenchmarks '''' s)))"

definition forget_model :: "model_id \<Rightarrow> orchestrator \<times> sched \<Rightarrow> orchestrator \<times> sched" where
  "forget_model = (\<lambda>key (b, s).
     (cancelModel key b, if sc_initialised s then snd (DeleteModelBenchmarksByModel key s) else s))"

text \<open>The workers are asked to drop the files; a send that fails is only logged.\<close>

definition OnModelRemoved :: "model_id list \<Rightarrow> orchestrator \<times> sched \<Rightarrow> orchestrator \<times> sched" where
  "OnModelRemoved relPaths = (\<lambda>(b, s).
     let (b, s) = fold forget_model relPaths (b, s);
         s = InvalidateModelBenchmarks '''' s
     in (b, fold (\<lambda>w. emit (SentDeleteFiles (w_id w) relPaths)) (allStreamWorkers s) s))"

definition OnWorkerRemoved :: "worker_id \<Rightarrow> sched \<Rightarrow> sched" where
  "OnWorkerRemoved w s = InvalidateModelBenchmarks w
     (if sc_initialised s then snd (DeleteModelBenchmarksByWorker w s) else s)"

subsection \<open>What is running\<close>

definition BenchInFlight :: "worker_id \<Rightarrow> orchestrator \<Rightarrow> model_id" where
  "BenchInFlight w b = (case map_of (bo_runners b) w of
      None \<Rightarrow> ''''
    | Some a \<Rightarrow> (case br_current (bo_heap b ! a) of None \<Rightarrow> '''' | Some t \<Rightarrow> bm_key (bt_model t)))"

definition BenchesInFlight :: "orchestrator \<Rightarrow> benches" where
  "BenchesInFlight b = sort_key fst (List.map_filter (\<lambda>(w, a). case br_current (bo_heap b ! a) of
      None \<Rightarrow> None
    | Some t \<Rightarrow> Some (br_worker (bo_heap b ! a), \<lparr> rb_model_key = bm_key (bt_model t), rb_runtime = bt_runtime t \<rparr>))
     (bo_runners b))"

subsection \<open>The dispatch gate\<close>

definition streamWorker :: "worker_id \<Rightarrow> sched \<Rightarrow> stream_worker option" where
  "streamWorker w s = (case Get_worker w (sc_fleet s) of
      None \<Rightarrow> None | Some sw \<Rightarrow> if w_online sw then Some sw else None)"

definition benchGateHeld :: "worker_id \<Rightarrow> sched \<Rightarrow> bool" where
  "benchGateHeld w s \<longleftrightarrow> w \<in> set (sc_gated s)"

definition release_gate :: "worker_id \<Rightarrow> sched \<Rightarrow> sched" where
  "release_gate w s = kick (s\<lparr>sc_gated := removeAll w (sc_gated s)\<rparr>)"

text \<open>\<open>holdBenchGate\<close> raises the gate, then polls: \<open>cancelled\<close> is whether its context has ended.\<close>

definition raise_gate :: "worker_id \<Rightarrow> sched \<Rightarrow> bool \<times> sched" where
  "raise_gate w s =
     (if w \<in> set (sc_gated s) then (False, s) else (True, s\<lparr>sc_gated := w # sc_gated s\<rparr>))"

datatype gate = GateQuiet | GateWaits | GateLost

definition gate_poll :: "worker_id \<Rightarrow> bool \<Rightarrow> sched \<Rightarrow> gate \<times> sched" where
  "gate_poll w cancelled s =
     (if inflightCountForWorker w s = 0 then (GateQuiet, s)
      else if cancelled \<or> streamWorker w s = None then (GateLost, release_gate w s)
      else (GateWaits, s))"

subsection \<open>Measuring\<close>

definition modelFileIdentity :: "model_id \<Rightarrow> sched \<Rightarrow> int \<times> int" where
  "modelFileIdentity key s =
     (if sc_models_dir s = '''' \<or> key = '''' then (0, 0)
      else case sc_stat s (sc_models_dir s) key of None \<Rightarrow> (0, 0) | Some (sz, mtime) \<Rightarrow> (sz, mtime))"

definition bench_row_of :: "worker_id \<Rightarrow> bench_task \<Rightarrow> sched \<Rightarrow> model_benchmark" where
  "bench_row_of w t s =
     (let (sz, mtime) = modelFileIdentity (bm_key (bt_model t)) s
      in \<lparr> mb_worker_id = w, mb_device_set = bt_devset t, mb_model_id = bm_key (bt_model t), mb_units_per_sec = 0,
           mb_graph_secs = 0, mb_base_bytes = 0, mb_per_slot_bytes = 0, mb_model_size = sz, mb_model_mtime = mtime,
           mb_error = '''', mb_created = 0, mb_updated = 0 \<rparr>)"

definition recordMeasurement :: "bench_task \<Rightarrow> worker_id \<Rightarrow> rat \<Rightarrow> model_bench_result \<Rightarrow> sched \<Rightarrow> sched" where
  "recordMeasurement t w cost res s =
     (if \<not> sc_initialised s then s
      else case SaveModelBenchmark ((bench_row_of w t s)\<lparr>mb_units_per_sec := cost / mr_elapsed res,
             mb_graph_secs := mr_graph res, mb_base_bytes := mr_base_bytes res,
             mb_per_slot_bytes := mr_per_slot_bytes res\<rparr>) s of
        (Inl _, s) \<Rightarrow> s
      | (Inr _, s) \<Rightarrow> kick (InvalidateModelBenchmarks w s))"

definition recordIncapable :: "bench_task \<Rightarrow> worker_id \<Rightarrow> string \<Rightarrow> sched \<Rightarrow> sched" where
  "recordIncapable t w cause s =
     (if \<not> sc_initialised s then s
      else case SaveModelBenchmarkError ((bench_row_of w t s)\<lparr>mb_error := cause\<rparr>) s of
        (Inl _, s) \<Rightarrow> s
      | (Inr _, s) \<Rightarrow> kick (InvalidateModelBenchmarks w s))"

definition retryOrRecord :: "nat \<Rightarrow> bench_task \<Rightarrow> string \<Rightarrow> orchestrator \<times> sched \<Rightarrow> orchestrator \<times> sched" where
  "retryOrRecord a t cause = (\<lambda>(b, s).
     let t = t\<lparr>bt_attempts := bt_attempts t + 1\<rparr> in
     if bt_attempts t \<ge> benchMaxAttempts
     then (b, recordIncapable t (br_worker (bo_heap b ! a))
            (decimal (bt_attempts t) @ '' benchmark attempts failed: '' @ cause) s)
     else let delay = benchBackoff ! (min (bt_attempts t - 1) (length benchBackoff - 1))
          in (update_runner a (runner_requeue t delay (clock s)) b, s))"

definition clearDeviceSet :: "(worker_id \<Rightarrow> model_id \<Rightarrow> bool) \<Rightarrow> stream_worker \<Rightarrow> sched \<Rightarrow> bool \<times> sched" where
  "clearDeviceSet unload sw s =
     (let blockers = residentsBlockingLoad sw '''' (predictDeviceSet sw s) in
      if list_ex (\<lambda>lm. lm_active lm > 0 \<or> workerHasInflightForModel (w_id sw) (lm_model_id lm) s) blockers then (False, s)
      else fold (\<lambda>lm (ok, s). if \<not> ok then (ok, s)
             else case EvictModel unload (w_runtime sw) (lm_model_id lm) (w_id sw) s of (n, s) \<Rightarrow> (n \<noteq> 0, s))
           blockers (True, s))"

text \<open>The worker's reply to a benchmark request, or the end of the context while waiting for it.\<close>

datatype bench_reply = Refused model_bench_error | BenchCancelled | Measured model_bench_result

text \<open>\<open>runOne\<close>, first part: the worker must be online and the gateway's author wired.\<close>

definition runOne_start :: "nat \<Rightarrow> orchestrator \<Rightarrow> sched \<Rightarrow> stream_worker option" where
  "runOne_start a b s = (case streamWorker (br_worker (bo_heap b ! a)) s of
      None \<Rightarrow> None | Some sw \<Rightarrow> if bo_author b then Some sw else None)"

text \<open>Second part: what the author answered. Only \<open>Some\<close> goes on to the gate.\<close>

definition runOne_authored :: "(rat \<Rightarrow> string) \<Rightarrow> nat \<Rightarrow> bench_task \<Rightarrow> author_error + bench_payload
    \<Rightarrow> orchestrator \<times> sched \<Rightarrow> bench_payload option \<times> orchestrator \<times> sched" where
  "runOne_authored show_float a t answer = (\<lambda>(b, s). case answer of
      Inl ErrBenchModelGone \<Rightarrow> (None, update_runner a (runner_requeue t (benchBackoff ! 0) (clock s)) b, s)
    | Inl (AuthorFailed err) \<Rightarrow> (None, retryOrRecord a t err (b, s))
    | Inr p \<Rightarrow>
        if bp_cost p \<le> 0
        then (None, b, recordIncapable t (br_worker (bo_heap b ! a))
               (''gateway authored a bench payload with cost '' @ show_float (bp_cost p)) s)
        else (Some p, b, s))"

text \<open>Third part, once the gate is held and the worker quiet: the residents go, or the task comes back.\<close>

definition runOne_cleared :: "(worker_id \<Rightarrow> model_id \<Rightarrow> bool) \<Rightarrow> stream_worker \<Rightarrow> nat \<Rightarrow> bench_task
    \<Rightarrow> orchestrator \<times> sched \<Rightarrow> bool \<times> orchestrator \<times> sched" where
  "runOne_cleared unload sw a t = (\<lambda>(b, s). case clearDeviceSet unload sw s of
      (True, s) \<Rightarrow> (True, b, s)
    | (False, s) \<Rightarrow> (False, update_runner a (runner_requeue t (benchBackoff ! 0) (clock s)) b,
        release_gate (w_id sw) s))"

text \<open>Fourth part: the worker's reply. The deferred release of the gate runs last.\<close>

definition runOne_replied :: "(rat \<Rightarrow> string) \<Rightarrow> stream_worker \<Rightarrow> nat \<Rightarrow> bench_task \<Rightarrow> rat \<Rightarrow> bench_reply
    \<Rightarrow> orchestrator \<times> sched \<Rightarrow> orchestrator \<times> sched" where
  "runOne_replied show_float sw a t cost reply = (\<lambda>(b, s).
     let w = br_worker (bo_heap b ! a);
         (b, s) = (case reply of
             Refused (ErrBenchIncapable err) \<Rightarrow> (b, recordIncapable t w err s)
           | Refused BenchOffline \<Rightarrow> (b, s)
           | BenchCancelled \<Rightarrow> (b, s)
           | Refused (ErrBenchTransient err) \<Rightarrow> retryOrRecord a t err (b, s)
           | Measured res \<Rightarrow>
               if mr_elapsed res \<le> 0
               then retryOrRecord a t (''worker reported elapsed_secs '' @ show_float (mr_elapsed res)) (b, s)
               else (b, recordMeasurement t w cost res s))
     in (b, release_gate (w_id sw) s))"

text \<open>Around \<open>runOne\<close>, the loop \<open>run\<close> announces a measurement when it starts and when it ends.\<close>

definition run_pop :: "nat \<Rightarrow> orchestrator \<times> sched \<Rightarrow> bench_task option \<times> orchestrator \<times> sched" where
  "run_pop a = (\<lambda>(b, s). case runner_next (clock s) (bo_heap b ! a) of
     ((t, wait, some), r) \<Rightarrow> (t, update_runner a (\<lambda>_. r) b,
       case t of None \<Rightarrow> s | Some _ \<Rightarrow> broadcastQueueChange s))"

definition run_done :: "nat \<Rightarrow> orchestrator \<times> sched \<Rightarrow> orchestrator \<times> sched" where
  "run_done a = (\<lambda>(b, s). (update_runner a runner_finish b, broadcastQueueChange s))"

subsection \<open>Benchmarks leave the jobs alone\<close>

lemma delete_benches_core:
  "core_same s (snd (DeleteModelBenchmarksByModel key s))" "core_same s (snd (DeleteModelBenchmarksByWorker w s))"
  by (auto simp: core_same_def proper_def DeleteModelBenchmarksByModel_def DeleteModelBenchmarksByWorker_def stx_def Let_def)

lemma record_core [simp]:
  "core_same s (recordMeasurement t w cost res s)" "core_same s (recordIncapable t w cause s)"
  by (auto simp: recordMeasurement_def recordIncapable_def core_same_def proper_def SaveModelBenchmark_def
      SaveModelBenchmarkError_def upsertModelBenchmark_def stx_def Let_def kick_def InvalidateModelBenchmarks_def
      split: option.splits)

lemma clearDeviceSet_core: "core_same s (snd (clearDeviceSet unload sw s))"
proof -
  have "core_same s (snd (fold (\<lambda>lm (ok, s). if \<not> ok then (ok, s)
      else case EvictModel unload (w_runtime sw) (lm_model_id lm) (w_id sw) s of (n, s) \<Rightarrow> (n \<noteq> 0, s)) lms (ok, s)))" for lms ok s
  proof (induction lms arbitrary: ok s)
    case (Cons lm lms)
    obtain n s1 where e: "EvictModel unload (w_runtime sw) (lm_model_id lm) (w_id sw) s = (n, s1)" by fastforce
    have "core_same s s1" using EvictModel_core [of s unload "w_runtime sw" "lm_model_id lm" "w_id sw"] by (simp add: e)
    with Cons.IH [where ok = "n \<noteq> 0" and s = s1] Cons.IH [where ok = False and s = s]
    show ?case by (auto simp: e intro: core_same_trans)
  qed simp
  note f = this
  show ?thesis
    unfolding clearDeviceSet_def Let_def by (simp only: f snd_conv core_same_refl split: if_split) simp
qed

subsection \<open>The next task\<close>

lemma next_loop_cases:
  "case next_loop now pre ts soonest of
     Inl (t, rest) \<Rightarrow> \<exists>xs ys. ts = xs @ t # ys \<and> rest = pre @ xs @ ys \<and> task_due now t \<and> (\<forall>x \<in> set xs. \<not> task_due now x)
   | Inr d \<Rightarrow> (\<forall>x \<in> set ts. \<not> task_due now x)
       \<and> (ts \<noteq> [] \<and> (soonest < 0 \<or> 0 < soonest) \<longrightarrow> 0 < d
           \<and> (\<forall>x \<in> set ts. \<forall>ready. bt_ready x = Some ready \<longrightarrow> now + d \<le> ready)
           \<and> (d = soonest \<or> (\<exists>x \<in> set ts. bt_ready x = Some (now + d))) \<and> (0 < soonest \<longrightarrow> d \<le> soonest))
       \<and> (ts = [] \<longrightarrow> d = soonest)"
proof (induction ts arbitrary: pre soonest)
  case (Cons t ts)
  show ?case
  proof (cases "task_due now t")
    case True
    then show ?thesis by simp (metis append_Nil empty_iff list.set(1))
  next
    case False
    then obtain ready where ready: "bt_ready t = Some ready" "now < ready"
      by (auto simp: task_due_def split: option.splits)
    define d where "d = (if soonest < 0 \<or> ready - now < soonest then ready - now else soonest)"
    have e: "next_loop now pre (t # ts) soonest = next_loop now (pre @ [t]) ts d"
      using False by (simp add: ready d_def Let_def)
    show ?thesis
    proof (cases "next_loop now (pre @ [t]) ts d")
      case (Inl p)
      then obtain u rest where p: "p = (u, rest)" by (cases p) simp
      with Inl Cons.IH [of "pre @ [t]" d] obtain xs ys where "ts = xs @ u # ys" "rest = pre @ [t] @ xs @ ys"
        "task_due now u" "\<forall>x \<in> set xs. \<not> task_due now x" by auto
      then have "t # ts = (t # xs) @ u # ys \<and> rest = pre @ (t # xs) @ ys \<and> task_due now u
          \<and> (\<forall>x \<in> set (t # xs). \<not> task_due now x)"
        using False by simp
      then show ?thesis unfolding e Inl p sum.case prod.case by blast
    next
      case (Inr k)
      note IH = Cons.IH [of "pre @ [t]" d, unfolded Inr sum.case]
      show ?thesis
      proof (cases "ts = []")
        case True
        with IH False ready show ?thesis unfolding e Inr by (auto simp: d_def split: if_splits)
      next
        case False
        have "0 < d" if "soonest < 0 \<or> 0 < soonest" using that ready by (auto simp: d_def)
        with IH False \<open>\<not> task_due now t\<close> ready show ?thesis
          unfolding e Inr by (auto simp: d_def split: if_splits)
      qed
    qed
  qed
qed simp

text \<open>The runner takes the earliest task that is due, and otherwise sleeps exactly until one is. It never
  reorders the others, and it never sleeps past the time a deferred task becomes ready.\<close>

theorem runner_next_due:
  "case runner_next now r of
     ((Some t, _, _), r') \<Rightarrow> \<exists>xs ys. br_queue r = xs @ t # ys \<and> br_queue r' = xs @ ys \<and> br_current r' = Some t
        \<and> task_due now t \<and> (\<forall>x \<in> set xs. \<not> task_due now x)
   | ((None, wait, some), r') \<Rightarrow> r' = r \<and> (some \<longleftrightarrow> br_queue r \<noteq> [])
        \<and> (some \<longrightarrow> 0 < wait \<and> (\<forall>x \<in> set (br_queue r). \<not> task_due now x \<and> \<not> task_due (now + wait - 1) x)
             \<and> (\<exists>x \<in> set (br_queue r). task_due (now + wait) x))"
proof (cases "br_queue r = []")
  case True
  then show ?thesis by (simp add: runner_next_def)
next
  case False
  note L = next_loop_cases [where now = now and pre = "[]" and ts = "br_queue r" and soonest = "- 1"]
  show ?thesis
  proof (cases "next_loop now [] (br_queue r) (- 1)")
    case (Inl p)
    then obtain t rest where "p = (t, rest)" by (cases p) simp
    with Inl L False show ?thesis by (auto simp: runner_next_def)
  next
    case (Inr d)
    with L False have d: "\<forall>x \<in> set (br_queue r). \<not> task_due now x" "0 < d"
      "\<forall>x \<in> set (br_queue r). \<forall>ready. bt_ready x = Some ready \<longrightarrow> now + d \<le> ready"
      "\<exists>x \<in> set (br_queue r). bt_ready x = Some (now + d)" by auto
    have "\<not> task_due (now + d - 1) x" if "x \<in> set (br_queue r)" for x
      using d(1,3) that by (fastforce simp: task_due_def split: option.splits)
    moreover have "\<exists>x \<in> set (br_queue r). task_due (now + d) x"
      using d(4) by (force simp: task_due_def)
    ultimately show ?thesis using Inr False d by (simp add: runner_next_def)
  qed
qed

definition later_task :: bench_task where
  "later_task = \<lparr> bt_model = \<lparr> bm_id = ''m'', bm_key = ''f.gguf'' \<rparr>, bt_runtime = ''rt'', bt_devset = ''gpu0'',
     bt_attempts = 1, bt_ready = Some 30000 \<rparr>"

definition fresh_task :: bench_task where
  "fresh_task = later_task\<lparr>bt_devset := ''gpu1'', bt_attempts := 0, bt_ready := None\<rparr>"

theorem runner_next_due_witness:
  "fst (runner_next 10 \<lparr> br_worker = ''a'', br_queue = [later_task], br_current = None, br_wake = False, br_stop = False \<rparr>)
     = (None, 29990, True)
   \<and> task_due (10 + 29990) later_task"
proof -
  let ?r = "\<lparr> br_worker = ''a'', br_queue = [later_task], br_current = None, br_wake = False, br_stop = False \<rparr>"
  have e: "runner_next 10 ?r = ((None, 29990, True), ?r)"
    by (simp add: runner_next_def task_due_def later_task_def)
  from runner_next_due [where now = 10 and r = ?r] show ?thesis unfolding e by simp
qed

subsection \<open>Every question is asked once\<close>

definition bench_id :: "bench_task \<Rightarrow> model_id \<times> string" where
  "bench_id t = (bm_key (bt_model t), bt_devset t)"

definition runner_ok :: "bench_runner \<Rightarrow> bool" where
  "runner_ok r \<longleftrightarrow> distinct (map bench_id (br_queue r))
     \<and> (\<forall>t \<in> set (br_queue r) \<union> set_option (br_current r). bt_attempts t < benchMaxAttempts)
     \<and> (\<forall>t. br_current r = Some t \<longrightarrow> bench_id t \<notin> bench_id ` set (br_queue r))"

definition bench_ok :: "orchestrator \<Rightarrow> bool" where
  "bench_ok b \<longleftrightarrow> distinct (keys (bo_runners b))
     \<and> (\<forall>(w, a) \<in> set (bo_runners b). a < length (bo_heap b) \<and> br_worker (bo_heap b ! a) = w)
     \<and> (\<forall>r \<in> set (bo_heap b). runner_ok r)"

text \<open>What the orchestrator's goroutines and triggers do, in any order. A goroutine works on the task it made
  current; the scheduler's state changes freely in between.\<close>

inductive bench_step :: "orchestrator \<times> sched \<Rightarrow> orchestrator \<times> sched \<Rightarrow> bool" where
  scheduler_moves: "bench_step (b, s) (b, s')"
| providers: "bench_step (b, s) (SetBenchProviders m au b, s)"
| start: "bench_step (b, s) (StartBenchOrchestrator cat (b, s))"
| sweep: "bench_step (b, s) (sweepWorker w cat (b, s))"
| downloaded: "bench_step (b, s) (OnModelDownloaded rt path cat (b, s))"
| rebench: "bench_step (b, s) (snd (RebenchModel rt key cat (b, s)))"
| removed: "bench_step (b, s) (OnModelRemoved paths (b, s))"
| stop_worker: "bench_step (b, s) (stopWorker w b, s)"
| stop_all: "bench_step (b, s) (stopAll b, s)"
| pop: "bench_step (b, s) (snd (run_pop a (b, s)))" if "a < length (bo_heap b)" "br_current (bo_heap b ! a) = None"
| ended: "bench_step (b, s) (run_done a (b, s'))" if "a < length (bo_heap b)"
| author_ends: "bench_step (b, s) (run_done a bs)"
    if "a < length (bo_heap b)" "br_current (bo_heap b ! a) = Some t" "runOne_authored show_float a t answer (b, s) = (None, bs)"
| not_cleared: "bench_step (b, s) (run_done a bs)"
    if "a < length (bo_heap b)" "br_current (bo_heap b ! a) = Some t" "runOne_cleared unload sw a t (b, s) = (False, bs)"
| replied: "bench_step (b, s) (run_done a (runOne_replied show_float sw a t cost reply (b, s)))"
    if "a < length (bo_heap b)" "br_current (bo_heap b ! a) = Some t"

lemma update_runner_ok:
  assumes "bench_ok b" "\<And>r. runner_ok r \<Longrightarrow> r \<in> set (bo_heap b) \<Longrightarrow> runner_ok (f r)" "\<And>r. br_worker (f r) = br_worker r"
  shows "bench_ok (update_runner a f b)"
proof (cases "a < length (bo_heap b)")
  case True
  have "runner_ok r" if "r \<in> set ((bo_heap b)[a := f (bo_heap b ! a)])" for r
    using set_update_subset_insert [of "bo_heap b" a "f (bo_heap b ! a)"] that assms(1,2) nth_mem [OF True]
    by (auto simp: bench_ok_def)
  moreover have "br_worker ((bo_heap b)[a := f (bo_heap b ! a)] ! k) = br_worker (bo_heap b ! k)"
    if "k < length (bo_heap b)" for k
    using that by (cases "k = a") (simp_all add: assms(3))
  ultimately show ?thesis using assms(1) by (auto simp: bench_ok_def update_runner_def)
next
  case False
  with assms(1) show ?thesis by (simp add: update_runner_def list_update_beyond bench_ok_def)
qed

lemma put_task_ok: "runner_ok r \<Longrightarrow> runner_ok (put_task w m ds r)"
  by (auto simp: runner_ok_def put_task_def runner_kick_def bench_id_def same_bench_def list_ex_iff benchMaxAttempts_def
      split: option.splits)

lemma put_task_worker [simp]: "br_worker (put_task w m ds r) = br_worker r"
  by (simp add: put_task_def runner_kick_def Let_def)

lemma find_runner_ok:
  assumes "bench_ok b" shows "bench_ok (snd (find_runner w b))"
proof (cases "map_of (bo_runners b) w")
  case None
  then have "w \<notin> set (keys (bo_runners b))" by (simp add: map_of_eq_None_iff)
  with assms None show ?thesis
    by (auto simp: find_runner_def bench_ok_def AList_update_fresh nth_append runner_ok_def Let_def)
qed (use assms in \<open>simp add: find_runner_def\<close>)

lemma enqueue_ok: assumes "bench_ok b" shows "bench_ok (enqueue w m ds b)"
proof -
  obtain a b' where f: "find_runner (w_id w) b = (a, b')" by fastforce
  have "bench_ok b'" using find_runner_ok [OF assms, of "w_id w"] by (simp add: f)
  then have "bench_ok (update_runner a (put_task w m ds) b')"
    by (rule update_runner_ok) (simp_all add: put_task_ok)
  with assms f show ?thesis by (simp add: enqueue_def)
qed

lemma enqueueIfMissing_ok: "bench_ok b \<Longrightarrow> bench_ok (fst (enqueueIfMissing w m (b, s)))"
  by (simp add: enqueueIfMissing_def enqueue_ok Let_def split: prod.split)

lemma fold_bench_ok:
  assumes "bench_ok (fst bs)" "\<And>x bs. bench_ok (fst bs) \<Longrightarrow> bench_ok (fst (f x bs))"
  shows "bench_ok (fst (fold f xs bs))"
  using assms(1) by (induction xs arbitrary: bs) (simp_all add: assms(2))

lemma enqueueIfMissing_pair_ok: "bench_ok (fst bs) \<Longrightarrow> bench_ok (fst (enqueueIfMissing w m bs))"
  by (cases bs) (simp add: enqueueIfMissing_ok)

lemma sweepWorker_ok: "bench_ok (fst bs) \<Longrightarrow> bench_ok (fst (sweepWorker w cat bs))"
  by (cases bs) (simp add: sweepWorker_def fold_bench_ok enqueueIfMissing_pair_ok split: sum.split)

lemma StartBenchOrchestrator_ok: "bench_ok b \<Longrightarrow> bench_ok (fst (StartBenchOrchestrator cat (b, s)))"
  unfolding StartBenchOrchestrator_def prod.case
  by (rule fold_bench_ok) (simp_all add: sweepWorker_ok bench_ok_def [of "bo_started_update _ _"] bench_ok_def [of b])

lemma fold_ok:
  assumes "bench_ok b" "\<And>x b. bench_ok b \<Longrightarrow> bench_ok (f x b)"
  shows "bench_ok (fold f xs b)"
  using assms(1) by (induction xs arbitrary: b) (simp_all add: assms(2))

lemma queueModelEverywhere_ok: "bench_ok b \<Longrightarrow> bench_ok (fst (queueModelEverywhere rt key cat (b, s)))"
  by (auto simp: queueModelEverywhere_def Let_def enqueue_ok split: sum.split intro!: fold_ok)

lemma queueModelsMatching_ok: "bench_ok b \<Longrightarrow> bench_ok (fst (queueModelsMatching rt path cat (b, s)))"
  by (auto simp: queueModelsMatching_def enqueueIfMissing_pair_ok split: sum.split intro!: fold_bench_ok)

lemma OnModelDownloaded_ok: "bench_ok b \<Longrightarrow> bench_ok (fst (OnModelDownloaded rt path cat (b, s)))"
  by (simp add: OnModelDownloaded_def queueModelsMatching_ok)

lemma RebenchModel_ok: "bench_ok b \<Longrightarrow> bench_ok (fst (snd (RebenchModel rt key cat (b, s))))"
  by (auto simp: RebenchModel_def queueModelEverywhere_ok split: prod.split sum.split)

lemma runner_ok_filter: "runner_ok r \<Longrightarrow> runner_ok (r\<lparr>br_queue := filter P (br_queue r)\<rparr>)"
  by (auto simp: runner_ok_def distinct_map_filter)

lemma cancelModel_ok: "bench_ok b \<Longrightarrow> bench_ok (cancelModel key b)"
  unfolding cancelModel_def by (rule fold_ok) (auto intro!: update_runner_ok runner_ok_filter)

lemma OnModelRemoved_ok: assumes "bench_ok b" shows "bench_ok (fst (OnModelRemoved paths (b, s)))"
proof -
  have "bench_ok (fst (fold forget_model paths (b, s)))"
    by (rule fold_bench_ok) (auto simp: assms cancelModel_ok forget_model_def)
  then show ?thesis by (auto simp: OnModelRemoved_def Let_def split: prod.split)
qed

lemma stopWorker_ok: assumes "bench_ok b" shows "bench_ok (stopWorker w b)"
proof -
  have "bench_ok (b\<lparr>bo_runners := AList.delete w (bo_runners b)\<rparr>)"
    using assms by (auto simp: bench_ok_def distinct_delete set_AList_delete)
  then have "bench_ok (update_runner a runner_shutdown (b\<lparr>bo_runners := AList.delete w (bo_runners b)\<rparr>))" for a
    by (rule update_runner_ok) (simp_all add: runner_shutdown_def runner_ok_def)
  with assms show ?thesis by (simp add: stopWorker_def split: option.split)
qed

lemma stopAll_ok: assumes "bench_ok b" shows "bench_ok (stopAll b)"
  unfolding stopAll_def
  by (rule fold_ok) (use assms in \<open>auto simp: bench_ok_def [of "bo_runners_update _ _"] bench_ok_def [of b]
        runner_shutdown_def runner_ok_def intro!: update_runner_ok\<close>)

lemma run_pop_ok:
  assumes "bench_ok b" "a < length (bo_heap b)" "br_current (bo_heap b ! a) = None"
  shows "bench_ok (fst (snd (run_pop a (b, s))))"
proof -
  let ?r = "bo_heap b ! a"
  have r: "runner_ok ?r" using assms(1,2) by (simp add: bench_ok_def)
  obtain t wait some r' where n: "runner_next (clock s) ?r = ((t, wait, some), r')" by (metis prod_cases3 surj_pair)
  have w: "br_worker r' = br_worker ?r"
    using n by (auto simp: runner_next_def split: if_splits sum.splits prod.splits)
  have "runner_ok r'"
  proof (cases t)
    case None
    with n show ?thesis using r by (auto simp: runner_next_def split: if_splits sum.splits prod.splits)
  next
    case (Some u)
    with n have e: "next_loop (clock s) [] (br_queue ?r) (- 1) = Inl (u, br_queue r')" "br_current r' = Some u"
      by (auto simp: runner_next_def split: if_splits sum.splits prod.splits)
    with next_loop_cases [where now = "clock s" and pre = "[]" and ts = "br_queue ?r" and soonest = "- 1"]
    obtain xs ys where "br_queue ?r = xs @ u # ys" "br_queue r' = xs @ ys" by auto
    with r e show ?thesis by (auto simp: runner_ok_def)
  qed
  moreover have "\<exists>r. runner_ok r \<and> br_worker r = x" for x
    by (rule exI [of _ "\<lparr> br_worker = x, br_queue = [], br_current = None, br_wake = False, br_stop = False \<rparr>"])
      (simp add: runner_ok_def)
  ultimately show ?thesis
    using assms w by (auto simp: run_pop_def n bench_ok_def update_runner_def nth_list_update
        dest!: set_update_subset_insert [THEN subsetD])
qed

text \<open>At the end of a turn the runner either keeps its queue, or gets back the task it was working on with at most
  one more attempt.\<close>

lemma run_done_ok:
  assumes "bench_ok b" shows "bench_ok (fst (run_done a (b, s)))"
  using update_runner_ok [OF assms, of runner_finish a] by (simp add: run_done_def runner_finish_def runner_ok_def)

lemma requeue_ok:
  assumes "bench_ok b" "a < length (bo_heap b)" "br_current (bo_heap b ! a) = Some t"
    "bench_id t' = bench_id t" "bt_attempts t' < benchMaxAttempts"
  shows "bench_ok (fst (run_done a (update_runner a (runner_requeue t' d now) b, s)))"
proof -
  let ?r = "bo_heap b ! a"
  have r: "runner_ok ?r" using assms(1,2) by (simp add: bench_ok_def)
  have e: "fst (run_done a (update_runner a (runner_requeue t' d now) b, s))
      = b\<lparr>bo_heap := (bo_heap b)[a := runner_finish (runner_requeue t' d now ?r)]\<rparr>"
    using assms(2) by (simp add: run_done_def update_runner_def)
  have "runner_ok (runner_finish (runner_requeue t' d now ?r))"
    using r assms(3-) by (auto simp: runner_ok_def runner_finish_def runner_requeue_def runner_kick_def bench_id_def)
  moreover have "br_worker (runner_finish (runner_requeue t' d now ?r)) = br_worker ?r"
    by (simp add: runner_finish_def runner_requeue_def runner_kick_def)
  ultimately show ?thesis
    using assms(1,2) unfolding e by (auto simp: bench_ok_def nth_list_update dest!: set_update_subset_insert [THEN subsetD])
qed

lemma retryOrRecord_ok:
  assumes "bench_ok b" "a < length (bo_heap b)" "br_current (bo_heap b ! a) = Some t"
  shows "bench_ok (fst (run_done a (retryOrRecord a t cause (b, s))))"
  using requeue_ok [OF assms, of "t\<lparr>bt_attempts := bt_attempts t + 1\<rparr>"]
    run_done_ok [OF assms(1)]
  by (simp add: retryOrRecord_def Let_def bench_id_def)

lemma run_done_state: "fst (run_done a (b, s)) = fst (run_done a (b, s'))"
  by (simp add: run_done_def)

lemma current_attempts: "\<lbrakk>bench_ok b; a < length (bo_heap b); br_current (bo_heap b ! a) = Some t\<rbrakk> \<Longrightarrow> bt_attempts t < benchMaxAttempts"
  by (auto simp: bench_ok_def runner_ok_def)

lemma author_ends_ok:
  assumes "bench_ok b" "a < length (bo_heap b)" "br_current (bo_heap b ! a) = Some t"
    "runOne_authored show_float a t answer (b, s) = (None, bs)"
  shows "bench_ok (fst (run_done a bs))"
proof -
  have bs: "bs = snd (runOne_authored show_float a t answer (b, s))" by (simp add: assms(4))
  consider "answer = Inl ErrBenchModelGone" | err where "answer = Inl (AuthorFailed err)" | p where "answer = Inr p"
    by (metis author_error.exhaust sum.exhaust_sel)
  then show ?thesis
  proof cases
    case 1
    with requeue_ok [OF assms(1-3) refl current_attempts [OF assms(1-3)]] show ?thesis by (simp add: bs runOne_authored_def)
  next
    case 2
    with retryOrRecord_ok [OF assms(1-3)] show ?thesis by (simp add: bs runOne_authored_def)
  next
    case 3
    with run_done_ok [OF assms(1)] show ?thesis by (simp add: bs runOne_authored_def)
  qed
qed

lemma replied_ok:
  assumes "bench_ok b" "a < length (bo_heap b)" "br_current (bo_heap b ! a) = Some t"
  shows "bench_ok (fst (run_done a (runOne_replied show_float sw a t cost reply (b, s))))"
proof -
  have *: "fst (run_done a (runOne_replied show_float sw a t cost reply (b, s))) = fst (run_done a (b, s))
    \<or> (\<exists>cause. fst (run_done a (runOne_replied show_float sw a t cost reply (b, s)))
          = fst (run_done a (retryOrRecord a t cause (b, s))))"
    by (auto simp: runOne_replied_def Let_def run_done_def split: bench_reply.split model_bench_error.split prod.split)
      (metis fst_conv)+
  with run_done_ok [OF assms(1)] retryOrRecord_ok [OF assms] show ?thesis by metis
qed

lemma bench_step_ok:
  assumes "bench_step bs bs'" "bench_ok (fst bs)"
  shows "bench_ok (fst bs')"
  using assms
proof induction
  case (providers b s m au)
  then show ?case by (simp add: SetBenchProviders_def bench_ok_def)
next
  case (not_cleared a b t unload sw s bs)
  note ok = not_cleared(4)
  from not_cleared obtain s1 where "bs = (update_runner a (runner_requeue t (benchBackoff ! 0) (clock s1)) b, release_gate (w_id sw) s1)"
    by (auto simp: runOne_cleared_def split: prod.splits bool.splits)
  with requeue_ok [of b a t t, OF _ not_cleared(1,2) refl] ok not_cleared(1,2) current_attempts [of b a t]
  show ?case by simp
qed (simp_all add: StartBenchOrchestrator_ok sweepWorker_ok OnModelDownloaded_ok RebenchModel_ok OnModelRemoved_ok
    stopWorker_ok stopAll_ok run_pop_ok run_done_ok author_ends_ok replied_ok)

text \<open>C16. Whatever arrives in whatever order, no runner holds the same question twice, be it queued or being
  measured, no task survives its third failed attempt, and each worker has one runner.\<close>

theorem bench_questions_once:
  assumes "bench_step\<^sup>*\<^sup>* (newBenchOrchestrator, s0) (b, s)" "map_of (bo_runners b) w = Some a"
  shows "a < length (bo_heap b) \<and> br_worker (bo_heap b ! a) = w
    \<and> distinct (map bench_id ((case br_current (bo_heap b ! a) of None \<Rightarrow> [] | Some t \<Rightarrow> [t]) @ br_queue (bo_heap b ! a)))
    \<and> (\<forall>t \<in> set (br_queue (bo_heap b ! a)). bt_attempts t < benchMaxAttempts)"
proof -
  have "bench_ok newBenchOrchestrator" by (simp add: newBenchOrchestrator_def bench_ok_def)
  note new = this
  have "bench_ok (fst bs)" if "bench_step\<^sup>*\<^sup>* (newBenchOrchestrator, s0) bs" for bs
    using that by (induction rule: rtranclp_induct) (simp_all add: new bench_step_ok)
  from this [OF assms(1)] have ok: "bench_ok b" by simp
  have m: "(w, a) \<in> set (bo_runners b)" using assms(2) by (rule map_of_SomeD)
  with ok have "runner_ok (bo_heap b ! a)" "a < length (bo_heap b) \<and> br_worker (bo_heap b ! a) = w"
    by (auto simp: bench_ok_def)
  then show ?thesis by (auto simp: runner_ok_def split: option.split)
qed

subsection \<open>The verdict\<close>

text \<open>A saved row is what the next lookup answers, and no other answer changes.\<close>

definition answers :: "worker_id \<Rightarrow> string \<Rightarrow> model_id \<Rightarrow> model_benchmark \<times> bool \<Rightarrow> sched \<Rightarrow> sched \<Rightarrow> bool" where
  "answers w ds k e s s' \<longleftrightarrow> coherent s' \<and> model_truth w ds k s' = e
     \<and> (\<forall>w' ds' k'. (w', ds', k') \<noteq> (w, ds, k) \<longrightarrow> model_truth w' ds' k' s' = model_truth w' ds' k' s)"

lemma answers_same: "coherent s \<Longrightarrow> answers w ds k (model_truth w ds k s) s s" by (simp add: answers_def)

lemma upserted:
  assumes "coherent s"
  obtains now created s' where "upsertModelBenchmark r s = (Inr (), s')"
    "model_benches s' = AList.update (mb_key r) (r\<lparr>mb_created := created, mb_updated := now\<rparr>) (model_benches s)"
    "s' = s\<lparr>model_benches := model_benches s'\<rparr>"
proof -
  have "state_faults s = []" "s\<lparr>state_faults := []\<rparr> = s" using assms by (simp_all add: coherent_def)
  then show thesis by (intro that) (simp add: upsertModelBenchmark_def stx_def Let_def, simp_all)
qed

lemma map_of_filter_worker:
  "map_of (filter (\<lambda>((w', c), e). w' \<noteq> w) m) (v, c) = (if v = w then None else map_of m (v, c))"
  by (induction m) auto

lemma saved_answers:
  assumes co: "coherent s" and r: "mb_key r = (w, ds, k)" and up: "upsertModelBenchmark r s = (Inr (), s1)"
  shows "\<exists>now created. answers w ds k (r\<lparr>mb_created := created, mb_updated := now\<rparr>, mb_error r = '''' \<and> mb_units_per_sec r > 0) s
      (kick (InvalidateModelBenchmarks w s1))"
proof -
  obtain now created where s1: "s1 = s\<lparr>model_benches :=
      AList.update (mb_key r) (r\<lparr>mb_created := created, mb_updated := now\<rparr>) (model_benches s)\<rparr>"
    using upserted [OF co, of r] up by (metis prod.inject)
  let ?s = "kick (InvalidateModelBenchmarks w s1)"
  have t: "model_truth w' ds' k' ?s = (if (w', ds', k') = (w, ds, k)
      then (r\<lparr>mb_created := created, mb_updated := now\<rparr>, mb_error r = '''' \<and> mb_units_per_sec r > 0)
      else model_truth w' ds' k' s)" for w' ds' k'
    by (simp add: s1 r model_truth_def kick_def InvalidateModelBenchmarks_def)
  have old: "map_of (sc_model_cache s) (w', c) = Some e \<and> (w = '''' \<or> w' \<noteq> w)"
    if "map_of (sc_model_cache ?s) (w', c) = Some e" for w' c e
    using that by (auto simp: kick_def InvalidateModelBenchmarks_def s1 map_of_filter_worker split: if_splits)
  have "sc_model_cache ?s = []" if "w = ''''" using that by (simp add: kick_def InvalidateModelBenchmarks_def)
  have "coherent ?s"
    unfolding coherent_def
  proof (intro conjI allI impI)
    show "sc_initialised ?s" "state_faults ?s = []"
      using co by (simp_all add: coherent_def kick_def InvalidateModelBenchmarks_def s1)
    show "row = bench_truth w i ?s" if "map_of (sc_bench_cache ?s) (w, i) = Some row" for w i row
      using co that by (auto simp: coherent_def kick_def InvalidateModelBenchmarks_def s1 bench_truth_def split: if_splits)
    show "e = model_truth w' ds' m ?s" if "plain ds'" "map_of (sc_model_cache ?s) (w', cache_key ds' m) = Some e" for w' ds' m e
    proof -
      have "e = model_truth w' ds' m s"
        using co that(1) conjunct1 [OF old [OF that(2)]] unfolding coherent_def by blast
      moreover have "w' \<noteq> w" using old [OF that(2)] that(2) \<open>w = '''' \<Longrightarrow> sc_model_cache ?s = []\<close> by auto
      ultimately show ?thesis by (simp add: t)
    qed
  qed
  with t have "answers w ds k (r\<lparr>mb_created := created, mb_updated := now\<rparr>, mb_error r = '''' \<and> mb_units_per_sec r > 0) s ?s"
    by (auto simp: answers_def)
  then show ?thesis by blast
qed

definition verdict_error :: "worker_id \<Rightarrow> bench_task \<Rightarrow> string \<Rightarrow> sched \<Rightarrow> sched \<Rightarrow> bool" where
  "verdict_error w t err s s' \<longleftrightarrow> (\<exists>row. answers w (bt_devset t) (bm_key (bt_model t)) (row, False) s s'
     \<and> mb_error row = err \<and> (mb_model_size row, mb_model_mtime row) = modelFileIdentity (bm_key (bt_model t)) s)"

definition verdict_measured :: "worker_id \<Rightarrow> bench_task \<Rightarrow> rat \<Rightarrow> sched \<Rightarrow> sched \<Rightarrow> bool" where
  "verdict_measured w t units s s' \<longleftrightarrow> (\<exists>row. answers w (bt_devset t) (bm_key (bt_model t)) (row, units > 0) s s'
     \<and> mb_error row = '''' \<and> mb_units_per_sec row = units
     \<and> (mb_model_size row, mb_model_mtime row) = modelFileIdentity (bm_key (bt_model t)) s)"

lemma recordMeasurement_verdict:
  assumes "coherent s"
  shows "verdict_measured w t (cost / mr_elapsed res) s (recordMeasurement t w cost res s)"
proof -
  obtain sz mt where i: "modelFileIdentity (bm_key (bt_model t)) s = (sz, mt)" by fastforce
  let ?r = "(bench_row_of w t s)\<lparr>mb_units_per_sec := cost / mr_elapsed res, mb_graph_secs := mr_graph res,
    mb_base_bytes := mr_base_bytes res, mb_per_slot_bytes := mr_per_slot_bytes res, mb_error := ''''\<rparr>"
  obtain s1 where up: "upsertModelBenchmark ?r s = (Inr (), s1)" using upserted [OF assms] by metis
  have k: "mb_key ?r = (w, bt_devset t, bm_key (bt_model t))" by (simp add: bench_row_of_def mb_key_def i)
  from saved_answers [OF assms k up] assms up show ?thesis
    by (auto simp: verdict_measured_def recordMeasurement_def SaveModelBenchmark_def coherent_def i)
      (auto simp: bench_row_of_def i)
qed

lemma recordIncapable_verdict:
  assumes "coherent s" "cause \<noteq> ''''"
  shows "verdict_error w t cause s (recordIncapable t w cause s)"
proof -
  obtain sz mt where i: "modelFileIdentity (bm_key (bt_model t)) s = (sz, mt)" by fastforce
  let ?r = "(bench_row_of w t s)\<lparr>mb_error := cause, mb_units_per_sec := 0, mb_graph_secs := 0, mb_base_bytes := 0,
             mb_per_slot_bytes := 0\<rparr>"
  obtain s1 where up: "upsertModelBenchmark ?r s = (Inr (), s1)" using upserted [OF assms(1)] by metis
  have k: "mb_key ?r = (w, bt_devset t, bm_key (bt_model t))" by (simp add: bench_row_of_def mb_key_def i)
  from saved_answers [OF assms(1) k up] assms up show ?thesis
    by (auto simp: verdict_error_def recordIncapable_def SaveModelBenchmarkError_def coherent_def i)
      (auto simp: bench_row_of_def i)
qed

lemma release_gate_answers:
  assumes "answers w ds k e s s'" shows "answers w ds k e s (release_gate v s')"
proof -
  have "model_truth w ds m (release_gate v s') = model_truth w ds m s'" "bench_truth w i (release_gate v s') = bench_truth w i s'"
    for w ds m i
    by (simp_all add: release_gate_def kick_def model_truth_def bench_truth_def)
  moreover have "coherent (release_gate v s') = coherent s'"
    by (simp add: coherent_def calculation) (simp add: release_gate_def kick_def)
  ultimately show ?thesis using assms by (simp add: answers_def)
qed

text \<open>A failed attempt: the task goes back with its backoff, the third one becomes a verdict.\<close>

definition attempt_failed :: "nat \<Rightarrow> bench_task \<Rightarrow> string \<Rightarrow> orchestrator \<times> sched \<Rightarrow> orchestrator \<times> sched \<Rightarrow> bool" where
  "attempt_failed a t cause = (\<lambda>(b, s) (b', s').
     if bt_attempts t + 1 < 3
     then b' = update_runner a (runner_requeue (t\<lparr>bt_attempts := bt_attempts t + 1\<rparr>)
            (if bt_attempts t = 0 then 30000 else 300000) (clock s)) b
        \<and> model_benches s' = model_benches s
     else b' = b \<and> verdict_error (br_worker (bo_heap b ! a)) t
            (decimal (bt_attempts t + 1) @ '' benchmark attempts failed: '' @ cause) s s')"

lemma retryOrRecord_failed:
  assumes "coherent s"
  shows "attempt_failed a t cause (b, s) (retryOrRecord a t cause (b, s))"
proof (cases "bt_attempts t + 1 < 3")
  case True
  then have "bt_attempts t = 0 \<or> bt_attempts t = 1" by auto
  with True show ?thesis
    by (auto simp: attempt_failed_def retryOrRecord_def Let_def benchMaxAttempts_def benchBackoff_def)
next
  case False
  have "bench_row_of w (t\<lparr>bt_attempts := n\<rparr>) s = bench_row_of w t s" for w n by (simp add: bench_row_of_def)
  then have "recordIncapable (t\<lparr>bt_attempts := n\<rparr>) w cause s = recordIncapable t w cause s" for w n cause
    by (simp add: recordIncapable_def)
  with False recordIncapable_verdict [OF assms] show ?thesis
    by (simp add: attempt_failed_def retryOrRecord_def Let_def benchMaxAttempts_def)
qed

lemma released_verdict:
  "verdict_error w t err s s' \<Longrightarrow> verdict_error w t err s (release_gate v s')"
  "verdict_measured w t units s s' \<Longrightarrow> verdict_measured w t units s (release_gate v s')"
  by (auto simp: verdict_error_def verdict_measured_def intro: release_gate_answers)

lemma release_gate_fields [simp]:
  "sc_gated (release_gate w s) = removeAll w (sc_gated s)" "sc_kicked (release_gate w s)"
  "model_benches (release_gate w s) = model_benches s"
  by (simp_all add: release_gate_def kick_def)

lemma released_failed: "attempt_failed a t cause bs (b', s') \<Longrightarrow> attempt_failed a t cause bs (b', release_gate v s')"
  by (cases bs) (auto simp: attempt_failed_def released_verdict split: if_splits)

text \<open>C15. What the worker replies is settled in full. A measurement or a verdict of incapability is what the next
  placement reads, with the identity of the file it was taken on; a worker that left leaves no row; a transient
  failure comes back after 30 seconds, then after 5 minutes, and the third one is a verdict. The gate is lifted and
  the dispatcher woken in every case.\<close>

theorem bench_verdict:
  assumes "coherent s" "\<And>err. reply = Refused (ErrBenchIncapable err) \<Longrightarrow> err \<noteq> ''''"
    and r: "runOne_replied show_float sw a t cost reply (b, s) = (b', s')"
  shows "let w = br_worker (bo_heap b ! a) in w_id sw \<notin> set (sc_gated s') \<and> sc_kicked s'
    \<and> (case reply of
        Measured res \<Rightarrow>
          if 0 < mr_elapsed res then b' = b \<and> verdict_measured w t (cost / mr_elapsed res) s s'
          else attempt_failed a t (''worker reported elapsed_secs '' @ show_float (mr_elapsed res)) (b, s) (b', s')
      | Refused (ErrBenchIncapable err) \<Rightarrow> b' = b \<and> verdict_error w t err s s'
      | Refused (ErrBenchTransient err) \<Rightarrow> attempt_failed a t err (b, s) (b', s')
      | _ \<Rightarrow> b' = b \<and> model_benches s' = model_benches s)"
proof -
  define w where "w = br_worker (bo_heap b ! a)"
  define bs where "bs = (case reply of
       Refused (ErrBenchIncapable err) \<Rightarrow> (b, recordIncapable t w err s)
     | Refused BenchOffline \<Rightarrow> (b, s) | BenchCancelled \<Rightarrow> (b, s)
     | Refused (ErrBenchTransient err) \<Rightarrow> retryOrRecord a t err (b, s)
     | Measured res \<Rightarrow>
         if mr_elapsed res \<le> 0
         then retryOrRecord a t (''worker reported elapsed_secs '' @ show_float (mr_elapsed res)) (b, s)
         else (b, recordMeasurement t w cost res s))"
  obtain b1 s1 where bs: "bs = (b1, s1)" by fastforce
  have "b' = b1" "s' = release_gate (w_id sw) s1"
    using r by (simp_all add: runOne_replied_def w_def [symmetric] bs_def [symmetric] bs)
  note out = this
  have ret: "attempt_failed a t cause (b, s) (b', s')" if "bs = retryOrRecord a t cause (b, s)" for cause
    using retryOrRecord_failed [OF assms(1), of a t cause b] that bs by (auto simp: out intro: released_failed)
  have "verdict_measured w t (cost / mr_elapsed res) s s'" if "bs = (b, recordMeasurement t w cost res s)" for res
    using recordMeasurement_verdict [OF assms(1)] that bs by (auto simp: out intro: released_verdict)
  moreover have "verdict_error w t err s s'" if "bs = (b, recordIncapable t w err s)" "err \<noteq> ''''" for err
    using recordIncapable_verdict [OF assms(1) that(2)] that bs by (auto simp: out intro: released_verdict)
  ultimately show ?thesis
    using assms(2) ret bs out by (auto simp: bs_def w_def [symmetric] Let_def split: bench_reply.splits model_bench_error.splits if_splits)
qed

subsection \<open>Discovery\<close>

definition asked :: "model_id \<Rightarrow> string \<Rightarrow> bench_runner \<Rightarrow> bool" where
  "asked key ds r \<longleftrightarrow> (\<exists>t \<in> set (br_queue r) \<union> set_option (br_current r). same_bench key ds t)"

definition pending_bench :: "worker_id \<Rightarrow> model_id \<Rightarrow> string \<Rightarrow> orchestrator \<Rightarrow> bool" where
  "pending_bench w key ds b \<longleftrightarrow> (\<exists>a. map_of (bo_runners b) w = Some a \<and> a < length (bo_heap b) \<and> asked key ds (bo_heap b ! a))"

lemma put_task_asked: "asked (bm_key m) ds (put_task w m ds r)" "asked k d r \<Longrightarrow> asked k d (put_task w m ds r)"
  by (auto simp: asked_def put_task_def runner_kick_def Let_def same_bench_def list_ex_iff split: option.splits)

lemma enqueue_asks:
  assumes ok: "bench_ok b"
  shows "bo_started b \<Longrightarrow> pending_bench (w_id w) (bm_key m) ds (enqueue w m ds b)"
    and "pending_bench v k d b \<Longrightarrow> pending_bench v k d (enqueue w m ds b)"
    and "bo_started (enqueue w m ds b) = bo_started b" "bo_models (enqueue w m ds b) = bo_models b"
proof -
  obtain a b1 where f: "find_runner (w_id w) b = (a, b1)" by fastforce
  have b1: "a < length (bo_heap b1)" "map_of (bo_runners b1) (w_id w) = Some a" "bo_started b1 = bo_started b"
    "bo_models b1 = bo_models b"
    using f ok by (auto simp: find_runner_def bench_ok_def Let_def split: option.splits dest: map_of_SomeD)
  have keep: "pending_bench v k d b \<Longrightarrow> pending_bench v k d b1"
    using f by (auto simp: find_runner_def pending_bench_def Let_def nth_append split: option.splits)
  have e: "enqueue w m ds b = (if bo_started b then update_runner a (put_task w m ds) b1 else b)"
    by (simp add: enqueue_def f)
  show "bo_started b \<Longrightarrow> pending_bench (w_id w) (bm_key m) ds (enqueue w m ds b)"
    using b1 by (simp add: e pending_bench_def update_runner_def put_task_asked)
  show "pending_bench v k d b \<Longrightarrow> pending_bench v k d (enqueue w m ds b)"
    using keep by (cases "bo_started b"; cases "map_of (bo_runners b1) v = Some a")
      (auto simp: e pending_bench_def update_runner_def nth_list_update put_task_asked)
  show "bo_started (enqueue w m ds b) = bo_started b" "bo_models (enqueue w m ds b) = bo_models b"
    using b1 by (simp_all add: e update_runner_def)
qed

text \<open>A question is settled by a row with a measurement or a verdict, taken on the file that is there now.\<close>

definition settled_bench :: "worker_id \<Rightarrow> model_id \<Rightarrow> string \<Rightarrow> sched \<Rightarrow> bool" where
  "settled_bench w key ds s = (case model_truth w ds key s of (row, ok) \<Rightarrow>
     (ok \<or> mb_error row \<noteq> '''') \<and> modelFileUnchanged row s)"

lemma enqueueIfMissing_asks:
  assumes "bench_ok b" "bo_started b" "coherent s" "\<forall>d \<in> set (w_devices w). plain (dev_id d)"
    "predictDeviceSet w s \<noteq> []" "enqueueIfMissing w m (b, s) = (b', s')"
  shows "bench_ok b' \<and> bo_started b' \<and> coherent s' \<and> caches_only s s'
    \<and> (settled_bench (w_id w) (bm_key m) (deviceSetKey (predictDeviceSet w s)) s
        \<or> pending_bench (w_id w) (bm_key m) (deviceSetKey (predictDeviceSet w s)) b')
    \<and> (\<forall>v k d. pending_bench v k d b \<longrightarrow> pending_bench v k d b')"
proof -
  let ?ds = "deviceSetKey (predictDeviceSet w s)"
  obtain row ok s1 where l: "lookupModelBenchmark (w_id w) ?ds (bm_key m) s = ((row, ok), s1)" by (metis surj_pair)
  note spec = lookupModelBenchmark_spec [OF assms(3) plain_predict [OF assms(4)], of "w_id w" s "bm_key m", unfolded l fst_conv snd_conv]
  then have t: "model_truth (w_id w) ?ds (bm_key m) s = (row, ok)" "caches_only s s1" "coherent s1" by simp_all
  have u: "modelFileUnchanged row s1 = modelFileUnchanged row s" by (rule caches_only_queries [OF t(2)])
  have "(b', s') = (if (ok \<or> mb_error row \<noteq> '''') \<and> modelFileUnchanged row s then (b, s1) else (enqueue w m ?ds b, s1))"
    using assms(5,6) by (simp add: enqueueIfMissing_def l u)
  then show ?thesis
    using t assms(1,2) enqueue_asks [OF assms(1)] enqueue_ok [OF assms(1)]
    by (auto simp: settled_bench_def split: if_splits)
qed

lemma discovery_fold:
  assumes "bench_ok b" "bo_started b" "coherent s" "\<forall>d \<in> set (w_devices w). plain (dev_id d)" "predictDeviceSet w s \<noteq> []"
    "fold (enqueueIfMissing w) ms (b, s) = (b', s')"
  shows "(\<forall>m \<in> set ms. settled_bench (w_id w) (bm_key m) (deviceSetKey (predictDeviceSet w s)) s
        \<or> pending_bench (w_id w) (bm_key m) (deviceSetKey (predictDeviceSet w s)) b')
    \<and> (\<forall>v k d. pending_bench v k d b \<longrightarrow> pending_bench v k d b') \<and> caches_only s s'"
  using assms(1-3,5,6)
proof (induction ms arbitrary: b s)
  case (Cons m ms)
  obtain b1 s1 where p: "enqueueIfMissing w m (b, s) = (b1, s1)" by fastforce
  note 1 = enqueueIfMissing_asks [OF Cons.prems(1-3) assms(4) Cons.prems(4) p]
  then have c: "caches_only s s1" by simp
  have q: "predictDeviceSet w s1 = predictDeviceSet w s" "settled_bench v k d s1 = settled_bench v k d s" for v k d
    by (simp_all add: settled_bench_def truth_caches [OF c] caches_only_queries [OF c])
  have "fold (enqueueIfMissing w) ms (b1, s1) = (b', s')" using Cons.prems(5) by (simp add: p)
  from Cons.IH [OF _ _ _ _ this] 1 Cons.prems(4) show ?case by (auto simp: q intro: caches_only_trans [OF c])
qed simp

text \<open>A sweep of a worker leaves no model of the catalogue without an answer: each has a valid row on the worker's
  enabled devices, or a measurement of it is queued or running there. Questions asked before stay asked.\<close>

theorem sweepWorker_complete:
  assumes "bench_ok b" "bo_started b" "bo_models b" "coherent s" "\<forall>d \<in> set (w_devices w). plain (dev_id d)"
    and "predictDeviceSet w s \<noteq> []" "cat (w_runtime w) = Inr ms" "m \<in> set ms"
    and "sweepWorker w cat (b, s) = (b', s')"
  shows "(settled_bench (w_id w) (bm_key m) (deviceSetKey (predictDeviceSet w s)) s
        \<or> pending_bench (w_id w) (bm_key m) (deviceSetKey (predictDeviceSet w s)) b')
    \<and> (\<forall>v k d. pending_bench v k d b \<longrightarrow> pending_bench v k d b') \<and> caches_only s s'"
  using discovery_fold [of b s w ms b' s'] assms by (simp add: sweepWorker_def)

subsection \<open>Removal\<close>

lemma cancelModel_fold:
  assumes "fold (\<lambda>(w, a). update_runner a (\<lambda>r. r\<lparr>br_queue := filter P (br_queue r)\<rparr>)) ps b = b'"
  shows "length (bo_heap b') = length (bo_heap b) \<and> bo_runners b' = bo_runners b
    \<and> (\<forall>i < length (bo_heap b). br_current (bo_heap b' ! i) = br_current (bo_heap b ! i)
        \<and> br_queue (bo_heap b' ! i) = (if i \<in> snd ` set ps then filter P (br_queue (bo_heap b ! i)) else br_queue (bo_heap b ! i)))"
  using assms
proof (induction ps arbitrary: b)
  case (Cons p ps)
  obtain w a where p: "p = (w, a)" by fastforce
  let ?f = "\<lambda>r. r\<lparr>br_queue := filter P (br_queue r)\<rparr>"
  let ?b = "update_runner a ?f b"
  have l: "length (bo_heap ?b) = length (bo_heap b)" "bo_runners ?b = bo_runners b" by (simp_all add: update_runner_def)
  have n: "bo_heap ?b ! i = (if i = a then ?f (bo_heap b ! i) else bo_heap b ! i)" if "i < length (bo_heap b)" for i
    using that by (simp add: update_runner_def nth_list_update)
  from Cons.IH [of ?b] Cons.prems show ?case by (auto simp: p l n)
qed simp

lemma cancelModel_fields:
  "bo_runners (cancelModel key b) = bo_runners b" "length (bo_heap (cancelModel key b)) = length (bo_heap b)"
  using cancelModel_fold [OF refl, of "\<lambda>t. bm_key (bt_model t) \<noteq> key" "bo_runners b" b] by (simp_all add: cancelModel_def)

lemma cancelModel_queue:
  assumes "map_of (bo_runners b) w = Some a" "a < length (bo_heap b)"
  shows "br_queue (bo_heap (cancelModel key b) ! a) = filter (\<lambda>t. bm_key (bt_model t) \<noteq> key) (br_queue (bo_heap b ! a))"
    "br_current (bo_heap (cancelModel key b) ! a) = br_current (bo_heap b ! a)"
  using cancelModel_fold [OF refl, of "\<lambda>t. bm_key (bt_model t) \<noteq> key" "bo_runners b" b] assms
    image_eqI [OF _ map_of_SomeD [OF assms(1)], of a snd]
  by (auto simp: cancelModel_def)

lemma forget_models:
  assumes "fold forget_model ks (b, s) = (b', s')" "bench_ok b" "sc_initialised s" "state_faults s = []"
  shows "bo_runners b' = bo_runners b \<and> bench_ok b'
    \<and> (\<forall>w a. map_of (bo_runners b) w = Some a \<longrightarrow> br_current (bo_heap b' ! a) = br_current (bo_heap b ! a)
        \<and> br_queue (bo_heap b' ! a) = filter (\<lambda>t. bm_key (bt_model t) \<notin> set ks) (br_queue (bo_heap b ! a)))
    \<and> s' = s\<lparr>model_benches := filter (\<lambda>((w, ds, m), r). m \<notin> set ks) (model_benches s)\<rparr>"
  using assms
proof (induction ks arbitrary: b s)
  case Nil
  moreover have "filter (\<lambda>((w, ds, m), r). True) xs = xs" for xs :: "((worker_id \<times> string \<times> model_id) \<times> model_benchmark) list"
    by (induction xs) auto
  ultimately show ?case by simp
next
  case (Cons k ks)
  let ?s = "s\<lparr>model_benches := filter (\<lambda>((w, ds, m), r). m \<noteq> k) (model_benches s)\<rparr>"
  have s: "s\<lparr>state_faults := []\<rparr> = s" using Cons.prems(4) by simp
  have e: "forget_model k (b, s) = (cancelModel k b, ?s)"
    using Cons.prems(3,4) by (simp add: forget_model_def DeleteModelBenchmarksByModel_def stx_def Let_def s)
  have ok: "bench_ok (cancelModel k b)" by (rule cancelModel_ok [OF Cons.prems(2)])
  have idx: "a < length (bo_heap b)" if "map_of (bo_runners b) w = Some a" for w a
    using Cons.prems(2) map_of_SomeD [OF that] by (auto simp: bench_ok_def)
  have "fold forget_model ks (cancelModel k b, ?s) = (b', s')" using Cons.prems(1) by (simp add: e)
  note IH = Cons.IH [OF this ok]
  have f: "filter (\<lambda>((w, ds, m), r). m \<notin> set ks) (filter (\<lambda>((w, ds, m), r). m \<noteq> k) xs)
      = filter (\<lambda>((w, ds, m), r). m \<notin> set (k # ks)) xs" for xs :: "((worker_id \<times> string \<times> model_id) \<times> model_benchmark) list"
    by (induction xs) auto
  have g: "(\<lambda>t. bm_key (bt_model t) \<noteq> k \<and> bm_key (bt_model t) \<notin> set ks) = (\<lambda>t. bm_key (bt_model t) \<notin> set (k # ks))" by auto
  have "s' = s\<lparr>model_benches := filter (\<lambda>((w, ds, m), r). m \<notin> set (k # ks)) (model_benches s)\<rparr>"
    using conjunct2 [OF conjunct2 [OF conjunct2 [OF IH]]] Cons.prems(3,4) by (simp add: f del: set_simps filter_filter)
  then show ?case
    using IH Cons.prems(3,4) cancelModel_queue [OF _ idx] idx
    by (auto simp: cancelModel_fields g [simplified])
qed

text \<open>Removing models takes every queued measurement of them off every runner, and nothing else; their rows are
  gone on every worker and device set, the placement cache answers nothing for them any more, and every online worker
  is told to drop the files. A measurement already running is left alone.\<close>

theorem OnModelRemoved_forgets:
  assumes "bench_ok b" "coherent s" "OnModelRemoved ks (b, s) = (b', s')"
  shows "bo_runners b' = bo_runners b
    \<and> (\<forall>w a. map_of (bo_runners b) w = Some a \<longrightarrow> br_current (bo_heap b' ! a) = br_current (bo_heap b ! a)
        \<and> br_queue (bo_heap b' ! a) = filter (\<lambda>t. bm_key (bt_model t) \<notin> set ks) (br_queue (bo_heap b ! a)))
    \<and> coherent s' \<and> (\<forall>w ds k. model_truth w ds k s' = (if k \<in> set ks then (zero_model_benchmark, False) else model_truth w ds k s))
    \<and> sc_log s' = sc_log s @ map (\<lambda>w. SentDeleteFiles (w_id w) ks) (allStreamWorkers s)"
proof -
  obtain b1 s1 where f: "fold forget_model ks (b, s) = (b1, s1)" by fastforce
  have i: "sc_initialised s" "state_faults s = []" using assms(2) by (simp_all add: coherent_def)
  note F = forget_models [OF f assms(1) i]
  let ?s = "InvalidateModelBenchmarks '''' s1"
  have emits: "fold (\<lambda>w. emit (SentDeleteFiles (w_id w) ks)) ws u = u\<lparr>sc_log := sc_log u @ map (\<lambda>w. SentDeleteFiles (w_id w) ks) ws\<rparr>"
    for ws u by (induction ws arbitrary: u) (simp_all add: emit_def)
  have "(b', s') = (b1, ?s\<lparr>sc_log := sc_log ?s @ map (\<lambda>w. SentDeleteFiles (w_id w) ks) (allStreamWorkers ?s)\<rparr>)"
    using assms(3) f by (simp add: OnModelRemoved_def emits Let_def)
  then have b': "b' = b1" and s': "s' = s\<lparr>model_benches := filter (\<lambda>((w, ds, m), r). m \<notin> set ks) (model_benches s),
      sc_model_cache := [], sc_log := sc_log s @ map (\<lambda>w. SentDeleteFiles (w_id w) ks) (allStreamWorkers s)\<rparr>"
    using F by (simp_all add: InvalidateModelBenchmarks_def allStreamWorkers_def)
  have "map_of (filter (\<lambda>((w, ds, m), r). m \<notin> set ks) xs) (w, ds, k) = (if k \<in> set ks then None else map_of xs (w, ds, k))"
    for xs :: "((worker_id \<times> string \<times> model_id) \<times> model_benchmark) list" and w ds k
    by (induction xs) auto
  then have t: "model_truth w ds k s' = (if k \<in> set ks then (zero_model_benchmark, False) else model_truth w ds k s)" for w ds k
    by (simp add: s' model_truth_def)
  have "coherent s'" using assms(2) by (simp add: coherent_def s' bench_truth_def)
  with F t show ?thesis by (simp add: b') (simp add: s')
qed

subsection \<open>On a fleet of two\<close>

lemma two_workers_coherent: "coherent two_workers" by (simp add: coherent_def two_workers_eval)

definition demo_bench :: orchestrator where
  "demo_bench = \<lparr> bo_started = True, bo_models = True, bo_author = True, bo_runners = [(''a'', 0)],
     bo_heap = [\<lparr> br_worker = ''a'', br_queue = [later_task, fresh_task], br_current = None, br_wake = False, br_stop = False \<rparr>] \<rparr>"

lemma demo_bench_ok: "bench_ok demo_bench"
  by (simp add: demo_bench_def bench_ok_def runner_ok_def later_task_def fresh_task_def bench_id_def benchMaxAttempts_def)

theorem bench_verdict_witness:
  "attempt_failed 0 later_task ''out of memory'' (demo_bench, two_workers)
     (runOne_replied (\<lambda>x. ''0'') gpu_worker 0 later_task 5 (Refused (ErrBenchTransient ''out of memory'')) (demo_bench, two_workers))"
proof -
  obtain b' s' where e: "runOne_replied (\<lambda>x. ''0'') gpu_worker 0 later_task 5 (Refused (ErrBenchTransient ''out of memory''))
    (demo_bench, two_workers) = (b', s')" by fastforce
  from bench_verdict [OF two_workers_coherent _ e] show ?thesis by (simp add: e)
qed

definition other_model :: bench_model where
  "other_model = \<lparr> bm_id = ''g'', bm_key = ''g.gguf'' \<rparr>"

definition other_catalogue :: "runtime_name \<Rightarrow> string + bench_model list" where
  "other_catalogue rt = Inr [other_model]"

lemma gpu_worker_predicts: "predictDeviceSet gpu_worker two_workers = [''gpu0'']"
  by (simp add: two_workers_eval predictDeviceSet_def enabled_of_def isDeviceEnabled_def)

lemma gpu_worker_plain: "\<forall>d \<in> set (w_devices gpu_worker). plain (dev_id d)"
  by (simp add: gpu_worker_def NewStreamWorker_def plain_def)

lemma other_model_unknown: "\<not> settled_bench (w_id gpu_worker) (bm_key other_model) ''gpu0'' two_workers"
  by (simp add: settled_bench_def model_truth_def other_model_def two_workers_eval bench_row_def)
    (simp add: zero_model_benchmark_def)

theorem sweepWorker_complete_witness:
  "pending_bench (w_id gpu_worker) (bm_key other_model) ''gpu0'' (fst (sweepWorker gpu_worker other_catalogue (demo_bench, two_workers)))
   \<and> \<not> pending_bench (w_id gpu_worker) (bm_key other_model) ''gpu0'' demo_bench"
proof -
  obtain b' s' where e: "sweepWorker gpu_worker other_catalogue (demo_bench, two_workers) = (b', s')" by fastforce
  have "\<not> pending_bench (w_id gpu_worker) (bm_key other_model) ''gpu0'' demo_bench"
    by (auto simp: pending_bench_def demo_bench_def asked_def same_bench_def later_task_def fresh_task_def other_model_def
        split: if_splits)
  moreover have "pending_bench (w_id gpu_worker) (bm_key other_model) ''gpu0'' b'"
    using sweepWorker_complete [OF demo_bench_ok _ _ two_workers_coherent gpu_worker_plain _ _ _ e, of "[other_model]" other_model]
      other_model_unknown
    by (simp add: gpu_worker_predicts other_catalogue_def) (simp add: demo_bench_def)
  ultimately show ?thesis by (simp add: e)
qed

theorem OnModelRemoved_forgets_witness:
  "br_queue (bo_heap (fst (OnModelRemoved [''f.gguf''] (demo_bench, two_workers))) ! 0) = []
   \<and> model_truth ''b'' ''gpu0'' ''f.gguf'' (snd (OnModelRemoved [''f.gguf''] (demo_bench, two_workers))) = (zero_model_benchmark, False)
   \<and> snd (model_truth ''b'' ''gpu0'' ''f.gguf'' two_workers)"
proof -
  obtain b' s' where e: "OnModelRemoved [''f.gguf''] (demo_bench, two_workers) = (b', s')" by fastforce
  have "snd (model_truth ''b'' ''gpu0'' ''f.gguf'' two_workers)"
    by (simp add: model_truth_def two_workers_eval bench_row_def zero_model_benchmark_def)
  moreover have "map_of (bo_runners demo_bench) ''a'' = Some 0" "br_queue (bo_heap demo_bench ! 0) = [later_task, fresh_task]"
    by (simp_all add: demo_bench_def)
  ultimately show ?thesis
    using OnModelRemoved_forgets [OF demo_bench_ok two_workers_coherent e]
    by (auto simp: e later_task_def fresh_task_def)
qed

theorem bench_questions_once_witness:
  "\<exists>b s a. bench_step\<^sup>*\<^sup>* (newBenchOrchestrator, two_workers) (b, s) \<and> map_of (bo_runners b) (w_id gpu_worker) = Some a
     \<and> pending_bench (w_id gpu_worker) (bm_key other_model) ''gpu0'' b \<and> distinct (map bench_id (br_queue (bo_heap b ! a)))"
proof -
  let ?b1 = "SetBenchProviders True True newBenchOrchestrator"
  have "fold (\<lambda>w. sweepWorker w (\<lambda>rt. Inl ''offline'')) ws bs = bs" for ws bs
    by (induction ws) (simp_all add: sweepWorker_def case_prod_beta)
  then have start: "StartBenchOrchestrator (\<lambda>rt. Inl ''offline'') (?b1, two_workers) = (?b1\<lparr>bo_started := True\<rparr>, two_workers)"
    by (simp add: StartBenchOrchestrator_def)
  let ?b2 = "?b1\<lparr>bo_started := True\<rparr>"
  have b2: "bench_ok ?b2" "bo_started ?b2" "bo_models ?b2"
    by (simp_all add: bench_ok_def SetBenchProviders_def newBenchOrchestrator_def)
  obtain b s where e: "sweepWorker gpu_worker other_catalogue (?b2, two_workers) = (b, s)" by fastforce
  have f: "fold (enqueueIfMissing gpu_worker) [other_model] (?b2, two_workers) = (b, s)"
    using e b2 by (simp add: sweepWorker_def gpu_worker_predicts other_catalogue_def)
  have p: "pending_bench (w_id gpu_worker) (bm_key other_model) ''gpu0'' b"
    using discovery_fold [OF b2(1,2) two_workers_coherent gpu_worker_plain _ f] other_model_unknown
    by (simp add: gpu_worker_predicts)
  then obtain a where a: "map_of (bo_runners b) (w_id gpu_worker) = Some a" by (auto simp: pending_bench_def)
  have "bench_step (newBenchOrchestrator, two_workers) (?b1, two_workers)" by (rule bench_step.providers)
  moreover have "bench_step (?b1, two_workers) (?b2, two_workers)"
    using bench_step.start [of ?b1 two_workers "\<lambda>rt. Inl ''offline''"] by (simp add: start)
  moreover have "bench_step (?b2, two_workers) (b, s)"
    using bench_step.sweep [of ?b2 two_workers gpu_worker other_catalogue] by (simp add: e)
  ultimately have r: "bench_step\<^sup>*\<^sup>* (newBenchOrchestrator, two_workers) (b, s)" by (metis rtranclp.simps)
  from bench_questions_once [OF r a] r a p show ?thesis by auto
qed

end
