(* ===== verification/Credentials.thy ===== *)
theory Credentials
  imports Database
begin

text \<open>
  Worker credentials: the tokens of \<open>internal/worker/credentials.go\<close>, the tables of \<open>internal/store/workers.go\<close>
  and \<open>join_tokens.go\<close>, and the enroller of \<open>internal/worker/enroll.go\<close>.

  bcrypt is a parameter: \<open>hash\<close> is what this call of \<open>GenerateFromPassword\<close> returns and \<open>matches\<close> is
  \<open>CompareHashAndPassword\<close> succeeding. Random bytes, ULIDs and the time of a call are arguments. A statement of the
  store fails when the next entry of \<open>es_faults\<close> says so.
\<close>

subsection \<open>Tokens\<close>

definition joinTokenPrefix :: string where "joinTokenPrefix = ''mjt_''"

definition workerSecretPrefix :: string where "workerSecretPrefix = ''mws_''"

definition credentialRandomBytes :: nat where "credentialRandomBytes = 32"

definition DefaultJoinTokenTTLSeconds :: int where "DefaultJoinTokenTTLSeconds = 3600"

text \<open>Base64 with the URL alphabet and no padding.\<close>

definition url_alphabet :: string where
  "url_alphabet = ''ABCDEFGHIJKLMNOPQRSTUVWXYZabcdefghijklmnopqrstuvwxyz0123456789-_''"

definition url_char :: "nat \<Rightarrow> char" where
  "url_char n = url_alphabet ! n"

fun raw_url_encode :: "bytes \<Rightarrow> string" where
  "raw_url_encode [] = []"
| "raw_url_encode [a] = [url_char (unat a div 4), url_char (unat a mod 4 * 16)]"
| "raw_url_encode [a, b] =
     [url_char (unat a div 4), url_char (unat a mod 4 * 16 + unat b div 16), url_char (unat b mod 16 * 4)]"
| "raw_url_encode (a # b # c # bs) =
     [url_char (unat a div 4), url_char (unat a mod 4 * 16 + unat b div 16),
      url_char (unat b mod 16 * 4 + unat c div 64), url_char (unat c mod 64)] @ raw_url_encode bs"

text \<open>\<open>random\<close> is what the system's random source returned, if it did.\<close>

definition newCredential :: "string \<Rightarrow> bytes option \<Rightarrow> string option" where
  "newCredential prefix random = (case random of
      None \<Rightarrow> None | Some buf \<Rightarrow> Some (prefix @ raw_url_encode (take credentialRandomBytes buf)))"

definition NewJoinToken :: "bytes option \<Rightarrow> string option" where
  "NewJoinToken = newCredential joinTokenPrefix"

definition NewWorkerSecret :: "bytes option \<Rightarrow> string option" where
  "NewWorkerSecret = newCredential workerSecretPrefix"

definition looksLikeJoinToken :: "string \<Rightarrow> bool" where
  "looksLikeJoinToken s \<longleftrightarrow> take (length joinTokenPrefix) s = joinTokenPrefix"

subsection \<open>The tables\<close>

record worker_row =
  wk_id :: worker_id
  wk_name :: string
  wk_hash :: string
  wk_created :: int

record join_token_row =
  jt_id :: string
  jt_hash :: string
  jt_expires :: int
  jt_created :: int

record enroll_store =
  es_workers :: "worker_row list"
  es_tokens :: "join_token_row list"
  es_faults :: "bool list"

definition estx :: "(enroll_store \<Rightarrow> (db_error + 'r) \<times> enroll_store) \<Rightarrow> enroll_store
    \<Rightarrow> (db_error + 'r) \<times> enroll_store" where
  "estx f s = (let s' = s\<lparr>es_faults := tl (es_faults s)\<rparr>
     in if faulty (es_faults s) then (Inl DbError, s') else f s')"

definition InsertWorker :: "worker_row \<Rightarrow> enroll_store \<Rightarrow> (db_error + unit) \<times> enroll_store" where
  "InsertWorker row = estx (\<lambda>s.
     if wk_id row \<in> wk_id ` set (es_workers s) then (Inl DuplicateKey, s)
     else (Inr (), s\<lparr>es_workers := es_workers s @ [row]\<rparr>))"

definition GetWorker :: "worker_id \<Rightarrow> enroll_store \<Rightarrow> (db_error + worker_row) \<times> enroll_store" where
  "GetWorker i = estx (\<lambda>s. (case find (\<lambda>r. wk_id r = i) (es_workers s) of
      None \<Rightarrow> Inl NoRows | Some r \<Rightarrow> Inr r, s))"

text \<open>Newest first.\<close>

definition ListWorkers :: "enroll_store \<Rightarrow> (db_error + worker_row list) \<times> enroll_store" where
  "ListWorkers = estx (\<lambda>s. (Inr (sort_key (\<lambda>r. - wk_created r) (es_workers s)), s))"

definition DeleteWorker :: "worker_id \<Rightarrow> enroll_store \<Rightarrow> (db_error + bool) \<times> enroll_store" where
  "DeleteWorker i = estx (\<lambda>s. (Inr (i \<in> wk_id ` set (es_workers s)),
     s\<lparr>es_workers := filter (\<lambda>r. wk_id r \<noteq> i) (es_workers s)\<rparr>))"

text \<open>One transaction prunes and inserts.\<close>

definition InsertJoinToken :: "join_token_row \<Rightarrow> int \<Rightarrow> enroll_store \<Rightarrow> (db_error + unit) \<times> enroll_store" where
  "InsertJoinToken row now = estx (\<lambda>s.
     let live = filter (\<lambda>r. \<not> jt_expires r \<le> now) (es_tokens s)
     in if jt_id row \<in> jt_id ` set live then (Inl DuplicateKey, s)
        else (Inr (), s\<lparr>es_tokens := live @ [row]\<rparr>))"

text \<open>Two statements: a prune, then the query.\<close>

definition ListValidJoinTokens :: "int \<Rightarrow> enroll_store \<Rightarrow> (db_error + join_token_row list) \<times> enroll_store" where
  "ListValidJoinTokens now s = (case estx (\<lambda>s. (Inr (),
        s\<lparr>es_tokens := filter (\<lambda>r. \<not> jt_expires r \<le> now) (es_tokens s)\<rparr>)) s of
      (Inl e, s) \<Rightarrow> (Inl e, s)
    | (Inr _, s) \<Rightarrow> estx (\<lambda>s. (Inr (sort_key jt_created (filter (\<lambda>r. jt_expires r > now) (es_tokens s))), s)) s)"

subsection \<open>The enroller\<close>

datatype enroll_error = ErrInvalidJoinToken | ErrUnknownWorker | ErrBadWorkerSecret | NoRandomness | HashFailed
  | StoreFailed db_error

text \<open>\<open>now\<close> is in milliseconds; the tables hold whole seconds.\<close>

definition MintJoinToken :: "time \<Rightarrow> bytes option \<Rightarrow> string \<Rightarrow> (string \<Rightarrow> string option) \<Rightarrow> time \<Rightarrow> enroll_store
    \<Rightarrow> (enroll_error + (string \<times> int)) \<times> enroll_store" where
  "MintJoinToken ttl random i hash now s =
     (let ttl = (if ttl \<le> 0 then DefaultJoinTokenTTLSeconds * 1000 else ttl) in
      case NewJoinToken random of
        None \<Rightarrow> (Inl NoRandomness, s)
      | Some token \<Rightarrow> (case hash token of
          None \<Rightarrow> (Inl HashFailed, s)
        | Some h \<Rightarrow>
            let expiresAt = (now + ttl) div 1000;
                row = \<lparr> jt_id = i, jt_hash = h, jt_expires = expiresAt, jt_created = now div 1000 \<rparr>
            in (case InsertJoinToken row (now div 1000) s of
                 (Inl e, s) \<Rightarrow> (Inl (StoreFailed e), s)
               | (Inr _, s) \<Rightarrow> (Inr (token, expiresAt), s))))"

definition validateJoinToken :: "(string \<Rightarrow> string \<Rightarrow> bool) \<Rightarrow> string \<Rightarrow> time \<Rightarrow> enroll_store
    \<Rightarrow> (enroll_error + unit) \<times> enroll_store" where
  "validateJoinToken matches token now s = (case ListValidJoinTokens (now div 1000) s of
      (Inl e, s) \<Rightarrow> (Inl (StoreFailed e), s)
    | (Inr live, s) \<Rightarrow>
        (if list_ex (\<lambda>row. matches (jt_hash row) token) live then Inr () else Inl ErrInvalidJoinToken, s))"

definition Enroll :: "string \<Rightarrow> worker_id \<Rightarrow> bytes option \<Rightarrow> (string \<Rightarrow> string option) \<Rightarrow> time \<Rightarrow> enroll_store
    \<Rightarrow> (enroll_error + (worker_id \<times> string)) \<times> enroll_store" where
  "Enroll name i random hash now s = (case NewWorkerSecret random of
      None \<Rightarrow> (Inl NoRandomness, s)
    | Some secret \<Rightarrow> (case hash secret of
        None \<Rightarrow> (Inl HashFailed, s)
      | Some h \<Rightarrow>
          let row = \<lparr> wk_id = i, wk_name = name, wk_hash = h, wk_created = now div 1000 \<rparr>
          in (case InsertWorker row s of
               (Inl e, s) \<Rightarrow> (Inl (StoreFailed e), s)
             | (Inr _, s) \<Rightarrow> (Inr (i, secret), s))))"

definition authenticateWorker :: "(string \<Rightarrow> string \<Rightarrow> bool) \<Rightarrow> worker_id \<Rightarrow> string \<Rightarrow> enroll_store
    \<Rightarrow> (enroll_error + unit) \<times> enroll_store" where
  "authenticateWorker matches i secret s = (case GetWorker i s of
      (Inl NoRows, s) \<Rightarrow> (Inl ErrUnknownWorker, s)
    | (Inl e, s) \<Rightarrow> (Inl (StoreFailed e), s)
    | (Inr row, s) \<Rightarrow> (if matches (wk_hash row) secret then Inr () else Inl ErrBadWorkerSecret, s))"

subsection \<open>Tokens are as many as their random bytes\<close>

lemma url_char_inj: "m < 64 \<Longrightarrow> n < 64 \<Longrightarrow> url_char m = url_char n \<longleftrightarrow> m = n"
proof -
  have d: "distinct url_alphabet" "length url_alphabet = 64" by (simp_all add: url_alphabet_def)
  show "m < 64 \<Longrightarrow> n < 64 \<Longrightarrow> url_char m = url_char n \<longleftrightarrow> m = n"
    unfolding url_char_def using nth_eq_iff_index_eq [OF d(1)] d(2) by simp
qed

lemma byte_bound: "unat (b :: byte) < 256"
  using unsigned_less [of b] by simp

lemma mix_bound: "x < 4 \<Longrightarrow> y < 16 \<Longrightarrow> x * 16 + y < (64 :: nat)" "x < 16 \<Longrightarrow> y < 4 \<Longrightarrow> x * 4 + y < (64 :: nat)"
  "x < 4 \<Longrightarrow> x * 16 < (64 :: nat)" "x < 16 \<Longrightarrow> x * 4 < (64 :: nat)"
  by simp_all

lemma sextets_bound:
  "unat (a :: byte) div 4 < 64" "unat a mod 4 * 16 < 64" "unat a mod 16 * 4 < 64" "unat a mod 64 < 64"
  "unat a mod 4 * 16 + unat (b :: byte) div 16 < 64" "unat b mod 16 * 4 + unat (c :: byte) div 64 < 64"
proof -
  have m: "unat x mod 4 < 4" "unat x mod 16 < 16" for x :: byte by simp_all
  have d: "unat x div 4 < 64" "unat x div 16 < 16" "unat x div 64 < 4" for x :: byte
    using byte_bound [of x] by (simp_all add: less_mult_imp_div_less)
  show "unat a div 4 < 64" "unat a mod 64 < 64" by (rule d) simp
  show "unat a mod 4 * 16 < 64" "unat a mod 16 * 4 < 64" by (rule mix_bound, rule m)+
  show "unat a mod 4 * 16 + unat b div 16 < 64" "unat b mod 16 * 4 + unat c div 64 < 64"
    by (rule mix_bound, rule m, rule d)+
qed

lemma sextets_mix:
  "(x :: nat) * k + y = x' * k + y' \<longleftrightarrow> x = x' \<and> y = y'" if "y < k" "y' < k"
proof
  assume e: "x * k + y = x' * k + y'"
  then have "(x * k + y) div k = (x' * k + y') div k" "(x * k + y) mod k = (x' * k + y') mod k" by simp_all
  with that show "x = x' \<and> y = y'" by simp
qed simp

lemma sextet_pair:
  "unat (a :: byte) mod 4 * 16 + unat (b :: byte) div 16 = unat (a' :: byte) mod 4 * 16 + unat (b' :: byte) div 16
     \<longleftrightarrow> unat a mod 4 = unat a' mod 4 \<and> unat b div 16 = unat b' div 16"
  "unat b mod 16 * 4 + unat (c :: byte) div 64 = unat b' mod 16 * 4 + unat (c' :: byte) div 64
     \<longleftrightarrow> unat b mod 16 = unat b' mod 16 \<and> unat c div 64 = unat c' div 64"
proof -
  have "unat b div 16 < 16" "unat b' div 16 < 16" "unat c div 64 < 4" "unat c' div 64 < 4"
    using byte_bound [of b] byte_bound [of b'] byte_bound [of c] byte_bound [of c'] by (simp_all add: less_mult_imp_div_less)
  then show "unat a mod 4 * 16 + unat b div 16 = unat a' mod 4 * 16 + unat b' div 16
     \<longleftrightarrow> unat a mod 4 = unat a' mod 4 \<and> unat b div 16 = unat b' div 16"
    "unat b mod 16 * 4 + unat c div 64 = unat b' mod 16 * 4 + unat c' div 64
     \<longleftrightarrow> unat b mod 16 = unat b' mod 16 \<and> unat c div 64 = unat c' div 64"
    by (simp_all add: sextets_mix)
qed

lemma byte_join: "(unat (b :: byte) div 16 = unat b' div 16 \<and> unat b mod 16 = unat b' mod 16) \<longleftrightarrow> b = b'"
  "(unat b div 64 = unat b' div 64 \<and> unat b mod 64 = unat b' mod 64) \<longleftrightarrow> b = b'"
  "(unat b div 4 = unat b' div 4 \<and> unat b mod 4 = unat b' mod 4) \<longleftrightarrow> b = b'"
  by (metis div_mult_mod_eq word_unat_eq_iff)+

lemma raw_url_encode_inj: "length xs = length ys \<Longrightarrow> raw_url_encode xs = raw_url_encode ys \<longleftrightarrow> xs = ys"
proof (induction xs arbitrary: ys rule: raw_url_encode.induct)
  case (2 a)
  then obtain a' where "ys = [a']" by (cases ys) auto
  then show ?case using byte_join(3) [of a a'] by (auto simp: url_char_inj sextets_bound)
next
  case (3 a b)
  then obtain a' b' where "ys = [a', b']" by (auto simp: length_Suc_conv eq_commute [of _ "length ys"])
  then show ?case using byte_join [of a a'] byte_join [of b b']
    by (auto simp: url_char_inj sextets_bound sextet_pair)
next
  case (4 a b c bs)
  then obtain a' b' c' bs' where ys: "ys = a' # b' # c' # bs'" "length bs = length bs'"
    by (auto simp: length_Suc_conv eq_commute [of _ "length ys"])
  with 4 show ?case using byte_join [of a a'] byte_join [of b b'] byte_join [of c c']
    by (auto simp: url_char_inj sextets_bound sextet_pair)
qed simp

lemma length_raw_url_encode: "length (raw_url_encode bs) = (8 * length bs + 5) div 6"
  by (induction bs rule: raw_url_encode.induct) simp_all

text \<open>A credential keeps all its randomness: two secrets, or two join tokens, are equal only when their 32 random
  bytes are, each has 47 characters, and no secret is ever a join token.\<close>

lemma credentials_distinct:
  assumes "length b = credentialRandomBytes" "length b' = credentialRandomBytes"
  shows "(NewWorkerSecret (Some b) = NewWorkerSecret (Some b') \<longleftrightarrow> b = b')
    \<and> (NewJoinToken (Some b) = NewJoinToken (Some b') \<longleftrightarrow> b = b')
    \<and> NewWorkerSecret (Some b) \<noteq> NewJoinToken (Some b')
    \<and> map_option length (NewWorkerSecret (Some b)) = Some 47 \<and> map_option looksLikeJoinToken (NewJoinToken (Some b)) = Some True"
  using assms raw_url_encode_inj [of b b']
  by (auto simp: NewWorkerSecret_def NewJoinToken_def newCredential_def workerSecretPrefix_def joinTokenPrefix_def
      length_raw_url_encode credentialRandomBytes_def looksLikeJoinToken_def)

subsection \<open>The life of a credential\<close>

datatype cred_op =
    OpMint time "bytes option" string "string \<Rightarrow> string option" time
  | OpValidate string time
  | OpEnroll string worker_id "bytes option" "string \<Rightarrow> string option" time
  | OpAuth worker_id string
  | OpRevoke worker_id

fun cred_step :: "(string \<Rightarrow> string \<Rightarrow> bool) \<Rightarrow> cred_op \<Rightarrow> enroll_store \<Rightarrow> enroll_store" where
  "cred_step matches (OpMint ttl random i hash now) s = snd (MintJoinToken ttl random i hash now s)"
| "cred_step matches (OpValidate token now) s = snd (validateJoinToken matches token now s)"
| "cred_step matches (OpEnroll name i random hash now) s = snd (Enroll name i random hash now s)"
| "cred_step matches (OpAuth i secret) s = snd (authenticateWorker matches i secret s)"
| "cred_step matches (OpRevoke i) s = snd (DeleteWorker i s)"

text \<open>The hash on record for a worker, and what one operation may do to it.\<close>

definition hash_of :: "worker_id \<Rightarrow> enroll_store \<Rightarrow> string option" where
  "hash_of i s = map_option wk_hash (find (\<lambda>r. wk_id r = i) (es_workers s))"

lemma find_filter_other: "i \<noteq> j \<Longrightarrow> find (\<lambda>r. wk_id r = i) (filter (\<lambda>r. wk_id r \<noteq> j) rs) = find (\<lambda>r. wk_id r = i) rs"
  by (induction rs) auto

lemma find_filter_same: "find (\<lambda>r. wk_id r = i) (filter (\<lambda>r. wk_id r \<noteq> i) rs) = None"
  by (induction rs) auto

lemma find_append: "find P (xs @ ys) = (case find P xs of None \<Rightarrow> find P ys | Some x \<Rightarrow> Some x)"
  by (induction xs) auto

lemma find_worker_none: "find (\<lambda>r. wk_id r = i) rs = None \<longleftrightarrow> i \<notin> wk_id ` set rs"
  by (induction rs) auto

lemma reads_workers:
  "GetWorker i s = (r, s') \<Longrightarrow> es_workers s' = es_workers s"
  "ListValidJoinTokens now s = (r', s') \<Longrightarrow> es_workers s' = es_workers s"
  "InsertJoinToken row now s = (r'', s') \<Longrightarrow> es_workers s' = es_workers s"
  by (auto simp: GetWorker_def ListValidJoinTokens_def InsertJoinToken_def estx_def Let_def split: if_splits)

lemma cred_step_others [simp]:
  "es_workers (snd (MintJoinToken ttl random i hash now s)) = es_workers s"
  "es_workers (snd (validateJoinToken matches token now s)) = es_workers s"
  "es_workers (snd (authenticateWorker matches i secret s)) = es_workers s"
  unfolding MintJoinToken_def validateJoinToken_def authenticateWorker_def Let_def
  by (auto split: sum.split prod.split option.split db_error.split dest: reads_workers)

definition enrolls :: "worker_id \<Rightarrow> cred_op \<Rightarrow> bool" where
  "enrolls i op = (case op of OpEnroll _ j _ _ _ \<Rightarrow> i = j | _ \<Rightarrow> False)"

lemma Enroll_other: "i \<noteq> j \<Longrightarrow> hash_of i (snd (Enroll name j random hash now s)) = hash_of i s"
  by (auto simp: Enroll_def InsertWorker_def estx_def hash_of_def find_append Let_def split: option.split)

lemma Enroll_taken: "hash_of i s \<noteq> None \<Longrightarrow> hash_of i (snd (Enroll name i random hash now s)) = hash_of i s"
  by (auto simp: Enroll_def InsertWorker_def estx_def hash_of_def find_append find_worker_none Let_def split: option.split)

lemma cred_step_keeps:
  assumes "op \<noteq> OpRevoke i" "hash_of i s \<noteq> None \<or> \<not> enrolls i op"
  shows "hash_of i (cred_step matches op s) = hash_of i s"
proof (cases op)
  case (OpEnroll name j random hash now)
  with assms show ?thesis by (cases "i = j") (simp_all add: Enroll_other Enroll_taken enrolls_def)
next
  case (OpRevoke j)
  with assms have "i \<noteq> j" by simp
  with OpRevoke show ?thesis
    by (simp add: hash_of_def DeleteWorker_def estx_def find_filter_other Let_def)
qed (simp_all add: hash_of_def)

lemma cred_run_keeps:
  assumes "OpRevoke i \<notin> set ops" "hash_of i s \<noteq> None \<or> (\<forall>op \<in> set ops. \<not> enrolls i op)"
  shows "hash_of i (fold (cred_step matches) ops s) = hash_of i s"
  using assms
proof (induction ops arbitrary: s)
  case (Cons op ops)
  then have "hash_of i (cred_step matches op s) = hash_of i s" by (intro cred_step_keeps) auto
  with Cons.IH [of "cred_step matches op s"] Cons.prems show ?case by auto
qed simp

lemma authenticate_hash:
  assumes "es_faults s = []"
  shows "fst (authenticateWorker matches i q s) = (case hash_of i s of None \<Rightarrow> Inl ErrUnknownWorker
    | Some h \<Rightarrow> if matches h q then Inr () else Inl ErrBadWorkerSecret)"
  using assms by (simp add: authenticateWorker_def GetWorker_def estx_def hash_of_def split: option.split)

lemma absent_stays:
  assumes "hash_of i s = None" "\<forall>op \<in> set ops. \<not> enrolls i op"
  shows "hash_of i (fold (cred_step matches) ops s) = None"
  using assms
proof (induction ops arbitrary: s)
  case (Cons op ops)
  have "hash_of i (cred_step matches op s) = None"
  proof (cases "op = OpRevoke i")
    case True
    with Cons.prems(1) show ?thesis by (simp add: hash_of_def DeleteWorker_def estx_def find_filter_same Let_def)
  next
    case False
    with Cons.prems show ?thesis by (simp add: cred_step_keeps)
  qed
  with Cons show ?case by simp
qed simp

lemma cred_step_faults: "es_faults s = [] \<Longrightarrow> es_faults (cred_step matches op s) = []"
  by (cases op) (simp_all add: MintJoinToken_def validateJoinToken_def authenticateWorker_def Enroll_def GetWorker_def
      ListValidJoinTokens_def InsertJoinToken_def InsertWorker_def DeleteWorker_def estx_def Let_def
      split: option.split sum.split prod.split db_error.split)

lemma cred_run_faults: "es_faults s = [] \<Longrightarrow> es_faults (fold (cred_step matches) ops s) = []"
  by (induction ops arbitrary: s) (simp_all add: cred_step_faults)

lemma Enroll_hash:
  assumes "Enroll name i random hash now s = (Inr (j, secret), s1)"
  shows "\<exists>h. hash secret = Some h \<and> hash_of i s1 = Some h \<and> j = i \<and> (es_faults s = [] \<longrightarrow> es_faults s1 = [])"
proof -
  obtain h where "NewWorkerSecret random = Some secret" "hash secret = Some h" "j = i"
    "InsertWorker \<lparr> wk_id = i, wk_name = name, wk_hash = h, wk_created = now div 1000 \<rparr> s = (Inr (), s1)"
    using assms by (auto simp: Enroll_def Let_def split: option.splits sum.splits prod.splits)
  moreover from this(4) have "hash_of i s1 = Some h" "es_faults s = [] \<longrightarrow> es_faults s1 = []"
    using find_worker_none [of i "es_workers s"]
    by (auto simp: InsertWorker_def estx_def hash_of_def find_append Let_def split: if_splits option.splits)
  ultimately show ?thesis by blast
qed

text \<open>C39. A worker gets in with its own secret and no other, from the moment it is enrolled until it is revoked,
  whatever tokens and workers come and go in between; and once revoked it is unknown for good, since ids are never
  minted twice. bcrypt is taken to accept exactly the password it hashed.\<close>

theorem credential_until_revoked:
  assumes bcrypt: "\<forall>p h q. hash p = Some h \<longrightarrow> matches h q = (q = p)"
    and enrolled: "Enroll name i random hash now s = (Inr (i, secret), s1)" and ok: "es_faults s = []"
    and kept: "OpRevoke i \<notin> set ops" and ids: "\<forall>op \<in> set later. \<not> enrolls i op"
  shows "fst (authenticateWorker matches i q (fold (cred_step matches) ops s1))
        = (if q = secret then Inr () else Inl ErrBadWorkerSecret)
      \<and> fst (authenticateWorker matches i q (fold (cred_step matches) (ops @ OpRevoke i # later) s1)) = Inl ErrUnknownWorker"
proof -
  obtain h where h: "hash secret = Some h" "hash_of i s1 = Some h" "es_faults s1 = []"
    using Enroll_hash [OF enrolled] ok by blast
  define s2 where "s2 = fold (cred_step matches) ops s1"
  have "hash_of i s2 = Some h" "es_faults s2 = []"
    using cred_run_keeps [OF kept, of s1 matches] cred_run_faults [OF h(3)] h(2) by (simp_all add: s2_def)
  moreover from this have "hash_of i (cred_step matches (OpRevoke i) s2) = None"
    by (simp add: DeleteWorker_def estx_def hash_of_def find_filter_same Let_def)
  then have "hash_of i (fold (cred_step matches) later (cred_step matches (OpRevoke i) s2)) = None"
    using ids by (rule absent_stays)
  moreover have "es_faults (fold (cred_step matches) later (cred_step matches (OpRevoke i) s2)) = []"
    using calculation(2) by (simp only: cred_run_faults cred_step_faults)
  ultimately show ?thesis using bcrypt h(1) by (simp add: authenticate_hash s2_def [symmetric])
qed

definition demo_hash :: "string \<Rightarrow> string option" where "demo_hash p = Some (''#'' @ p)"

definition demo_matches :: "string \<Rightarrow> string \<Rightarrow> bool" where "demo_matches h q \<longleftrightarrow> h = ''#'' @ q"

definition demo_store :: enroll_store where
  "demo_store = \<lparr> es_workers = [], es_tokens = [], es_faults = [] \<rparr>"

definition demo_ops :: "cred_op list" where
  "demo_ops = [OpMint 0 (Some [1]) ''t'' demo_hash 0, OpEnroll ''other'' ''w2'' (Some [2]) demo_hash 5, OpRevoke ''w2'']"

theorem credential_until_revoked_witness:
  "\<exists>secret s1. Enroll ''n'' ''w'' (Some [7]) demo_hash 0 demo_store = (Inr (''w'', secret), s1)
    \<and> fst (authenticateWorker demo_matches ''w'' secret (fold (cred_step demo_matches) demo_ops s1)) = Inr ()
    \<and> fst (authenticateWorker demo_matches ''w'' secret (fold (cred_step demo_matches) (demo_ops @ [OpRevoke ''w'']) s1))
        = Inl ErrUnknownWorker"
proof -
  obtain secret s1 where e: "Enroll ''n'' ''w'' (Some [7]) demo_hash 0 demo_store = (Inr (''w'', secret), s1)"
    by (simp add: Enroll_def NewWorkerSecret_def newCredential_def demo_hash_def InsertWorker_def estx_def demo_store_def Let_def)
  have b: "\<forall>p h q. demo_hash p = Some h \<longrightarrow> demo_matches h q = (q = p)"
    by (auto simp: demo_hash_def demo_matches_def)
  have k: "OpRevoke ''w'' \<notin> set demo_ops" by (simp add: demo_ops_def)
  from credential_until_revoked [OF b e _ k, of "[]" secret] e show ?thesis by (simp add: demo_store_def)
qed

subsection \<open>The window of a join token\<close>

text \<open>The operations of a history and the time each one reads.\<close>

definition op_time :: "cred_op \<Rightarrow> time option" where
  "op_time op = (case op of OpMint _ _ _ _ now \<Rightarrow> Some now | OpValidate _ now \<Rightarrow> Some now | _ \<Rightarrow> None)"

lemma token_kept:
  assumes "row \<in> set (es_tokens s)" "\<forall>now. op_time op = Some now \<longrightarrow> now div 1000 < jt_expires row"
  shows "row \<in> set (es_tokens (cred_step matches op s))"
  using assms by (cases op) (auto simp: op_time_def MintJoinToken_def validateJoinToken_def authenticateWorker_def Enroll_def
      GetWorker_def ListValidJoinTokens_def InsertJoinToken_def InsertWorker_def DeleteWorker_def estx_def Let_def
      split: option.split sum.split prod.split db_error.split)

lemma token_kept_run:
  assumes "row \<in> set (es_tokens s)" "\<forall>op \<in> set ops. \<forall>now. op_time op = Some now \<longrightarrow> now div 1000 < jt_expires row"
  shows "row \<in> set (es_tokens (fold (cred_step matches) ops s))"
  using assms by (induction ops arbitrary: s) (simp_all add: token_kept)

lemma validate_result:
  assumes "es_faults s = []"
  shows "fst (validateJoinToken matches token now s) =
    (if \<exists>row \<in> set (es_tokens s). now div 1000 < jt_expires row \<and> matches (jt_hash row) token
     then Inr () else Inl ErrInvalidJoinToken)"
  using assms by (auto simp: validateJoinToken_def ListValidJoinTokens_def estx_def list_ex_iff)

text \<open>A join token opens enrollment for exactly its lifetime (an hour when the operator names none), for any number
  of workers: from its minting, through any history, it is accepted until the second it expires, and past that second a
  string is accepted only if some other unexpired token was minted for it.\<close>

theorem join_token_window:
  assumes bcrypt: "\<forall>p h q. hash p = Some h \<longrightarrow> matches h q = (q = p)" and ok: "es_faults s = []"
    and mint: "MintJoinToken ttl random i hash now s = (Inr (token, expires), s1)"
    and past: "\<forall>op \<in> set ops. \<forall>t. op_time op = Some t \<longrightarrow> t div 1000 < expires"
  shows "expires = (now + (if 0 < ttl then ttl else 3600000)) div 1000
    \<and> (t div 1000 < expires \<longrightarrow> fst (validateJoinToken matches token t (fold (cred_step matches) ops s1)) = Inr ())
    \<and> (fst (validateJoinToken matches q t (fold (cred_step matches) ops s1)) = Inr () \<longrightarrow>
        (\<exists>row \<in> set (es_tokens (fold (cred_step matches) ops s1)). t div 1000 < jt_expires row \<and> matches (jt_hash row) q))"
proof -
  obtain h where h: "hash token = Some h" "expires = (now + (if 0 < ttl then ttl else 3600000)) div 1000"
    "InsertJoinToken \<lparr> jt_id = i, jt_hash = h, jt_expires = expires, jt_created = now div 1000 \<rparr> (now div 1000) s = (Inr (), s1)"
    using mint by (auto simp: MintJoinToken_def DefaultJoinTokenTTLSeconds_def Let_def split: option.splits sum.splits prod.splits if_splits)
  let ?row = "\<lparr> jt_id = i, jt_hash = h, jt_expires = expires, jt_created = now div 1000 \<rparr>"
  have s1: "?row \<in> set (es_tokens s1)" "es_faults s1 = []"
    using h(3) ok by (auto simp: InsertJoinToken_def estx_def Let_def split: if_splits)
  have "?row \<in> set (es_tokens (fold (cred_step matches) ops s1))" using past by (intro token_kept_run [OF s1(1)]) simp
  moreover have "matches h token" using bcrypt h(1) by blast
  ultimately have "t div 1000 < expires \<longrightarrow>
      (\<exists>row \<in> set (es_tokens (fold (cred_step matches) ops s1)). t div 1000 < jt_expires row \<and> matches (jt_hash row) token)"
    by (intro impI bexI [of _ ?row]) simp_all
  moreover note validate_result [OF cred_run_faults [OF s1(2)], of matches _ t matches ops]
  ultimately show ?thesis using h(2) by simp
qed

theorem join_token_window_witness:
  "\<exists>token s1. MintJoinToken 0 (Some [1]) ''t'' demo_hash 500 demo_store = (Inr (token, 3600), s1)
    \<and> fst (validateJoinToken demo_matches token 3599999 (fold (cred_step demo_matches) demo_ops s1)) = Inr ()"
proof -
  obtain token s1 where e: "MintJoinToken 0 (Some [1]) ''t'' demo_hash 500 demo_store = (Inr (token, 3600), s1)"
    by (simp add: MintJoinToken_def NewJoinToken_def newCredential_def demo_hash_def InsertJoinToken_def estx_def demo_store_def
        DefaultJoinTokenTTLSeconds_def Let_def)
  have b: "\<forall>p h q. demo_hash p = Some h \<longrightarrow> demo_matches h q = (q = p)"
    by (auto simp: demo_hash_def demo_matches_def)
  have "\<forall>op \<in> set demo_ops. \<forall>t. op_time op = Some t \<longrightarrow> t div 1000 < 3600" by (simp add: demo_ops_def op_time_def)
  from join_token_window [OF b _ e this, of 3599999] e show ?thesis by (simp add: demo_store_def)
qed

end
