(* ===== verification/Hub.thy ===== *)
theory Hub
  imports Worker Credentials
begin

text \<open>
  The worker hub (\<open>internal/worker/hub.go\<close>): the handshake of a connecting worker, the messages of its
  stream, the reconciliation of its file cache and the end of the stream.

  \<open>Connect\<close> is cut where it blocks: \<open>hub_connect\<close> runs up to the receive loop, \<open>hub_receive\<close> handles one
  message, \<open>hub_stale\<close> is a turn of the liveness watcher, \<open>hub_close\<close> the deferred end. The fleet entry of a
  worker stands for the object its handler holds. The protocol negotiation of the wire package, the registry
  check and the answers of the stream are arguments; whether a peer is on the loopback interface is an argument too.
\<close>

subsection \<open>Messages\<close>

datatype hub_message = WorkerEnrolled worker_id string | HubSetEnabledDevices enabled_devices
  | HubDeleteCacheFiles "string list"

datatype job_result = ResultChunk bytes | ResultProgress rat string | ResultCompleted bytes | ResultError string | ResultUnset

datatype bench_failure_kind = FailureIncapable | FailureOther

text \<open>A model benchmark reply carries measurements, a failure, or (from a worker that left the outcome unset) nothing.\<close>

datatype model_bench_wire = WireMeasurements model_bench_result | WireFailure bench_failure_kind string | WireUnset

datatype worker_message =
    MsgRegister
  | MsgHeartbeat heartbeat
  | MsgJobResult string job_result
  | MsgLoadModel string int string
  | MsgUnloadModel string string
  | MsgBenchmark string "string list" string
  | MsgModelBenchmark model_id model_bench_wire
  | MsgUnknown

record registration =
  rg_worker :: worker_register
  rg_protocols :: "int list"

subsection \<open>The hub\<close>

record hub_config =
  hc_auth_disabled :: bool
  hc_runtime_ok :: "(runtime_name \<Rightarrow> bool) option"
  hc_negotiate :: "int list \<Rightarrow> bool"
  hc_compat :: "(runtime_name \<Rightarrow> string \<Rightarrow> string option) option"
  hc_enabled :: "(worker_id \<Rightarrow> device_id list \<Rightarrow> enabled_devices) option"
  hc_canonical :: "string list option"

record hub =
  hb_fleet :: fleet
  hb_store :: enroll_store
  hb_out :: "(worker_id \<times> hub_message) list"
  hb_updated :: "worker_id list"
  hb_loaded_changed :: "worker_id list"

datatype hub_error =
    RuntimeNameRequired
  | RuntimeNotInstalled runtime_name
  | NoCommonProtocol
  | Incompatible string
  | MissingSecret
  | UnknownOrRevoked
  | SecretMismatch
  | JoinTokenRequired
  | InvalidJoinToken
  | AuthInternal enroll_error
  | EnrollFailed enroll_error
  | EnrolledNotSent
  | AlreadyConnected

datatype connect_code = CodeUnknown | CodeUnauthenticated | CodeInternal | CodeFailedPrecondition

text \<open>The status a rejected worker sees.\<close>

fun code_of :: "hub_error \<Rightarrow> connect_code" where
  "code_of NoCommonProtocol = CodeFailedPrecondition"
| "code_of (Incompatible _) = CodeFailedPrecondition"
| "code_of MissingSecret = CodeUnauthenticated"
| "code_of UnknownOrRevoked = CodeUnauthenticated"
| "code_of SecretMismatch = CodeUnauthenticated"
| "code_of JoinTokenRequired = CodeUnauthenticated"
| "code_of InvalidJoinToken = CodeUnauthenticated"
| "code_of (AuthInternal _) = CodeInternal"
| "code_of (EnrollFailed _) = CodeInternal"
| "code_of _ = CodeUnknown"

definition bearer_prefix :: string where "bearer_prefix = ''Bearer ''"

definition bearerFromHeader :: "string \<Rightarrow> string" where
  "bearerFromHeader h =
     (if length h < length bearer_prefix \<or> take (length bearer_prefix) h \<noteq> bearer_prefix then ''''
      else drop (length bearer_prefix) h)"

text \<open>The checks made before any credential is touched.\<close>

definition checkRegistration :: "hub_config \<Rightarrow> registration \<Rightarrow> hub_error option" where
  "checkRegistration cfg reg =
     (let rt = reg_runtime_name (rg_worker reg) in
      if rt = '''' then Some RuntimeNameRequired
      else if (case hc_runtime_ok cfg of None \<Rightarrow> False | Some ok \<Rightarrow> \<not> ok rt) then Some (RuntimeNotInstalled rt)
      else if \<not> hc_negotiate cfg (rg_protocols reg) then Some NoCommonProtocol
      else case hc_compat cfg of
          None \<Rightarrow> None
        | Some check \<Rightarrow> map_option Incompatible (check rt (reg_version (rg_worker reg))))"

text \<open>The join token an enrolling worker needs, unless authentication is off.\<close>

definition enroll_gate :: "hub_config \<Rightarrow> (string \<Rightarrow> string \<Rightarrow> bool) \<Rightarrow> string \<Rightarrow> time \<Rightarrow> enroll_store
    \<Rightarrow> (hub_error + unit) \<times> enroll_store" where
  "enroll_gate cfg matches bearer now s =
     (if hc_auth_disabled cfg then (Inr (), s)
      else if bearer = '''' then (Inl JoinTokenRequired, s)
      else case validateJoinToken matches bearer now s of
          (Inl ErrInvalidJoinToken, s) \<Rightarrow> (Inl InvalidJoinToken, s)
        | (Inl e, s) \<Rightarrow> (Inl (AuthInternal e), s)
        | (Inr _, s) \<Rightarrow> (Inr (), s))"

definition steady_state :: "(string \<Rightarrow> string \<Rightarrow> bool) \<Rightarrow> worker_id \<Rightarrow> string \<Rightarrow> enroll_store
    \<Rightarrow> (hub_error + unit) \<times> enroll_store" where
  "steady_state matches presentedID bearer s =
     (if bearer = '''' then (Inl MissingSecret, s)
      else case authenticateWorker matches presentedID bearer s of
          (Inl ErrUnknownWorker, s) \<Rightarrow> (Inl UnknownOrRevoked, s)
        | (Inl ErrBadWorkerSecret, s) \<Rightarrow> (Inl SecretMismatch, s)
        | (Inl e, s) \<Rightarrow> (Inl (AuthInternal e), s)
        | (Inr _, s) \<Rightarrow> (Inr (), s))"

text \<open>The worker's identity and, when it enrolled just now, its secret.\<close>

definition authenticate :: "hub_config \<Rightarrow> (string \<Rightarrow> string \<Rightarrow> bool) \<Rightarrow> (string \<Rightarrow> string option) \<Rightarrow> worker_id \<Rightarrow> string
    \<Rightarrow> string \<Rightarrow> worker_id \<Rightarrow> bytes option \<Rightarrow> time \<Rightarrow> enroll_store
    \<Rightarrow> (hub_error + (worker_id \<times> string option)) \<times> enroll_store" where
  "authenticate cfg matches hash presentedID bearer name i random now s =
     (if presentedID \<noteq> ''''
      then case steady_state matches presentedID bearer s of
          (Inl e, s) \<Rightarrow> (Inl e, s)
        | (Inr _, s) \<Rightarrow> (Inr (presentedID, None), s)
      else case enroll_gate cfg matches bearer now s of
          (Inl e, s) \<Rightarrow> (Inl e, s)
        | (Inr _, s) \<Rightarrow> (case Enroll name i random hash now s of
            (Inl e, s) \<Rightarrow> (Inl (EnrollFailed e), s)
          | (Inr (i, secret), s) \<Rightarrow> (Inr (i, Some secret), s)))"

definition hub_send :: "worker_id \<Rightarrow> hub_message \<Rightarrow> hub \<Rightarrow> hub" where
  "hub_send i msg h = h\<lparr>hb_out := hb_out h @ [(i, msg)]\<rparr>"

text \<open>The device whitelist pushed on every connect.\<close>

definition enabled_for :: "hub_config \<Rightarrow> worker_id \<Rightarrow> registration \<Rightarrow> enabled_devices" where
  "enabled_for cfg workerID reg = (case hc_enabled cfg of
      None \<Rightarrow> \<lparr> ed_all = True, ed_ids = [] \<rparr>
    | Some f \<Rightarrow> f workerID (map dev_id (reg_devices (rg_worker reg))))"

text \<open>\<open>sent_enrolled\<close> and \<open>sent_devices\<close> are whether the stream takes the two messages of the handshake.\<close>

definition hub_connect :: "hub_config \<Rightarrow> (string \<Rightarrow> string \<Rightarrow> bool) \<Rightarrow> (string \<Rightarrow> string option) \<Rightarrow> worker_id \<Rightarrow> string
    \<Rightarrow> registration \<Rightarrow> worker_id \<Rightarrow> bytes option \<Rightarrow> bool \<Rightarrow> bool \<Rightarrow> bool \<Rightarrow> time \<Rightarrow> hub \<Rightarrow> (hub_error + worker_id) \<times> hub" where
  "hub_connect cfg matches hash presentedID auth_header reg i random sent_enrolled sent_devices loopback now h =
     (case checkRegistration cfg reg of
        Some e \<Rightarrow> (Inl e, h)
      | None \<Rightarrow> (case authenticate cfg matches hash presentedID (bearerFromHeader auth_header) (reg_name (rg_worker reg)) i random now (hb_store h) of
          (Inl e, s) \<Rightarrow> (Inl e, h\<lparr>hb_store := s\<rparr>)
        | (Inr (workerID, secret), s) \<Rightarrow>
            let h = h\<lparr>hb_store := s\<rparr> in
            if secret \<noteq> None \<and> \<not> sent_enrolled then (Inl EnrolledNotSent, h)
            else
              let h = (case secret of None \<Rightarrow> h | Some sec \<Rightarrow> hub_send workerID (WorkerEnrolled workerID sec) h);
                  w = NewStreamWorker workerID (rg_worker reg) loopback now;
                  (fresh, fleet) = Register w (hb_fleet h)
              in if \<not> fresh then (Inl AlreadyConnected, h)
                 else
                   let h = h\<lparr>hb_fleet := fleet\<rparr>;
                       enabled = enabled_for cfg workerID reg
                   in (Inr workerID, if send_ok sent_devices w then hub_send workerID (HubSetEnabledDevices enabled) h else h)))"

subsection \<open>Cache reconciliation\<close>

definition covers :: "string \<Rightarrow> string \<Rightarrow> bool" where
  "covers dir path \<longleftrightarrow> length path > length dir \<and> path ! length dir = CHR ''/'' \<and> take (length dir) path = dir"

definition isProtected :: "string \<Rightarrow> string list \<Rightarrow> bool" where
  "isProtected f protected = list_ex (\<lambda>p. f = p \<or> covers p f \<or> covers f p) protected"

definition loadedFiles :: "stream_worker \<Rightarrow> string list" where
  "loadedFiles w = concat (map lm_files (w_loaded w))"

text \<open>The message the pass sends, if any.\<close>

definition maybeReconcile :: "hub_config \<Rightarrow> bool \<Rightarrow> stream_worker \<Rightarrow> hub \<Rightarrow> hub" where
  "maybeReconcile cfg sent w h = (case hc_canonical cfg of
      None \<Rightarrow> h
    | Some canonical \<Rightarrow>
        if length (w_cache_files w) = 0 \<or> length canonical = 0 then h
        else let stale = filter (\<lambda>f. f \<notin> set canonical \<and> \<not> isProtected f (loadedFiles w)) (w_cache_files w)
             in if length stale = 0 \<or> \<not> send_ok sent w then h
                else hub_send (w_id w) (HubDeleteCacheFiles stale) h)"

subsection \<open>The receive loop\<close>

definition model_bench_text :: "bench_failure_kind \<Rightarrow> string \<Rightarrow> string" where
  "model_bench_text kind msg = (case kind of
      FailureIncapable \<Rightarrow> ''model benchmark: device set cannot run this model''
    | FailureOther \<Rightarrow> ''model benchmark: transient failure'') @ '': '' @ (if msg = '''' then ''worker reported no outcome'' else msg)"

definition modelBenchOutcomeOf :: "model_bench_wire \<Rightarrow> model_bench_error + model_bench_result" where
  "modelBenchOutcomeOf r = (case r of
      WireMeasurements m \<Rightarrow> Inr m
    | WireFailure FailureIncapable msg \<Rightarrow> Inl (ErrBenchIncapable (model_bench_text FailureIncapable msg))
    | WireFailure FailureOther msg \<Rightarrow> Inl (ErrBenchTransient (model_bench_text FailureOther msg))
    | WireUnset \<Rightarrow> Inl (ErrBenchTransient (model_bench_text FailureOther '''')))"

definition chunk_of :: "job_result \<Rightarrow> job_chunk option" where
  "chunk_of r = (case r of
      ResultChunk c \<Rightarrow> Some \<lparr> jc_type = JobChunkTypeChunk, jc_chunk = c, jc_final = [], jc_pct = 0, jc_note = '''', jc_err = '''' \<rparr>
    | ResultProgress pct note \<Rightarrow> Some \<lparr> jc_type = JobChunkTypeProgress, jc_chunk = [], jc_final = [], jc_pct = pct, jc_note = note, jc_err = '''' \<rparr>
    | ResultCompleted body \<Rightarrow> Some \<lparr> jc_type = JobChunkTypeCompleted, jc_chunk = [], jc_final = body, jc_pct = 0, jc_note = '''', jc_err = '''' \<rparr>
    | ResultError msg \<Rightarrow> Some \<lparr> jc_type = JobChunkTypeError, jc_chunk = [], jc_final = [], jc_pct = 0, jc_note = '''', jc_err = msg \<rparr>
    | ResultUnset \<Rightarrow> None)"

definition deliverJobResult :: "string \<Rightarrow> job_result \<Rightarrow> stream_worker \<Rightarrow> stream_worker" where
  "deliverJobResult jobID r w = (case chunk_of r of None \<Rightarrow> w | Some chunk \<Rightarrow> DeliverJobChunk jobID chunk w)"

definition set_worker :: "stream_worker \<Rightarrow> fleet \<Rightarrow> fleet" where
  "set_worker w f = f\<lparr>fl_workers := AList.update (w_id w) w (fl_workers f)\<rparr>"

text \<open>What a message does to the worker's object.\<close>

definition handle_message :: "time \<Rightarrow> worker_message \<Rightarrow> stream_worker \<Rightarrow> stream_worker" where
  "handle_message now msg w = (case msg of
      MsgHeartbeat hb \<Rightarrow> snd (ApplyHeartbeat now hb w)
    | MsgJobResult jobID r \<Rightarrow> deliverJobResult jobID r w
    | MsgLoadModel jobID pool err \<Rightarrow> DeliverLoadResult jobID pool err w
    | MsgUnloadModel jobID err \<Rightarrow> DeliverUnloadResult jobID err w
    | MsgBenchmark jobID res err \<Rightarrow> DeliverBenchResult jobID res err w
    | MsgModelBenchmark key r \<Rightarrow> DeliverModelBenchResult key (modelBenchOutcomeOf r) w
    | _ \<Rightarrow> w)"

definition hub_receive :: "hub_config \<Rightarrow> worker_id \<Rightarrow> bool \<Rightarrow> time \<Rightarrow> worker_message \<Rightarrow> hub \<Rightarrow> hub" where
  "hub_receive cfg i sent now msg h = (case Get_worker i (hb_fleet h) of
      None \<Rightarrow> h
    | Some w \<Rightarrow>
        let w' = handle_message now msg w;
            h = h\<lparr>hb_fleet := set_worker w' (hb_fleet h)\<rparr>
        in case msg of
             MsgHeartbeat hb \<Rightarrow>
               let h = h\<lparr>hb_updated := hb_updated h @ [i]\<rparr>;
                   h = (if fst (ApplyHeartbeat now hb w) then h\<lparr>hb_loaded_changed := hb_loaded_changed h @ [i]\<rparr> else h)
               in maybeReconcile cfg sent w' h
           | _ \<Rightarrow> h)"

subsection \<open>Liveness and the end of a stream\<close>

definition heartbeatStaleAfter :: time where "heartbeatStaleAfter = 60 * 1000"

definition hub_stale :: "worker_id \<Rightarrow> time \<Rightarrow> hub \<Rightarrow> bool \<times> hub" where
  "hub_stale i now h = (case Get_worker i (hb_fleet h) of
      None \<Rightarrow> (False, h)
    | Some w \<Rightarrow> if HeartbeatStale heartbeatStaleAfter now w
               then (True, h\<lparr>hb_fleet := set_worker (SetOffline w) (hb_fleet h)\<rparr>) else (False, h))"

definition hub_close :: "worker_id \<Rightarrow> hub \<Rightarrow> hub" where
  "hub_close i h = (case Get_worker i (hb_fleet h) of
      None \<Rightarrow> h
    | Some w \<Rightarrow> h\<lparr>hb_fleet := snd (Deregister i (set_worker (SetOffline w) (hb_fleet h)))\<rparr>)"

subsection \<open>Who gets in\<close>

lemma GetWorker_cases:
  "GetWorker i s = (Inr row, s') \<Longrightarrow> row \<in> set (es_workers s) \<and> wk_id row = i"
  by (auto simp: GetWorker_def estx_def Let_def find_Some_iff split: if_splits option.splits)

lemma authenticateWorker_sound:
  assumes "authenticateWorker matches i q s = (Inr u, s')"
  shows "\<exists>row \<in> set (es_workers s). wk_id row = i \<and> matches (wk_hash row) q"
  using assms by (auto simp: authenticateWorker_def split: sum.splits prod.splits db_error.splits if_splits dest!: GetWorker_cases)

lemma validateJoinToken_sound:
  assumes "validateJoinToken matches q now s = (Inr u, s')"
  shows "\<exists>row \<in> set (es_tokens s). now div 1000 < jt_expires row \<and> matches (jt_hash row) q"
  using assms by (auto simp: validateJoinToken_def ListValidJoinTokens_def estx_def Let_def list_ex_iff split: if_splits)

lemma Enroll_row:
  assumes "Enroll name i random hash now s = (r, s')"
  shows "case r of Inl _ \<Rightarrow> es_workers s' = es_workers s
    | Inr (j, secret) \<Rightarrow> j = i \<and> i \<notin> wk_id ` set (es_workers s) \<and> (\<exists>h. hash secret = Some h
        \<and> es_workers s' = es_workers s @ [\<lparr> wk_id = i, wk_name = name, wk_hash = h, wk_created = now div 1000 \<rparr>])"
  using assms by (auto simp: Enroll_def InsertWorker_def estx_def Let_def split: option.splits if_splits)

lemma workers_unchanged:
  "validateJoinToken matches q now s = (r, s') \<Longrightarrow> es_workers s' = es_workers s"
  "authenticateWorker matches i q s = (r', s') \<Longrightarrow> es_workers s' = es_workers s"
  using cred_step_others(2) [of matches q now s] cred_step_others(3) [of matches i q s] by simp_all

lemma steady_state_sound:
  assumes "steady_state matches i q s = (r, s')"
  shows "es_workers s' = es_workers s"
    "r = Inr u \<Longrightarrow> q \<noteq> '''' \<and> (\<exists>row \<in> set (es_workers s). wk_id row = i \<and> matches (wk_hash row) q)"
proof -
  obtain r1 s1 where a: "authenticateWorker matches i q s = (r1, s1)" by fastforce
  note w = workers_unchanged(2) [OF a]
  show "es_workers s' = es_workers s"
    using assms w by (auto simp: steady_state_def a split: sum.splits enroll_error.splits if_splits)
  show "q \<noteq> '''' \<and> (\<exists>row \<in> set (es_workers s). wk_id row = i \<and> matches (wk_hash row) q)" if "r = Inr u"
  proof -
    have "q \<noteq> ''''" "r1 = Inr ()"
      using assms that by (auto simp: steady_state_def a split: sum.splits enroll_error.splits if_splits)
    with a authenticateWorker_sound show ?thesis by blast
  qed
qed

lemma enroll_gate_sound:
  assumes "enroll_gate cfg matches q now s = (r, s')"
  shows "es_workers s' = es_workers s"
    "r = Inr u \<Longrightarrow> hc_auth_disabled cfg \<or> (\<exists>row \<in> set (es_tokens s). now div 1000 < jt_expires row \<and> matches (jt_hash row) q)"
proof -
  obtain r1 s1 where a: "validateJoinToken matches q now s = (r1, s1)" by fastforce
  note w = workers_unchanged(1) [OF a]
  show "es_workers s' = es_workers s"
    using assms w by (auto simp: enroll_gate_def a split: sum.splits enroll_error.splits if_splits)
  show "hc_auth_disabled cfg \<or> (\<exists>row \<in> set (es_tokens s). now div 1000 < jt_expires row \<and> matches (jt_hash row) q)" if "r = Inr u"
  proof (cases "hc_auth_disabled cfg")
    case False
    with assms that have "r1 = Inr ()"
      by (auto simp: enroll_gate_def a split: sum.splits enroll_error.splits if_splits)
    with a validateJoinToken_sound show ?thesis by blast
  qed simp
qed

lemma authenticate_facts:
  assumes "authenticate cfg matches hash presentedID bearer name i random now s = (r, s')"
  shows "case r of Inl e \<Rightarrow> es_workers s' = es_workers s \<and> code_of e \<noteq> CodeFailedPrecondition
        \<and> e \<noteq> EnrolledNotSent \<and> e \<noteq> AlreadyConnected
    | Inr (j, secret) \<Rightarrow> secret = None \<longleftrightarrow> presentedID \<noteq> ''''"
proof -
  obtain r1 s1 where a: "steady_state matches presentedID bearer s = (r1, s1)" by fastforce
  obtain r2 s2 where b: "enroll_gate cfg matches bearer now s = (r2, s2)" by fastforce
  obtain r3 s3 where c: "Enroll name i random hash now s2 = (r3, s3)" by fastforce
  have "code_of e \<noteq> CodeFailedPrecondition \<and> e \<noteq> EnrolledNotSent \<and> e \<noteq> AlreadyConnected" if "r1 = Inl e" for e
    using a that by (auto simp: steady_state_def split: if_splits prod.splits sum.splits enroll_error.splits)
  moreover have "code_of e \<noteq> CodeFailedPrecondition \<and> e \<noteq> EnrolledNotSent \<and> e \<noteq> AlreadyConnected" if "r2 = Inl e" for e
    using b that by (auto simp: enroll_gate_def split: if_splits prod.splits sum.splits enroll_error.splits)
  ultimately show ?thesis
    using assms steady_state_sound(1) [OF a] enroll_gate_sound(1) [OF b] Enroll_row [OF c]
    by (auto simp: authenticate_def a b c split: if_splits sum.splits prod.splits)
qed

text \<open>C17. Nobody gets an identity without a credential. A worker that presents an id keeps exactly that id, and only
  with a secret the row of that id matches; a worker without an id gets the freshly minted one, and only with a join
  token that has not expired or when authentication is off, and its secret is the one whose hash is stored. A
  rejected worker leaves the table of workers as it was.\<close>

theorem authenticate_sound:
  "case authenticate cfg matches hash presentedID bearer name i random now s of
     (Inr (j, None), s') \<Rightarrow> j = presentedID \<and> j \<noteq> '''' \<and> bearer \<noteq> '''' \<and> es_workers s' = es_workers s
        \<and> (\<exists>row \<in> set (es_workers s). wk_id row = j \<and> matches (wk_hash row) bearer)
   | (Inr (j, Some secret), s') \<Rightarrow> presentedID = '''' \<and> j = i \<and> i \<notin> wk_id ` set (es_workers s)
        \<and> (hc_auth_disabled cfg \<or> (\<exists>row \<in> set (es_tokens s). now div 1000 < jt_expires row \<and> matches (jt_hash row) bearer))
        \<and> (\<exists>h. hash secret = Some h
             \<and> es_workers s' = es_workers s @ [\<lparr> wk_id = i, wk_name = name, wk_hash = h, wk_created = now div 1000 \<rparr>])
   | (Inl _, s') \<Rightarrow> es_workers s' = es_workers s"
proof (cases "presentedID = ''''")
  case False
  obtain r s1 where a: "steady_state matches presentedID bearer s = (r, s1)" by fastforce
  from steady_state_sound [OF a] False show ?thesis by (cases r) (auto simp: authenticate_def a)
next
  case True
  obtain r s1 where a: "enroll_gate cfg matches bearer now s = (r, s1)" by fastforce
  obtain r2 s2 where en: "Enroll name i random hash now s1 = (r2, s2)" by fastforce
  note E = Enroll_row [OF en]
  show ?thesis
  proof (cases r)
    case Inl
    with enroll_gate_sound(1) [OF a] True show ?thesis by (simp add: authenticate_def a)
  next
    case (Inr u)
    note G = enroll_gate_sound(1) [OF a] enroll_gate_sound(2) [OF a Inr]
    show ?thesis
    proof (cases r2)
      case (Inl e)
      with E G(1) Inr True show ?thesis by (simp add: authenticate_def a en)
    next
      case (Inr p)
      obtain j secret where p: "p = (j, secret)" by fastforce
      from E G(2) Inr \<open>r = Inr u\<close> True show ?thesis
        by (simp add: G(1) authenticate_def a en p)
    qed
  qed
qed

subsection \<open>A stream comes up\<close>

lemma NewStreamWorker_online [simp]: "w_online (NewStreamWorker i reg lb now)" "w_id (NewStreamWorker i reg lb now) = i"
  by (simp_all add: NewStreamWorker_def)

text \<open>A handshake does all of it or nothing. A rejected worker changes neither the fleet nor any connected worker,
  and no credential row is left behind unless the stream broke after the worker had enrolled; an id that is already
  connected keeps its first stream. An accepted one is in the fleet, online, once, under the id it authenticated as,
  and the first message it is sent is its new secret, if it enrolled, followed by its device whitelist.\<close>

theorem hub_connect_outcome:
  "case hub_connect cfg matches hash presentedID auth_header reg i random sent_enrolled sent_devices loopback now h of
     (Inl e, h') \<Rightarrow> hb_fleet h' = hb_fleet h
        \<and> (e \<in> {EnrolledNotSent, AlreadyConnected} \<or> (es_workers (hb_store h') = es_workers (hb_store h) \<and> hb_out h' = hb_out h))
        \<and> (code_of e \<in> {CodeUnknown, CodeUnauthenticated, CodeInternal} \<or> h' = h)
   | (Inr j, h') \<Rightarrow> Get_worker j (hb_fleet h) = None \<and> fl_order (hb_fleet h') = fl_order (hb_fleet h) @ [j]
        \<and> (\<forall>v. Get_worker v (hb_fleet h') = (if v = j then Some (NewStreamWorker j (rg_worker reg) loopback now)
             else Get_worker v (hb_fleet h)))
        \<and> (\<exists>secret. hb_out h' = hb_out h @ (if presentedID = '''' then [(j, WorkerEnrolled j secret)] else [])
             @ (if sent_devices then [(j, HubSetEnabledDevices (enabled_for cfg j reg))] else []))"
proof (cases "checkRegistration cfg reg")
  case (Some e)
  then show ?thesis by (simp add: hub_connect_def)
next
  case None
  obtain r s where a: "authenticate cfg matches hash presentedID (bearerFromHeader auth_header) (reg_name (rg_worker reg)) i random now
    (hb_store h) = (r, s)" by fastforce
  note A = authenticate_facts [OF a]
  show ?thesis
  proof (cases r)
    case (Inl e)
    with A show ?thesis by (cases "code_of e") (simp_all add: hub_connect_def None a)
  next
    case (Inr p)
    obtain j secret where p: "p = (j, secret)" by fastforce
    have enr: "secret = None \<longleftrightarrow> presentedID \<noteq> ''''" using A Inr p by simp
    let ?w = "NewStreamWorker j (rg_worker reg) loopback now"
    show ?thesis
    proof (cases "secret \<noteq> None \<and> \<not> sent_enrolled")
      case True
      with Inr p show ?thesis by (simp add: hub_connect_def None a)
    next
      case False
      show ?thesis
      proof (cases "Get_worker j (hb_fleet h)")
        case None
        with False Inr p enr \<open>checkRegistration cfg reg = None\<close> show ?thesis
          by (auto simp: hub_connect_def a Register_def Get_worker_def hub_send_def send_ok_def Let_def split: option.split)
      next
        case (Some w)
        with False Inr p \<open>checkRegistration cfg reg = None\<close> show ?thesis
          by (auto simp: hub_connect_def a Register_def Get_worker_def hub_send_def Let_def split: option.split)
      qed
    qed
  qed
qed

subsection \<open>The cache reaper\<close>

lemma covers_iff: "covers dir path \<longleftrightarrow> (\<exists>rest. path = dir @ ''/'' @ rest)"
proof
  assume c: "covers dir path"
  then have "drop (length dir) path = CHR ''/'' # drop (Suc (length dir)) path"
    using Cons_nth_drop_Suc [of "length dir" path] by (simp add: covers_def)
  moreover have "path = dir @ drop (length dir) path"
    using c append_take_drop_id [of "length dir" path] by (simp add: covers_def)
  ultimately show "\<exists>rest. path = dir @ ''/'' @ rest" by (metis append_Cons append_Nil)
qed (auto simp: covers_def nth_append)

text \<open>The cache reaper never takes a file that is in use. What a worker is told to delete is exactly, of the entries it
  reported, those MASS does not list and that are neither a file of a loaded model nor above or below one in the
  directory tree; and nothing at all while MASS cannot tell which files are live.\<close>

theorem maybeReconcile_safe:
  "maybeReconcile cfg sent w h = h
   \<or> (\<exists>canonical stale. hc_canonical cfg = Some canonical \<and> canonical \<noteq> [] \<and> w_online w \<and> stale \<noteq> []
       \<and> maybeReconcile cfg sent w h = hub_send (w_id w) (HubDeleteCacheFiles stale) h
       \<and> (\<forall>f. f \<in> set stale \<longleftrightarrow> f \<in> set (w_cache_files w) \<and> f \<notin> set canonical
            \<and> \<not> (\<exists>lm \<in> set (w_loaded w). \<exists>p \<in> set (lm_files lm).
                   f = p \<or> (\<exists>rest. f = p @ ''/'' @ rest) \<or> (\<exists>rest. p = f @ ''/'' @ rest))))"
proof (cases "maybeReconcile cfg sent w h = h")
  case False
  define stale where "stale canonical = filter (\<lambda>f. f \<notin> set canonical \<and> \<not> isProtected f (loadedFiles w)) (w_cache_files w)" for canonical
  from False obtain canonical where c: "hc_canonical cfg = Some canonical" "canonical \<noteq> []" "w_online w" "stale canonical \<noteq> []"
    "maybeReconcile cfg sent w h = hub_send (w_id w) (HubDeleteCacheFiles (stale canonical)) h"
    by (auto simp: maybeReconcile_def send_ok_def stale_def [symmetric] Let_def split: option.splits if_splits)
  have "f \<in> set (stale canonical) \<longleftrightarrow> f \<in> set (w_cache_files w) \<and> f \<notin> set canonical
            \<and> \<not> (\<exists>lm \<in> set (w_loaded w). \<exists>p \<in> set (lm_files lm).
                   f = p \<or> (\<exists>rest. f = p @ ''/'' @ rest) \<or> (\<exists>rest. p = f @ ''/'' @ rest))" for f
    by (auto simp: stale_def isProtected_def loadedFiles_def list_ex_iff covers_iff)
  with c show ?thesis by blast
qed simp

subsection \<open>Streams and the fleet\<close>

text \<open>Anything that happens at the hub: streams that open, speak, go silent and end, calls the scheduler makes to a
  worker, and the control plane minting and revoking credentials.\<close>

inductive hub_step :: "hub \<Rightarrow> hub \<Rightarrow> bool" where
  connects: "hub_step h (snd (hub_connect cfg matches hash presentedID auth_header reg i random sent_enrolled sent_devices loopback now h))"
| speaks: "hub_step h (hub_receive cfg i sent now msg h)"
| stale: "hub_step h (snd (hub_stale i now h))"
| closes: "hub_step h (hub_close i h)"
| calls: "hub_step h (h\<lparr>hb_fleet := set_worker (worker_step e w) (hb_fleet h)\<rparr>)"
    if "Get_worker i (hb_fleet h) = Some w" "event_fresh e w"
| control: "hub_step h (h\<lparr>hb_store := cred_step matches op (hb_store h)\<rparr>)"

definition fleet_ok :: "fleet \<Rightarrow> bool" where
  "fleet_ok f \<longleftrightarrow> distinct (fl_order f) \<and> (\<forall>i. i \<in> set (fl_order f) \<longleftrightarrow> Get_worker i f \<noteq> None)
     \<and> (\<forall>i w. Get_worker i f = Some w \<longrightarrow> w_id w = i \<and> worker_ok w)"

lemma chan_op_id [simp]: "w_id (chan_op i f w) = w_id w"
  by (simp add: chan_op_def split: option.split)

lemma close_channels_id [simp]: "w_id (close_channels is w) = w_id w"
  by (induction "is" arbitrary: w) simp_all

lemma worker_step_id [simp]: "w_id (worker_step e w) = w_id w"
  by (cases e) (simp_all add: AssignJob_def DeliverJobChunk_def beginLoad_def DeliverLoadResult_def beginUnload_def
      DeliverUnloadResult_def benchSend_def DeliverBenchResult_def beginBenchModel_def DeliverModelBenchResult_def
      cancelBenchModel_def ApplyHeartbeat_def SetOffline_def Let_def)

lemma handle_message_step:
  "handle_message now msg w = w \<or> (\<exists>e. event_fresh e w \<and> handle_message now msg w = worker_step e w)"
proof (cases msg)
  case (MsgHeartbeat hb)
  then show ?thesis by (intro disjI2 exI [of _ "WHeartbeat now hb"]) (simp add: handle_message_def)
next
  case (MsgJobResult jobID r)
  show ?thesis
  proof (cases "chunk_of r")
    case None
    then show ?thesis by (simp add: MsgJobResult handle_message_def deliverJobResult_def)
  next
    case (Some c)
    then show ?thesis
      by (intro disjI2 exI [of _ "WChunk jobID c"]) (simp add: MsgJobResult handle_message_def deliverJobResult_def)
  qed
next
  case (MsgLoadModel jobID pool err)
  then show ?thesis by (intro disjI2 exI [of _ "WLoadResult jobID pool err"]) (simp add: handle_message_def)
next
  case (MsgUnloadModel jobID err)
  then show ?thesis by (intro disjI2 exI [of _ "WUnloadResult jobID err"]) (simp add: handle_message_def)
next
  case (MsgBenchmark jobID res err)
  then show ?thesis by (intro disjI2 exI [of _ "WBenchResult jobID res err"]) (simp add: handle_message_def)
next
  case (MsgModelBenchmark key r)
  then show ?thesis
    by (intro disjI2 exI [of _ "WBenchModelResult key (modelBenchOutcomeOf r)"]) (simp add: handle_message_def)
qed (simp_all add: handle_message_def)

lemma set_worker_ok:
  assumes "fleet_ok f" "Get_worker (w_id w) f \<noteq> None" "worker_ok w"
  shows "fleet_ok (set_worker w f)"
  using assms by (auto simp: fleet_ok_def set_worker_def Get_worker_def update_conv')

lemma handled_ok:
  assumes "fleet_ok f" "Get_worker i f = Some w"
  shows "fleet_ok (set_worker (handle_message now msg w) f)" "fleet_ok (set_worker (SetOffline w) f)"
proof -
  have w: "w_id w = i" "worker_ok w" using assms by (simp_all add: fleet_ok_def)
  have "worker_ok (handle_message now msg w) \<and> w_id (handle_message now msg w) = i"
    using handle_message_step [of now msg w] w worker_step_ok [of w] by auto
  then show "fleet_ok (set_worker (handle_message now msg w) f)" using assms by (intro set_worker_ok) simp_all
  have "worker_ok (worker_step WOffline w)" using w(2) by (rule worker_step_ok) simp
  moreover have "w_id (worker_step WOffline w) = i" by (simp only: worker_step_id w)
  ultimately show "fleet_ok (set_worker (SetOffline w) f)" using assms by (intro set_worker_ok) simp_all
qed

lemma maybeReconcile_fleet [simp]: "hb_fleet (maybeReconcile cfg sent w h) = hb_fleet h"
  by (simp add: maybeReconcile_def hub_send_def Let_def split: option.split)

lemma hub_step_ok:
  assumes "hub_step h h'" "fleet_ok (hb_fleet h)"
  shows "fleet_ok (hb_fleet h')"
  using assms
proof induction
  case (connects h cfg matches hash presentedID auth_header reg i random sent_enrolled sent_devices loopback now)
  obtain r h' where c: "hub_connect cfg matches hash presentedID auth_header reg i random sent_enrolled sent_devices loopback now h = (r, h')"
    by fastforce
  have "case r of Inl e \<Rightarrow> hb_fleet h' = hb_fleet h
    | Inr j \<Rightarrow> Get_worker j (hb_fleet h) = None
        \<and> hb_fleet h' = snd (Register (NewStreamWorker j (rg_worker reg) loopback now) (hb_fleet h))"
    using c by (auto simp: hub_connect_def hub_send_def Register_def Get_worker_def Let_def
        split: option.splits sum.splits prod.splits if_splits)
  then show ?case
  proof (cases r)
    case (Inr j)
    with \<open>case r of Inl e \<Rightarrow> _ e | Inr j \<Rightarrow> _ j\<close> connects show ?thesis
      by (auto simp: c fleet_ok_def Register_def Get_worker_def update_conv' NewStreamWorker_ok)
  qed (use connects c in simp)
next
  case (speaks h cfg i sent now msg)
  then show ?case
    by (auto simp: hub_receive_def Let_def handled_ok split: option.split worker_message.split)
next
  case (stale h i now)
  then show ?case by (auto simp: hub_stale_def handled_ok split: option.split)
next
  case (closes h i)
  show ?case
  proof (cases "Get_worker i (hb_fleet h)")
    case (Some w)
    with closes handled_ok(2) [of "hb_fleet h" i w] show ?thesis
      by (auto simp: hub_close_def Deregister_def fleet_ok_def Get_worker_def delete_conv' split: if_splits)
  qed (use closes in \<open>simp add: hub_close_def\<close>)
next
  case (calls i h w e)
  then have "w_id w = i" "worker_ok w" by (simp_all add: fleet_ok_def)
  with calls show ?case by (simp add: worker_step_ok set_worker_ok)
qed simp

text \<open>C18. Nothing a worker sends can bring the hub down or steal another worker's place. Whatever streams open, say and
  end, in whatever order, each connected id has exactly one place in the fleet and its own object, no message ever
  writes to or closes a closed channel, and when a stream ends its worker is gone from the fleet.\<close>

theorem hub_streams_safe:
  assumes "hub_step\<^sup>*\<^sup>* \<lparr> hb_fleet = empty_fleet, hb_store = s0, hb_out = [], hb_updated = [], hb_loaded_changed = [] \<rparr> h"
  shows "distinct (fl_order (hb_fleet h))
    \<and> (\<forall>i. i \<in> set (fl_order (hb_fleet h)) \<longleftrightarrow> Get_worker i (hb_fleet h) \<noteq> None)
    \<and> (\<forall>i w. Get_worker i (hb_fleet h) = Some w \<longrightarrow> w_id w = i \<and> w_panics w = 0)
    \<and> (\<forall>i. Get_worker i (hb_fleet (hub_close i h)) = None)"
proof -
  have "fleet_ok (hb_fleet h)" using assms
    by (induction rule: rtranclp_induct) (simp_all add: hub_step_ok, simp add: fleet_ok_def empty_fleet_def Get_worker_def)
  moreover have "Get_worker i (hb_fleet (hub_close i h)) = None" for i
    by (auto simp: hub_close_def Deregister_def Get_worker_def split: option.split)
  ultimately show ?thesis by (auto simp: fleet_ok_def worker_ok_def routing_ok_def)
qed

definition open_config :: hub_config where
  "open_config = \<lparr> hc_auth_disabled = True, hc_runtime_ok = None, hc_negotiate = (\<lambda>vs. 1 \<in> set vs), hc_compat = None,
     hc_enabled = None, hc_canonical = Some [''a.gguf''] \<rparr>"

definition demo_registration :: registration where
  "demo_registration = \<lparr> rg_worker = sample_register, rg_protocols = [1] \<rparr>"

theorem hub_streams_safe_witness:
  "\<exists>h w. hub_step\<^sup>*\<^sup>* \<lparr> hb_fleet = empty_fleet, hb_store = demo_store, hb_out = [], hb_updated = [], hb_loaded_changed = [] \<rparr> h
    \<and> Get_worker ''w'' (hb_fleet h) = Some w \<and> w_panics w = 0 \<and> Get_worker ''w'' (hb_fleet (hub_close ''w'' h)) = None"
proof -
  let ?h = "\<lparr> hb_fleet = empty_fleet, hb_store = demo_store, hb_out = [], hb_updated = [], hb_loaded_changed = [] \<rparr>"
  define h where "h = snd (hub_connect open_config demo_matches demo_hash '''' '''' demo_registration ''w'' (Some [7]) True True False 0 ?h)"
  have step: "hub_step\<^sup>*\<^sup>* ?h h" unfolding h_def using hub_step.connects by (rule r_into_rtranclp)
  have "Get_worker ''w'' (hb_fleet h) \<noteq> None"
    by (simp add: h_def hub_connect_def checkRegistration_def open_config_def demo_registration_def sample_register_def
        authenticate_def enroll_gate_def Enroll_def NewWorkerSecret_def newCredential_def demo_hash_def InsertWorker_def
        estx_def demo_store_def hub_send_def Register_def empty_fleet_def Get_worker_def Let_def)
  then obtain w where w: "Get_worker ''w'' (hb_fleet h) = Some w" by blast
  from hub_streams_safe [OF step] w step show ?thesis by blast
qed

end
