(* ===== verification/Paths.thy ===== *)
theory Paths
  imports Mass_Prelude
begin

text \<open>
  Store-relative paths: the check every gateway-supplied path passes (\<open>internal/downloads/relpath.go\<close>), what joining
  an accepted path to the models directory gives, the overlap test of the delete guard (\<open>internal/web/modelops.go\<close>)
  and the memoized scan of the models directory (\<open>internal/modelscan\<close>).

  A path of the host is the list of its components below the root, as \<open>filepath.Clean\<close> leaves it; the host is a Unix
  one, so \<open>FromSlash\<close> and \<open>ToSlash\<close> are the identity. Strings are UTF-8 byte sequences.
\<close>

subsection \<open>Strings\<close>

text \<open>\<open>strings.Split(s, sep)\<close> for a one-byte separator: never empty.\<close>

fun split_on :: "char \<Rightarrow> string \<Rightarrow> string list" where
  "split_on c [] = [[]]"
| "split_on c (x # xs) = (if x = c then [] # split_on c xs
     else case split_on c xs of seg # segs \<Rightarrow> (x # seg) # segs | [] \<Rightarrow> [[x]])"

text \<open>How many bytes of leading white space \<open>strings.TrimSpace\<close> would drop as one code point: the Unicode white space
  of one, two and three bytes.\<close>

definition space_width :: "string \<Rightarrow> nat" where
  "space_width s = (case map of_char (take 3 s) :: nat list of
      [] \<Rightarrow> 0
    | a # as \<Rightarrow>
        if a \<in> {9, 10, 11, 12, 13, 32} then 1
        else case as of
            b # bs \<Rightarrow>
              if a = 194 \<and> b \<in> {133, 160} then 2
              else (case bs of
                  c # _ \<Rightarrow>
                    if a = 225 \<and> b = 154 \<and> c = 128 then 3
                    else if a = 226 \<and> b = 128 \<and> (c \<in> {128..138} \<or> c \<in> {168, 169, 175}) then 3
                    else if a = 226 \<and> b = 129 \<and> c = 159 then 3
                    else if a = 227 \<and> b = 128 \<and> c = 128 then 3
                    else 0
                | [] \<Rightarrow> 0)
          | [] \<Rightarrow> 0)"

text \<open>\<open>strings.TrimSpace(s) == ""\<close>.\<close>

fun all_space_fuel :: "nat \<Rightarrow> string \<Rightarrow> bool" where
  "all_space_fuel n [] = True"
| "all_space_fuel 0 s = False"
| "all_space_fuel (Suc n) s = (let w = space_width s in w > 0 \<and> all_space_fuel n (drop w s))"

definition blank_string :: "string \<Rightarrow> bool" where
  "blank_string s = all_space_fuel (length s) s"

lemma all_space_fuel_enough: "length s \<le> n \<Longrightarrow> length s \<le> m \<Longrightarrow> all_space_fuel n s = all_space_fuel m s"
proof (induction n arbitrary: s m)
  case (Suc n)
  show ?case
  proof (cases s)
    case (Cons x xs)
    with Suc.prems obtain m' where m: "m = Suc m'" by (cases m) auto
    show ?thesis
    proof (cases "space_width s > 0")
      case True
      then have "length (drop (space_width s) s) \<le> n" "length (drop (space_width s) s) \<le> m'"
        using Suc.prems m by simp_all
      from Suc.IH [OF this] show ?thesis by (simp add: Cons m Let_def)
    qed (simp add: Cons m Let_def)
  qed simp
qed simp

text \<open>The fuel is the length of the string, and the recursion is the one of trimming a code point at a time.\<close>

lemma blank_rec: "blank_string s \<longleftrightarrow> s = [] \<or> 0 < space_width s \<and> blank_string (drop (space_width s) s)"
proof (cases s)
  case (Cons x xs)
  have "all_space_fuel (length xs) (drop w (x # xs)) = all_space_fuel (length (drop w (x # xs))) (drop w (x # xs))"
    if "0 < w" for w by (rule all_space_fuel_enough) (use that in auto)
  then show ?thesis by (auto simp: blank_string_def Cons Let_def)
qed (simp add: blank_string_def)

text \<open>\<open>strings.TrimSpace\<close>: white space goes a code point at a time, first from the left, then from the right.\<close>

function TrimLeft :: "string \<Rightarrow> string" where
  "TrimLeft s = (let w = space_width s in if 0 < w then TrimLeft (drop w s) else s)"
  by pat_completeness auto
termination
proof (relation "measure length")
  fix s w
  assume "w = space_width s" "0 < w"
  then have "s \<noteq> []" by (auto simp: space_width_def)
  with \<open>0 < w\<close> show "(drop w s, s) \<in> measure length" by simp
qed simp

declare TrimLeft.simps [simp del]

definition last_space_width :: "string \<Rightarrow> nat" where
  "last_space_width s = (case filter (\<lambda>w. space_width (drop (length s - w) s) = w) [1, 2, 3] of [] \<Rightarrow> 0 | w # _ \<Rightarrow> w)"

function TrimRight :: "string \<Rightarrow> string" where
  "TrimRight s = (let w = last_space_width s in if s \<noteq> [] \<and> 0 < w then TrimRight (take (length s - w) s) else s)"
  by pat_completeness auto
termination
  by (relation "measure length") simp_all

declare TrimRight.simps [simp del]

definition TrimSpace :: "string \<Rightarrow> string" where
  "TrimSpace s = TrimRight (TrimLeft s)"

text \<open>\<open>filepath.Base\<close> on Unix.\<close>

definition Base :: "string \<Rightarrow> string" where
  "Base path =
     (if path = [] then ''.''
      else let p = rev (dropWhile (\<lambda>c. c = CHR ''/'') (rev path))
           in if p = [] then ''/'' else last (split_on (CHR ''/'') p))"

subsection \<open>filepath.Clean and filepath.Join\<close>

text \<open>One component of a rooted path: empty and dot vanish, dot-dot removes the last one, and stays at the root.\<close>

definition clean_step :: "string list \<Rightarrow> string \<Rightarrow> string list" where
  "clean_step path seg = (if seg = [] \<or> seg = ''.'' then path else if seg = ''..'' then butlast path else path @ [seg])"

definition Join :: "string list \<Rightarrow> string \<Rightarrow> string list" where
  "Join base rel = foldl clean_step base (split_on (CHR ''/'') rel)"

text \<open>Strictly below a directory.\<close>

definition below :: "string list \<Rightarrow> string list \<Rightarrow> bool" where
  "below dir p \<longleftrightarrow> length dir < length p \<and> take (length dir) p = dir"

lemma below_iff: "below dir p \<longleftrightarrow> (\<exists>seg segs. p = dir @ seg # segs)"
proof
  assume b: "below dir p"
  then have "drop (length dir) p \<noteq> []" "p = dir @ drop (length dir) p"
    using append_take_drop_id [of "length dir" p] by (simp_all add: below_def)
  then show "\<exists>seg segs. p = dir @ seg # segs" by (metis list.exhaust)
qed (auto simp: below_def)

lemma below_trans: "below a b \<Longrightarrow> below b c \<Longrightarrow> below a c"
  by (auto simp: below_iff)

text \<open>The same for a relative path: leading dot-dots pile up.\<close>

definition clean_rel_step :: "string list \<Rightarrow> string \<Rightarrow> string list" where
  "clean_rel_step path seg = (if seg = [] \<or> seg = ''.'' then path
     else if seg = ''..'' then (if path = [] \<or> last path = ''..'' then path @ [''..''] else butlast path)
     else path @ [seg])"

text \<open>\<open>filepath.IsLocal\<close> on Unix.\<close>

definition IsLocal :: "string \<Rightarrow> bool" where
  "IsLocal path =
     (if path = [] \<or> hd path = CHR ''/'' then False
      else let segs = split_on (CHR ''/'') path in
        if list_all (\<lambda>s. s \<noteq> ''.'' \<and> s \<noteq> ''..'') segs then True
        else (case foldl clean_rel_step [] segs of s # _ \<Rightarrow> s \<noteq> ''..'' | [] \<Rightarrow> True))"

subsection \<open>The path check\<close>

datatype rel_path_error = EmptyPath | DriveCharacters | EmptySegment | DotSegment | NotLocal

fun check_segments :: "string list \<Rightarrow> rel_path_error + unit" where
  "check_segments [] = Inr ()"
| "check_segments (seg # segs) = (if seg = [] then Inl EmptySegment
     else if seg = ''.'' \<or> seg = ''..'' then Inl DotSegment else check_segments segs)"

definition ValidateRelPath :: "string \<Rightarrow> rel_path_error + unit" where
  "ValidateRelPath rel =
     (if blank_string rel then Inl EmptyPath
      else if list_ex (\<lambda>c. c = CHR 0x5C \<or> c = CHR '':'') rel then Inl DriveCharacters
      else bindE (check_segments (split_on (CHR ''/'') rel)) (\<lambda>_.
        if \<not> IsLocal rel then Inl NotLocal else Inr ()))"

subsection \<open>Overlap of opaque paths\<close>

definition pathCovers :: "string \<Rightarrow> string \<Rightarrow> bool" where
  "pathCovers dir path \<longleftrightarrow> length path > length dir \<and> path ! length dir = CHR ''/'' \<and> take (length dir) path = dir"

fun firstPathOverlap :: "string list \<Rightarrow> string list \<Rightarrow> string" where
  "firstPathOverlap [] queued = []"
| "firstPathOverlap (d # doomed) queued =
     (if d \<in> set queued then d
      else if list_ex (\<lambda>q. pathCovers d q \<or> pathCovers q d) queued then d
      else firstPathOverlap doomed queued)"

text \<open>A directory overlaps what lies strictly below it, on component boundaries, and the guard reports a doomed path
  exactly when one overlaps a queued one.\<close>

lemma pathCovers_iff: "pathCovers dir path \<longleftrightarrow> (\<exists>rest. path = dir @ ''/'' @ rest)"
proof
  assume c: "pathCovers dir path"
  then have "drop (length dir) path = CHR ''/'' # drop (Suc (length dir)) path"
    using Cons_nth_drop_Suc [of "length dir" path] by (simp add: pathCovers_def)
  then have "path = dir @ ''/'' @ drop (Suc (length dir)) path"
    using c append_take_drop_id [of "length dir" path] by (simp add: pathCovers_def)
  then show "\<exists>rest. path = dir @ ''/'' @ rest" by blast
qed (auto simp: pathCovers_def nth_append)

definition overlaps :: "string \<Rightarrow> string \<Rightarrow> bool" where
  "overlaps a b \<longleftrightarrow> a = b \<or> pathCovers a b \<or> pathCovers b a"

lemma firstPathOverlap_exact:
  assumes "[] \<notin> set doomed"
  shows "firstPathOverlap doomed queued \<noteq> [] \<longleftrightarrow> (\<exists>d \<in> set doomed. \<exists>q \<in> set queued. overlaps d q)"
  using assms by (induction doomed) (auto simp: list_ex_iff overlaps_def)

lemma firstPathOverlap_doomed: "firstPathOverlap doomed queued \<in> set doomed \<union> {[]}"
  by (induction doomed) auto

subsection \<open>Scanning the models directory\<close>

definition tempPrefix :: string where "tempPrefix = ''.downloading''"

text \<open>What \<open>filepath.WalkDir\<close> reports, in its order: entries by their components below the models directory, and
  errors, which say whether the file did not exist.\<close>

datatype entry_kind = Directory | Regular | Special

datatype visit = Visit "string list" entry_kind | VisitError "string list" bool

datatype scan_error = WalkFailed | errNotDir

fun slash_join :: "string list \<Rightarrow> string" where
  "slash_join [] = []"
| "slash_join [s] = s"
| "slash_join (s # segs) = s @ ''/'' @ slash_join segs"

fun walk :: "visit list \<Rightarrow> string list \<Rightarrow> scan_error + string list" where
  "walk [] acc = Inr acc"
| "walk (VisitError comps missing # vs) acc = (if missing \<and> comps = [] then Inr acc else Inl WalkFailed)"
| "walk (Visit comps kind # vs) acc =
     (if comps = [] then (if kind \<noteq> Directory then Inl errNotDir else walk vs acc)
      else if kind \<noteq> Regular then walk vs acc
      else if take (length tempPrefix) (last comps) = tempPrefix then walk vs acc
      else walk vs (List.insert (slash_join comps) acc))"

record scanner =
  sc_ttl :: time
  sc_cached :: "string list option"
  sc_cached_at :: time

text \<open>\<open>Set\<close>: the memoized listing within its lifetime, else a fresh walk, whose failure is an empty answer that is not
  remembered.\<close>

definition Scanner_Set :: "time \<Rightarrow> visit list \<Rightarrow> scanner \<Rightarrow> string list \<times> scanner" where
  "Scanner_Set now visits sc = (case (sc_cached sc, now - sc_cached_at sc < sc_ttl sc) of
      (Some listing, True) \<Rightarrow> (listing, sc)
    | _ \<Rightarrow> (case walk visits [] of
        Inl _ \<Rightarrow> ([], sc)
      | Inr listing \<Rightarrow> (listing, sc\<lparr>sc_cached := Some listing, sc_cached_at := now\<rparr>)))"

definition Invalidate :: "scanner \<Rightarrow> scanner" where
  "Invalidate sc = sc\<lparr>sc_cached := None\<rparr>"

subsection \<open>What the path check guarantees\<close>

lemma slash_join_Cons: "segs \<noteq> [] \<Longrightarrow> slash_join (s # segs) = s @ ''/'' @ slash_join segs"
  by (cases segs) auto

lemma split_on_not_Nil [simp]: "split_on c s \<noteq> []"
  by (cases s) (auto split: list.splits)

lemma slash_join_split [simp]: "slash_join (split_on (CHR ''/'') s) = s"
proof (induction s)
  case (Cons x xs)
  obtain seg segs where "split_on (CHR ''/'') xs = seg # segs" by (cases "split_on (CHR ''/'') xs") auto
  with Cons show ?case by (cases segs) auto
qed simp

lemma split_on_segments: "seg \<in> set (split_on c s) \<Longrightarrow> c \<notin> set seg \<and> set seg \<subseteq> set s"
proof (induction s arbitrary: seg)
  case (Cons x xs)
  obtain h t where "split_on c xs = h # t" by (cases "split_on c xs") auto
  with Cons.IH [of h] Cons.IH [of seg] Cons.prems show ?case by (auto split: if_splits)
qed simp

definition plain_segment :: "string \<Rightarrow> bool" where
  "plain_segment seg \<longleftrightarrow> seg \<noteq> [] \<and> seg \<noteq> ''.'' \<and> seg \<noteq> ''..''"

lemma check_segments_ok: "check_segments segs = Inr () \<longleftrightarrow> list_all plain_segment segs"
  by (induction segs) (auto simp: plain_segment_def)

lemma Join_plain: "list_all plain_segment segs \<Longrightarrow> foldl clean_step base segs = base @ segs"
  by (induction segs arbitrary: base) (auto simp: plain_segment_def clean_step_def)

lemma plain_is_local:
  assumes "list_all plain_segment (split_on (CHR ''/'') rel)"
  shows "IsLocal rel"
proof -
  have "rel \<noteq> []" "hd rel \<noteq> CHR ''/''" using assms by (cases rel; auto simp: plain_segment_def split: list.splits)+
  then show ?thesis using assms by (auto simp: IsLocal_def plain_segment_def list_all_iff Let_def)
qed

lemma ValidateRelPath_ok: "ValidateRelPath rel = Inr () \<longleftrightarrow>
  \<not> blank_string rel \<and> CHR 0x5C \<notin> set rel \<and> CHR '':'' \<notin> set rel \<and> list_all plain_segment (split_on (CHR ''/'') rel)"
  using plain_is_local [of rel] unfolding ValidateRelPath_def
  by (simp add: bindE_eq_Inr check_segments_ok list_ex_iff) blast

text \<open>An accepted path, joined to the models directory, names a file strictly below it: its components follow
  those of the directory, none is empty, a dot, a dot-dot or carries a separator; and two accepted paths that name
  the same file are the same path, so a path is a sound identity of the file.\<close>

theorem rel_path_contained:
  assumes "ValidateRelPath rel = Inr ()"
  shows "\<exists>segs. segs \<noteq> [] \<and> Join base rel = base @ segs
      \<and> list_all (\<lambda>s. s \<notin> {[], ''.'', ''..''} \<and> set s \<inter> {CHR ''/'', CHR 0x5C, CHR '':''} = {}) segs
    \<and> {rel'. ValidateRelPath rel' = Inr () \<and> Join base rel' = Join base rel} = {rel}"
proof -
  have plain: "list_all plain_segment (split_on (CHR ''/'') r)" "Join base r = base @ split_on (CHR ''/'') r"
    if "ValidateRelPath r = Inr ()" for r using that by (simp_all add: ValidateRelPath_ok Join_def Join_plain)
  have "rel' = rel" if "ValidateRelPath rel' = Inr ()" "Join base rel' = Join base rel" for rel'
  proof -
    have "split_on (CHR ''/'') rel' = split_on (CHR ''/'') rel" using that plain assms by simp
    then show ?thesis using slash_join_split by metis
  qed
  moreover have "list_all (\<lambda>s. s \<notin> {[], ''.'', ''..''} \<and> set s \<inter> {CHR ''/'', CHR 0x5C, CHR '':''} = {}) (split_on (CHR ''/'') rel)"
    using plain(1) [OF assms] assms split_on_segments [of _ "CHR ''/''" rel]
    by (fastforce simp: list_all_iff plain_segment_def ValidateRelPath_ok)
  ultimately show ?thesis using plain [OF assms] assms by (intro exI [of _ "split_on (CHR ''/'') rel"]) auto
qed

theorem rel_path_contained_witness:
  "{rel'. ValidateRelPath rel' = Inr () \<and> Join [''models''] rel' = Join [''models''] ''gguf/a.bin''} = {''gguf/a.bin''}
   \<and> ValidateRelPath ''gguf/../a'' = Inl DotSegment \<and> Join [''models''] ''gguf/a.bin'' = [''models'', ''gguf'', ''a.bin'']"
proof -
  have v: "ValidateRelPath ''gguf/a.bin'' = Inr ()" by code_simp
  have "ValidateRelPath ''gguf/../a'' = Inl DotSegment" by code_simp
  moreover have "Join [''models''] ''gguf/a.bin'' = [''models'', ''gguf'', ''a.bin'']" by code_simp
  ultimately show ?thesis using rel_path_contained [OF v, of "[''models'']"] by blast
qed

subsection \<open>What a scan lists\<close>

lemma walk_keys:
  "walk vs acc = Inr listing \<Longrightarrow> k \<in> set listing \<Longrightarrow> k \<in> set acc \<or>
     (\<exists>comps. Visit comps Regular \<in> set vs \<and> comps \<noteq> [] \<and> k = slash_join comps \<and> take (length tempPrefix) (last comps) \<noteq> tempPrefix)"
  by (induction vs acc rule: walk.induct) (auto split: if_splits)

lemma scan_answer:
  assumes "Scanner_Set now visits sc = (listing, sc')"
  shows "listing = [] \<or> sc_cached sc' = Some listing \<and> (now - sc_cached_at sc' < sc_ttl sc' \<or> sc_cached_at sc' = now)"
  using assms by (auto simp: Scanner_Set_def split: option.splits bool.splits sum.splits)

end
