(* ===== verification/Fetch.thy ===== *)
theory Fetch
  imports Mass_Prelude
begin

text \<open>
  One resumable file transfer (\<open>pkg/download/download.go\<close>): attempts with Range requests, the temp file that survives
  an interruption, the retry loop and its backoff.

  What the network and the file system answer in one attempt is a record of arguments: the replies to the first
  request and to the one that follows a 416, the chunks the body delivers and how it ends, and which of the file
  operations succeed. Only the two files of the transfer are modelled. Durations are in nanoseconds here.
\<close>

subsection \<open>Options\<close>

definition maxRetryDelay :: int where "maxRetryDelay = 30 * 10 ^ 9"

definition maxRetriesLimit :: int where "maxRetriesLimit = 10"

definition stallTimeout :: int where "stallTimeout = 60 * 10 ^ 9"

record dl_options =
  do_resume :: bool
  do_max_retries :: int
  do_base_delay :: int
  do_progress :: bool

definition defaultOptions :: dl_options where
  "defaultOptions = \<lparr> do_resume = False, do_max_retries = 3, do_base_delay = 10 ^ 9, do_progress = False \<rparr>"

definition WithResume :: "bool \<Rightarrow> dl_options \<Rightarrow> dl_options" where
  "WithResume enable opts = opts\<lparr>do_resume := enable\<rparr>"

definition WithProgress :: "dl_options \<Rightarrow> dl_options" where
  "WithProgress opts = opts\<lparr>do_progress := True\<rparr>"

definition WithMaxRetries :: "int \<Rightarrow> dl_options \<Rightarrow> dl_options" where
  "WithMaxRetries n opts = opts\<lparr>do_max_retries := min (max n 0) maxRetriesLimit\<rparr>"

definition WithBaseDelay :: "int \<Rightarrow> dl_options \<Rightarrow> dl_options" where
  "WithBaseDelay d opts = opts\<lparr>do_base_delay := max d 0\<rparr>"

subsection \<open>Backoff\<close>

fun delay_loop :: "nat \<Rightarrow> int \<Rightarrow> int" where
  "delay_loop 0 delay = delay"
| "delay_loop (Suc n) delay = (if delay \<ge> maxRetryDelay then delay else delay_loop n (delay * 2))"

text \<open>\<open>jitter\<close> is the random draw, below twice the spread.\<close>

definition retryDelay :: "int \<Rightarrow> nat \<Rightarrow> int \<Rightarrow> int" where
  "retryDelay base attempt jitter =
     (let delay = min (delay_loop attempt base) maxRetryDelay;
          spread = go_div delay 4
      in if spread \<le> 0 then delay else delay - spread + jitter)"

subsection \<open>Replies and files\<close>

datatype body_end = BodyEOF | BodyBroken | BodyStalled

datatype http_reply = NoReply | Reply int int "bytes list" body_end

datatype fetch_error = MkdirFailed | RequestFailed | ErrHTTPClientError int | ErrHTTPServerError int | ErrWriteFile
  | ErrStalled | ReadFailed | Cancelled

record transfer_files =
  tf_temp :: "bytes option"
  tf_dest :: "bytes option"

text \<open>One attempt. \<open>ta_cancel\<close> is the read before which the context ends; \<open>ta_write\<close> the write that fails and how many
  bytes it still wrote; \<open>ta_ended\<close> whether the context has ended when a failed attempt returns, \<open>ta_wait_ended\<close>
  whether it ends during the backoff that follows.\<close>

record attempt =
  ta_first :: http_reply
  ta_second :: http_reply
  ta_open_ok :: bool
  ta_cancel :: "nat option"
  ta_write :: "(nat \<times> nat) option"
  ta_close_ok :: bool
  ta_rename_ok :: bool
  ta_ended :: bool
  ta_wait_ended :: bool

definition httpSentinel :: "int \<Rightarrow> fetch_error" where
  "httpSentinel statusCode = (if statusCode \<ge> 500 then ErrHTTPServerError statusCode else ErrHTTPClientError statusCode)"

definition isRetryable :: "fetch_error \<Rightarrow> bool" where
  "isRetryable e = (case e of ErrWriteFile \<Rightarrow> False | ErrHTTPClientError _ \<Rightarrow> False | _ \<Rightarrow> True)"

text \<open>What a reply leads to: an error, or the offset to write at, whether the reply is partial, its length and body.\<close>

definition handleResumeResponse :: "attempt \<Rightarrow> int \<Rightarrow> fetch_error + (int \<times> bool \<times> int \<times> bytes list \<times> body_end)" where
  "handleResumeResponse a resumeOffset = (case ta_first a of
      NoReply \<Rightarrow> Inl RequestFailed
    | Reply status len chunks fin \<Rightarrow>
        if status = 206 then Inr (resumeOffset, True, len, chunks, fin)
        else if status = 200 then Inr (0, False, len, chunks, fin)
        else if status = 416 then
          (case ta_second a of
             NoReply \<Rightarrow> Inl RequestFailed
           | Reply status len chunks fin \<Rightarrow>
               if status \<noteq> 200 then Inl (httpSentinel status) else Inr (0, False, len, chunks, fin))
        else Inl (httpSentinel status))"

text \<open>The read loop appends to the temp file; \<open>k\<close> counts the reads. It returns the bytes on disk and the progress
  reports, newest first.\<close>

fun read_loop :: "attempt \<Rightarrow> int \<Rightarrow> nat \<Rightarrow> bytes list \<Rightarrow> body_end \<Rightarrow> bytes \<Rightarrow> (int \<times> int) list
    \<Rightarrow> (fetch_error + unit) \<times> bytes \<times> (int \<times> int) list" where
  "read_loop a tot k [] fin f ps =
     (if ta_cancel a = Some k then (Inl Cancelled, f, ps)
      else (case fin of BodyEOF \<Rightarrow> Inr () | BodyBroken \<Rightarrow> Inl ReadFailed | BodyStalled \<Rightarrow> Inl ErrStalled, f, ps))"
| "read_loop a tot k (chunk # chunks) fin f ps =
     (if ta_cancel a = Some k then (Inl Cancelled, f, ps)
      else case ta_write a of
          Some (j, n) \<Rightarrow>
            if j = k then (Inl ErrWriteFile, f @ take n chunk, ps)
            else read_loop a tot (Suc k) chunks fin (f @ chunk) ((int (length (f @ chunk)), tot) # ps)
        | None \<Rightarrow> read_loop a tot (Suc k) chunks fin (f @ chunk) ((int (length (f @ chunk)), tot) # ps))"

text \<open>The offset the Range header asks for.\<close>

definition resume_offset :: "dl_options \<Rightarrow> transfer_files \<Rightarrow> int" where
  "resume_offset opts fs = (if do_resume opts then (case tf_temp fs of Some t \<Rightarrow> int (length t) | None \<Rightarrow> 0) else 0)"

text \<open>Writing the body from the start or after the bytes already there, closing and renaming.\<close>

definition write_body :: "attempt \<Rightarrow> transfer_files \<Rightarrow> int \<Rightarrow> bytes list \<Rightarrow> body_end \<Rightarrow> bytes
    \<Rightarrow> (fetch_error + unit) \<times> transfer_files \<times> (int \<times> int) list" where
  "write_body a fs tot chunks fin start = (case read_loop a tot 0 chunks fin start [] of
      (Inl e, f, ps) \<Rightarrow> (Inl e, fs\<lparr>tf_temp := Some f\<rparr>, ps)
    | (Inr _, f, ps) \<Rightarrow>
        if \<not> ta_close_ok a \<or> \<not> ta_rename_ok a then (Inl ErrWriteFile, fs\<lparr>tf_temp := Some f\<rparr>, ps)
        else (Inr (), \<lparr> tf_temp = None, tf_dest = Some f \<rparr>, ps))"

definition doDownload :: "dl_options \<Rightarrow> attempt \<Rightarrow> transfer_files
    \<Rightarrow> (fetch_error + unit) \<times> transfer_files \<times> (int \<times> int) list" where
  "doDownload opts a fs = (case handleResumeResponse a (resume_offset opts fs) of
      Inl e \<Rightarrow> (Inl e, fs, [])
    | Inr (resumeOffset, partial, len, chunks, fin) \<Rightarrow>
        let tot = (if partial then resumeOffset + len else len) in
        if \<not> ta_open_ok a then (Inl ErrWriteFile, fs, [])
        else if resumeOffset > 0 \<and> partial then
          (case tf_temp fs of None \<Rightarrow> (Inl ErrWriteFile, fs, []) | Some t \<Rightarrow> write_body a fs tot chunks fin t)
        else write_body a fs tot chunks fin [])"

text \<open>The retry loop: \<open>left\<close> attempts remain, and \<open>script\<close> says what each attempt meets when it asks for an offset.
  It also counts the attempts.\<close>

fun download_loop :: "dl_options \<Rightarrow> nat \<Rightarrow> (int \<Rightarrow> attempt) list \<Rightarrow> transfer_files
    \<Rightarrow> (fetch_error + unit) \<times> transfer_files \<times> nat" where
  "download_loop opts (Suc left) (world # script) fs =
     (let a = world (resume_offset opts fs) in
      case doDownload opts a fs of
        (Inr _, fs, ps) \<Rightarrow> (Inr (), fs, 1)
      | (Inl e, fs, ps) \<Rightarrow>
          if e = Cancelled \<or> ta_ended a \<or> \<not> isRetryable e \<or> left = 0 then (Inl e, fs, 1)
          else if ta_wait_ended a then (Inl Cancelled, fs, 1)
          else case download_loop opts left script fs of (r, fs, n) \<Rightarrow> (r, fs, Suc n))"
| "download_loop opts left script fs = (Inl RequestFailed, fs, 0)"

definition Download :: "dl_options \<Rightarrow> bool \<Rightarrow> (int \<Rightarrow> attempt) list \<Rightarrow> transfer_files
    \<Rightarrow> (fetch_error + unit) \<times> transfer_files \<times> nat" where
  "Download opts mkdir_ok script fs =
     (if \<not> mkdir_ok then (Inl MkdirFailed, fs, 0)
      else case tf_dest fs of
          Some d \<Rightarrow> if length d > 0 then (Inr (), fs, 0) else download_loop opts (nat (1 + do_max_retries opts)) script fs
        | None \<Rightarrow> download_loop opts (nat (1 + do_max_retries opts)) script fs)"

text \<open>Paths are component lists here; \<open>Download\<close> uses the same name with the default suffix.\<close>

definition TempFilePath :: "string list \<Rightarrow> string \<Rightarrow> string list" where
  "TempFilePath destPath tempSuffix =
     (let tempSuffix = (if tempSuffix = '''' then ''.downloading'' else tempSuffix)
      in butlast destPath @ [tempSuffix @ ''-'' @ last destPath])"

subsection \<open>Backoff stays in bounds\<close>

lemma delay_loop_value:
  assumes "0 \<le> d"
  shows "min (delay_loop n d) maxRetryDelay = min (d * 2 ^ n) maxRetryDelay"
  using assms
proof (induction n arbitrary: d)
  case (Suc n)
  show ?case
  proof (cases "d \<ge> maxRetryDelay")
    case True
    have "(1 :: int) \<le> 2 ^ Suc n" by (rule one_le_power) simp
    then have "d \<le> d * 2 ^ Suc n" using Suc.prems mult_left_mono [of 1 "2 ^ Suc n" d] by simp
    with True show ?thesis by simp
  qed (use Suc in \<open>simp add: mult.assoc\<close>)
qed simp

lemma delay_loop_small: "0 \<le> d \<Longrightarrow> delay_loop n d \<le> max d (2 * maxRetryDelay)"
proof (induction n arbitrary: d)
  case (Suc n)
  show ?case
  proof (cases "d \<ge> maxRetryDelay")
    case False
    with Suc.IH [of "d * 2"] Suc.prems show ?thesis by simp
  qed simp
qed simp

text \<open>The backoff is the base doubled per attempt and capped at 30 seconds, give or take a quarter; it is never
  negative, never above 37.5 seconds, and no intermediate value exceeds a minute's worth of the cap or the base, so
  no shift overflows.\<close>

theorem retryDelay_bounds:
  assumes "0 \<le> base" "0 \<le> jitter" "jitter < 2 * (min (base * 2 ^ attempt) maxRetryDelay div 4)
    \<or> min (base * 2 ^ attempt) maxRetryDelay < 4"
  shows "0 \<le> retryDelay base attempt jitter
    \<and> 4 * (retryDelay base attempt jitter) \<ge> 3 * min (base * 2 ^ attempt) maxRetryDelay
    \<and> 4 * retryDelay base attempt jitter \<le> 5 * min (base * 2 ^ attempt) maxRetryDelay
    \<and> 4 * retryDelay base attempt jitter \<le> 5 * maxRetryDelay
    \<and> delay_loop attempt base \<le> max base (2 * maxRetryDelay)"
proof -
  define d where "d = min (base * 2 ^ attempt) maxRetryDelay"
  have d: "0 \<le> d" "d \<le> maxRetryDelay" using assms(1) by (simp_all add: d_def maxRetryDelay_def)
  have e: "retryDelay base attempt jitter = (if d div 4 \<le> 0 then d else d - d div 4 + jitter)"
    using delay_loop_value [OF assms(1), of attempt] d(1) by (simp add: retryDelay_def d_def go_div_pos Let_def)
  have j: "d div 4 \<le> 0 \<or> jitter < 2 * (d div 4)" using assms(3) d(1) by (auto simp: d_def)
  have q: "4 * (d div 4) \<le> d" by simp
  show ?thesis using e j q d assms(2) delay_loop_small [OF assms(1), of attempt]
    unfolding d_def [symmetric] by (auto split: if_splits)
qed

theorem retryDelay_bounds_witness:
  "4 * retryDelay (10 ^ 9) 20 (10 ^ 9) \<le> 5 * maxRetryDelay \<and> delay_loop 20 (10 ^ 9) \<le> 2 * maxRetryDelay"
  using retryDelay_bounds [of "10 ^ 9" "10 ^ 9" 20] by (simp add: maxRetryDelay_def)

subsection \<open>A resumed transfer is byte exact\<close>

text \<open>What HTTP promises about a resource \<open>body\<close>: a full reply carries it from the start, a partial one from the offset
  asked for, a reply that ends cleanly carries all of it.\<close>

definition honest_body :: "bytes \<Rightarrow> nat \<Rightarrow> bytes list \<Rightarrow> body_end \<Rightarrow> bool" where
  "honest_body body off chunks fin \<longleftrightarrow> take (length (concat chunks)) (drop off body) = concat chunks
     \<and> (fin = BodyEOF \<longrightarrow> concat chunks = drop off body)"

definition honest_reply :: "bytes \<Rightarrow> nat \<Rightarrow> http_reply \<Rightarrow> bool" where
  "honest_reply body off r = (case r of NoReply \<Rightarrow> True
    | Reply status len chunks fin \<Rightarrow> (status = 206 \<longrightarrow> honest_body body off chunks fin) \<and> (status = 200 \<longrightarrow> honest_body body 0 chunks fin))"

definition honest :: "bytes \<Rightarrow> (int \<Rightarrow> attempt) \<Rightarrow> bool" where
  "honest body world \<longleftrightarrow> (\<forall>off. honest_reply body off (ta_first (world (int off))) \<and> honest_reply body 0 (ta_second (world (int off))))"

definition part_of :: "bytes \<Rightarrow> bytes option \<Rightarrow> bool" where
  "part_of body t \<longleftrightarrow> (case t of None \<Rightarrow> True | Some b \<Rightarrow> take (length b) body = b)"

lemma read_loop_exact:
  assumes "read_loop a tot k chunks fin f ps = (r, f', ps')" "take (length (f @ concat chunks)) body = f @ concat chunks"
    "fin = BodyEOF \<longrightarrow> f @ concat chunks = body"
  shows "take (length f') body = f' \<and> (r = Inr () \<longrightarrow> f' = body)"
  using assms
proof (induction chunks arbitrary: f k ps)
  case (Cons chunk chunks)
  have p: "take (length (f @ take n chunk)) body = f @ take n chunk" for n
  proof -
    have "body = f @ chunk @ concat chunks @ drop (length (f @ chunk @ concat chunks)) body"
      using Cons.prems(2) append_take_drop_id [of "length (f @ chunk @ concat chunks)" body] by simp
    then obtain rest where "body = f @ take n chunk @ drop n chunk @ rest" by (metis append.assoc append_take_drop_id)
    then have "body = (f @ take n chunk) @ drop n chunk @ rest" by simp
    then show ?thesis by (metis append_eq_conv_conj)
  qed
  show ?case
  proof (cases "ta_cancel a = Some k")
    case True
    with Cons.prems p [of 0] show ?thesis by auto
  next
    case False
    show ?thesis
    proof (cases "\<exists>n. ta_write a = Some (k, n)")
      case True
      with Cons.prems p False show ?thesis by auto
    next
      case no: False
      then have "read_loop a tot (Suc k) chunks fin (f @ chunk) ((int (length (f @ chunk)), tot) # ps) = (r, f', ps')"
        using Cons.prems(1) False by (auto split: option.splits if_splits)
      from Cons.IH [OF this] Cons.prems(2,3) show ?thesis by simp
    qed
  qed
qed (auto split: if_splits body_end.splits)

lemma honest_reply_body:
  assumes "honest_reply body off (Reply status len chunks fin)" "status = 206 \<and> n = off \<or> status = 200 \<and> n = 0"
  shows "honest_body body n chunks fin"
  using assms by (auto simp: honest_reply_def)

lemma resume_exact:
  assumes "honest body world" "handleResumeResponse (world (int off)) (int off) = Inr (roff, partial, len, chunks, fin)"
  shows "honest_body body (nat roff) chunks fin \<and> (partial \<longrightarrow> roff = int off) \<and> (\<not> partial \<longrightarrow> roff = 0)"
proof -
  have h: "honest_reply body off (ta_first (world (int off)))" "honest_reply body 0 (ta_second (world (int off)))"
    using assms(1) by (auto simp: honest_def)
  show ?thesis using assms(2) h
    by (auto simp: handleResumeResponse_def honest_reply_def split: http_reply.splits if_splits)
qed

definition attempt_ok :: "bytes \<Rightarrow> transfer_files \<Rightarrow> fetch_error + unit \<Rightarrow> transfer_files \<Rightarrow> bool" where
  "attempt_ok body fs r fs' \<longleftrightarrow> part_of body (tf_temp fs')
     \<and> (case r of Inr _ \<Rightarrow> tf_dest fs' = Some body \<and> tf_temp fs' = None | Inl _ \<Rightarrow> tf_dest fs' = tf_dest fs)"

lemma write_body_exact:
  assumes b: "honest_body body (length start) chunks fin" and p: "take (length start) body = start"
    and w: "write_body a fs tot chunks fin start = (r, fs', ps)"
  shows "attempt_ok body fs r fs'"
proof -
  have body: "body = start @ drop (length start) body" using p append_take_drop_id [of "length start" body] by simp
  have c: "take (length (concat chunks)) (drop (length start) body) = concat chunks" using b by (simp add: honest_body_def)
  have 1: "take (length (start @ concat chunks)) body = start @ concat chunks" using c p by (simp add: take_add)
  have 2: "fin = BodyEOF \<longrightarrow> start @ concat chunks = body" using b body by (auto simp: honest_body_def)
  obtain lr f lps where l: "read_loop a tot 0 chunks fin start [] = (lr, f, lps)" by (metis prod_cases3)
  from read_loop_exact [OF l 1 2] w l show ?thesis
    by (auto simp: write_body_def attempt_ok_def part_of_def split: sum.splits if_splits)
qed

lemma doDownload_exact:
  assumes h: "honest body world" and p: "part_of body (tf_temp fs)"
    and d: "doDownload opts (world (resume_offset opts fs)) fs = (r, fs', ps)"
  shows "attempt_ok body fs r fs'"
proof -
  define off where "off = (if do_resume opts then (case tf_temp fs of Some t \<Rightarrow> length t | None \<Rightarrow> 0) else 0)"
  have off: "resume_offset opts fs = int off" by (simp add: off_def resume_offset_def split: option.splits)
  have keep: "attempt_ok body fs (Inl e) fs" for e using p by (simp add: attempt_ok_def)
  show ?thesis
  proof (cases "handleResumeResponse (world (int off)) (int off)")
    case (Inl e)
    with d keep show ?thesis by (auto simp: doDownload_def off)
  next
    case (Inr v)
    then obtain roff partial len chunks fin where v: "handleResumeResponse (world (int off)) (int off) = Inr (roff, partial, len, chunks, fin)"
      by (cases v) auto
    from resume_exact [OF h v] have b: "honest_body body (nat roff) chunks fin"
      and part: "partial \<Longrightarrow> roff = int off" "\<not> partial \<Longrightarrow> roff = 0" by auto
    show ?thesis
    proof (cases "roff > 0 \<and> partial")
      case True
      then obtain t where t: "tf_temp fs = Some t" "nat roff = length t"
        using part by (auto simp: off_def split: if_splits option.splits)
      have "take (length t) body = t" using p t by (simp add: part_of_def)
      note w = write_body_exact [OF b [unfolded t(2)] this]
      show ?thesis using d v True t keep w by (auto simp: doDownload_def off Let_def split: if_splits)
    next
      case False
      then have "nat roff = length ([] :: bytes)" using part by fastforce
      note w = write_body_exact [OF b [unfolded this], simplified]
      show ?thesis using d v False keep w by (auto simp: doDownload_def off Let_def split: if_splits)
    qed
  qed
qed

lemma download_loop_exact:
  assumes "list_all (honest body) script" "part_of body (tf_temp fs)" "download_loop opts left script fs = (r, fs', n)"
  shows "attempt_ok body fs r fs' \<and> n \<le> left"
  using assms
proof (induction script arbitrary: left fs r fs' n)
  case (Cons world script)
  show ?case
  proof (cases left)
    case 0
    with Cons.prems show ?thesis by (auto simp: attempt_ok_def)
  next
    case (Suc l)
    obtain r1 fs1 ps1 where d: "doDownload opts (world (resume_offset opts fs)) fs = (r1, fs1, ps1)" by (metis prod_cases3)
    have "attempt_ok body fs r1 fs1" using doDownload_exact [where world = world, OF _ Cons.prems(2) d] Cons.prems(1) by simp
    then have fs1: "part_of body (tf_temp fs1)" "case r1 of Inl _ \<Rightarrow> tf_dest fs1 = tf_dest fs | Inr _ \<Rightarrow> tf_dest fs1 = Some body \<and> tf_temp fs1 = None"
      by (auto simp: attempt_ok_def split: sum.splits)
    obtain r2 fs2 n2 where rec: "download_loop opts l script fs1 = (r2, fs2, n2)" by (metis prod_cases3)
    have "attempt_ok body fs1 r2 fs2 \<and> n2 \<le> l" using Cons.IH [OF _ fs1(1) rec] Cons.prems(1) by simp
    then show ?thesis using Cons.prems(3) Suc d rec fs1
      by (auto simp: attempt_ok_def Let_def split: sum.splits if_splits)
  qed
qed (auto simp: attempt_ok_def)

text \<open>C20. Whatever interruptions, restarts, refused ranges and local write failures a transfer meets, as long as every
  reply is a faithful reply about one body and the temp file starts as a part of it: the temp file stays a part of
  the body, the destination is either untouched or the whole body with the temp file gone, it is the whole body when
  the download reports success on a destination that was missing, and no more than eleven attempts are made.\<close>

theorem download_exact:
  assumes "list_all (honest body) script" "part_of body (tf_temp fs)" "tf_dest fs = None"
    "Download (WithMaxRetries retries opts) mkdir_ok script fs = (r, fs', n)"
  shows "part_of body (tf_temp fs') \<and> (tf_dest fs' = None \<or> tf_dest fs' = Some body \<and> tf_temp fs' = None)
    \<and> (r = Inr () \<longleftrightarrow> tf_dest fs' = Some body) \<and> n \<le> 11"
proof -
  define o' where "o' = WithMaxRetries retries opts"
  have left: "nat (1 + do_max_retries o') \<le> 11" by (auto simp: o'_def WithMaxRetries_def maxRetriesLimit_def)
  show ?thesis
  proof (cases mkdir_ok)
    case True
    with assms(3,4) have "download_loop o' (nat (1 + do_max_retries o')) script fs = (r, fs', n)"
      by (simp add: Download_def o'_def)
    from download_loop_exact [OF assms(1,2) this] left assms(3) show ?thesis
      by (cases r) (auto simp: attempt_ok_def)
  qed (use assms in \<open>auto simp: Download_def\<close>)
qed

definition example_world :: "int \<Rightarrow> attempt" where
  "example_world off = \<lparr> ta_first = (if off = 0 then Reply 200 3 [[1], [2]] BodyBroken else Reply 206 (3 - off) [drop (nat off) [1, 2, 3]] BodyEOF),
     ta_second = NoReply, ta_open_ok = True, ta_cancel = None, ta_write = None, ta_close_ok = True, ta_rename_ok = True,
     ta_ended = False, ta_wait_ended = False \<rparr>"

lemma example_world_honest: "honest [1, 2, 3] example_world"
  by (simp add: honest_def honest_reply_def honest_body_def example_world_def)

theorem download_exact_witness:
  "Download (WithMaxRetries 3 (WithResume True defaultOptions)) True [example_world, example_world] \<lparr> tf_temp = None, tf_dest = None \<rparr>
     = (Inr (), \<lparr> tf_temp = None, tf_dest = Some [1, 2, 3] \<rparr>, 2)
   \<and> tf_dest \<lparr> tf_temp = None, tf_dest = Some [1, 2, 3] \<rparr> = Some [1, 2, 3 :: byte] \<and> (2 :: nat) \<le> 11"
proof -
  have run: "Download (WithMaxRetries 3 (WithResume True defaultOptions)) True [example_world, example_world]
      \<lparr> tf_temp = None, tf_dest = None \<rparr> = (Inr (), \<lparr> tf_temp = None, tf_dest = Some [1, 2, 3] \<rparr>, 2)"
    by (simp add: Download_def defaultOptions_def WithMaxRetries_def WithResume_def maxRetriesLimit_def example_world_def
        resume_offset_def doDownload_def handleResumeResponse_def write_body_def Let_def isRetryable_def numeral_nat nat_numeral)
  show ?thesis
    using download_exact [OF _ _ _ run, of "[1, 2, 3]"] run
    by (simp add: example_world_honest part_of_def)
qed

end
