(* ===== verification/Downloads.thy ===== *)
theory Downloads
  imports Paths Fetch Database
begin

text \<open>
  The download manager (\<open>internal/downloads/manager.go\<close>) over the downloads table (\<open>internal/store/downloads.go\<close>):
  which transfers are tracked, their goroutines, and the operations that start, pause, resume, cancel and remove them.

  A job is an object with its own mutex; an operation is cut where it takes or releases a lock, so what is left of an
  operation is a pending step, and transfers and operations interleave at these points. A transfer is an entry of
  \<open>dm_runs\<close>, its context the flag \<open>tr_cancelled\<close>. What the network and the files answer to it are arguments of its
  steps; the bytes of one transfer are moved in one step (\<open>Fetch\<close>), so that two transfers into one temp file are
  serialized. Files are a map from component lists to contents; directories are implicit.
\<close>

subsection \<open>The downloads table\<close>

definition DownloadStatusActive :: string where "DownloadStatusActive = ''active''"
definition DownloadStatusPaused :: string where "DownloadStatusPaused = ''paused''"
definition DownloadStatusError :: string where "DownloadStatusError = ''error''"

record download_row =
  dr_rel :: string
  dr_url :: string
  dr_source :: string
  dr_repo :: string
  dr_runtime :: runtime_name
  dr_group :: string
  dr_status :: string
  dr_downloaded :: int
  dr_total :: int
  dr_error :: string

text \<open>Rows are in the order of \<open>created_at\<close>, which an upsert of an existing row keeps.\<close>

record download_store =
  ds_rows :: "(string \<times> download_row) list"
  ds_faults :: "bool list"

definition dtx :: "('s download_store_scheme \<Rightarrow> 's download_store_scheme) \<Rightarrow> 's download_store_scheme
    \<Rightarrow> (db_error + unit) \<times> 's download_store_scheme" where
  "dtx f s = (let s' = s\<lparr>ds_faults := tl (ds_faults s)\<rparr>
     in if faulty (ds_faults s) then (Inl DbError, s') else (Inr (), f s'))"

definition UpsertDownload :: "download_row \<Rightarrow> 's download_store_scheme \<Rightarrow> (db_error + unit) \<times> 's download_store_scheme" where
  "UpsertDownload row = dtx (\<lambda>s. s\<lparr>ds_rows := AList.update (dr_rel row) row (ds_rows s)\<rparr>)"

definition update_row :: "string \<Rightarrow> (download_row \<Rightarrow> download_row) \<Rightarrow> (string \<times> download_row) list \<Rightarrow> (string \<times> download_row) list" where
  "update_row rel u tbl = map (\<lambda>(k, r). (k, if k = rel then u r else r)) tbl"

definition UpdateDownloadProgress :: "string \<Rightarrow> int \<Rightarrow> int \<Rightarrow> 's download_store_scheme
    \<Rightarrow> (db_error + unit) \<times> 's download_store_scheme" where
  "UpdateDownloadProgress rel d t = dtx (\<lambda>s. s\<lparr>ds_rows := update_row rel (\<lambda>r. r\<lparr>dr_downloaded := d, dr_total := t\<rparr>) (ds_rows s)\<rparr>)"

definition SetDownloadStatus :: "string \<Rightarrow> string \<Rightarrow> string \<Rightarrow> 's download_store_scheme
    \<Rightarrow> (db_error + unit) \<times> 's download_store_scheme" where
  "SetDownloadStatus rel status msg = dtx (\<lambda>s. s\<lparr>ds_rows := update_row rel (\<lambda>r. r\<lparr>dr_status := status, dr_error := msg\<rparr>) (ds_rows s)\<rparr>)"

definition DeleteDownload :: "string \<Rightarrow> 's download_store_scheme \<Rightarrow> (db_error + unit) \<times> 's download_store_scheme" where
  "DeleteDownload rel = dtx (\<lambda>s. s\<lparr>ds_rows := AList.delete rel (ds_rows s)\<rparr>)"

definition GetDownload :: "string \<Rightarrow> 's download_store_scheme \<Rightarrow> (db_error + download_row) \<times> 's download_store_scheme" where
  "GetDownload rel s = (case dtx (\<lambda>s. s) s of
      (Inl e, s) \<Rightarrow> (Inl e, s)
    | (Inr _, s) \<Rightarrow> (case map_of (ds_rows s) rel of None \<Rightarrow> (Inl NoRows, s) | Some r \<Rightarrow> (Inr r, s)))"

definition ListDownloads :: "'s download_store_scheme \<Rightarrow> (db_error + download_row list) \<times> 's download_store_scheme" where
  "ListDownloads s = (case dtx (\<lambda>s. s) s of (Inl e, s) \<Rightarrow> (Inl e, s) | (Inr _, s) \<Rightarrow> (Inr (map snd (ds_rows s)), s))"

subsection \<open>Jobs, transfers and the manager\<close>

record download_job =
  dj_rel :: string
  dj_url :: string
  dj_source :: string
  dj_repo :: string
  dj_runtime :: runtime_name
  dj_group :: string
  dj_group_name :: string
  dj_filename :: string
  dj_status :: string
  dj_downloaded :: int
  dj_total :: int
  dj_error :: string

definition jobFromRow :: "download_row \<Rightarrow> download_job" where
  "jobFromRow r = \<lparr> dj_rel = dr_rel r, dj_url = dr_url r, dj_source = dr_source r, dj_repo = dr_repo r,
     dj_runtime = dr_runtime r, dj_group = dr_group r, dj_group_name = '''', dj_filename = '''', dj_status = dr_status r,
     dj_downloaded = dr_downloaded r, dj_total = dr_total r, dj_error = dr_error r \<rparr>"

definition rowFromJob :: "download_job \<Rightarrow> download_row" where
  "rowFromJob j = \<lparr> dr_rel = dj_rel j, dr_url = dj_url j, dr_source = dj_source j, dr_repo = dj_repo j,
     dr_runtime = dj_runtime j, dr_group = dj_group j, dr_status = dj_status j, dr_downloaded = dj_downloaded j,
     dr_total = dj_total j, dr_error = dj_error j \<rparr>"

record dl_event =
  ev_rel :: string
  ev_group :: string
  ev_group_name :: string
  ev_filename :: string
  ev_status :: string
  ev_downloaded :: int
  ev_total :: int
  ev_error :: string

text \<open>\<open>rj_held\<close>: the job's mutex was left locked by a handler that panicked.\<close>

datatype cancel_fun = NilCancel | NoopCancel | CancelRun nat

record runtime_job =
  rj_job :: download_job
  rj_cancel :: cancel_fun
  rj_done :: "nat option"
  rj_persist :: "time option"
  rj_held :: bool

datatype run_kind = HttpRun | CopyRun string

datatype run_phase = Spawned | Waiting | Transferring | Failing string | Landed | Finishing | Exited

record transfer =
  tr_obj :: nat
  tr_kind :: run_kind
  tr_rel :: string
  tr_phase :: run_phase
  tr_cancelled :: bool
  tr_pct :: int

datatype pending = StartTail nat download_job run_kind | PauseLock nat string | PauseTail nat string int int
  | ResumeLock nat string | ResumeTail nat string int int | CancelLock nat string | CancelTail nat string "nat option"

record dl_manager = download_store +
  dm_dir :: "string list"
  dm_jobs :: "(string \<times> nat) list"
  dm_objs :: "runtime_job list"
  dm_runs :: "transfer list"
  dm_pending :: "pending list"
  dm_files :: "(string list \<times> bytes) list"
  dm_subs :: "(nat \<times> dl_event list) list"
  dm_callback :: bool
  dm_completed :: "(runtime_name \<times> string) list"
  dm_wedged :: bool

definition maxConcurrent :: nat where "maxConcurrent = 3"
definition persistInterval :: time where "persistInterval = 5 * 1000"
definition event_buffer :: nat where "event_buffer = 64"

definition dest_path :: "dl_manager \<Rightarrow> string \<Rightarrow> string list" where
  "dest_path m rel = Join (dm_dir m) rel"

definition temp_path :: "dl_manager \<Rightarrow> string \<Rightarrow> string list" where
  "temp_path m rel = TempFilePath (dest_path m rel) ''''"

text \<open>\<open>os.Stat(p) == nil\<close>: a file or a directory.\<close>

definition stat_ok :: "dl_manager \<Rightarrow> string list \<Rightarrow> bool" where
  "stat_ok m p \<longleftrightarrow> list_ex (\<lambda>(q, _). q = p \<or> below p q) (dm_files m)"

definition update_obj :: "nat \<Rightarrow> (runtime_job \<Rightarrow> runtime_job) \<Rightarrow> dl_manager \<Rightarrow> dl_manager" where
  "update_obj n u m = m\<lparr>dm_objs := (dm_objs m)[n := u (dm_objs m ! n)]\<rparr>"

definition update_job :: "nat \<Rightarrow> (download_job \<Rightarrow> download_job) \<Rightarrow> dl_manager \<Rightarrow> dl_manager" where
  "update_job n u = update_obj n (\<lambda>rj. rj\<lparr>rj_job := u (rj_job rj)\<rparr>)"

definition update_run :: "nat \<Rightarrow> (transfer \<Rightarrow> transfer) \<Rightarrow> dl_manager \<Rightarrow> dl_manager" where
  "update_run r u m = m\<lparr>dm_runs := (dm_runs m)[r := u (dm_runs m ! r)]\<rparr>"

definition push_pending :: "pending \<Rightarrow> dl_manager \<Rightarrow> dl_manager" where
  "push_pending p m = m\<lparr>dm_pending := dm_pending m @ [p]\<rparr>"

definition spawn :: "nat \<Rightarrow> run_kind \<Rightarrow> dl_manager \<Rightarrow> dl_manager" where
  "spawn n kind m = m\<lparr>dm_runs := dm_runs m @ [\<lparr> tr_obj = n, tr_kind = kind, tr_rel = dj_rel (rj_job (dm_objs m ! n)),
     tr_phase = Spawned, tr_cancelled = False, tr_pct = - 1 \<rparr>]\<rparr>"

subsection \<open>Subscribers\<close>

definition Subscribe :: "nat \<Rightarrow> dl_manager \<Rightarrow> dl_manager" where
  "Subscribe ch m = m\<lparr>dm_subs := AList.update ch [] (dm_subs m)\<rparr>"

definition Unsubscribe :: "nat \<Rightarrow> dl_manager \<Rightarrow> dl_manager" where
  "Unsubscribe ch m = m\<lparr>dm_subs := AList.delete ch (dm_subs m)\<rparr>"

definition broadcast :: "dl_event \<Rightarrow> dl_manager \<Rightarrow> dl_manager" where
  "broadcast evt m = m\<lparr>dm_subs := map (\<lambda>(ch, evs). (ch, if length evs < event_buffer then evs @ [evt] else evs)) (dm_subs m)\<rparr>"

definition snapshotEvent :: "runtime_job \<Rightarrow> string \<Rightarrow> int \<Rightarrow> int \<Rightarrow> string \<Rightarrow> dl_event" where
  "snapshotEvent rj status d t msg = \<lparr> ev_rel = dj_rel (rj_job rj), ev_group = dj_group (rj_job rj),
     ev_group_name = dj_group_name (rj_job rj), ev_filename = dj_filename (rj_job rj), ev_status = status,
     ev_downloaded = d, ev_total = t, ev_error = msg \<rparr>"

definition announce :: "nat \<Rightarrow> string \<Rightarrow> int \<Rightarrow> int \<Rightarrow> string \<Rightarrow> dl_manager \<Rightarrow> dl_manager" where
  "announce n status d t msg m = broadcast (snapshotEvent (dm_objs m ! n) status d t msg) m"

definition notifyComplete :: "runtime_name \<Rightarrow> string \<Rightarrow> dl_manager \<Rightarrow> dl_manager" where
  "notifyComplete runtime rel m = (if dm_callback m then m\<lparr>dm_completed := dm_completed m @ [(runtime, rel)]\<rparr> else m)"

text \<open>The store's errors are logged and otherwise ignored throughout.\<close>

definition quietly :: "(dl_manager \<Rightarrow> (db_error + unit) \<times> dl_manager) \<Rightarrow> dl_manager \<Rightarrow> dl_manager" where
  "quietly f m = snd (f m)"

subsection \<open>Start, pause, resume, cancel\<close>

datatype dl_error = UrlRequired | RuntimeRequired | InvalidRelPath rel_path_error | BadSource | ErrAlreadyDone
  | ErrAlreadyExists | ErrNotFound | ErrNotPaused | RemoveFailed string | NilCancelPanic

definition register :: "download_job \<Rightarrow> run_kind \<Rightarrow> dl_manager \<Rightarrow> dl_manager" where
  "register job kind m = push_pending (StartTail (length (dm_objs m)) job kind)
     (m\<lparr>dm_objs := dm_objs m @ [\<lparr> rj_job = job, rj_cancel = NilCancel, rj_done = None, rj_persist = None, rj_held = False \<rparr>],
        dm_jobs := AList.update (dj_rel job) (length (dm_objs m)) (dm_jobs m)\<rparr>)"

definition StartDownload :: "download_job \<Rightarrow> dl_manager \<Rightarrow> (dl_error + unit) \<times> dl_manager" where
  "StartDownload spec m =
     (if dj_url spec = '''' then (Inl UrlRequired, m)
      else case ValidateRelPath (dj_rel spec) of
          Inl e \<Rightarrow> (Inl (InvalidRelPath e), m)
        | Inr _ \<Rightarrow>
            if stat_ok m (dest_path m (dj_rel spec)) then (Inl ErrAlreadyDone, m)
            else if map_of (dm_jobs m) (dj_rel spec) \<noteq> None then (Inl ErrAlreadyExists, m)
            else (Inr (), register (if dj_status spec = '''' then spec\<lparr>dj_status := DownloadStatusActive\<rparr> else spec) HttpRun m))"

text \<open>The source of an import: whether it can be resolved, whether it is a directory, its size, its absolute path.\<close>

record import_source =
  is_path :: string
  is_found :: bool
  is_directory :: bool
  is_size :: int
  is_abs :: "string list option"

definition ImportLocal :: "import_source \<Rightarrow> string \<Rightarrow> runtime_name \<Rightarrow> string \<times> string \<Rightarrow> dl_manager
    \<Rightarrow> (dl_error + string) \<times> dl_manager" where
  "ImportLocal src rel runtime labels m =
     (if runtime = '''' then (Inl RuntimeRequired, m)
      else case ValidateRelPath rel of
          Inl e \<Rightarrow> (Inl (InvalidRelPath e), m)
        | Inr _ \<Rightarrow>
            if \<not> is_found src \<or> is_directory src then (Inl BadSource, m)
            else case is_abs src of
                None \<Rightarrow> (Inl BadSource, m)
              | Some srcAbs \<Rightarrow>
                  if srcAbs = dest_path m rel then (Inr rel, m)
                  else if stat_ok m (dest_path m rel) then (Inl ErrAlreadyDone, m)
                  else if map_of (dm_jobs m) rel \<noteq> None then (Inl ErrAlreadyExists, m)
                  else (Inr rel, register \<lparr> dj_rel = rel, dj_url = ''file://'' @ is_path src, dj_source = ''local'', dj_repo = '''',
                      dj_runtime = runtime, dj_group = rel, dj_group_name = fst labels, dj_filename = snd labels,
                      dj_status = DownloadStatusActive, dj_downloaded = 0, dj_total = is_size src, dj_error = '''' \<rparr>
                      (CopyRun (is_path src)) m))"

text \<open>What follows the registration: the row, the event, the goroutine.\<close>

definition start_tail :: "nat \<Rightarrow> download_job \<Rightarrow> run_kind \<Rightarrow> dl_manager \<Rightarrow> dl_manager" where
  "start_tail n job kind m = spawn n kind (announce n ''started'' 0 (dj_total job) '''' (quietly (UpsertDownload (rowFromJob job)) m))"

definition cancel_run :: "cancel_fun \<Rightarrow> dl_manager \<Rightarrow> dl_manager" where
  "cancel_run c m = (case c of CancelRun r \<Rightarrow> update_run r (\<lambda>t. t\<lparr>tr_cancelled := True\<rparr>) m | _ \<Rightarrow> m)"

definition Pause :: "string \<Rightarrow> dl_manager \<Rightarrow> (dl_error + unit) \<times> dl_manager" where
  "Pause rel m = (case map_of (dm_jobs m) rel of
      None \<Rightarrow> (Inl ErrNotFound, m)
    | Some n \<Rightarrow> (Inr (), push_pending (PauseLock n rel) m))"

text \<open>The critical section of \<open>Pause\<close>. Calling a nil \<open>cancel\<close> panics with the job's mutex held.\<close>

definition pause_lock :: "nat \<Rightarrow> string \<Rightarrow> dl_manager \<Rightarrow> (dl_error + unit) \<times> dl_manager" where
  "pause_lock n rel m = (let rj = dm_objs m ! n in
     if dj_status (rj_job rj) \<noteq> DownloadStatusActive then (Inr (), m)
     else if rj_cancel rj = NilCancel then (Inl NilCancelPanic, update_obj n (\<lambda>rj. rj\<lparr>rj_held := True\<rparr>) m)
     else (Inr (), push_pending (PauseTail n rel (dj_downloaded (rj_job rj)) (dj_total (rj_job rj)))
            (update_job n (\<lambda>j. j\<lparr>dj_status := DownloadStatusPaused\<rparr>) (cancel_run (rj_cancel rj) m))))"

definition pause_tail :: "nat \<Rightarrow> string \<Rightarrow> int \<Rightarrow> int \<Rightarrow> dl_manager \<Rightarrow> dl_manager" where
  "pause_tail n rel d t m = announce n ''paused'' d t ''''
     (quietly (UpdateDownloadProgress rel d t) (quietly (SetDownloadStatus rel DownloadStatusPaused '''') m))"

definition Resume :: "string \<Rightarrow> dl_manager \<Rightarrow> (dl_error + unit) \<times> dl_manager" where
  "Resume rel m = (case map_of (dm_jobs m) rel of
      None \<Rightarrow> (Inl ErrNotFound, m)
    | Some n \<Rightarrow> (Inr (), push_pending (ResumeLock n rel) m))"

definition resume_lock :: "nat \<Rightarrow> string \<Rightarrow> dl_manager \<Rightarrow> (dl_error + unit) \<times> dl_manager" where
  "resume_lock n rel m = (let rj = dm_objs m ! n in
     if dj_status (rj_job rj) \<noteq> DownloadStatusPaused \<and> dj_status (rj_job rj) \<noteq> DownloadStatusError then (Inl ErrNotPaused, m)
     else (Inr (), push_pending (ResumeTail n rel (dj_downloaded (rj_job rj)) (dj_total (rj_job rj)))
            (update_job n (\<lambda>j. j\<lparr>dj_status := DownloadStatusActive, dj_error := ''''\<rparr>) m)))"

definition resume_tail :: "nat \<Rightarrow> string \<Rightarrow> int \<Rightarrow> int \<Rightarrow> dl_manager \<Rightarrow> dl_manager" where
  "resume_tail n rel d t m = spawn n HttpRun (announce n ''resumed'' d t '''' (quietly (SetDownloadStatus rel DownloadStatusActive '''') m))"

definition Cancel :: "string \<Rightarrow> dl_manager \<Rightarrow> (dl_error + unit) \<times> dl_manager" where
  "Cancel rel m = (case map_of (dm_jobs m) rel of
      None \<Rightarrow> (Inl ErrNotFound, m)
    | Some n \<Rightarrow> (Inr (), push_pending (CancelLock n rel) (m\<lparr>dm_jobs := AList.delete rel (dm_jobs m)\<rparr>)))"

definition cancel_lock :: "nat \<Rightarrow> string \<Rightarrow> dl_manager \<Rightarrow> dl_manager" where
  "cancel_lock n rel m = push_pending (CancelTail n rel (rj_done (dm_objs m ! n))) (cancel_run (rj_cancel (dm_objs m ! n)) m)"

text \<open>After the wait for the goroutine, which ends with it or after five seconds: the temp file, the row, the event.
  \<open>remove_ok\<close> says whether the file system lets the temp file go.\<close>

definition cancel_tail :: "bool \<Rightarrow> nat \<Rightarrow> string \<Rightarrow> dl_manager \<Rightarrow> dl_manager" where
  "cancel_tail remove_ok n rel m = announce n ''cancelled'' 0 0 '''' (quietly (DeleteDownload rel)
     (if remove_ok then m\<lparr>dm_files := AList.delete (temp_path m rel) (dm_files m)\<rparr> else m))"

text \<open>\<open>List\<close> blocks on a held job with the manager's mutex taken; nothing that needs the latter gets through again.\<close>

definition List_jobs :: "dl_manager \<Rightarrow> download_job list option \<times> dl_manager" where
  "List_jobs m = (if list_ex (\<lambda>(_, n). rj_held (dm_objs m ! n)) (dm_jobs m) then (None, m\<lparr>dm_wedged := True\<rparr>)
     else (Some (map (\<lambda>(_, n). rj_job (dm_objs m ! n)) (dm_jobs m)), m))"

subsection \<open>The transfer goroutine\<close>

definition slots_used :: "dl_manager \<Rightarrow> nat" where
  "slots_used m = length (filter (\<lambda>t. tr_phase t \<notin> {Spawned, Waiting, Exited}) (dm_runs m))"

definition set_phase :: "nat \<Rightarrow> run_phase \<Rightarrow> dl_manager \<Rightarrow> dl_manager" where
  "set_phase r p = update_run r (\<lambda>t. t\<lparr>tr_phase := p\<rparr>)"

definition run_register :: "nat \<Rightarrow> dl_manager \<Rightarrow> dl_manager" where
  "run_register r m = set_phase r Waiting
     (update_obj (tr_obj (dm_runs m ! r)) (\<lambda>rj. rj\<lparr>rj_cancel := CancelRun r, rj_done := Some r\<rparr>) m)"

text \<open>The progress callback of a download.\<close>

definition run_progress :: "nat \<Rightarrow> time \<Rightarrow> int \<Rightarrow> int \<Rightarrow> dl_manager \<Rightarrow> dl_manager" where
  "run_progress r now d tot m =
     (let t = dm_runs m ! r; n = tr_obj t; rj = dm_objs m ! n;
          due = (case rj_persist rj of None \<Rightarrow> True | Some l \<Rightarrow> now - l \<ge> persistInterval);
          total' = (if tot > 0 then tot else dj_total (rj_job rj));
          m = update_obj n (\<lambda>rj. rj\<lparr>rj_job := (rj_job rj)\<lparr>dj_downloaded := d, dj_total := total'\<rparr>,
                rj_persist := (if due then Some now else rj_persist rj)\<rparr>) m;
          m = (if due then quietly (UpdateDownloadProgress (tr_rel t) d total') m else m);
          pct = go_div (100 * d) total'
      in if total' > 0 \<and> pct = tr_pct t then m
         else announce n ''progress'' d total' '''' (if total' > 0 then update_run r (\<lambda>t. t\<lparr>tr_pct := pct\<rparr>) m else m))"

text \<open>The one of a copy, whose total is the size the import was registered with.\<close>

definition copy_progress :: "nat \<Rightarrow> int \<Rightarrow> int \<Rightarrow> dl_manager \<Rightarrow> dl_manager" where
  "copy_progress r copied tot m =
     (let t = dm_runs m ! r; n = tr_obj t;
          m = update_job n (\<lambda>j. j\<lparr>dj_downloaded := copied\<rparr>) m;
          pct = go_div (100 * copied) tot
      in if tot > 0 \<and> pct \<noteq> tr_pct t then announce n ''progress'' copied tot '''' (update_run r (\<lambda>t. t\<lparr>tr_pct := pct\<rparr>) m)
         else m)"

definition put_file :: "string list \<Rightarrow> bytes option \<Rightarrow> (string list \<times> bytes) list \<Rightarrow> (string list \<times> bytes) list" where
  "put_file p c files = (case c of None \<Rightarrow> AList.delete p files | Some b \<Rightarrow> AList.update p b files)"

definition file_view :: "string \<Rightarrow> dl_manager \<Rightarrow> transfer_files" where
  "file_view rel m = \<lparr> tf_temp = map_of (dm_files m) (temp_path m rel), tf_dest = map_of (dm_files m) (dest_path m rel) \<rparr>"

definition write_view :: "string \<Rightarrow> transfer_files \<Rightarrow> dl_manager \<Rightarrow> dl_manager" where
  "write_view rel fs m = m\<lparr>dm_files := put_file (dest_path m rel) (tf_dest fs) (put_file (temp_path m rel) (tf_temp fs) (dm_files m))\<rparr>"

definition run_options :: dl_options where
  "run_options = WithProgress (WithMaxRetries 3 (WithResume True defaultOptions))"

text \<open>The end of a download. An error of an ended context is silent; any other is recorded in a later step.\<close>

definition run_transfer :: "nat \<Rightarrow> bool \<Rightarrow> (int \<Rightarrow> attempt) list \<Rightarrow> string \<Rightarrow> dl_manager \<Rightarrow> dl_manager" where
  "run_transfer r mkdir_ok script msg m =
     (let t = dm_runs m ! r in
      case Download run_options mkdir_ok script (file_view (tr_rel t) m) of
        (Inl e, fs, _) \<Rightarrow> set_phase r (if tr_cancelled t then Exited else Failing msg) (write_view (tr_rel t) fs m)
      | (Inr _, fs, _) \<Rightarrow> set_phase r Landed (write_view (tr_rel t) fs m))"

text \<open>Of \<open>copyLocal\<close>: which of the directory, the source and the temp file can be had, and how the copy goes.\<close>

record copy_script =
  cs_dir_ok :: bool
  cs_open_ok :: bool
  cs_attempt :: attempt
  cs_chunks :: "bytes list"
  cs_end :: body_end

definition run_copy :: "nat \<Rightarrow> copy_script \<Rightarrow> string \<Rightarrow> dl_manager \<Rightarrow> dl_manager" where
  "run_copy r c msg m =
     (let t = dm_runs m ! r; rel = tr_rel t; fs = file_view rel m in
      if \<not> cs_dir_ok c \<or> \<not> cs_open_ok c \<or> \<not> ta_open_ok (cs_attempt c) then set_phase r (Failing msg) m
      else case write_body (cs_attempt c) fs 0 (cs_chunks c) (cs_end c) [] of
          (Inl e, fs, _) \<Rightarrow> set_phase r (if e = Cancelled then Exited else Failing msg) (write_view rel fs m)
        | (Inr _, fs, _) \<Rightarrow> set_phase r Landed (write_view rel fs m))"

definition failJob :: "nat \<Rightarrow> string \<Rightarrow> dl_manager \<Rightarrow> dl_manager" where
  "failJob r msg m =
     (let t = dm_runs m ! r; n = tr_obj t;
          m = update_job n (\<lambda>j. j\<lparr>dj_status := DownloadStatusError, dj_error := msg\<rparr>) m
      in set_phase r Exited (announce n ''error'' 0 0 msg (quietly (SetDownloadStatus (tr_rel t) DownloadStatusError msg) m)))"

text \<open>Success: the runtime entry goes, under the manager's mutex, then the row, the event and the callback.\<close>

definition run_untrack :: "nat \<Rightarrow> dl_manager \<Rightarrow> dl_manager" where
  "run_untrack r m = set_phase r Finishing (m\<lparr>dm_jobs := AList.delete (tr_rel (dm_runs m ! r)) (dm_jobs m)\<rparr>)"

definition run_finish :: "nat \<Rightarrow> dl_manager \<Rightarrow> dl_manager" where
  "run_finish r m =
     (let t = dm_runs m ! r; n = tr_obj t; tot = dj_total (rj_job (dm_objs m ! n))
      in set_phase r Exited (notifyComplete (dj_runtime (rj_job (dm_objs m ! n))) (tr_rel t)
           (announce n ''done'' tot tot '''' (quietly (DeleteDownload (tr_rel t)) m))))"

subsection \<open>Removing models and recovering after a restart\<close>

text \<open>\<open>RemoveLocal\<close> is one step: its cancellations run to their end, having waited for the goroutine or given up. A held
  job blocks it. For each path the file system says whether the removal works.\<close>

definition cancel_whole :: "string \<Rightarrow> dl_manager \<Rightarrow> dl_manager" where
  "cancel_whole rel m = (case map_of (dm_jobs m) rel of
      None \<Rightarrow> m
    | Some n \<Rightarrow> cancel_tail True n rel (cancel_run (rj_cancel (dm_objs m ! n)) (m\<lparr>dm_jobs := AList.delete rel (dm_jobs m)\<rparr>)))"

definition remove_path :: "string list \<Rightarrow> dl_manager \<Rightarrow> dl_manager" where
  "remove_path p m = m\<lparr>dm_files := filter (\<lambda>(q, _). q \<noteq> p \<and> \<not> below p q) (dm_files m)\<rparr>"

fun RemoveLocal :: "(string \<times> bool) list \<Rightarrow> dl_error option \<Rightarrow> dl_manager \<Rightarrow> dl_error option \<times> dl_manager" where
  "RemoveLocal [] firstErr m = (firstErr, m)"
| "RemoveLocal ((rel, remove_ok) # rels) firstErr m =
     (let note_error = (\<lambda>e. if firstErr = None then Some e else firstErr) in
      case ValidateRelPath rel of
        Inl e \<Rightarrow> RemoveLocal rels (note_error (InvalidRelPath e)) m
      | Inr _ \<Rightarrow>
          let m = cancel_whole rel m in
          if stat_ok m (dest_path m rel) \<and> \<not> remove_ok then RemoveLocal rels (note_error (RemoveFailed rel)) m
          else RemoveLocal rels firstErr (quietly (DeleteDownload rel) (remove_path (dest_path m rel) m)))"

text \<open>What a restart leaves: the rows and the files.\<close>

definition boot :: "string list \<Rightarrow> (string \<times> download_row) list \<Rightarrow> bool list \<Rightarrow> (string list \<times> bytes) list \<Rightarrow> bool \<Rightarrow> dl_manager" where
  "boot dir tbl faults files callback = \<lparr> ds_rows = tbl, ds_faults = faults, dm_dir = dir, dm_jobs = [], dm_objs = [],
     dm_runs = [], dm_pending = [], dm_files = files, dm_subs = [], dm_callback = callback, dm_completed = [], dm_wedged = False \<rparr>"

definition recover_row :: "download_row \<Rightarrow> dl_manager \<Rightarrow> dl_manager" where
  "recover_row row m =
     (if \<not> stat_ok m (temp_path m (dr_rel row)) then quietly (DeleteDownload (dr_rel row)) m
      else
        let newStatus = (if dr_status row = DownloadStatusError then DownloadStatusError else DownloadStatusPaused);
            rj = \<lparr> rj_job = jobFromRow (row\<lparr>dr_status := newStatus\<rparr>), rj_cancel = NoopCancel, rj_done = None,
              rj_persist = None, rj_held = False \<rparr>
        in quietly (SetDownloadStatus (dr_rel row) newStatus (dr_error row))
             (m\<lparr>dm_objs := dm_objs m @ [rj], dm_jobs := AList.update (dr_rel row) (length (dm_objs m)) (dm_jobs m)\<rparr>))"

definition Recover :: "dl_manager \<Rightarrow> dl_manager" where
  "Recover m = (case ListDownloads m of (Inl _, m) \<Rightarrow> m | (Inr tbl, m) \<Rightarrow> fold recover_row tbl m)"

subsection \<open>Interleaved steps\<close>

datatype dl_op = OpStart download_job | OpImport import_source string runtime_name "string \<times> string" | OpPause string
  | OpResume string | OpCancel string | OpRemove "(string \<times> bool) list" | OpList | OpSubscribe nat | OpUnsubscribe nat
  | Continue nat bool | Register nat | Acquire nat | GiveUp nat | Progress nat time int int | CopyProgress nat int int
  | Transfer nat bool "(int \<Rightarrow> attempt) list" string | Copy nat copy_script string | Fail nat | Untrack nat | Finish nat

definition held :: "nat \<Rightarrow> dl_manager \<Rightarrow> bool" where
  "held n m = rj_held (dm_objs m ! n)"

definition phase_is :: "nat \<Rightarrow> run_phase \<Rightarrow> dl_manager \<Rightarrow> bool" where
  "phase_is r p m \<longleftrightarrow> r < length (dm_runs m) \<and> tr_phase (dm_runs m ! r) = p"

definition run_obj :: "nat \<Rightarrow> dl_manager \<Rightarrow> nat" where
  "run_obj r m = tr_obj (dm_runs m ! r)"

definition run_cancelled :: "nat \<Rightarrow> dl_manager \<Rightarrow> bool" where
  "run_cancelled r m = tr_cancelled (dm_runs m ! r)"

definition take_pending :: "nat \<Rightarrow> dl_manager \<Rightarrow> dl_manager" where
  "take_pending i m = m\<lparr>dm_pending := take i (dm_pending m) @ drop (Suc i) (dm_pending m)\<rparr>"

fun pending_step :: "bool \<Rightarrow> pending \<Rightarrow> dl_manager \<Rightarrow> dl_manager" where
  "pending_step ok (StartTail n job kind) m = start_tail n job kind m"
| "pending_step ok (PauseLock n rel) m = snd (pause_lock n rel m)"
| "pending_step ok (PauseTail n rel d t) m = pause_tail n rel d t m"
| "pending_step ok (ResumeLock n rel) m = snd (resume_lock n rel m)"
| "pending_step ok (ResumeTail n rel d t) m = resume_tail n rel d t m"
| "pending_step ok (CancelLock n rel) m = cancel_lock n rel m"
| "pending_step ok (CancelTail n rel d) m = cancel_tail ok n rel m"

fun pending_obj :: "pending \<Rightarrow> nat" where
  "pending_obj (StartTail n job kind) = n"
| "pending_obj (PauseLock n rel) = n"
| "pending_obj (PauseTail n rel d t) = n"
| "pending_obj (ResumeLock n rel) = n"
| "pending_obj (ResumeTail n rel d t) = n"
| "pending_obj (CancelLock n rel) = n"
| "pending_obj (CancelTail n rel d) = n"

text \<open>One step, when its goroutine can take it: the manager's mutex is not stuck, the job's is not held, the transfer is
  at that point, and what it meets does not include the end of a context that has not ended. Every step of a job takes its
  mutex.\<close>

fun dl_enabled :: "dl_op \<Rightarrow> dl_manager \<Rightarrow> bool" where
  "dl_enabled (Continue i ok) m = (i < length (dm_pending m) \<and> \<not> held (pending_obj (dm_pending m ! i)) m)"
| "dl_enabled (Register r) m = (phase_is r Spawned m \<and> \<not> held (run_obj r m) m)"
| "dl_enabled (Acquire r) m = (phase_is r Waiting m \<and> slots_used m < maxConcurrent)"
| "dl_enabled (GiveUp r) m = (phase_is r Waiting m \<and> run_cancelled r m)"
| "dl_enabled (Progress r now d t) m = (phase_is r Transferring m \<and> tr_kind (dm_runs m ! r) = HttpRun \<and> \<not> held (run_obj r m) m)"
| "dl_enabled (CopyProgress r d t) m = (phase_is r Transferring m \<and> tr_kind (dm_runs m ! r) \<noteq> HttpRun \<and> \<not> held (run_obj r m) m)"
| "dl_enabled (Transfer r dir_ok script msg) m = (phase_is r Transferring m \<and> tr_kind (dm_runs m ! r) = HttpRun
     \<and> (run_cancelled r m \<or> fst (Download run_options dir_ok script (file_view (tr_rel (dm_runs m ! r)) m)) \<noteq> Inl Cancelled))"
| "dl_enabled (Copy r c msg) m = (phase_is r Transferring m \<and> tr_kind (dm_runs m ! r) \<noteq> HttpRun
     \<and> (run_cancelled r m \<or> ta_cancel (cs_attempt c) = None))"
| "dl_enabled (Fail r) m = (r < length (dm_runs m) \<and> (case tr_phase (dm_runs m ! r) of Failing _ \<Rightarrow> True | _ \<Rightarrow> False) \<and> \<not> held (run_obj r m) m)"
| "dl_enabled (Untrack r) m = (phase_is r Landed m \<and> \<not> dm_wedged m)"
| "dl_enabled (Finish r) m = (phase_is r Finishing m \<and> \<not> held (run_obj r m) m)"
| "dl_enabled (OpSubscribe ch) m = True"
| "dl_enabled (OpUnsubscribe ch) m = True"
| "dl_enabled (OpRemove rels) m = (\<not> dm_wedged m \<and> list_all (\<lambda>(_, n). \<not> held n m) (dm_jobs m))"
| "dl_enabled op m = (\<not> dm_wedged m)"

fun dl_effect :: "dl_op \<Rightarrow> dl_manager \<Rightarrow> dl_manager" where
  "dl_effect (OpStart spec) m = snd (StartDownload spec m)"
| "dl_effect (OpImport src rel runtime labels) m = snd (ImportLocal src rel runtime labels m)"
| "dl_effect (OpPause rel) m = snd (Pause rel m)"
| "dl_effect (OpResume rel) m = snd (Resume rel m)"
| "dl_effect (OpCancel rel) m = snd (Cancel rel m)"
| "dl_effect (OpRemove rels) m = snd (RemoveLocal rels None m)"
| "dl_effect OpList m = snd (List_jobs m)"
| "dl_effect (OpSubscribe ch) m = Subscribe ch m"
| "dl_effect (OpUnsubscribe ch) m = Unsubscribe ch m"
| "dl_effect (Continue i ok) m = pending_step ok (dm_pending m ! i) (take_pending i m)"
| "dl_effect (Register r) m = run_register r m"
| "dl_effect (Acquire r) m = set_phase r Transferring m"
| "dl_effect (GiveUp r) m = set_phase r Exited m"
| "dl_effect (Progress r now d t) m = run_progress r now d t m"
| "dl_effect (CopyProgress r d t) m = copy_progress r d t m"
| "dl_effect (Transfer r dir_ok script msg) m = run_transfer r dir_ok script msg m"
| "dl_effect (Copy r c msg) m = run_copy r c msg m"
| "dl_effect (Fail r) m = (case tr_phase (dm_runs m ! r) of Failing msg \<Rightarrow> failJob r msg m | _ \<Rightarrow> m)"
| "dl_effect (Untrack r) m = run_untrack r m"
| "dl_effect (Finish r) m = run_finish r m"

definition dl_step :: "dl_op \<Rightarrow> dl_manager \<Rightarrow> dl_manager" where
  "dl_step op m = (if dl_enabled op m then dl_effect op m else m)"

subsection \<open>What the steps leave alone\<close>

lemma dtx_core [frame_simps]:
  "snd (dtx f (m :: dl_manager)) = (if faulty (ds_faults m) then m\<lparr>ds_faults := tl (ds_faults m)\<rparr> else f (m\<lparr>ds_faults := tl (ds_faults m)\<rparr>))"
  by (simp add: dtx_def Let_def)

lemma quietly_core [simp]:
  fixes m :: dl_manager
  assumes "f \<in> {UpsertDownload row, UpdateDownloadProgress rel d t, SetDownloadStatus rel st msg, DeleteDownload rel}"
  shows "dm_jobs (quietly f m) = dm_jobs m" "dm_objs (quietly f m) = dm_objs m" "dm_runs (quietly f m) = dm_runs m"
    "dm_pending (quietly f m) = dm_pending m" "dm_files (quietly f m) = dm_files m" "dm_dir (quietly f m) = dm_dir m"
    "dm_wedged (quietly f m) = dm_wedged m"
  using assms by (auto simp: quietly_def UpsertDownload_def UpdateDownloadProgress_def SetDownloadStatus_def DeleteDownload_def dtx_core
      split: if_splits)

lemmas upsert_core [simp] = quietly_core [of "UpsertDownload row" row for row, simplified]
lemmas progress_core [simp] = quietly_core [of "UpdateDownloadProgress rel d t" _ rel d t for rel d t, simplified]
lemmas status_core [simp] = quietly_core [of "SetDownloadStatus rel st msg" _ rel _ _ st msg for rel st msg, simplified]
lemmas delete_core [simp] = quietly_core [of "DeleteDownload rel" _ rel for rel, simplified]

lemma announce_core [simp]:
  "dm_jobs (announce n st d t msg m) = dm_jobs m" "dm_objs (announce n st d t msg m) = dm_objs m"
  "dm_runs (announce n st d t msg m) = dm_runs m" "dm_pending (announce n st d t msg m) = dm_pending m"
  "dm_files (announce n st d t msg m) = dm_files m" "dm_dir (announce n st d t msg m) = dm_dir m"
  "dm_wedged (announce n st d t msg m) = dm_wedged m"
  by (simp_all add: announce_def broadcast_def)

lemma notify_core [simp]:
  "dm_jobs (notifyComplete rt rel m) = dm_jobs m" "dm_objs (notifyComplete rt rel m) = dm_objs m"
  "dm_runs (notifyComplete rt rel m) = dm_runs m" "dm_pending (notifyComplete rt rel m) = dm_pending m"
  "dm_files (notifyComplete rt rel m) = dm_files m" "dm_dir (notifyComplete rt rel m) = dm_dir m"
  by (simp_all add: notifyComplete_def)

lemma update_core [simp]:
  "dm_jobs (update_obj n u m) = dm_jobs m" "dm_runs (update_obj n u m) = dm_runs m"
  "dm_pending (update_obj n u m) = dm_pending m" "dm_files (update_obj n u m) = dm_files m" "dm_dir (update_obj n u m) = dm_dir m"
  "dm_jobs (update_run r v m) = dm_jobs m" "dm_objs (update_run r v m) = dm_objs m"
  "dm_pending (update_run r v m) = dm_pending m" "dm_files (update_run r v m) = dm_files m" "dm_dir (update_run r v m) = dm_dir m"
  "dm_jobs (push_pending p m) = dm_jobs m" "dm_objs (push_pending p m) = dm_objs m" "dm_runs (push_pending p m) = dm_runs m"
  "dm_files (push_pending p m) = dm_files m" "dm_dir (push_pending p m) = dm_dir m"
  "dm_jobs (spawn n k m) = dm_jobs m" "dm_objs (spawn n k m) = dm_objs m" "dm_pending (spawn n k m) = dm_pending m"
  "dm_files (spawn n k m) = dm_files m" "dm_dir (spawn n k m) = dm_dir m"
  "dm_jobs (cancel_run c m) = dm_jobs m" "dm_objs (cancel_run c m) = dm_objs m" "dm_pending (cancel_run c m) = dm_pending m"
  "dm_files (cancel_run c m) = dm_files m" "dm_dir (cancel_run c m) = dm_dir m"
  "dm_jobs (write_view rel fs m) = dm_jobs m" "dm_objs (write_view rel fs m) = dm_objs m" "dm_runs (write_view rel fs m) = dm_runs m"
  "dm_pending (write_view rel fs m) = dm_pending m" "dm_dir (write_view rel fs m) = dm_dir m"
  by (simp_all add: update_obj_def update_run_def push_pending_def spawn_def cancel_run_def write_view_def split: cancel_fun.splits)

lemma objs_update [simp]: "dm_objs (update_obj n u m) = (dm_objs m)[n := u (dm_objs m ! n)]" by (simp add: update_obj_def)
lemma runs_update [simp]: "dm_runs (update_run r v m) = (dm_runs m)[r := v (dm_runs m ! r)]" by (simp add: update_run_def)
lemma pending_push [simp]: "dm_pending (push_pending p m) = dm_pending m @ [p]" by (simp add: push_pending_def)

end
