(* ===== verification/Download_Safety.thy ===== *)
theory Download_Safety
  imports Downloads
begin

text \<open>
  What the download manager keeps whatever its operations, its goroutines and their interleaving do: references
  between jobs, objects and transfers; a limit on concurrent transfers; an active job always has a transfer on its way;
  nothing outside the models directory is written. And what a restart recovers.
\<close>

subsection \<open>The invariant\<close>

definition obj_rel :: "dl_manager \<Rightarrow> nat \<Rightarrow> string" where
  "obj_rel m n = dj_rel (rj_job (dm_objs m ! n))"

definition job_active :: "dl_manager \<Rightarrow> nat \<Rightarrow> bool" where
  "job_active m n \<longleftrightarrow> dj_status (rj_job (dm_objs m ! n)) = DownloadStatusActive"

text \<open>A transfer of the job that is on its way and has not been told to stop, or a start or resume about to spawn it.\<close>

fun spawns :: "nat \<Rightarrow> pending \<Rightarrow> bool" where
  "spawns n (StartTail k job kind) = (k = n)"
| "spawns n (ResumeTail k rel d t) = (k = n)"
| "spawns n _ = False"

fun cancels :: "nat \<Rightarrow> pending \<Rightarrow> bool" where
  "cancels n (CancelLock k rel) = (k = n)"
| "cancels n _ = False"

fun pending_rel :: "pending \<Rightarrow> string" where
  "pending_rel (StartTail n job kind) = dj_rel job"
| "pending_rel (PauseLock n rel) = rel"
| "pending_rel (PauseTail n rel d t) = rel"
| "pending_rel (ResumeLock n rel) = rel"
| "pending_rel (ResumeTail n rel d t) = rel"
| "pending_rel (CancelLock n rel) = rel"
| "pending_rel (CancelTail n rel d) = rel"

definition going :: "nat \<Rightarrow> transfer \<Rightarrow> bool" where
  "going n t \<longleftrightarrow> tr_obj t = n \<and> \<not> tr_cancelled t \<and> tr_phase t \<noteq> Exited"

definition carried :: "dl_manager \<Rightarrow> nat \<Rightarrow> bool" where
  "carried m n \<longleftrightarrow> (\<exists>t \<in> set (dm_runs m). going n t) \<or> (\<exists>p \<in> set (dm_pending m). spawns n p)"

definition tracked :: "dl_manager \<Rightarrow> nat \<Rightarrow> bool" where
  "tracked m n \<longleftrightarrow> n \<in> snd ` set (dm_jobs m)"

definition dl_refs :: "dl_manager \<Rightarrow> bool" where
  "dl_refs m \<longleftrightarrow> distinct (keys (dm_jobs m))
     \<and> (\<forall>rel n. map_of (dm_jobs m) rel = Some n \<longrightarrow> n < length (dm_objs m) \<and> obj_rel m n = rel)
     \<and> (\<forall>n < length (dm_objs m). ValidateRelPath (obj_rel m n) = Inr ())
     \<and> (\<forall>t \<in> set (dm_runs m). tr_obj t < length (dm_objs m) \<and> tr_rel t = obj_rel m (tr_obj t))
     \<and> (\<forall>p \<in> set (dm_pending m). pending_obj p < length (dm_objs m) \<and> pending_rel p = obj_rel m (pending_obj p))"

definition dl_cancels :: "dl_manager \<Rightarrow> bool" where
  "dl_cancels m \<longleftrightarrow> (\<forall>n < length (dm_objs m). \<forall>r. rj_cancel (dm_objs m ! n) = CancelRun r \<longrightarrow>
       r < length (dm_runs m) \<and> tr_obj (dm_runs m ! r) = n)
     \<and> (\<forall>p \<in> set (dm_pending m). \<forall>n. cancels n p \<longrightarrow> \<not> tracked m n)
     \<and> (\<forall>t \<in> set (dm_runs m). tr_phase t = Finishing \<longrightarrow> \<not> tracked m (tr_obj t))"

text \<open>Every tracked active job outside \<open>X\<close>, whose spawn is just happening, is carried by something.\<close>

definition dl_live :: "nat set \<Rightarrow> dl_manager \<Rightarrow> bool" where
  "dl_live X m \<longleftrightarrow> (\<forall>n. tracked m n \<longrightarrow> job_active m n \<longrightarrow> n \<notin> X \<longrightarrow> carried m n)"

definition dl_inv_but :: "nat set \<Rightarrow> dl_manager \<Rightarrow> bool" where
  "dl_inv_but X m \<longleftrightarrow> dl_refs m \<and> dl_cancels m \<and> dl_live X m \<and> slots_used m \<le> maxConcurrent"

abbreviation dl_inv :: "dl_manager \<Rightarrow> bool" where
  "dl_inv \<equiv> dl_inv_but {}"

lemma nth_upd: "xs[n := x] ! k = (if k = n \<and> n < length xs then x else xs ! k)"
  by (cases "k = n") (auto simp: list_update_beyond)

lemma carried_mono:
  assumes "carried m n" "\<And>t. t \<in> set (dm_runs m) \<Longrightarrow> going n t \<Longrightarrow> \<exists>t' \<in> set (dm_runs m'). going n t'"
    "\<And>p. p \<in> set (dm_pending m) \<Longrightarrow> spawns n p \<Longrightarrow> (\<exists>p' \<in> set (dm_pending m'). spawns n p') \<or> (\<exists>t' \<in> set (dm_runs m'). going n t')"
  shows "carried m' n"
  using assms unfolding carried_def by blast

lemma set_update_run:
  assumes "r < length (dm_runs m)"
  shows "t \<in> set ((dm_runs m)[r := t']) \<longleftrightarrow> t = t' \<or> (\<exists>i < length (dm_runs m). i \<noteq> r \<and> dm_runs m ! i = t)"
  using assms by (auto simp: in_set_conv_nth nth_list_update)

lemma core_inv:
  assumes "dm_jobs m' = dm_jobs m" "dm_objs m' = dm_objs m" "dm_runs m' = dm_runs m" "dm_pending m' = dm_pending m"
  shows "dl_inv_but X m' = dl_inv_but X m"
  unfolding dl_inv_but_def dl_refs_def dl_cancels_def dl_live_def carried_def slots_used_def obj_rel_def job_active_def tracked_def
  using assms by simp

subsection \<open>Changing one transfer, one job, the pending steps\<close>

lemma update_run_inv:
  assumes inv: "dl_inv m" and r: "r < length (dm_runs m)" and o: "tr_obj (v (dm_runs m ! r)) = tr_obj (dm_runs m ! r)"
    "tr_rel (v (dm_runs m ! r)) = tr_rel (dm_runs m ! r)"
    and slots: "slots_used (update_run r v m) \<le> maxConcurrent"
    and fin: "tr_phase (v (dm_runs m ! r)) = Finishing \<Longrightarrow> \<not> tracked m (tr_obj (dm_runs m ! r))"
    and going: "\<And>n. tracked m n \<Longrightarrow> job_active m n \<Longrightarrow> going n (dm_runs m ! r) \<Longrightarrow> going n (v (dm_runs m ! r))"
  shows "dl_inv (update_run r v m)"
proof -
  let ?m = "update_run r v m"
  have same: "obj_rel ?m = obj_rel m" "job_active ?m = job_active m" "tracked ?m = tracked m"
    by (auto simp: obj_rel_def job_active_def tracked_def)
  have mem: "dm_runs m ! r \<in> set (dm_runs m)" using r by simp
  have "dl_refs ?m" using inv mem o
    by (auto simp: dl_inv_but_def dl_refs_def same set_update_run [OF r])
  moreover have "tr_obj ((dm_runs m)[r := v (dm_runs m ! r)] ! i) = tr_obj (dm_runs m ! i)" for i
    using o r by (cases "i = r") auto
  then have "dl_cancels ?m" using inv o fin by (auto simp: dl_inv_but_def dl_cancels_def same set_update_run [OF r])
  moreover have "dl_live {} ?m" unfolding dl_live_def same
  proof (intro allI impI)
    fix n assume n: "tracked m n" "job_active m n"
    then have c: "carried m n" using inv by (auto simp: dl_inv_but_def dl_live_def)
    show "carried ?m n" using c
    proof (rule carried_mono)
      fix t assume t: "t \<in> set (dm_runs m)" "going n t"
      then obtain i where i: "i < length (dm_runs m)" "dm_runs m ! i = t" by (auto simp: in_set_conv_nth)
      then have "dm_runs ?m ! i \<in> set (dm_runs ?m)" by (intro nth_mem) simp
      moreover have "going n (dm_runs ?m ! i)" using i t n going r by (auto simp: nth_upd)
      ultimately show "\<exists>t' \<in> set (dm_runs ?m). going n t'" by blast
    qed auto
  qed
  ultimately show ?thesis using slots by (simp add: dl_inv_but_def)
qed

lemma length_filter_update:
  "r < length xs \<Longrightarrow> length (filter P (xs[r := x])) + (if P (xs ! r) then 1 else 0) = length (filter P xs) + (if P x then 1 else 0)"
proof (induction xs arbitrary: r)
  case (Cons y ys)
  show ?case
  proof (cases r)
    case (Suc k)
    with Cons.IH [of k] Cons.prems show ?thesis by simp
  qed simp
qed simp

lemma slots_update:
  assumes "r < length (dm_runs m)"
  shows "slots_used (update_run r v m) + (if tr_phase (dm_runs m ! r) \<notin> {Spawned, Waiting, Exited} then 1 else 0)
    = slots_used m + (if tr_phase (v (dm_runs m ! r)) \<notin> {Spawned, Waiting, Exited} then 1 else 0)"
  using length_filter_update [OF assms, of "\<lambda>t. tr_phase t \<notin> {Spawned, Waiting, Exited}" "v (dm_runs m ! r)"]
  by (simp add: slots_used_def)

lemma slots_le:
  assumes "dl_inv m" "r < length (dm_runs m)"
    "tr_phase (v (dm_runs m ! r)) \<in> {Spawned, Waiting, Exited} \<or> tr_phase (dm_runs m ! r) \<notin> {Spawned, Waiting, Exited}
       \<or> slots_used m < maxConcurrent"
  shows "slots_used (update_run r v m) \<le> maxConcurrent"
  using slots_update [OF assms(2), of v] assms(1,3) by (auto simp: dl_inv_but_def split: if_splits)

lemma set_phase_inv:
  assumes "dl_inv m" "r < length (dm_runs m)" "p \<noteq> Finishing"
    "p = Waiting \<or> p = Exited \<or> tr_phase (dm_runs m ! r) \<notin> {Spawned, Waiting, Exited} \<or> slots_used m < maxConcurrent"
    "p = Exited \<Longrightarrow> tracked m (tr_obj (dm_runs m ! r)) \<Longrightarrow> job_active m (tr_obj (dm_runs m ! r)) \<Longrightarrow> tr_cancelled (dm_runs m ! r)"
    "tr_phase (dm_runs m ! r) \<noteq> Exited"
  shows "dl_inv (set_phase r p m)"
  unfolding set_phase_def
  by (rule update_run_inv [OF assms(1,2)])
    (use assms in \<open>auto intro!: slots_le simp: going_def\<close>)

lemma update_obj_inv:
  assumes inv: "dl_inv m" and n: "n < length (dm_objs m)" and rel: "dj_rel (rj_job (u (dm_objs m ! n))) = dj_rel (rj_job (dm_objs m ! n))"
    and c: "rj_cancel (u (dm_objs m ! n)) = rj_cancel (dm_objs m ! n)
      \<or> (\<exists>r. rj_cancel (u (dm_objs m ! n)) = CancelRun r \<and> r < length (dm_runs m) \<and> tr_obj (dm_runs m ! r) = n)"
    and live: "dj_status (rj_job (u (dm_objs m ! n))) = DownloadStatusActive \<Longrightarrow> tracked m n \<Longrightarrow> carried m n"
  shows "dl_inv (update_obj n u m)"
proof -
  let ?m = "update_obj n u m"
  have same: "obj_rel ?m = obj_rel m" "tracked ?m = tracked m"
    using rel n by (auto simp: obj_rel_def tracked_def fun_eq_iff nth_upd)
  have carried: "carried ?m k = carried m k" for k by (simp add: carried_def)
  have "dl_refs ?m" using inv by (auto simp: dl_inv_but_def dl_refs_def same)
  moreover have "r < length (dm_runs m) \<and> tr_obj (dm_runs m ! r) = k"
    if "k < length (dm_objs m)" "rj_cancel (dm_objs ?m ! k) = CancelRun r" for k r
    using that inv c n by (cases "k = n") (auto simp: dl_inv_but_def dl_cancels_def)
  then have "dl_cancels ?m" using inv by (simp add: dl_inv_but_def dl_cancels_def same)
  moreover have "dl_live {} ?m"
    using inv live n by (auto simp: dl_inv_but_def dl_live_def carried same job_active_def nth_upd)
  ultimately show ?thesis using inv by (simp add: dl_inv_but_def slots_used_def)
qed

lemma push_inv:
  assumes "dl_inv m" "pending_obj p < length (dm_objs m)" "pending_rel p = obj_rel m (pending_obj p)"
    "\<And>n. cancels n p \<Longrightarrow> \<not> tracked m n"
  shows "dl_inv (push_pending p m)"
  using assms unfolding dl_inv_but_def dl_refs_def dl_cancels_def dl_live_def carried_def slots_used_def obj_rel_def job_active_def tracked_def
  by auto

lemma take_inv:
  assumes "dl_inv m" "i < length (dm_pending m)"
  shows "dl_inv_but {n. spawns n (dm_pending m ! i)} (take_pending i m)"
proof -
  let ?ps = "take i (dm_pending m) @ drop (Suc i) (dm_pending m)"
  have sub: "set ?ps \<subseteq> set (dm_pending m)" by (auto dest: in_set_takeD in_set_dropD)
  have split: "dm_pending m = take i (dm_pending m) @ dm_pending m ! i # drop (Suc i) (dm_pending m)"
    by (rule id_take_nth_drop [OF assms(2)])
  have mem: "p \<in> set ?ps \<or> p = dm_pending m ! i" if "p \<in> set (dm_pending m)" for p
    using that by (subst (asm) split) auto
  let ?m = "take_pending i m"
  have same: "obj_rel ?m = obj_rel m" "job_active ?m = job_active m" "tracked ?m = tracked m" "dm_objs ?m = dm_objs m"
    "dm_jobs ?m = dm_jobs m" "dm_runs ?m = dm_runs m" "dm_pending ?m = ?ps" "slots_used ?m = slots_used m"
    by (auto simp: obj_rel_def job_active_def tracked_def take_pending_def slots_used_def)
  have "carried ?m n" if "carried m n" "\<not> spawns n (dm_pending m ! i)" for n
    using that mem unfolding carried_def same by blast
  then have "dl_live {n. spawns n (dm_pending m ! i)} ?m" using assms(1) by (auto simp: dl_inv_but_def dl_live_def same)
  moreover have "dl_refs ?m" using assms(1) sub unfolding dl_inv_but_def dl_refs_def same by blast
  moreover have "dl_cancels ?m" using assms(1) sub unfolding dl_inv_but_def dl_cancels_def same by blast
  ultimately show ?thesis using assms(1) by (simp add: dl_inv_but_def same)
qed

lemma take_no_spawn_inv:
  assumes "dl_inv m" "i < length (dm_pending m)" "\<And>n. \<not> spawns n (dm_pending m ! i)"
  shows "dl_inv (take_pending i m)"
  using take_inv [OF assms(1,2)] assms(3) by simp

lemma spawn_inv:
  assumes "dl_inv_but {n} m" "n < length (dm_objs m)"
  shows "dl_inv (spawn n kind m)"
  using assms unfolding dl_inv_but_def dl_refs_def dl_cancels_def dl_live_def carried_def slots_used_def obj_rel_def job_active_def tracked_def
  by (auto simp: spawn_def going_def nth_append)

lemma untrack_inv:
  assumes "dl_inv m"
  shows "dl_inv (m\<lparr>dm_jobs := AList.delete rel (dm_jobs m)\<rparr>)"
proof -
  let ?m = "m\<lparr>dm_jobs := AList.delete rel (dm_jobs m)\<rparr>"
  have sub: "tracked ?m n \<Longrightarrow> tracked m n" for n by (auto simp: tracked_def set_AList_delete)
  have same: "obj_rel ?m = obj_rel m" "job_active ?m = job_active m" "carried ?m = carried m" "slots_used ?m = slots_used m"
    by (auto simp: obj_rel_def job_active_def carried_def slots_used_def)
  have "dl_refs ?m" using assms by (auto simp: dl_inv_but_def dl_refs_def same distinct_delete)
  moreover have "dl_cancels ?m" using assms sub by (simp add: dl_inv_but_def dl_cancels_def same) blast
  moreover have "dl_live {} ?m" using assms sub by (simp add: dl_inv_but_def dl_live_def same)
  ultimately show ?thesis using assms by (simp add: dl_inv_but_def same)
qed

lemma cancel_run_inv:
  assumes "dl_inv m" "n < length (dm_objs m)" "\<not> tracked m n \<or> \<not> job_active m n"
  shows "dl_inv (cancel_run (rj_cancel (dm_objs m ! n)) m)"
proof (cases "rj_cancel (dm_objs m ! n)")
  case (CancelRun r)
  with assms(1,2) have r: "r < length (dm_runs m)" "tr_obj (dm_runs m ! r) = n" by (auto simp: dl_inv_but_def dl_cancels_def)
  have "dm_runs m ! r \<in> set (dm_runs m)" using r by simp
  then have fin: "tr_phase (dm_runs m ! r) = Finishing \<Longrightarrow> \<not> tracked m n"
    using assms(1) r by (auto simp: dl_inv_but_def dl_cancels_def)
  have s: "slots_used (update_run r (\<lambda>t. t\<lparr>tr_cancelled := True\<rparr>) m) \<le> maxConcurrent"
    using slots_update [OF r(1), of "\<lambda>t. t\<lparr>tr_cancelled := True\<rparr>"] assms(1) by (simp add: dl_inv_but_def split: if_splits)
  show ?thesis unfolding CancelRun cancel_run_def cancel_fun.case
    by (rule update_run_inv [OF assms(1) r(1) _ _ s]) (use assms(3) r fin in \<open>auto simp: going_def\<close>)
qed (use assms in \<open>simp_all add: cancel_run_def\<close>)

subsection \<open>Every step keeps the invariant\<close>

lemma inv_refs:
  assumes "dl_inv_but X m"
  shows "map_of (dm_jobs m) rel = Some n \<Longrightarrow> n < length (dm_objs m) \<and> obj_rel m n = rel"
    "r < length (dm_runs m) \<Longrightarrow> run_obj r m < length (dm_objs m) \<and> tr_rel (dm_runs m ! r) = obj_rel m (run_obj r m)"
    "i < length (dm_pending m) \<Longrightarrow> pending_obj (dm_pending m ! i) < length (dm_objs m)
       \<and> pending_rel (dm_pending m ! i) = obj_rel m (pending_obj (dm_pending m ! i))"
  using assms nth_mem [of r "dm_runs m"] nth_mem [of i "dm_pending m"]
  by (auto simp: dl_inv_but_def dl_refs_def run_obj_def)

lemma register_inv:
  assumes inv: "dl_inv m" and v: "ValidateRelPath (dj_rel job) = Inr ()"
  shows "dl_inv (register job kind m)"
proof -
  let ?n = "length (dm_objs m)" and ?m = "register job kind m"
  have objs: "dm_objs ?m = dm_objs m @ [\<lparr> rj_job = job, rj_cancel = NilCancel, rj_done = None, rj_persist = None, rj_held = False \<rparr>]"
    and jobs: "dm_jobs ?m = AList.update (dj_rel job) ?n (dm_jobs m)" and runs: "dm_runs ?m = dm_runs m"
    and pend: "dm_pending ?m = dm_pending m @ [StartTail ?n job kind]" by (simp_all add: register_def)
  have old: "obj_rel ?m k = obj_rel m k" "job_active ?m k = job_active m k" if "k < ?n" for k
    using that by (simp_all add: obj_rel_def job_active_def objs nth_append)
  have new: "obj_rel ?m ?n = dj_rel job" by (simp add: obj_rel_def objs)
  have d: "distinct (keys (dm_jobs m))" using inv by (simp add: dl_inv_but_def dl_refs_def)
  have tracked: "n = ?n \<or> tracked m n" if "tracked ?m n" for n
    using that by (auto simp: tracked_def jobs in_AList_update [OF d] split: if_splits)
  have below: "tracked m n \<Longrightarrow> n < ?n" for n
    using inv d by (auto simp: tracked_def dl_inv_but_def dl_refs_def)
  have rp: "tr_obj t < ?n" if "t \<in> set (dm_runs m)" for t using that inv by (auto simp: dl_inv_but_def dl_refs_def)
  have pp: "pending_obj p < ?n" if "p \<in> set (dm_pending m)" for p using that inv by (auto simp: dl_inv_but_def dl_refs_def)
  have cp: "k < ?n" if "cancels k p" "p \<in> set (dm_pending m)" for k p using that pp [OF that(2)] by (cases p) auto
  have "dl_refs ?m" using inv v d old new rp pp
    by (auto simp: dl_inv_but_def dl_refs_def objs jobs runs pend less_Suc_eq distinct_update)
  moreover have "\<not> tracked ?m n" if "\<not> tracked m n" "n < ?n" for n using that tracked by fastforce
  then have "dl_cancels ?m" using inv rp cp
    by (simp add: dl_inv_but_def dl_cancels_def objs runs pend nth_append less_Suc_eq)
  moreover have "carried ?m n" if "carried m n" for n using that by (auto simp: carried_def runs pend)
  moreover have "carried ?m ?n" by (simp add: carried_def pend)
  ultimately show ?thesis
    using inv tracked below old unfolding dl_inv_but_def dl_live_def slots_used_def runs by blast
qed

lemma announce_inv [simp]: "dl_inv_but X (announce n st d t msg m) = dl_inv_but X m"
  by (rule core_inv; simp)

lemma quietly_inv [simp]:
  "dl_inv_but X (quietly (DeleteDownload rel) m) = dl_inv_but X m"
  "dl_inv_but X (quietly (UpsertDownload row) m) = dl_inv_but X m"
  "dl_inv_but X (quietly (SetDownloadStatus rel st msg) m) = dl_inv_but X m"
  "dl_inv_but X (quietly (UpdateDownloadProgress rel d t) m) = dl_inv_but X m"
  by (rule core_inv; simp)+

lemma start_tail_inv: "dl_inv_but {n} m \<Longrightarrow> n < length (dm_objs m) \<Longrightarrow> dl_inv (start_tail n job kind m)"
  unfolding start_tail_def by (rule spawn_inv) simp_all

lemma resume_tail_inv: "dl_inv_but {n} m \<Longrightarrow> n < length (dm_objs m) \<Longrightarrow> dl_inv (resume_tail n rel d t m)"
  unfolding resume_tail_def by (rule spawn_inv) simp_all

lemma job_status_inv:
  assumes "dl_inv m" "n < length (dm_objs m)" "\<And>j. dj_rel (u j) = dj_rel j"
    "dj_status (u (rj_job (dm_objs m ! n))) \<noteq> DownloadStatusActive \<or> dj_status (u (rj_job (dm_objs m ! n))) = dj_status (rj_job (dm_objs m ! n))
      \<or> carried m n"
  shows "dl_inv (update_job n u m)"
  unfolding update_job_def by (rule update_obj_inv [OF assms(1,2)])
    (use assms in \<open>auto simp: dl_inv_but_def dl_live_def job_active_def\<close>)

lemma status_distinct [simp]:
  "DownloadStatusPaused \<noteq> DownloadStatusActive" "DownloadStatusError \<noteq> DownloadStatusActive"
  by (simp_all add: DownloadStatusPaused_def DownloadStatusActive_def DownloadStatusError_def)

lemma cancel_run_commute: "update_job n u (cancel_run c m) = cancel_run c (update_job n u m)"
  by (simp add: update_job_def update_obj_def cancel_run_def update_run_def split: cancel_fun.splits)

lemma pause_lock_inv:
  assumes inv: "dl_inv m" and n: "n < length (dm_objs m)" and rel: "rel = obj_rel m n"
  shows "dl_inv (snd (pause_lock n rel m))"
proof -
  let ?m1 = "update_job n (\<lambda>j. j\<lparr>dj_status := DownloadStatusPaused\<rparr>) m"
  have 1: "dl_inv ?m1" by (rule job_status_inv [OF inv n]) simp_all
  have o1: "rj_cancel (dm_objs ?m1 ! n) = rj_cancel (dm_objs m ! n)" "\<not> job_active ?m1 n" "obj_rel ?m1 n = obj_rel m n"
    "length (dm_objs ?m1) = length (dm_objs m)"
    using n by (simp_all add: update_job_def job_active_def obj_rel_def)
  have 2: "dl_inv (cancel_run (rj_cancel (dm_objs m ! n)) ?m1)"
    using cancel_run_inv [OF 1, of n] n o1 by simp
  have held: "dl_inv (update_obj n (\<lambda>rj. rj\<lparr>rj_held := True\<rparr>) m)"
    by (rule update_obj_inv [OF inv n]) (use inv in \<open>auto simp: dl_inv_but_def dl_live_def job_active_def\<close>)
  have push: "dl_inv (push_pending (PauseTail n rel d t) (cancel_run (rj_cancel (dm_objs m ! n)) ?m1))" for d t
    by (rule push_inv [OF 2]) (use n rel o1 in \<open>simp_all add: obj_rel_def\<close>)
  show ?thesis using inv held push by (simp add: pause_lock_def Let_def cancel_run_commute)
qed

lemma resume_lock_inv:
  assumes inv: "dl_inv m" and n: "n < length (dm_objs m)" and rel: "rel = obj_rel m n"
  shows "dl_inv (snd (resume_lock n rel m))"
proof -
  let ?push = "push_pending (ResumeTail n rel (dj_downloaded (rj_job (dm_objs m ! n))) (dj_total (rj_job (dm_objs m ! n)))) m"
  have 1: "dl_inv ?push" by (rule push_inv [OF inv]) (use n rel in simp_all)
  have "dl_inv (update_job n (\<lambda>j. j\<lparr>dj_status := DownloadStatusActive, dj_error := ''''\<rparr>) ?push)"
    by (rule job_status_inv [OF 1]) (use n in \<open>simp_all add: carried_def\<close>)
  moreover have "update_job n u (push_pending p m) = push_pending p (update_job n u m)" for u p
    by (simp add: update_job_def update_obj_def push_pending_def)
  ultimately show ?thesis using inv by (simp add: resume_lock_def Let_def)
qed

lemma cancel_lock_inv:
  assumes inv: "dl_inv m" and n: "n < length (dm_objs m)" and rel: "rel = obj_rel m n" and t: "\<not> tracked m n"
  shows "dl_inv (cancel_lock n rel m)"
proof -
  have "dl_inv (cancel_run (rj_cancel (dm_objs m ! n)) m)" using cancel_run_inv [OF inv n] t by simp
  then show ?thesis unfolding cancel_lock_def
    by (rule push_inv) (use n rel in \<open>simp_all add: obj_rel_def\<close>)
qed

lemma quiet_end_inv [simp]:
  "dl_inv_but X (pause_tail n rel d t m) = dl_inv_but X m" "dl_inv_but X (cancel_tail ok n rel m) = dl_inv_but X m"
  by (rule core_inv; simp add: pause_tail_def cancel_tail_def)+

lemma deleted_untracked:
  assumes "dl_inv m" "map_of (dm_jobs m) rel = Some n"
  shows "\<not> tracked (m\<lparr>dm_jobs := AList.delete rel (dm_jobs m)\<rparr>) n"
proof
  assume "tracked (m\<lparr>dm_jobs := AList.delete rel (dm_jobs m)\<rparr>) n"
  then obtain rel' where "(rel', n) \<in> set (dm_jobs m)" "rel' \<noteq> rel" by (auto simp: tracked_def set_AList_delete)
  then show False using inv_refs(1) [OF assms(1), of rel' n] inv_refs(1) [OF assms] assms(1)
    by (auto simp: dl_inv_but_def dl_refs_def)
qed

lemma Cancel_inv: "dl_inv m \<Longrightarrow> dl_inv (snd (Cancel rel m))"
  using push_inv [OF untrack_inv, of m "CancelLock n rel" rel for n] deleted_untracked [of m rel] inv_refs(1) [of "{}" m rel]
  by (auto simp: Cancel_def obj_rel_def split: option.splits)

lemma cancel_whole_inv: "dl_inv m \<Longrightarrow> dl_inv (cancel_whole rel m)"
  using cancel_run_inv [OF untrack_inv, of m _ rel] deleted_untracked [of m rel] inv_refs(1) [of "{}" m rel]
  by (auto simp: cancel_whole_def split: option.splits)

lemma remove_path_inv [simp]: "dl_inv_but X (remove_path p m) = dl_inv_but X m"
  by (rule core_inv; simp add: remove_path_def)

lemma RemoveLocal_inv: "dl_inv m \<Longrightarrow> dl_inv (snd (RemoveLocal rels e m))"
proof (induction rels e m rule: RemoveLocal.induct)
  case (2 rel ok rels e m)
  then show ?case using cancel_whole_inv [OF 2(4), of rel] by (auto simp: Let_def split: sum.splits)
qed simp

lemma write_view_inv [simp]: "dl_inv_but X (write_view rel fs m) = dl_inv_but X m"
  by (rule core_inv; simp)

lemma notify_inv [simp]: "dl_inv_but X (notifyComplete rt rel m) = dl_inv_but X m"
  by (rule core_inv; simp)

lemma run_register_inv:
  assumes inv: "dl_inv m" and r: "phase_is r Spawned m"
  shows "dl_inv (run_register r m)"
proof -
  have rr: "r < length (dm_runs m)" "tr_phase (dm_runs m ! r) = Spawned" using r by (simp_all add: phase_is_def)
  let ?m = "update_obj (run_obj r m) (\<lambda>rj. rj\<lparr>rj_cancel := CancelRun r, rj_done := Some r\<rparr>) m"
  have "dl_inv ?m"
    by (rule update_obj_inv [OF inv])
      (use inv rr inv_refs(2) [OF inv] in \<open>auto simp: run_obj_def dl_inv_but_def dl_live_def job_active_def\<close>)
  then have "dl_inv (set_phase r Waiting ?m)" by (rule set_phase_inv) (use rr in simp_all)
  then show ?thesis by (simp add: run_register_def run_obj_def)
qed

lemma pct_inv:
  assumes "dl_inv m" "r < length (dm_runs m)"
  shows "dl_inv (update_run r (\<lambda>t. t\<lparr>tr_pct := p\<rparr>) m)"
proof -
  have "slots_used (update_run r (\<lambda>t. t\<lparr>tr_pct := p\<rparr>) m) \<le> maxConcurrent"
    using slots_update [OF assms(2), of "\<lambda>t. t\<lparr>tr_pct := p\<rparr>"] assms(1) by (simp add: dl_inv_but_def split: if_splits)
  then show ?thesis
    by (intro update_run_inv [OF assms]) (use assms nth_mem [OF assms(2)] in \<open>auto simp: going_def dl_inv_but_def dl_cancels_def\<close>)
qed

lemma keep_obj_inv:
  assumes "dl_inv m" "r < length (dm_runs m)" "\<And>rj. dj_rel (rj_job (u rj)) = dj_rel (rj_job rj)"
    "\<And>rj. dj_status (rj_job (u rj)) = dj_status (rj_job rj)" "\<And>rj. rj_cancel (u rj) = rj_cancel rj"
  shows "dl_inv (update_obj (tr_obj (dm_runs m ! r)) u m)"
proof -
  have "tr_obj (dm_runs m ! r) < length (dm_objs m)" using inv_refs(2) [OF assms(1,2)] by (simp add: run_obj_def)
  then show ?thesis
    by (rule update_obj_inv [OF assms(1)]) (use assms in \<open>auto simp: dl_inv_but_def dl_live_def job_active_def\<close>)
qed

lemma run_progress_inv:
  assumes "dl_inv m" "r < length (dm_runs m)"
  shows "dl_inv (run_progress r now d tot m)"
  using assms by (simp add: run_progress_def Let_def pct_inv keep_obj_inv)

lemma copy_progress_inv:
  assumes inv: "dl_inv m" and r: "r < length (dm_runs m)"
  shows "dl_inv (copy_progress r copied tot m)"
proof -
  have n: "tr_obj (dm_runs m ! r) < length (dm_objs m)" using inv_refs(2) [OF inv r] by (simp add: run_obj_def)
  have "dl_inv (update_job (tr_obj (dm_runs m ! r)) (\<lambda>j. j\<lparr>dj_downloaded := copied\<rparr>) m)"
    by (rule job_status_inv [OF inv n]) simp_all
  then show ?thesis using r by (simp add: copy_progress_def Let_def pct_inv update_job_def)
qed

lemma moved_inv:
  assumes inv: "dl_inv m" and r: "phase_is r Transferring m" and p: "p \<noteq> Finishing" "p \<noteq> Exited \<or> run_cancelled r m"
  shows "dl_inv (set_phase r p (write_view rel fs m))" "dl_inv (set_phase r p m)"
  by (rule set_phase_inv; use inv r p in \<open>auto simp: phase_is_def run_cancelled_def\<close>)+

lemma run_transfer_inv:
  assumes inv: "dl_inv m" and r: "phase_is r Transferring m"
  shows "dl_inv (run_transfer r dir_ok script msg m)"
proof -
  obtain res fs n where w: "Download run_options dir_ok script (file_view (tr_rel (dm_runs m ! r)) m) = (res, fs, n)"
    by (metis prod_cases3)
  then show ?thesis using moved_inv [OF inv r]
    by (cases res) (simp_all add: run_transfer_def Let_def run_cancelled_def)
qed

lemma write_body_cancelled:
  assumes "ta_cancel a = None"
  shows "fst (write_body a fs tot chunks fin start) \<noteq> Inl Cancelled"
proof -
  have "fst (read_loop a tot k chunks fin f ps) \<noteq> Inl Cancelled" for k f ps
    by (induction chunks arbitrary: k f ps) (use assms in \<open>auto split: body_end.splits option.splits\<close>)
  then have "fst (read_loop a tot 0 chunks fin start []) \<noteq> Inl Cancelled" .
  then show ?thesis unfolding write_body_def by (cases "read_loop a tot 0 chunks fin start []") (auto split: sum.splits)
qed

lemma run_copy_inv:
  assumes inv: "dl_inv m" and r: "phase_is r Transferring m" and c: "run_cancelled r m \<or> ta_cancel (cs_attempt c) = None"
  shows "dl_inv (run_copy r c msg m)"
proof -
  note keep = moved_inv [OF inv r]
  let ?w = "write_body (cs_attempt c) (file_view (tr_rel (dm_runs m ! r)) m) 0 (cs_chunks c) (cs_end c) []"
  obtain res fs ps where w: "?w = (res, fs, ps)" by (metis prod_cases3)
  then have "run_cancelled r m" if "res = Inl Cancelled"
    using c that write_body_cancelled [of "cs_attempt c" "file_view (tr_rel (dm_runs m ! r)) m" 0 "cs_chunks c" "cs_end c" "[]"]
    by (cases "ta_cancel (cs_attempt c) = None") auto
  then show ?thesis using w by (cases res) (simp_all add: run_copy_def Let_def keep)
qed

lemma failJob_inv:
  assumes inv: "dl_inv m" and r: "r < length (dm_runs m)" "tr_phase (dm_runs m ! r) = Failing msg"
  shows "dl_inv (failJob r msg' m)"
proof -
  let ?n = "tr_obj (dm_runs m ! r)"
  have n: "?n < length (dm_objs m)" using inv_refs(2) [OF inv r(1)] by (simp add: run_obj_def)
  let ?m = "update_job ?n (\<lambda>j. j\<lparr>dj_status := DownloadStatusError, dj_error := msg'\<rparr>) m"
  have 1: "dl_inv ?m" by (rule job_status_inv [OF inv n]) simp_all
  have "\<not> job_active (announce k st d t mg (quietly (SetDownloadStatus rel st' msg') ?m)) ?n" for k st d t mg rel st'
    using n by (simp add: job_active_def update_job_def)
  then have "dl_inv (set_phase r Exited (announce k st d t mg (quietly (SetDownloadStatus rel st' msg') ?m)))" for k st d t mg rel st'
    by (intro set_phase_inv) (use 1 r in \<open>simp_all add: update_job_def\<close>)
  then show ?thesis by (simp add: failJob_def Let_def)
qed

lemma run_untrack_inv:
  assumes inv: "dl_inv m" and r: "phase_is r Landed m"
  shows "dl_inv (run_untrack r m)"
proof -
  have rr: "r < length (dm_runs m)" "tr_phase (dm_runs m ! r) = Landed" using r by (simp_all add: phase_is_def)
  let ?m = "m\<lparr>dm_jobs := AList.delete (tr_rel (dm_runs m ! r)) (dm_jobs m)\<rparr>"
  have 1: "dl_inv ?m" by (rule untrack_inv [OF inv])
  have "\<not> tracked ?m (tr_obj (dm_runs m ! r))"
  proof
    assume "tracked ?m (tr_obj (dm_runs m ! r))"
    then obtain rel where "(rel, run_obj r m) \<in> set (dm_jobs m)" "rel \<noteq> tr_rel (dm_runs m ! r)"
      by (auto simp: tracked_def set_AList_delete run_obj_def)
    then show False using inv_refs(1) [OF inv, of rel "run_obj r m"] inv_refs(2) [OF inv rr(1)] inv
      by (auto simp: dl_inv_but_def dl_refs_def)
  qed
  then have "dl_inv (update_run r (\<lambda>t. t\<lparr>tr_phase := Finishing\<rparr>) ?m)"
    by (intro update_run_inv [OF 1] slots_le [OF 1]) (use rr in \<open>auto simp: going_def\<close>)
  then show ?thesis by (simp add: run_untrack_def set_phase_def)
qed

lemma run_finish_inv:
  assumes inv: "dl_inv m" and r: "phase_is r Finishing m"
  shows "dl_inv (run_finish r m)"
proof -
  have rr: "r < length (dm_runs m)" "tr_phase (dm_runs m ! r) = Finishing" using r by (simp_all add: phase_is_def)
  then have t: "\<not> tracked m (tr_obj (dm_runs m ! r))" using inv nth_mem [of r "dm_runs m"] by (auto simp: dl_inv_but_def dl_cancels_def)
  have "tracked (notifyComplete a b (announce k st d tt mg (quietly (DeleteDownload rel) m))) = tracked m" for a b k st d tt mg rel
    by (auto simp: tracked_def)
  then show ?thesis unfolding run_finish_def Let_def
    by (intro set_phase_inv) (use inv rr t in simp_all)
qed

lemma Continue_inv:
  assumes inv: "dl_inv m" and i: "i < length (dm_pending m)"
  shows "dl_inv (pending_step ok (dm_pending m ! i) (take_pending i m))"
proof -
  note refs = inv_refs(3) [OF inv i]
  have objs: "dm_objs (take_pending i m) = dm_objs m" "obj_rel (take_pending i m) = obj_rel m" "tracked (take_pending i m) = tracked m"
    by (auto simp: take_pending_def obj_rel_def tracked_def)
  have mem: "dm_pending m ! i \<in> set (dm_pending m)" using i by simp
  show ?thesis
  proof (cases "dm_pending m ! i")
    case (StartTail n job kind)
    have "dl_inv_but {n} (take_pending i m)" using take_inv [OF inv i] by (simp add: StartTail)
    with StartTail refs objs show ?thesis by (simp add: start_tail_inv)
  next
    case (ResumeTail n rel d t)
    have "dl_inv_but {n} (take_pending i m)" using take_inv [OF inv i] by (simp add: ResumeTail)
    with ResumeTail refs objs show ?thesis by (simp add: resume_tail_inv)
  next
    case (CancelLock n rel)
    then have "\<not> tracked m n" using inv mem by (auto simp: dl_inv_but_def dl_cancels_def)
    with CancelLock refs objs take_no_spawn_inv [OF inv i] show ?thesis by (simp add: cancel_lock_inv)
  qed (use refs objs take_no_spawn_inv [OF inv i] in \<open>simp_all add: pause_lock_inv resume_lock_inv\<close>)
qed

lemma dl_step_inv:
  assumes inv: "dl_inv m"
  shows "dl_inv (dl_step op m)"
proof (cases "dl_enabled op m")
  case True
  note regs = register_inv [OF inv]
  have "dl_inv (dl_effect op m)"
  proof (cases op)
    case (OpStart spec)
    then show ?thesis using inv by (simp add: StartDownload_def regs split: sum.splits)
  next
    case (OpImport src rel runtime labels)
    then show ?thesis using inv by (simp add: ImportLocal_def regs split: sum.splits option.splits)
  next
    case (OpPause rel)
    show ?thesis
    proof (cases "map_of (dm_jobs m) rel")
      case (Some n)
      with inv_refs(1) [OF inv Some] push_inv [OF inv, of "PauseLock n rel"] OpPause show ?thesis by (simp add: Pause_def)
    qed (use inv OpPause in \<open>simp add: Pause_def\<close>)
  next
    case (OpResume rel)
    show ?thesis
    proof (cases "map_of (dm_jobs m) rel")
      case (Some n)
      with inv_refs(1) [OF inv Some] push_inv [OF inv, of "ResumeLock n rel"] OpResume show ?thesis by (simp add: Resume_def)
    qed (use inv OpResume in \<open>simp add: Resume_def\<close>)
  next
    case (Transfer r dir_ok script msg)
    then show ?thesis using True run_transfer_inv [OF inv] by simp
  next
    case (Fail r)
    then show ?thesis using True inv failJob_inv [OF inv] by (auto split: run_phase.splits)
  next
    case (Acquire r)
    then show ?thesis using True set_phase_inv [OF inv, of r Transferring] by (simp add: phase_is_def)
  next
    case (GiveUp r)
    then show ?thesis using True set_phase_inv [OF inv, of r Exited] by (simp add: phase_is_def run_cancelled_def)
  next
    case OpList
    have "dl_inv (m\<lparr>dm_wedged := True\<rparr>)" by (subst core_inv [where m = m]) (simp_all add: inv)
    with OpList inv show ?thesis by (simp add: List_jobs_def)
  next
    case (OpSubscribe ch)
    have "dl_inv (Subscribe ch m)" by (subst core_inv [where m = m]) (simp_all add: inv Subscribe_def)
    with OpSubscribe show ?thesis by simp
  next
    case (OpUnsubscribe ch)
    have "dl_inv (Unsubscribe ch m)" by (subst core_inv [where m = m]) (simp_all add: inv Unsubscribe_def)
    with OpUnsubscribe show ?thesis by simp
  qed (use True inv in \<open>simp_all add: Cancel_inv RemoveLocal_inv Continue_inv run_register_inv run_progress_inv copy_progress_inv
      run_copy_inv run_untrack_inv run_finish_inv phase_is_def\<close>)
  with True show ?thesis by (simp add: dl_step_def)
qed (use inv in \<open>simp add: dl_step_def\<close>)

subsection \<open>Nothing outside the models directory is touched\<close>

lemma paths_below:
  assumes "ValidateRelPath rel = Inr ()"
  shows "below (dm_dir m) (dest_path m rel)" "below (dm_dir m) (temp_path m rel)"
proof -
  have d: "dest_path m rel = dm_dir m @ split_on (CHR ''/'') rel"
    using assms by (simp add: dest_path_def Join_def Join_plain ValidateRelPath_ok)
  obtain segs seg where s: "split_on (CHR ''/'') rel = segs @ [seg]" using split_on_not_Nil by (metis rev_exhaust)
  show "below (dm_dir m) (dest_path m rel)" "below (dm_dir m) (temp_path m rel)"
    by (simp_all add: temp_path_def d s TempFilePath_def below_def Let_def butlast_append)
qed

definition touches_only :: "dl_manager \<Rightarrow> dl_manager \<Rightarrow> bool" where
  "touches_only m m' \<longleftrightarrow> dm_dir m' = dm_dir m \<and> {p. map_of (dm_files m') p \<noteq> map_of (dm_files m) p} \<subseteq> {p. below (dm_dir m) p}"

lemma touches_refl: "dm_dir m' = dm_dir m \<Longrightarrow> dm_files m' = dm_files m \<Longrightarrow> touches_only m m'"
  by (simp add: touches_only_def)

lemma touches_trans: "touches_only m m' \<Longrightarrow> touches_only m' m'' \<Longrightarrow> touches_only m m''"
  unfolding touches_only_def by (simp add: subset_iff) metis

lemma map_of_put_file: "map_of (put_file p c files) = (map_of files)(p := c)"
  by (cases c) (auto simp: put_file_def)

lemma write_view_touches: "ValidateRelPath rel = Inr () \<Longrightarrow> touches_only m (write_view rel fs m)"
  using paths_below [of rel m] by (auto simp: touches_only_def write_view_def map_of_put_file)

lemma cancel_tail_touches: "ValidateRelPath rel = Inr () \<Longrightarrow> touches_only m (cancel_tail ok n rel m)"
  using paths_below [of rel m] by (auto simp: touches_only_def cancel_tail_def)

lemma remove_path_touches:
  assumes "ValidateRelPath rel = Inr ()"
  shows "touches_only m (remove_path (dest_path m rel) m)"
proof -
  have "map_of (dm_files (remove_path (dest_path m rel) m)) p = map_of (dm_files m) p" if "\<not> below (dm_dir m) p" for p
  proof -
    have "p \<noteq> dest_path m rel \<and> \<not> below (dest_path m rel) p"
      using that paths_below(1) [OF assms, of m] below_trans by blast
    then show ?thesis
      using map_of_filter [of "\<lambda>q. q \<noteq> dest_path m rel \<and> \<not> below (dest_path m rel) q" "dm_files m"]
      by (simp add: remove_path_def case_prod_beta' restrict_map_def)
  qed
  then show ?thesis unfolding touches_only_def by (auto simp: remove_path_def)
qed

lemma cancel_whole_touches:
  assumes "dl_inv m" "ValidateRelPath rel = Inr ()"
  shows "touches_only m (cancel_whole rel m)"
proof (cases "map_of (dm_jobs m) rel")
  case (Some n)
  let ?m = "cancel_run (rj_cancel (dm_objs m ! n)) (m\<lparr>dm_jobs := AList.delete rel (dm_jobs m)\<rparr>)"
  have "touches_only ?m (cancel_tail True n rel ?m)" by (rule cancel_tail_touches [OF assms(2)])
  then have "touches_only m (cancel_tail True n rel ?m)" by (simp add: touches_only_def)
  with Some show ?thesis by (simp add: cancel_whole_def)
qed (simp add: cancel_whole_def touches_refl)

lemma RemoveLocal_touches: "dl_inv m \<Longrightarrow> touches_only m (snd (RemoveLocal rels e m))"
proof (induction rels e m rule: RemoveLocal.induct)
  case (2 rel ok rels e m)
  show ?case
  proof (cases "ValidateRelPath rel")
    case (Inl err)
    with 2 show ?thesis by (simp add: Let_def)
  next
    case (Inr u)
    then have v: "ValidateRelPath rel = Inr ()" by simp
    let ?c = "cancel_whole rel m"
    let ?d = "quietly (DeleteDownload rel) (remove_path (dest_path ?c rel) ?c)"
    have c: "touches_only m ?c" "dl_inv ?c" using 2(4) v by (simp_all add: cancel_whole_touches cancel_whole_inv)
    have "touches_only ?c ?d" using remove_path_touches [OF v, of ?c] by (simp add: touches_only_def)
    then have d: "touches_only m ?d" "dl_inv ?d" using touches_trans [OF c(1)] c(2) by simp_all
    show ?thesis using 2(2,3) [OF refl Inr refl] c d touches_trans v by (auto simp: Let_def)
  qed
qed (simp add: touches_refl)

lemma pending_touches:
  assumes "ValidateRelPath (pending_rel p) = Inr ()"
  shows "touches_only m (pending_step ok p m)"
proof (cases p)
  case (CancelTail n rel d)
  with assms cancel_tail_touches [of rel] show ?thesis by simp
qed (auto intro!: touches_refl simp: start_tail_def pause_lock_def pause_tail_def resume_lock_def resume_tail_def
    cancel_lock_def update_job_def Let_def)

lemma set_phase_core [simp]:
  "dm_files (set_phase r p m) = dm_files m" "dm_dir (set_phase r p m) = dm_dir m"
  by (simp_all add: set_phase_def)

lemma touches_phase [simp]: "touches_only m (set_phase r p m') = touches_only m m'"
  by (simp add: touches_only_def)

lemma dl_step_touches:
  assumes inv: "dl_inv m"
  shows "touches_only m (dl_step op m)"
proof (cases "dl_enabled op m")
  case True
  have valid: "ValidateRelPath (obj_rel m n) = Inr ()" if "n < length (dm_objs m)" for n
    using inv that by (auto simp: dl_inv_but_def dl_refs_def)
  then have vr: "ValidateRelPath (tr_rel (dm_runs m ! r)) = Inr ()" if "phase_is r p m" for r p
    using inv_refs(2) [OF inv, of r] that by (auto simp: phase_is_def)
  have "touches_only m (dl_effect op m)"
  proof (cases op)
    case (Continue i ok)
    then have i: "i < length (dm_pending m)" using True by simp
    have "touches_only (take_pending i m) (pending_step ok (dm_pending m ! i) (take_pending i m))"
      using pending_touches inv_refs(3) [OF inv i] valid by simp
    with Continue show ?thesis by (simp add: touches_only_def take_pending_def)
  next
    case (Transfer r dir_ok script msg)
    obtain res fs n where w: "Download run_options dir_ok script (file_view (tr_rel (dm_runs m ! r)) m) = (res, fs, n)"
      by (metis prod_cases3)
    with Transfer True vr [of r] show ?thesis
      by (cases res) (auto simp: run_transfer_def Let_def write_view_touches)
  next
    case (Copy r c msg)
    obtain res fs ps where w: "write_body (cs_attempt c) (file_view (tr_rel (dm_runs m ! r)) m) 0 (cs_chunks c) (cs_end c) [] = (res, fs, ps)"
      by (metis prod_cases3)
    with Copy True vr [of r] show ?thesis
      by (cases res) (auto simp: run_copy_def Let_def write_view_touches touches_refl)
  next
    case (OpRemove rels)
    then show ?thesis using RemoveLocal_touches [OF inv] by simp
  qed (auto intro!: touches_refl simp: StartDownload_def ImportLocal_def register_def Pause_def Resume_def Cancel_def List_jobs_def
      Subscribe_def Unsubscribe_def run_register_def run_progress_def copy_progress_def failJob_def run_untrack_def
      run_finish_def update_job_def Let_def split: sum.splits option.splits run_phase.splits)
  with True show ?thesis by (simp add: dl_step_def)
qed (simp add: dl_step_def touches_refl)

subsection \<open>Recovering after a restart\<close>

definition has_temp :: "string list \<Rightarrow> (string list \<times> bytes) list \<Rightarrow> download_row \<Rightarrow> bool" where
  "has_temp dir files row \<longleftrightarrow> (let t = TempFilePath (Join dir (dr_rel row)) '''' in list_ex (\<lambda>(q, _). q = t \<or> below t q) files)"

definition restored_row :: "download_row \<Rightarrow> download_row" where
  "restored_row row = row\<lparr>dr_status := (if dr_status row = DownloadStatusError then DownloadStatusError else DownloadStatusPaused)\<rparr>"

definition restored_job :: "download_row \<Rightarrow> runtime_job" where
  "restored_job row = \<lparr> rj_job = jobFromRow (restored_row row), rj_cancel = NoopCancel, rj_done = None, rj_persist = None, rj_held = False \<rparr>"

text \<open>What recovery has made of the rows seen so far.\<close>

definition recovered :: "string list \<Rightarrow> (string list \<times> bytes) list \<Rightarrow> download_row list \<Rightarrow> dl_manager \<Rightarrow> bool" where
  "recovered dir files seen m \<longleftrightarrow> dm_dir m = dir \<and> dm_files m = files \<and> dm_runs m = [] \<and> dm_pending m = []
     \<and> dm_objs m = map restored_job (filter (has_temp dir files) seen)
     \<and> dm_jobs m = zip (map dr_rel (filter (has_temp dir files) seen)) [0..<length (filter (has_temp dir files) seen)]"

lemma recover_row_cases:
  assumes "recovered dir files seen m" "dr_rel row \<notin> dr_rel ` set seen"
  shows "recovered dir files (seen @ [row]) (recover_row row m)"
    and "recover_row row m = (if has_temp dir files row
      then quietly (SetDownloadStatus (dr_rel row) (dr_status (restored_row row)) (dr_error row))
        (m\<lparr>dm_objs := dm_objs m @ [restored_job row], dm_jobs := dm_jobs m @ [(dr_rel row, length (dm_objs m))]\<rparr>)
      else quietly (DeleteDownload (dr_rel row)) m)"
proof -
  let ?k = "filter (has_temp dir files) seen"
  have temp: "stat_ok m (temp_path m (dr_rel row)) = has_temp dir files row"
    using assms(1) by (simp add: recovered_def stat_ok_def has_temp_def temp_path_def dest_path_def Let_def)
  have "dr_rel row \<notin> set (map fst (dm_jobs m))" using assms by (auto simp: recovered_def dest: set_zip_leftD)
  then have upd: "AList.update (dr_rel row) (length (dm_objs m)) (dm_jobs m) = dm_jobs m @ [(dr_rel row, length (dm_objs m))]"
    by (rule AList_update_fresh)
  show c: "recover_row row m = (if has_temp dir files row
      then quietly (SetDownloadStatus (dr_rel row) (dr_status (restored_row row)) (dr_error row))
        (m\<lparr>dm_objs := dm_objs m @ [restored_job row], dm_jobs := dm_jobs m @ [(dr_rel row, length (dm_objs m))]\<rparr>)
      else quietly (DeleteDownload (dr_rel row)) m)"
    by (simp add: recover_row_def temp upd restored_job_def restored_row_def Let_def)
  show "recovered dir files (seen @ [row]) (recover_row row m)"
    using assms(1) unfolding c by (simp add: recovered_def)
qed

lemma recovered_fold:
  assumes "distinct (map dr_rel (seen @ rest))" "recovered dir files seen m"
  shows "recovered dir files (seen @ rest) (fold recover_row rest m)"
  using assms
proof (induction rest arbitrary: seen m)
  case (Cons row rest)
  then have "recovered dir files (seen @ [row]) (recover_row row m)" by (intro recover_row_cases(1)) auto
  from Cons.IH [OF _ this] Cons.prems show ?case by simp
qed simp

text \<open>A table as the upserts leave it: a row per path, each an accepted one.\<close>

definition table_ok :: "(string \<times> download_row) list \<Rightarrow> bool" where
  "table_ok tbl \<longleftrightarrow> distinct (map fst tbl) \<and> list_all (\<lambda>(k, r). dr_rel r = k \<and> ValidateRelPath k = Inr ()) tbl"

lemma table_ok_rels:
  assumes "table_ok tbl"
  shows "map dr_rel (map snd tbl) = map fst tbl"
  using assms by (induction tbl) (auto simp: table_ok_def)

lemma table_ok_distinct: "table_ok tbl \<Longrightarrow> distinct (map dr_rel (map snd tbl))"
  by (simp only: table_ok_rels) (simp add: table_ok_def)

lemma Recover_recovered:
  assumes "table_ok tbl"
  shows "recovered dir files (if faulty faults then [] else map snd tbl) (Recover (boot dir tbl faults files callback))"
proof -
  have start: "recovered dir files [] (boot dir tbl fs files callback)" for fs by (simp add: recovered_def boot_def)
  have d: "distinct (map dr_rel ([] @ map snd tbl))" using table_ok_distinct [OF assms] by simp
  have "ListDownloads (boot dir tbl faults files callback)
      = (if faulty faults then Inl DbError else Inr (map snd tbl), boot dir tbl (tl faults) files callback)"
    by (simp add: ListDownloads_def dtx_def boot_def Let_def)
  then show ?thesis using start recovered_fold [OF d start] by (simp add: Recover_def)
qed

lemma recovered_inv:
  assumes "recovered dir files seen m" "distinct (map dr_rel seen)" "list_all (\<lambda>r. ValidateRelPath (dr_rel r) = Inr ()) seen"
  shows "dl_inv m"
proof -
  let ?k = "filter (has_temp dir files) seen"
  have objs: "dm_objs m = map restored_job ?k" and jobs: "dm_jobs m = zip (map dr_rel ?k) [0..<length ?k]"
    and empty: "dm_runs m = []" "dm_pending m = []" using assms(1) by (simp_all add: recovered_def)
  have rel: "obj_rel m n = dr_rel (?k ! n)" "\<not> job_active m n" if "n < length ?k" for n
    using that by (simp_all add: obj_rel_def job_active_def objs restored_job_def restored_row_def jobFromRow_def)
  have d: "distinct (map dr_rel ?k)" by (rule distinct_map_filter [OF assms(2)])
  have valid: "ValidateRelPath (dr_rel (?k ! n)) = Inr ()" if "n < length ?k" for n
    using nth_mem [OF that] assms(3) by (auto simp: list_all_iff)
  have pair: "n < length ?k \<and> r = dr_rel (?k ! n)" if "(r, n) \<in> set (dm_jobs m)" for r n
    using that by (auto simp: jobs set_zip)
  have "dl_refs m" using rel valid pair d
    by (auto simp: dl_refs_def objs empty jobs dest!: map_of_SomeD)
  moreover have "dl_cancels m" by (auto simp: dl_cancels_def objs empty restored_job_def)
  moreover have "dl_live {} m" using rel(2) pair by (fastforce simp: dl_live_def tracked_def)
  ultimately show ?thesis by (simp add: dl_inv_but_def slots_used_def empty)
qed

lemma boot_inv: "table_ok tbl \<Longrightarrow> dl_inv (Recover (boot dir tbl faults files callback))"
proof -
  assume t: "table_ok tbl"
  have "list_all (\<lambda>r. ValidateRelPath (dr_rel r) = Inr ()) (if faulty faults then [] else map snd tbl)"
    using t by (auto simp: table_ok_def list_all_iff)
  moreover have "distinct (map dr_rel (if faulty faults then [] else map snd tbl))" using table_ok_distinct [OF t] by simp
  ultimately show ?thesis using recovered_inv [OF Recover_recovered [OF t]] by blast
qed

text \<open>Over any interleaving.\<close>

definition dl_run :: "dl_op list \<Rightarrow> dl_manager \<Rightarrow> dl_manager" where
  "dl_run ops m = fold dl_step ops m"

lemma dl_run_inv: "dl_inv m \<Longrightarrow> dl_inv (dl_run ops m) \<and> touches_only m (dl_run ops m)"
proof (induction ops arbitrary: m)
  case Nil
  then show ?case by (simp add: dl_run_def touches_refl)
next
  case (Cons op ops)
  from Cons.IH [OF dl_step_inv [OF Cons.prems, of op]] touches_trans [OF dl_step_touches [OF Cons.prems, of op]]
  show ?case by (simp add: dl_run_def)
qed

lemma dl_inv_facts:
  assumes "dl_inv m"
  shows "slots_used m \<le> 3"
    "set (dm_jobs m) \<subseteq> {(rel, n). n < length (dm_objs m) \<and> dj_rel (rj_job (dm_objs m ! n)) = rel \<and> ValidateRelPath rel = Inr ()}"
    "{n \<in> snd ` set (dm_jobs m). dj_status (rj_job (dm_objs m ! n)) = DownloadStatusActive} \<subseteq> {n. carried m n}"
proof -
  have "n < length (dm_objs m) \<and> obj_rel m n = rel \<and> ValidateRelPath rel = Inr ()" if "(rel, n) \<in> set (dm_jobs m)" for rel n
  proof -
    have "map_of (dm_jobs m) rel = Some n" using that assms by (auto simp: dl_inv_but_def dl_refs_def)
    then have n: "n < length (dm_objs m)" "obj_rel m n = rel" using inv_refs(1) [OF assms, of rel n] by simp_all
    have "ValidateRelPath (obj_rel m n) = Inr ()" using n(1) assms by (simp add: dl_inv_but_def dl_refs_def)
    with n show ?thesis by simp
  qed
  then show "set (dm_jobs m) \<subseteq> {(rel, n). n < length (dm_objs m) \<and> dj_rel (rj_job (dm_objs m ! n)) = rel \<and> ValidateRelPath rel = Inr ()}"
    by (auto simp: obj_rel_def)
qed (use assms in \<open>auto simp: dl_inv_but_def maxConcurrent_def dl_live_def tracked_def job_active_def\<close>)

text \<open>C19. From a restart on, whatever is started, imported, paused, resumed, cancelled and removed, however the
  operations and the transfer goroutines interleave and whatever the store, the network and the disk do: no file
  outside the models directory is created, changed or deleted; at most three transfers hold a slot; every tracked job
  is filed under its own accepted path; and a job shown as active has a transfer under way that nobody has told to
  stop, or one about to be spawned.\<close>

theorem downloads_safe:
  assumes "table_ok tbl"
  shows "let m = dl_run ops (Recover (boot dir tbl faults files callback)) in
      {p. map_of (dm_files m) p \<noteq> map_of files p} \<subseteq> {p. below dir p}
    \<and> slots_used m \<le> 3
    \<and> set (dm_jobs m) \<subseteq> {(rel, n). n < length (dm_objs m) \<and> dj_rel (rj_job (dm_objs m ! n)) = rel \<and> ValidateRelPath rel = Inr ()}
    \<and> {n \<in> snd ` set (dm_jobs m). dj_status (rj_job (dm_objs m ! n)) = DownloadStatusActive} \<subseteq> {n. carried m n}"
proof -
  let ?b = "Recover (boot dir tbl faults files callback)"
  have b: "dl_inv ?b" by (rule boot_inv [OF assms])
  have f: "dm_files ?b = files" "dm_dir ?b = dir" using Recover_recovered [OF assms] by (simp_all add: recovered_def)
  note run = dl_run_inv [OF b, of ops]
  then have "{p. map_of (dm_files (dl_run ops ?b)) p \<noteq> map_of files p} \<subseteq> {p. below dir p}" by (simp add: touches_only_def f)
  then show ?thesis unfolding Let_def using dl_inv_facts [OF conjunct1 [OF run]] by (intro conjI)
qed

definition demo_spec :: download_job where
  "demo_spec = \<lparr> dj_rel = ''gguf/a.bin'', dj_url = ''http://x/a'', dj_source = '''', dj_repo = '''', dj_runtime = ''llama'',
     dj_group = '''', dj_group_name = '''', dj_filename = ''a'', dj_status = '''', dj_downloaded = 0, dj_total = 3, dj_error = '''' \<rparr>"

definition demo_download :: "dl_op list" where
  "demo_download = [OpStart demo_spec, Continue 0 True, Register 0, Acquire 0, Transfer 0 True [example_world, example_world] ''''  ,
     Untrack 0, Finish 0]"

text \<open>A download from its start to its file, through an interruption.\<close>

theorem downloads_safe_witness:
  "dm_files (dl_run demo_download (Recover (boot [''models''] [] [] [] True))) = [([''models'', ''gguf'', ''a.bin''], [1, 2, 3])]
   \<and> slots_used (dl_run demo_download (Recover (boot [''models''] [] [] [] True))) \<le> 3
   \<and> dm_jobs (dl_run demo_download (Recover (boot [''models''] [] [] [] True))) = []"
proof -
  have "table_ok []" by (simp add: table_ok_def)
  from downloads_safe [OF this, of demo_download "[''models'']" "[]" "[]" True]
  have "slots_used (dl_run demo_download (Recover (boot [''models''] [] [] [] True))) \<le> 3" by (simp only: Let_def)
  moreover have "dm_files (dl_run demo_download (Recover (boot [''models''] [] [] [] True))) = [([''models'', ''gguf'', ''a.bin''], [1, 2, 3])]"
    by code_simp
  moreover have "dm_jobs (dl_run demo_download (Recover (boot [''models''] [] [] [] True))) = []" by code_simp
  ultimately show ?thesis by blast
qed

subsection \<open>What is shown after a restart\<close>

lemma quietly_store:
  assumes "ds_faults m = []"
  shows "ds_rows (quietly (SetDownloadStatus rel st msg) m) = update_row rel (\<lambda>r. r\<lparr>dr_status := st, dr_error := msg\<rparr>) (ds_rows m)"
    "ds_rows (quietly (DeleteDownload rel) m) = AList.delete rel (ds_rows m)"
    "ds_faults (quietly (SetDownloadStatus rel st msg) m) = []" "ds_faults (quietly (DeleteDownload rel) m) = []"
  using assms by (simp_all add: quietly_def SetDownloadStatus_def DeleteDownload_def dtx_def faulty_def)

lemma map_of_update_row: "map_of (update_row rel u tbl) k = (if k = rel then map_option u (map_of tbl k) else map_of tbl k)"
  by (induction tbl) (auto simp: update_row_def)

lemma restored_again: "row\<lparr>dr_status := dr_status (restored_row row), dr_error := dr_error row\<rparr> = restored_row row"
  by (simp add: restored_row_def)

text \<open>The rows of the paths recovered so far are the restored ones, or gone.\<close>

lemma recover_rows:
  assumes "recovered dir files seen m" "distinct (map dr_rel (seen @ rest))" "ds_faults m = []"
    "\<And>row. row \<in> set rest \<Longrightarrow> map_of (ds_rows m) (dr_rel row) = Some row" "row \<in> set rest"
  shows "map_of (ds_rows (fold recover_row rest m)) (dr_rel row) = (if has_temp dir files row then Some (restored_row row) else None)"
  using assms
proof (induction rest arbitrary: seen m)
  case (Cons r rest)
  have fresh: "dr_rel r \<notin> dr_rel ` set seen" "dr_rel r \<notin> dr_rel ` set rest" using Cons.prems(2) by auto
  note step = recover_row_cases [OF Cons.prems(1) fresh(1)]
  have rows: "map_of (ds_rows (recover_row r m)) k = (if k = dr_rel r then (if has_temp dir files r then Some (restored_row r) else None)
      else map_of (ds_rows m) k)" for k
    using Cons.prems(3) Cons.prems(4) [of r] unfolding step(2)
    by (auto simp: quietly_store map_of_update_row restored_again)
  have f: "ds_faults (recover_row r m) = []" using Cons.prems(3) unfolding step(2) by (simp add: quietly_store)
  have other: "map_of (ds_rows (fold recover_row rest m')) k = map_of (ds_rows m') k"
    if "k \<notin> dr_rel ` set rest" "ds_faults m' = []" for m' k
    using that
  proof (induction rest arbitrary: m')
    case (Cons q rest)
    have "ds_faults (recover_row q m') = [] \<and> map_of (ds_rows (recover_row q m')) k = map_of (ds_rows m') k"
      using Cons.prems by (auto simp: recover_row_def Let_def quietly_store map_of_update_row)
    with Cons show ?case by simp
  qed simp
  show ?case
  proof (cases "row = r")
    case True
    with other [OF _ f, of "dr_rel r"] fresh rows show ?thesis by simp
  next
    case False
    have "map_of (ds_rows (recover_row r m)) (dr_rel q) = Some q" if "q \<in> set rest" for q
  proof -
    have "dr_rel q \<noteq> dr_rel r" using that fresh(2) by (metis imageI)
    then show ?thesis using rows Cons.prems(4) [of q] that by simp
  qed
    with Cons.IH [OF step(1) _ f] Cons.prems False show ?thesis by simp
  qed
qed simp

text \<open>After a restart with a working store the panel shows exactly the downloads whose temp file is still there, in
  the order they were created, with their counters and all as paused, save the failed ones, which stay failed; the
  table holds the same, and the rows of the others are gone. Nothing runs.\<close>

theorem Recover_restores:
  assumes "table_ok tbl"
  shows "let m = Recover (boot dir tbl [] files callback) in
      fst (List_jobs m) = Some (map (\<lambda>row. jobFromRow (restored_row row)) (filter (has_temp dir files) (map snd tbl)))
    \<and> map (\<lambda>row. map_of (ds_rows m) (dr_rel row)) (map snd tbl)
        = map (\<lambda>row. if has_temp dir files row then Some (restored_row row) else None) (map snd tbl)
    \<and> dm_runs m = [] \<and> dm_pending m = [] \<and> dm_files m = files"
proof -
  let ?m = "Recover (boot dir tbl [] files callback)" and ?k = "filter (has_temp dir files) (map snd tbl)"
  have r: "recovered dir files (map snd tbl) ?m" using Recover_recovered [OF assms, of dir files "[]"] by (simp add: faulty_def)
  have zip: "map (\<lambda>(_, n). f (map g xs ! n)) (zip ys [0..<length xs]) = map (f \<circ> g) xs" if "length ys = length xs"
    for f :: "runtime_job \<Rightarrow> download_job" and g :: "download_row \<Rightarrow> runtime_job" and xs and ys :: "string list"
    using that by (intro nth_equalityI) auto
  have held: "\<not> list_ex (\<lambda>(_, n). rj_held (dm_objs ?m ! n)) (dm_jobs ?m)"
    using r by (auto simp: recovered_def list_ex_iff set_zip restored_job_def)
  have "fst (List_jobs ?m) = Some (map (\<lambda>row. jobFromRow (restored_row row)) ?k)"
    using held r zip [of "map dr_rel ?k" ?k rj_job restored_job]
    by (simp add: List_jobs_def recovered_def comp_def restored_job_def)
  moreover have "map_of (ds_rows ?m) (dr_rel row) = (if has_temp dir files row then Some (restored_row row) else None)"
    if "row \<in> set (map snd tbl)" for row
  proof -
    have m: "?m = fold recover_row (map snd tbl) (boot dir tbl [] files callback)"
      by (simp add: Recover_def ListDownloads_def dtx_def boot_def faulty_def)
    have "map_of tbl (dr_rel q) = Some q" if "q \<in> set (map snd tbl)" for q
      using that assms by (auto simp: table_ok_def list_all_iff intro!: map_of_is_SomeI)
    then show ?thesis unfolding m
      by (intro recover_rows [of _ _ "[]"]) (use that table_ok_distinct [OF assms] in \<open>simp_all add: recovered_def boot_def\<close>)
  qed
  ultimately show ?thesis using r by (simp add: recovered_def Let_def)
qed

definition demo_row :: "string \<Rightarrow> string \<Rightarrow> string \<times> download_row" where
  "demo_row rel st = (rel, rowFromJob (demo_spec\<lparr>dj_rel := rel, dj_status := st\<rparr>))"

theorem Recover_restores_witness:
  "let m = Recover (boot [''m''] [demo_row ''a'' ''active'', demo_row ''b'' ''active''] [] [([''m'', ''.downloading-a''], [1])] True) in
     map (\<lambda>j. (dj_rel j, dj_status j)) (the (fst (List_jobs m))) = [(''a'', ''paused'')]"
proof -
  let ?tbl = "[demo_row ''a'' ''active'', demo_row ''b'' ''active'']"
  have "table_ok ?tbl" by code_simp
  from Recover_restores [OF this, of "[''m'']" "[([''m'', ''.downloading-a''], [1])]" True]
  have "fst (List_jobs (Recover (boot [''m''] ?tbl [] [([''m'', ''.downloading-a''], [1])] True)))
      = Some (map (\<lambda>row. jobFromRow (restored_row row)) (filter (has_temp [''m''] [([''m'', ''.downloading-a''], [1])]) (map snd ?tbl)))"
    by (simp only: Let_def)
  moreover have "map (\<lambda>j. (dj_rel j, dj_status j)) (map (\<lambda>row. jobFromRow (restored_row row))
      (filter (has_temp [''m''] [([''m'', ''.downloading-a''], [1])]) (map snd ?tbl))) = [(''a'', ''paused'')]" by code_simp
  ultimately show ?thesis by (simp only: Let_def option.sel)
qed

subsection \<open>Two races\<close>

text \<open>A pause that comes between the registration of a job and the first lock of its goroutine finds no cancel function:
  it panics with the job's mutex held, and the next listing of the panel takes the manager's mutex with it.\<close>

lemma pause_right_after_start_wedges:
  "let m = dl_run [OpStart demo_spec, OpPause ''gguf/a.bin'', Continue 1 True, OpList] (boot [''models''] [] [] [] True)
   in dm_wedged m \<and> held 0 m \<and> \<not> dl_enabled (OpStart demo_spec) m \<and> \<not> dl_enabled (OpCancel ''gguf/a.bin'') m"
  by code_simp

text \<open>A local import that is paused and resumed goes on as a download of its \<open>file:\<close> URL.\<close>

lemma resumed_import_downloads:
  "map (\<lambda>t. (tr_kind t, tr_cancelled t)) (dm_runs (dl_run
     [OpImport \<lparr> is_path = ''/a'', is_found = True, is_directory = False, is_size = 3, is_abs = Some [''a''] \<rparr> ''a'' ''llama'' ('''', ''''),
      Continue 0 True, Register 0, OpPause ''a'', Continue 0 True, Continue 0 True, OpResume ''a'', Continue 0 True, Continue 0 True]
     (boot [''models''] [] [] [] True))) = [(CopyRun ''/a'', True), (HttpRun, False)]"
  by code_simp

end
