(* ===== verification/Web_Gates.thy ===== *)
theory Web_Gates
  imports Credentials
begin

text \<open>
  What stands between a request and the dashboard's handlers: the operator authentication and its sessions
  (\<open>internal/web/auth.go\<close>, \<open>session.go\<close>, login and logout of \<open>handler.go\<close>).

  bcrypt is the argument \<open>cmp\<close>, as in \<open>Credentials\<close>; random bytes and clock readings are arguments.
\<close>

subsection \<open>Strings\<close>

definition HasPrefix :: "string \<Rightarrow> string \<Rightarrow> bool" where
  "HasPrefix s p \<longleftrightarrow> take (length p) s = p"

fun Contains :: "string \<Rightarrow> string \<Rightarrow> bool" where
  "Contains [] sub = (sub = [])"
| "Contains (c # s) sub = (HasPrefix (c # s) sub \<or> Contains s sub)"

definition hex_digit :: "nat \<Rightarrow> char" where
  "hex_digit n = (if n < 10 then char_of (48 + n) else char_of (87 + n))"

fun hex_encode :: "bytes \<Rightarrow> string" where
  "hex_encode [] = []"
| "hex_encode (b # bs) = hex_digit (unat b div 16) # hex_digit (unat b mod 16) # hex_encode bs"

subsection \<open>Sessions\<close>

record session_store =
  ss_sessions :: "(string \<times> time) list"
  ss_max_age :: time

definition NewSessionStore :: "time \<Rightarrow> session_store" where
  "NewSessionStore maxAge = \<lparr> ss_sessions = [], ss_max_age = maxAge \<rparr>"

definition CreateSession :: "bytes option \<Rightarrow> time \<Rightarrow> session_store \<Rightarrow> string option \<times> session_store" where
  "CreateSession random now ss = (case random of
      None \<Rightarrow> (None, ss)
    | Some b \<Rightarrow> (Some (hex_encode b), ss\<lparr>ss_sessions := AList.update (hex_encode b) (now + ss_max_age ss) (ss_sessions ss)\<rparr>))"

definition Invalidate_session :: "string \<Rightarrow> session_store \<Rightarrow> session_store" where
  "Invalidate_session i ss = ss\<lparr>ss_sessions := AList.delete i (ss_sessions ss)\<rparr>"

definition ValidSession :: "string \<Rightarrow> time \<Rightarrow> session_store \<Rightarrow> bool \<times> session_store" where
  "ValidSession i now ss = (case map_of (ss_sessions ss) i of
      None \<Rightarrow> (False, ss)
    | Some expiry \<Rightarrow> if now > expiry then (False, Invalidate_session i ss) else (True, ss))"

definition prune :: "time \<Rightarrow> session_store \<Rightarrow> session_store" where
  "prune now ss = ss\<lparr>ss_sessions := filter (\<lambda>(_, expiry). \<not> now > expiry) (ss_sessions ss)\<rparr>"

subsection \<open>Operator authentication\<close>

record request =
  rq_path :: string
  rq_authorization :: string
  rq_cookie :: "string option"
  rq_content_type :: string
  rq_accept :: string

datatype verdict = Served | Unauthorized | ToLogin

definition auth_exempt :: "string \<Rightarrow> bool" where
  "auth_exempt path \<longleftrightarrow> HasPrefix path ''/public/'' \<or> HasPrefix path ''/setup/'' \<or> HasPrefix path ''/mass.v1.worker.WorkerHub/''
     \<or> path = ''/login'' \<or> path = ''/metrics'' \<or> path = ''/health'' \<or> path = ''/ready'' \<or> path = ''/internal/daemon/ping''
     \<or> path = ''/internal/gui/channel''"

definition bearerToken :: "string \<Rightarrow> string" where
  "bearerToken header = (if \<not> HasPrefix header ''Bearer '' then '''' else drop (length ''Bearer '') header)"

definition api_request :: "request \<Rightarrow> bool" where
  "api_request r \<longleftrightarrow> Contains (rq_accept r) ''text/event-stream'' \<or> rq_content_type r = ''application/json''
     \<or> HasPrefix (rq_content_type r) ''application/connect'' \<or> HasPrefix (rq_content_type r) ''application/grpc''
     \<or> HasPrefix (rq_content_type r) ''application/proto''"

text \<open>The session cookie, when there is one and there is a store.\<close>

definition cookie_check :: "time \<Rightarrow> request \<Rightarrow> session_store option \<Rightarrow> bool \<times> session_store option" where
  "cookie_check now r sessions = (case (rq_cookie r, sessions) of
      (Some c, Some ss) \<Rightarrow> (case ValidSession c now ss of (ok, ss) \<Rightarrow> (ok, Some ss))
    | _ \<Rightarrow> (False, sessions))"

definition AuthMiddleware :: "(string \<Rightarrow> string \<Rightarrow> bool) \<Rightarrow> string \<Rightarrow> time \<Rightarrow> request \<Rightarrow> session_store option
    \<Rightarrow> verdict \<times> session_store option" where
  "AuthMiddleware cmp hash now r sessions =
     (if auth_exempt (rq_path r) then (Served, sessions)
      else if length hash = 0 then (Served, sessions)
      else
        let token = bearerToken (rq_authorization r) in
        if token \<noteq> '''' \<and> cmp hash token then (Served, sessions)
        else
          let (ok, sessions) = cookie_check now r sessions
          in if ok then (Served, sessions)
             else if api_request r then (Unauthorized, sessions)
             else (ToLogin, sessions))"

subsection \<open>Login and logout\<close>

record web_state =
  ws_hash :: string
  ws_sessions :: session_store

definition SetAuthHash :: "string \<Rightarrow> web_state \<Rightarrow> web_state" where
  "SetAuthHash hash w = w\<lparr>ws_hash := hash\<rparr>"

definition AuthDisabled :: "web_state \<Rightarrow> bool" where
  "AuthDisabled w \<longleftrightarrow> length (ws_hash w) = 0"

datatype login_outcome = InvalidToken | SessionError | LoggedIn string

definition handleLoginSubmit :: "(string \<Rightarrow> string \<Rightarrow> bool) \<Rightarrow> string \<Rightarrow> bytes option \<Rightarrow> time \<Rightarrow> web_state
    \<Rightarrow> login_outcome \<times> web_state" where
  "handleLoginSubmit cmp token random now w =
     (if length (ws_hash w) = 0 \<or> \<not> cmp (ws_hash w) token then (InvalidToken, w)
      else case CreateSession random now (ws_sessions w) of
          (None, ss) \<Rightarrow> (SessionError, w\<lparr>ws_sessions := ss\<rparr>)
        | (Some i, ss) \<Rightarrow> (LoggedIn i, w\<lparr>ws_sessions := ss\<rparr>))"

definition handleLogout :: "string option \<Rightarrow> web_state \<Rightarrow> web_state" where
  "handleLogout cookie w = (case cookie of None \<Rightarrow> w | Some c \<Rightarrow> w\<lparr>ws_sessions := Invalidate_session c (ws_sessions w)\<rparr>)"

datatype web_op = SetHash string | Login string "bytes option" time | Logout "string option" | Request request time | Prune time

fun web_step :: "(string \<Rightarrow> string \<Rightarrow> bool) \<Rightarrow> web_op \<Rightarrow> web_state \<Rightarrow> web_state" where
  "web_step cmp (SetHash h) w = SetAuthHash h w"
| "web_step cmp (Login token random now) w = snd (handleLoginSubmit cmp token random now w)"
| "web_step cmp (Logout c) w = handleLogout c w"
| "web_step cmp (Request r now) w = (case AuthMiddleware cmp (ws_hash w) now r (Some (ws_sessions w)) of
      (_, Some ss) \<Rightarrow> w\<lparr>ws_sessions := ss\<rparr> | (_, None) \<Rightarrow> w)"
| "web_step cmp (Prune now) w = w\<lparr>ws_sessions := prune now (ws_sessions w)\<rparr>"

text \<open>What a request needs to be served, and that the store only forgets what has expired.\<close>

definition admitted :: "(string \<Rightarrow> string \<Rightarrow> bool) \<Rightarrow> string \<Rightarrow> time \<Rightarrow> request \<Rightarrow> session_store option \<Rightarrow> bool" where
  "admitted cmp hash now r sessions \<longleftrightarrow> auth_exempt (rq_path r) \<or> hash = ''''
     \<or> (\<exists>token. token \<noteq> '''' \<and> rq_authorization r = ''Bearer '' @ token \<and> cmp hash token)
     \<or> (\<exists>c ss expiry. rq_cookie r = Some c \<and> sessions = Some ss \<and> map_of (ss_sessions ss) c = Some expiry \<and> now \<le> expiry)"

definition live_sessions :: "time \<Rightarrow> session_store \<Rightarrow> (string \<times> time) set" where
  "live_sessions now ss = {(i, expiry). map_of (ss_sessions ss) i = Some expiry \<and> now \<le> expiry}"

lemma HasPrefix_iff: "HasPrefix s p \<longleftrightarrow> (\<exists>rest. s = p @ rest)"
  unfolding HasPrefix_def by (metis append_eq_conv_conj append_take_drop_id)

lemma bearerToken_iff: "bearerToken header = token \<and> token \<noteq> '''' \<longleftrightarrow> header = ''Bearer '' @ token \<and> token \<noteq> ''''"
  by (auto simp: bearerToken_def HasPrefix_iff)

lemma ValidSession_live:
  "fst (ValidSession i now ss) \<longleftrightarrow> (\<exists>expiry. map_of (ss_sessions ss) i = Some expiry \<and> now \<le> expiry)"
  "live_sessions now (snd (ValidSession i now ss)) = live_sessions now ss"
  by (auto simp: ValidSession_def Invalidate_session_def live_sessions_def not_less split: option.splits if_splits)

lemma prune_live:
  assumes "distinct (keys (ss_sessions ss))" "now \<le> later"
  shows "live_sessions later (prune now ss) = live_sessions later ss"
  using assms by (force simp: live_sessions_def prune_def map_of_eq_Some_iff distinct_map_filter)

lemma CreateSession_live:
  assumes "0 \<le> ss_max_age ss"
  shows "live_sessions now (snd (CreateSession (Some b) now ss)) = live_sessions now ss - {hex_encode b} \<times> UNIV \<union> {(hex_encode b, now + ss_max_age ss)}"
  using assms by (auto simp: CreateSession_def live_sessions_def split: if_splits)

lemma cookie_check_ok:
  "fst (cookie_check now r sessions) \<longleftrightarrow>
     (\<exists>c ss expiry. rq_cookie r = Some c \<and> sessions = Some ss \<and> map_of (ss_sessions ss) c = Some expiry \<and> now \<le> expiry)"
  by (auto simp: cookie_check_def ValidSession_def split: option.splits)

lemma AuthMiddleware_served: "fst (AuthMiddleware cmp hash now r sessions) = Served \<longleftrightarrow> admitted cmp hash now r sessions"
proof -
  obtain ok ss where c: "cookie_check now r sessions = (ok, ss)" by (rule prod.exhaust)
  have ok: "ok \<longleftrightarrow> (\<exists>c ss expiry. rq_cookie r = Some c \<and> sessions = Some ss \<and> map_of (ss_sessions ss) c = Some expiry \<and> now \<le> expiry)"
    using cookie_check_ok [of now r sessions] c by simp
  define token where "token = bearerToken (rq_authorization r)"
  have t: "token \<noteq> '''' \<and> cmp hash token \<longleftrightarrow> (\<exists>token. token \<noteq> '''' \<and> rq_authorization r = ''Bearer '' @ token \<and> cmp hash token)"
  proof
    assume a: "token \<noteq> '''' \<and> cmp hash token"
    have "rq_authorization r = ''Bearer '' @ token"
      by (rule conjunct1 [OF bearerToken_iff [THEN iffD1]]) (use a in \<open>simp add: token_def\<close>)
    with a show "\<exists>token. token \<noteq> '''' \<and> rq_authorization r = ''Bearer '' @ token \<and> cmp hash token" by blast
  next
    assume "\<exists>token. token \<noteq> '''' \<and> rq_authorization r = ''Bearer '' @ token \<and> cmp hash token"
    then obtain tk where tk: "tk \<noteq> ''''" "rq_authorization r = ''Bearer '' @ tk" "cmp hash tk" by (elim exE conjE)
    have "bearerToken (rq_authorization r) = tk"
      by (rule conjunct1 [OF bearerToken_iff [THEN iffD2]]) (use tk in simp)
    with tk show "token \<noteq> '''' \<and> cmp hash token" by (simp add: token_def)
  qed
  have "AuthMiddleware cmp hash now r sessions =
      (if auth_exempt (rq_path r) \<or> length hash = 0 \<or> token \<noteq> '''' \<and> cmp hash token then (Served, sessions)
       else (if ok then Served else if api_request r then Unauthorized else ToLogin, ss))"
    by (simp add: AuthMiddleware_def Let_def c token_def)
  then show ?thesis unfolding admitted_def t [symmetric] ok [symmetric] by simp
qed

lemma cookie_check_live: "cookie_check now r (Some ss) = (ok, ss') \<Longrightarrow> \<exists>s. ss' = Some s
    \<and> set (ss_sessions s) \<subseteq> set (ss_sessions ss) \<and> ss_max_age s = ss_max_age ss
    \<and> (distinct (keys (ss_sessions ss)) \<longrightarrow> distinct (keys (ss_sessions s)))"
  by (auto simp: cookie_check_def ValidSession_def Invalidate_session_def set_AList_delete distinct_delete split: option.splits if_splits)

text \<open>The logins a stored session comes from: the token was the operator's at the time, and nothing logged it out
  since.\<close>

fun logged_in :: "(string \<Rightarrow> string \<Rightarrow> bool) \<Rightarrow> time \<Rightarrow> web_op list \<Rightarrow> web_state \<Rightarrow> (string \<times> time) set" where
  "logged_in cmp maxAge [] w = {}"
| "logged_in cmp maxAge (op # ops) w = logged_in cmp maxAge ops (web_step cmp op w)
     \<union> (case op of Login token (Some b) now \<Rightarrow>
          (if ws_hash w \<noteq> '''' \<and> cmp (ws_hash w) token \<and> Logout (Some (hex_encode b)) \<notin> set ops then {(hex_encode b, now + maxAge)} else {})
        | _ \<Rightarrow> {})"

definition web_ok :: "time \<Rightarrow> (string \<times> time) set \<Rightarrow> web_state \<Rightarrow> bool" where
  "web_ok maxAge S w \<longleftrightarrow> distinct (keys (ss_sessions (ws_sessions w))) \<and> ss_max_age (ws_sessions w) = maxAge
     \<and> set (ss_sessions (ws_sessions w)) \<subseteq> S"

lemma web_step_sessions:
  assumes "web_ok maxAge S w"
  shows "web_ok maxAge ((case op of Logout (Some c) \<Rightarrow> S - {c} \<times> UNIV | _ \<Rightarrow> S)
     \<union> (case op of Login token (Some b) now \<Rightarrow> if ws_hash w \<noteq> '''' \<and> cmp (ws_hash w) token then {(hex_encode b, now + maxAge)} else {} | _ \<Rightarrow> {}))
     (web_step cmp op w)"
proof (cases op)
  case (Login token random now)
  show ?thesis
  proof (cases random)
    case (Some b)
    then show ?thesis using assms Login
      by (auto simp: web_ok_def handleLoginSubmit_def CreateSession_def in_AList_update distinct_update split: if_splits)
  qed (use assms Login in \<open>auto simp: web_ok_def handleLoginSubmit_def CreateSession_def\<close>)
next
  case (Request r now)
  obtain ok ss where c: "cookie_check now r (Some (ws_sessions w)) = (ok, ss)" by (rule prod.exhaust)
  from cookie_check_live [OF c] obtain s where s: "ss = Some s" "set (ss_sessions s) \<subseteq> set (ss_sessions (ws_sessions w))"
    "ss_max_age s = ss_max_age (ws_sessions w)" "distinct (keys (ss_sessions (ws_sessions w))) \<longrightarrow> distinct (keys (ss_sessions s))" by blast
  have "snd (AuthMiddleware cmp (ws_hash w) now r (Some (ws_sessions w))) \<in> {Some (ws_sessions w), Some s}"
    by (simp add: AuthMiddleware_def Let_def c s)
  then show ?thesis using assms Request s by (auto simp: web_ok_def split: prod.splits)
qed (use assms in \<open>auto simp: web_ok_def SetAuthHash_def handleLogout_def Invalidate_session_def set_AList_delete distinct_delete
    prune_def distinct_map_filter split: option.splits\<close>)

lemma web_run_sessions:
  assumes "web_ok maxAge S w"
  shows "web_ok maxAge ({(i, e) \<in> S. Logout (Some i) \<notin> set ops} \<union> logged_in cmp maxAge ops w) (fold (web_step cmp) ops w)"
  using assms
proof (induction ops arbitrary: w S)
  case Nil
  then show ?case by (auto simp: web_ok_def)
next
  case (Cons op ops)
  note step = Cons.IH [OF web_step_sessions [OF Cons.prems, of op cmp]]
  then show ?case unfolding web_ok_def
    by (fastforce split: web_op.splits option.splits if_splits)
qed

text \<open>C23. With an operator token configured, a request outside the public paths is served exactly when it carries the
  token or the cookie of a live session; and after any history of token changes, logins, logouts, requests and
  prunings from an empty store, every live session was opened by a login with the token of its time, within the
  maximal age, and has not been logged out since. A login or logout takes effect at once.\<close>

theorem dashboard_access:
  "let w0 = \<lparr> ws_hash = h, ws_sessions = NewSessionStore maxAge \<rparr>; w = fold (web_step cmp) ops w0 in
     (fst (AuthMiddleware cmp (ws_hash w) now r (Some (ws_sessions w))) = Served
        \<longleftrightarrow> admitted cmp (ws_hash w) now r (Some (ws_sessions w)))
   \<and> live_sessions now (ws_sessions w) \<subseteq> {(i, expiry) \<in> logged_in cmp maxAge ops w0. now \<le> expiry}
   \<and> live_sessions now (ws_sessions (handleLogout (Some i) w)) = live_sessions now (ws_sessions w) - {i} \<times> UNIV"
proof -
  let ?start = "\<lparr> ws_hash = h, ws_sessions = NewSessionStore maxAge \<rparr>"
  let ?w = "fold (web_step cmp) ops ?start"
  have "web_ok maxAge {} ?start" by (simp add: web_ok_def NewSessionStore_def)
  from web_run_sessions [OF this, of ops cmp] have "set (ss_sessions (ws_sessions ?w)) \<subseteq> logged_in cmp maxAge ops ?start"
    by (simp add: web_ok_def)
  then have "live_sessions now (ws_sessions ?w) \<subseteq> {(i, expiry) \<in> logged_in cmp maxAge ops ?start. now \<le> expiry}"
    by (auto simp: live_sessions_def dest: map_of_SomeD)
  moreover have "live_sessions now (ws_sessions (handleLogout (Some i) ?w)) = live_sessions now (ws_sessions ?w) - {i} \<times> UNIV"
    by (auto simp: handleLogout_def live_sessions_def Invalidate_session_def split: if_splits)
  ultimately show ?thesis by (simp add: Let_def AuthMiddleware_served)
qed

text \<open>Changing the operator token does not end the sessions opened with the old one.\<close>

lemma token_change_keeps_sessions: "live_sessions now (ws_sessions (SetAuthHash h w)) = live_sessions now (ws_sessions w)"
  by (simp add: SetAuthHash_def)

end
