(* ===== verification/Web_Lifetime.thy ===== *)
theory Web_Lifetime
  imports Web_Gates
begin

text \<open>
  The daemon's own lifetime and small concurrent parts of the web layer: the idle tracker of an on-demand daemon
  (\<open>internal/web/idle.go\<close>), the artifact cache behind the installer proxy (\<open>artifactcache.go\<close>), the event broker
  (\<open>broker.go\<close>) and the jitter of periodic work (\<open>internal/jitter\<close>).
\<close>

subsection \<open>The idle tracker\<close>

text \<open>\<open>it_timer\<close> is the deadline of the armed timer.\<close>

record idle_tracker =
  it_timeout :: time
  it_timer :: "time option"
  it_fired :: bool
  it_in_flight :: int

definition NewIdleTracker :: "time \<Rightarrow> time \<Rightarrow> idle_tracker" where
  "NewIdleTracker timeout now = \<lparr> it_timeout = timeout, it_timer = Some (now + timeout), it_fired = False, it_in_flight = 0 \<rparr>"

definition idleExempt :: "string \<Rightarrow> bool" where
  "idleExempt path \<longleftrightarrow> HasPrefix path ''/mass.v1.worker.WorkerHub/'' \<or> path = ''/health'' \<or> path = ''/ready''
     \<or> path = ''/metrics'' \<or> path = ''/internal/daemon/ping''"

definition idle_begin :: "'a idle_tracker_scheme \<Rightarrow> 'a idle_tracker_scheme" where
  "idle_begin t = (if it_fired t then t else t\<lparr>it_in_flight := it_in_flight t + 1, it_timer := None\<rparr>)"

definition idle_end :: "time \<Rightarrow> 'a idle_tracker_scheme \<Rightarrow> 'a idle_tracker_scheme" where
  "idle_end now t = (if it_fired t then t
     else let t = t\<lparr>it_in_flight := it_in_flight t - 1\<rparr>
       in if it_in_flight t = 0 then t\<lparr>it_timer := Some (now + it_timeout t)\<rparr> else t)"

text \<open>The timer's callback: whether it calls \<open>onIdle\<close>.\<close>

definition idle_fire :: "time \<Rightarrow> bool \<Rightarrow> 'a idle_tracker_scheme \<Rightarrow> bool \<times> 'a idle_tracker_scheme" where
  "idle_fire now busy t = (if it_fired t \<or> it_in_flight t > 0 then (False, t)
     else if busy then (False, t\<lparr>it_timer := Some (now + it_timeout t)\<rparr>)
     else (True, t\<lparr>it_fired := True\<rparr>))"

definition idle_stop :: "'a idle_tracker_scheme \<Rightarrow> 'a idle_tracker_scheme" where
  "idle_stop t = t\<lparr>it_fired := True, it_timer := None\<rparr>"

text \<open>The daemon around it: the clock, the callbacks that have started but not taken the lock, the client requests being
  served, and what each call of \<open>onIdle\<close> found: the open requests and whether work was going on.\<close>

record idle_world = idle_tracker +
  iw_now :: time
  iw_due :: nat
  iw_open :: nat
  iw_idle :: "(nat \<times> bool) list"

datatype idle_op = Begin string | End | Elapse nat | RunFire bool | StopTracker

definition start_daemon :: "time \<Rightarrow> time \<Rightarrow> idle_world" where
  "start_daemon timeout now = idle_tracker.extend (NewIdleTracker timeout now) \<lparr> iw_now = now, iw_due = 0, iw_open = 0, iw_idle = [] \<rparr>"

fun idle_step :: "idle_op \<Rightarrow> idle_world \<Rightarrow> idle_world" where
  "idle_step (Begin path) w = (if idleExempt path then w else idle_begin (w\<lparr>iw_open := iw_open w + 1\<rparr>))"
| "idle_step End w = (if iw_open w = 0 then w else idle_end (iw_now w) (w\<lparr>iw_open := iw_open w - 1\<rparr>))"
| "idle_step (Elapse d) w = (let now = iw_now w + int d in
     case it_timer w of
       Some deadline \<Rightarrow> if deadline \<le> now then w\<lparr>iw_now := now, it_timer := None, iw_due := iw_due w + 1\<rparr> else w\<lparr>iw_now := now\<rparr>
     | None \<Rightarrow> w\<lparr>iw_now := now\<rparr>)"
| "idle_step (RunFire busy) w = (if iw_due w = 0 then w
     else case idle_fire (iw_now w) busy (w\<lparr>iw_due := iw_due w - 1\<rparr>) of
       (True, w') \<Rightarrow> w'\<lparr>iw_idle := iw_idle w' @ [(iw_open w, busy)]\<rparr> | (False, w') \<Rightarrow> w')"
| "idle_step StopTracker w = idle_stop w"

definition idle_ok :: "time \<Rightarrow> idle_world \<Rightarrow> bool" where
  "idle_ok timeout w \<longleftrightarrow> it_timeout w = timeout
     \<and> (if it_fired w then iw_idle w = [] \<or> iw_idle w = [(0, False)]
        else iw_idle w = [] \<and> it_in_flight w = int (iw_open w)
          \<and> (case it_timer w of Some t \<Rightarrow> t \<le> iw_now w + timeout | None \<Rightarrow> iw_open w > 0 \<or> iw_due w > 0)
          \<and> (iw_open w > 0 \<longrightarrow> it_timer w = None))"

lemma start_daemon_ok: "idle_ok timeout (start_daemon timeout now)"
  by (simp add: idle_ok_def start_daemon_def NewIdleTracker_def idle_tracker.defs)

lemma idle_step_ok:
  assumes "idle_ok timeout w"
  shows "idle_ok timeout (idle_step op w)"
proof (cases op)
  case End
  with assms show ?thesis by (auto simp: idle_ok_def idle_end_def Let_def split: if_splits option.splits)
next
  case (RunFire busy)
  with assms show ?thesis by (auto simp: idle_ok_def idle_fire_def split: if_splits option.splits)
qed (use assms in \<open>auto simp: idle_ok_def idle_begin_def idle_stop_def Let_def split: if_splits option.splits\<close>)

definition idle_run :: "idle_op list \<Rightarrow> idle_world \<Rightarrow> idle_world" where
  "idle_run ops w = fold idle_step ops w"

lemma idle_run_ok: "idle_ok timeout w \<Longrightarrow> idle_ok timeout (idle_run ops w)"
  by (induction ops arbitrary: w) (simp_all add: idle_run_def idle_step_ok)

lemma idle_expires:
  assumes "idle_ok timeout w" "iw_open w = 0"
  shows "it_fired (idle_run [Elapse (nat timeout), RunFire False] w)"
  using assms by (auto simp: idle_run_def idle_ok_def idle_fire_def Let_def split: if_splits option.splits)

text \<open>C40. An on-demand daemon asks to be shut down at most once, and only when no client request is open and no
  background work is reported; until then its counter is the number of open client requests; and with none open, an
  idle window without work is enough to shut it down, whatever came before.\<close>

theorem idle_shutdown:
  "let w = idle_run ops (start_daemon timeout now) in
     iw_idle w \<in> {[], [(0, False)]}
   \<and> (it_fired w \<or> it_in_flight w = int (iw_open w))
   \<and> (iw_open w > 0 \<or> it_fired (idle_run [Elapse (nat timeout), RunFire False] w))"
proof -
  have ok: "idle_ok timeout (idle_run ops (start_daemon timeout now))" by (rule idle_run_ok [OF start_daemon_ok])
  then show ?thesis using idle_expires [OF ok] by (auto simp: Let_def idle_ok_def split: if_splits)
qed

text \<open>A callback that has started when a request arrives is not stopped with the timer: it shuts the daemon down as soon
  as the request has ended, with the window just restarted.\<close>

lemma late_callback_fires:
  "let w = idle_run [Elapse 10, Begin ''/'', End, RunFire False] (start_daemon 10 0)
   in iw_idle w = [(0, False)] \<and> it_timer w = Some (iw_now w + it_timeout w)"
  by code_simp

subsection \<open>The artifact cache\<close>

datatype artifact_error = NoDigest | StatFailed | DownloadFailed | CtxDone

text \<open>A fetch is its digest and a serial number. A caller of \<open>ensure\<close>: past its stat of the file, waiting for another's fetch, fetching, or returned.\<close>

datatype caller = Probing string | Joined string nat | Fetching string nat | Returned "artifact_error + string"

record artifact_cache =
  ac_files :: "string list"
  ac_inflight :: "(string \<times> nat) list"
  ac_results :: "((string \<times> nat) \<times> (artifact_error + unit)) list"
  ac_callers :: "caller list"
  ac_next :: nat

datatype stat_result = Present | Missing | StatError

definition ensure_begin :: "string \<Rightarrow> bool \<Rightarrow> artifact_cache \<Rightarrow> artifact_cache" where
  "ensure_begin digest stat_error c = c\<lparr>ac_callers := ac_callers c @
     [if digest = '''' then Returned (Inl NoDigest)
      else if stat_error then Returned (Inl StatFailed)
      else if digest \<in> set (ac_files c) then Returned (Inr digest)
      else Probing digest]\<rparr>"

definition ensure_join :: "nat \<Rightarrow> string \<Rightarrow> artifact_cache \<Rightarrow> artifact_cache" where
  "ensure_join i digest c = (case map_of (ac_inflight c) digest of
      Some f \<Rightarrow> c\<lparr>ac_callers := (ac_callers c)[i := Joined digest f]\<rparr>
    | None \<Rightarrow> c\<lparr>ac_callers := (ac_callers c)[i := Fetching digest (ac_next c)],
                ac_inflight := AList.update digest (ac_next c) (ac_inflight c), ac_next := ac_next c + 1\<rparr>)"

text \<open>The registry's download verifies the digest before it puts the file in place.\<close>

definition fetch_end :: "nat \<Rightarrow> string \<Rightarrow> nat \<Rightarrow> bool \<Rightarrow> artifact_cache \<Rightarrow> artifact_cache" where
  "fetch_end i digest f ok c = (let res = (if ok then Inr () else Inl DownloadFailed) in
     c\<lparr>ac_files := (if ok then List.insert digest (ac_files c) else ac_files c),
       ac_inflight := AList.delete digest (ac_inflight c), ac_results := ((digest, f), res) # ac_results c,
       ac_callers := (ac_callers c)[i := Returned (case res of Inr _ \<Rightarrow> Inr digest | Inl e \<Rightarrow> Inl e)]\<rparr>)"

definition wait_end :: "nat \<Rightarrow> string \<Rightarrow> nat \<Rightarrow> bool \<Rightarrow> artifact_cache \<Rightarrow> artifact_cache" where
  "wait_end i digest f cancelled c = (case map_of (ac_results c) (digest, f) of
      Some res \<Rightarrow> c\<lparr>ac_callers := (ac_callers c)[i := Returned (case res of Inr _ \<Rightarrow> Inr digest | Inl e \<Rightarrow> Inl e)]\<rparr>
    | None \<Rightarrow> if cancelled then c\<lparr>ac_callers := (ac_callers c)[i := Returned (Inl CtxDone)]\<rparr> else c)"

datatype artifact_op = Ensure string bool | Proceed nat bool

definition artifact_step :: "artifact_op \<Rightarrow> artifact_cache \<Rightarrow> artifact_cache" where
  "artifact_step op c = (case op of
      Ensure digest stat_error \<Rightarrow> ensure_begin digest stat_error c
    | Proceed i flag \<Rightarrow>
        if i \<ge> length (ac_callers c) then c
        else case ac_callers c ! i of
            Probing digest \<Rightarrow> ensure_join i digest c
          | Joined digest f \<Rightarrow> wait_end i digest f flag c
          | Fetching digest f \<Rightarrow> fetch_end i digest f flag c
          | Returned r \<Rightarrow> c)"

definition artifact_ok :: "artifact_cache \<Rightarrow> bool" where
  "artifact_ok c \<longleftrightarrow>
     (\<forall>digest. Returned (Inr digest) \<in> set (ac_callers c) \<longrightarrow> digest \<in> set (ac_files c))
   \<and> (\<forall>digest f. map_of (ac_results c) (digest, f) = Some (Inr ()) \<longrightarrow> digest \<in> set (ac_files c))
   \<and> (\<forall>digest f. map_of (ac_inflight c) digest = Some f \<longrightarrow> f < ac_next c)
   \<and> (\<forall>i < length (ac_callers c). \<forall>digest f. ac_callers c ! i = Fetching digest f \<longrightarrow> map_of (ac_inflight c) digest = Some f)
   \<and> (\<forall>i < length (ac_callers c). \<forall>j < length (ac_callers c). \<forall>digest f.
        ac_callers c ! i = Fetching digest f \<longrightarrow> ac_callers c ! j = Fetching digest f \<longrightarrow> i = j)"

lemma returned_update:
  "Returned r \<in> set (xs[i := x]) \<Longrightarrow> Returned r \<in> set xs \<or> x = Returned r"
  by (auto dest: set_update_subset_insert [THEN subsetD])

lemma ensure_begin_ok: "artifact_ok c \<Longrightarrow> artifact_ok (ensure_begin digest err c)"
  unfolding artifact_ok_def ensure_begin_def by (simp add: nth_append less_Suc_eq)

lemma ensure_join_ok:
  assumes ok: "artifact_ok c" and i: "i < length (ac_callers c)" "ac_callers c ! i = Probing digest"
  shows "artifact_ok (ensure_join i digest c)"
proof (cases "map_of (ac_inflight c) digest")
  case (Some f)
  with ok i show ?thesis unfolding artifact_ok_def ensure_join_def by (auto simp: nth_list_update dest!: returned_update)
next
  case None
  have "digest' \<noteq> digest" if "j < length (ac_callers c)" "ac_callers c ! j = Fetching digest' f" for j digest' f
    using ok None that unfolding artifact_ok_def by fastforce
  with ok i None show ?thesis unfolding artifact_ok_def ensure_join_def
    by (auto simp: nth_list_update less_Suc_eq dest!: returned_update split: if_splits)
qed

lemma fetch_end_ok:
  assumes ok: "artifact_ok c" and i: "i < length (ac_callers c)" "ac_callers c ! i = Fetching digest f"
  shows "artifact_ok (fetch_end i digest f good c)"
proof -
  have inf: "map_of (ac_inflight c) digest = Some f" using ok i by (simp add: artifact_ok_def)
  have other: "digest' \<noteq> digest" if "j < length (ac_callers c)" "ac_callers c ! j = Fetching digest' f'" "j \<noteq> i" for j digest' f'
  proof
    assume "digest' = digest"
    with that(1,2) ok inf have "f' = f" by (simp add: artifact_ok_def)
    with that i ok \<open>digest' = digest\<close> show False unfolding artifact_ok_def by blast
  qed
  show ?thesis using ok i other unfolding artifact_ok_def fetch_end_def Let_def
    by (auto simp: nth_list_update dest!: returned_update split: if_splits)
qed

lemma wait_end_ok:
  assumes ok: "artifact_ok c" and i: "i < length (ac_callers c)" "ac_callers c ! i = Joined digest f"
  shows "artifact_ok (wait_end i digest f flag c)"
  using ok i unfolding artifact_ok_def wait_end_def
  by (auto simp: nth_list_update dest!: returned_update split: option.splits sum.splits)

text \<open>At every moment at most one caller fetches a digest, and a caller that is given a path finds the verified file
  there.\<close>

lemma artifact_single_flight: "artifact_ok c \<Longrightarrow> artifact_ok (artifact_step op c)"
  by (auto simp: artifact_step_def ensure_begin_ok ensure_join_ok fetch_end_ok wait_end_ok split: artifact_op.splits caller.splits)

text \<open>A caller that probed before the first fetch ended and asks for the lock after it fetches the file again.\<close>

lemma late_prober_fetches_again:
  "let c = fold artifact_step [Ensure ''d'' False, Ensure ''d'' False, Proceed 0 True, Proceed 0 True, Proceed 1 True]
       \<lparr> ac_files = [], ac_inflight = [], ac_results = [], ac_callers = [], ac_next = 0 \<rparr>
   in ac_files c = [''d''] \<and> ac_callers c = [Returned (Inr ''d''), Fetching ''d'' 1]"
  by code_simp

subsection \<open>The broker\<close>

definition broker_buffer :: nat where "broker_buffer = 16"

definition Broker_Subscribe :: "nat \<Rightarrow> (nat \<times> 'e list) list \<Rightarrow> (nat \<times> 'e list) list" where
  "Broker_Subscribe ch b = AList.update ch [] b"

definition Broker_Unsubscribe :: "nat \<Rightarrow> (nat \<times> 'e list) list \<Rightarrow> (nat \<times> 'e list) list" where
  "Broker_Unsubscribe ch b = AList.delete ch b"

definition Broker_Broadcast :: "'e \<Rightarrow> (nat \<times> 'e list) list \<Rightarrow> (nat \<times> 'e list) list" where
  "Broker_Broadcast e b = map (\<lambda>(ch, es). (ch, if length es < broker_buffer then es @ [e] else es)) b"

text \<open>A slow subscriber loses new events, not old ones, and costs the others nothing.\<close>

lemma broadcast_delivers:
  "map_of (Broker_Broadcast e b) ch = map_option (\<lambda>es. if length es < broker_buffer then es @ [e] else es) (map_of b ch)"
  by (induction b) (auto simp: Broker_Broadcast_def)

subsection \<open>Jitter\<close>

text \<open>\<open>r\<close> is the random draw, below twice the spread.\<close>

definition jitter_duration :: "int \<Rightarrow> rat \<Rightarrow> int \<Rightarrow> int" where
  "jitter_duration d fr r = (let x = of_int d * fr; spread = (if 0 \<le> x then \<lfloor>x\<rfloor> else \<lceil>x\<rceil>)
     in if d \<le> 0 \<or> spread \<le> 0 then d else d - spread + r)"

lemma jitter_duration_bounds:
  assumes "0 \<le> fr" "fr \<le> 1" "0 \<le> r" "r < 2 * \<lfloor>of_int d * fr\<rfloor> \<or> d \<le> 0 \<or> \<lfloor>of_int d * fr\<rfloor> \<le> 0"
  shows "\<bar>jitter_duration d fr r - d\<bar> \<le> max 0 \<lfloor>of_int d * fr\<rfloor>" "0 < d \<Longrightarrow> 0 \<le> jitter_duration d fr r"
proof -
  have "\<lfloor>of_int d * fr\<rfloor> \<le> d" if "0 < d"
  proof -
    have "of_int d * fr \<le> of_int d" using that assms(2) mult_left_mono [of fr 1 "of_int d :: rat"] by simp
    then show ?thesis by linarith
  qed
  moreover have "0 \<le> of_int d * fr" if "0 < d" using that assms(1) by simp
  ultimately show "\<bar>jitter_duration d fr r - d\<bar> \<le> max 0 \<lfloor>of_int d * fr\<rfloor>" "0 < d \<Longrightarrow> 0 \<le> jitter_duration d fr r"
    using assms(3,4) by (auto simp: jitter_duration_def Let_def)
qed

end
