(* ===== verification/Compat.thy ===== *)
theory Compat
  imports Mass_Prelude
begin

text \<open>
  Index-level worker compatibility (\<open>internal/web/compat.go\<close>): whether a worker's version may pair with the installed
  runtime and this server, and how many connected workers an upgrade would strand.

  The semver library and the registry's index are not part of the repository: they are the record \<open>semver\<close> of
  parsers and tests, and the rows \<open>WorkerPackagesFor\<close> returns. Messages are not modelled; a rejection carries which
  half of the row excluded the worker.
\<close>

record ('v, 'c) semver =
  sv_version :: "string \<Rightarrow> 'v option"
  sv_constraint :: "string \<Rightarrow> 'c option"
  sv_prerelease :: "'v \<Rightarrow> bool"
  sv_equal :: "'v \<Rightarrow> 'v \<Rightarrow> bool"
  sv_check :: "'c \<Rightarrow> 'v \<Rightarrow> bool"

record version_row =
  vr_version :: string
  vr_runtime :: string
  vr_mass :: string

text \<open>The worker packages of a runtime, each with its version rows.\<close>

type_synonym index = "runtime_name \<Rightarrow> version_row list list"

datatype compat_half = RuntimeHalf | MassHalf

datatype inconclusive = BadConstraint | BadVersion | DevBuild

datatype accept_reason = Conclusive | Skipped "(compat_half \<times> inconclusive) list" | WorkerNotSemver | NoRow | NoRuntimesManager
  | RuntimeNotInstalled | NoCachedIndex | IndexUnusable

definition admits :: "('v, 'c) semver \<Rightarrow> string \<Rightarrow> string \<Rightarrow> inconclusive + bool" where
  "admits sv rangeExpr version =
     (if rangeExpr = '''' then Inr True
      else case sv_constraint sv rangeExpr of
          None \<Rightarrow> Inl BadConstraint
        | Some c \<Rightarrow> (case sv_version sv version of
              None \<Rightarrow> Inl BadVersion
            | Some v \<Rightarrow> if sv_prerelease sv v then Inl DevBuild else Inr (sv_check sv c v)))"

fun check_halves :: "('v, 'c) semver \<Rightarrow> (compat_half \<times> string \<times> string) list \<Rightarrow> (compat_half \<times> inconclusive) list
    \<Rightarrow> compat_half + (compat_half \<times> inconclusive) list" where
  "check_halves sv [] reasons = Inr reasons"
| "check_halves sv ((what, rangeExpr, version) # cs) reasons = (case admits sv rangeExpr version of
      Inl reason \<Rightarrow> check_halves sv cs (reasons @ [(what, reason)])
    | Inr ok \<Rightarrow> if \<not> ok then Inl what else check_halves sv cs reasons)"

definition checkWorkerRow :: "('v, 'c) semver \<Rightarrow> version_row \<Rightarrow> string \<Rightarrow> string
    \<Rightarrow> compat_half + (compat_half \<times> inconclusive) list" where
  "checkWorkerRow sv row runtimeVersion massVersion =
     check_halves sv [(RuntimeHalf, vr_runtime row, runtimeVersion), (MassHalf, vr_mass row, massVersion)] []"

definition workerVersionRows :: "('v, 'c) semver \<Rightarrow> index \<Rightarrow> runtime_name \<Rightarrow> 'v \<Rightarrow> version_row list" where
  "workerVersionRows sv idx runtime want = filter (\<lambda>row. case sv_version sv (vr_version row) of
      None \<Rightarrow> False | Some v \<Rightarrow> sv_equal sv v want) (concat (idx runtime))"

fun check_rows :: "('v, 'c) semver \<Rightarrow> string \<Rightarrow> string \<Rightarrow> version_row list \<Rightarrow> compat_half option
    \<Rightarrow> compat_half option + (compat_half \<times> inconclusive) list" where
  "check_rows sv runtimeVersion massVersion [] firstErr = Inl firstErr"
| "check_rows sv runtimeVersion massVersion (row # rows) firstErr = (case checkWorkerRow sv row runtimeVersion massVersion of
      Inr reasons \<Rightarrow> Inr reasons
    | Inl e \<Rightarrow> check_rows sv runtimeVersion massVersion rows (if firstErr = None then Some e else firstErr))"

definition checkWorkerIndexCompat :: "('v, 'c) semver \<Rightarrow> index \<Rightarrow> runtime_name \<Rightarrow> string \<Rightarrow> string \<Rightarrow> string
    \<Rightarrow> compat_half option + accept_reason" where
  "checkWorkerIndexCompat sv idx runtime workerVersion runtimeVersion massVersion = (case sv_version sv workerVersion of
      None \<Rightarrow> Inr WorkerNotSemver
    | Some wv \<Rightarrow>
        let vrows = workerVersionRows sv idx runtime wv in
        if length vrows = 0 then Inr NoRow
        else case check_rows sv runtimeVersion massVersion vrows None of
            Inl e \<Rightarrow> Inl e
          | Inr reasons \<Rightarrow> Inr (if reasons = [] then Conclusive else Skipped reasons))"

datatype cached_index = CacheError bool | Cached index

text \<open>\<open>installed\<close> is the installed runtime's version; \<open>CacheError True\<close> is the error of a cache that was never filled.\<close>

definition CheckWorkerCompat :: "('v, 'c) semver \<Rightarrow> bool \<Rightarrow> string option \<Rightarrow> cached_index \<Rightarrow> runtime_name \<Rightarrow> string \<Rightarrow> string
    \<Rightarrow> compat_half option + accept_reason" where
  "CheckWorkerCompat sv has_runtimes installed cache runtime workerVersion massVersion =
     (if \<not> has_runtimes then Inr NoRuntimesManager
      else case installed of
          None \<Rightarrow> Inr RuntimeNotInstalled
        | Some runtimeVersion \<Rightarrow> (case cache of
              CacheError no_cache \<Rightarrow> Inr (if no_cache then NoCachedIndex else IndexUnusable)
            | Cached idx \<Rightarrow> checkWorkerIndexCompat sv idx runtime workerVersion runtimeVersion massVersion))"

record pairing =
  wp_runtime :: runtime_name
  wp_version :: string

fun stranded :: "('v, 'c) semver \<Rightarrow> version_row list \<Rightarrow> string \<Rightarrow> bool" where
  "stranded sv [] candidate = True"
| "stranded sv (row # rows) candidate = (case admits sv (vr_runtime row) candidate of
      Inl reason \<Rightarrow> False | Inr ok \<Rightarrow> if ok then False else stranded sv rows candidate)"

definition counts :: "('v, 'c) semver \<Rightarrow> index \<Rightarrow> runtime_name \<Rightarrow> string \<Rightarrow> pairing \<Rightarrow> bool" where
  "counts sv idx runtime candidate w =
     (if wp_runtime w \<noteq> runtime then False
      else case sv_version sv (wp_version w) of
          None \<Rightarrow> False
        | Some wv \<Rightarrow> (let vrows = workerVersionRows sv idx runtime wv in length vrows \<noteq> 0 \<and> stranded sv vrows candidate))"

definition countIncompatibleWorkers :: "('v, 'c) semver \<Rightarrow> index \<Rightarrow> pairing list \<Rightarrow> runtime_name \<Rightarrow> string \<Rightarrow> nat" where
  "countIncompatibleWorkers sv idx workers runtime candidate = length (filter (counts sv idx runtime candidate) workers)"

subsection \<open>What a rejection means\<close>

text \<open>A half excludes a version when both can be read, the version is a release, and the range does not cover it.\<close>

definition excludes :: "('v, 'c) semver \<Rightarrow> string \<Rightarrow> string \<Rightarrow> bool" where
  "excludes sv rangeExpr version \<longleftrightarrow> rangeExpr \<noteq> '''' \<and> (\<exists>c v. sv_constraint sv rangeExpr = Some c \<and> sv_version sv version = Some v
     \<and> \<not> sv_prerelease sv v \<and> \<not> sv_check sv c v)"

lemma admits_excludes: "admits sv rangeExpr version = Inr False \<longleftrightarrow> excludes sv rangeExpr version"
  by (auto simp: admits_def excludes_def split: option.splits)

lemma row_rejected:
  "(\<exists>e. checkWorkerRow sv row rv mv = Inl e) \<longleftrightarrow> excludes sv (vr_runtime row) rv \<or> excludes sv (vr_mass row) mv"
  by (auto simp: checkWorkerRow_def admits_excludes [symmetric] split: sum.splits)

lemma check_vrowsrejects:
  "(\<exists>e. check_rows sv rv mv vrows err = Inl e) \<longleftrightarrow> (\<forall>row \<in> set vrows. \<exists>e. checkWorkerRow sv row rv mv = Inl e)"
  by (induction vrows arbitrary: err) (auto split: sum.splits)

lemma stranded_iff: "stranded sv vrows candidate \<longleftrightarrow> (\<forall>row \<in> set vrows. excludes sv (vr_runtime row) candidate)"
  by (induction vrows) (auto simp: admits_excludes [symmetric] split: sum.splits)

text \<open>A worker is rejected exactly when its version parses, the index has rows for it, and every one of them has a half
  that definitely excludes this server or the installed runtime; data the index got wrong never rejects.\<close>

lemma worker_rejected_iff:
  "(\<exists>e. checkWorkerIndexCompat sv idx runtime workerVersion rv mv = Inl e) \<longleftrightarrow>
     (\<exists>wv. sv_version sv workerVersion = Some wv \<and> workerVersionRows sv idx runtime wv \<noteq> []
        \<and> (\<forall>row \<in> set (workerVersionRows sv idx runtime wv). excludes sv (vr_runtime row) rv \<or> excludes sv (vr_mass row) mv))"
  unfolding row_rejected [symmetric] check_vrowsrejects [symmetric, where err = None]
  by (auto simp: checkWorkerIndexCompat_def Let_def split: option.splits sum.splits)

text \<open>The upgrade warning never counts a worker the hub would still accept after the upgrade.\<close>

lemma counted_worker_rejected:
  assumes "counts sv idx runtime candidate w"
  shows "\<exists>e. CheckWorkerCompat sv True (Some candidate) (Cached idx) runtime (wp_version w) massVersion = Inl e"
  using assms unfolding CheckWorkerCompat_def
  by (simp add: worker_rejected_iff counts_def stranded_iff Let_def split: if_splits option.splits)

end
