(* ===== verification/Runtimes.thy ===== *)
theory Runtimes
  imports Paths Database
begin

text \<open>
  The runtime manager (\<open>internal/runtimes/runtimes.go\<close>, the launch in \<open>gateway.go\<close>) over the runtimes table
  (\<open>internal/store/runtimes.go\<close>): installing a package, the gateways that run, uninstalling.

  Files are a map from component lists to contents, directories are implicit, the host is a Unix one. The YAML parser
  is the argument \<open>yaml\<close>; what the gateway subprocess answers to its launch is an argument of the start. Version,
  scheduler and download wiring passed to the subprocess are not modelled.
\<close>

subsection \<open>The runtimes table\<close>

record manifest =
  mf_name :: runtime_name
  mf_version :: string
  mf_display :: string
  mf_description :: string
  mf_auto :: bool
  mf_binary :: string

record runtime_row =
  rr_name :: runtime_name
  rr_version :: string
  rr_display :: string
  rr_description :: string
  rr_path :: "string list"
  rr_auto :: bool
  rr_installed :: time

record runtime_table =
  rt_rows :: "runtime_row list"
  rt_faults :: "bool list"

definition rtx :: "('s runtime_table_scheme \<Rightarrow> (db_error + 'r) \<times> 's runtime_table_scheme) \<Rightarrow> 's runtime_table_scheme
    \<Rightarrow> (db_error + 'r) \<times> 's runtime_table_scheme" where
  "rtx f s = (let s' = s\<lparr>rt_faults := tl (rt_faults s)\<rparr> in if faulty (rt_faults s) then (Inl DbError, s') else f s')"

text \<open>A zero installation time is replaced by the clock's.\<close>

definition UpsertRuntime :: "runtime_row \<Rightarrow> time \<Rightarrow> 's runtime_table_scheme \<Rightarrow> (db_error + unit) \<times> 's runtime_table_scheme" where
  "UpsertRuntime row now = rtx (\<lambda>s. let row = (if rr_installed row = 0 then row\<lparr>rr_installed := now\<rparr> else row) in
     (Inr (), s\<lparr>rt_rows := (if rr_name row \<in> rr_name ` set (rt_rows s) then update_where (\<lambda>r. rr_name r = rr_name row) (\<lambda>_. row) (rt_rows s)
        else rt_rows s @ [row])\<rparr>))"

definition SetRuntimeAutoStart :: "runtime_name \<Rightarrow> bool \<Rightarrow> 's runtime_table_scheme \<Rightarrow> (db_error + unit) \<times> 's runtime_table_scheme" where
  "SetRuntimeAutoStart name auto = rtx (\<lambda>s. (Inr (), s\<lparr>rt_rows := update_where (\<lambda>r. rr_name r = name) (\<lambda>r. r\<lparr>rr_auto := auto\<rparr>) (rt_rows s)\<rparr>))"

definition GetRuntime :: "runtime_name \<Rightarrow> 's runtime_table_scheme \<Rightarrow> (db_error + runtime_row) \<times> 's runtime_table_scheme" where
  "GetRuntime name = rtx (\<lambda>s. (case find (\<lambda>r. rr_name r = name) (rt_rows s) of None \<Rightarrow> Inl NoRows | Some r \<Rightarrow> Inr r, s))"

definition ListRuntimes :: "'s runtime_table_scheme \<Rightarrow> (db_error + runtime_row list) \<times> 's runtime_table_scheme" where
  "ListRuntimes = rtx (\<lambda>s. (Inr (sort_key (\<lambda>r. (rr_display r, rr_name r)) (rt_rows s)), s))"

definition DeleteRuntime :: "runtime_name \<Rightarrow> 's runtime_table_scheme \<Rightarrow> (db_error + unit) \<times> 's runtime_table_scheme" where
  "DeleteRuntime name = rtx (\<lambda>s. (Inr (), s\<lparr>rt_rows := filter (\<lambda>r. rr_name r \<noteq> name) (rt_rows s)\<rparr>))"

subsection \<open>Names and directories\<close>

datatype runtime_error = ErrRuntimeNotFound | ErrRuntimeAlreadyInstalled | ErrRuntimeNotRunning | ErrManifestMissing | ErrBinaryMissing
  | BadPackage | BadManifest | BadRuntimeName | ReservedName | ClearFailed | PathEscape | ExtractFailed | StoreFailed | LaunchFailed
  | WrongRuntime | WrongProtocol

definition slug_first :: "char \<Rightarrow> bool" where
  "slug_first c \<longleftrightarrow> (let n = (of_char c :: nat) in 97 \<le> n \<and> n \<le> 122 \<or> 48 \<le> n \<and> n \<le> 57)"

definition slug_char :: "char \<Rightarrow> bool" where
  "slug_char c \<longleftrightarrow> slug_first c \<or> c = CHR ''-''"

definition validateRuntimeName :: "runtime_name \<Rightarrow> runtime_error + unit" where
  "validateRuntimeName name = (case name of
      [] \<Rightarrow> Inl BadRuntimeName
    | c # cs \<Rightarrow> if \<not> (slug_first c \<and> list_all slug_char cs) then Inl BadRuntimeName
        else if name = ''v1'' then Inl ReservedName else Inr ())"

definition RuntimesDir :: "string list \<Rightarrow> string list" where
  "RuntimesDir dataDir = Join dataDir ''runtimes''"

definition RuntimeDir :: "string list \<Rightarrow> runtime_name \<Rightarrow> string list" where
  "RuntimeDir dataDir name = Join (RuntimesDir dataDir) name"

subsection \<open>Files of an installation\<close>

type_synonym file_map = "(string list \<times> bytes) list"

definition HasSuffix :: "string \<Rightarrow> string \<Rightarrow> bool" where
  "HasSuffix s p \<longleftrightarrow> length p \<le> length s \<and> drop (length s - length p) s = p"

text \<open>What survives \<open>removeInstallArtifacts\<close>: the \<open>state\<close> directory and the top-level catalogue files.\<close>

definition kept_state :: "string list \<Rightarrow> string list \<Rightarrow> bool" where
  "kept_state installDir p = (case drop (length installDir) p of
      [] \<Rightarrow> False | [name] \<Rightarrow> HasSuffix name ''-catalogue.json'' | name # _ \<Rightarrow> name = ''state'')"

text \<open>A removal that fails stops the loop: the entries before the failing one, in the order of the names, are gone.\<close>

definition removeInstallArtifacts :: "string option \<Rightarrow> string list \<Rightarrow> file_map \<Rightarrow> bool \<times> file_map" where
  "removeInstallArtifacts fails installDir files =
     (let doomed = (\<lambda>p. below installDir p \<and> \<not> kept_state installDir p \<and>
            (case fails of None \<Rightarrow> True | Some name \<Rightarrow> p ! length installDir < name));
          hit = (case fails of None \<Rightarrow> False | Some name \<Rightarrow>
            list_ex (\<lambda>(p, _). below installDir p \<and> \<not> kept_state installDir p \<and> p ! length installDir = name) files)
      in (\<not> hit, filter (\<lambda>(p, _). \<not> (if hit then doomed p else below installDir p \<and> \<not> kept_state installDir p)) files))"

record zip_entry =
  ze_name :: string
  ze_dir :: bool
  ze_data :: bytes
  ze_ok :: bool

definition clean_name :: "string \<Rightarrow> string list" where
  "clean_name name = (let segs = split_on (CHR ''/'') name in
     if name \<noteq> [] \<and> hd name = CHR ''/'' then foldl clean_step [] segs else foldl clean_rel_step [] segs)"

text \<open>\<open>ze_ok\<close> says whether directory, file and copy of the entry succeed.\<close>

definition unzip_entry :: "string list \<Rightarrow> zip_entry \<Rightarrow> file_map \<Rightarrow> (runtime_error + unit) \<times> file_map" where
  "unzip_entry dest e files =
     (let clean = clean_name (ze_name e) in
      if \<not> (ze_name e \<noteq> [] \<and> hd (ze_name e) = CHR ''/'') \<and> clean \<noteq> [] \<and> hd clean = ''..'' then (Inl PathEscape, files)
      else
        let target = foldl clean_step dest clean in
        if \<not> (below dest target \<or> target = dest) then (Inl PathEscape, files)
        else if ze_dir e then (if ze_ok e then Inr () else Inl ExtractFailed, files)
        else if target = dest \<or> \<not> ze_ok e then (Inl ExtractFailed, files)
        else (Inr (), AList.update target (ze_data e) files))"

fun unzipInto :: "zip_entry list \<Rightarrow> string list \<Rightarrow> file_map \<Rightarrow> (runtime_error + unit) \<times> file_map" where
  "unzipInto [] dest files = (Inr (), files)"
| "unzipInto (e # es) dest files = (case unzip_entry dest e files of
      (Inl err, files) \<Rightarrow> (Inl err, files)
    | (Inr _, files) \<Rightarrow> unzipInto es dest files)"

definition stat_path :: "string list \<Rightarrow> file_map \<Rightarrow> bool" where
  "stat_path p files = list_ex (\<lambda>(q, _). q = p \<or> below p q) files"

text \<open>The regular files directly in a directory, by name.\<close>

definition dir_files :: "string list \<Rightarrow> file_map \<Rightarrow> string list" where
  "dir_files dir files = sort (map last (filter (\<lambda>p. below dir p \<and> length p = Suc (length dir)) (map fst files)))"

definition resolveBinary :: "string list \<Rightarrow> manifest \<Rightarrow> file_map \<Rightarrow> runtime_error + string list" where
  "resolveBinary installDir mf files =
     (let candidate = (if mf_binary mf \<noteq> '''' then Inr (mf_binary mf)
            else case dir_files (Join installDir ''bin'') files of
                [] \<Rightarrow> Inl ErrBinaryMissing
              | name # _ \<Rightarrow> Inr (''bin/'' @ name))
      in bindE candidate (\<lambda>c. let abs = Join installDir c in
           if \<not> stat_path abs files then Inl ErrBinaryMissing else Inr abs))"

subsection \<open>The manager\<close>

text \<open>A gateway is a launched subprocess; \<open>gw_exited\<close> is what the plugin library reports about it.\<close>

record gateway =
  gw_kind :: runtime_name
  gw_manifest :: manifest
  gw_closed :: bool
  gw_exited :: bool

record rt_manager = runtime_table +
  rm_data_dir :: "string list"
  rm_installed :: "(runtime_name \<times> manifest) list"
  rm_running :: "(runtime_name \<times> nat) list"
  rm_gateways :: "gateway list"
  rm_starting :: "(runtime_name \<times> manifest) list"
  rm_files :: file_map
  rm_state_log :: "runtime_name list"
  rm_install_log :: "runtime_name list list"

definition fireStateChange :: "runtime_name \<Rightarrow> rt_manager \<Rightarrow> rt_manager" where
  "fireStateChange name m = m\<lparr>rm_state_log := rm_state_log m @ [name]\<rparr>"

definition fireInstallChange :: "rt_manager \<Rightarrow> rt_manager" where
  "fireInstallChange m = m\<lparr>rm_install_log := rm_install_log m @ [map fst (rm_installed m)]\<rparr>"

definition readManifest :: "(bytes \<Rightarrow> manifest option) \<Rightarrow> string list \<Rightarrow> file_map \<Rightarrow> manifest option" where
  "readManifest yaml p files = Option.bind (map_of files p) yaml"

definition row_manifest :: "(bytes \<Rightarrow> manifest option) \<Rightarrow> file_map \<Rightarrow> runtime_row \<Rightarrow> manifest" where
  "row_manifest yaml files r =
     (let mf = (case readManifest yaml (rr_path r @ [''runtime.yml'']) files of
            Some onDisk \<Rightarrow> onDisk
          | None \<Rightarrow> \<lparr> mf_name = rr_name r, mf_version = rr_version r, mf_display = rr_display r, mf_description = rr_description r,
              mf_auto = False, mf_binary = '''' \<rparr>)
      in mf\<lparr>mf_auto := rr_auto r\<rparr>)"

definition reload :: "(bytes \<Rightarrow> manifest option) \<Rightarrow> rt_manager \<Rightarrow> (runtime_error + unit) \<times> rt_manager" where
  "reload yaml m = (case ListRuntimes m of
      (Inl _, m) \<Rightarrow> (Inl StoreFailed, m)
    | (Inr rrows, m) \<Rightarrow> (Inr (), m\<lparr>rm_installed := fold (\<lambda>r. AList.update (rr_name r) (row_manifest yaml (rm_files m) r)) rrows []\<rparr>))"

definition IsInstalled :: "runtime_name \<Rightarrow> rt_manager \<Rightarrow> bool" where
  "IsInstalled name m = (map_of (rm_installed m) name \<noteq> None)"

definition IsRunning :: "runtime_name \<Rightarrow> rt_manager \<Rightarrow> bool" where
  "IsRunning name m = (map_of (rm_running m) name \<noteq> None)"

definition Get_manifest :: "runtime_name \<Rightarrow> rt_manager \<Rightarrow> runtime_error + manifest" where
  "Get_manifest name m = (case map_of (rm_installed m) name of None \<Rightarrow> Inl ErrRuntimeNotFound | Some mf \<Rightarrow> Inr mf)"

definition LoadedGatewayFor :: "runtime_name \<Rightarrow> rt_manager \<Rightarrow> runtime_error + nat" where
  "LoadedGatewayFor name m = (case map_of (rm_running m) name of None \<Rightarrow> Inl ErrRuntimeNotRunning | Some g \<Rightarrow> Inr g)"

definition RunningGateways :: "rt_manager \<Rightarrow> nat list" where
  "RunningGateways m = map snd (rm_running m)"

subsection \<open>Start and stop\<close>

text \<open>The first part of \<open>Start\<close>, up to the release of the lock: the running gateway, or a launch under way.\<close>

definition start_begin :: "runtime_name \<Rightarrow> rt_manager \<Rightarrow> (runtime_error + nat option) \<times> rt_manager" where
  "start_begin name m = (case Get_manifest name m of
      Inl e \<Rightarrow> (Inl e, m)
    | Inr mf \<Rightarrow> (case map_of (rm_running m) name of
          Some g \<Rightarrow> (Inr (Some g), m)
        | None \<Rightarrow> (Inr None, m\<lparr>rm_starting := rm_starting m @ [(name, mf)]\<rparr>)))"

record init_reply =
  ir_name :: runtime_name
  ir_version :: string
  ir_display :: string
  ir_description :: string
  ir_protocol_ok :: bool

text \<open>\<open>None\<close>: the process or its handshake failed. A launched process that is refused is closed.\<close>

definition startGateway :: "manifest \<Rightarrow> init_reply option \<Rightarrow> runtime_error + manifest" where
  "startGateway mf reply = (case reply of
      None \<Rightarrow> Inl LaunchFailed
    | Some r \<Rightarrow>
        if ir_name r \<noteq> mf_name mf then Inl WrongRuntime
        else if \<not> ir_protocol_ok r then Inl WrongProtocol
        else Inr (mf\<lparr>mf_version := ir_version r,
              mf_display := (if ir_display r \<noteq> '''' then ir_display r else mf_display mf),
              mf_description := (if ir_description r \<noteq> '''' then ir_description r else mf_description mf)\<rparr>))"

definition start_finish :: "runtime_name \<Rightarrow> manifest \<Rightarrow> init_reply option \<Rightarrow> rt_manager \<Rightarrow> (runtime_error + nat) \<times> rt_manager" where
  "start_finish name mf reply m = (case resolveBinary (RuntimeDir (rm_data_dir m) name) mf (rm_files m) of
      Inl e \<Rightarrow> (Inl e, m)
    | Inr binary \<Rightarrow> (case startGateway mf reply of
          Inl e \<Rightarrow> (Inl e, m)
        | Inr gmf \<Rightarrow>
            let g = length (rm_gateways m);
                gmf = gmf\<lparr>mf_auto := (case map_of (rm_installed m) name of Some i \<Rightarrow> mf_auto i | None \<Rightarrow> False)\<rparr>
            in (Inr g, fireStateChange name
                 (m\<lparr>rm_gateways := rm_gateways m @ [\<lparr> gw_kind = mf_name mf, gw_manifest = gmf, gw_closed = False, gw_exited = False \<rparr>],
                    rm_running := AList.update name g (rm_running m), rm_installed := AList.update name gmf (rm_installed m)\<rparr>))))"

definition start_whole :: "runtime_name \<Rightarrow> init_reply option \<Rightarrow> rt_manager \<Rightarrow> (runtime_error + nat) \<times> rt_manager" where
  "start_whole name reply m = (case Get_manifest name m of
      Inl e \<Rightarrow> (Inl e, m)
    | Inr mf \<Rightarrow> (case map_of (rm_running m) name of Some g \<Rightarrow> (Inr g, m) | None \<Rightarrow> start_finish name mf reply m))"

definition close_gateway :: "nat \<Rightarrow> rt_manager \<Rightarrow> rt_manager" where
  "close_gateway g m = m\<lparr>rm_gateways := (rm_gateways m)[g := (rm_gateways m ! g)\<lparr>gw_closed := True\<rparr>]\<rparr>"

definition Stop :: "runtime_name \<Rightarrow> rt_manager \<Rightarrow> (runtime_error + unit) \<times> rt_manager" where
  "Stop name m = (case map_of (rm_running m) name of
      None \<Rightarrow> (Inl ErrRuntimeNotRunning, m)
    | Some g \<Rightarrow> (Inr (), fireStateChange name (close_gateway g (m\<lparr>rm_running := AList.delete name (rm_running m)\<rparr>))))"

text \<open>One tick of the watcher of gateway \<open>g\<close>; \<open>True\<close> when it ends.\<close>

definition watchGatewayExit :: "runtime_name \<Rightarrow> nat \<Rightarrow> rt_manager \<Rightarrow> bool \<times> rt_manager" where
  "watchGatewayExit name g m =
     (if map_of (rm_running m) name \<noteq> Some g then (True, m)
      else if \<not> gw_exited (rm_gateways m ! g) then (False, m)
      else (True, fireStateChange name (close_gateway g (m\<lparr>rm_running := AList.delete name (rm_running m)\<rparr>))))"

definition SetAutoStart :: "runtime_name \<Rightarrow> bool \<Rightarrow> rt_manager \<Rightarrow> (runtime_error + unit) \<times> rt_manager" where
  "SetAutoStart name auto m = (case map_of (rm_installed m) name of
      None \<Rightarrow> (Inl ErrRuntimeNotFound, m)
    | Some mf \<Rightarrow> (case SetRuntimeAutoStart name auto m of
          (Inl _, m) \<Rightarrow> (Inl StoreFailed, m)
        | (Inr _, m) \<Rightarrow> (Inr (), fireStateChange name (m\<lparr>rm_installed := AList.update name (mf\<lparr>mf_auto := auto\<rparr>) (rm_installed m)\<rparr>))))"

definition AutoStartAll :: "(runtime_name \<Rightarrow> init_reply option) \<Rightarrow> rt_manager \<Rightarrow> rt_manager" where
  "AutoStartAll replies m = fold (\<lambda>name m. snd (start_whole name (replies name) m))
     (map fst (filter (\<lambda>(_, mf). mf_auto mf) (rm_installed m))) m"

definition Shutdown :: "rt_manager \<Rightarrow> rt_manager" where
  "Shutdown m = fold close_gateway (map snd (rm_running m)) (m\<lparr>rm_running := []\<rparr>)"

subsection \<open>Install and uninstall\<close>

text \<open>A package that opens is its entries. \<open>clear\<close> and \<open>undo\<close> say at which entry, if any, a removal fails.\<close>

definition extractPackage :: "(bytes \<Rightarrow> manifest option) \<Rightarrow> zip_entry list option \<Rightarrow> string option \<Rightarrow> string option \<Rightarrow> rt_manager
    \<Rightarrow> (runtime_error + manifest \<times> string list) \<times> rt_manager" where
  "extractPackage yaml package clear undo m = (case package of
      None \<Rightarrow> (Inl BadPackage, m)
    | Some entries \<Rightarrow> (case find (\<lambda>e. ze_name e = ''runtime.yml'') entries of
          None \<Rightarrow> (Inl ErrManifestMissing, m)
        | Some e \<Rightarrow>
            if \<not> ze_ok e then (Inl BadPackage, m)
            else case yaml (ze_data e) of
                None \<Rightarrow> (Inl BadManifest, m)
              | Some mf \<Rightarrow> (case validateRuntimeName (mf_name mf) of
                    Inl err \<Rightarrow> (Inl err, m)
                  | Inr _ \<Rightarrow>
                      if IsInstalled (mf_name mf) m then (Inl ErrRuntimeAlreadyInstalled, m)
                      else
                        let dir = RuntimeDir (rm_data_dir m) (mf_name mf);
                            (ok, files) = removeInstallArtifacts clear dir (rm_files m)
                        in if \<not> ok then (Inl ClearFailed, m\<lparr>rm_files := files\<rparr>)
                           else case unzipInto entries dir files of
                               (Inl err, files) \<Rightarrow> (Inl err, m\<lparr>rm_files := snd (removeInstallArtifacts undo dir files)\<rparr>)
                             | (Inr _, files) \<Rightarrow> (case resolveBinary dir mf files of
                                   Inl err \<Rightarrow> (Inl err, m\<lparr>rm_files := snd (removeInstallArtifacts undo dir files)\<rparr>)
                                 | Inr _ \<Rightarrow> (Inr (mf, dir), m\<lparr>rm_files := files\<rparr>)))))"

definition InstallFromPath :: "(bytes \<Rightarrow> manifest option) \<Rightarrow> zip_entry list option \<Rightarrow> string option \<Rightarrow> string option \<Rightarrow> time
    \<Rightarrow> init_reply option \<Rightarrow> rt_manager \<Rightarrow> (runtime_error + manifest) \<times> rt_manager" where
  "InstallFromPath yaml package clear undo now reply m = (case extractPackage yaml package clear undo m of
      (Inl e, m) \<Rightarrow> (Inl e, m)
    | (Inr (mf, dir), m) \<Rightarrow> (case UpsertRuntime \<lparr> rr_name = mf_name mf, rr_version = mf_version mf, rr_display = mf_display mf,
            rr_description = mf_description mf, rr_path = dir, rr_auto = True, rr_installed = 0 \<rparr> now m of
          (Inl _, m) \<Rightarrow> (Inl StoreFailed, m\<lparr>rm_files := snd (removeInstallArtifacts undo dir (rm_files m))\<rparr>)
        | (Inr _, m) \<Rightarrow> (case reload yaml m of
              (Inl e, m) \<Rightarrow> (Inl e, m)
            | (Inr _, m) \<Rightarrow> (Inr mf, snd (start_whole (mf_name mf) reply (fireInstallChange m))))))"

definition Uninstall :: "(bytes \<Rightarrow> manifest option) \<Rightarrow> runtime_name \<Rightarrow> string option \<Rightarrow> rt_manager \<Rightarrow> (runtime_error + unit) \<times> rt_manager" where
  "Uninstall yaml name undo m =
     (if \<not> IsInstalled name m then (Inr (), m)
      else case DeleteRuntime name (snd (Stop name m)) of
          (Inl _, m) \<Rightarrow> (Inl StoreFailed, m)
        | (Inr _, m) \<Rightarrow>
            let m = m\<lparr>rm_files := snd (removeInstallArtifacts undo (RuntimeDir (rm_data_dir m) name) (rm_files m))\<rparr> in
            (case reload yaml m of (Inl e, m) \<Rightarrow> (Inl e, m) | (Inr _, m) \<Rightarrow> (Inr (), fireInstallChange m)))"

end
