(* ===== verification/Runtime_Safety.thy ===== *)
theory Runtime_Safety
  imports Runtimes
begin

text \<open>
  What installing, running and removing runtimes keeps: only files below the directories of valid runtime names change,
  gateway state is never deleted, a successful uninstall leaves nothing else, and every running entry is a gateway
  nobody has closed.
\<close>

subsection \<open>Directories of valid names\<close>

lemma slug_no_separator: "slug_char c \<Longrightarrow> c \<noteq> CHR ''/'' \<and> c \<noteq> CHR ''.''"
  by (auto simp: slug_char_def slug_first_def Let_def)

lemma split_on_none: "c \<notin> set s \<Longrightarrow> split_on c s = [s]"
  by (induction s) auto

lemma RuntimesDir_eq: "RuntimesDir d = d @ [''runtimes'']"
  by (simp add: RuntimesDir_def Join_def clean_step_def)

lemma valid_name_dir:
  assumes "validateRuntimeName name = Inr ()"
  shows "RuntimeDir d name = RuntimesDir d @ [name]"
proof -
  obtain c cs where n: "name = c # cs" "slug_first c" "list_all slug_char cs"
    using assms by (auto simp: validateRuntimeName_def split: list.splits if_splits)
  then have all: "list_all slug_char name" by (simp add: slug_char_def)
  then have "CHR ''/'' \<notin> set name" "hd name \<noteq> CHR ''.''"
    using slug_no_separator n by (auto simp: list_all_iff)
  with n show ?thesis by (auto simp: RuntimeDir_def Join_def split_on_none clean_step_def)
qed

subsection \<open>What installing and removing touch\<close>

lemma map_of_filter_path: "map_of (filter (\<lambda>(q, _). P q) files) p = (if P p then map_of files p else None)"
  using map_of_filter [of P files] by (simp add: case_prod_beta' restrict_map_def)

definition changes_below :: "string list \<Rightarrow> file_map \<Rightarrow> file_map \<Rightarrow> bool" where
  "changes_below dir files files' \<longleftrightarrow> (\<forall>p. \<not> below dir p \<longrightarrow> map_of files' p = map_of files p)
     \<and> (\<forall>p. kept_state dir p \<longrightarrow> map_of files p \<noteq> None \<longrightarrow> map_of files' p \<noteq> None)"

lemma changes_refl [simp]: "changes_below dir files files"
  by (simp add: changes_below_def)

lemma changes_trans: "changes_below dir a b \<Longrightarrow> changes_below dir b c \<Longrightarrow> changes_below dir a c"
  unfolding changes_below_def by metis

lemma remove_changes: "changes_below dir files (snd (removeInstallArtifacts fails dir files))"
  unfolding changes_below_def removeInstallArtifacts_def Let_def snd_conv map_of_filter_path by simp

text \<open>A removal that works leaves exactly the gateway's state.\<close>

lemma remove_exact:
  "fst (removeInstallArtifacts fails dir files) \<Longrightarrow>
     map_of (snd (removeInstallArtifacts fails dir files)) p = (if below dir p \<and> \<not> kept_state dir p then None else map_of files p)"
  unfolding removeInstallArtifacts_def Let_def fst_conv snd_conv map_of_filter_path by (auto split: option.splits)

lemma unzip_changes: "changes_below dir files (snd (unzipInto es dir files))"
proof (induction es arbitrary: files)
  case (Cons e es)
  obtain r files' where e: "unzip_entry dir e files = (r, files')" by (rule prod.exhaust)
  then have "changes_below dir files files'"
    by (auto simp: unzip_entry_def changes_below_def Let_def split: if_splits)
  with Cons.IH [of files'] e show ?case by (auto split: sum.splits intro: changes_trans)
qed simp

lemma extract_changes:
  assumes "extractPackage yaml package clear undo m = (res, m')"
  shows "\<exists>files. m' = m\<lparr>rm_files := files\<rparr>"
    "rm_files m' = rm_files m \<or> (\<exists>name. validateRuntimeName name = Inr () \<and> changes_below (RuntimeDir (rm_data_dir m) name) (rm_files m) (rm_files m'))"
    "res = Inr (mf, dir) \<Longrightarrow> validateRuntimeName (mf_name mf) = Inr () \<and> dir = RuntimeDir (rm_data_dir m) (mf_name mf)"
proof -
  have "(\<exists>files. m' = m\<lparr>rm_files := files\<rparr>)
      \<and> (rm_files m' = rm_files m \<or> (\<exists>name. validateRuntimeName name = Inr () \<and> changes_below (RuntimeDir (rm_data_dir m) name) (rm_files m) (rm_files m')))
      \<and> (res = Inr (mf, dir) \<longrightarrow> validateRuntimeName (mf_name mf) = Inr () \<and> dir = RuntimeDir (rm_data_dir m) (mf_name mf))"
  proof (cases "\<exists>entries e mf. package = Some entries \<and> find (\<lambda>e. ze_name e = ''runtime.yml'') entries = Some e \<and> ze_ok e
      \<and> yaml (ze_data e) = Some mf \<and> validateRuntimeName (mf_name mf) = Inr () \<and> \<not> IsInstalled (mf_name mf) m")
    case False
    then have "m' = m \<and> (\<exists>err. res = Inl err)"
      using assms by (auto simp: extractPackage_def split: option.splits sum.splits if_splits)
    then show ?thesis by (auto intro!: exI [of _ "rm_files m"])
  next
    case True
    then obtain entries e f where p: "package = Some entries" "find (\<lambda>e. ze_name e = ''runtime.yml'') entries = Some e" "ze_ok e"
      "yaml (ze_data e) = Some f" "validateRuntimeName (mf_name f) = Inr ()" "\<not> IsInstalled (mf_name f) m" by blast
    let ?d = "RuntimeDir (rm_data_dir m) (mf_name f)"
    obtain ok files where r: "removeInstallArtifacts clear ?d (rm_files m) = (ok, files)" by (rule prod.exhaust)
    obtain u files' where z: "unzipInto entries ?d files = (u, files')" by (rule prod.exhaust)
    have c: "changes_below ?d (rm_files m) files" "changes_below ?d (rm_files m) files'"
      "changes_below ?d (rm_files m) (snd (removeInstallArtifacts undo ?d files'))"
      using remove_changes [of ?d "rm_files m" clear] unzip_changes [of ?d files entries] remove_changes [of ?d files' undo]
      unfolding r z snd_conv by (blast intro: changes_trans)+
    have "(res, m') = (if \<not> ok then (Inl ClearFailed, m\<lparr>rm_files := files\<rparr>)
      else case u of Inl err \<Rightarrow> (Inl err, m\<lparr>rm_files := snd (removeInstallArtifacts undo ?d files')\<rparr>)
        | Inr _ \<Rightarrow> (case resolveBinary ?d f files' of
            Inl err \<Rightarrow> (Inl err, m\<lparr>rm_files := snd (removeInstallArtifacts undo ?d files')\<rparr>)
          | Inr _ \<Rightarrow> (Inr (f, ?d), m\<lparr>rm_files := files'\<rparr>)))"
      using assms p r z by (cases ok; cases u) (simp_all add: extractPackage_def Let_def)
    then show ?thesis using c p(5) by (auto split: if_splits sum.splits)
  qed
  then show "\<exists>files. m' = m\<lparr>rm_files := files\<rparr>"
    "rm_files m' = rm_files m \<or> (\<exists>name. validateRuntimeName name = Inr () \<and> changes_below (RuntimeDir (rm_data_dir m) name) (rm_files m) (rm_files m'))"
    "res = Inr (mf, dir) \<Longrightarrow> validateRuntimeName (mf_name mf) = Inr () \<and> dir = RuntimeDir (rm_data_dir m) (mf_name mf)" by blast+
qed

subsection \<open>The invariant\<close>

abbreviation valid_name :: "runtime_name \<Rightarrow> bool" where
  "valid_name name \<equiv> validateRuntimeName name = Inr ()"

definition rt_ok :: "rt_manager \<Rightarrow> bool" where
  "rt_ok m \<longleftrightarrow> (\<forall>r \<in> set (rt_rows m). valid_name (rr_name r))
     \<and> (\<forall>k \<in> set (keys (rm_installed m)). valid_name k) \<and> (\<forall>k \<in> set (keys (rm_starting m)). valid_name k)
     \<and> distinct (keys (rm_running m)) \<and> distinct (map snd (rm_running m))
     \<and> (\<forall>g \<in> set (map snd (rm_running m)). g < length (rm_gateways m) \<and> \<not> gw_closed (rm_gateways m ! g))"

definition rt_files_ok :: "string list \<Rightarrow> file_map \<Rightarrow> file_map \<Rightarrow> bool" where
  "rt_files_ok d files files' \<longleftrightarrow> (\<forall>p. \<not> below (RuntimesDir d) p \<longrightarrow> map_of files' p = map_of files p)
     \<and> (\<forall>name p. valid_name name \<longrightarrow> kept_state (RuntimeDir d name) p \<longrightarrow> map_of files p \<noteq> None \<longrightarrow> map_of files' p \<noteq> None)"

lemma changes_files_ok:
  assumes "valid_name name" "changes_below (RuntimeDir d name) files files'"
  shows "rt_files_ok d files files'"
proof -
  have "kept_state (RuntimeDir d name') p = kept_state (RuntimeDir d name) p" if "valid_name name'" for name' p
    by (simp add: valid_name_dir [OF that] valid_name_dir [OF assms(1)] kept_state_def)
  moreover have "below (RuntimeDir d name) p \<Longrightarrow> below (RuntimesDir d) p" for p
    by (auto simp: valid_name_dir [OF assms(1)] below_iff)
  ultimately show ?thesis using assms(2) unfolding rt_files_ok_def changes_below_def by blast
qed

lemma files_ok_trans: "rt_files_ok d a b \<Longrightarrow> rt_files_ok d b c \<Longrightarrow> rt_files_ok d a c"
  unfolding rt_files_ok_def by metis

lemma files_ok_refl [simp]: "rt_files_ok d files files"
  by (simp add: rt_files_ok_def)

definition rt_keeps :: "rt_manager \<Rightarrow> rt_manager \<Rightarrow> bool" where
  "rt_keeps m m' \<longleftrightarrow> rt_ok m' \<and> rm_data_dir m' = rm_data_dir m \<and> rt_files_ok (rm_data_dir m) (rm_files m) (rm_files m')"

lemma keeps_trans: "rt_keeps m m' \<Longrightarrow> rt_keeps m' m'' \<Longrightarrow> rt_keeps m m''"
  unfolding rt_keeps_def by (metis files_ok_trans)

lemma keeps_refl: "rt_ok m \<Longrightarrow> rt_keeps m m"
  by (simp add: rt_keeps_def)

lemma fire_keeps [simp]:
  "rt_keeps m (fireStateChange name m') = rt_keeps m m'" "rt_keeps m (fireInstallChange m') = rt_keeps m m'"
  by (simp_all add: rt_keeps_def rt_ok_def fireStateChange_def fireInstallChange_def)

lemma faults_keep [simp]: "rt_keeps m (m'\<lparr>rt_faults := fs\<rparr>) = rt_keeps m m'"
  by (simp add: rt_keeps_def rt_ok_def)

subsection \<open>Every operation keeps it\<close>

lemma store_keeps:
  assumes "rt_ok m"
  shows "rt_keeps m (snd (SetRuntimeAutoStart name auto m))" "rt_keeps m (snd (DeleteRuntime name m))" "rt_keeps m (snd (ListRuntimes m))"
    "valid_name (rr_name row) \<Longrightarrow> rt_keeps m (snd (UpsertRuntime row now m))"
  using assms
  by (auto simp: SetRuntimeAutoStart_def DeleteRuntime_def ListRuntimes_def UpsertRuntime_def rtx_def Let_def rt_keeps_def rt_ok_def
      update_where_def split: if_splits)

lemma keys_fold_update: "set (keys (fold (\<lambda>r. AList.update (k r) (v r)) rs acc)) = set (keys acc) \<union> k ` set rs"
proof (induction rs arbitrary: acc)
  case (Cons r rs)
  have "set (keys (AList.update (k r) (v r) acc)) = insert (k r) (set (keys acc))" by (induction acc) auto
  with Cons show ?case by auto
qed simp

lemma keys_update: "set (keys (AList.update k v xs)) = insert k (set (keys xs))"
  by (induction xs) auto

lemma update_keys_all: "(\<forall>x \<in> set (AList.update k v xs). P (fst x)) \<longleftrightarrow> P k \<and> (\<forall>x \<in> set xs. P (fst x))"
  by (induction xs) auto

lemma reload_keeps:
  assumes "rt_ok m"
  shows "rt_keeps m (snd (reload yaml m))"
proof -
  have "rt_keeps m (m\<lparr>rt_faults := fs, rm_installed := xs\<rparr>)" if "\<forall>k \<in> set (keys xs). valid_name k" for fs xs
    using assms that by (simp add: rt_keeps_def rt_ok_def)
  moreover have "\<forall>k \<in> set (keys (fold (\<lambda>r. AList.update (rr_name r) (row_manifest yaml (rm_files m) r))
      (sort_key (\<lambda>r. (rr_display r, rr_name r)) (rt_rows m)) [])). valid_name k"
    unfolding keys_fold_update using assms by (auto simp: rt_ok_def)
  ultimately show ?thesis using keeps_refl [OF assms]
    by (auto simp: reload_def ListRuntimes_def rtx_def Let_def)
qed

lemma installed_valid: "rt_ok m \<Longrightarrow> map_of (rm_installed m) name = Some mf \<Longrightarrow> valid_name name"
  using map_of_SomeD [of "rm_installed m" name mf] by (fastforce simp: rt_ok_def)

lemma start_begin_keeps:
  assumes "rt_ok m"
  shows "rt_keeps m (snd (start_begin name m))"
proof (cases "map_of (rm_installed m) name")
  case (Some mf)
  from installed_valid [OF assms this] assms have "rt_keeps m (m\<lparr>rm_starting := rm_starting m @ [(name, mf)]\<rparr>)"
    by (simp add: rt_keeps_def rt_ok_def)
  with Some keeps_refl [OF assms] show ?thesis by (simp add: start_begin_def Get_manifest_def split: option.splits)
qed (use keeps_refl [OF assms] in \<open>simp add: start_begin_def Get_manifest_def\<close>)

lemma running_update:
  assumes "distinct (keys xs)" "distinct (map snd xs)" "\<forall>g \<in> set (map snd xs). g < (n :: nat)"
  shows "distinct (map snd (AList.update k n xs))" "set (map snd (AList.update k n xs)) \<subseteq> insert n (set (map snd xs))"
proof -
  have sub: "snd ` set (AList.update k n xs) \<subseteq> insert n (snd ` set xs)" for xs :: "('a \<times> nat) list" by (induction xs) auto
  then show "set (map snd (AList.update k n xs)) \<subseteq> insert n (set (map snd xs))" by simp
  show "distinct (map snd (AList.update k n xs))" using assms
  proof (induction xs)
    case (Cons p xs)
    have "snd p \<notin> snd ` set (AList.update k n xs)" using sub [of xs] Cons.prems by auto
    moreover have "n \<notin> snd ` set xs" using Cons.prems(3) by auto
    ultimately show ?case using Cons by (cases p) auto
  qed simp
qed

lemma start_finish_keeps:
  assumes ok: "rt_ok m" and name: "valid_name name"
  shows "rt_keeps m (snd (start_finish name mf reply m))"
proof (cases "\<exists>b gmf. resolveBinary (RuntimeDir (rm_data_dir m) name) mf (rm_files m) = Inr b \<and> startGateway mf reply = Inr gmf")
  case False
  then have "snd (start_finish name mf reply m) = m" by (auto simp: start_finish_def split: sum.splits)
  then show ?thesis using keeps_refl [OF ok] by simp
next
  case True
  then obtain b gmf where b: "resolveBinary (RuntimeDir (rm_data_dir m) name) mf (rm_files m) = Inr b" "startGateway mf reply = Inr gmf" by blast
  have run: "\<forall>g \<in> set (map snd (rm_running m)). g < length (rm_gateways m)" using ok by (simp add: rt_ok_def)
  have d: "distinct (keys (rm_running m))" "distinct (map snd (rm_running m))" using ok by (simp_all add: rt_ok_def)
  note upd = running_update [OF d run, of name]
  let ?g = "length (rm_gateways m)"
  have "rt_keeps m (m\<lparr>rm_gateways := rm_gateways m @ [gw], rm_running := AList.update name ?g (rm_running m),
      rm_installed := AList.update name imf (rm_installed m)\<rparr>)" if "\<not> gw_closed gw" for gw imf
  proof -
    have "h < Suc ?g \<and> \<not> gw_closed ((rm_gateways m @ [gw]) ! h)" if "h \<in> set (map snd (AList.update name ?g (rm_running m)))" for h
      using that upd(2) ok \<open>\<not> gw_closed gw\<close> by (auto simp: rt_ok_def nth_append dest!: subsetD)
    then show ?thesis using ok name upd(1) d(1)
      by (simp add: rt_keeps_def rt_ok_def distinct_update update_keys_all [where P = "\<lambda>k. validateRuntimeName k = Inr ()"])
  qed
  then show ?thesis by (simp add: start_finish_def b Let_def)
qed

lemma start_whole_keeps:
  assumes ok: "rt_ok m"
  shows "rt_keeps m (snd (start_whole name reply m))"
proof (cases "map_of (rm_installed m) name")
  case (Some mf)
  with installed_valid [OF ok] have "valid_name name" by blast
  with start_finish_keeps [OF ok this] keeps_refl [OF ok] Some show ?thesis
    by (auto simp: start_whole_def Get_manifest_def split: option.splits)
qed (use keeps_refl [OF ok] in \<open>simp add: start_whole_def Get_manifest_def\<close>)

lemma unregister_keeps:
  assumes ok: "rt_ok m" and g: "map_of (rm_running m) name = Some g"
  shows "rt_keeps m (close_gateway g (m\<lparr>rm_running := AList.delete name (rm_running m)\<rparr>))"
proof -
  have "g \<notin> snd ` set (AList.delete name (rm_running m))"
  proof
    assume "g \<in> snd ` set (AList.delete name (rm_running m))"
    then obtain k where k: "(k, g) \<in> set (rm_running m)" "k \<noteq> name" by (auto simp: set_AList_delete)
    have "inj_on snd (set (rm_running m))" using ok by (simp add: rt_ok_def distinct_map)
    from inj_onD [OF this _ k(1) map_of_SomeD [OF g]] k(2) show False by simp
  qed
  moreover have "distinct (map snd (AList.delete name (rm_running m)))"
    using ok by (auto simp: rt_ok_def AList.delete_eq distinct_map_filter)
  moreover have "h < length (rm_gateways m) \<and> \<not> gw_closed (((rm_gateways m)[g := (rm_gateways m ! g)\<lparr>gw_closed := True\<rparr>]) ! h)"
    if "h \<in> snd ` set (AList.delete name (rm_running m))" for h
  proof -
    have "h \<noteq> g" using that calculation(1) by blast
    moreover have "h \<in> snd ` set (rm_running m)" using that by (auto simp: set_AList_delete)
    ultimately show ?thesis using ok by (auto simp: rt_ok_def)
  qed
  ultimately show ?thesis using ok
    by (simp add: rt_keeps_def rt_ok_def close_gateway_def distinct_delete)
qed

lemma Stop_keeps: "rt_ok m \<Longrightarrow> rt_keeps m (snd (Stop name m))"
  using unregister_keeps [of m name] keeps_refl by (auto simp: Stop_def split: option.splits)

lemma watch_keeps: "rt_ok m \<Longrightarrow> rt_keeps m (snd (watchGatewayExit name g m))"
  using unregister_keeps [of m name g] keeps_refl by (auto simp: watchGatewayExit_def)

lemma SetAutoStart_keeps:
  assumes ok: "rt_ok m"
  shows "rt_keeps m (snd (SetAutoStart name auto m))"
proof (cases "map_of (rm_installed m) name")
  case (Some mf)
  with installed_valid [OF ok] have v: "valid_name name" by blast
  obtain r m' where s: "SetRuntimeAutoStart name auto m = (r, m')" by (rule prod.exhaust)
  have "rt_keeps m m'" using store_keeps(1) [OF ok, of name auto] s by simp
  moreover from this have "rt_keeps m (m'\<lparr>rm_installed := AList.update name mf' (rm_installed m')\<rparr>)" for mf'
    using v by (simp add: rt_keeps_def rt_ok_def update_keys_all [where P = "\<lambda>k. validateRuntimeName k = Inr ()"])
  ultimately show ?thesis by (auto simp: SetAutoStart_def Some s split: sum.splits)
qed (use keeps_refl [OF ok] in \<open>simp add: SetAutoStart_def\<close>)

lemma AutoStartAll_keeps:
  assumes "rt_ok m"
  shows "rt_keeps m (AutoStartAll replies m)"
proof -
  have "rt_ok m \<Longrightarrow> rt_keeps m (fold (\<lambda>name m. snd (start_whole name (replies name) m)) names m)" for names
  proof (induction names arbitrary: m)
    case (Cons name names)
    have s: "rt_keeps m (snd (start_whole name (replies name) m))" by (rule start_whole_keeps [OF Cons.prems])
    then have "rt_ok (snd (start_whole name (replies name) m))" by (simp add: rt_keeps_def)
    from Cons.IH [OF this] s show ?case by (auto intro: keeps_trans)
  qed (simp add: keeps_refl)
  with assms show ?thesis by (simp add: AutoStartAll_def)
qed

lemma close_all:
  assumes "rt_ok m" "rm_running m = []"
  shows "rt_keeps m (fold close_gateway gs m)"
  using assms
proof (induction gs arbitrary: m)
  case (Cons g gs)
  have s: "rt_keeps m (close_gateway g m)" "rm_running (close_gateway g m) = []"
    using Cons.prems by (simp_all add: close_gateway_def rt_keeps_def rt_ok_def)
  then have "rt_ok (close_gateway g m)" by (simp add: rt_keeps_def)
  from Cons.IH [OF this s(2)] s(1) show ?case by (auto intro: keeps_trans)
qed (simp add: keeps_refl)

lemma Shutdown_keeps:
  assumes "rt_ok m"
  shows "rt_keeps m (Shutdown m)"
proof -
  have "rt_ok (m\<lparr>rm_running := []\<rparr>)" using assms by (simp add: rt_ok_def)
  from close_all [OF this] show ?thesis by (simp add: Shutdown_def rt_keeps_def)
qed

lemma files_keeps:
  assumes "rt_ok m" "valid_name name" "changes_below (RuntimeDir (rm_data_dir m) name) (rm_files m) files"
  shows "rt_keeps m (m\<lparr>rm_files := files\<rparr>)"
  using assms changes_files_ok [OF assms(2,3)] by (simp add: rt_keeps_def rt_ok_def)

lemma extract_keeps:
  assumes ok: "rt_ok m" and e: "extractPackage yaml package clear undo m = (res, m')"
  shows "rt_keeps m m'"
proof -
  from extract_changes(1) [OF e] obtain files where m': "m' = m\<lparr>rm_files := files\<rparr>" by blast
  from extract_changes(2) [OF e] show ?thesis
  proof
    assume "rm_files m' = rm_files m"
    then have "m' = m" using m' by simp
    then show ?thesis using keeps_refl [OF ok] by simp
  next
    assume "\<exists>name. valid_name name \<and> changes_below (RuntimeDir (rm_data_dir m) name) (rm_files m) (rm_files m')"
    then show ?thesis using files_keeps [OF ok] m' by auto
  qed
qed

lemma Install_keeps:
  assumes ok: "rt_ok m"
  shows "rt_keeps m (snd (InstallFromPath yaml package clear undo now reply m))"
proof -
  obtain res m1 where e: "extractPackage yaml package clear undo m = (res, m1)" by (rule prod.exhaust)
  have k1: "rt_keeps m m1" by (rule extract_keeps [OF ok e])
  show ?thesis
  proof (cases res)
    case (Inl err)
    with e k1 show ?thesis by (simp add: InstallFromPath_def)
  next
    case (Inr v)
    then obtain mf dir where v: "res = Inr (mf, dir)" by (cases v) auto
    from extract_changes(3) [OF e v] extract_changes(1) [OF e] have name: "valid_name (mf_name mf)" and dir: "dir = RuntimeDir (rm_data_dir m1) (mf_name mf)" by auto
    let ?row = "\<lparr> rr_name = mf_name mf, rr_version = mf_version mf, rr_display = mf_display mf,
            rr_description = mf_description mf, rr_path = dir, rr_auto = True, rr_installed = 0 \<rparr>"
    obtain u m2 where u: "UpsertRuntime ?row now m1 = (u, m2)" by (rule prod.exhaust)
    have ok1: "rt_ok m1" using k1 by (simp add: rt_keeps_def)
    have k2: "rt_keeps m1 m2" using store_keeps(4) [OF ok1, of ?row now] name u by simp
    then have ok2: "rt_ok m2" and d2: "rm_data_dir m2 = rm_data_dir m1" by (simp_all add: rt_keeps_def)
    obtain l m3 where l: "reload yaml m2 = (l, m3)" by (rule prod.exhaust)
    have k3: "rt_keeps m2 m3" using reload_keeps [OF ok2, of yaml] l by simp
    have undo: "rt_keeps m2 (m2\<lparr>rm_files := snd (removeInstallArtifacts undo dir (rm_files m2))\<rparr>)"
      by (rule files_keeps [OF ok2 name]) (simp add: dir d2 remove_changes)
    have "rt_ok m3" using k3 by (simp add: rt_keeps_def)
    then have "rt_ok (fireInstallChange m3)" by (simp add: rt_ok_def fireInstallChange_def)
    from start_whole_keeps [OF this] have k4: "rt_keeps m3 (snd (start_whole (mf_name mf) reply (fireInstallChange m3)))"
      by (simp add: rt_keeps_def fireInstallChange_def)
    show ?thesis using e v u l undo k1 k2 k3 k4
      by (auto simp: InstallFromPath_def split: sum.splits intro: keeps_trans)
  qed
qed

lemma Uninstall_keeps:
  assumes ok: "rt_ok m"
  shows "rt_keeps m (snd (Uninstall yaml name undo m))"
proof (cases "IsInstalled name m")
  case True
  then have name: "valid_name name" using installed_valid [OF ok] by (auto simp: IsInstalled_def)
  have k1: "rt_keeps m (snd (Stop name m))" by (rule Stop_keeps [OF ok])
  then have ok1: "rt_ok (snd (Stop name m))" by (simp add: rt_keeps_def)
  obtain u m2 where u: "DeleteRuntime name (snd (Stop name m)) = (u, m2)" by (rule prod.exhaust)
  have k2: "rt_keeps (snd (Stop name m)) m2" using store_keeps(2) [OF ok1, of name] u by simp
  then have ok2: "rt_ok m2" by (simp add: rt_keeps_def)
  let ?m3 = "m2\<lparr>rm_files := snd (removeInstallArtifacts undo (RuntimeDir (rm_data_dir m2) name) (rm_files m2))\<rparr>"
  have k3: "rt_keeps m2 ?m3" by (rule files_keeps [OF ok2 name remove_changes])
  then have ok3: "rt_ok ?m3" by (simp add: rt_keeps_def)
  obtain l m4 where l: "reload yaml ?m3 = (l, m4)" by (rule prod.exhaust)
  have k4: "rt_keeps ?m3 m4" using reload_keeps [OF ok3, of yaml] l by simp
  show ?thesis using u l keeps_trans [OF keeps_trans [OF k1 k2] keeps_trans [OF k3 k4]] keeps_trans [OF k1 k2] True
    by (auto simp: Uninstall_def Let_def split: sum.splits)
qed (use keeps_refl [OF ok] in \<open>simp add: Uninstall_def\<close>)

subsection \<open>Over any history\<close>

datatype rt_op = Install "zip_entry list option" "string option" "string option" time "init_reply option" | Remove runtime_name "string option"
  | BeginStart runtime_name | FinishStart nat "init_reply option" | StopRuntime runtime_name | Exits nat | Watch runtime_name nat
  | AutoStart runtime_name bool | AutoAll "(runtime_name \<times> init_reply) list" | ShutdownAll

fun rt_step :: "(bytes \<Rightarrow> manifest option) \<Rightarrow> rt_op \<Rightarrow> rt_manager \<Rightarrow> rt_manager" where
  "rt_step yaml (Install package clear undo now reply) m = snd (InstallFromPath yaml package clear undo now reply m)"
| "rt_step yaml (Remove name undo) m = snd (Uninstall yaml name undo m)"
| "rt_step yaml (BeginStart name) m = snd (start_begin name m)"
| "rt_step yaml (FinishStart i reply) m = (if i < length (rm_starting m)
     then (case rm_starting m ! i of (name, mf) \<Rightarrow>
       snd (start_finish name mf reply (m\<lparr>rm_starting := take i (rm_starting m) @ drop (Suc i) (rm_starting m)\<rparr>)))
     else m)"
| "rt_step yaml (StopRuntime name) m = snd (Stop name m)"
| "rt_step yaml (Exits g) m = (if g < length (rm_gateways m)
     then m\<lparr>rm_gateways := (rm_gateways m)[g := (rm_gateways m ! g)\<lparr>gw_exited := True\<rparr>]\<rparr> else m)"
| "rt_step yaml (Watch name g) m = snd (watchGatewayExit name g m)"
| "rt_step yaml (AutoStart name auto) m = snd (SetAutoStart name auto m)"
| "rt_step yaml (AutoAll replies) m = AutoStartAll (map_of replies) m"
| "rt_step yaml ShutdownAll m = Shutdown m"

definition rt_boot :: "(bytes \<Rightarrow> manifest option) \<Rightarrow> string list \<Rightarrow> runtime_row list \<Rightarrow> bool list \<Rightarrow> file_map \<Rightarrow> rt_manager" where
  "rt_boot yaml dir tbl faults files = snd (reload yaml \<lparr> rt_rows = tbl, rt_faults = faults, rm_data_dir = dir, rm_installed = [],
     rm_running = [], rm_gateways = [], rm_starting = [], rm_files = files, rm_state_log = [], rm_install_log = [] \<rparr>)"

lemma rt_step_keeps:
  assumes ok: "rt_ok m"
  shows "rt_keeps m (rt_step yaml op m)"
proof (cases op)
  case (FinishStart i reply)
  show ?thesis
  proof (cases "i < length (rm_starting m)")
    case True
    obtain name mf where p: "rm_starting m ! i = (name, mf)" by (rule prod.exhaust)
    let ?m = "m\<lparr>rm_starting := take i (rm_starting m) @ drop (Suc i) (rm_starting m)\<rparr>"
    have "valid_name name" using ok nth_mem [OF True] p by (fastforce simp: rt_ok_def)
    moreover have "rt_keeps m ?m" using ok by (auto simp: rt_keeps_def rt_ok_def dest: in_set_takeD in_set_dropD)
    ultimately have "rt_keeps m (snd (start_finish name mf reply ?m))"
      using start_finish_keeps [of ?m name mf reply] keeps_trans by (auto simp: rt_keeps_def)
    with FinishStart True p show ?thesis by simp
  qed (use FinishStart keeps_refl [OF ok] in simp)
next
  case (Exits g)
  then show ?thesis using ok by (auto simp: rt_keeps_def rt_ok_def nth_list_update)
qed (use ok in \<open>simp_all add: Install_keeps Uninstall_keeps start_begin_keeps Stop_keeps watch_keeps SetAutoStart_keeps
    AutoStartAll_keeps Shutdown_keeps\<close>)

lemma rt_run_keeps: "rt_ok m \<Longrightarrow> rt_keeps m (fold (rt_step yaml) ops m)"
proof (induction ops arbitrary: m)
  case (Cons op ops)
  have s: "rt_keeps m (rt_step yaml op m)" by (rule rt_step_keeps [OF Cons.prems])
  then have "rt_ok (rt_step yaml op m)" by (simp add: rt_keeps_def)
  from Cons.IH [OF this] s show ?case by (auto intro: keeps_trans)
qed (simp add: keeps_refl)

text \<open>C21. Over any history of installs of any packages, uninstalls, overlapping starts, stops, crashes and shutdowns, with
  failing statements and removals: only files below the runtimes directory change, whatever names a package's entries
  and manifest carry; the state a gateway keeps in its directory is never deleted; and every runtime shown as running
  has its own gateway process that nobody has closed.\<close>

theorem runtimes_safe:
  assumes "list_all (\<lambda>r. validateRuntimeName (rr_name r) = Inr ()) tbl"
  shows "let m = fold (rt_step yaml) ops (rt_boot yaml dir tbl faults files) in
      {p. map_of (rm_files m) p \<noteq> map_of files p} \<subseteq> {p. below (RuntimesDir dir) p}
    \<and> {p \<in> dom (map_of files). \<exists>name. validateRuntimeName name = Inr () \<and> kept_state (RuntimeDir dir name) p} \<subseteq> dom (map_of (rm_files m))
    \<and> distinct (map fst (rm_running m)) \<and> distinct (map snd (rm_running m))
    \<and> set (map snd (rm_running m)) \<subseteq> {g. g < length (rm_gateways m) \<and> \<not> gw_closed (rm_gateways m ! g)}"
proof -
  let ?start = "\<lparr> rt_rows = tbl, rt_faults = faults, rm_data_dir = dir, rm_installed = [],
     rm_running = [], rm_gateways = [], rm_starting = [], rm_files = files, rm_state_log = [], rm_install_log = [] \<rparr>"
  let ?m = "fold (rt_step yaml) ops (rt_boot yaml dir tbl faults files)"
  have "rt_ok ?start" using assms by (simp add: rt_ok_def list_all_iff)
  from reload_keeps [OF this, of yaml] have "rt_keeps ?start (rt_boot yaml dir tbl faults files)" by (simp add: rt_boot_def)
  moreover from this have "rt_keeps (rt_boot yaml dir tbl faults files) ?m" by (intro rt_run_keeps) (simp add: rt_keeps_def)
  ultimately have "rt_keeps ?start ?m" by (rule keeps_trans)
  then have ok: "rt_ok ?m" and f: "rt_files_ok dir files (rm_files ?m)" by (simp_all add: rt_keeps_def)
  have "{p. map_of (rm_files ?m) p \<noteq> map_of files p} \<subseteq> {p. below (RuntimesDir dir) p}" using f by (auto simp: rt_files_ok_def)
  moreover have "{p \<in> dom (map_of files). \<exists>name. validateRuntimeName name = Inr () \<and> kept_state (RuntimeDir dir name) p} \<subseteq> dom (map_of (rm_files ?m))"
    using f unfolding rt_files_ok_def dom_def by blast
  ultimately show ?thesis using ok unfolding Let_def rt_ok_def by blast
qed

subsection \<open>Uninstalling, and an overlap\<close>

text \<open>An uninstall whose store and removals work leaves the runtime neither installed nor running, and of its directory
  exactly the gateway's state.\<close>

lemma uninstall_exact:
  assumes ok: "rt_ok m" and i: "IsInstalled name m" and f: "rt_faults m = []"
    and u: "Uninstall yaml name None m = (r, m')"
  shows "r = Inr () \<and> \<not> IsInstalled name m' \<and> \<not> IsRunning name m'
    \<and> map_of (rm_files m') p = (if below (RuntimeDir (rm_data_dir m) name) p \<and> \<not> kept_state (RuntimeDir (rm_data_dir m) name) p
        then None else map_of (rm_files m) p)"
proof -
  define ms where "ms = snd (Stop name m)"
  have ms: "rt_rows ms = rt_rows m" "rt_faults ms = []" "rm_data_dir ms = rm_data_dir m" "rm_files ms = rm_files m"
    "map_of (rm_running ms) name = None"
    using f by (auto simp: ms_def Stop_def fireStateChange_def close_gateway_def split: option.splits)
  have removed: "map_of (snd (removeInstallArtifacts None d files)) p = (if below d p \<and> \<not> kept_state d p then None else map_of files p)" for d files
    by (rule remove_exact) (simp add: removeInstallArtifacts_def)
  define inst where "inst = fold (\<lambda>r. AList.update (rr_name r) (row_manifest yaml (snd (removeInstallArtifacts None (RuntimeDir (rm_data_dir m) name) (rm_files m))) r))
      (sort_key (\<lambda>r. (rr_display r, rr_name r)) (filter (\<lambda>r. rr_name r \<noteq> name) (rt_rows m))) []"
  have "name \<notin> set (keys inst)" unfolding inst_def keys_fold_update by auto
  then have none: "map_of inst name = None" by (simp add: map_of_eq_None_iff)
  have "(r, m') = (Inr (), fireInstallChange (ms\<lparr>rt_rows := filter (\<lambda>r. rr_name r \<noteq> name) (rt_rows m),
      rm_files := snd (removeInstallArtifacts None (RuntimeDir (rm_data_dir m) name) (rm_files m)), rt_faults := [], rm_installed := inst\<rparr>))"
    using u i ms by (auto simp: Uninstall_def DeleteRuntime_def rtx_def reload_def ListRuntimes_def Let_def inst_def ms_def [symmetric])
  then show ?thesis using none ms removed by (simp add: IsInstalled_def IsRunning_def fireInstallChange_def)
qed

definition demo_manifest :: manifest where
  "demo_manifest = \<lparr> mf_name = ''llama'', mf_version = ''1'', mf_display = ''L'', mf_description = '''', mf_auto = False, mf_binary = ''bin/gw'' \<rparr>"

definition demo_yaml :: "bytes \<Rightarrow> manifest option" where
  "demo_yaml b = (if b = [7] then Some demo_manifest else None)"

definition demo_package :: "zip_entry list" where
  "demo_package = [\<lparr> ze_name = ''runtime.yml'', ze_dir = False, ze_data = [7], ze_ok = True \<rparr>,
     \<lparr> ze_name = ''bin/gw'', ze_dir = False, ze_data = [1], ze_ok = True \<rparr>]"

definition demo_reply :: init_reply where
  "demo_reply = \<lparr> ir_name = ''llama'', ir_version = ''2'', ir_display = '''', ir_description = '''', ir_protocol_ok = True \<rparr>"

definition demo_files :: file_map where
  "demo_files = [([''d'', ''runtimes'', ''llama'', ''x-catalogue.json''], [9]), ([''d'', ''runtimes'', ''llama'', ''old''], [8])]"

text \<open>An install over an old state starts its gateway and clears the leftovers; an uninstall keeps the state.\<close>

theorem runtimes_safe_witness:
  "let m = fold (rt_step demo_yaml) [Install (Some demo_package) None None 5 (Some demo_reply), Remove ''llama'' None] (rt_boot demo_yaml [''d''] [] [] demo_files) in
     map fst (rm_files m) = [[''d'', ''runtimes'', ''llama'', ''x-catalogue.json'']]
   \<and> map gw_closed (rm_gateways m) = [True] \<and> distinct (map snd (rm_running m))"
proof -
  let ?ops = "[Install (Some demo_package) None None 5 (Some demo_reply), Remove ''llama'' None]"
  let ?m = "fold (rt_step demo_yaml) ?ops (rt_boot demo_yaml [''d''] [] [] demo_files)"
  have "list_all (\<lambda>r. validateRuntimeName (rr_name r) = Inr ()) []" by simp
  from runtimes_safe [OF this, of demo_yaml ?ops "[''d'']" "[]" demo_files] have "distinct (map snd (rm_running ?m))" by (simp only: Let_def)
  moreover have "map fst (rm_files ?m) = [[''d'', ''runtimes'', ''llama'', ''x-catalogue.json'']] \<and> map gw_closed (rm_gateways ?m) = [True]"
    by code_simp
  ultimately show ?thesis by (simp only: Let_def simp_thms)
qed

text \<open>Two starts that overlap launch two processes; the first is neither running nor ever closed.\<close>

lemma overlapping_starts_leak:
  "let m = fold (rt_step demo_yaml) [Install (Some demo_package) None None 5 None, BeginStart ''llama'', BeginStart ''llama'',
       FinishStart 0 (Some demo_reply), FinishStart 0 (Some demo_reply), Watch ''llama'' 0, ShutdownAll] (rt_boot demo_yaml [''d''] [] [] [])
   in rm_running m = [] \<and> map gw_closed (rm_gateways m) = [False, True]"
  by code_simp

text \<open>A manifest's binary may name a file outside the package: it only has to exist.\<close>

lemma binary_outside_package:
  "resolveBinary [''d'', ''runtimes'', ''llama''] (demo_manifest\<lparr>mf_binary := ''../../../tool''\<rparr>) [([''tool''], [1])] = Inr [''tool'']"
  by code_simp

end
