(* ===== verification/Operations.thy ===== *)
theory Operations
  imports Control Bench Download_Safety Runtimes Credentials
begin

text \<open>
  The operations behind the dashboard and the control RPC (\<open>internal/web\<close>: \<open>workerops.go\<close>, \<open>schedulerops.go\<close>,
  \<open>queueops.go\<close>, \<open>runtimeops.go\<close>, \<open>modelops.go\<close>), with the closures \<open>cmd/mass/serve.go\<close> hands to the scheduler
  and the device-benchmark loop of \<open>routes_dashboard.go\<close>. They compose the scheduler, the benchmark orchestrator, the
  download manager, the runtime manager and the enroller, and write the audit trail.

  A subsystem that is not wired is a flag. What a gateway plans, a worker replies, the file system allows or a stream
  accepts is an argument. An audit line is its action, target and outcome.
\<close>

subsection \<open>The handler\<close>

datatype outcome = OutcomeOK | OutcomeDenied | OutcomeError

record handler =
  hd_sched :: sched
  hd_bench :: orchestrator
  hd_downloads :: dl_manager
  hd_runtimes :: rt_manager
  hd_enroll :: enroll_store
  hd_pushed :: "(worker_id \<times> enabled_devices) list"
  hd_changes :: nat
  hd_audit :: "(string \<times> string \<times> outcome) list"
  hd_has_workers :: bool
  hd_has_store :: bool
  hd_has_orch :: bool
  hd_has_downloads :: bool
  hd_has_runtimes :: bool
  hd_has_enroller :: bool

datatype op_error = ErrOpNotFound | ErrOpBusy | ErrOpInvalid | ErrOpUnavailable
  | OpDatabase db_error | OpQueue cancel_error | OpRuntime runtime_error | OpEnroll enroll_error | OpUnload

definition audit :: "string \<Rightarrow> string \<Rightarrow> outcome \<Rightarrow> handler \<Rightarrow> handler" where
  "audit action target oc h = h\<lparr>hd_audit := hd_audit h @ [(action, target, oc)]\<rparr>"

definition on_sched :: "(sched \<Rightarrow> 'r \<times> sched) \<Rightarrow> handler \<Rightarrow> 'r \<times> handler" where
  "on_sched f h = (case f (hd_sched h) of (r, s) \<Rightarrow> (r, h\<lparr>hd_sched := s\<rparr>))"

subsection \<open>Device toggles\<close>

text \<open>What the scheduler asks about a device and a worker, given the rows read for it: enabled unless a row says otherwise.\<close>

definition deviceEnabledFn :: "db_error + (device_id \<times> bool) list \<Rightarrow> device_id \<Rightarrow> bool" where
  "deviceEnabledFn answer i = (case answer of
      Inl _ \<Rightarrow> True
    | Inr rs \<Rightarrow> (case find (\<lambda>(j, _). j = i) rs of None \<Rightarrow> True | Some (_, b) \<Rightarrow> b))"

definition workerEnabledFn :: "db_error + (device_id \<times> bool) list \<Rightarrow> stream_worker option \<Rightarrow> bool" where
  "workerEnabledFn answer sw = (case sw of
      None \<Rightarrow> True
    | Some w \<Rightarrow>
        if length (w_devices w) = 0 then True
        else case answer of
            Inl _ \<Rightarrow> True
          | Inr rs \<Rightarrow> list_ex (\<lambda>d. case map_of rs (dev_id d) of None \<Rightarrow> True | Some b \<Rightarrow> b) (w_devices w))"

text \<open>The scheduler calls them whenever it looks; its model keeps what they say, refreshed here where the rows change.
  \<open>unreadable\<close> says for which workers the statement fails.\<close>

definition read_toggles :: "(worker_id \<Rightarrow> bool) \<Rightarrow> sched \<Rightarrow> sched" where
  "read_toggles unreadable s =
     (let answer = (\<lambda>w. if unreadable w then Inl DbError else fst (ListWorkerDevicesEnabled w (s\<lparr>state_faults := []\<rparr>)))
      in s\<lparr>sc_device_enabled := \<lambda>w. deviceEnabledFn (answer w),
           sc_worker_enabled := \<lambda>w. workerEnabledFn (answer w) (Get_worker w (sc_fleet s))\<rparr>)"

text \<open>What the outside does to a toggle: whether the stream takes the message, which rows cannot be read.\<close>

record toggle_env =
  te_sent :: bool
  te_unreadable :: "worker_id \<Rightarrow> bool"

definition deviceEnabled :: "worker_id \<Rightarrow> device_id \<Rightarrow> handler \<Rightarrow> bool \<times> handler" where
  "deviceEnabled w i h =
     (if \<not> hd_has_store h then (True, h)
      else case on_sched (GetWorkerDeviceEnabled w i) h of (Inl _, h) \<Rightarrow> (True, h) | (Inr b, h) \<Rightarrow> (b, h))"

definition workerAnyEnabled :: "worker_id \<Rightarrow> device list \<Rightarrow> handler \<Rightarrow> bool \<times> handler" where
  "workerAnyEnabled w devs h =
     (let (state, h) = (if \<not> hd_has_store h then ([], h)
            else case on_sched (ListWorkerDevicesEnabled w) h of (Inl _, h) \<Rightarrow> ([], h) | (Inr rs, h) \<Rightarrow> (rs, h))
      in (list_ex (\<lambda>d. case map_of state (dev_id d) of None \<Rightarrow> True | Some b \<Rightarrow> b) devs, h))"

definition computeEnabledDevices :: "worker_id \<Rightarrow> device list \<Rightarrow> handler \<Rightarrow> enabled_devices \<times> handler" where
  "computeEnabledDevices w devs h = (case on_sched (ListWorkerDevicesEnabled w) h of
      (Inl _, h) \<Rightarrow> (\<lparr> ed_all = True, ed_ids = [] \<rparr>, h)
    | (Inr rs, h) \<Rightarrow> (ComputeEnabledDevices (map dev_id devs) rs, h))"

definition pushEnabledDevices :: "bool \<Rightarrow> stream_worker \<Rightarrow> handler \<Rightarrow> handler" where
  "pushEnabledDevices sent sw h = (case computeEnabledDevices (w_id sw) (w_devices sw) h of
      (enabled, h) \<Rightarrow> if send_ok sent sw then h\<lparr>hd_pushed := hd_pushed h @ [(w_id sw, enabled)]\<rparr> else h)"

definition applyDeviceToggle :: "toggle_env \<Rightarrow> stream_worker \<Rightarrow> worker_id \<Rightarrow> handler \<Rightarrow> handler" where
  "applyDeviceToggle env sw w h =
     (let h = pushEnabledDevices (te_sent env) sw h;
          h = h\<lparr>hd_sched := read_toggles (te_unreadable env) (hd_sched h)\<rparr>;
          h = (if hd_has_orch h
               then h\<lparr>hd_sched := ReestimateWorkerQueue w (OnWorkerDevicesChanged w (OnWorkerConnected sw (hd_sched h)))\<rparr>
               else h)
      in h\<lparr>hd_changes := Suc (hd_changes h)\<rparr>)"

definition tryReestimateLock :: "worker_id \<Rightarrow> handler \<Rightarrow> bool \<times> handler" where
  "tryReestimateLock w h = (if hd_has_orch h then on_sched (TryReestimateLock w) h else (True, h))"

definition release_lock :: "worker_id \<Rightarrow> handler \<Rightarrow> handler" where
  "release_lock w h = (if hd_has_orch h then h\<lparr>hd_sched := releaseReestimate w (hd_sched h)\<rparr> else h)"

definition setWorkerDeviceEnabled :: "toggle_env \<Rightarrow> worker_id \<Rightarrow> device_id \<Rightarrow> bool \<Rightarrow> handler \<Rightarrow> (op_error + unit) \<times> handler" where
  "setWorkerDeviceEnabled env w i enabled h =
     (if \<not> hd_has_workers h \<or> \<not> hd_has_store h then (Inl ErrOpUnavailable, h)
      else if w = '''' \<or> i = '''' then (Inl ErrOpInvalid, h)
      else case Get_worker w (sc_fleet (hd_sched h)) of
        None \<Rightarrow> (Inl ErrOpNotFound, h)
      | Some sw \<Rightarrow> (case tryReestimateLock w h of
          (False, h) \<Rightarrow> (Inl ErrOpBusy, h)
        | (True, h) \<Rightarrow> (case on_sched (SetWorkerDeviceEnabled w i enabled) h of
            (Inl e, h) \<Rightarrow> (Inl (OpDatabase e), release_lock w h)
          | (Inr _, h) \<Rightarrow>
              let h = audit (if enabled then ''worker.device_enabled'' else ''worker.device_disabled'') w OutcomeOK h
              in (Inr (), release_lock w (applyDeviceToggle env sw w h)))))"

definition setWorkerEnabled :: "toggle_env \<Rightarrow> worker_id \<Rightarrow> bool \<Rightarrow> handler \<Rightarrow> (op_error + unit) \<times> handler" where
  "setWorkerEnabled env w enabled h =
     (if \<not> hd_has_workers h \<or> \<not> hd_has_store h then (Inl ErrOpUnavailable, h)
      else if w = '''' then (Inl ErrOpInvalid, h)
      else case Get_worker w (sc_fleet (hd_sched h)) of
        None \<Rightarrow> (Inl ErrOpNotFound, h)
      | Some sw \<Rightarrow> (case tryReestimateLock w h of
          (False, h) \<Rightarrow> (Inl ErrOpBusy, h)
        | (True, h) \<Rightarrow>
            if length (w_devices sw) = 0 then (Inr (), release_lock w h)
            else (case on_sched (SetWorkerDevicesEnabledBulk w (map dev_id (w_devices sw)) enabled) h of
              (Inl e, h) \<Rightarrow> (Inl (OpDatabase e), release_lock w h)
            | (Inr _, h) \<Rightarrow>
                let h = audit (if enabled then ''worker.enabled'' else ''worker.disabled'') w OutcomeOK h
                in (Inr (), release_lock w (applyDeviceToggle env sw w h)))))"

subsection \<open>Benchmarking devices\<close>

record bench_result =
  bq_worker :: worker_id
  bq_device :: device_id
  bq_name :: string
  bq_memory :: rat
  bq_load :: rat
  bq_flops :: rat
  bq_error :: string

text \<open>\<open>replies\<close> is what the worker replies for a device: an error, or the measured row.\<close>

definition benchmark_device :: "(device_id \<Rightarrow> string + device_benchmark) \<Rightarrow> stream_worker \<Rightarrow> device
    \<Rightarrow> bench_result list \<times> handler \<Rightarrow> bench_result list \<times> handler" where
  "benchmark_device replies sw dev = (\<lambda>(res, h). case replies (dev_id dev) of
      Inl err \<Rightarrow> (res @ [\<lparr> bq_worker = w_id sw, bq_device = dev_id dev, bq_name = '''', bq_memory = 0, bq_load = 0,
         bq_flops = 0, bq_error = err \<rparr>], h)
    | Inr r \<Rightarrow>
        let h = snd (on_sched (SaveBenchmark (r\<lparr>be_worker_id := w_id sw\<rparr>)) h);
            h = (if hd_has_orch h then h\<lparr>hd_sched := InvalidateBench (w_id sw) (be_device_id r) (hd_sched h)\<rparr> else h)
        in (res @ [\<lparr> bq_worker = w_id sw, bq_device = be_device_id r, bq_name = be_device_name r, bq_memory = be_memory_gbs r,
              bq_load = be_load_gbs r, bq_flops = be_flops r, bq_error = '''' \<rparr>], h))"

definition benchmarkWorker :: "(device_id \<Rightarrow> string + device_benchmark) \<Rightarrow> device_id list \<Rightarrow> stream_worker
    \<Rightarrow> bench_result list \<times> handler \<Rightarrow> bench_result list \<times> handler" where
  "benchmarkWorker replies want sw rh =
     (case fold (benchmark_device replies sw) (filter (\<lambda>d. want = [] \<or> dev_id d \<in> set want) (w_devices sw)) rh of
        (res, h) \<Rightarrow> (res, if hd_has_orch h then h\<lparr>hd_sched := OnWorkerConnected sw (hd_sched h)\<rparr> else h))"

definition sliceSet :: "string list \<Rightarrow> string list" where
  "sliceSet ss = remdups (filter (\<lambda>s. s \<noteq> '''') ss)"

text \<open>The workers are measured at the same time; here one after the other, in the order of the fleet.\<close>

definition benchmarkWorkers :: "(worker_id \<Rightarrow> device_id \<Rightarrow> string + device_benchmark) \<Rightarrow> worker_id list \<Rightarrow> device_id list
    \<Rightarrow> handler \<Rightarrow> bench_result list \<times> handler" where
  "benchmarkWorkers replies workerIDs deviceIDs h =
     (if \<not> hd_has_workers h then ([], h)
      else
        let wantWorkers = sliceSet workerIDs; wantDevices = sliceSet deviceIDs;
            targets = filter (\<lambda>sw. w_online sw \<and> (wantWorkers = [] \<or> w_id sw \<in> set wantWorkers)) (All_workers (sc_fleet (hd_sched h)));
            (res, h) = fold (\<lambda>sw. benchmarkWorker (replies (w_id sw)) wantDevices sw) targets ([], h)
        in (res, h\<lparr>hd_changes := Suc (hd_changes h)\<rparr>))"

subsection \<open>Enrollment\<close>

definition mintJoinToken :: "time \<Rightarrow> bytes option \<Rightarrow> string \<Rightarrow> (string \<Rightarrow> string option) \<Rightarrow> time \<Rightarrow> handler
    \<Rightarrow> (op_error + (string \<times> int)) \<times> handler" where
  "mintJoinToken ttl random i hash now h =
     (if \<not> hd_has_enroller h then (Inl ErrOpUnavailable, h)
      else case MintJoinToken ttl random i hash now (hd_enroll h) of
          (Inl e, es) \<Rightarrow> (Inl (OpEnroll e), h\<lparr>hd_enroll := es\<rparr>)
        | (Inr r, es) \<Rightarrow> (Inr r, audit ''worker.join_token_created'' '''' OutcomeOK (h\<lparr>hd_enroll := es\<rparr>)))"

definition revokeWorker :: "worker_id \<Rightarrow> handler \<Rightarrow> (op_error + unit) \<times> handler" where
  "revokeWorker w h =
     (if \<not> hd_has_store h then (Inl ErrOpUnavailable, h)
      else if w = '''' then (Inl ErrOpInvalid, h)
      else case DeleteWorker w (hd_enroll h) of
          (Inl e, es) \<Rightarrow> (Inl (OpDatabase e), h\<lparr>hd_enroll := es\<rparr>)
        | (Inr deleted, es) \<Rightarrow>
            let h = h\<lparr>hd_enroll := es\<rparr> in
            if \<not> deleted then (Inl ErrOpNotFound, h)
            else
              let h = (if hd_has_orch h then h\<lparr>hd_sched := OnWorkerRemoved w (hd_sched h)\<rparr> else h)
              in (Inr (), audit ''worker.revoked'' w OutcomeOK h))"

subsection \<open>Views of the fleet\<close>

record device_info =
  di_id :: device_id
  di_name :: string
  di_type :: device_type
  di_enabled :: bool
  di_total_mb :: int
  di_used_mb :: int
  di_utilization :: rat
  di_has_utilization :: bool
  di_has_stats :: bool
  di_has_benchmark :: bool
  di_memory_gbs :: rat
  di_load_gbs :: rat
  di_flops :: rat

record worker_info =
  wi_id :: worker_id
  wi_name :: string
  wi_runtime :: runtime_name
  wi_version :: string
  wi_online :: bool
  wi_enabled :: bool
  wi_active :: int
  wi_devices :: "device_info list"
  wi_benching :: model_id

text \<open>A Go map filled in a loop keeps the last entry of a key.\<close>

definition device_info_of :: "stream_worker \<Rightarrow> (device_id \<times> bool) list \<Rightarrow> device \<Rightarrow> handler \<Rightarrow> device_info \<times> handler" where
  "device_info_of sw state dev h =
     (let enabled = (case map_of state (dev_id dev) of None \<Rightarrow> True | Some b \<Rightarrow> b);
          stat = map_of (rev (map (\<lambda>s. (ds_device_id s, s)) (w_device_stats sw))) (dev_id dev);
          (bench, h) = (if hd_has_store h then
              case on_sched (GetBenchmark (w_id sw) (dev_id dev)) h of (Inl _, h) \<Rightarrow> (None, h) | (Inr r, h) \<Rightarrow> (Some r, h)
            else (None, h));
          di = \<lparr> di_id = dev_id dev, di_name = dev_name dev, di_type = dev_type dev, di_enabled = enabled,
            di_total_mb = dev_total_mb dev, di_used_mb = 0, di_utilization = 0, di_has_utilization = False, di_has_stats = False,
            di_has_benchmark = bench \<noteq> None,
            di_memory_gbs = (case bench of None \<Rightarrow> 0 | Some r \<Rightarrow> be_memory_gbs r),
            di_load_gbs = (case bench of None \<Rightarrow> 0 | Some r \<Rightarrow> be_load_gbs r),
            di_flops = (case bench of None \<Rightarrow> 0 | Some r \<Rightarrow> be_flops r) \<rparr>
      in (case stat of
            None \<Rightarrow> di
          | Some st \<Rightarrow>
              (if ds_total_mb st > 0 then di\<lparr>di_used_mb := ds_used_mb st, di_total_mb := ds_total_mb st, di_has_stats := True\<rparr> else di)
                \<lparr>di_utilization := ds_utilization st, di_has_utilization := True\<rparr>, h))"

fun device_infos :: "stream_worker \<Rightarrow> (device_id \<times> bool) list \<Rightarrow> device list \<Rightarrow> handler \<Rightarrow> device_info list \<times> handler" where
  "device_infos sw state [] h = ([], h)"
| "device_infos sw state (d # ds) h = (case device_info_of sw state d h of
     (di, h) \<Rightarrow> case device_infos sw state ds h of (dis, h) \<Rightarrow> (di # dis, h))"

definition worker_info_of :: "stream_worker \<Rightarrow> handler \<Rightarrow> worker_info \<times> handler" where
  "worker_info_of sw h =
     (let (state, h) = (if hd_has_store h then
            case on_sched (ListWorkerDevicesEnabled (w_id sw)) h of (Inl _, h) \<Rightarrow> ([], h) | (Inr rs, h) \<Rightarrow> (rs, h)
          else ([], h));
          (devices, h) = device_infos sw state (w_devices sw) h
      in (\<lparr> wi_id = w_id sw, wi_name = w_name sw, wi_runtime = w_runtime sw, wi_version = w_version sw, wi_online = w_online sw,
            wi_enabled = (list_ex di_enabled devices \<or> length devices = 0), wi_active = w_active_jobs sw, wi_devices = devices,
            wi_benching = (if hd_has_orch h then BenchInFlight (w_id sw) (hd_bench h) else '''') \<rparr>, h))"

fun worker_infos :: "stream_worker list \<Rightarrow> handler \<Rightarrow> worker_info list \<times> handler" where
  "worker_infos [] h = ([], h)"
| "worker_infos (sw # sws) h = (case worker_info_of sw h of
     (wi, h) \<Rightarrow> case worker_infos sws h of (wis, h) \<Rightarrow> (wi # wis, h))"

definition workerInfos :: "handler \<Rightarrow> worker_info list \<times> handler" where
  "workerInfos h = (if \<not> hd_has_workers h then ([], h) else worker_infos (All_workers (sc_fleet (hd_sched h))) h)"

subsection \<open>Loaded instances\<close>

record instance_info =
  in_key :: string
  in_model :: model_id
  in_filename :: string
  in_fingerprint :: string
  in_worker :: worker_id
  in_worker_name :: string
  in_runtime :: runtime_name
  in_devices :: "device_id list"
  in_source :: string
  in_mode :: string
  in_status :: string
  in_pool :: int
  in_active :: int

text \<open>The suffix after the last \<open>#\<close>, and what precedes it.\<close>

definition splitModelID :: "model_id \<Rightarrow> string \<times> string" where
  "splitModelID i =
     (if CHR 0x23 \<notin> set i then (i, '''')
      else let suffix = rev (takeWhile (\<lambda>c. c \<noteq> CHR 0x23) (rev i)) in (take (length i - length suffix - 1) i, suffix))"

definition instanceDeviceIDs :: "stream_worker \<Rightarrow> loaded_model \<Rightarrow> handler \<Rightarrow> device_id list \<times> handler" where
  "instanceDeviceIDs sw lm h =
     (if length (lm_device_ids lm) > 0 then (lm_device_ids lm, h)
      else if length (w_devices sw) = 0 then ([], h)
      else
        let (state, h) = (if hd_has_store h then
              case on_sched (ListWorkerDevicesEnabled (w_id sw)) h of (Inl _, h) \<Rightarrow> ([], h) | (Inr rs, h) \<Rightarrow> (rs, h)
            else ([], h));
            enabled = (\<lambda>d. case map_of state (dev_id d) of None \<Rightarrow> True | Some b \<Rightarrow> b);
            gpus = map dev_id (filter (\<lambda>d. dev_type d = DeviceTypeGPU \<and> enabled d) (w_devices sw))
        in (if length gpus > 0 then gpus
            else case find (\<lambda>d. dev_type d = DeviceTypeCPU \<and> enabled d) (w_devices sw) of
                None \<Rightarrow> [] | Some d \<Rightarrow> [dev_id d], h))"

definition instance_of :: "stream_worker \<Rightarrow> loaded_model \<Rightarrow> handler \<Rightarrow> instance_info \<times> handler" where
  "instance_of sw lm h = (case instanceDeviceIDs sw lm h of
     (devs, h) \<Rightarrow> (\<lparr> in_key = w_id sw @ '':'' @ lm_model_id lm, in_model = lm_model_id lm, in_filename = fst (splitModelID (lm_model_id lm)),
        in_fingerprint = snd (splitModelID (lm_model_id lm)), in_worker = w_id sw, in_worker_name = w_name sw, in_runtime = w_runtime sw,
        in_devices = devs, in_source = (if lm_source lm = '''' then ''direct'' else lm_source lm), in_mode = ''dynamic'',
        in_status = (if lm_active lm = 0 then ''Idle'' else ''Active''), in_pool = lm_pool_size lm, in_active = lm_active lm \<rparr>, h))"

fun instances_of :: "(stream_worker \<times> loaded_model) list \<Rightarrow> handler \<Rightarrow> instance_info list \<times> handler" where
  "instances_of [] h = ([], h)"
| "instances_of ((sw, lm) # ps) h = (case instance_of sw lm h of
     (i, h) \<Rightarrow> case instances_of ps h of (is, h) \<Rightarrow> (i # is, h))"

definition instanceInfos :: "handler \<Rightarrow> instance_info list \<times> handler" where
  "instanceInfos h =
     (if \<not> hd_has_workers h then ([], h)
      else case instances_of (concat (map (\<lambda>sw. map (Pair sw) (w_loaded sw)) (All_workers (sc_fleet (hd_sched h))))) h of
        (is, h) \<Rightarrow> (sort_key in_key is, h))"

text \<open>\<open>unloads\<close> is whether the worker's \<open>UnloadModel\<close> call succeeds.\<close>

definition evictInstance :: "bool \<Rightarrow> worker_id \<Rightarrow> model_id \<Rightarrow> handler \<Rightarrow> (op_error + unit) \<times> handler" where
  "evictInstance unloads w m h =
     (if \<not> hd_has_workers h then (Inl ErrOpUnavailable, h)
      else if w = '''' \<or> m = '''' then (Inl ErrOpInvalid, h)
      else case find (\<lambda>sw. w_id sw = w) (All_workers (sc_fleet (hd_sched h))) of
          None \<Rightarrow> (Inl ErrOpNotFound, h)
        | Some sw \<Rightarrow>
            if \<not> unloads then (Inl OpUnload, h)
            else let h = audit ''scheduler.evicted'' m OutcomeOK h
                 in (Inr (), h\<lparr>hd_sched := emit (LoadedChanged (w_id sw)) (hd_sched h)\<rparr>))"

subsection \<open>The queue\<close>

definition queueSnapshot :: "handler \<Rightarrow> (op_error + queue_section list) \<times> handler" where
  "queueSnapshot h =
     (if \<not> hd_has_orch h then (Inl ErrOpUnavailable, h)
      else case on_sched (QueueSnapshot (BenchesInFlight (hd_bench h))) h of
          (Inl e, h) \<Rightarrow> (Inl (OpDatabase e), h) | (Inr secs, h) \<Rightarrow> (Inr secs, h))"

definition audited_removal :: "string \<Rightarrow> message_id \<Rightarrow> (cancel_error + unit) \<times> handler \<Rightarrow> (op_error + unit) \<times> handler" where
  "audited_removal action i rh = (case rh of
      (Inr _, h) \<Rightarrow> (Inr (), audit action i OutcomeOK h)
    | (Inl e, h) \<Rightarrow> (Inl (OpQueue e), if e = ErrRowInFlight then audit action i OutcomeDenied h else h))"

definition cancelQueuedJob :: "queue_name \<Rightarrow> message_id \<Rightarrow> handler \<Rightarrow> (op_error + unit) \<times> handler" where
  "cancelQueuedJob q i h =
     (if \<not> hd_has_orch h then (Inl ErrOpUnavailable, h)
      else if q = '''' \<or> i = '''' then (Inl ErrOpInvalid, h)
      else audited_removal ''queue.cancelled'' i (on_sched (CancelQueuedRow q i) h))"

definition cancelRunningJob :: "bool \<Rightarrow> request_id \<Rightarrow> handler \<Rightarrow> (op_error + unit) \<times> handler" where
  "cancelRunningJob sent rid h =
     (if \<not> hd_has_orch h then (Inl ErrOpUnavailable, h)
      else if rid = '''' then (Inl ErrOpInvalid, h)
      else case on_sched (CancelRunningJob sent rid) h of
          (Inl e, h) \<Rightarrow> (Inl (OpQueue e), h)
        | (Inr _, h) \<Rightarrow> (Inr (), audit ''queue.running_cancelled'' rid OutcomeOK h))"

definition evictQueuedJob :: "queue_name \<Rightarrow> message_id \<Rightarrow> handler \<Rightarrow> (op_error + unit) \<times> handler" where
  "evictQueuedJob q i h =
     (if \<not> hd_has_orch h then (Inl ErrOpUnavailable, h)
      else if q = '''' \<or> i = '''' then (Inl ErrOpInvalid, h)
      else audited_removal ''queue.evicted'' i (on_sched (EvictQueuedRowToGlobal q i) h))"

subsection \<open>Runtimes\<close>

record runtime_info =
  ri_name :: runtime_name
  ri_version :: string
  ri_display :: string
  ri_description :: string
  ri_auto :: bool
  ri_running :: bool

definition runtime_info_of :: "rt_manager \<Rightarrow> manifest \<Rightarrow> runtime_info" where
  "runtime_info_of m mf = \<lparr> ri_name = mf_name mf, ri_version = mf_version mf, ri_display = mf_display mf,
     ri_description = mf_description mf, ri_auto = mf_auto mf, ri_running = IsRunning (mf_name mf) m \<rparr>"

definition listRuntimeInfos :: "handler \<Rightarrow> runtime_info list" where
  "listRuntimeInfos h = (if \<not> hd_has_runtimes h then []
     else map (runtime_info_of (hd_runtimes h) \<circ> snd) (rm_installed (hd_runtimes h)))"

definition on_runtimes :: "(rt_manager \<Rightarrow> (runtime_error + 'r) \<times> rt_manager) \<Rightarrow> handler \<Rightarrow> (op_error + 'r) \<times> handler" where
  "on_runtimes f h = (case f (hd_runtimes h) of
      (Inl e, m) \<Rightarrow> (Inl (OpRuntime e), h\<lparr>hd_runtimes := m\<rparr>)
    | (Inr r, m) \<Rightarrow> (Inr r, h\<lparr>hd_runtimes := m\<rparr>))"

text \<open>The arguments before \<open>path\<close> are those of \<open>InstallFromPath\<close>: the parser, what the archive at \<open>path\<close> holds, and so on.\<close>

definition installRuntime :: "(bytes \<Rightarrow> manifest option) \<Rightarrow> zip_entry list option \<Rightarrow> string option \<Rightarrow> string option \<Rightarrow> time
    \<Rightarrow> init_reply option \<Rightarrow> string \<Rightarrow> handler \<Rightarrow> (op_error + runtime_info) \<times> handler" where
  "installRuntime yaml package clear undo now reply path h =
     (if \<not> hd_has_runtimes h then (Inl ErrOpUnavailable, h)
      else if path = '''' then (Inl ErrOpInvalid, h)
      else case on_runtimes (InstallFromPath yaml package clear undo now reply) h of
          (Inl e, h) \<Rightarrow> (Inl e, audit ''runtime.installed'' path OutcomeError h)
        | (Inr mf, h) \<Rightarrow> (Inr (runtime_info_of (hd_runtimes h) mf), audit ''runtime.installed'' path OutcomeOK h))"

definition uninstallRuntime :: "(bytes \<Rightarrow> manifest option) \<Rightarrow> string option \<Rightarrow> runtime_name \<Rightarrow> handler
    \<Rightarrow> (op_error + unit) \<times> handler" where
  "uninstallRuntime yaml undo name h =
     (if \<not> hd_has_runtimes h then (Inl ErrOpUnavailable, h)
      else case on_runtimes (Uninstall yaml name undo) h of
          (Inl e, h) \<Rightarrow> (Inl e, audit ''runtime.uninstalled'' name OutcomeError h)
        | (Inr _, h) \<Rightarrow> (Inr (), audit ''runtime.uninstalled'' name OutcomeOK h))"

definition startRuntime :: "init_reply option \<Rightarrow> runtime_name \<Rightarrow> handler \<Rightarrow> (op_error + unit) \<times> handler" where
  "startRuntime reply name h =
     (if \<not> hd_has_runtimes h then (Inl ErrOpUnavailable, h)
      else case on_runtimes (start_whole name reply) h of
          (Inl e, h) \<Rightarrow> (Inl e, if e \<noteq> OpRuntime ErrRuntimeNotFound then audit ''runtime.started'' name OutcomeError h else h)
        | (Inr _, h) \<Rightarrow> (Inr (), audit ''runtime.started'' name OutcomeOK h))"

definition stopRuntime :: "runtime_name \<Rightarrow> handler \<Rightarrow> (op_error + unit) \<times> handler" where
  "stopRuntime name h =
     (if \<not> hd_has_runtimes h then (Inl ErrOpUnavailable, h)
      else case on_runtimes (Stop name) h of
          (Inl e, h) \<Rightarrow> if e \<noteq> OpRuntime ErrRuntimeNotRunning then (Inl e, audit ''runtime.stopped'' name OutcomeError h)
                       else (Inr (), audit ''runtime.stopped'' name OutcomeOK h)
        | (Inr _, h) \<Rightarrow> (Inr (), audit ''runtime.stopped'' name OutcomeOK h))"

definition setRuntimeAutoStart :: "runtime_name \<Rightarrow> bool \<Rightarrow> handler \<Rightarrow> (op_error + unit) \<times> handler" where
  "setRuntimeAutoStart name enabled h =
     (if \<not> hd_has_runtimes h then (Inl ErrOpUnavailable, h)
      else case on_runtimes (SetAutoStart name enabled) h of
          (Inl e, h) \<Rightarrow> (Inl e, h)
        | (Inr _, h) \<Rightarrow> (Inr (), audit ''runtime.autostart_set'' name OutcomeOK h))"

subsection \<open>Models\<close>

datatype gateway_code = GwAlreadyExists | GwNotFound | GwInvalidArgument | GwOtherCode

datatype gateway_error = GwStatus gateway_code | GwPlain

datatype model_op_error = ModelRuntimeDown | ModelConflict | ModelInvalid | ModelUnavailable | ModelBusy string
  | ModelGateway gateway_error | ModelDatabase db_error | ModelDownload dl_error

record planned_file =
  pf_rel :: string
  pf_url :: string
  pf_group :: string
  pf_size :: int

definition mapGatewayErr :: "gateway_error \<Rightarrow> model_op_error" where
  "mapGatewayErr e = (case e of
      GwStatus GwAlreadyExists \<Rightarrow> ModelConflict
    | GwStatus GwNotFound \<Rightarrow> ModelInvalid
    | GwStatus GwInvalidArgument \<Rightarrow> ModelInvalid
    | _ \<Rightarrow> ModelGateway e)"

definition mapDownloadErr :: "dl_error \<Rightarrow> model_op_error" where
  "mapDownloadErr e = (case e of
      ErrAlreadyExists \<Rightarrow> ModelConflict
    | ErrAlreadyDone \<Rightarrow> ModelConflict
    | InvalidRelPath _ \<Rightarrow> ModelInvalid
    | _ \<Rightarrow> ModelDownload e)"

text \<open>\<open>groups\<close> is what a gateway's catalogue call answers; one that fails is skipped.\<close>

definition listModels :: "(nat \<Rightarrow> 'g list option) \<Rightarrow> runtime_name \<Rightarrow> handler \<Rightarrow> model_op_error + (runtime_name \<times> 'g) list" where
  "listModels groups runtime h =
     (if \<not> hd_has_runtimes h then Inl ModelUnavailable
      else bindE (let rt = TrimSpace runtime in
            if rt \<noteq> '''' then (case LoadedGatewayFor rt (hd_runtimes h) of Inl _ \<Rightarrow> Inl ModelRuntimeDown | Inr g \<Rightarrow> Inr [g])
            else Inr (RunningGateways (hd_runtimes h)))
        (\<lambda>gws. Inr (concat (map (\<lambda>g. case groups g of
             None \<Rightarrow> [] | Some gs \<Rightarrow> map (Pair (gw_kind (rm_gateways (hd_runtimes h) ! g))) gs) gws))))"

text \<open>\<open>given\<close> says whether the request's own fields are there, \<open>answer\<close> is the gateway's plan.\<close>

definition planImport :: "runtime_name \<Rightarrow> string \<Rightarrow> bool \<Rightarrow> gateway_error + planned_file list \<Rightarrow> handler
    \<Rightarrow> model_op_error + planned_file list" where
  "planImport runtime name given answer h =
     (if \<not> hd_has_downloads h then Inl ModelUnavailable
      else if TrimSpace runtime = '''' then Inl ModelInvalid
      else if TrimSpace name = '''' then Inl ModelInvalid
      else case LoadedGatewayFor runtime (hd_runtimes h) of
          Inl _ \<Rightarrow> Inl ModelRuntimeDown
        | Inr _ \<Rightarrow> if \<not> given then Inl ModelInvalid
                   else case answer of Inl e \<Rightarrow> Inl (mapGatewayErr e) | Inr files \<Rightarrow> Inr files)"

definition TrimPrefix :: "string \<Rightarrow> string \<Rightarrow> string" where
  "TrimPrefix s p = (if take (length p) s = p then drop (length p) s else s)"

fun import_files :: "(string \<Rightarrow> import_source) \<Rightarrow> runtime_name \<Rightarrow> planned_file list \<Rightarrow> string list \<Rightarrow> dl_manager
    \<Rightarrow> (model_op_error + string list) \<times> dl_manager" where
  "import_files sources runtime [] rels m = (Inr rels, m)"
| "import_files sources runtime (f # fs) rels m =
     (case ImportLocal (sources (TrimPrefix (pf_url f) ''file://'')) (pf_rel f) runtime (pf_group f, Base (pf_rel f)) m of
        (Inl e, m) \<Rightarrow> (Inl (mapDownloadErr e), m)
      | (Inr rel, m) \<Rightarrow> import_files sources runtime fs (rels @ [rel]) m)"

definition importLocalModel :: "(string \<Rightarrow> import_source) \<Rightarrow> gateway_error + planned_file list \<Rightarrow> runtime_name \<Rightarrow> string \<Rightarrow> string
    \<Rightarrow> handler \<Rightarrow> (model_op_error + string list) \<times> handler" where
  "importLocalModel sources answer runtime path name h =
     (case planImport runtime name (TrimSpace path \<noteq> '''') answer h of
        Inl e \<Rightarrow> (Inl e, h)
      | Inr files \<Rightarrow> (case import_files sources runtime files [] (hd_downloads h) of
          (Inl e, m) \<Rightarrow> (Inl e, h\<lparr>hd_downloads := m\<rparr>)
        | (Inr rels, m) \<Rightarrow> (Inr rels, audit ''model.imported'' name OutcomeOK (h\<lparr>hd_downloads := m\<rparr>))))"

definition remote_job :: "runtime_name \<Rightarrow> string \<Rightarrow> string \<Rightarrow> string \<Rightarrow> planned_file \<Rightarrow> download_job" where
  "remote_job runtime groupKey groupName status f = \<lparr> dj_rel = pf_rel f, dj_url = pf_url f, dj_source = '''', dj_repo = '''',
     dj_runtime = runtime, dj_group = groupKey, dj_group_name = groupName, dj_filename = Base (pf_rel f), dj_status = status,
     dj_downloaded = 0, dj_total = pf_size f, dj_error = '''' \<rparr>"

fun start_files :: "runtime_name \<Rightarrow> string \<Rightarrow> planned_file list \<Rightarrow> string list \<Rightarrow> dl_manager
    \<Rightarrow> (model_op_error + string list) \<times> dl_manager" where
  "start_files runtime groupKey [] rels m = (Inr rels, m)"
| "start_files runtime groupKey (f # fs) rels m =
     (case StartDownload (remote_job runtime groupKey (pf_group f) '''' f) m of
        (Inl e, m) \<Rightarrow>
          if e = ErrAlreadyExists \<or> e = ErrAlreadyDone then start_files runtime groupKey fs rels m
          else (Inl (case e of InvalidRelPath _ \<Rightarrow> mapDownloadErr e | _ \<Rightarrow> ModelDownload e), m)
      | (Inr _, m) \<Rightarrow> start_files runtime groupKey fs (rels @ [pf_rel f]) m)"

definition importRemoteModel :: "gateway_error + planned_file list \<Rightarrow> runtime_name \<Rightarrow> string \<Rightarrow> string \<Rightarrow> string
    \<Rightarrow> handler \<Rightarrow> (model_op_error + string list) \<times> handler" where
  "importRemoteModel answer runtime repoID filename name h =
     (case planImport runtime name (TrimSpace repoID \<noteq> '''' \<and> TrimSpace filename \<noteq> '''') answer h of
        Inl e \<Rightarrow> (Inl e, h)
      | Inr files \<Rightarrow> (case start_files runtime (runtime @ '':'' @ TrimSpace name) files [] (hd_downloads h) of
          (Inl e, m) \<Rightarrow> (Inl e, h\<lparr>hd_downloads := m\<rparr>)
        | (Inr rels, m) \<Rightarrow> (Inr rels, audit ''model.imported'' name OutcomeOK (h\<lparr>hd_downloads := m\<rparr>))))"

text \<open>\<open>removable\<close> says which files the file system lets go.\<close>

definition delete_files :: "(string \<Rightarrow> bool) \<Rightarrow> runtime_name \<Rightarrow> model_id \<Rightarrow> string list \<Rightarrow> handler
    \<Rightarrow> (model_op_error + string list) \<times> handler" where
  "delete_files removable runtime i relPaths h =
     (case RemoveLocal (map (\<lambda>p. (p, removable p)) relPaths) None (hd_downloads h) of
        (Some e, m) \<Rightarrow> (Inl (case e of InvalidRelPath _ \<Rightarrow> ModelInvalid | _ \<Rightarrow> ModelDownload e), h\<lparr>hd_downloads := m\<rparr>)
      | (None, m) \<Rightarrow>
          let h = h\<lparr>hd_downloads := m\<rparr>;
              h = (if hd_has_orch h then (case OnModelRemoved relPaths (hd_bench h, hd_sched h) of
                     (b, s) \<Rightarrow> h\<lparr>hd_bench := b, hd_sched := s\<rparr>) else h);
              h = h\<lparr>hd_runtimes := fireStateChange runtime (hd_runtimes h)\<rparr>
          in (Inr relPaths, audit ''model.deleted'' i OutcomeOK h))"

definition deleteModel :: "(string \<Rightarrow> bool) \<Rightarrow> gateway_error + string list \<Rightarrow> runtime_name \<Rightarrow> model_id \<Rightarrow> handler
    \<Rightarrow> (model_op_error + string list) \<times> handler" where
  "deleteModel removable answer runtime i h =
     (if \<not> hd_has_downloads h then (Inl ModelUnavailable, h)
      else if TrimSpace i = '''' then (Inl ModelInvalid, h)
      else case LoadedGatewayFor runtime (hd_runtimes h) of
        Inl _ \<Rightarrow> (Inl ModelRuntimeDown, h)
      | Inr _ \<Rightarrow> (case answer of
          Inl e \<Rightarrow> (Inl (mapGatewayErr e), h)
        | Inr relPaths \<Rightarrow>
            if \<not> hd_has_orch h then delete_files removable runtime i relPaths h
            else (case on_sched QueuedModelFiles h of
                (Inl e, h) \<Rightarrow> (Inl (ModelDatabase e), h)
              | (Inr queued, h) \<Rightarrow>
                  let busy = firstPathOverlap relPaths queued in
                  if busy \<noteq> '''' then (Inl (ModelBusy busy), h)
                  else delete_files removable runtime i relPaths h)))"

end
