(* ===== verification/Operation_Safety.thy ===== *)
theory Operation_Safety
  imports Operations
begin

text \<open>
  Deleting a model across components: its files are not deleted from under a queued job (\<open>modelops.go\<close>).
\<close>

subsection \<open>Deleting a model spares what queued jobs need\<close>

text \<open>The files a removal of \<open>rel\<close> may take with it.\<close>

definition frees :: "dl_manager \<Rightarrow> string \<Rightarrow> string list \<Rightarrow> bool" where
  "frees m rel p \<longleftrightarrow> p = temp_path m rel \<or> p = dest_path m rel \<or> below (dest_path m rel) p"

lemma frees_dir: "dm_dir m' = dm_dir m \<Longrightarrow> frees m' rel p = frees m rel p"
  by (simp add: frees_def dest_path_def temp_path_def)

lemma cancel_whole_files:
  "dm_dir (cancel_whole rel m) = dm_dir m"
  "dm_files (cancel_whole rel m) = dm_files m \<or> dm_files (cancel_whole rel m) = AList.delete (temp_path m rel) (dm_files m)"
  by (auto simp: cancel_whole_def cancel_tail_def temp_path_def dest_path_def split: option.split)

lemma removed_files:
  "dm_dir (quietly (DeleteDownload rel) (remove_path p m)) = dm_dir m"
  "dm_files (quietly (DeleteDownload rel) (remove_path p m)) = filter (\<lambda>(q, _). q \<noteq> p \<and> \<not> below p q) (dm_files m)"
  "dm_dir (remove_path p m) = dm_dir m"
  "dm_files (remove_path p m) = filter (\<lambda>(q, _). q \<noteq> p \<and> \<not> below p q) (dm_files m)"
  by (simp_all add: remove_path_def)

lemma map_of_filter_key: "map_of (filter (\<lambda>(q, _). P q) xs) k = (if P k then map_of xs k else None)"
  by (induction xs) auto

lemma RemoveLocal_spares:
  assumes "\<And>rel. rel \<in> fst ` set rels \<Longrightarrow> ValidateRelPath rel = Inr () \<Longrightarrow> \<not> frees m rel p"
  shows "map_of (dm_files (snd (RemoveLocal rels e m))) p = map_of (dm_files m) p"
  using assms
proof (induction rels e m rule: RemoveLocal.induct)
  case (2 rel ok rels e m)
  show ?case
  proof (cases "ValidateRelPath rel")
    case (Inl err)
    with 2 show ?thesis by (simp add: Let_def)
  next
    case (Inr u)
    then have v: "ValidateRelPath rel = Inr ()" by simp
    let ?c = "cancel_whole rel m"
    let ?d = "quietly (DeleteDownload rel) (remove_path (dest_path ?c rel) ?c)"
    have np: "\<not> frees m rel p" using 2(4) v by simp
    have c: "dm_dir ?c = dm_dir m" "map_of (dm_files ?c) p = map_of (dm_files m) p"
      using cancel_whole_files [of rel m] np by (auto simp: frees_def)
    have d: "dm_dir ?d = dm_dir m" "map_of (dm_files ?d) p = map_of (dm_files m) p"
      using c np by (simp_all only: removed_files map_of_filter_key) (auto simp: frees_def dest_path_def)
    have rest: "\<not> frees ?c rel' p" "\<not> frees ?d rel' p" if "rel' \<in> fst ` set rels" "ValidateRelPath rel' = Inr ()" for rel'
      using 2(4) [of rel'] that frees_dir [OF c(1)] frees_dir [OF d(1)] by auto
    show ?thesis using 2(2,3) [OF refl Inr refl] rest c(2) d(2) v by (auto simp: Let_def)
  qed
qed simp

lemma RemoveLocal_dir: "dm_dir (snd (RemoveLocal rels e m)) = dm_dir m"
  by (induction rels e m rule: RemoveLocal.induct)
    (auto simp: Let_def cancel_whole_files(1) removed_files(3) split: sum.split)

lemma quiet_files [simp]: "dm_files (quietly (DeleteDownload rel) m) = dm_files m"
  by simp

lemma RemoveLocal_shrinks: "set (dm_files (snd (RemoveLocal rels e m))) \<subseteq> set (dm_files m)"
proof (induction rels e m rule: RemoveLocal.induct)
  case (2 rel ok rels e m)
  have c: "set (dm_files (cancel_whole rel m)) \<subseteq> set (dm_files m)"
    using cancel_whole_files(2) [of rel m] by (auto simp: set_AList_delete)
  then have d: "set (dm_files (quietly (DeleteDownload rel) (remove_path p (cancel_whole rel m)))) \<subseteq> set (dm_files m)" for p
    by (auto simp: removed_files)
  show ?case
  proof (cases "ValidateRelPath rel")
    case (Inr u)
    let ?c = "cancel_whole rel m"
    show ?thesis
    proof (cases "stat_ok ?c (dest_path ?c rel) \<and> \<not> ok")
      case True
      with subset_trans [OF 2(2) [OF refl Inr refl True] c] show ?thesis
        by (simp only: RemoveLocal.simps Let_def Inr sum.case if_True simp_thms)
    next
      case False
      with subset_trans [OF 2(3) [OF refl Inr refl False] d] show ?thesis
        by (simp only: RemoveLocal.simps Let_def Inr sum.case if_False)
    qed
  qed (use 2 in \<open>simp add: Let_def\<close>)
qed simp

lemma RemoveLocal_error_kept: "e \<noteq> None \<Longrightarrow> fst (RemoveLocal rels e m) = e"
  by (induction rels e m rule: RemoveLocal.induct) (auto simp: Let_def split: sum.split)

lemma RemoveLocal_no_error: "RemoveLocal rels e m = (None, m') \<Longrightarrow> e = None"
  using RemoveLocal_error_kept [of e rels m] by (cases e) auto

lemma RemoveLocal_step:
  assumes "RemoveLocal ((rel, ok) # rels) e m = (None, m')"
  shows "e = None \<and> RemoveLocal rels e (quietly (DeleteDownload rel) (remove_path (dest_path (cancel_whole rel m) rel) (cancel_whole rel m)))
    = (None, m')"
proof (cases "ValidateRelPath rel")
  case (Inl err)
  then have "RemoveLocal ((rel, ok) # rels) e m = RemoveLocal rels (if e = None then Some (InvalidRelPath err) else e) m"
    by (simp add: Let_def)
  with assms RemoveLocal_no_error have "(if e = None then Some (InvalidRelPath err) else e) = None" by metis
  then show ?thesis by (cases e) auto
next
  case (Inr u)
  let ?c = "cancel_whole rel m"
  show ?thesis
  proof (cases "stat_ok ?c (dest_path ?c rel) \<and> \<not> ok")
    case True
    then have "RemoveLocal ((rel, ok) # rels) e m = RemoveLocal rels (if e = None then Some (RemoveFailed rel) else e) ?c"
      by (simp add: Let_def Inr)
    with assms RemoveLocal_no_error have "(if e = None then Some (RemoveFailed rel) else e) = None" by metis
    then show ?thesis by (cases e) auto
  next
    case False
    then have "RemoveLocal ((rel, ok) # rels) e m
        = RemoveLocal rels e (quietly (DeleteDownload rel) (remove_path (dest_path ?c rel) ?c))"
      by (simp only: RemoveLocal.simps Let_def Inr sum.case if_False)
    with assms RemoveLocal_no_error show ?thesis by metis
  qed
qed

lemma RemoveLocal_gone:
  assumes "RemoveLocal rels e m = (None, m')" "rel \<in> fst ` set rels"
  shows "\<not> stat_ok m' (dest_path m' rel)"
  using assms
proof (induction rels arbitrary: e m)
  case (Cons x rels)
  obtain rel' ok where x: "x = (rel', ok)" by fastforce
  let ?c = "cancel_whole rel' m"
  let ?p = "dest_path ?c rel'"
  let ?d = "quietly (DeleteDownload rel') (remove_path ?p ?c)"
  have run: "RemoveLocal rels e ?d = (None, m')" using RemoveLocal_step Cons.prems(1) unfolding x by blast
  show ?case
  proof (cases "rel \<in> fst ` set rels")
    case False
    with Cons.prems(2) x have rel: "rel = rel'" by auto
    have dir: "dm_dir m' = dm_dir ?c" using RemoveLocal_dir [of rels e ?d] run by (simp add: removed_files)
    have "set (dm_files m') \<subseteq> set (filter (\<lambda>(q, _). q \<noteq> ?p \<and> \<not> below ?p q) (dm_files ?c))"
      using RemoveLocal_shrinks [of rels e ?d] run by (simp only: snd_conv removed_files)
    then have "\<not> stat_ok m' ?p" by (auto simp: stat_ok_def list_ex_iff)
    with dir show ?thesis by (simp add: rel dest_path_def)
  qed (rule Cons.IH [OF run])
qed simp

lemma spared_path:
  assumes "ValidateRelPath d = Inr ()" "ValidateRelPath q = Inr ()" "\<not> overlaps d q"
    and "take (length tempPrefix) (last (split_on (CHR ''/'') q)) \<noteq> tempPrefix"
  shows "\<not> frees m d (dest_path m q)"
proof -
  have dest: "dest_path m r = dm_dir m @ split_on (CHR ''/'') r" if "ValidateRelPath r = Inr ()" for r
    using that by (simp add: dest_path_def Join_def Join_plain ValidateRelPath_ok)
  have "dest_path m q \<noteq> temp_path m d"
  proof
    assume "dest_path m q = temp_path m d"
    then have "last (dest_path m q) = last (temp_path m d)" by simp
    with assms(1,2,4) show False by (simp add: dest temp_path_def TempFilePath_def tempPrefix_def Let_def)
  qed
  moreover have "dest_path m q \<noteq> dest_path m d"
  proof
    assume "dest_path m q = dest_path m d"
    then have "split_on (CHR ''/'') q = split_on (CHR ''/'') d" using assms(1,2) by (simp add: dest)
    then have "q = d" by (metis slash_join_split)
    with assms(3) show False by (simp add: overlaps_def)
  qed
  moreover have "\<not> below (dest_path m d) (dest_path m q)"
  proof
    assume "below (dest_path m d) (dest_path m q)"
    then obtain x xs where eq: "split_on (CHR ''/'') q = split_on (CHR ''/'') d @ x # xs"
      using assms(1,2) by (auto simp: below_iff dest)
    have "slash_join (ys @ x # xs) = slash_join ys @ ''/'' @ slash_join (x # xs)" if "ys \<noteq> []" for ys
      using that by (induction ys rule: slash_join.induct) (simp_all add: slash_join_Cons)
    from this [OF split_on_not_Nil] have "q = d @ ''/'' @ slash_join (x # xs)" by (metis eq slash_join_split)
    with assms(3) show False by (auto simp: overlaps_def pathCovers_iff)
  qed
  ultimately show ?thesis by (simp add: frees_def)
qed

lemma delete_files_downloads:
  "hd_downloads (snd (delete_files removable runtime i relPaths h))
     = snd (RemoveLocal (map (\<lambda>p. (p, removable p)) relPaths) None (hd_downloads h))"
  "fst (delete_files removable runtime i relPaths h) = Inr rels \<Longrightarrow>
     fst (RemoveLocal (map (\<lambda>p. (p, removable p)) relPaths) None (hd_downloads h)) = None \<and> rels = relPaths"
  by (auto simp: delete_files_def audit_def Let_def split: prod.splits option.splits)

lemma delete_files_spares:
  assumes "delete_files removable runtime i relPaths h = (r, h')" "ValidateRelPath q = Inr ()"
    and "take (length tempPrefix) (last (split_on (CHR ''/'') q)) \<noteq> tempPrefix"
    and "\<forall>d \<in> set relPaths. \<not> overlaps d q"
  shows "map_of (dm_files (hd_downloads h')) (dest_path (hd_downloads h) q) = map_of (dm_files (hd_downloads h)) (dest_path (hd_downloads h) q)"
proof -
  have h': "hd_downloads h' = snd (RemoveLocal (map (\<lambda>p. (p, removable p)) relPaths) None (hd_downloads h))"
    using delete_files_downloads(1) [of removable runtime i relPaths h] assms(1) by simp
  show ?thesis
    unfolding h' by (rule RemoveLocal_spares) (use assms(2-4) spared_path in auto)
qed

lemma delete_files_gone:
  assumes "delete_files removable runtime i relPaths h = (Inr rels, h')"
  shows "rels = relPaths \<and> (\<forall>d \<in> set rels. \<not> stat_ok (hd_downloads h') (dest_path (hd_downloads h') d))"
proof -
  let ?ps = "map (\<lambda>p. (p, removable p)) relPaths"
  have r: "rels = relPaths" "RemoveLocal ?ps None (hd_downloads h) = (None, hd_downloads h')"
    using delete_files_downloads [of removable runtime i relPaths h] assms by (simp_all add: prod_eq_iff)
  have "\<not> stat_ok (hd_downloads h') (dest_path (hd_downloads h') d)" if "d \<in> set relPaths" for d
    by (rule RemoveLocal_gone [OF r(2)]) (use that in force)
  with r(1) show ?thesis by simp
qed


lemma queued_files_from:
  assumes "queued_files qs s = (Inr fs, s')"
  shows "set fs \<subseteq> (\<Union>r \<in> set (rows s). set (body_files (row_body r)))"
  using assms
proof (induction qs arbitrary: s fs)
  case (Cons q qs)
  then obtain ms s1 gs where pk: "PeekAll q queuePeekLimit s = (Inr ms, s1)" and rest: "queued_files qs s1 = (Inr gs, s')"
    and fs: "fs = concat (map (\<lambda>m. body_files (msg_body m)) ms) @ gs"
    by (auto split: sum.splits prod.splits)
  have rows: "rows s1 = rows s" using query_frame(3) [of q queuePeekLimit s] by (simp add: pk)
  have "msg_body m \<in> row_body ` set (rows s)" if "m \<in> set ms" for m
    using pk that by (auto simp: PeekAll_def qtx_def queue_order_def Let_def split: if_splits dest!: in_set_takeD)
  then show ?case using Cons.IH [OF rest] by (force simp: fs rows)
qed simp

definition demo_handler :: handler where
  "demo_handler = \<lparr> hd_sched = running_sched, hd_bench = newBenchOrchestrator,
     hd_downloads = boot [''m''] [] [] [([''m'', ''f.gguf''], [1]), ([''m'', ''g.gguf''], [2])] False,
     hd_runtimes = \<lparr> rt_rows = [], rt_faults = [], rm_data_dir = [''d''], rm_installed = [], rm_running = [(''rt'', 0)],
       rm_gateways = [], rm_starting = [], rm_files = [], rm_state_log = [], rm_install_log = [] \<rparr>,
     hd_enroll = \<lparr> es_workers = [], es_tokens = [], es_faults = [] \<rparr>, hd_pushed = [], hd_changes = 0, hd_audit = [],
     hd_has_workers = True, hd_has_store = True, hd_has_orch = True, hd_has_downloads = True, hd_has_runtimes = True,
     hd_has_enroller = True \<rparr>"

lemma running_queued:
  obtains fs s' where "QueuedModelFiles running_sched = (Inr fs, s')" "set fs \<subseteq> {''f.gguf''}"
proof -
  have ok: "queue_faults s = [] \<Longrightarrow> \<exists>gs. fst (queued_files qs s) = Inr gs" for qs and s :: sched
  proof (induction qs arbitrary: s)
    case (Cons q qs)
    obtain x s1 where pk: "PeekAll q queuePeekLimit s = (x, s1)" by fastforce
    from Cons.prems no_fault(9) [OF Cons.prems, of q queuePeekLimit] have "queue_faults s1 = []" by (simp add: pk)
    moreover have "\<exists>ms. x = Inr ms" using pk Cons.prems by (auto simp: PeekAll_def qtx_def)
    ultimately show ?case using Cons.IH [of s1] by (auto simp: pk split: sum.splits prod.splits)
  qed simp
  from ok [OF running_fields(7)] obtain gs s'
    where q: "queued_files (GlobalQueueName # sc_queues running_sched) running_sched = (Inr gs, s')"
    by (metis prod.collapse)
  have "set gs \<subseteq> {''f.gguf''}"
    using queued_files_from [OF q]
    by (auto simp: running_fields anchor_row_def leased_row_def new_row_def body_files_def running_envelope_def sample_envelope_def
        split: if_splits)
  with q that show thesis by (simp add: QueuedModelFiles_def running_fields(9) del: queued_files.simps)
qed

lemma demo_delete: "\<exists>h'. deleteModel (\<lambda>_. True) (Inr [''g.gguf'']) ''rt'' ''g'' demo_handler = (Inr [''g.gguf''], h')"
proof -
  obtain fs s' where q: "QueuedModelFiles running_sched = (Inr fs, s')" "set fs \<subseteq> {''f.gguf''}" by (rule running_queued)
  have "\<not> overlaps ''g.gguf'' ''f.gguf''" by code_simp
  with q(2) have apart: "firstPathOverlap [''g.gguf''] fs = ''''" by (fastforce simp: overlaps_def list_ex_iff)
  have "TrimSpace ''g'' \<noteq> ''''" by code_simp
  moreover have "fst (RemoveLocal [(''g.gguf'', True)] None
      (boot [''m''] [] [] [([''m'', ''f.gguf''], [1]), ([''m'', ''g.gguf''], [2])] False)) = None" by code_simp
  then have "fst (delete_files (\<lambda>_. True) ''rt'' ''g'' [''g.gguf''] h) = Inr [''g.gguf'']" if "hd_downloads h = hd_downloads demo_handler" for h
    using that by (auto simp: delete_files_def Let_def demo_handler_def split: prod.splits option.splits)
  ultimately have "fst (deleteModel (\<lambda>_. True) (Inr [''g.gguf'']) ''rt'' ''g'' demo_handler) = Inr [''g.gguf'']" using apart
    by (simp add: deleteModel_def on_sched_def LoadedGatewayFor_def demo_handler_def q(1) del: firstPathOverlap.simps)
  then show ?thesis by (metis prod.collapse)
qed


end
