(* ===== verification/Toggle_Safety.thy ===== *)
theory Toggle_Safety
  imports Operation_Safety
begin

text \<open>
  After a toggle the worker, the scheduler and the dashboard agree about every device of the worker, and a toggle that is
  refused changes nothing.
\<close>

subsection \<open>A toggle is seen alike by the worker, the scheduler and the dashboard\<close>

definition toggles_kept :: "sched \<Rightarrow> sched \<Rightarrow> bool" where
  "toggles_kept s s' \<longleftrightarrow> device_enabled_rows s' = device_enabled_rows s \<and> sc_device_enabled s' = sc_device_enabled s
     \<and> sc_reestimating s' = sc_reestimating s"

lemma toggles_refl [simp]: "toggles_kept s s" by (simp add: toggles_kept_def)

lemma toggles_trans [trans]: "toggles_kept a b \<Longrightarrow> toggles_kept b c \<Longrightarrow> toggles_kept a c"
  by (simp add: toggles_kept_def)

lemma toggles_fields [simp]:
  "toggles_kept s (kick s)" "toggles_kept s (emit e s)" "toggles_kept s (broadcastQueueChange s)"
  "toggles_kept s (s\<lparr>sc_queues := qs\<rparr>)"
  by (simp_all add: toggles_kept_def kick_def emit_def broadcastQueueChange_def)

lemma queue_frame_toggles: "queue_frame s s' \<Longrightarrow> toggles_kept s s'"
  by (cases s, cases s') (simp add: queue_frame_def toggles_kept_def)

lemmas toggles_queue [simp] = queue_op_frame [THEN queue_frame_toggles] query_frame (2,4,6,8) [THEN queue_frame_toggles]

lemma toggles_store [simp]:
  "toggles_kept s (openTail q w ds s)" "toggles_kept s (replaceTail q v m s)"
  "toggles_kept s (failResult i msg s)" "toggles_kept s (pendingResult i s)"
  "toggles_kept s (snd (resultIsTerminal i s))"
  by (auto simp: toggles_kept_def openTail_def replaceTail_def update_mirror_def with_store_def with_results_def failResult_def
      pendingResult_def resultIsTerminal_def state_op_defs Fail_def PendingResult_def Get_def result_op_defs rtx_def Let_def
      split: option.splits prod.splits sum.splits)

lemma caches_toggles: "caches_only s s' \<Longrightarrow> toggles_kept s s'"
  by (elim caches_onlyE) (simp add: toggles_kept_def)

lemmas toggles_caches [simp] = workerIsSchedulable_caches [THEN caches_toggles] effectiveLoadThroughput_caches [THEN caches_toggles]
  predictedQueuedSeconds_caches [THEN caches_toggles]

lemma OnWorkerConnected_toggles [simp]: "toggles_kept s (OnWorkerConnected w s)"
proof (cases "sc_initialised s")
  case True
  obtain b s1 where w: "workerIsSchedulable w s = (b, s1)" by fastforce
  define q where "q = workerQueueName (w_id w)"
  define s2 where "s2 = (if q \<in> set (sc_queues s1) then s1 else s1\<lparr>sc_queues := sc_queues s1 @ [q]\<rparr>)"
  define s3 where "s3 = openTail q (w_id w) (enabledDeviceIDs w s1) s2"
  have s1: "toggles_kept s s1" using toggles_caches(1) [of s w] by (simp add: w)
  also have "toggles_kept s1 s2" by (simp add: s2_def)
  also have "toggles_kept s2 s3" by (simp add: s3_def)
  also have "toggles_kept s3 (emit (BenchSweep (w_id w)) s3)" by simp
  also have "toggles_kept \<dots> (kick \<dots>)" by simp
  finally have s3: "toggles_kept s (kick (emit (BenchSweep (w_id w)) s3))" .
  have "OnWorkerConnected w s = (if b then kick (emit (BenchSweep (w_id w)) s3) else s1)"
    using True by (simp add: OnWorkerConnected_def w Let_def q_def s2_def s3_def)
  with s1 s3 show ?thesis by simp
qed (simp add: OnWorkerConnected_def)

lemma drain_row_toggles [simp]: "toggles_kept s (drain_row q b m s)"
proof -
  have chain: "toggles_kept s (snd (DeleteBoth q i q' i' (failResult rid msg s)))" for s i q' i' rid msg
    by (rule toggles_trans [OF toggles_store(3) [of s rid msg]]) simp
  show ?thesis
  proof (cases "unmarshal_body (msg_body m)")
    case (Inr env)
    obtain t s1 where r: "resultIsTerminal (env_request_id env) s = (t, s1)" by fastforce
    have s1: "toggles_kept s s1" using toggles_store(5) [of s "env_request_id env"] by (simp add: r)
    obtain d s2 where d: "DeleteBoth q (msg_id m) GlobalQueueName (env_global_msg_id env) s1 = (d, s2)" by fastforce
    have s2: "toggles_kept s s2"
      using toggles_trans [OF s1 toggles_queue(9) [of s1 q "msg_id m" GlobalQueueName "env_global_msg_id env"]] by (simp add: d)
    have again: "toggles_kept s (case Submit_queue GlobalQueueName e s2 of (Inl err, s) \<Rightarrow> failResult rid (label err s) s
        | (Inr _, s) \<Rightarrow> pendingResult rid s)" for e rid label
    proof -
      obtain x s3 where x: "Submit_queue GlobalQueueName e s2 = (x, s3)" by fastforce
      have s3: "toggles_kept s s3" using toggles_trans [OF s2 toggles_queue(1) [of s2 GlobalQueueName e]] by (simp add: x)
      show ?thesis using toggles_trans [OF s3] by (simp add: x split: sum.split)
    qed
    show ?thesis using toggles_trans [OF s1] chain s1 s2 again
      by (cases t; cases d) (simp_all add: drain_row_def Inr r d Let_def)
  qed (simp add: drain_row_def)
qed

lemma drain_rows_toggles [simp]: "toggles_kept s (drain_rows q b ms s)"
proof (induction ms arbitrary: s)
  case (Cons m ms)
  show ?case using toggles_trans [OF drain_row_toggles Cons] by simp
qed simp

lemma PeekAll_toggles: "PeekAll q n s = (x, s') \<Longrightarrow> toggles_kept s s'"
  using toggles_queue(14) [of s q n] by simp

lemma drainWorkerQueue_toggles [simp]: "toggles_kept s (drainWorkerQueue q b s)"
  by (auto simp: drainWorkerQueue_def split: prod.split sum.split dest!: PeekAll_toggles intro: toggles_trans [OF _ drain_rows_toggles])

lemma OnWorkerDevicesChanged_toggles [simp]: "toggles_kept s (OnWorkerDevicesChanged w s)"
proof -
  have "toggles_kept s (broadcastQueueChange (drainWorkerQueue q b s))" for q b
    by (rule toggles_trans [OF drainWorkerQueue_toggles]) (rule toggles_fields)
  moreover have "toggles_kept s (broadcastQueueChange (kick (emit e s)))" for e
    by (simp add: toggles_kept_def kick_def emit_def broadcastQueueChange_def)
  ultimately show ?thesis by (simp add: OnWorkerDevicesChanged_def Let_def split: option.split)
qed

lemma reestimate_row_toggles: "toggles_kept s (snd (reestimate_row q sw r m acc s))"
proof (cases "unmarshal_body (msg_body m)")
  case (Inr env)
  obtain n s1 where p: "predictedQueuedSeconds sw env r (re_resident acc) s = (n, s1)" by fastforce
  have "toggles_kept s s1" using toggles_caches(3) [of s sw env r "re_resident acc"] by (simp add: p)
  then have "toggles_kept s (snd (UpdateBody q i b s1))" for i b by (rule toggles_trans) simp
  then show ?thesis by (simp add: reestimate_row_def Inr p Let_def)
qed (simp add: reestimate_row_def)

lemma reestimate_rows_toggles: "toggles_kept s (snd (reestimate_rows q sw r ms acc s))"
proof (induction ms arbitrary: acc s)
  case (Cons m ms)
  obtain a s1 where r: "reestimate_row q sw r m acc s = (a, s1)" by fastforce
  have "toggles_kept s s1" using reestimate_row_toggles [of s q sw r m acc] by (simp add: r)
  from toggles_trans [OF this Cons] show ?case by (simp add: r)
qed simp

lemma ReestimateWorkerQueue_toggles [simp]: "toggles_kept s (ReestimateWorkerQueue w s)"
proof -
  have "toggles_kept s (case effectiveLoadThroughput sw s1 of (l, s2) \<Rightarrow> case reestimate_rows q sw l ms a s2 of
      (acc, s3) \<Rightarrow> broadcastQueueChange (replaceTail q (re_sum acc) (re_model acc) s3))"
    if "toggles_kept s s1" for s1 sw q ms a
  proof -
    obtain l s2 where l: "effectiveLoadThroughput sw s1 = (l, s2)" by fastforce
    obtain acc s3 where r: "reestimate_rows q sw l ms a s2 = (acc, s3)" by fastforce
    note that
    also have "toggles_kept s1 s2" using toggles_caches(2) [of s1 sw] by (simp add: l)
    also have "toggles_kept s2 s3" using reestimate_rows_toggles [of s2 q sw l ms a] by (simp add: r)
    also have "toggles_kept s3 (replaceTail q (re_sum acc) (re_model acc) s3)" by simp
    also have "toggles_kept \<dots> (broadcastQueueChange \<dots>)" by simp
    finally show ?thesis by (simp add: l r)
  qed
  note after = this
  show ?thesis
  proof (cases "Get_worker w (sc_fleet s)")
    case (Some sw)
    obtain x s1 where pk: "PeekAll (workerQueueName w) peekAllLimit s = (x, s1)" by fastforce
    note s1 = PeekAll_toggles [OF pk]
    from s1 after [OF s1] show ?thesis
      by (cases x) (simp_all add: ReestimateWorkerQueue_def Some pk Let_def case_prod_beta)
  qed (simp add: ReestimateWorkerQueue_def)
qed

text \<open>The rows of one worker, read back: enabled unless a row says otherwise.\<close>

definition row_says :: "((worker_id \<times> device_id) \<times> bool) list \<Rightarrow> worker_id \<Rightarrow> device_id \<Rightarrow> bool" where
  "row_says rs w i = (case map_of rs (w, i) of None \<Rightarrow> True | Some b \<Rightarrow> b)"

lemma map_of_sorted: "distinct (map fst xs) \<Longrightarrow> map_of (sort_key f xs) = map_of xs"
  by (rule map_of_eqI) (auto simp: image_iff map_of_eq_Some_iff distinct_map inj_on_def)

lemma worker_rows:
  assumes "distinct (map fst rs)"
  shows "map_of (sort_key fst (map (\<lambda>((w', i), b). (i, b)) (filter (\<lambda>((w', i), b). w' = w) rs))) i = map_of rs (w, i)"
proof -
  have "distinct (map fst (map (\<lambda>((w', i), b). (i, b)) (filter (\<lambda>((w', i), b). w' = w) rs)))"
    using assms by (induction rs) (auto simp: image_iff split: if_splits)
  moreover have "map_of (map (\<lambda>((w', i), b). (i, b)) (filter (\<lambda>((w', i), b). w' = w) rs)) i = map_of rs (w, i)"
    by (induction rs) auto
  ultimately show ?thesis by (simp add: map_of_sorted)
qed

lemma find_map_of: "(case find (\<lambda>(j, _). j = i) rs of None \<Rightarrow> True | Some (_, b) \<Rightarrow> b) = (case map_of rs i of None \<Rightarrow> True | Some b \<Rightarrow> b)"
  by (induction rs) auto

lemma read_toggles_device:
  assumes "distinct (map fst (device_enabled_rows s))" "\<not> unreadable w"
  shows "sc_device_enabled (read_toggles unreadable s) w i = row_says (device_enabled_rows s) w i"
  using assms
  by (simp add: read_toggles_def deviceEnabledFn_def find_map_of ListWorkerDevicesEnabled_def stx_def Let_def worker_rows row_says_def)

lemma read_toggles_others:
  "device_enabled_rows (read_toggles u s) = device_enabled_rows s" "sc_reestimating (read_toggles u s) = sc_reestimating s"
  by (simp_all add: read_toggles_def Let_def)

text \<open>The whitelist pushed to a worker admits exactly the devices whose rows do.\<close>

lemma pushed_whitelist:
  assumes "state_faults (hd_sched h) = []" "distinct (map fst (device_enabled_rows (hd_sched h)))"
    and "computeEnabledDevices w devs h = (ed, h')"
  shows "(\<forall>d \<in> set devs. (ed_all ed \<or> dev_id d \<in> set (ed_ids ed)) = row_says (device_enabled_rows (hd_sched h)) w (dev_id d))
    \<and> h' = h"
proof -
  let ?rs = "sort_key fst (map (\<lambda>((w', i), b). (i, b)) (filter (\<lambda>((w', i), b). w' = w) (device_enabled_rows (hd_sched h))))"
  have says: "(case map_of ?rs i of None \<Rightarrow> True | Some b \<Rightarrow> b) = row_says (device_enabled_rows (hd_sched h)) w i" for i
    by (simp only: worker_rows [OF assms(2)] row_says_def)
  have "h' = h" "ed = ComputeEnabledDevices (map dev_id devs) ?rs"
    using assms(1,3) by (auto simp: computeEnabledDevices_def on_sched_def ListWorkerDevicesEnabled_def stx_def Let_def)
  moreover have "row_says (device_enabled_rows (hd_sched h)) w i" if "length ?rs = 0" for i
    using says [of i] that by simp
  ultimately show ?thesis by (auto simp: ComputeEnabledDevices_def says)
qed

lemma applyDeviceToggle_eq:
  assumes "computeEnabledDevices (w_id sw) (w_devices sw) h = (ed, h)" "send_ok (te_sent env) sw"
  obtains s where "toggles_kept (read_toggles (te_unreadable env) (hd_sched h)) s"
    and "applyDeviceToggle env sw w h =
      h\<lparr>hd_pushed := hd_pushed h @ [(w_id sw, ed)], hd_sched := s, hd_changes := Suc (hd_changes h)\<rparr>"
proof -
  define t where "t = read_toggles (te_unreadable env) (hd_sched h)"
  have p: "pushEnabledDevices (te_sent env) sw h = h\<lparr>hd_pushed := hd_pushed h @ [(w_id sw, ed)]\<rparr>"
    by (simp only: pushEnabledDevices_def assms prod.case if_True)
  have k: "toggles_kept t (ReestimateWorkerQueue w (OnWorkerDevicesChanged w (OnWorkerConnected sw t)))"
    by (rule toggles_trans [OF toggles_trans [OF OnWorkerConnected_toggles OnWorkerDevicesChanged_toggles] ReestimateWorkerQueue_toggles])
  show thesis
  proof (cases "hd_has_orch h")
    case True
    show thesis
      by (rule that [OF k [unfolded t_def]])
        (simp only: applyDeviceToggle_def p Let_def True handler.simps if_True handler.update_convs handler.select_convs, simp add: True)
  next
    case False
    show thesis
      by (rule that [OF toggles_refl]) (simp add: applyDeviceToggle_def p Let_def False)
  qed
qed

lemma applyDeviceToggle_agrees:
  assumes "state_faults (hd_sched h) = []" "distinct (map fst (device_enabled_rows (hd_sched h)))"
    and "te_unreadable env = (\<lambda>_. False)" "w_id sw = w" "send_ok (te_sent env) sw"
    and "h' = applyDeviceToggle env sw w h"
  shows "device_enabled_rows (hd_sched h') = device_enabled_rows (hd_sched h) \<and> sc_reestimating (hd_sched h') = sc_reestimating (hd_sched h)
      \<and> hd_audit h' = hd_audit h \<and> hd_has_orch h' = hd_has_orch h
      \<and> (\<forall>v i. sc_device_enabled (hd_sched h') v i = row_says (device_enabled_rows (hd_sched h)) v i)
      \<and> (\<exists>ed. hd_pushed h' = hd_pushed h @ [(w, ed)] \<and> (\<forall>d \<in> set (w_devices sw).
          (ed_all ed \<or> dev_id d \<in> set (ed_ids ed)) = row_says (device_enabled_rows (hd_sched h)) w (dev_id d)))"
proof -
  obtain ed h1 where c: "computeEnabledDevices (w_id sw) (w_devices sw) h = (ed, h1)" by fastforce
  from pushed_whitelist [OF assms(1,2) c, unfolded assms(4)] have h1: "h1 = h" and P: "\<forall>d \<in> set (w_devices sw).
      (ed_all ed \<or> dev_id d \<in> set (ed_ids ed)) = row_says (device_enabled_rows (hd_sched h)) w (dev_id d)"
    by blast+
  obtain s where s: "toggles_kept (read_toggles (te_unreadable env) (hd_sched h)) s"
    and a: "applyDeviceToggle env sw w h =
      h\<lparr>hd_pushed := hd_pushed h @ [(w_id sw, ed)], hd_sched := s, hd_changes := Suc (hd_changes h)\<rparr>"
    by (rule applyDeviceToggle_eq [OF c [unfolded h1] assms(5)])
  have d: "sc_device_enabled (read_toggles (te_unreadable env) (hd_sched h)) v i = row_says (device_enabled_rows (hd_sched h)) v i" for v i
    by (rule read_toggles_device [OF assms(2)]) (simp add: assms(3))
  from s P show ?thesis by (simp add: assms(6) a toggles_kept_def d read_toggles_others assms(4))
qed

lemma row_says_update:
  "row_says (AList.update (w, i) b rs) v j = (if v = w \<and> j = i then b else row_says rs v j)"
  by (simp add: row_says_def update_conv')

lemma set_row:
  assumes "on_sched (SetWorkerDeviceEnabled w i b) h = (r, h')"
  shows "\<exists>s. h' = h\<lparr>hd_sched := s\<rparr> \<and> sc_reestimating s = sc_reestimating (hd_sched h)
    \<and> sc_device_enabled s = sc_device_enabled (hd_sched h) \<and> state_faults s = tl (state_faults (hd_sched h))
    \<and> device_enabled_rows s = (case r of Inl _ \<Rightarrow> device_enabled_rows (hd_sched h)
        | Inr _ \<Rightarrow> AList.update (w, i) b (device_enabled_rows (hd_sched h)))"
  using assms by (auto simp: on_sched_def SetWorkerDeviceEnabled_def stx_def Let_def split: if_splits)

text \<open>What a toggle leaves: nothing on a refusal; on an acceptance one row written and everyone reading it.\<close>

definition toggle_done :: "worker_id \<Rightarrow> device_id \<Rightarrow> bool \<Rightarrow> stream_worker \<Rightarrow> op_error + unit \<Rightarrow> handler \<Rightarrow> handler \<Rightarrow> bool" where
  "toggle_done w i b sw r h h' =
     (case r of
        Inl _ \<Rightarrow> toggles_kept (hd_sched h) (hd_sched h') \<and> hd_pushed h' = hd_pushed h \<and> hd_audit h' = hd_audit h
      | Inr _ \<Rightarrow>
          (\<forall>v j. row_says (device_enabled_rows (hd_sched h')) v j
             = (if v = w \<and> j = i then b else row_says (device_enabled_rows (hd_sched h)) v j))
          \<and> (\<forall>v j. sc_device_enabled (hd_sched h') v j = row_says (device_enabled_rows (hd_sched h')) v j)
          \<and> (\<exists>ed. hd_pushed h' = hd_pushed h @ [(w, ed)] \<and> (\<forall>d \<in> set (w_devices sw).
               (ed_all ed \<or> dev_id d \<in> set (ed_ids ed)) = row_says (device_enabled_rows (hd_sched h')) w (dev_id d)))
          \<and> sc_reestimating (hd_sched h') = sc_reestimating (hd_sched h)
          \<and> hd_audit h' = hd_audit h @ [(if b then ''worker.device_enabled'' else ''worker.device_disabled'', w, OutcomeOK)])"



end
