(* ===== verification/Registry.thy ===== *)
theory Registry
  imports Compat Operations Web_Gates
begin

text \<open>
  The package registry behind the dashboard (\<open>internal/web\<close>: \<open>registryops.go\<close>, \<open>themeops.go\<close>): searching the index,
  installing a runtime or a theme from it, choosing the worker artifact that pairs with an installed runtime.

  The index and its resolvers, the theme registry and the semver library are third-party packages: an index is the record
  of the answers its methods give, and an artifact is opaque. What a fetch, a download or a directory creation does is an
  argument. \<open>Registry_Safety\<close> holds the proofs.
\<close>

subsection \<open>The index\<close>

datatype pkg_kind = KindWorker | KindOther string

abbreviation registryRuntimeKind :: pkg_kind where "registryRuntimeKind \<equiv> KindOther ''runtime''"

abbreviation registryThemeKind :: pkg_kind where "registryThemeKind \<equiv> KindOther ''theme''"

definition themeArtifactKeyAny :: string where "themeArtifactKeyAny = ''any''"

definition themePackagePrefix :: string where "themePackagePrefix = ''theme-''"

definition maxThemeBytes :: nat where "maxThemeBytes = 2 ^ 20"

record 'a pkg_version = version_row +
  vr_artifacts :: "(string \<times> 'a) list"

record 'a package =
  pk_name :: string
  pk_kind :: pkg_kind
  pk_runtime :: runtime_name
  pk_display :: string
  pk_description :: string
  pk_versions :: "'a pkg_version list"

datatype resolve_error = NotResolved | ResolveFailed

type_synonym 'a resolved = "'a pkg_version \<times> 'a"

record 'a registry_index =
  ix_search :: "pkg_kind \<Rightarrow> string \<Rightarrow> runtime_name \<Rightarrow> 'a package list"
  ix_find :: "string \<Rightarrow> 'a package option"
  ix_workers_for :: "runtime_name \<Rightarrow> 'a package list"
  ix_compatible :: "runtime_name \<Rightarrow> string \<Rightarrow> string \<Rightarrow> ('a package \<times> 'a pkg_version) list option"
  ix_resolve_runtime :: "string \<Rightarrow> string \<times> string \<Rightarrow> string \<Rightarrow> resolve_error + 'a resolved"
  ix_resolve_worker :: "string \<Rightarrow> string \<times> string \<times> string \<Rightarrow> string \<Rightarrow> string \<Rightarrow> resolve_error + 'a resolved"

text \<open>What \<open>Fetch\<close> answers: nothing, or an index and whether it is a stale copy.\<close>

type_synonym 'a fetched = "('a registry_index \<times> bool) option"

text \<open>The host: whether a configuration is wired, the build's version, the platform and its key in the index.\<close>

record reg_host =
  rh_config :: bool
  rh_version :: string
  rh_os :: string
  rh_arch :: string
  rh_key :: string

datatype reg_error = RegUnavailable | RegInvalid | RegFailed | RegNotFound | RegManager op_error | RegNotInstalled
  | RegAmbiguousBackend | RegAmbiguousWorker | RegResolver resolve_error | RegTheme

subsection \<open>Versions\<close>

record ('v, 'c) semver_lib = "('v, 'c) semver" +
  sv_release :: "'v \<Rightarrow> 'v option"
  sv_string :: "'v \<Rightarrow> string"
  sv_greater :: "'v \<Rightarrow> 'v \<Rightarrow> bool"

definition unresolvableMassVersion :: string where "unresolvableMassVersion = ''9999.0.0''"

definition massVersionForResolve :: "('v, 'c) semver_lib \<Rightarrow> string \<Rightarrow> string" where
  "massVersionForResolve sv version = (case sv_version sv version of
      None \<Rightarrow> unresolvableMassVersion
    | Some v \<Rightarrow>
        if \<not> sv_prerelease sv v then version
        else case sv_release sv v of None \<Rightarrow> unresolvableMassVersion | Some base \<Rightarrow> sv_string sv base)"

definition isNewerVersion :: "('v, 'c) semver_lib \<Rightarrow> string \<Rightarrow> string \<Rightarrow> bool" where
  "isNewerVersion sv candidate installed = (case sv_version sv candidate of
      None \<Rightarrow> False
    | Some c \<Rightarrow> (case sv_version sv installed of None \<Rightarrow> False | Some i \<Rightarrow> sv_greater sv c i))"

subsection \<open>Searching\<close>

record package_view =
  pw_name :: string
  pw_kind :: pkg_kind
  pw_runtime :: runtime_name
  pw_display :: string
  pw_description :: string
  pw_versions :: "(string \<times> bool) list"
  pw_installable :: string

definition serverPlatform :: "reg_host \<Rightarrow> string \<times> string" where
  "serverPlatform host = (rh_os host, rh_arch host)"

definition versionHasArtifact :: "pkg_kind \<Rightarrow> (string \<times> 'a) list \<Rightarrow> string \<Rightarrow> string \<Rightarrow> bool" where
  "versionHasArtifact kind artifacts runtimeKey workerPrefix =
     (if kind = KindWorker then list_ex (\<lambda>(key, _). HasPrefix key workerPrefix) artifacts
      else if kind = registryThemeKind then map_of artifacts themeArtifactKeyAny \<noteq> None
      else map_of artifacts runtimeKey \<noteq> None)"

definition installableRuntimeVersion :: "('v, 'c) semver_lib \<Rightarrow> reg_host \<Rightarrow> 'a registry_index \<Rightarrow> 'a package \<Rightarrow> string" where
  "installableRuntimeVersion sv host idx pkg =
     (if pk_kind pkg \<noteq> registryRuntimeKind then ''''
      else case ix_resolve_runtime idx (pk_name pkg) (serverPlatform host) (massVersionForResolve sv (rh_version host)) of
        Inl _ \<Rightarrow> '''' | Inr (v, _) \<Rightarrow> vr_version v)"

definition view_of :: "('v, 'c) semver_lib \<Rightarrow> reg_host \<Rightarrow> 'a registry_index \<Rightarrow> 'a package \<Rightarrow> package_view" where
  "view_of sv host idx pkg = \<lparr> pw_name = pk_name pkg, pw_kind = pk_kind pkg, pw_runtime = pk_runtime pkg,
     pw_display = pk_display pkg, pw_description = pk_description pkg,
     pw_versions = map (\<lambda>v. (vr_version v, versionHasArtifact (pk_kind pkg) (vr_artifacts v) (rh_key host) (rh_key host @ ''/'')))
       (pk_versions pkg),
     pw_installable = installableRuntimeVersion sv host idx pkg \<rparr>"

definition searchPackages :: "('v, 'c) semver_lib \<Rightarrow> reg_host \<Rightarrow> 'a fetched \<Rightarrow> pkg_kind \<Rightarrow> string \<Rightarrow> runtime_name
    \<Rightarrow> reg_error + (package_view list \<times> bool)" where
  "searchPackages sv host fetch kind query runtime =
     (if \<not> rh_config host then Inl RegUnavailable
      else case fetch of
        None \<Rightarrow> Inl RegFailed
      | Some (idx, stale) \<Rightarrow> Inr (map (view_of sv host idx) (ix_search idx kind query runtime), stale))"

subsection \<open>Installing a runtime\<close>

definition registryCacheDir :: "string list \<Rightarrow> string list" where
  "registryCacheDir dataDir = Join dataDir ''registry-cache''"

definition reg_tmp :: "handler \<Rightarrow> string \<Rightarrow> string list" where
  "reg_tmp h name = Join (Join (registryCacheDir (rm_data_dir (hd_runtimes h))) ''tmp'') name"

definition on_files :: "(file_map \<Rightarrow> file_map) \<Rightarrow> handler \<Rightarrow> handler" where
  "on_files f h = h\<lparr>hd_runtimes := (hd_runtimes h)\<lparr>rm_files := f (rm_files (hd_runtimes h))\<rparr>\<rparr>"

text \<open>\<open>download\<close> is what ends up in the temporary file, and whether the download succeeded; the arguments from \<open>yaml\<close> to
  \<open>reply\<close> are those of \<open>InstallFromPath\<close>. The deferred removal comes last on every path after the directory is made.\<close>

definition installRuntimeFromRegistry :: "('v, 'c) semver_lib \<Rightarrow> reg_host \<Rightarrow> 'a fetched \<Rightarrow> bool \<Rightarrow> ('a \<Rightarrow> bytes option \<times> bool)
    \<Rightarrow> (bytes \<Rightarrow> manifest option) \<Rightarrow> (bytes \<Rightarrow> zip_entry list option) \<Rightarrow> string option \<Rightarrow> string option \<Rightarrow> time \<Rightarrow> init_reply option
    \<Rightarrow> string \<Rightarrow> string \<Rightarrow> handler \<Rightarrow> (reg_error + runtime_info) \<times> handler" where
  "installRuntimeFromRegistry sv host fetch mkdir download yaml archive clear undo now reply name version h =
     (if \<not> hd_has_runtimes h then (Inl RegUnavailable, h)
      else if name = '''' then (Inl RegInvalid, h)
      else if \<not> rh_config host then (Inl RegUnavailable, h)
      else case fetch of
        None \<Rightarrow> (Inl RegFailed, h)
      | Some (idx, _) \<Rightarrow> (case ix_resolve_runtime idx name (serverPlatform host) (massVersionForResolve sv (rh_version host)) of
          Inl NotResolved \<Rightarrow> (Inl RegNotFound, h)
        | Inl ResolveFailed \<Rightarrow> (Inl RegFailed, h)
        | Inr (v, artifact) \<Rightarrow>
            if version \<noteq> '''' \<and> vr_version v \<noteq> version then (Inl RegNotFound, h)
            else if \<not> mkdir then (Inl RegFailed, h)
            else
              let target = name @ ''@'' @ vr_version v; dest = reg_tmp h (name @ ''.mass'');
                  (data, ok) = download artifact; h = on_files (put_file dest data) h
              in if \<not> ok then (Inl RegFailed, on_files (AList.delete dest) (audit ''runtime.installed'' target OutcomeError h))
                 else case on_runtimes (InstallFromPath yaml (case data of None \<Rightarrow> None | Some b \<Rightarrow> archive b) clear undo now reply) h of
                     (Inl e, h) \<Rightarrow> (Inl (RegManager e), on_files (AList.delete dest) (audit ''runtime.installed'' target OutcomeError h))
                   | (Inr mf, h) \<Rightarrow> (Inr (runtime_info_of (hd_runtimes h) mf),
                       on_files (AList.delete dest) (audit ''runtime.installed'' target OutcomeOK h))))"

subsection \<open>Choosing a worker artifact\<close>

definition pkgNameToRuntime :: "'a registry_index \<Rightarrow> string \<Rightarrow> runtime_name" where
  "pkgNameToRuntime idx name = (case ix_find idx name of None \<Rightarrow> '''' | Some p \<Rightarrow> pk_runtime p)"

text \<open>The backends one version offers on a platform: what follows the prefix in a key, unless nothing does.\<close>

definition cut_backends :: "string \<Rightarrow> (string \<times> 'a) list \<Rightarrow> string list" where
  "cut_backends prefix artifacts =
     filter (\<lambda>b. b \<noteq> '''') (map (drop (length prefix)) (filter (\<lambda>key. HasPrefix key prefix) (map fst artifacts)))"

definition compatibleBackends :: "'a registry_index \<Rightarrow> string \<Rightarrow> string \<Rightarrow> string \<Rightarrow> string \<Rightarrow> string \<Rightarrow> string list" where
  "compatibleBackends idx pkgName runtimeVersion massVersion goos goarch =
     (case ix_compatible idx (pkgNameToRuntime idx pkgName) runtimeVersion massVersion of
        None \<Rightarrow> []
      | Some workers \<Rightarrow> sort (remdups (concat (map (\<lambda>(_, v). cut_backends (goos @ ''/'' @ goarch @ ''/'') (vr_artifacts v))
          (filter (\<lambda>(p, _). pk_name p = pkgName) workers)))))"

definition chooseWorkerPackage :: "'a registry_index \<Rightarrow> runtime_name \<Rightarrow> string \<Rightarrow> string \<Rightarrow> string \<Rightarrow> string \<Rightarrow> string
    \<Rightarrow> (reg_error \<times> string list) + string" where
  "chooseWorkerPackage idx runtime goos goarch workerPkg runtimeVersion massVersion =
     (if workerPkg \<noteq> '''' then
        (case ix_find idx workerPkg of
           None \<Rightarrow> Inl (RegResolver NotResolved, [])
         | Some pkg \<Rightarrow> if pk_kind pkg \<noteq> KindWorker \<or> pk_runtime pkg \<noteq> runtime then Inl (RegResolver NotResolved, []) else Inr workerPkg)
      else
        let resolvable = map pk_name (filter (\<lambda>pkg. 0 < length (compatibleBackends idx (pk_name pkg) runtimeVersion massVersion goos goarch))
          (ix_workers_for idx runtime))
        in case resolvable of
            [] \<Rightarrow> Inl (RegResolver NotResolved, [])
          | [name] \<Rightarrow> Inr name
          | _ \<Rightarrow> Inl (RegAmbiguousWorker, sort resolvable))"

definition resolveWorkerArtifact :: "('v, 'c) semver_lib \<Rightarrow> reg_host \<Rightarrow> 'a fetched \<Rightarrow> runtime_name \<Rightarrow> string \<Rightarrow> string \<Rightarrow> string \<Rightarrow> string
    \<Rightarrow> handler \<Rightarrow> (reg_error \<times> string list) + 'a resolved" where
  "resolveWorkerArtifact sv host fetch runtime goos goarch backend workerPkg h =
     (if \<not> hd_has_runtimes h then Inl (RegUnavailable, [])
      else case Get_manifest runtime (hd_runtimes h) of
        Inl _ \<Rightarrow> Inl (RegNotInstalled, [])
      | Inr mf \<Rightarrow>
          if \<not> rh_config host then Inl (RegUnavailable, [])
          else case fetch of
            None \<Rightarrow> Inl (RegFailed, [])
          | Some (idx, _) \<Rightarrow>
              let massVersion = massVersionForResolve sv (rh_version host) in
              case chooseWorkerPackage idx runtime goos goarch workerPkg (mf_version mf) massVersion of
                Inl e \<Rightarrow> Inl e
              | Inr pkgName \<Rightarrow>
                  let resolve = (\<lambda>b. case ix_resolve_worker idx pkgName (goos, goarch, b) (mf_version mf) massVersion of
                        Inl e \<Rightarrow> Inl (RegResolver e, []) | Inr r \<Rightarrow> Inr r)
                  in if backend \<noteq> '''' then resolve backend
                     else case compatibleBackends idx pkgName (mf_version mf) massVersion goos goarch of
                         [] \<Rightarrow> Inl (RegResolver NotResolved, [])
                       | [b] \<Rightarrow> resolve b
                       | backends \<Rightarrow> Inl (RegAmbiguousBackend, backends))"

record worker_option =
  wo_name :: string
  wo_display :: string
  wo_backends :: "string list"

text \<open>The backend part of a key of three parts.\<close>

definition key_backend :: "string \<Rightarrow> string option" where
  "key_backend key = (case split_on (CHR ''/'') key of [_, _, b] \<Rightarrow> if b = '''' then None else Some b | _ \<Rightarrow> None)"

definition workerOptionsFor :: "('v, 'c) semver_lib \<Rightarrow> reg_host \<Rightarrow> 'a fetched \<Rightarrow> runtime_name \<Rightarrow> handler
    \<Rightarrow> reg_error + worker_option list" where
  "workerOptionsFor sv host fetch runtime h =
     (if \<not> hd_has_runtimes h then Inl RegUnavailable
      else case Get_manifest runtime (hd_runtimes h) of
        Inl _ \<Rightarrow> Inl RegNotInstalled
      | Inr mf \<Rightarrow>
          if \<not> rh_config host then Inl RegUnavailable
          else case fetch of
            None \<Rightarrow> Inl RegFailed
          | Some (idx, _) \<Rightarrow> (case ix_compatible idx runtime (mf_version mf) (massVersionForResolve sv (rh_version host)) of
              None \<Rightarrow> Inl RegFailed
            | Some workers \<Rightarrow> Inr (map (\<lambda>name. \<lparr> wo_name = name,
                wo_display = (case ix_find idx name of None \<Rightarrow> name | Some p \<Rightarrow> if pk_display p \<noteq> '''' then pk_display p else name),
                wo_backends = sort (remdups (List.map_filter key_backend
                  (concat (map (\<lambda>(p, v). if pk_name p = name then map fst (vr_artifacts v) else []) workers)))) \<rparr>)
              (sort (remdups (map (\<lambda>(p, _). pk_name p) workers))))))"


subsection \<open>Themes\<close>

text \<open>The live theme registry of the UI kit, a library: what it lists, installs and removes. \<open>lower\<close> is \<open>strings.ToLower\<close>.\<close>

record theme_row =
  tm_id :: string
  tm_label :: string
  tm_base :: string

datatype theme_error = ErrThemeBuiltin | ErrThemeNotInstalled | ErrThemeOther

record 't uikit =
  ui_themes :: "'t \<Rightarrow> theme_row list"
  ui_builtin :: "string \<Rightarrow> bool"
  ui_install :: "string \<Rightarrow> bytes \<Rightarrow> 't \<Rightarrow> bool \<times> 't"
  ui_remove :: "string \<Rightarrow> 't \<Rightarrow> theme_error option \<times> 't"

record installed_theme =
  it_id :: string
  it_label :: string
  it_base :: string
  it_builtin :: bool

definition installedThemes :: "'t uikit \<Rightarrow> (string \<Rightarrow> string) \<Rightarrow> string \<Rightarrow> 't \<Rightarrow> installed_theme list" where
  "installedThemes ui lower query t =
     (let q = lower (TrimSpace query) in
      map (\<lambda>ti. \<lparr> it_id = tm_id ti, it_label = tm_label ti, it_base = tm_base ti, it_builtin = ui_builtin ui (tm_id ti) \<rparr>)
        (filter (\<lambda>ti. q = '''' \<or> Contains (lower (tm_label ti)) q \<or> Contains (tm_id ti) q) (ui_themes ui t)))"

definition themeIDFromPackage :: "string \<Rightarrow> string" where
  "themeIDFromPackage name =
     (if HasPrefix name themePackagePrefix \<and> drop (length themePackagePrefix) name \<noteq> '''' then drop (length themePackagePrefix) name
      else name)"

definition newestListedVersion :: "(string \<times> bool) list \<Rightarrow> string option" where
  "newestListedVersion versions = map_option fst (find snd (rev versions))"

definition themeVersionViews :: "'a pkg_version list \<Rightarrow> (string \<times> bool) list" where
  "themeVersionViews versions = map (\<lambda>v. (vr_version v, map_of (vr_artifacts v) themeArtifactKeyAny \<noteq> None)) versions"

definition themeArtifact :: "'a package \<Rightarrow> string \<Rightarrow> 'a option" where
  "themeArtifact pkg version = (case find (\<lambda>v. vr_version v = version) (pk_versions pkg) of
      None \<Rightarrow> None | Some v \<Rightarrow> map_of (vr_artifacts v) themeArtifactKeyAny)"

record available_theme =
  at_name :: string
  at_id :: string
  at_label :: string
  at_description :: string
  at_version :: string

definition availableThemes :: "('v, 'c) semver_lib \<Rightarrow> reg_host \<Rightarrow> 'a fetched \<Rightarrow> 't uikit \<Rightarrow> string \<Rightarrow> 't
    \<Rightarrow> reg_error + (available_theme list \<times> bool)" where
  "availableThemes sv host fetch ui query t = (case searchPackages sv host fetch registryThemeKind query '''' of
      Inl e \<Rightarrow> Inl e
    | Inr (packages, stale) \<Rightarrow> Inr (List.map_filter (\<lambda>p.
        let i = themeIDFromPackage (pw_name p) in
        if i \<in> tm_id ` set (ui_themes ui t) then None
        else case newestListedVersion (pw_versions p) of
            None \<Rightarrow> None
          | Some version \<Rightarrow> Some \<lparr> at_name = pw_name p, at_id = i, at_label = (if pw_display p = '''' then i else pw_display p),
              at_description = pw_description p, at_version = version \<rparr>) packages, stale))"

text \<open>\<open>stat\<close> and \<open>read\<close> are whether the downloaded file can be looked at and read.\<close>

definition installThemeFromRegistry :: "reg_host \<Rightarrow> 'a fetched \<Rightarrow> 't uikit \<Rightarrow> bool \<Rightarrow> ('a \<Rightarrow> bytes option \<times> bool) \<Rightarrow> bool \<Rightarrow> bool
    \<Rightarrow> string \<Rightarrow> 't \<times> handler \<Rightarrow> (reg_error + unit) \<times> 't \<times> handler" where
  "installThemeFromRegistry host fetch ui mkdir download stat read name = (\<lambda>(t, h).
     if name = '''' then (Inl RegInvalid, t, h)
     else if \<not> rh_config host then (Inl RegUnavailable, t, h)
     else case fetch of
       None \<Rightarrow> (Inl RegFailed, t, h)
     | Some (idx, _) \<Rightarrow> (case ix_find idx name of
         None \<Rightarrow> (Inl RegNotFound, t, h)
       | Some pkg \<Rightarrow>
           if pk_kind pkg \<noteq> registryThemeKind then (Inl RegNotFound, t, h)
           else case newestListedVersion (themeVersionViews (pk_versions pkg)) of
             None \<Rightarrow> (Inl RegNotFound, t, h)
           | Some version \<Rightarrow> (case themeArtifact pkg version of
               None \<Rightarrow> (Inl RegNotFound, t, h)
             | Some artifact \<Rightarrow>
                 let i = themeIDFromPackage name; target = name @ ''@'' @ version;
                     failed = (\<lambda>e h. (Inl e, t, audit ''theme.installed'' target OutcomeError h));
                     dest = reg_tmp h (i @ ''.css''); clean = (\<lambda>(r, t, h). (r, t, on_files (AList.delete dest) h))
                 in if \<not> mkdir then failed RegFailed h
                    else
                      let (data, ok) = download artifact; h = on_files (put_file dest data) h in
                      if \<not> ok then clean (failed RegFailed h)
                      else case data of
                          None \<Rightarrow> clean (failed RegFailed h)
                        | Some css \<Rightarrow>
                            if \<not> stat then clean (failed RegFailed h)
                            else if maxThemeBytes < length css then clean (failed RegInvalid h)
                            else if \<not> read then clean (failed RegFailed h)
                            else case ui_install ui i css t of
                                (False, t') \<Rightarrow> clean (Inl RegInvalid, t', audit ''theme.installed'' target OutcomeError h)
                              | (True, t') \<Rightarrow> clean (Inr (), t', audit ''theme.installed'' target OutcomeOK h))))"

definition removeInstalledTheme :: "'t uikit \<Rightarrow> string \<Rightarrow> 't \<times> handler \<Rightarrow> (reg_error + unit) \<times> 't \<times> handler" where
  "removeInstalledTheme ui i = (\<lambda>(t, h).
     if i = '''' then (Inl RegInvalid, t, h)
     else case ui_remove ui i t of
         (Some _, t) \<Rightarrow> (Inl RegTheme, t, audit ''theme.removed'' i OutcomeError h)
       | (None, t) \<Rightarrow> (Inr (), t, audit ''theme.removed'' i OutcomeOK h))"

end
