(* ===== verification/Registry_Safety.thy ===== *)
theory Registry_Safety
  imports Registry Operation_Safety
begin

text \<open>
  What a listing of the registry promises, and which worker artifact is chosen.
\<close>

subsection \<open>Installing what is listed\<close>

lemma on_files_fields [simp]:
  "hd_audit (on_files f h) = hd_audit h" "rm_files (hd_runtimes (on_files f h)) = f (rm_files (hd_runtimes h))"
  by (simp_all add: on_files_def)

lemma audit_fields [simp]:
  "hd_audit (audit act target oc h) = hd_audit h @ [(act, target, oc)]" "hd_runtimes (audit act target oc h) = hd_runtimes h"
  by (simp_all add: audit_def)

lemma on_runtimes_audit: "on_runtimes f h = (r, h') \<Longrightarrow> hd_audit h' = hd_audit h"
  by (auto simp: on_runtimes_def split: prod.splits sum.splits)

lemma map_of_deleted [simp]: "map_of (AList.delete p files) p = None"
  by (simp add: delete_conv')

text \<open>Once a version is resolved and accepted, the install writes one audit line about it and leaves no download behind.\<close>

lemma install_resolved:
  assumes "installRuntimeFromRegistry sv host (Some (idx, stale)) True download yaml archive clear undo now reply name version h = (r, h')"
    and "hd_has_runtimes h" "rh_config host" "name \<noteq> ''''"
    and "ix_resolve_runtime idx name (serverPlatform host) (massVersionForResolve sv (rh_version host)) = Inr (v, artifact)"
    and "version \<in> {'''', vr_version v}"
  shows "hd_audit h' = hd_audit h @ [(''runtime.installed'', name @ ''@'' @ vr_version v, if isl r then OutcomeError else OutcomeOK)]
    \<and> map_of (rm_files (hd_runtimes h')) (reg_tmp h (name @ ''.mass'')) = None"
proof -
  obtain data ok where d: "download artifact = (data, ok)" by fastforce
  obtain x h2 where f: "on_runtimes (InstallFromPath yaml (case data of None \<Rightarrow> None | Some b \<Rightarrow> archive b) clear undo now reply)
      (on_files (put_file (reg_tmp h (name @ ''.mass'')) data) h) = (x, h2)" by fastforce
  from on_runtimes_audit [OF f] have "hd_audit h2 = hd_audit h" by simp
  with assms d f show ?thesis
    by (cases ok; cases x) (auto simp: installRuntimeFromRegistry_def Let_def)
qed

text \<open>A runtime package listed with an installable version installs as exactly that version: with the same answer of the
  registry, an install without a version, or pinned to the listed one, writes one audit line that names it, and removes
  what it downloaded; pinned to any other version, or for a package listed as not installable, it is refused and changes
  nothing. (The resolver answers no version without a version string.)\<close>

theorem registry_listing_agrees:
  assumes search: "searchPackages sv host (Some (idx, stale)) registryRuntimeKind query runtime = Inr (pws, st)"
    and pw: "pw \<in> set pws" "pw_kind pw = registryRuntimeKind" "pw_name pw \<noteq> ''''" and wired: "hd_has_runtimes h"
    and op: "installRuntimeFromRegistry sv host (Some (idx, stale)) True download yaml archive clear undo now reply (pw_name pw) version h = (r, h')"
    and named: "\<And>n p m v a. ix_resolve_runtime idx n p m = Inr (v, a) \<Longrightarrow> vr_version v \<noteq> ''''"
  shows "if pw_installable pw = '''' \<or> version \<notin> {'''', pw_installable pw} then isl r \<and> h' = h
    else hd_audit h' = hd_audit h @
        [(''runtime.installed'', pw_name pw @ ''@'' @ pw_installable pw, if isl r then OutcomeError else OutcomeOK)]
      \<and> map_of (rm_files (hd_runtimes h')) (reg_tmp h (pw_name pw @ ''.mass'')) = None"
proof -
  have host: "rh_config host" using search by (auto simp: searchPackages_def split: if_splits)
  obtain pkg where pkg: "pw = view_of sv host idx pkg" using search pw(1) by (auto simp: searchPackages_def split: if_splits)
  let ?res = "ix_resolve_runtime idx (pw_name pw) (serverPlatform host) (massVersionForResolve sv (rh_version host))"
  have i: "pw_installable pw = (case ?res of Inl _ \<Rightarrow> '''' | Inr (v, _) \<Rightarrow> vr_version v)"
    using pw(2) by (simp add: pkg view_of_def installableRuntimeVersion_def)
  show ?thesis
  proof (cases ?res)
    case (Inl e)
    then show ?thesis using op wired host pw(3)
      by (cases e) (auto simp: i installRuntimeFromRegistry_def)
  next
    case (Inr va)
    obtain v artifact where va: "va = (v, artifact)" by fastforce
    from named Inr va have v: "vr_version v \<noteq> ''''" by blast
    show ?thesis
    proof (cases "version \<in> {'''', vr_version v}")
      case True
      with install_resolved [OF op wired host pw(3) Inr [unfolded va] True] v show ?thesis by (simp add: i Inr va)
    next
      case False
      with op wired host pw(3) v show ?thesis by (auto simp: i Inr va installRuntimeFromRegistry_def)
    qed
  qed
qed

subsection \<open>Choosing a worker\<close>

lemma backends_sorted: "sorted (compatibleBackends idx p rv mv os arch) \<and> distinct (compatibleBackends idx p rv mv os arch)"
  by (auto simp: compatibleBackends_def split: option.split)

definition candidate_packages :: "'a registry_index \<Rightarrow> runtime_name \<Rightarrow> string \<Rightarrow> string \<Rightarrow> string \<Rightarrow> string \<Rightarrow> string list" where
  "candidate_packages idx runtime rv mv os arch = map pk_name
     (filter (\<lambda>p. compatibleBackends idx (pk_name p) rv mv os arch \<noteq> []) (ix_workers_for idx runtime))"

lemma chooseWorkerPackage_cases:
  "chooseWorkerPackage idx runtime os arch '''' rv mv = (case candidate_packages idx runtime rv mv os arch of
     [] \<Rightarrow> Inl (RegResolver NotResolved, []) | [p] \<Rightarrow> Inr p | ps \<Rightarrow> Inl (RegAmbiguousWorker, sort ps))"
  by (auto simp: chooseWorkerPackage_def candidate_packages_def Let_def split: list.splits)

text \<open>What was asked for is taken; what was not asked for is taken only when there is one choice.\<close>

definition only_choice :: "string \<Rightarrow> string list \<Rightarrow> string \<Rightarrow> bool" where
  "only_choice want cs chosen \<longleftrightarrow> (if want = '''' then cs = [chosen] else chosen = want)"

text \<open>C36. The worker artifact for a runtime is never guessed: it resolves for a package and a backend that were asked for, or
  are the only ones that have an artifact for the platform, the installed runtime and this server; a package that was
  asked for is a worker package of that runtime. A refusal for ambiguity lists the choices, at least two, in order.\<close>

theorem worker_artifact_unambiguous:
  assumes op: "resolveWorkerArtifact sv host (Some (idx, stale)) runtime os arch backend workerPkg h = r"
    and mf: "Get_manifest runtime (hd_runtimes h) = Inr mf" and mv: "mv = massVersionForResolve sv (rh_version host)"
  shows "(\<forall>v a. r = Inr (v, a) \<longrightarrow> (\<exists>p b. ix_resolve_worker idx p (os, arch, b) (mf_version mf) mv = Inr (v, a)
        \<and> only_choice workerPkg (candidate_packages idx runtime (mf_version mf) mv os arch) p
        \<and> only_choice backend (compatibleBackends idx p (mf_version mf) mv os arch) b
        \<and> (workerPkg \<noteq> '''' \<longrightarrow> (\<exists>pkg. ix_find idx workerPkg = Some pkg \<and> pk_kind pkg = KindWorker \<and> pk_runtime pkg = runtime))))
    \<and> (\<forall>cs. r = Inl (RegAmbiguousWorker, cs) \<longrightarrow> workerPkg = '''' \<and> 2 \<le> length cs \<and> sorted cs
        \<and> mset cs = mset (candidate_packages idx runtime (mf_version mf) mv os arch))
    \<and> (\<forall>cs. r = Inl (RegAmbiguousBackend, cs) \<longrightarrow> backend = '''' \<and> 2 \<le> length cs \<and> sorted cs \<and> distinct cs
        \<and> (\<exists>p. cs = compatibleBackends idx p (mf_version mf) mv os arch
          \<and> only_choice workerPkg (candidate_packages idx runtime (mf_version mf) mv os arch) p))"
proof (cases "hd_has_runtimes h \<and> rh_config host")
  case False
  then show ?thesis using mf by (auto simp: resolveWorkerArtifact_def op [symmetric])
next
  case True
  let ?choose = "chooseWorkerPackage idx runtime os arch workerPkg (mf_version mf) mv"
  let ?resolve = "\<lambda>p b. case ix_resolve_worker idx p (os, arch, b) (mf_version mf) mv of
      Inl e \<Rightarrow> Inl (RegResolver e, []) | Inr r \<Rightarrow> Inr r"
  have r: "r = (case ?choose of Inl e \<Rightarrow> Inl e | Inr p \<Rightarrow> if backend \<noteq> '''' then ?resolve p backend
      else case compatibleBackends idx p (mf_version mf) mv os arch of [] \<Rightarrow> Inl (RegResolver NotResolved, [])
        | [b] \<Rightarrow> ?resolve p b | bs \<Rightarrow> Inl (RegAmbiguousBackend, bs))"
    unfolding mv op [symmetric] resolveWorkerArtifact_def Let_def using True mf by simp
  show ?thesis
  proof (cases ?choose)
    case (Inl e)
    then have "e = (RegAmbiguousWorker, sort (candidate_packages idx runtime (mf_version mf) mv os arch)) \<and> workerPkg = ''''
        \<and> 2 \<le> length (candidate_packages idx runtime (mf_version mf) mv os arch) \<or> e = (RegResolver NotResolved, [])"
      using chooseWorkerPackage_cases [of idx runtime os arch "mf_version mf" mv]
      by (cases "workerPkg = ''''") (auto simp: chooseWorkerPackage_def [of _ _ _ _ workerPkg] split: option.splits if_splits list.splits)
    then show ?thesis by (auto simp: r Inl)
  next
    case (Inr p)
    then have p: "only_choice workerPkg (candidate_packages idx runtime (mf_version mf) mv os arch) p"
      "workerPkg \<noteq> '''' \<longrightarrow> (\<exists>pkg. ix_find idx workerPkg = Some pkg \<and> pk_kind pkg = KindWorker \<and> pk_runtime pkg = runtime)"
      using chooseWorkerPackage_cases [of idx runtime os arch "mf_version mf" mv]
      by (cases "workerPkg = ''''"; auto simp: chooseWorkerPackage_def [of _ _ _ _ workerPkg] only_choice_def split: option.splits if_splits list.splits)+
    show ?thesis
    proof (cases "backend = ''''")
      case False
      with p show ?thesis by (auto simp: r Inr only_choice_def [of backend] split: sum.splits)
    next
      case True
      note backend = this
      have resolved: ?thesis if "only_choice backend (compatibleBackends idx p (mf_version mf) mv os arch) b" "r = ?resolve p b" for b
        using that p by (cases "ix_resolve_worker idx p (os, arch, b) (mf_version mf) mv") auto
      consider "compatibleBackends idx p (mf_version mf) mv os arch = []"
        | (one) b where "compatibleBackends idx p (mf_version mf) mv os arch = [b]"
        | (more) b c bs where "compatibleBackends idx p (mf_version mf) mv os arch = b # c # bs"
        by (metis list.exhaust)
      then show ?thesis
      proof cases
        case one
        then show ?thesis by (intro resolved) (simp_all add: r Inr backend only_choice_def)
      next
        case more
        then have "r = Inl (RegAmbiguousBackend, compatibleBackends idx p (mf_version mf) mv os arch)" by (simp add: r Inr backend)
        moreover have "2 \<le> length (compatibleBackends idx p (mf_version mf) mv os arch)" by (simp add: more)
        ultimately show ?thesis using p(1) backends_sorted [of idx p "mf_version mf" mv os arch] backend by auto
      qed (simp add: r Inr backend)
    qed
  qed
qed

subsection \<open>On an index of two packages\<close>

definition demo_version :: "string \<Rightarrow> (string \<times> nat) list \<Rightarrow> nat pkg_version" where
  "demo_version v artifacts = \<lparr> vr_version = v, vr_runtime = '''', vr_mass = '''', vr_artifacts = artifacts \<rparr>"

definition demo_worker_pkg :: "nat package" where
  "demo_worker_pkg = \<lparr> pk_name = ''w'', pk_kind = KindWorker, pk_runtime = ''rt'', pk_display = '''', pk_description = '''',
     pk_versions = [demo_version ''1'' [(''l/x/vulkan'', 1), (''l/x/cuda'', 2)]] \<rparr>"

definition demo_runtime_pkg :: "nat package" where
  "demo_runtime_pkg = \<lparr> pk_name = ''r'', pk_kind = registryRuntimeKind, pk_runtime = ''rt'', pk_display = '''', pk_description = '''',
     pk_versions = [demo_version ''2'' [(''l/x'', 3)]] \<rparr>"

definition demo_index :: "nat registry_index" where
  "demo_index = \<lparr> ix_search = (\<lambda>kind query runtime. filter (\<lambda>p. pk_kind p = kind) [demo_worker_pkg, demo_runtime_pkg]),
     ix_find = (\<lambda>name. find (\<lambda>p. pk_name p = name) [demo_worker_pkg, demo_runtime_pkg]),
     ix_workers_for = (\<lambda>runtime. if runtime = ''rt'' then [demo_worker_pkg] else []),
     ix_compatible = (\<lambda>runtime rv mv. Some (if runtime = ''rt'' then [(demo_worker_pkg, hd (pk_versions demo_worker_pkg))] else [])),
     ix_resolve_runtime = (\<lambda>name p mv. if name = ''r'' then Inr (hd (pk_versions demo_runtime_pkg), 3) else Inl NotResolved),
     ix_resolve_worker = (\<lambda>name p rv mv. if p = (''l'', ''x'', ''cuda'') then Inr (hd (pk_versions demo_worker_pkg), 2) else Inl NotResolved) \<rparr>"

definition demo_host :: reg_host where
  "demo_host = \<lparr> rh_config = True, rh_version = ''dev'', rh_os = ''l'', rh_arch = ''x'', rh_key = ''l/x'' \<rparr>"

definition dev_semver :: "(unit, unit) semver_lib" where
  "dev_semver = \<lparr> sv_version = (\<lambda>_. None), sv_constraint = (\<lambda>_. None), sv_prerelease = (\<lambda>_. False), sv_equal = (=),
     sv_check = (\<lambda>_ _. True), sv_release = (\<lambda>_. None), sv_string = (\<lambda>_. ''''), sv_greater = (\<lambda>_ _. False) \<rparr>"

lemmas demo_registry = demo_index_def demo_host_def demo_worker_pkg_def demo_runtime_pkg_def demo_version_def

text \<open>The listed package installs as version 2, whatever its archive turns out to be.\<close>

theorem registry_listing_agrees_witness:
  "\<exists>r h'. installRuntimeFromRegistry dev_semver demo_host (Some (demo_index, False)) True (\<lambda>_. (Some [0], True)) (\<lambda>_. None) (\<lambda>_. None)
      None None 0 None ''r'' ''2'' demo_handler = (r, h')
    \<and> hd_audit h' = [(''runtime.installed'', ''r@2'', if isl r then OutcomeError else OutcomeOK)]
    \<and> map_of (rm_files (hd_runtimes h')) (reg_tmp demo_handler ''r.mass'') = None"
proof -
  obtain r h' where op: "installRuntimeFromRegistry dev_semver demo_host (Some (demo_index, False)) True (\<lambda>_. (Some [0], True)) (\<lambda>_. None)
      (\<lambda>_. None) None None 0 None ''r'' ''2'' demo_handler = (r, h')" by fastforce
  define pw where "pw = view_of dev_semver demo_host demo_index demo_runtime_pkg"
  have pw: "pw_name pw = ''r''" "pw_kind pw = registryRuntimeKind" "pw_installable pw = ''2''"
    by (simp_all add: pw_def view_of_def installableRuntimeVersion_def demo_registry)
  have s: "searchPackages dev_semver demo_host (Some (demo_index, False)) registryRuntimeKind '''' '''' = Inr ([pw], False)"
    by (simp add: searchPackages_def pw_def demo_registry)
  have "hd_has_runtimes demo_handler" "hd_audit demo_handler = []" by (simp_all add: demo_handler_def)
  moreover have "vr_version v \<noteq> ''''" if "ix_resolve_runtime demo_index n p m = Inr (v, a)" for n p m v a
    using that by (simp add: demo_registry split: if_splits) (auto simp: demo_version_def)
  moreover have op': "installRuntimeFromRegistry dev_semver demo_host (Some (demo_index, False)) True (\<lambda>_. (Some [0], True)) (\<lambda>_. None)
      (\<lambda>_. None) None None 0 None (pw_name pw) ''2'' demo_handler = (r, h')" by (simp only: pw op)
  ultimately show ?thesis
    using registry_listing_agrees [OF s _ _ _ _ op'] op by (simp add: pw)
qed

text \<open>With two backends on the platform and none asked for, both are listed; the one asked for resolves.\<close>

definition installed_handler :: handler where
  "installed_handler = demo_handler\<lparr>hd_runtimes := (hd_runtimes demo_handler)\<lparr>rm_installed := [(''rt'', \<lparr> mf_name = ''rt'', mf_version = ''2'',
     mf_display = '''', mf_description = '''', mf_auto = False, mf_binary = '''' \<rparr>)]\<rparr>\<rparr>"

theorem worker_artifact_unambiguous_witness:
  "resolveWorkerArtifact dev_semver demo_host (Some (demo_index, False)) ''rt'' ''l'' ''x'' '''' '''' installed_handler
      = Inl (RegAmbiguousBackend, [''cuda'', ''vulkan''])
   \<and> (\<exists>v. resolveWorkerArtifact dev_semver demo_host (Some (demo_index, False)) ''rt'' ''l'' ''x'' ''cuda'' '''' installed_handler = Inr (v, 2)
      \<and> (\<exists>p. candidate_packages demo_index ''rt'' ''2'' ''9999.0.0'' ''l'' ''x'' = [p]))"
proof -
  have mf: "Get_manifest ''rt'' (hd_runtimes installed_handler) = Inr \<lparr> mf_name = ''rt'', mf_version = ''2'', mf_display = '''',
      mf_description = '''', mf_auto = False, mf_binary = '''' \<rparr>" "hd_has_runtimes installed_handler"
    by (simp_all add: Get_manifest_def installed_handler_def demo_handler_def)
  have mv: "''9999.0.0'' = massVersionForResolve dev_semver (rh_version demo_host)"
    by (simp add: massVersionForResolve_def dev_semver_def unresolvableMassVersion_def)
  have b: "compatibleBackends demo_index ''w'' ''2'' ''9999.0.0'' ''l'' ''x'' = [''cuda'', ''vulkan'']" by code_simp
  have c: "chooseWorkerPackage demo_index ''rt'' ''l'' ''x'' '''' ''2'' ''9999.0.0'' = Inr ''w''"
    using b by (simp add: chooseWorkerPackage_def demo_index_def [THEN arg_cong [where f = ix_workers_for]]) (simp add: demo_worker_pkg_def)
  have r: "resolveWorkerArtifact dev_semver demo_host (Some (demo_index, False)) ''rt'' ''l'' ''x'' '''' '''' installed_handler
      = Inl (RegAmbiguousBackend, [''cuda'', ''vulkan''])"
    by (simp add: resolveWorkerArtifact_def mf mv [symmetric] c b Let_def) (simp add: demo_host_def)
  define v where "v = hd (pk_versions demo_worker_pkg)"
  have "ix_resolve_worker demo_index ''w'' (''l'', ''x'', ''cuda'') ''2'' ''9999.0.0'' = Inr (v, 2)" "rh_config demo_host"
    by (simp_all add: v_def demo_index_def demo_host_def)
  then have v: "resolveWorkerArtifact dev_semver demo_host (Some (demo_index, False)) ''rt'' ''l'' ''x'' ''cuda'' '''' installed_handler = Inr (v, 2)"
    by (simp add: resolveWorkerArtifact_def mf mv [symmetric] c Let_def)
  from worker_artifact_unambiguous [OF v mf(1) mv] obtain p where
    "only_choice '''' (candidate_packages demo_index ''rt'' ''2'' ''9999.0.0'' ''l'' ''x'') p" by auto
  then show ?thesis using r v by (auto simp: only_choice_def)
qed

end
