(* ===== verification/Update.thy ===== *)
theory Update
  imports Compat Operation_Safety
begin

text \<open>
  Self update (\<open>internal/web/update.go\<close>): the fleet gate, which counts the connected workers a new build would strand, and
  the handler that applies a release. Downloading and starting the installer is the SDK's \<open>Applier.Apply\<close>, whose outcome
  is an argument.
\<close>

subsection \<open>The fleet gate\<close>

definition fleetPairings :: "handler \<Rightarrow> pairing list" where
  "fleetPairings h = (if \<not> hd_has_workers h then []
     else map (\<lambda>sw. \<lparr> wp_runtime = w_runtime sw, wp_version = w_version sw \<rparr>) (All_workers (sc_fleet (hd_sched h))))"

fun rejects_mass :: "('v, 'c) semver \<Rightarrow> version_row list \<Rightarrow> string \<Rightarrow> bool" where
  "rejects_mass sv [] candidate = True"
| "rejects_mass sv (row # vrows) candidate = (case admits sv (vr_mass row) candidate of
      Inl reason \<Rightarrow> False | Inr ok \<Rightarrow> if ok then False else rejects_mass sv vrows candidate)"

definition workerRejectsMass :: "('v, 'c) semver \<Rightarrow> index \<Rightarrow> pairing \<Rightarrow> string \<Rightarrow> bool" where
  "workerRejectsMass sv idx w candidate = (case sv_version sv (wp_version w) of
      None \<Rightarrow> False
    | Some wv \<Rightarrow>
        let vrows = workerVersionRows sv idx (wp_runtime w) wv
        in if length vrows = 0 then False else rejects_mass sv vrows candidate)"

record fleet_gate =
  fg_incompatible :: nat
  fg_names :: "string list"

definition fleetGateNameCap :: nat where "fleetGateNameCap = 5"

definition gate_worker :: "('v, 'c) semver \<Rightarrow> index \<Rightarrow> string \<Rightarrow> pairing \<Rightarrow> fleet_gate \<Rightarrow> fleet_gate" where
  "gate_worker sv idx candidate w gate =
     (if \<not> workerRejectsMass sv idx w candidate then gate
      else \<lparr> fg_incompatible = fg_incompatible gate + 1,
             fg_names = (if length (fg_names gate) < fleetGateNameCap then fg_names gate @ [wp_runtime w @ '' '' @ wp_version w]
               else fg_names gate) \<rparr>)"

definition fleetGate :: "('v, 'c) semver \<Rightarrow> index \<Rightarrow> pairing list \<Rightarrow> string \<Rightarrow> fleet_gate" where
  "fleetGate sv idx workers candidate = fold (gate_worker sv idx candidate) workers \<lparr> fg_incompatible = 0, fg_names = [] \<rparr>"

definition updateFleetGate :: "('v, 'c) semver \<Rightarrow> cached_index \<Rightarrow> string \<Rightarrow> handler \<Rightarrow> fleet_gate" where
  "updateFleetGate sv cache candidate h = (case cache of
      CacheError _ \<Rightarrow> \<lparr> fg_incompatible = 0, fg_names = [] \<rparr>
    | Cached idx \<Rightarrow> fleetGate sv idx (fleetPairings h) candidate)"

subsection \<open>The message\<close>

definition joinNames :: "string list \<Rightarrow> string" where
  "joinNames ns = concat (map (\<lambda>(i, n). if 0 < i then '', '' @ n else n) (enumerate (0::nat) ns))"

subsection \<open>Applying\<close>

datatype apply_result = Applied | SdkRefusal | SdkFailure

datatype apply_error = OperatorManaged | Sdk apply_result

text \<open>What an update leaves behind: the tags handed to the installer, the events to the window, the shutdowns asked for.\<close>

record update_state =
  us_installed :: "string list"
  us_gui :: "string list"
  us_shutdowns :: nat

definition applyUpdate :: "bool \<Rightarrow> apply_result \<Rightarrow> string \<Rightarrow> update_state \<Rightarrow> apply_error option \<times> update_state" where
  "applyUpdate onDemand sdk tag u =
     (if \<not> onDemand then (Some OperatorManaged, u)
      else (if sdk = Applied then None else Some (Sdk sdk), u\<lparr>us_installed := us_installed u @ [tag]\<rparr>))"

record update_check =
  uc_available :: string
  uc_gate :: fleet_gate

definition writeUpdateStatus :: "('v, 'c) semver \<Rightarrow> cached_index \<Rightarrow> string \<Rightarrow> handler \<Rightarrow> update_check" where
  "writeUpdateStatus sv cache available h = \<lparr> uc_available = available,
     uc_gate = (if available \<noteq> '''' then updateFleetGate sv cache available h else \<lparr> fg_incompatible = 0, fg_names = [] \<rparr>) \<rparr>"

datatype apply_answer = NoUpdate | FleetConflict nat "string list" | Refused | ApplyFailed | Updating string

text \<open>\<open>force\<close> is the field of a body that decodes, and false otherwise; \<open>wired\<close> whether a shutdown function is set.\<close>

definition handleUpdateApply :: "('v, 'c) semver \<Rightarrow> cached_index \<Rightarrow> string \<Rightarrow> bool \<Rightarrow> bool \<Rightarrow> apply_result \<Rightarrow> bool \<Rightarrow> handler
    \<Rightarrow> update_state \<Rightarrow> apply_answer \<times> update_state" where
  "handleUpdateApply sv cache tag force onDemand sdk wired h u =
     (if tag = '''' then (NoUpdate, u)
      else
        let gate = updateFleetGate sv cache tag h in
        if \<not> force \<and> 0 < fg_incompatible gate then (FleetConflict (fg_incompatible gate) (fg_names gate), u)
        else case applyUpdate onDemand sdk tag u of
            (Some e, u) \<Rightarrow> (if e = OperatorManaged \<or> e = Sdk SdkRefusal then Refused else ApplyFailed, u)
          | (None, u) \<Rightarrow>
              let u = u\<lparr>us_gui := us_gui u @ [tag]\<rparr>
              in (Updating tag, if wired then u\<lparr>us_shutdowns := us_shutdowns u + 1\<rparr> else u))"

subsection \<open>What the gate counts\<close>

lemma rejects_mass_iff: "rejects_mass sv vrows candidate \<longleftrightarrow> (\<forall>row \<in> set vrows. excludes sv (vr_mass row) candidate)"
  by (induction vrows) (auto simp: admits_excludes [symmetric] split: sum.splits)

text \<open>A worker is counted exactly when the hub of the candidate build rejects it whatever runtime version is installed.\<close>

definition hub_rejects :: "('v, 'c) semver \<Rightarrow> index \<Rightarrow> string \<Rightarrow> pairing \<Rightarrow> string \<Rightarrow> bool" where
  "hub_rejects sv idx candidate w installed \<longleftrightarrow>
     isl (CheckWorkerCompat sv True (Some installed) (Cached idx) (wp_runtime w) (wp_version w) candidate)"

lemma hub_rejects_iff: "hub_rejects sv idx candidate w installed \<longleftrightarrow>
    (\<exists>wv. sv_version sv (wp_version w) = Some wv \<and> workerVersionRows sv idx (wp_runtime w) wv \<noteq> []
      \<and> (\<forall>row \<in> set (workerVersionRows sv idx (wp_runtime w) wv). excludes sv (vr_runtime row) installed \<or> excludes sv (vr_mass row) candidate))"
  unfolding worker_rejected_iff [symmetric] hub_rejects_def CheckWorkerCompat_def by (auto simp: isl_def)

lemma workerRejectsMass_iff: "workerRejectsMass sv idx w candidate \<longleftrightarrow>
    (\<exists>wv. sv_version sv (wp_version w) = Some wv \<and> workerVersionRows sv idx (wp_runtime w) wv \<noteq> []
      \<and> (\<forall>row \<in> set (workerVersionRows sv idx (wp_runtime w) wv). excludes sv (vr_mass row) candidate))"
  by (auto simp: workerRejectsMass_def rejects_mass_iff Let_def split: option.splits)

lemma counted_iff:
  assumes "sv_version sv bad = None"
  shows "workerRejectsMass sv idx w candidate \<longleftrightarrow> (\<forall>installed. hub_rejects sv idx candidate w installed)"
proof
  show "workerRejectsMass sv idx w candidate \<Longrightarrow> \<forall>installed. hub_rejects sv idx candidate w installed"
    unfolding workerRejectsMass_iff hub_rejects_iff by blast
next
  have "\<not> excludes sv r bad" for r using assms by (simp add: excludes_def)
  moreover assume "\<forall>installed. hub_rejects sv idx candidate w installed"
  then have "hub_rejects sv idx candidate w bad" ..
  ultimately show "workerRejectsMass sv idx w candidate"
    unfolding workerRejectsMass_iff hub_rejects_iff by simp
qed

definition counted :: "('v, 'c) semver \<Rightarrow> index \<Rightarrow> string \<Rightarrow> pairing list \<Rightarrow> pairing list" where
  "counted sv idx candidate = filter (\<lambda>w. workerRejectsMass sv idx w candidate)"

definition gate_name :: "pairing \<Rightarrow> string" where
  "gate_name w = wp_runtime w @ '' '' @ wp_version w"

lemma gate_fold: "length (fg_names g) \<le> fleetGateNameCap \<Longrightarrow> fold (gate_worker sv idx candidate) ws g =
   \<lparr> fg_incompatible = fg_incompatible g + length (counted sv idx candidate ws),
     fg_names = take fleetGateNameCap (fg_names g @ map gate_name (counted sv idx candidate ws)) \<rparr>"
proof (induction ws arbitrary: g)
  case (Cons w ws)
  show ?case
  proof (cases "workerRejectsMass sv idx w candidate")
    case True
    let ?g = "gate_worker sv idx candidate w g"
    have "length (fg_names ?g) \<le> fleetGateNameCap" using Cons.prems by (simp add: gate_worker_def True)
    from Cons.IH [OF this] Cons.prems show ?thesis
      by (auto simp: gate_worker_def True counted_def gate_name_def not_less take_Cons')
  qed (use Cons in \<open>simp add: gate_worker_def counted_def\<close>)
qed (simp add: counted_def)

lemma fleetGate_counts: "fleetGate sv idx ws candidate =
   \<lparr> fg_incompatible = length (counted sv idx candidate ws),
     fg_names = take fleetGateNameCap (map gate_name (counted sv idx candidate ws)) \<rparr>"
  by (simp add: fleetGate_def gate_fold)


text \<open>Versions that are their own text, a range that covers one version, and an index that pairs the workers of the
  fleet with the build \<open>v1\<close> only: the update to \<open>v2\<close> is refused, and with force it runs.\<close>

definition plain_semver :: "(string, string) semver" where
  "plain_semver = \<lparr> sv_version = (\<lambda>v. if v = ''?'' then None else Some v), sv_constraint = Some, sv_prerelease = (\<lambda>_. False),
     sv_equal = (=), sv_check = (=) \<rparr>"

definition plain_index :: index where
  "plain_index runtime = [[\<lparr> vr_version = w_version gpu_worker, vr_runtime = '''', vr_mass = ''v1'' \<rparr>]]"


end
