(* ===== verification/Gateway_Service.thy ===== *)
theory Gateway_Service
  imports Operation_Safety
begin

text \<open>
  The callback service a gateway subprocess talks to (\<open>internal/runtimes/scheduler_service.go\<close>) and the two callbacks of
  the benchmark orchestrator into a gateway (\<open>bench_provider.go\<close>). One service is pinned to one runtime. A wire message is
  its fields; an \<open>int32\<close> field is a 32-bit word. What a gateway answers, or whether a stream takes a message, is an argument.
\<close>

subsection \<open>Errors and enumerations on the wire\<close>

datatype grpc_code = RpcInvalidArgument | RpcNotFound | RpcUnavailable | RpcFailedPrecondition | RpcInternal

datatype sched_failure = SubmitFailure submit_error | CancelFailure cancel_error | GetFailure get_error | StreamFailure

definition mapErrToGRPC :: "sched_failure \<Rightarrow> grpc_code" where
  "mapErrToGRPC f = (case f of
      SubmitFailure ErrNoWorker \<Rightarrow> RpcUnavailable
    | SubmitFailure ErrInvalidCost \<Rightarrow> RpcInvalidArgument
    | SubmitFailure (ErrFieldTooLong _) \<Rightarrow> RpcInvalidArgument
    | GetFailure ErrNoResult \<Rightarrow> RpcNotFound
    | CancelFailure (ErrNotInflight _) \<Rightarrow> RpcNotFound
    | CancelFailure (ErrWorkerGone _) \<Rightarrow> RpcFailedPrecondition
    | _ \<Rightarrow> RpcInternal)"

datatype job_priority = JobPriorityUnspecified | JobPriorityLow | JobPriorityMedium | JobPriorityHigh | JobPriorityCritical

definition priorityFromProto :: "job_priority \<Rightarrow> int" where
  "priorityFromProto p = (case p of
      JobPriorityLow \<Rightarrow> PriorityLow | JobPriorityHigh \<Rightarrow> PriorityHigh | JobPriorityCritical \<Rightarrow> PriorityCritical
    | _ \<Rightarrow> PriorityMedium)"

datatype wire_status = StatusUnspecified | StatusPending | StatusProcessing | StatusDone | StatusError

definition resultStatusToProto :: "result_status \<Rightarrow> wire_status" where
  "resultStatusToProto st = (case st of
      Pending \<Rightarrow> StatusPending | Processing \<Rightarrow> StatusProcessing | Done \<Rightarrow> StatusDone | Failed \<Rightarrow> StatusError)"

datatype wire_device_type = WireDeviceUnspecified | WireDeviceCPU | WireDeviceGPU

definition deviceTypeToProto :: "device_type \<Rightarrow> wire_device_type" where
  "deviceTypeToProto t = (case t of
      DeviceTypeCPU \<Rightarrow> WireDeviceCPU | DeviceTypeGPU \<Rightarrow> WireDeviceGPU | _ \<Rightarrow> WireDeviceUnspecified)"

subsection \<open>Jobs\<close>

text \<open>The request carries everything but the runtime, which is the service's, and the priority, which comes as \<open>p\<close>.\<close>

definition Submit_service :: "runtime_name \<Rightarrow> request_id \<Rightarrow> job_priority \<Rightarrow> submit_request \<Rightarrow> handler
    \<Rightarrow> (grpc_code + request_id) \<times> handler" where
  "Submit_service rt rid p req h =
     (if sr_model req = '''' then (Inl RpcInvalidArgument, h)
      else case on_sched (Submit rid (req\<lparr>sr_runtime := rt, sr_priority := priorityFromProto p\<rparr>)) h of
          (Inl e, h) \<Rightarrow> (Inl (mapErrToGRPC (SubmitFailure e)), h)
        | (Inr i, h) \<Rightarrow> (Inr i, h))"

datatype schedule_frame = FrameChunk bytes | FrameProgress rat string | FrameCompleted bytes | FrameError string

definition frame_of :: "job_chunk \<Rightarrow> schedule_frame" where
  "frame_of c = (case jc_type c of
      JobChunkTypeChunk \<Rightarrow> FrameChunk (jc_chunk c)
    | JobChunkTypeProgress \<Rightarrow> FrameProgress (jc_pct c) (jc_note c)
    | JobChunkTypeCompleted \<Rightarrow> FrameCompleted (jc_final c)
    | JobChunkTypeError \<Rightarrow> FrameError (jc_err c))"

datatype send_result = Sent | StreamGone | SendFailed

text \<open>The loop over what the buffer's channel hands out, with the outcome of each send; when the outcomes end, the
  context is done.\<close>

fun forward_chunks :: "request_id \<Rightarrow> sequenced_chunk list \<Rightarrow> send_result list
    \<Rightarrow> (request_id \<times> nat \<times> schedule_frame) list \<times> bool" where
  "forward_chunks i ((s, c) # cs) (out # outs) = (case out of
      Sent \<Rightarrow> (case forward_chunks i cs outs of (fs, ok) \<Rightarrow> ((i, s, frame_of c) # fs, ok))
    | StreamGone \<Rightarrow> ([], True)
    | SendFailed \<Rightarrow> ([], False))"
| "forward_chunks i cs outs = ([], True)"

definition StreamChunks_service :: "request_id \<Rightarrow> nat \<Rightarrow> handler \<Rightarrow> grpc_code + (nat \<times> consumer)" where
  "StreamChunks_service i resumeSeq h =
     (if i = '''' then Inl RpcInvalidArgument
      else case StreamChunks i resumeSeq (hd_sched h) of
          None \<Rightarrow> Inl (mapErrToGRPC StreamFailure)
        | Some ch \<Rightarrow> Inr ch)"

definition EvictModel_service :: "(worker_id \<Rightarrow> model_id \<Rightarrow> bool) \<Rightarrow> runtime_name \<Rightarrow> model_id \<Rightarrow> worker_id \<Rightarrow> handler
    \<Rightarrow> (grpc_code + 32 word) \<times> handler" where
  "EvictModel_service unload rt m w h =
     (if m = '''' then (Inl RpcInvalidArgument, h)
      else case on_sched (EvictModel unload rt m w) h of (n, h) \<Rightarrow> (Inr (word_of_nat n), h))"

definition GetResult_service :: "request_id \<Rightarrow> handler \<Rightarrow> (grpc_code + wire_status \<times> bytes option \<times> string option) \<times> handler" where
  "GetResult_service i h =
     (if i = '''' then (Inl RpcInvalidArgument, h)
      else case on_sched (GetResult i) h of
          (Inl e, h) \<Rightarrow> (Inl (mapErrToGRPC (GetFailure e)), h)
        | (Inr r, h) \<Rightarrow> (Inr (resultStatusToProto (res_status r), res_body r, res_error r), h))"

definition CancelJob :: "bool \<Rightarrow> request_id \<Rightarrow> handler \<Rightarrow> (grpc_code + unit) \<times> handler" where
  "CancelJob sent i h =
     (if i = '''' then (Inl RpcInvalidArgument, h)
      else case on_sched (CancelByRequestID sent i) h of
          (Inl e, h) \<Rightarrow> (Inl (mapErrToGRPC (CancelFailure e)), h)
        | (Inr _, h) \<Rightarrow> (Inr (), h))"

subsection \<open>Downloads\<close>

fun queue_files :: "runtime_name \<Rightarrow> string \<Rightarrow> string \<Rightarrow> planned_file list \<Rightarrow> nat \<Rightarrow> dl_manager \<Rightarrow> (grpc_code + nat) \<times> dl_manager" where
  "queue_files rt groupKey groupName [] queued m = (Inr queued, m)"
| "queue_files rt groupKey groupName (f # fs) queued m =
     (case StartDownload (remote_job rt groupKey groupName DownloadStatusActive f) m of
        (Inl e, m) \<Rightarrow>
          if e = ErrAlreadyExists \<or> e = ErrAlreadyDone then queue_files rt groupKey groupName fs queued m
          else (Inl RpcInternal, m)
      | (Inr _, m) \<Rightarrow> queue_files rt groupKey groupName fs (queued + 1) m)"

definition DownloadFiles :: "runtime_name \<Rightarrow> string \<Rightarrow> planned_file list \<Rightarrow> handler \<Rightarrow> (grpc_code + 32 word) \<times> handler" where
  "DownloadFiles rt group_name files h =
     (if \<not> hd_has_downloads h then (Inl RpcUnavailable, h)
      else
        let groupName = TrimSpace group_name in
        if groupName = '''' then (Inl RpcInvalidArgument, h)
        else if length files = 0 then (Inl RpcInvalidArgument, h)
        else if list_ex (\<lambda>f. ValidateRelPath (pf_rel f) \<noteq> Inr ()) files then (Inl RpcInvalidArgument, h)
        else case queue_files rt (rt @ '':'' @ groupName) groupName files 0 (hd_downloads h) of
            (Inl e, m) \<Rightarrow> (Inl e, h\<lparr>hd_downloads := m\<rparr>)
          | (Inr n, m) \<Rightarrow> (Inr (word_of_nat n), h\<lparr>hd_downloads := m\<rparr>))"

subsection \<open>Workers\<close>

record wire_device =
  wd_id :: device_id
  wd_name :: string
  wd_type :: wire_device_type
  wd_total_mb :: "32 word"

record wire_model =
  wm_id :: model_id
  wm_pool :: "32 word"
  wm_active :: "32 word"

record worker_summary =
  ws_id :: worker_id
  ws_name :: string
  ws_devices :: "wire_device list"
  ws_active_jobs :: "32 word"
  ws_capacity :: "32 word"
  ws_loaded :: "wire_model list"

definition worker_summary_of :: "stream_worker \<Rightarrow> worker_summary" where
  "worker_summary_of w = \<lparr> ws_id = w_id w, ws_name = w_name w,
     ws_devices = map (\<lambda>d. \<lparr> wd_id = dev_id d, wd_name = dev_name d, wd_type = deviceTypeToProto (dev_type d),
       wd_total_mb = word_of_int (dev_total_mb d) \<rparr>) (w_devices w),
     ws_active_jobs = word_of_int (w_active_jobs w), ws_capacity = word_of_int (w_available_cap w),
     ws_loaded = map (\<lambda>lm. \<lparr> wm_id = lm_model_id lm, wm_pool = word_of_int (lm_pool_size lm), wm_active = word_of_int (lm_active lm) \<rparr>)
       (w_loaded w) \<rparr>"

definition ListWorkers_service :: "runtime_name \<Rightarrow> handler \<Rightarrow> worker_summary list" where
  "ListWorkers_service rt h = map worker_summary_of (WorkersForRuntime rt (hd_sched h))"

subsection \<open>What the benchmark orchestrator asks a gateway\<close>

definition rooted :: "string \<Rightarrow> bool" where
  "rooted path \<longleftrightarrow> path \<noteq> '''' \<and> hd path = CHR ''/''"

fun strip_common :: "string list \<Rightarrow> string list \<Rightarrow> string list \<times> string list" where
  "strip_common (b # bs) (t # ts) = (if b = t then strip_common bs ts else (b # bs, t # ts))"
| "strip_common bs ts = (bs, ts)"

text \<open>\<open>filepath.Rel\<close> on Unix, as components: none for the base itself, one dot-dot for each level above the target.\<close>

definition Rel :: "string \<Rightarrow> string \<Rightarrow> string list option" where
  "Rel base targ =
     (if rooted base \<noteq> rooted targ then None
      else case strip_common (clean_name base) (clean_name targ) of
        (rb, rt) \<Rightarrow> if rb \<noteq> [] \<and> hd rb = ''..'' then None else Some (replicate (length rb) ''..'' @ rt))"

definition storeKey :: "string \<Rightarrow> string \<Rightarrow> string" where
  "storeKey modelsDir absPath =
     (if modelsDir = '''' \<or> absPath = '''' then ''''
      else case Rel modelsDir absPath of
          None \<Rightarrow> ''''
        | Some [] \<Rightarrow> ''.''
        | Some (c # cs) \<Rightarrow> if c = ''..'' then '''' else slash_join (c # cs))"

record gateway_model =
  gm_id :: string
  gm_kind :: int
  gm_path :: string

definition BenchModels :: "string \<Rightarrow> gateway_model list list option \<Rightarrow> runtime_name \<Rightarrow> rt_manager \<Rightarrow> string + bench_model list" where
  "BenchModels modelsDir groups rt m = (case LoadedGatewayFor rt m of
      Inl _ \<Rightarrow> Inl ''runtime not running''
    | Inr _ \<Rightarrow> (case groups of
        None \<Rightarrow> Inl ''listing models to bench''
      | Some gs \<Rightarrow> Inr (List.map_filter (\<lambda>mdl.
          if gm_kind mdl = 0 then None
          else let key = storeKey modelsDir (gm_path mdl) in
               if key = '''' then None else Some \<lparr> bm_id = gm_id mdl, bm_key = key \<rparr>) (concat gs))))"

datatype author_reply = AuthorMissing | AuthorPrecondition | AuthorBroken string | Authored bench_payload

definition AuthorBenchPayload :: "author_reply \<Rightarrow> runtime_name \<Rightarrow> rt_manager \<Rightarrow> author_error + bench_payload" where
  "AuthorBenchPayload reply rt m = (case LoadedGatewayFor rt m of
      Inl _ \<Rightarrow> Inl ErrBenchModelGone
    | Inr _ \<Rightarrow> (case reply of
        AuthorMissing \<Rightarrow> Inl ErrBenchModelGone
      | AuthorPrecondition \<Rightarrow> Inl ErrBenchModelGone
      | AuthorBroken e \<Rightarrow> Inl (AuthorFailed e)
      | Authored p \<Rightarrow> Inr p))"

subsection \<open>A store path and its bench key\<close>

lemma strip_common_prefix: "strip_common bs (bs @ ts) = ([], ts)"
  by (induction bs) (cases ts; simp)+

lemma clean_rooted: "rooted p \<Longrightarrow> clean_name p = foldl clean_step [] (split_on (CHR ''/'') p)"
  by (simp add: clean_name_def rooted_def)

lemma split_on_Cons_sep: "split_on c (c # s) = [] # split_on c s"
  by (cases "split_on c s") auto

lemma split_on_append: "c \<notin> set seg \<Longrightarrow> split_on c (seg @ c # s) = seg # split_on c s"
proof (induction seg)
  case Nil
  show ?case using split_on_Cons_sep [of c s] by simp
qed auto

lemma split_on_none_sep: "c \<notin> set seg \<Longrightarrow> split_on c seg = [seg]"
  by (induction seg) auto

lemma split_slash_join: "segs \<noteq> [] \<Longrightarrow> \<forall>s \<in> set segs. CHR ''/'' \<notin> set s \<Longrightarrow> split_on (CHR ''/'') (slash_join segs) = segs"
  by (induction segs rule: slash_join.induct) (simp_all add: split_on_none_sep split_on_append del: split_on.simps)

lemma clean_step_slash_free:
  assumes "\<forall>s \<in> set base. CHR ''/'' \<notin> set s" "\<forall>s \<in> set segs. CHR ''/'' \<notin> set s"
  shows "\<forall>s \<in> set (foldl clean_step base segs). CHR ''/'' \<notin> set s"
  using assms
proof (induction segs arbitrary: base)
  case (Cons seg segs)
  have "\<forall>s \<in> set (clean_step base seg). CHR ''/'' \<notin> set s"
    using Cons.prems by (auto simp: clean_step_def dest: in_set_butlastD)
  with Cons.IH Cons.prems show ?case by simp
qed simp

lemma strip_common_split: "strip_common bs ts = (rb, rt) \<Longrightarrow> \<exists>common. bs = common @ rb \<and> ts = common @ rt"
proof (induction bs ts arbitrary: rb rt rule: strip_common.induct)
  case (1 b bs t ts)
  show ?case
  proof (cases "b = t")
    case True
    with 1 obtain common where "bs = common @ rb" "ts = common @ rt" by auto
    with True show ?thesis by (intro exI [of _ "b # common"]) simp
  qed (use 1 in simp)
qed simp_all

text \<open>The key under which a gateway's model is benchmarked is the store path of its file: for a path a gateway reports
  and an accepted store path, the key is that store path exactly when the reported path, cleaned, names that file below the
  models directory. (Both paths are absolute.)\<close>

theorem storeKey_is_store_path:
  assumes valid: "ValidateRelPath rel = Inr ()" and abs: "rooted dir" "rooted p"
  shows "storeKey dir p = rel \<longleftrightarrow> clean_name p = Join (clean_name dir) rel"
proof -
  let ?segs = "split_on (CHR ''/'') rel"
  have plain: "list_all plain_segment ?segs" using valid by (simp add: ValidateRelPath_ok)
  then have join: "Join (clean_name dir) rel = clean_name dir @ ?segs" by (simp add: Join_def Join_plain)
  obtain seg segs where segs: "?segs = seg # segs" by (cases ?segs) auto
  have seg: "seg \<noteq> ''..''" "rel \<noteq> ''''" "rel \<noteq> ''.''"
    using plain segs by (auto simp: plain_segment_def)
  have ne: "dir \<noteq> ''''" "p \<noteq> ''''" using abs by (auto simp: rooted_def)
  show ?thesis
  proof
    assume "clean_name p = Join (clean_name dir) rel"
    then have "strip_common (clean_name dir) (clean_name p) = ([], ?segs)" by (simp add: join strip_common_prefix)
    then have "Rel dir p = Some ?segs" by (simp add: Rel_def abs)
    then show "storeKey dir p = rel" using ne seg slash_join_split [of rel] by (simp add: storeKey_def segs)
  next
    assume key: "storeKey dir p = rel"
    obtain rb rt where s: "strip_common (clean_name dir) (clean_name p) = (rb, rt)" by fastforce
    obtain common where common: "clean_name dir = common @ rb" "clean_name p = common @ rt"
      using strip_common_split [OF s] by blast
    have r: "Rel dir p = (if rb \<noteq> [] \<and> hd rb = ''..'' then None else Some (replicate (length rb) ''..'' @ rt))"
      by (simp add: Rel_def abs s)
    have "rb = []" using key ne seg by (cases rb) (auto simp: storeKey_def r split: if_splits)
    moreover have "rt \<noteq> []" using key ne seg calculation by (auto simp: storeKey_def r)
    ultimately have "slash_join rt = rel" "rt \<noteq> []" using key ne seg by (auto simp: storeKey_def r split: list.splits if_splits)
    moreover have "\<forall>s \<in> set (clean_name p). CHR ''/'' \<notin> set s"
      unfolding clean_rooted [OF abs(2)] by (rule clean_step_slash_free) (auto dest: split_on_segments)
    ultimately have "?segs = rt" using split_slash_join [of rt] by (simp add: common)
    then show "clean_name p = Join (clean_name dir) rel" unfolding join by (simp add: common \<open>rb = []\<close>)
  qed
qed

theorem storeKey_is_store_path_witness:
  "storeKey ''/srv/models'' ''/srv/./models//gguf/x/../a.bin'' = ''gguf/a.bin''"
proof -
  have "ValidateRelPath ''gguf/a.bin'' = Inr ()" "rooted ''/srv/models''" "rooted ''/srv/./models//gguf/x/../a.bin''" by code_simp+
  from storeKey_is_store_path [OF this] show ?thesis by code_simp
qed

subsection \<open>A batch of downloads\<close>

lemma StartDownload_cases:
  assumes "StartDownload spec m = (r, m')" "ValidateRelPath (dj_rel spec) = Inr ()"
  shows "(r = Inl UrlRequired \<and> dj_url spec = '''' \<and> m' = m)
    \<or> (r \<in> {Inl ErrAlreadyDone, Inl ErrAlreadyExists} \<and> m' = m
        \<and> (stat_ok m (dest_path m (dj_rel spec)) \<or> map_of (dm_jobs m) (dj_rel spec) \<noteq> None))
    \<or> (r = Inr () \<and> map_of (dm_jobs m) (dj_rel spec) = None
        \<and> m' = register (if dj_status spec = '''' then spec\<lparr>dj_status := DownloadStatusActive\<rparr> else spec) HttpRun m)"
  using assms by (auto simp: StartDownload_def split: if_splits)

lemma register_fields:
  "dm_jobs (register job kind m) = AList.update (dj_rel job) (length (dm_objs m)) (dm_jobs m)"
  "map rj_job (dm_objs (register job kind m)) = map rj_job (dm_objs m) @ [job]"
  "dm_files (register job kind m) = dm_files m" "dm_dir (register job kind m) = dm_dir m"
  by (simp_all add: register_def push_pending_def)

definition new_jobs :: "dl_manager \<Rightarrow> dl_manager \<Rightarrow> download_job list" where
  "new_jobs m m' = drop (length (dm_objs m)) (map rj_job (dm_objs m'))"

text \<open>What a batch leaves: earlier jobs stay, new ones are of the batch, and nothing on disk changes.\<close>

definition batch_frame :: "(planned_file \<Rightarrow> download_job) \<Rightarrow> planned_file list \<Rightarrow> dl_manager \<Rightarrow> dl_manager \<Rightarrow> bool" where
  "batch_frame job fs m m' \<longleftrightarrow> take (length (dm_objs m)) (map rj_job (dm_objs m')) = map rj_job (dm_objs m)
     \<and> set (new_jobs m m') \<subseteq> job ` set fs \<and> (\<forall>rel n. map_of (dm_jobs m) rel = Some n \<longrightarrow> map_of (dm_jobs m') rel = Some n)
     \<and> dm_files m' = dm_files m \<and> dm_dir m' = dm_dir m"

lemma batch_refl: "batch_frame job fs m m"
  by (simp add: batch_frame_def new_jobs_def)

lemma batch_register:
  assumes "batch_frame job fs (register (job f) kind m) m'" "map_of (dm_jobs m) (dj_rel (job f)) = None"
  shows "batch_frame job (f # fs) m m' \<and> length (new_jobs m m') = Suc (length (new_jobs (register (job f) kind m) m'))
    \<and> map_of (dm_jobs m') (dj_rel (job f)) \<noteq> None"
proof -
  let ?r = "register (job f) kind m" and ?js = "map rj_job (dm_objs m')" and ?n = "length (dm_objs m)"
  have len: "length (dm_objs ?r) = Suc ?n" using arg_cong [OF register_fields(2), of length "job f" kind m] by simp
  have t: "take (Suc ?n) ?js = map rj_job (dm_objs m) @ [job f]"
    using assms(1) by (simp add: batch_frame_def register_fields len)
  have "Suc ?n \<le> length ?js" using arg_cong [OF t, of length] by simp
  then have "drop ?n ?js = ?js ! ?n # drop (Suc ?n) ?js" by (intro Cons_nth_drop_Suc [symmetric]) simp
  moreover have "?js ! ?n = (take (Suc ?n) ?js) ! ?n" by simp
  then have "?js ! ?n = job f" by (simp add: t nth_append)
  ultimately have new: "new_jobs m m' = job f # new_jobs ?r m'" by (simp add: new_jobs_def len)
  have "take ?n ?js = take ?n (take (Suc ?n) ?js)" by simp
  then have "take ?n ?js = map rj_job (dm_objs m)" by (simp add: t)
  moreover have "map_of (dm_jobs m') rel = Some n" if "map_of (dm_jobs m) rel = Some n" for rel n
    using that assms by (cases "rel = dj_rel (job f)") (simp_all add: batch_frame_def register_fields update_conv')
  moreover have "map_of (dm_jobs m') (dj_rel (job f)) \<noteq> None"
    using assms(1) by (auto simp: batch_frame_def register_fields update_conv')
  ultimately show ?thesis using assms(1) by (auto simp: batch_frame_def new register_fields)
qed

lemma queue_files_outcome:
  assumes "queue_files rt k g fs q m = (r, m')" "\<forall>f \<in> set fs. ValidateRelPath (pf_rel f) = Inr ()"
  shows "batch_frame (remote_job rt k g DownloadStatusActive) fs m m'
    \<and> (\<forall>n. r = Inr n \<longrightarrow> n = q + length (new_jobs m m')
        \<and> (\<forall>f \<in> set fs. map_of (dm_jobs m') (pf_rel f) \<noteq> None \<or> stat_ok m (dest_path m (pf_rel f))))
    \<and> (\<forall>e. r = Inl e \<longrightarrow> e = RpcInternal \<and> (\<exists>f \<in> set fs. pf_url f = ''''))"
  using assms
proof (induction fs arbitrary: q m)
  case Nil
  then show ?case by (auto simp: batch_refl new_jobs_def)
next
  case (Cons f fs)
  let ?job = "remote_job rt k g DownloadStatusActive"
  have job: "dj_rel (?job f) = pf_rel f" "dj_url (?job f) = pf_url f" "dj_status (?job f) = DownloadStatusActive"
    "DownloadStatusActive \<noteq> ''''" by (simp_all add: remote_job_def DownloadStatusActive_def)
  obtain x m1 where st: "StartDownload (?job f) m = (x, m1)" by fastforce
  have weaken: "batch_frame ?job fs m m' \<Longrightarrow> batch_frame ?job (f # fs) m m'" by (auto simp: batch_frame_def)
  from StartDownload_cases [OF st] Cons.prems(2) job consider "x = Inl UrlRequired" "pf_url f = ''''" "m1 = m"
    | (skip) "x \<in> {Inl ErrAlreadyDone, Inl ErrAlreadyExists}" "m1 = m"
        "stat_ok m (dest_path m (pf_rel f)) \<or> map_of (dm_jobs m) (pf_rel f) \<noteq> None"
    | (start) "x = Inr ()" "map_of (dm_jobs m) (pf_rel f) = None" "m1 = register (?job f) HttpRun m"
    by auto
  then show ?case
  proof cases
    case 1
    then show ?thesis using Cons.prems st by (auto simp: batch_refl)
  next
    case skip
    then have "queue_files rt k g fs q m = (r, m')" using Cons.prems(1) st by (auto split: if_splits)
    note IH = Cons.IH [OF this]
    have "map_of (dm_jobs m) (pf_rel f) \<noteq> None \<longrightarrow> map_of (dm_jobs m') (pf_rel f) \<noteq> None"
      using IH Cons.prems(2) by (auto simp: batch_frame_def)
    with IH Cons.prems(2) skip(3) weaken show ?thesis by auto
  next
    case start
    then have "queue_files rt k g fs (q + 1) m1 = (r, m')" using Cons.prems(1) st by simp
    note IH = Cons.IH [OF this]
    have b: "batch_frame ?job fs (register (?job f) HttpRun m) m'" using IH Cons.prems(2) start(3) by simp
    note R = batch_register [OF b]
    have "stat_ok m1 = stat_ok m" "dest_path m1 = dest_path m"
      by (rule ext, simp add: start(3) stat_ok_def dest_path_def register_fields)+
    with IH R Cons.prems(2) start(2,3) job show ?thesis by auto
  qed
qed

text \<open>A batch of downloads with one path that is not acceptable is refused whole, with nothing queued. Otherwise only
  downloads of the batch are added, for the gateway's runtime and under one group, earlier ones stay as they are, and no
  file changes; the count answered is the number of downloads added, and every file of the batch is then in transfer or
  was there before. An internal error means a file without a URL.\<close>

theorem DownloadFiles_outcome:
  assumes op: "DownloadFiles rt gname fs h = (r, h')" and wired: "hd_has_downloads h"
  shows "(TrimSpace gname = '''' \<or> fs = [] \<or> (\<exists>f \<in> set fs. ValidateRelPath (pf_rel f) \<noteq> Inr ()) \<longrightarrow> r = Inl RpcInvalidArgument \<and> h' = h)
    \<and> batch_frame (remote_job rt (rt @ '':'' @ TrimSpace gname) (TrimSpace gname) DownloadStatusActive) fs (hd_downloads h) (hd_downloads h')
    \<and> (\<forall>n. r = Inr n \<longrightarrow> n = word_of_nat (length (new_jobs (hd_downloads h) (hd_downloads h')))
        \<and> (\<forall>f \<in> set fs. map_of (dm_jobs (hd_downloads h')) (pf_rel f) \<noteq> None
            \<or> stat_ok (hd_downloads h) (dest_path (hd_downloads h) (pf_rel f))))
    \<and> (r = Inl RpcInternal \<longrightarrow> (\<exists>f \<in> set fs. pf_url f = ''''))"
proof (cases "TrimSpace gname = '''' \<or> fs = [] \<or> (\<exists>f \<in> set fs. ValidateRelPath (pf_rel f) \<noteq> Inr ())")
  case True
  then have "r = Inl RpcInvalidArgument \<and> h' = h" using op wired by (auto simp: DownloadFiles_def Let_def list_ex_iff split: if_splits)
  with True show ?thesis by (simp add: batch_refl)
next
  case False
  obtain x m where q: "queue_files rt (rt @ '':'' @ TrimSpace gname) (TrimSpace gname) fs 0 (hd_downloads h) = (x, m)" by fastforce
  have "\<not> list_ex (\<lambda>f. ValidateRelPath (pf_rel f) \<noteq> Inr ()) fs" using False by (auto simp: list_ex_iff)
  with op wired False q have "r = map_sum id word_of_nat x \<and> hd_downloads h' = m"
    by (cases x) (auto simp: DownloadFiles_def Let_def)
  with queue_files_outcome [OF q] False show ?thesis by (cases x) auto
qed

text \<open>Of two files one is on disk already: one download is added, and the answer is one.\<close>

definition batch_files :: "planned_file list" where
  "batch_files = map (\<lambda>rel. \<lparr> pf_rel = rel, pf_url = ''u'', pf_group = ''g'', pf_size = 1 \<rparr>) [''f.gguf'', ''h.gguf'']"

theorem DownloadFiles_outcome_witness:
  "\<exists>h'. DownloadFiles ''rt'' ''g'' batch_files demo_handler = (Inr 1, h') \<and> map_of (dm_jobs (hd_downloads h')) ''h.gguf'' \<noteq> None
     \<and> length (new_jobs (hd_downloads demo_handler) (hd_downloads h')) < 2 ^ 32"
proof -
  let ?m = "boot [''m''] [] [] [([''m'', ''f.gguf''], [1]), ([''m'', ''g.gguf''], [2])] False"
  have q: "fst (queue_files ''rt'' ''rt:g'' ''g'' batch_files 0 ?m) = Inr 1" by code_simp
  have t: "TrimSpace ''g'' = ''g''" "\<not> list_ex (\<lambda>f. ValidateRelPath (pf_rel f) \<noteq> Inr ()) batch_files" "length batch_files \<noteq> 0"
    "\<not> stat_ok ?m (dest_path ?m ''h.gguf'')" by code_simp+
  have h: "hd_downloads demo_handler = ?m" "hd_has_downloads demo_handler" by (simp_all add: demo_handler_def)
  obtain r h' where op: "DownloadFiles ''rt'' ''g'' batch_files demo_handler = (r, h')" by fastforce
  obtain x m where q': "queue_files ''rt'' ''rt:g'' ''g'' batch_files 0 ?m = (x, m)" by fastforce
  with q op t(1-3) h have r: "r = Inr 1" by (simp add: DownloadFiles_def Let_def h(1))
  note P = DownloadFiles_outcome [OF op h(2)]
  have "\<exists>f \<in> set batch_files. pf_rel f = ''h.gguf''" by (simp add: batch_files_def)
  with P r t(4) h(1) have "map_of (dm_jobs (hd_downloads h')) ''h.gguf'' \<noteq> None" by fastforce
  moreover have "length (new_jobs (hd_downloads demo_handler) (hd_downloads h')) = 1"
    using queue_files_outcome [OF q'] q op t(1-3) h q' by (auto simp: DownloadFiles_def Let_def list_ex_iff)
  ultimately show ?thesis using op r by simp
qed

end
