(* ===== verification/Launcher.thy ===== *)
theory Launcher
  imports Mass_Prelude
begin

text \<open>
  The launcher (\<open>cmd/mass/launch.go\<close>): how a client finds, replaces and starts the local daemon, and the daemon's side of
  it (\<open>internal/web/daemonctl.go\<close>).

  The world answers: what a request to the configured address meets, whether a process starts. A polling loop is a
  recursion over the answers its probes get; when they end, its context is done (cancelled or timed out). What the
  launcher does is a log, so that its order can be stated.
\<close>

subsection \<open>Probing\<close>

record daemon_ping =
  dp_version :: string
  dp_on_demand :: bool

text \<open>A request fails to dial, fails once connected, or is answered with a status and perhaps a ping in the body.\<close>

datatype http_answer = DialError | RequestError | Response nat "daemon_ping option"

datatype daemon_state = DaemonDown | DaemonAlive daemon_ping | DaemonForeign

definition probeDaemon :: "http_answer \<Rightarrow> daemon_state" where
  "probeDaemon a = (case a of
      DialError \<Rightarrow> DaemonDown
    | RequestError \<Rightarrow> DaemonForeign
    | Response st body \<Rightarrow>
        if st \<noteq> 200 then DaemonForeign
        else case body of None \<Rightarrow> DaemonForeign | Some ping \<Rightarrow> DaemonAlive ping)"

datatype stop_error = StopUnreachable | StopNeedsToken | StopStatus nat

definition requestDaemonShutdown :: "http_answer \<Rightarrow> stop_error + unit" where
  "requestDaemonShutdown a = (case a of
      Response st _ \<Rightarrow> if st = 401 \<or> st = 303 then Inl StopNeedsToken else if st \<noteq> 200 then Inl (StopStatus st) else Inr ()
    | _ \<Rightarrow> Inl StopUnreachable)"

subsection \<open>Waiting and spawning\<close>

datatype launch_event = Probed daemon_state | AskedToStop | Spawned

datatype launch_error = ForeignDaemon | SpawnFailed | WaitTimeout | NotReleased

text \<open>A foreign answer ends the wait unless the context is already done, in which case it times out.\<close>

fun waitForDaemon :: "http_answer list \<Rightarrow> launch_event list \<Rightarrow> (launch_error + unit) \<times> launch_event list" where
  "waitForDaemon [] tr = (Inl WaitTimeout, tr)"
| "waitForDaemon (a # as) tr =
     (let st = probeDaemon a; tr = tr @ [Probed st]
      in case st of
          DaemonAlive _ \<Rightarrow> (Inr (), tr)
        | DaemonForeign \<Rightarrow> if as = [] then (Inl WaitTimeout, tr) else (Inl ForeignDaemon, tr)
        | DaemonDown \<Rightarrow> waitForDaemon as tr)"

fun waitForDaemonExit :: "http_answer list \<Rightarrow> launch_event list \<Rightarrow> (launch_error + unit) \<times> launch_event list" where
  "waitForDaemonExit [] tr = (Inl NotReleased, tr)"
| "waitForDaemonExit (a # as) tr =
     (let st = probeDaemon a; tr = tr @ [Probed st]
      in if st = DaemonDown then (Inr (), tr) else waitForDaemonExit as tr)"

definition spawnAndWait :: "bool \<Rightarrow> http_answer list \<Rightarrow> launch_event list \<Rightarrow> (launch_error + unit) \<times> launch_event list" where
  "spawnAndWait spawns ups tr =
     (if \<not> spawns then (Inl SpawnFailed, tr) else waitForDaemon ups (tr @ [Spawned]))"

definition ensureDaemon :: "string \<Rightarrow> http_answer \<Rightarrow> http_answer \<Rightarrow> http_answer list \<Rightarrow> bool \<Rightarrow> http_answer list
    \<Rightarrow> (launch_error + unit) \<times> launch_event list" where
  "ensureDaemon version first stop exits spawns ups =
     (let tr = [Probed (probeDaemon first)]
      in case probeDaemon first of
          DaemonAlive ping \<Rightarrow>
            if dp_version ping = version then (Inr (), tr)
            else if \<not> dp_on_demand ping then (Inr (), tr)
            else
              let tr = tr @ [AskedToStop]
              in (case requestDaemonShutdown stop of
                    Inl _ \<Rightarrow> (Inr (), tr)
                  | Inr _ \<Rightarrow> (case waitForDaemonExit exits tr of
                        (Inl e, tr) \<Rightarrow> (Inl e, tr)
                      | (Inr _, tr) \<Rightarrow> spawnAndWait spawns ups tr))
        | DaemonDown \<Rightarrow> spawnAndWait spawns ups tr
        | DaemonForeign \<Rightarrow> (Inl ForeignDaemon, tr))"

subsection \<open>The daemon's side\<close>

datatype control_answer = Forbidden | NotWired | Accepted

definition handleDaemonPing :: "bool \<Rightarrow> string \<Rightarrow> bool \<Rightarrow> control_answer \<times> daemon_ping option" where
  "handleDaemonPing loopback version onDemand =
     (if \<not> loopback then (Forbidden, None) else (Accepted, Some \<lparr> dp_version = version, dp_on_demand = onDemand \<rparr>))"

text \<open>The answer, and the number of teardowns started so far.\<close>

definition handleDaemonShutdown :: "bool \<Rightarrow> bool \<Rightarrow> nat \<Rightarrow> control_answer \<times> nat" where
  "handleDaemonShutdown loopback wired n =
     (if \<not> loopback then (Forbidden, n) else if \<not> wired then (NotWired, n) else (Accepted, n + 1))"

subsection \<open>A launch\<close>

lemma waitForDaemon_log:
  assumes "waitForDaemon as tr = (r, tr')"
  shows "\<exists>ps. tr' = tr @ map Probed ps \<and> (r = Inr () \<longrightarrow> ps \<noteq> [] \<and> (\<exists>ping. last ps = DaemonAlive ping))"
  using assms
proof (induction as arbitrary: tr)
  case (Cons a as)
  show ?case
  proof (cases "probeDaemon a")
    case DaemonDown
    with Cons obtain ps where "tr' = (tr @ [Probed DaemonDown]) @ map Probed ps"
        "r = Inr () \<longrightarrow> ps \<noteq> [] \<and> (\<exists>ping. last ps = DaemonAlive ping)" by (fastforce simp: Let_def)
    then show ?thesis by (intro exI [of _ "DaemonDown # ps"]) auto
  next
    case (DaemonAlive ping)
    with Cons.prems show ?thesis by (intro exI [of _ "[DaemonAlive ping]"]) (auto simp: Let_def)
  next
    case DaemonForeign
    with Cons.prems show ?thesis by (intro exI [of _ "[DaemonForeign]"]) (auto simp: Let_def split: if_splits)
  qed
qed auto

lemma waitForDaemonExit_log:
  assumes "waitForDaemonExit as tr = (r, tr')"
  shows "\<exists>ps. tr' = tr @ map Probed ps \<and> (r = Inr () \<longrightarrow> ps \<noteq> [] \<and> last ps = DaemonDown)"
  using assms
proof (induction as arbitrary: tr)
  case (Cons a as)
  show ?case
  proof (cases "probeDaemon a = DaemonDown")
    case True
    with Cons.prems show ?thesis by (intro exI [of _ "[DaemonDown]"]) (auto simp: Let_def)
  next
    case False
    with Cons obtain ps where "tr' = (tr @ [Probed (probeDaemon a)]) @ map Probed ps"
        "r = Inr () \<longrightarrow> ps \<noteq> [] \<and> last ps = DaemonDown" by (fastforce simp: Let_def)
    then show ?thesis by (intro exI [of _ "probeDaemon a # ps"]) auto
  qed
qed auto

lemma last_probe: "ps \<noteq> [] \<Longrightarrow> \<exists>as. map Probed ps = as @ [Probed (last ps)]"
  by (metis append_butlast_last_id map_append list.simps(8,9))

text \<open>Only a different, on-demand build is asked to stop; nothing is spawned but right after a probe that found the
  address free, and then one process; and a launch that succeeds without spawning has seen a daemon, which is of this
  build, or operator-managed, or would not stop.\<close>

definition launch_ok :: "string \<Rightarrow> http_answer \<Rightarrow> http_answer \<Rightarrow> launch_error + unit \<Rightarrow> launch_event list \<Rightarrow> bool" where
  "launch_ok version first stop r tr \<longleftrightarrow>
     (AskedToStop \<in> set tr \<longrightarrow> (\<exists>ping. probeDaemon first = DaemonAlive ping \<and> dp_on_demand ping \<and> dp_version ping \<noteq> version))
     \<and> count_list tr Spawned \<le> 1
     \<and> (\<forall>xs ys. tr = xs @ Spawned # ys \<longrightarrow> xs \<noteq> [] \<and> last xs = Probed DaemonDown)
     \<and> (r = Inr () \<longrightarrow> Spawned \<notin> set tr \<longrightarrow> (\<exists>ping. probeDaemon first = DaemonAlive ping
          \<and> (dp_version ping = version \<or> \<not> dp_on_demand ping \<or> isl (requestDaemonShutdown stop))))
     \<and> (r = Inr () \<longrightarrow> Spawned \<in> set tr \<longrightarrow> (\<exists>ping. last tr = Probed (DaemonAlive ping)))"

lemma spawn_launch:
  assumes "spawnAndWait spawns ups (xs @ [Probed DaemonDown]) = (r, tr)" "Spawned \<notin> set xs"
    and "AskedToStop \<in> set xs \<longrightarrow> (\<exists>ping. probeDaemon first = DaemonAlive ping \<and> dp_on_demand ping \<and> dp_version ping \<noteq> version)"
  shows "launch_ok version first stop r tr"
proof (cases spawns)
  case True
  with assms(1) have "waitForDaemon ups (xs @ [Probed DaemonDown, Spawned]) = (r, tr)" by (simp add: spawnAndWait_def)
  from waitForDaemon_log [OF this] obtain ps where tr: "tr = xs @ [Probed DaemonDown, Spawned] @ map Probed ps"
    and ok: "r = Inr () \<longrightarrow> ps \<noteq> [] \<and> (\<exists>ping. last ps = DaemonAlive ping)" by auto
  have not_probe: "map Probed ps \<noteq> us @ Spawned # vs" for us vs by (metis in_set_conv_decomp ex_map_conv launch_event.distinct(3,4))
  have "AskedToStop \<notin> Probed ` set ps" "Spawned \<notin> Probed ` set ps" by auto
  moreover have "count_list (map Probed ps) Spawned = 0" by (induction ps) auto
  moreover have "count_list xs Spawned = 0" using assms(2) by (simp add: count_list_0_iff)
  moreover have "ys \<noteq> [] \<and> last ys = Probed DaemonDown" if e: "tr = ys @ Spawned # zs" for ys zs
  proof -
    have "ys = xs @ [Probed DaemonDown]"
      using e assms(2) not_probe unfolding tr by (auto simp: append_eq_append_conv2 append_eq_Cons_conv Cons_eq_append_conv)
    then show ?thesis by simp
  qed
  ultimately show ?thesis using assms(3) ok by (auto simp: launch_ok_def tr last_map)
next
  case False
  with assms have "tr = xs @ [Probed DaemonDown]" "r = Inl SpawnFailed" by (simp_all add: spawnAndWait_def)
  with assms(2,3) show ?thesis by (auto simp: launch_ok_def count_list_0_iff dest!: arg_cong [where f = set])
qed

text \<open>A launch asks only a different, on-demand build to stop, never an operator-managed one; it starts a process at most
  once, and only right after a probe that found the address free; and when it reports success it has last seen a daemon
  answer: the one it started, or one of this build, operator-managed, or refusing to stop.\<close>

theorem launcher_outcome:
  assumes "ensureDaemon version first stop exits spawns ups = (r, tr)"
  shows "launch_ok version first stop r tr"
proof (cases "probeDaemon first")
  case DaemonDown
  then have "spawnAndWait spawns ups ([] @ [Probed DaemonDown]) = (r, tr)" using assms by (simp add: ensureDaemon_def Let_def)
  from spawn_launch [OF this] show ?thesis by simp
next
  case DaemonForeign
  then show ?thesis using assms by (auto simp: ensureDaemon_def launch_ok_def Cons_eq_append_conv)
next
  case (DaemonAlive ping)
  let ?t = "[Probed (DaemonAlive ping), AskedToStop]"
  show ?thesis
  proof (cases "dp_version ping = version \<or> \<not> dp_on_demand ping \<or> isl (requestDaemonShutdown stop)")
    case True
    then show ?thesis using assms
      by (auto simp: ensureDaemon_def launch_ok_def DaemonAlive Let_def Cons_eq_append_conv split: if_splits sum.splits)
  next
    case False
    obtain x t where x: "waitForDaemonExit exits ?t = (x, t)" by fastforce
    from waitForDaemonExit_log [OF x] obtain ps where ps: "t = ?t @ map Probed ps" "x = Inr () \<longrightarrow> ps \<noteq> [] \<and> last ps = DaemonDown" by blast
    have none: "Spawned \<notin> set t" by (auto simp: ps)
    show ?thesis
    proof (cases x)
      case (Inl e)
      then have "r = Inl e" "tr = t" using assms False x by (auto simp: ensureDaemon_def DaemonAlive Let_def isl_def split: sum.splits)
      with none show ?thesis using False DaemonAlive by (auto simp: launch_ok_def count_list_0_iff)
    next
      case (Inr u)
      then have "ps \<noteq> []" "last ps = DaemonDown" using ps(2) by auto
      with last_probe [of ps] obtain as where "t = (?t @ as) @ [Probed DaemonDown]" by (auto simp: ps)
      moreover have "spawnAndWait spawns ups t = (r, tr)"
        using assms False x Inr by (auto simp: ensureDaemon_def DaemonAlive Let_def isl_def split: sum.splits)
      ultimately show ?thesis using none False by (intro spawn_launch [where xs = "?t @ as"]) (auto simp: DaemonAlive)
    qed
  qed
qed

text \<open>An outdated on-demand daemon is asked to stop, releases the address, and is replaced.\<close>

theorem launcher_outcome_witness:
  "\<exists>tr. ensureDaemon ''2'' (Response 200 (Some \<lparr> dp_version = ''1'', dp_on_demand = True \<rparr>)) (Response 200 None)
      [RequestError, DialError] True [DialError, Response 200 (Some \<lparr> dp_version = ''2'', dp_on_demand = True \<rparr>)] = (Inr (), tr)
     \<and> AskedToStop \<in> set tr \<and> count_list tr Spawned = 1 \<and> (\<exists>ping. last tr = Probed (DaemonAlive ping))"
proof -
  obtain r tr where op: "ensureDaemon ''2'' (Response 200 (Some \<lparr> dp_version = ''1'', dp_on_demand = True \<rparr>)) (Response 200 None)
      [RequestError, DialError] True [DialError, Response 200 (Some \<lparr> dp_version = ''2'', dp_on_demand = True \<rparr>)] = (r, tr)" by fastforce
  then have e: "r = Inr ()" "AskedToStop \<in> set tr" "Spawned \<in> set tr"
    by (auto simp: ensureDaemon_def spawnAndWait_def probeDaemon_def requestDaemonShutdown_def Let_def)
  from launcher_outcome [OF op] e have "count_list tr Spawned \<le> 1" "\<exists>ping. last tr = Probed (DaemonAlive ping)"
    by (simp_all add: launch_ok_def)
  moreover have "count_list tr Spawned \<noteq> 0" using e(3) by (simp add: count_list_0_iff)
  ultimately show ?thesis using op e by (intro exI [of _ tr]) simp
qed

end
