(* ===== verification/Listen.thy ===== *)
theory Listen
  imports Config Paths Web_Gates
begin

text \<open>
  Where the daemon listens and whether it may: the addresses of \<open>internal/config/config.go\<close> (\<open>IsLoopbackAddr\<close>,
  \<open>LocalURL\<close>), the resolution of the operator token when \<open>cmd/mass/serve.go\<close> starts, and the settings that change it
  (\<open>handleSettingsSave\<close> of \<open>internal/web/routes_dashboard.go\<close>).

  \<open>net.SplitHostPort\<close> and \<open>net.ParseIP\<close> are written out; an address is its 16 bytes. What the environment, the database
  and bcrypt answer are arguments.
\<close>

subsection \<open>Hosts and ports\<close>

text \<open>The parts before and after the last colon.\<close>

definition last_colon :: "string \<Rightarrow> (string \<times> string) option" where
  "last_colon s = (let port = rev (takeWhile (\<lambda>c. c \<noteq> CHR '':'') (rev s)) in
     if CHR '':'' \<notin> set s then None else Some (take (length s - length port - 1) s, port))"

definition SplitHostPort :: "string \<Rightarrow> (string \<times> string) option" where
  "SplitHostPort hostport = (case last_colon hostport of
      None \<Rightarrow> None
    | Some (before, port) \<Rightarrow>
        if hd hostport = CHR ''['' then
          (let host = takeWhile (\<lambda>c. c \<noteq> CHR '']'') (tl hostport); rest = drop (length host + 2) hostport
           in if CHR '']'' \<notin> set hostport \<or> rest \<noteq> CHR '':'' # port \<or> CHR ''['' \<in> set (tl hostport) \<or> CHR '']'' \<in> set rest then None
              else Some (host, port))
        else if CHR '':'' \<in> set before \<or> CHR ''['' \<in> set hostport \<or> CHR '']'' \<in> set hostport then None
        else Some (before, port))"

definition JoinHostPort :: "string \<Rightarrow> string \<Rightarrow> string" where
  "JoinHostPort host port = (if CHR '':'' \<in> set host then ''['' @ host @ '']:'' @ port else host @ '':'' @ port)"

subsection \<open>Addresses\<close>

type_synonym ip = "nat list"

definition is_digit :: "char \<Rightarrow> bool" where
  "is_digit c \<longleftrightarrow> CHR ''0'' \<le> c \<and> c \<le> CHR ''9''"

definition hex_value :: "char \<Rightarrow> nat option" where
  "hex_value c =
     (if is_digit c then Some (of_char c - 48)
      else if CHR ''a'' \<le> c \<and> c \<le> CHR ''f'' then Some (of_char c - 87)
      else if CHR ''A'' \<le> c \<and> c \<le> CHR ''F'' then Some (of_char c - 55) else None)"

definition decimal :: "string \<Rightarrow> nat" where
  "decimal s = foldl (\<lambda>n c. 10 * n + (of_char c - 48)) 0 s"

text \<open>A field of a dotted address: no sign, no leading zero, at most 255.\<close>

definition octet :: "string \<Rightarrow> nat option" where
  "octet s = (if s = [] \<or> \<not> list_all is_digit s \<or> hd s = CHR ''0'' \<and> length s > 1 \<or> decimal s > 255 then None
     else Some (decimal s))"

definition parseIPv4Fields :: "string \<Rightarrow> nat list option" where
  "parseIPv4Fields s = (case map octet (split_on (CHR ''.'') s) of
      [Some a, Some b, Some c, Some d] \<Rightarrow> Some [a, b, c, d] | _ \<Rightarrow> None)"

text \<open>The groups of an IPv6 address: what is left of the text, where \<open>::\<close> stood, the bytes read.\<close>

fun v6_loop :: "nat \<Rightarrow> string \<Rightarrow> nat option \<Rightarrow> nat list \<Rightarrow> (string \<times> nat option \<times> nat list) option" where
  "v6_loop 0 s ellipsis ip = Some (s, ellipsis, ip)"
| "v6_loop (Suc n) s ellipsis ip =
     (let hex = takeWhile (\<lambda>c. hex_value c \<noteq> None) s; rest = drop (length hex) s;
          acc = foldl (\<lambda>v c. 16 * v + the (hex_value c)) 0 hex; ip' = ip @ [acc div 256, acc mod 256]
      in if hex = [] \<or> length hex > 4 then None
         else if rest = [] then Some ([], ellipsis, ip')
         else if hd rest = CHR ''.'' then
           (if ellipsis = None \<and> length ip \<noteq> 12 \<or> length ip + 4 > 16 then None
            else case parseIPv4Fields s of None \<Rightarrow> None | Some f \<Rightarrow> Some ([], ellipsis, ip @ f))
         else if hd rest \<noteq> CHR '':'' \<or> tl rest = [] then None
         else if hd (tl rest) \<noteq> CHR '':'' then v6_loop n (tl rest) ellipsis ip'
         else if ellipsis \<noteq> None then None
         else if tl (tl rest) = [] then Some ([], Some (length ip'), ip')
         else v6_loop n (tl (tl rest)) (Some (length ip')) ip')"

definition parseIPv6 :: "string \<Rightarrow> ip option" where
  "parseIPv6 s =
     (if s = ''::'' then Some (replicate 16 0)
      else case (if take 2 s = ''::'' then v6_loop 8 (drop 2 s) (Some 0) [] else v6_loop 8 s None []) of
          None \<Rightarrow> None
        | Some (rest, ellipsis, ip) \<Rightarrow>
            if rest \<noteq> [] then None
            else if length ip < 16 then
              (case ellipsis of None \<Rightarrow> None | Some e \<Rightarrow> Some (take e ip @ replicate (16 - length ip) 0 @ drop e ip))
            else if ellipsis \<noteq> None then None else Some ip)"

text \<open>An address with a zone is none.\<close>

definition ParseIP :: "string \<Rightarrow> ip option" where
  "ParseIP s = (case dropWhile (\<lambda>c. c \<notin> {CHR ''.'', CHR '':'', CHR 0x25}) s of
      [] \<Rightarrow> None
    | c # _ \<Rightarrow>
        if c = CHR ''.'' then map_option (\<lambda>f. replicate 10 0 @ [255, 255] @ f) (parseIPv4Fields s)
        else if c = CHR '':'' then (if CHR 0x25 \<in> set s then None else parseIPv6 s)
        else None)"

definition IsLoopback :: "ip \<Rightarrow> bool" where
  "IsLoopback ip \<longleftrightarrow> (if take 12 ip = replicate 10 0 @ [255, 255] then ip ! 12 = 127 else ip = replicate 15 0 @ [1])"

definition IsUnspecified :: "ip \<Rightarrow> bool" where
  "IsUnspecified ip \<longleftrightarrow> ip = replicate 10 0 @ [255, 255, 0, 0, 0, 0] \<or> ip = replicate 16 0"

text \<open>Equality under case folding with a word in which only \<open>s\<close> folds with a letter that is not ASCII.\<close>

definition lower_char :: "char \<Rightarrow> char" where
  "lower_char c = (if CHR ''A'' \<le> c \<and> c \<le> CHR ''Z'' then char_of (of_char c + (32::nat)) else c)"

definition EqualFold :: "string \<Rightarrow> string \<Rightarrow> bool" where
  "EqualFold s word \<longleftrightarrow> map lower_char (replace_all [CHR 0xC5, CHR 0xBF] ''s'' s) = word"

definition IsLoopbackAddr :: "string \<Rightarrow> bool" where
  "IsLoopbackAddr addr =
     (let host = (case SplitHostPort addr of Some (host, _) \<Rightarrow> host | None \<Rightarrow> addr)
      in if host = '''' then False
         else case ParseIP host of Some ip \<Rightarrow> IsLoopback ip | None \<Rightarrow> EqualFold host ''localhost'')"

definition LocalURL :: "string \<Rightarrow> string \<Rightarrow> string" where
  "LocalURL scheme addr =
     (let (host, port) = (case SplitHostPort addr of Some hp \<Rightarrow> hp | None \<Rightarrow> (addr, ''''));
          host = (if host = '''' \<or> (case ParseIP host of Some ip \<Rightarrow> IsUnspecified ip | None \<Rightarrow> False) then ''localhost'' else host)
      in if port = '''' then scheme @ ''://'' @ host else scheme @ ''://'' @ JoinHostPort host port)"

subsection \<open>Starting up\<close>

datatype startup = Refused_start | Listening web_state

definition sessionMaxAge :: time where "sessionMaxAge = 30 * 24 * 60 * 60 * 1000"

definition startup_auth :: "string \<Rightarrow> (string \<Rightarrow> string option) \<Rightarrow> db_error + string \<Rightarrow> config \<Rightarrow> startup" where
  "startup_auth env bcrypt stored cfg =
     (case (if env \<noteq> '''' then bcrypt env else case stored of Inl _ \<Rightarrow> None | Inr t \<Rightarrow> Some t) of
        None \<Rightarrow> Refused_start
      | Some authHash \<Rightarrow>
          if length authHash = 0 \<and> \<not> IsLoopbackAddr (EffectiveListenAddr cfg) then Refused_start
          else Listening \<lparr> ws_hash = authHash, ws_sessions = NewSessionStore sessionMaxAge \<rparr>)"

subsection \<open>Saving the settings\<close>

record settings =
  sg_listen_addr :: string
  sg_data_dir :: string
  sg_result_ttl :: string
  sg_idle_eviction_ttl :: string
  sg_load_attempts :: int
  sg_registry_url :: string
  sg_log_level :: zerolog_level
  sg_dev_mode :: bool
  sg_tls_enabled :: bool
  sg_tls_cert :: string

record settings_body =
  sb_listen_addr :: string
  sb_data_dir :: string
  sb_result_ttl :: string
  sb_idle_eviction_ttl :: string
  sb_load_attempts :: int
  sb_registry_url :: string
  sb_log_level :: string
  sb_auth_token :: string
  sb_tls_enabled :: bool
  sb_tls_cert :: string
  sb_dev_mode :: bool

record admin =
  ad_settings :: settings
  ad_web :: web_state
  ad_stored_token :: string
  ad_saves :: nat

datatype save_answer = BadBody | HashFailed | StoreFailed | Saved

definition apply_settings :: "settings_body \<Rightarrow> settings \<Rightarrow> settings" where
  "apply_settings b s =
     (let s = s\<lparr>sg_listen_addr := TrimSpace (sb_listen_addr b), sg_data_dir := TrimSpace (sb_data_dir b),
          sg_result_ttl := TrimSpace (sb_result_ttl b), sg_idle_eviction_ttl := TrimSpace (sb_idle_eviction_ttl b),
          sg_load_attempts := (if sb_load_attempts b > 0 then sb_load_attempts b else sg_load_attempts s),
          sg_registry_url := TrimSpace (sb_registry_url b), sg_dev_mode := sb_dev_mode b,
          sg_tls_enabled := sb_tls_enabled b, sg_tls_cert := TrimSpace (sb_tls_cert b)\<rparr>
      in if sb_log_level b = '''' then s
         else case UnmarshalText (sb_log_level b) of None \<Rightarrow> s | Some lvl \<Rightarrow> s\<lparr>sg_log_level := lvl\<rparr>)"

text \<open>\<open>body\<close> is \<open>None\<close> when it does not decode, \<open>hashed\<close> what bcrypt returns for the token, \<open>stores\<close> whether the store
  takes it.\<close>

definition handleSettingsSave :: "settings_body option \<Rightarrow> string option \<Rightarrow> bool \<Rightarrow> admin \<Rightarrow> save_answer \<times> admin" where
  "handleSettingsSave body hashed stores a = (case body of
      None \<Rightarrow> (BadBody, a)
    | Some b \<Rightarrow>
        let a = a\<lparr>ad_settings := apply_settings b (ad_settings a)\<rparr> in
        if sb_auth_token b \<noteq> '''' then
          (case hashed of
             None \<Rightarrow> (HashFailed, a)
           | Some h \<Rightarrow>
               if \<not> stores then (StoreFailed, a)
               else (Saved, a\<lparr>ad_stored_token := h, ad_web := SetAuthHash h (ad_web a), ad_saves := ad_saves a + 1\<rparr>))
        else (Saved, a\<lparr>ad_saves := ad_saves a + 1\<rparr>))"

text \<open>What a save does to the authentication is one operation of \<open>Web_Gates\<close>, or none.\<close>

definition saved_token :: "settings_body option \<Rightarrow> string option \<Rightarrow> bool \<Rightarrow> string option" where
  "saved_token body hashed stores = (case body of None \<Rightarrow> None
     | Some b \<Rightarrow> if sb_auth_token b \<noteq> '''' \<and> stores then hashed else None)"

lemma handleSettingsSave_web:
  "ad_web (snd (handleSettingsSave body hashed stores a))
     = (case saved_token body hashed stores of None \<Rightarrow> ad_web a | Some h \<Rightarrow> SetAuthHash h (ad_web a))"
  by (auto simp: handleSettingsSave_def saved_token_def Let_def split: option.split)

text \<open>A save without a token never opens the dashboard, and a save that fails is in force and not on disk.\<close>

lemma empty_token_keeps_hash:
  "sb_auth_token b = '''' \<Longrightarrow> ad_web (snd (handleSettingsSave (Some b) hashed stores a)) = ad_web a"
  by (simp add: handleSettingsSave_def)

lemma failed_save_applies:
  assumes "handleSettingsSave (Some b) hashed stores a = (r, a')" "r = HashFailed \<or> r = StoreFailed"
  shows "ad_settings a' = apply_settings b (ad_settings a) \<and> ad_saves a' = ad_saves a \<and> ad_web a' = ad_web a"
  using assms by (auto simp: handleSettingsSave_def Let_def split: if_splits option.splits)

subsection \<open>Which addresses are loopback\<close>

lemma loopback_examples:
  "IsLoopbackAddr ''127.0.0.1:3455''" "IsLoopbackAddr ''[::1]:80''" "IsLoopbackAddr ''LocalHost:1''" "IsLoopbackAddr ''::1''"
  "\<not> IsLoopbackAddr '':3455''" "\<not> IsLoopbackAddr ''0.0.0.0:3455''"
  "\<not> IsLoopbackAddr ''[::]:3455''" "\<not> IsLoopbackAddr ''127.0.0.01:80''"
  by code_simp+

lemma local_url_examples:
  "LocalURL ''http'' '':3455'' = ''http://localhost:3455''" "LocalURL ''https'' ''[::]:80'' = ''https://localhost:80''"
  "LocalURL ''http'' ''[::1]:80'' = ''http://[::1]:80''" "LocalURL ''http'' ''::1'' = ''http://::1''"
  by code_simp+

end
