(* ===== verification/Web_Proxy.thy ===== *)
theory Web_Proxy
  imports Operation_Safety Runtime_Safety Web_Gates
begin

text \<open>
  The runtime proxy (\<open>internal/web/handler.go\<close>: \<open>handleRuntimeProxy\<close>, \<open>proxyToGateway\<close>, \<open>streamRequestBody\<close>): a request
  under \<open>/mass.<runtime>\<close> is forwarded to that runtime's gateway over a stream of frames, and the gateway's frames are
  written back.

  A stream is the list of what each receive answers; when it ends, it ends cleanly. The outcomes of sends and of writes to
  the client are arguments. A handler that writes no status has answered 200, as \<open>net/http\<close> does for it.
\<close>

subsection \<open>The route\<close>

definition is_sep :: "char \<Rightarrow> bool" where
  "is_sep c \<longleftrightarrow> c = CHR ''.'' \<or> c = CHR ''/''"

text \<open>The runtime's name and the forwarded path, which keeps its separator.\<close>

definition proxy_target :: "string \<Rightarrow> (runtime_name \<times> string) option" where
  "proxy_target path =
     (let rest = TrimPrefix path ''/mass.'';
          kind = takeWhile (\<lambda>c. \<not> is_sep c) rest; subPath = dropWhile (\<lambda>c. \<not> is_sep c) rest
      in if kind = '''' \<or> subPath = '''' then None else Some (kind, subPath))"

subsection \<open>The request\<close>

record request_frame =
  qf_method :: string
  qf_path :: string
  qf_headers :: "(string \<times> string) list"
  qf_body :: bytes
  qf_end :: bool

definition body_frame :: "bytes \<Rightarrow> request_frame" where
  "body_frame b = \<lparr> qf_method = '''', qf_path = '''', qf_headers = [], qf_body = b, qf_end = False \<rparr>"

definition end_frame :: request_frame where
  "end_frame = \<lparr> qf_method = '''', qf_path = '''', qf_headers = [], qf_body = [], qf_end = True \<rparr>"

fun join_values :: "string list \<Rightarrow> string" where
  "join_values [] = ''''"
| "join_values [v] = v"
| "join_values (v # vs) = v @ '','' @ join_values vs"

definition flattenHeaders :: "(string \<times> string list) list \<Rightarrow> (string \<times> string) list" where
  "flattenHeaders hs = map (\<lambda>(k, vs). (k, join_values vs)) hs"

text \<open>A read of the body hands out some bytes and says whether it is at its end or has failed. The first argument counts
  the sends that succeed; the frames that got out come back with whether all went well.\<close>

datatype read_end = More | BodyEOF | BodyError

fun streamRequestBody :: "nat \<Rightarrow> (bytes \<times> read_end) list option \<Rightarrow> request_frame list \<times> bool" where
  "streamRequestBody sends None = (if sends = 0 then ([], False) else ([end_frame], True))"
| "streamRequestBody sends (Some []) = (if sends = 0 then ([], False) else ([end_frame], True))"
| "streamRequestBody sends (Some ((b, e) # rs)) =
     (if b \<noteq> [] \<and> sends = 0 then ([], False)
      else
        let sent = (if b \<noteq> [] then [body_frame b] else []); sends = (if b \<noteq> [] then sends - 1 else sends)
        in case e of
            BodyError \<Rightarrow> (sent, False)
          | BodyEOF \<Rightarrow> if sends = 0 then (sent, False) else (sent @ [end_frame], True)
          | More \<Rightarrow> (case streamRequestBody sends (Some rs) of (fs, ok) \<Rightarrow> (sent @ fs, ok)))"

subsection \<open>The answer\<close>

record response_frame =
  rf_status :: nat
  rf_headers :: "(string \<times> string) list"
  rf_body :: bytes
  rf_end :: bool
  rf_trailers :: "(string \<times> string) list"

record http_writer =
  hw_status :: "nat option"
  hw_headers :: "(string \<times> string) list"
  hw_body :: bytes
  hw_trailers :: "(string \<times> string) list"

definition fresh_writer :: http_writer where
  "fresh_writer = \<lparr> hw_status = None, hw_headers = [], hw_body = [], hw_trailers = [] \<rparr>"

definition answered :: "http_writer \<Rightarrow> nat" where
  "answered w = (case hw_status w of None \<Rightarrow> 200 | Some st \<Rightarrow> st)"

datatype recv = Frame response_frame | RecvError

datatype write_result = Written | ClientGone | WriteFailed

datatype proxy_error = OpenFailed | SendHeader | SendBody | CloseFailed | RecvHeader | RecvBody | WriteBody

definition write_header :: "response_frame \<Rightarrow> http_writer \<Rightarrow> http_writer" where
  "write_header f w = w\<lparr>hw_headers := fold (\<lambda>(k, v). AList.update k v) (rf_headers f) (hw_headers w),
     hw_status := Some (if rf_status f = 0 then 200 else rf_status f)\<rparr>"

text \<open>The receive loop; \<open>outs\<close> are the outcomes of the writes to the client, which succeed once they run out.\<close>

fun relay :: "recv list \<Rightarrow> write_result list \<Rightarrow> http_writer \<Rightarrow> proxy_error option \<times> http_writer" where
  "relay [] outs w = (None, w)"
| "relay (RecvError # rs) outs w = (Some (if hw_status w = None then RecvHeader else RecvBody), w)"
| "relay (Frame f # rs) outs w =
     (let w = (if hw_status w = None then write_header f w else w);
          out = (if rf_body f = [] \<or> outs = [] then Written else hd outs);
          outs = (if rf_body f = [] then outs else tl outs)
      in case out of
          ClientGone \<Rightarrow> (None, w)
        | WriteFailed \<Rightarrow> (Some WriteBody, w)
        | Written \<Rightarrow>
            let w = w\<lparr>hw_body := hw_body w @ rf_body f\<rparr>
            in if rf_end f then (None, w\<lparr>hw_trailers := fold (\<lambda>(k, v). AList.update k v) (rf_trailers f) (hw_trailers w)\<rparr>)
               else relay rs outs w)"

record proxied_request =
  pq_method :: string
  pq_path :: string
  pq_query :: string
  pq_headers :: "(string \<times> string list) list"
  pq_body :: "(bytes \<times> read_end) list option"

text \<open>What the stream to the gateway does: whether it opens, how many sends succeed, whether it closes, what it answers.\<close>

record gateway_stream =
  st_opens :: bool
  st_sends :: nat
  st_closes :: bool
  st_answers :: "recv list"
  st_writes :: "write_result list"

definition first_frame :: "proxied_request \<Rightarrow> string \<Rightarrow> request_frame" where
  "first_frame r subPath = \<lparr> qf_method = pq_method r,
     qf_path = (if pq_query r \<noteq> '''' then subPath @ ''?'' @ pq_query r else subPath),
     qf_headers = flattenHeaders (pq_headers r), qf_body = [], qf_end = False \<rparr>"

definition proxyToGateway :: "gateway_stream \<Rightarrow> string \<Rightarrow> proxied_request \<Rightarrow> http_writer
    \<Rightarrow> request_frame list \<times> proxy_error option \<times> http_writer" where
  "proxyToGateway st subPath r w =
     (if \<not> st_opens st then ([], Some OpenFailed, w)
      else if st_sends st = 0 then ([], Some SendHeader, w)
      else case streamRequestBody (st_sends st - 1) (pq_body r) of
          (fs, False) \<Rightarrow> (first_frame r subPath # fs, Some SendBody, w)
        | (fs, True) \<Rightarrow>
            if \<not> st_closes st then (first_frame r subPath # fs, Some CloseFailed, w)
            else (first_frame r subPath # fs, relay (st_answers st) (st_writes st) w))"

definition writeJSONError :: "nat \<Rightarrow> http_writer \<Rightarrow> http_writer" where
  "writeJSONError st w = w\<lparr>hw_status := Some st, hw_headers := AList.update ''Content-Type'' ''application/json'' (hw_headers w)\<rparr>"

text \<open>The frames the gateway saw, the answer, and the handler afterwards. \<open>reply\<close> is the launch's answer.\<close>

definition handleRuntimeProxy :: "init_reply option \<Rightarrow> gateway_stream \<Rightarrow> proxied_request \<Rightarrow> handler
    \<Rightarrow> request_frame list \<times> http_writer \<times> handler" where
  "handleRuntimeProxy reply st r h = (case proxy_target (pq_path r) of
      None \<Rightarrow> ([], fresh_writer\<lparr>hw_status := Some 404\<rparr>, h)
    | Some (kind, subPath) \<Rightarrow>
        if \<not> hd_has_runtimes h \<or> \<not> IsInstalled kind (hd_runtimes h) then ([], writeJSONError 503 fresh_writer, h)
        else case on_runtimes (start_whole kind reply) h of
            (Inl _, h) \<Rightarrow> ([], writeJSONError 502 fresh_writer, h)
          | (Inr _, h) \<Rightarrow> (case proxyToGateway st subPath r fresh_writer of
                (fs, Some _, w) \<Rightarrow> (fs, w, h)
              | (fs, None, w) \<Rightarrow> (fs, w, if pq_method r = ''DELETE''
                  then h\<lparr>hd_runtimes := fireStateChange kind (hd_runtimes h)\<rparr> else h)))"

subsection \<open>What goes through\<close>

lemma takeWhile_sep: "\<forall>c \<in> set name. \<not> is_sep c \<Longrightarrow> is_sep sep \<Longrightarrow>
    takeWhile (\<lambda>c. \<not> is_sep c) (name @ sep # rest) = name \<and> dropWhile (\<lambda>c. \<not> is_sep c) (name @ sep # rest) = sep # rest"
  by (induction name) auto

lemma valid_name_chars:
  assumes "validateRuntimeName name = Inr ()"
  shows "name \<noteq> '''' \<and> (\<forall>c \<in> set name. \<not> is_sep c)"
proof -
  have "name \<noteq> ''''" "\<forall>c \<in> set name. slug_char c"
    using assms by (cases name; auto simp: validateRuntimeName_def list_all_iff slug_char_def split: if_splits)+
  then show ?thesis using slug_no_separator by (auto simp: is_sep_def)
qed

lemma valid_name_routed:
  assumes "validateRuntimeName name = Inr ()" "is_sep sep"
  shows "proxy_target (''/mass.'' @ name @ sep # rest) = Some (name, sep # rest)"
  using takeWhile_sep [OF _ assms(2), of name rest] valid_name_chars [OF assms(1)]
  by (simp add: proxy_target_def TrimPrefix_def assms(2))

definition until_end :: "response_frame list \<Rightarrow> response_frame list" where
  "until_end fs = takeWhile (\<lambda>f. \<not> rf_end f) fs @ take 1 (dropWhile (\<lambda>f. \<not> rf_end f) fs)"

lemma until_end_Cons: "until_end (f # fs) = f # (if rf_end f then [] else until_end fs)"
  by (simp add: until_end_def)

lemma relay_frames:
  "relay (map Frame fs) [] w = (r, w') \<Longrightarrow> hw_status w = Some st \<Longrightarrow> r = None \<and> hw_status w' = Some st
     \<and> hw_headers w' = hw_headers w \<and> hw_body w' = hw_body w @ concat (map rf_body (until_end fs))"
proof (induction fs arbitrary: w)
  case (Cons f fs)
  show ?case
  proof (cases "rf_end f")
    case True
    with Cons.prems show ?thesis by (auto simp: Let_def until_end_Cons)
  next
    case False
    let ?w = "w\<lparr>hw_body := hw_body w @ rf_body f\<rparr>"
    have "relay (map Frame fs) [] ?w = (r, w')" using Cons.prems False by (simp add: Let_def split: if_splits)
    from Cons.IH [OF this] Cons.prems(2) show ?thesis by (simp add: until_end_Cons False)
  qed
qed (simp add: until_end_def)

lemma relay_answer:
  assumes "fs \<noteq> []" "relay (map Frame fs) [] fresh_writer = (r, w)"
  shows "r = None \<and> answered w = (if rf_status (hd fs) = 0 then 200 else rf_status (hd fs))
    \<and> hw_headers w = fold (\<lambda>(k, v). AList.update k v) (rf_headers (hd fs)) [] \<and> hw_body w = concat (map rf_body (until_end fs))"
proof -
  obtain f gs where fs: "fs = f # gs" using assms(1) by (cases fs) auto
  let ?w = "write_header f fresh_writer"
  have "relay (map Frame fs) [] ?w = (r, w)" using assms(2) by (simp add: fs Let_def fresh_writer_def write_header_def)
  from relay_frames [OF this] show ?thesis by (simp add: fs write_header_def fresh_writer_def answered_def)
qed

text \<open>A body that is read to its end is sent byte for byte, with one frame that says so, the last.\<close>

definition whole_body :: "(bytes \<times> read_end) list \<Rightarrow> bool" where
  "whole_body rs \<longleftrightarrow> rs \<noteq> [] \<and> snd (last rs) = BodyEOF \<and> (\<forall>r \<in> set (butlast rs). snd r = More)"

lemma body_sent:
  assumes "whole_body rs" "length rs < n"
  shows "\<exists>fs. streamRequestBody n (Some rs) = (fs @ [end_frame], True) \<and> concat (map qf_body fs) = concat (map fst rs)
    \<and> (\<forall>f \<in> set fs. \<not> qf_end f)"
  using assms
proof (induction rs arbitrary: n)
  case Nil
  then show ?case by (simp add: whole_body_def)
next
  case (Cons r rs)
  obtain b e where r: "r = (b, e)" by fastforce
  let ?sent = "if b \<noteq> [] then [body_frame b] else []" and ?n = "if b \<noteq> [] then n - 1 else n"
  have sent: "concat (map qf_body ?sent) = b" "\<forall>f \<in> set ?sent. \<not> qf_end f" by (simp_all add: body_frame_def)
  show ?case
  proof (cases rs)
    case Nil
    then have "e = BodyEOF" using Cons.prems(1) by (simp add: whole_body_def r)
    then show ?thesis using Cons.prems(2) sent by (intro exI [of _ ?sent]) (auto simp: r Nil Let_def)
  next
    case (Cons r' rs')
    then have e: "e = More" and w: "whole_body rs" using Cons.prems(1) by (auto simp: whole_body_def r)
    obtain fs where fs: "streamRequestBody ?n (Some rs) = (fs @ [end_frame], True)" "concat (map qf_body fs) = concat (map fst rs)"
      "\<forall>f \<in> set fs. \<not> qf_end f"
      using Cons.IH [OF w, of ?n] Cons.prems(2) by (simp only: length_Cons) (cases "b \<noteq> []"; fastforce)
    then show ?thesis using Cons.prems(2) sent by (intro exI [of _ "?sent @ fs"]) (auto simp: r e Let_def)
  qed
qed


text \<open>A gateway that fails before its first frame leaves the client with an empty 200.\<close>

lemma proxy_failure_answers_200:
  assumes "proxy_target (pq_path r) = Some (kind, subPath)" "hd_has_runtimes h" "IsInstalled kind (hd_runtimes h)"
    and "fst (on_runtimes (start_whole kind reply) h) = Inr g"
    and "\<not> st_opens st \<or> st_sends st = 0 \<or> (\<exists>rs. st_answers st = RecvError # rs)"
    and "handleRuntimeProxy reply st r h = (fs, w, h')"
  shows "answered w = 200 \<and> hw_body w = []"
proof -
  obtain h1 where start: "on_runtimes (start_whole kind reply) h = (Inr g, h1)" using assms(4) by (metis prod.collapse)
  have "snd (snd (proxyToGateway st subPath r fresh_writer)) = fresh_writer \<and> fst (snd (proxyToGateway st subPath r fresh_writer)) \<noteq> None"
    using assms(5) by (auto simp: proxyToGateway_def fresh_writer_def split: prod.split bool.split)
  then obtain gs e where "proxyToGateway st subPath r fresh_writer = (gs, Some e, fresh_writer)"
    by (metis option.collapse prod.collapse)
  with assms start have "w = fresh_writer" by (simp add: handleRuntimeProxy_def)
  then show ?thesis by (simp add: answered_def fresh_writer_def)
qed

text \<open>A gateway that runs echoes a body of two bytes in two frames.\<close>

definition proxy_handler :: handler where
  "proxy_handler = demo_handler\<lparr>hd_runtimes := (hd_runtimes demo_handler)\<lparr>rm_installed := [(''rt'', \<lparr> mf_name = ''rt'', mf_version = ''2'',
     mf_display = '''', mf_description = '''', mf_auto = False, mf_binary = '''' \<rparr>)]\<rparr>\<rparr>"

definition demo_proxied :: proxied_request where
  "demo_proxied = \<lparr> pq_method = ''POST'', pq_path = ''/mass.rt/v1/chat'', pq_query = ''q=1'', pq_headers = [],
     pq_body = Some [([1], More), ([2], BodyEOF)] \<rparr>"

definition demo_frame :: "bytes \<Rightarrow> bool \<Rightarrow> response_frame" where
  "demo_frame b e = \<lparr> rf_status = 0, rf_headers = [], rf_body = b, rf_end = e, rf_trailers = [] \<rparr>"

definition demo_stream :: gateway_stream where
  "demo_stream = \<lparr> st_opens = True, st_sends = 9, st_closes = True,
     st_answers = map Frame [demo_frame [1] False, demo_frame [2] True, demo_frame [3] False], st_writes = [] \<rparr>"


end
