(* ===== verification/Web_Routes.thy ===== *)
theory Web_Routes
  imports Listen Web_Proxy
begin

text \<open>
  The route table (\<open>internal/web/handler.go\<close>: \<open>buildRoutes\<close>) under the operator authentication, as \<open>cmd/mass/serve.go\<close>
  stacks them, and what a request without credentials can reach.

  The multiplexer is that of \<open>net/http\<close>, written out as its routing tree works: the middleware sees the decoded path, the
  tree the segments of the escaped one. The paths of the two generated RPC handlers are arguments.
\<close>

subsection \<open>Patterns and paths\<close>

datatype endpoint = Static_files | Method string | Worker_hub | Mass_api | Catch_all

fun unescape :: "string \<Rightarrow> string option" where
  "unescape [] = Some []"
| "unescape (c # s) =
     (if c \<noteq> CHR 0x25 then map_option (Cons c) (unescape s)
      else case s of
          a # b # t \<Rightarrow> (case (hex_value a, hex_value b) of
              (Some x, Some y) \<Rightarrow> map_option (Cons (char_of (16 * x + y))) (unescape t)
            | _ \<Rightarrow> None)
        | _ \<Rightarrow> None)"

definition pathUnescape :: "string \<Rightarrow> string" where
  "pathUnescape s = (case unescape s of None \<Rightarrow> s | Some t \<Rightarrow> t)"

text \<open>The segments of a path after its first slash; a trailing slash is the segment \<open>/\<close>.\<close>

fun seg_values :: "string list \<Rightarrow> string list" where
  "seg_values [] = []"
| "seg_values [s] = [if s = '''' then ''/'' else pathUnescape s]"
| "seg_values (s # t # segs) = pathUnescape s # seg_values (t # segs)"

definition path_values :: "string \<Rightarrow> string list" where
  "path_values path = (if path = '''' then [] else seg_values (split_on (CHR ''/'') (tl path)))"

definition cleanPath :: "string \<Rightarrow> string" where
  "cleanPath p =
     (if p = '''' then ''/''
      else let p = (if hd p = CHR ''/'' then p else CHR ''/'' # p); np = CHR ''/'' # slash_join (Join [] (tl p))
           in if last p = CHR ''/'' \<and> np \<noteq> ''/'' then np @ ''/'' else np)"

datatype pat_seg = Lit string | Wild | Multi

text \<open>\<open>{$}\<close> is the literal \<open>/\<close>, a trailing slash matches any rest.\<close>

fun parse_segs :: "string list \<Rightarrow> pat_seg list" where
  "parse_segs [] = []"
| "parse_segs (s # segs) =
     (if s = '''' \<and> segs = [] then Multi else if s = ''{$}'' then Lit ''/'' else if take 1 s = ''{'' then Wild else Lit s)
        # parse_segs segs"

definition parse_pattern :: "string \<Rightarrow> string \<times> pat_seg list" where
  "parse_pattern s =
     (let m = takeWhile (\<lambda>c. c \<noteq> CHR '' '') s
      in if CHR '' '' \<in> set s then (m, parse_segs (split_on (CHR ''/'') (drop (length m + 2) s)))
         else ('''', parse_segs (split_on (CHR ''/'') (tl s))))"

subsection \<open>The table\<close>

definition fixed_routes :: "(string \<times> endpoint) list" where
  "fixed_routes = [
     (''GET /metrics'', Method ''handleMetrics''), (''GET /health'', Method ''handleHealth''),
     (''GET /ready'', Method ''handleReady''), (''GET /setup/worker-bin/{runtime_name}'', Method ''handleSetupWorkerBin''),
     (''GET /login'', Method ''handleLoginPage''), (''POST /login'', Method ''handleLoginSubmit''),
     (''POST /logout'', Method ''handleLogout''), (''GET /{$}'', Method ''handleDashboard''),
     (''POST /internal/settings/theme'', Method ''handleSetTheme''),
     (''GET /internal/daemon/ping'', Method ''handleDaemonPing''),
     (''POST /internal/daemon/shutdown'', Method ''handleDaemonShutdown''),
     (''GET /internal/gui/channel'', Method ''handleGUIChannel''),
     (''GET /api/update/check'', Method ''handleUpdateCheck''),
     (''POST /api/update/check'', Method ''handleUpdateCheckNow''),
     (''POST /api/update/apply'', Method ''handleUpdateApply''),
     (''GET /api/themes/registry'', Method ''handleThemeRegistry''),
     (''POST /api/themes/install/{name}'', Method ''handleThemeInstall''),
     (''POST /api/themes/remove/{id}'', Method ''handleThemeRemove''),
     (''GET /api/runtimes'', Method ''handleListRuntimes''),
     (''POST /api/runtimes/install'', Method ''handleInstallRuntime''),
     (''GET /api/runtimes/registry'', Method ''handleRegistryAvailable''),
     (''POST /api/runtimes/registry/install/{name}'', Method ''handleRegistryInstall''),
     (''DELETE /api/runtimes/{kind}'', Method ''handleUninstallRuntime''),
     (''POST /api/runtimes/{kind}/start'', Method ''handleStartRuntime''),
     (''POST /api/runtimes/{kind}/stop'', Method ''handleStopRuntime''),
     (''POST /api/runtimes/{kind}/auto-start'', Method ''handleRuntimeAutoStartToggle''),
     (''GET /api/runtimes/{kind}/logs'', Method ''handleRuntimeLogsSSE''),
     (''GET /api/models/stream'', Method ''handleModelsStreamSSE''),
     (''GET /api/models/benchmarks'', Method ''handleModelBenchStatus''),
     (''POST /api/models/rebench'', Method ''handleModelRebench''),
     (''POST /api/models/import'', Method ''handleImportLocalModel''),
     (''POST /api/models/delete'', Method ''handleDeleteModel''),
     (''GET /api/groups/names'', Method ''handleListGroupNames''),
     (''POST /api/groups/rename'', Method ''handleRenameGroup''),
     (''POST /api/models/download/pause'', Method ''handleDownloadPause''),
     (''POST /api/models/download/resume'', Method ''handleDownloadResume''),
     (''POST /api/models/download/cancel'', Method ''handleDownloadCancel''),
     (''GET /api/models/downloads/events'', Method ''handleDownloadsEventsSSE''),
     (''GET /api/scheduler/list'', Method ''handleSchedulerList''),
     (''GET /api/scheduler/detail'', Method ''handleSchedulerDetail''),
     (''GET /api/scheduler/events'', Method ''handleSchedulerEventsSSE''),
     (''POST /api/scheduler/evict'', Method ''handleSchedulerEvict''),
     (''GET /api/workers/list'', Method ''handleWorkersList''),
     (''GET /api/workers/events'', Method ''handleWorkersEventsSSE''),
     (''POST /api/workers/benchmark'', Method ''handleWorkersBenchmark''),
     (''POST /api/workers/{id}/toggle'', Method ''handleToggleWorker''),
     (''POST /api/workers/{id}/devices/{devID}/toggle'', Method ''handleToggleDevice''),
     (''POST /api/workers/{id}/revoke'', Method ''handleRevokeWorker''),
     (''GET /api/workers/join-token'', Method ''handleAddWorkerToken''),
     (''GET /api/workers/add-dialog-options'', Method ''handleAddWorkerOptions''),
     (''GET /api/queue/list'', Method ''handleQueueList''), (''GET /api/queue/events'', Method ''handleQueueEventsSSE''),
     (''POST /api/queue/cancel'', Method ''handleQueueCancel''), (''POST /api/queue/evict'', Method ''handleQueueEvict''),
     (''POST /api/queue/cancel-running'', Method ''handleQueueCancelRunning''),
     (''GET /api/v1/browse/roots'', Method ''handleBrowseRoots''), (''GET /api/v1/browse'', Method ''handleBrowseFiles''),
     (''POST /api/settings'', Method ''handleSettingsSave''), (''GET /api/sync-logs'', Method ''handleSyncLogs''),
     (''GET /api/syslogs'', Method ''handleSysLogsSSE'')]"

definition buildRoutes :: "bool \<Rightarrow> string option \<Rightarrow> string \<Rightarrow> (string \<times> endpoint) list" where
  "buildRoutes public hub api =
     (if public then [(''GET /public/'', Static_files)] else []) @ fixed_routes @ [(''/'', Catch_all)]
     @ (case hub of None \<Rightarrow> [] | Some path \<Rightarrow> [(path, Worker_hub)]) @ [(api, Mass_api)]"

subsection \<open>The multiplexer\<close>

text \<open>A routing tree is the list of the rests of its patterns; each keeps the whole pattern and its endpoint.\<close>

type_synonym tree = "(pat_seg list \<times> pat_seg list \<times> endpoint) list"

definition children :: "pat_seg \<Rightarrow> tree \<Rightarrow> tree" where
  "children p t = map (apfst tl) (filter (\<lambda>(ps, _). ps \<noteq> [] \<and> hd ps = p) t)"

fun walk :: "tree \<Rightarrow> string list \<Rightarrow> (pat_seg list \<times> endpoint) option" where
  "walk t [] = map_of t []"
| "walk t (v # vs) = (case walk (children (Lit v) t) vs of
      Some n \<Rightarrow> Some n
    | None \<Rightarrow> (case (if v \<noteq> ''/'' then walk (children Wild t) vs else None) of
          Some n \<Rightarrow> Some n
        | None \<Rightarrow> map_of t [Multi]))"

definition method_tree :: "(string \<times> endpoint) list \<Rightarrow> string \<Rightarrow> tree" where
  "method_tree routes m =
     map (\<lambda>(s, e). (snd (parse_pattern s), snd (parse_pattern s), e)) (filter (\<lambda>(s, _). fst (parse_pattern s) = m) routes)"

definition mux_match :: "(string \<times> endpoint) list \<Rightarrow> string \<Rightarrow> string \<Rightarrow> (pat_seg list \<times> endpoint) option" where
  "mux_match routes m path =
     (let vs = path_values path in
      case walk (method_tree routes m) vs of
        Some n \<Rightarrow> Some n
      | None \<Rightarrow> (case (if m = ''HEAD'' then walk (method_tree routes ''GET'') vs else None) of
            Some n \<Rightarrow> Some n
          | None \<Rightarrow> walk (method_tree routes '''') vs))"

definition exactMatch :: "(pat_seg list \<times> endpoint) option \<Rightarrow> string \<Rightarrow> bool" where
  "exactMatch n path = (case n of
      None \<Rightarrow> False
    | Some (ps, _) \<Rightarrow> last ps \<noteq> Multi
        \<or> (path = '''' \<or> last path = CHR ''/'') \<and> length ps = count_list path (CHR ''/''))"

datatype routed = Redirected | Unmatched | Handled endpoint | Runtime_proxy

definition slash_redirect :: "(string \<times> endpoint) list \<Rightarrow> string \<Rightarrow> string \<Rightarrow> bool" where
  "slash_redirect routes m path \<longleftrightarrow> \<not> exactMatch (mux_match routes m path) path \<and> path \<noteq> '''' \<and> last path \<noteq> CHR ''/''
     \<and> exactMatch (mux_match routes m (path @ ''/'')) (path @ ''/'')"

text \<open>The catch-all looks at the decoded path.\<close>

definition run_endpoint :: "string \<Rightarrow> (pat_seg list \<times> endpoint) option \<Rightarrow> routed" where
  "run_endpoint url_path n = (case n of
      None \<Rightarrow> Unmatched
    | Some (_, e) \<Rightarrow> if e \<noteq> Catch_all then Handled e else if HasPrefix url_path ''/mass.'' then Runtime_proxy else Unmatched)"

definition mux_serve :: "(string \<times> endpoint) list \<Rightarrow> string \<Rightarrow> string \<Rightarrow> string \<Rightarrow> routed" where
  "mux_serve routes m escaped url_path =
     (let path = (if m = ''CONNECT'' then escaped else cleanPath escaped)
      in if slash_redirect routes m path then Redirected
         else if path \<noteq> escaped then Redirected
         else run_endpoint url_path (mux_match routes m path))"

subsection \<open>The daemon's handler\<close>

datatype answer = Bad_request | Refused_request Web_Gates.verdict | Routed routed

text \<open>A request that gets this far has an escaped path that is empty or begins with a slash.\<close>

definition serve_http :: "(string \<Rightarrow> string \<Rightarrow> bool) \<Rightarrow> (string \<times> endpoint) list \<Rightarrow> time \<Rightarrow> string \<Rightarrow> string \<Rightarrow> request \<Rightarrow> web_state
    \<Rightarrow> answer \<times> web_state" where
  "serve_http cmp routes now m escaped r w =
     (if escaped \<noteq> '''' \<and> hd escaped \<noteq> CHR ''/'' then (Bad_request, w)
      else case unescape escaped of
          None \<Rightarrow> (Bad_request, w)
        | Some path \<Rightarrow> (case AuthMiddleware cmp (ws_hash w) now (r\<lparr>rq_path := path\<rparr>) (Some (ws_sessions w)) of
              (v, ss) \<Rightarrow>
                (if v = Served then Routed (mux_serve routes m escaped path) else Refused_request v,
                 case ss of None \<Rightarrow> w | Some ss \<Rightarrow> w\<lparr>ws_sessions := ss\<rparr>)))"

subsection \<open>Where a request can end up\<close>

fun pat_matches :: "pat_seg list \<Rightarrow> string list \<Rightarrow> bool" where
  "pat_matches [] vs = (vs = [])"
| "pat_matches (Lit s # ps) vs = (\<exists>vs'. vs = s # vs' \<and> pat_matches ps vs')"
| "pat_matches (Wild # ps) vs = (\<exists>v vs'. vs = v # vs' \<and> v \<noteq> ''/'' \<and> pat_matches ps vs')"
| "pat_matches (Multi # ps) vs = (ps = [] \<and> vs \<noteq> [])"

lemma walk_sound: "walk t vs = Some n \<Longrightarrow> \<exists>ps. (ps, n) \<in> set t \<and> pat_matches ps vs"
proof (induction t vs rule: walk.induct)
  case (1 t)
  then show ?case by (auto dest: map_of_SomeD intro!: exI [of _ "[]"])
next
  case (2 t v vs)
  have child: "\<exists>ps. (ps, n) \<in> set t \<and> pat_matches ps (v # vs)"
    if "(qs, n) \<in> set (children p t)" "pat_matches (p # qs) (v # vs)" for p qs
  proof -
    from that(1) obtain ps where "(ps, n) \<in> set t" "ps \<noteq> []" "hd ps = p" "qs = tl ps" by (auto simp: children_def)
    with that(2) show ?thesis by (intro exI [of _ ps]) (cases ps, auto)
  qed
  show ?case
  proof (cases "walk (children (Lit v) t) vs")
    case (Some m)
    with 2 obtain qs where "(qs, n) \<in> set (children (Lit v) t)" "pat_matches qs vs" by auto
    then show ?thesis by (intro child) auto
  next
    case None
    show ?thesis
    proof (cases "if v \<noteq> ''/'' then walk (children Wild t) vs else None")
      case (Some m)
      with 2 None obtain qs where "v \<noteq> ''/''" "(qs, n) \<in> set (children Wild t)" "pat_matches qs vs"
        by (auto split: if_splits)
      then show ?thesis by (intro child) auto
    next
      case none: None
      with 2 None have "([Multi], n) \<in> set t" by (auto dest: map_of_SomeD)
      then show ?thesis by (intro exI [of _ "[Multi]"]) simp
    qed
  qed
qed

lemma mux_match_sound:
  assumes "mux_match routes m path = Some (ps, e)"
  shows "\<exists>s. (s, e) \<in> set routes \<and> ps = snd (parse_pattern s) \<and> pat_matches ps (path_values path)"
proof -
  obtain m' where "walk (method_tree routes m') (path_values path) = Some (ps, e)"
    using assms by (auto simp: mux_match_def Let_def split: option.splits if_splits)
  from walk_sound [OF this] show ?thesis by (auto simp: method_tree_def)
qed

text \<open>Decoding does not cross a slash.\<close>

lemma hex_value_slash [simp]: "hex_value (CHR ''/'') = None" by code_simp

lemma unescape_slash:
  "unescape (a @ CHR ''/'' # b) = Some p \<Longrightarrow> \<exists>pa pb. unescape a = Some pa \<and> unescape b = Some pb \<and> p = pa @ CHR ''/'' # pb"
proof (induction a arbitrary: p rule: unescape.induct)
  case (2 c s)
  show ?case
  proof (cases "c = CHR 0x25")
    case False
    with 2(1) [OF False] 2(3) show ?thesis by fastforce
  next
    case c: True
    show ?thesis
    proof (cases "\<exists>x y t. s = x # y # t")
      case True
      then obtain x y t where s: "s = x # y # t" by blast
      with 2(3) c obtain u v where uv: "hex_value x = Some u" "hex_value y = Some v" by (auto split: option.splits)
      with 2(3) c s obtain q where q: "unescape (t @ CHR ''/'' # b) = Some q" "p = char_of (16 * u + v) # q" by auto
      have "\<exists>pa pb. unescape t = Some pa \<and> unescape b = Some pb \<and> q = pa @ CHR ''/'' # pb"
        using 2(2) [of x "y # t" y t] c s uv q by auto
      with c s uv q show ?thesis by auto
    next
      case False
      then have "s = [] \<or> (\<exists>x. s = [x])" by (metis list.exhaust)
      with 2(3) c show ?thesis by (auto split: option.splits list.splits)
    qed
  qed
qed auto

lemma unescape_join: "unescape (slash_join segs) = Some p \<Longrightarrow> segs \<noteq> [] \<Longrightarrow> p = slash_join (map pathUnescape segs)"
proof (induction segs arbitrary: p)
  case (Cons s segs)
  show ?case
  proof (cases "segs = []")
    case False
    with Cons.prems have "unescape (s @ CHR ''/'' # slash_join segs) = Some p" by (simp add: slash_join_Cons)
    from unescape_slash [OF this] obtain pa pb where
      "unescape s = Some pa" "unescape (slash_join segs) = Some pb" "p = pa @ CHR ''/'' # pb" by blast
    with Cons.IH [of pb] False show ?thesis by (simp add: slash_join_Cons pathUnescape_def)
  qed (use Cons.prems in \<open>simp add: pathUnescape_def\<close>)
qed simp

text \<open>The decoded path, from the values the tree sees.\<close>

definition joined :: "string list \<Rightarrow> string set" where
  "joined vs = {slash_join vs} \<union> (if vs \<noteq> [] \<and> last vs = ''/'' then {slash_join (butlast vs @ [''''])} else {})"

lemma seg_values_map: "segs \<noteq> [] \<Longrightarrow> seg_values segs = (if last segs = '''' then map pathUnescape (butlast segs) @ [''/''] else map pathUnescape segs)"
  by (induction segs rule: seg_values.induct) (auto simp: pathUnescape_def)

lemma path_of_values:
  assumes "unescape escaped = Some path" "escaped = CHR ''/'' # rest"
  shows "\<exists>p \<in> joined (path_values escaped). path = CHR ''/'' # p"
proof -
  let ?segs = "split_on (CHR ''/'') rest"
  from assms obtain p where p: "unescape rest = Some p" "path = CHR ''/'' # p" by auto
  with unescape_join [of ?segs p] have p': "p = slash_join (map pathUnescape ?segs)" by simp
  have v: "path_values escaped = seg_values ?segs" by (simp add: path_values_def assms)
  show ?thesis
  proof (cases "last ?segs = ''''")
    case True
    have "map pathUnescape ?segs = map pathUnescape (butlast ?segs) @ ['''']"
      by (subst append_butlast_last_id [symmetric, of ?segs]) (simp_all add: True pathUnescape_def del: append_butlast_last_id)
    with True v p' p show ?thesis by (simp add: joined_def seg_values_map)
  next
    case False
    with v p' p show ?thesis by (simp add: joined_def seg_values_map)
  qed
qed

text \<open>The endpoints that need no operator: assets, probes, the installer, login, and what authenticates by itself.\<close>

definition public_endpoints :: "endpoint list" where
  "public_endpoints = [Static_files, Worker_hub, Method ''handleMetrics'', Method ''handleHealth'', Method ''handleReady'',
     Method ''handleSetupWorkerBin'', Method ''handleLoginPage'', Method ''handleLoginSubmit'', Method ''handleDaemonPing'',
     Method ''handleGUIChannel'']"

definition lit :: "pat_seg \<Rightarrow> string" where
  "lit p = (case p of Lit s \<Rightarrow> s | _ \<Rightarrow> '''')"

text \<open>Patterns that match no path the middleware lets through without credentials.\<close>

fun below_gated :: "pat_seg list \<Rightarrow> bool" where
  "below_gated (Lit a # _ # _) = (a = ''api'' \<or> a = ''mass.v1.Mass'')"
| "below_gated _ = False"

definition gated :: "pat_seg list \<Rightarrow> bool" where
  "gated ps \<longleftrightarrow>
     ps \<noteq> [] \<and> list_all (\<lambda>p. p = Lit (lit p) \<and> lit p \<noteq> ''/'') ps \<and> \<not> auth_exempt (CHR ''/'' # slash_join (map lit ps))
   \<or> ps = [Lit ''/'']
   \<or> below_gated ps"

lemma literal_match: "list_all (\<lambda>p. p = Lit (lit p) \<and> lit p \<noteq> ''/'') ps \<Longrightarrow> pat_matches ps vs
    \<Longrightarrow> vs = map lit ps \<and> ''/'' \<notin> set vs"
proof (induction ps arbitrary: vs)
  case (Cons p ps)
  from Cons.prems(1) obtain s where p: "p = Lit s" "lit p = s" "s \<noteq> ''/''" by auto
  with Cons show ?case by auto
qed simp

lemma not_exempt_below:
  assumes "a = ''api'' \<or> a = ''mass.v1.Mass''"
  shows "\<not> auth_exempt (CHR ''/'' # a @ CHR ''/'' # x)"
  using assms by (auto simp: auth_exempt_def HasPrefix_def)

lemma joined_below: "p \<in> joined (a # v # vs) \<Longrightarrow> \<exists>x. p = a @ CHR ''/'' # x"
  by (auto simp: joined_def slash_join_Cons split: if_splits)

lemma gated_not_exempt:
  assumes "gated ps" "pat_matches ps vs" "p \<in> joined vs"
  shows "\<not> auth_exempt (CHR ''/'' # p)"
proof -
  consider (literal) "ps \<noteq> []" "list_all (\<lambda>p. p = Lit (lit p) \<and> lit p \<noteq> ''/'') ps" "\<not> auth_exempt (CHR ''/'' # slash_join (map lit ps))"
    | (root) "ps = [Lit ''/'']"
    | (below) a q qs where "ps = Lit a # q # qs" "a = ''api'' \<or> a = ''mass.v1.Mass''"
    using assms(1) unfolding gated_def by (elim disjE conjE) (blast, blast, auto elim!: below_gated.elims)
  then show ?thesis
  proof cases
    case literal
    from literal_match [OF literal(2) assms(2)] have vs: "vs = map lit ps" "''/'' \<notin> set vs" by blast+
    then have "last vs \<noteq> ''/''" using literal(1) last_in_set [of vs] by auto
    with vs(1) assms(3) literal(3) show ?thesis by (auto simp: joined_def)
  next
    case root
    with assms have "p = ''/'' \<or> p = ''''" by (auto simp: joined_def)
    then show ?thesis by (auto simp: auth_exempt_def HasPrefix_def)
  next
    case below
    with assms(2) obtain v vs' where "vs = a # v # vs'" by (cases q) (auto simp: neq_Nil_conv)
    with joined_below assms(3) below(2) not_exempt_below show ?thesis by blast
  qed
qed

definition api_pattern :: "string \<Rightarrow> bool" where
  "api_pattern s \<longleftrightarrow> HasPrefix (dropWhile (\<lambda>c. c \<noteq> CHR '' '') s) '' /api/''"

lemma api_pattern_gated:
  assumes "api_pattern s"
  shows "gated (snd (parse_pattern s))"
proof -
  let ?m = "takeWhile (\<lambda>c. c \<noteq> CHR '' '') s"
  from assms obtain x where x: "dropWhile (\<lambda>c. c \<noteq> CHR '' '') s = '' /api/'' @ x" unfolding api_pattern_def HasPrefix_iff by blast
  have s: "s = ?m @ '' /api/'' @ x" unfolding x [symmetric] by simp
  have "CHR '' '' \<in> set s" by (subst s) simp
  moreover have "drop (length ?m + 2) s = ''api/'' @ x" by (subst (2) s) simp
  ultimately have "snd (parse_pattern s) = parse_segs (split_on (CHR ''/'') (''api/'' @ x))" by (simp add: parse_pattern_def)
  also have "\<dots> = Lit ''api'' # parse_segs (split_on (CHR ''/'') x)" by simp
  finally show ?thesis by (cases "split_on (CHR ''/'') x") (simp_all add: gated_def)
qed

lemma other_routes_gated:
  "list_all (\<lambda>(s, e). if e \<in> set public_endpoints then True else e \<noteq> Catch_all \<and> gated (snd (parse_pattern s)))
     (filter (\<lambda>(s, e). \<not> api_pattern s) fixed_routes)"
  by code_simp

lemma fixed_routes_method: "(s, e) \<in> set fixed_routes \<Longrightarrow> e \<noteq> Catch_all"
  by (auto simp: fixed_routes_def)

lemma fixed_routes_gated:
  assumes "(s, e) \<in> set fixed_routes"
  shows "e \<in> set public_endpoints \<or> gated (snd (parse_pattern s))"
proof (cases "api_pattern s")
  case False
  with assms other_routes_gated show ?thesis by (fastforce simp: list_all_iff split: if_splits)
qed (simp add: api_pattern_gated)

lemma api_gated: "gated (snd (parse_pattern ''/mass.v1.Mass/''))" by code_simp

text \<open>The only other way out of the exempt paths is the catch-all, and it leads to the runtime \<open>v1\<close> or nowhere.\<close>

lemma exempt_proxy:
  assumes "auth_exempt path" "HasPrefix path ''/mass.''"
  shows "\<exists>rest. proxy_target path = Some (''v1'', rest)"
proof -
  have no: "\<not> HasPrefix path ''/public/''" "\<not> HasPrefix path ''/setup/''"
    using assms(2) by (auto simp: HasPrefix_iff)
  have no': "\<not> HasPrefix p ''/mass.''"
    if "p = ''/login'' \<or> p = ''/metrics'' \<or> p = ''/health'' \<or> p = ''/ready'' \<or> p = ''/internal/daemon/ping'' \<or> p = ''/internal/gui/channel''" for p
    using that by (elim disjE) (simp_all add: HasPrefix_def)
  have "HasPrefix path ''/mass.v1.worker.WorkerHub/''"
    using assms(1) unfolding auth_exempt_def by (elim disjE) (use no no' [of path] assms(2) in simp_all)
  then obtain x where x: "path = ''/mass.v1.worker.WorkerHub/'' @ x" unfolding HasPrefix_iff by blast
  have "takeWhile (\<lambda>c. \<not> is_sep c) (''v1.worker.WorkerHub/'' @ x) = ''v1''"
    "\<exists>rest. dropWhile (\<lambda>c. \<not> is_sep c) (''v1.worker.WorkerHub/'' @ x) = CHR ''.'' # rest"
    by (simp_all add: is_sep_def)
  then show ?thesis by (auto simp: x proxy_target_def TrimPrefix_def)
qed

lemma exempt_reaches:
  assumes path: "unescape escaped = Some path" "escaped = '''' \<or> hd escaped = CHR ''/''" "auth_exempt path"
    and x: "mux_serve (buildRoutes pub hub ''/mass.v1.Mass/'') m escaped path = x"
  shows "x \<in> {Redirected, Unmatched} \<or> (\<exists>e \<in> set public_endpoints. x = Handled e)
    \<or> x = Runtime_proxy \<and> (\<exists>rest. proxy_target path = Some (''v1'', rest))"
proof -
  let ?routes = "buildRoutes pub hub ''/mass.v1.Mass/''"
  have "escaped \<noteq> ''''" using path by (auto simp: auth_exempt_def HasPrefix_def)
  then obtain rest where slash: "escaped = CHR ''/'' # rest" using path(2) by (cases escaped) auto
  from path_of_values [OF path(1) slash] obtain p where p: "p \<in> joined (path_values escaped)" "path = CHR ''/'' # p" by blast
  have handled: "e \<in> set public_endpoints \<or> e = Catch_all" if "mux_match ?routes m escaped = Some (ps, e)" for ps e
  proof (rule ccontr)
    assume no: "\<not> ?thesis"
    from mux_match_sound [OF that] obtain s where s: "(s, e) \<in> set ?routes" "ps = snd (parse_pattern s)"
      "pat_matches ps (path_values escaped)" by blast
    from s(1) have "(s, e) \<in> set fixed_routes \<or> e \<in> {Static_files, Worker_hub} \<or> e = Catch_all \<or> s = ''/mass.v1.Mass/''"
      unfolding buildRoutes_def by (auto split: if_splits option.splits)
    moreover have "{Static_files, Worker_hub} \<subseteq> set public_endpoints" by (simp add: public_endpoints_def)
    ultimately have "gated ps" using no fixed_routes_gated [of s e] api_gated unfolding s(2) by blast
    from gated_not_exempt [OF this s(3) p(1)] p(2) path(3) show False by simp
  qed
  have "x = Redirected \<or> x = run_endpoint path (mux_match ?routes m escaped)"
    using x by (auto simp: mux_serve_def Let_def)
  then show ?thesis
  proof (cases "mux_match ?routes m escaped")
    case (Some n)
    obtain ps e where n: "n = (ps, e)" by fastforce
    with handled [of ps e] Some have "e \<in> set public_endpoints \<or> e = Catch_all" by simp
    with \<open>x = Redirected \<or> _\<close> exempt_proxy [OF path(3)] Some n show ?thesis by (auto simp: run_endpoint_def split: if_splits)
  qed (auto simp: run_endpoint_def)
qed

text \<open>No runtime can have the name the exempt prefix leaves: it is reserved.\<close>

lemma reserved_not_installed:
  assumes "list_all (\<lambda>row. validateRuntimeName (rr_name row) = Inr ()) tbl"
  shows "\<not> IsInstalled ''v1'' (fold (rt_step yaml) rops (rt_boot yaml dir tbl faults files))"
proof -
  let ?start = "\<lparr> rt_rows = tbl, rt_faults = faults, rm_data_dir = dir, rm_installed = [],
     rm_running = [], rm_gateways = [], rm_starting = [], rm_files = files, rm_state_log = [], rm_install_log = [] \<rparr>"
  have "rt_ok ?start" using assms by (simp add: rt_ok_def list_all_iff)
  from reload_keeps [OF this, of yaml] have "rt_ok (rt_boot yaml dir tbl faults files)" by (simp add: rt_boot_def rt_keeps_def)
  then have "rt_ok (fold (rt_step yaml) rops (rt_boot yaml dir tbl faults files))" by (simp add: rt_run_keeps [unfolded rt_keeps_def])
  moreover have "validateRuntimeName ''v1'' \<noteq> Inr ()" by code_simp
  ultimately show ?thesis unfolding rt_ok_def IsInstalled_def by (metis (no_types, lifting) domIff dom_map_of_conv_image_fst image_set)
qed

subsection \<open>The daemon on a network\<close>

lemma hash_after:
  assumes "ws_hash w0 \<noteq> ''''" "\<forall>h. SetHash h \<in> set ops \<longrightarrow> h \<noteq> ''''"
  shows "ws_hash (fold (web_step cmp) ops w0) \<noteq> ''''"
  using assms
proof (induction ops arbitrary: w0)
  case (Cons op ops)
  have "ws_hash (web_step cmp op w0) \<noteq> ''''"
    using Cons.prems
    by (cases op) (auto simp: SetAuthHash_def handleLoginSubmit_def handleLogout_def split: option.splits prod.splits)
  with Cons show ?case by simp
qed simp


text \<open>A probe and an operator request without credentials, and one with the token, on all interfaces.\<close>

definition open_config :: config where
  "open_config = \<lparr> cf_result_ttl = None, cf_idle_eviction_ttl = None, cf_stream_replay_ttl = None, cf_load_attempts = 0,
     cf_bench_budget_seconds = 0, cf_bench_slots_cap = 0, cf_listen_addr = ''0.0.0.0:3455'', cf_registry_url = '''',
     cf_update_url = '''', cf_db_dialect = '''', cf_db_dsn = '''' \<rparr>"

definition plain_request :: "string \<Rightarrow> request" where
  "plain_request auth = \<lparr> rq_path = '''', rq_authorization = auth, rq_cookie = None, rq_content_type = ''application/json'',
     rq_accept = '''' \<rparr>"

lemma routed_probe: "mux_serve (buildRoutes True None ''/mass.v1.Mass/'') ''GET'' ''/metrics'' ''/metrics'' = Handled (Method ''handleMetrics'')"
  by code_simp

lemma routed_toggle: "mux_serve (buildRoutes True None ''/mass.v1.Mass/'') ''POST'' ''/api/workers/w%201/toggle'' ''/api/workers/w 1/toggle''
    = Handled (Method ''handleToggleWorker'')"
  by code_simp

lemma routed_dots: "mux_serve (buildRoutes True None ''/mass.v1.Mass/'') ''GET'' ''/public/../api/settings'' ''/public/../api/settings'' = Redirected"
  by code_simp

definition demo_serve :: "string \<Rightarrow> string \<Rightarrow> string \<Rightarrow> web_state \<Rightarrow> answer" where
  "demo_serve m escaped auth w = fst (serve_http (\<lambda>h t. h = CHR ''h'' # t) (buildRoutes True None ''/mass.v1.Mass/'') 0 m escaped (plain_request auth) w)"


end
