(* ===== verification/Local_Install.thy ===== *)
theory Local_Install
  imports Registry_Safety Listen
begin

text \<open>
  Installing a worker: on the daemon's own host (\<open>internal/web/installlocalworker.go\<close>) and on another one, whose setup
  script fetches the installer from here (\<open>routes_setup.go\<close>).

  What the artifact cache, the staging of the runnable copy, the random source and the installer's process answer is an
  argument. \<open>package\<close> is the package field of a resolver's answer.
\<close>

subsection \<open>Options\<close>

datatype install_error = InstUnavailable | InstScope string | InstNoRuntime | InstManyRuntimes "runtime_name list"
  | InstNotFound reg_error | InstAmbiguous reg_error "string list" | InstRegistry | InstCancelled | InstNoToken

definition install_scope :: "string \<Rightarrow> install_error + string" where
  "install_scope scope = (if scope = '''' \<or> scope = ''user'' then Inr ''user'' else if scope = ''system'' then Inr scope
     else Inl (InstScope scope))"

definition resolveLocalRuntimeName :: "runtime_name \<Rightarrow> handler \<Rightarrow> install_error + runtime_name" where
  "resolveLocalRuntimeName runtime h =
     (if runtime \<noteq> '''' then Inr runtime
      else case map fst (rm_installed (hd_runtimes h)) of
          [] \<Rightarrow> Inl InstNoRuntime
        | [name] \<Rightarrow> Inr name
        | installed \<Rightarrow> Inl (InstManyRuntimes installed))"

definition localWorkerURL :: "bool \<Rightarrow> config \<Rightarrow> string" where
  "localWorkerURL tls cfg = LocalURL (if tls then ''https'' else ''http'') (EffectiveListenAddr cfg)"

definition installerOutputTailBytes :: nat where "installerOutputTailBytes = 4096"

definition localInstallJoinTokenTTL :: time where "localInstallJoinTokenTTL = 5 * 60 * 1000"

definition tailString :: "string \<Rightarrow> nat \<Rightarrow> string" where
  "tailString s n = (let s = TrimSpace s in if length s \<le> n then s else ''...'' @ [CHR 0x0A] @ drop (length s - n) s)"

subsection \<open>On this host\<close>

text \<open>What the cache's \<open>ensure\<close> answers.\<close>

datatype ensured = Cached_at string | Ensure_cancelled | Ensure_failed

record install_result =
  ir_package :: string
  ir_package_version :: string
  ir_output :: string

text \<open>How a resolution error is answered.\<close>

definition install_resolve_error :: "reg_error \<times> string list \<Rightarrow> install_error" where
  "install_resolve_error e = (case e of
      (RegNotInstalled, _) \<Rightarrow> InstNotFound RegNotInstalled
    | (RegAmbiguousWorker, cs) \<Rightarrow> InstAmbiguous RegAmbiguousWorker cs
    | (RegAmbiguousBackend, cs) \<Rightarrow> InstAmbiguous RegAmbiguousBackend cs
    | (RegResolver NotResolved, _) \<Rightarrow> InstNotFound (RegResolver NotResolved)
    | _ \<Rightarrow> InstRegistry)"

text \<open>The command line: a token only when the daemon asks workers for one.\<close>

definition installer_args :: "string \<Rightarrow> string \<Rightarrow> string option \<Rightarrow> string \<Rightarrow> string list" where
  "installer_args url scope token name =
     [''--non-interactive'', ''--mass-url'', url, ''--scope'', scope]
     @ (case token of None \<Rightarrow> [] | Some t \<Rightarrow> [''--token'', t])
     @ (if name \<noteq> '''' then [''--name'', name] else [])"

record mint_args =
  ma_random :: "bytes option"
  ma_id :: string
  ma_hash :: "string \<Rightarrow> string option"
  ma_now :: time

definition local_token :: "bool \<Rightarrow> mint_args \<Rightarrow> handler \<Rightarrow> (install_error + string option) \<times> handler" where
  "local_token authDisabled ma h =
     (if hd_has_enroller h \<and> \<not> authDisabled then
        (case MintJoinToken localInstallJoinTokenTTL (ma_random ma) (ma_id ma) (ma_hash ma) (ma_now ma) (hd_enroll h) of
           (Inl _, es) \<Rightarrow> (Inl InstNoToken, h\<lparr>hd_enroll := es\<rparr>)
         | (Inr (token, _), es) \<Rightarrow> (Inr (Some token), h\<lparr>hd_enroll := es\<rparr>))
      else (Inr None, h))"

text \<open>The answer, the handler afterwards, and the command line that finished, when one did. \<open>finished\<close> is whether the installer
  succeeds and what it prints.\<close>

definition installLocalWorker :: "('v, 'c) semver_lib \<Rightarrow> reg_host \<Rightarrow> 'a fetched \<Rightarrow> ('a resolved \<Rightarrow> string) \<Rightarrow> bool \<Rightarrow> config \<Rightarrow> bool
    \<Rightarrow> ensured \<Rightarrow> bool \<Rightarrow> mint_args \<Rightarrow> bool \<times> string \<Rightarrow> runtime_name \<Rightarrow> string \<Rightarrow> string \<Rightarrow> handler
    \<Rightarrow> (install_error + install_result) \<times> handler \<times> string list option" where
  "installLocalWorker sv host fetch package tls cfg authDisabled ensured staged ma finished runtime scope name h =
     (if \<not> hd_has_runtimes h \<or> \<not> rh_config host then (Inl InstUnavailable, h, None)
      else case install_scope scope of
        Inl e \<Rightarrow> (Inl e, h, None)
      | Inr scope \<Rightarrow> (case resolveLocalRuntimeName runtime h of
          Inl e \<Rightarrow> (Inl e, h, None)
        | Inr runtime \<Rightarrow> (case resolveWorkerArtifact sv host fetch runtime (rh_os host) (rh_arch host) '''' '''' h of
            Inl e \<Rightarrow> (Inl (install_resolve_error e), h, None)
          | Inr resolved \<Rightarrow> (case ensured of
              Ensure_cancelled \<Rightarrow> (Inl InstCancelled, h, None)
            | Ensure_failed \<Rightarrow> (Inl InstRegistry, h, None)
            | Cached_at _ \<Rightarrow>
                if \<not> staged then (Inl InstRegistry, h, None)
                else case local_token authDisabled ma h of
                    (Inl e, h) \<Rightarrow> (Inl e, h, None)
                  | (Inr token, h) \<Rightarrow>
                      let args = installer_args (localWorkerURL tls cfg) scope token name;
                          target = package resolved @ ''@'' @ vr_version (fst resolved);
                          output = tailString (snd finished) installerOutputTailBytes
                      in if \<not> fst finished then (Inl InstRegistry, audit ''worker.install_local'' target OutcomeError h, Some args)
                         else (Inr \<lparr> ir_package = package resolved, ir_package_version = vr_version (fst resolved), ir_output = output \<rparr>,
                               audit ''worker.install_local'' target OutcomeOK h, Some args)))))"

subsection \<open>On another host\<close>

text \<open>\<open>strings.ToLower\<close> on ASCII text.\<close>

definition to_lower :: "string \<Rightarrow> string" where
  "to_lower = map lower_char"

definition normalizeGOOS :: "string \<Rightarrow> string" where
  "normalizeGOOS os = (let l = to_lower os in if l = ''linux'' then ''linux''
     else if l = ''darwin'' \<or> l = ''macos'' then ''darwin'' else if l = ''windows'' then ''windows'' else l)"

definition normalizeGOARCH :: "string \<Rightarrow> string" where
  "normalizeGOARCH arch = (let l = to_lower arch in if l = ''x86_64'' \<or> l = ''amd64'' then ''amd64''
     else if l = ''aarch64'' \<or> l = ''arm64'' then ''arm64'' else l)"

datatype setup_answer = Setup_status nat | Setup_choices reg_error "string list" | Setup_gone | Setup_file string

definition handleSetupWorkerBin :: "('v, 'c) semver_lib \<Rightarrow> reg_host \<Rightarrow> 'a fetched \<Rightarrow> ensured \<Rightarrow> runtime_name \<Rightarrow> string \<Rightarrow> string \<Rightarrow> string
    \<Rightarrow> string \<Rightarrow> handler \<Rightarrow> setup_answer" where
  "handleSetupWorkerBin sv host fetch ensured runtime rawOS rawArch backend workerPkg h =
     (if runtime = '''' \<or> rawOS = '''' \<or> rawArch = '''' then Setup_status 400
      else case resolveWorkerArtifact sv host fetch runtime (normalizeGOOS rawOS) (normalizeGOARCH rawArch) backend workerPkg h of
          Inl (RegNotInstalled, _) \<Rightarrow> Setup_status 404
        | Inl (RegAmbiguousWorker, cs) \<Rightarrow> Setup_choices RegAmbiguousWorker cs
        | Inl (RegAmbiguousBackend, cs) \<Rightarrow> Setup_choices RegAmbiguousBackend cs
        | Inl (RegResolver NotResolved, _) \<Rightarrow> Setup_status 404
        | Inl _ \<Rightarrow> Setup_status 502
        | Inr _ \<Rightarrow> (case ensured of
              Ensure_cancelled \<Rightarrow> Setup_gone
            | Ensure_failed \<Rightarrow> Setup_status 502
            | Cached_at file \<Rightarrow> Setup_file file))"

subsection \<open>What an install does\<close>

lemma tailString_bound: "length (tailString s n) \<le> n + 4"
  by (simp add: tailString_def Let_def)

lemma install_scope_iff: "install_scope scope = Inr s \<longleftrightarrow> scope \<in> {'''', ''user'', ''system''} \<and> s = (if scope = '''' then ''user'' else scope)"
  by (auto simp: install_scope_def)

lemma local_token_cases:
  assumes "local_token authDisabled ma h = (Inr token, h')"
  shows "(token = None \<longleftrightarrow> authDisabled \<or> \<not> hd_has_enroller h) \<and> (token = None \<longrightarrow> h' = h)
    \<and> (\<forall>t. token = Some t \<longrightarrow> (\<exists>expires. MintJoinToken localInstallJoinTokenTTL (ma_random ma) (ma_id ma) (ma_hash ma) (ma_now ma)
          (hd_enroll h) = (Inr (t, expires), hd_enroll h')))"
  using assms by (auto simp: local_token_def split: if_splits prod.splits sum.splits)

text \<open>A run of the installer, taken apart.\<close>

lemma install_ran:
  assumes "installLocalWorker sv host fetch package tls cfg authDisabled ensured staged ma finished runtime scope name h = (r, h', Some args)"
  shows "\<exists>rt resolved token h1 sc. install_scope scope = Inr sc \<and> resolveLocalRuntimeName runtime h = Inr rt
     \<and> resolveWorkerArtifact sv host fetch rt (rh_os host) (rh_arch host) '''' '''' h = Inr resolved
     \<and> local_token authDisabled ma h = (Inr token, h1) \<and> hd_enroll h' = hd_enroll h1
     \<and> args = installer_args (localWorkerURL tls cfg) sc token name
     \<and> r = (if fst finished then Inr \<lparr> ir_package = package resolved, ir_package_version = vr_version (fst resolved),
             ir_output = tailString (snd finished) installerOutputTailBytes \<rparr> else Inl InstRegistry)"
  using assms
  by (auto simp: installLocalWorker_def Let_def audit_def split: if_splits sum.splits ensured.splits prod.splits)

text \<open>C32. The installer runs only when every step before it succeeded: for one runtime, the one asked for or the only one
  installed, with the package its resolution is sure of, for a known scope, pointed at the daemon's local address. It gets
  a join token exactly when the daemon asks workers for one, and that token is fresh: it opens an enrollment for the next
  five minutes. Without a run the answer is an error and nothing is recorded but a mint that failed; what the caller sees
  of the installer's output is bounded. (bcrypt accepts exactly the password it hashed; the token table works.)\<close>

theorem local_install_outcome:
  assumes op: "installLocalWorker sv host fetch package tls cfg authDisabled ensured staged ma finished runtime scope name h = (r, h', cmd)"
    and bcrypt: "\<forall>p k q. ma_hash ma p = Some k \<longrightarrow> matches k q = (q = p)" and ok: "es_faults (hd_enroll h) = []"
  shows "(\<forall>args. cmd = Some args \<longrightarrow> (\<exists>rt resolved token sc.
       sc \<in> {''user'', ''system''} \<and> sc = (if scope = '''' then ''user'' else scope) \<and> (runtime = '''' \<longrightarrow> map fst (rm_installed (hd_runtimes h)) = [rt])
     \<and> (runtime \<noteq> '''' \<longrightarrow> rt = runtime)
     \<and> resolveWorkerArtifact sv host fetch rt (rh_os host) (rh_arch host) '''' '''' h = Inr resolved
     \<and> args = installer_args (localWorkerURL tls cfg) sc token name
     \<and> (token = None \<longleftrightarrow> authDisabled \<or> \<not> hd_has_enroller h)
     \<and> (\<forall>t later. token = Some t \<longrightarrow> later div 1000 < (ma_now ma + 300000) div 1000 \<longrightarrow> fst (validateJoinToken matches t later (hd_enroll h')) = Inr ())
     \<and> (r = Inl InstRegistry \<or> r = Inr \<lparr> ir_package = package resolved, ir_package_version = vr_version (fst resolved),
             ir_output = tailString (snd finished) installerOutputTailBytes \<rparr>)))
   \<and> (cmd = None \<longrightarrow> (\<exists>e. r = Inl e) \<and> (r = Inl InstNoToken \<or> h' = h))
   \<and> (\<forall>res. r = Inr res \<longrightarrow> length (ir_output res) \<le> 4100)"
proof -
  have none: "cmd = None \<Longrightarrow> (\<exists>e. r = Inl e) \<and> (r = Inl InstNoToken \<or> h' = h)"
    using op by (auto simp: installLocalWorker_def Let_def local_token_def split: if_splits sum.splits ensured.splits prod.splits)
  show ?thesis
  proof (cases cmd)
    case (Some args)
    from install_ran [OF op [unfolded Some]] obtain rt resolved token h1 sc where run:
      "install_scope scope = Inr sc" "resolveLocalRuntimeName runtime h = Inr rt"
      "resolveWorkerArtifact sv host fetch rt (rh_os host) (rh_arch host) '''' '''' h = Inr resolved"
      "local_token authDisabled ma h = (Inr token, h1)" "hd_enroll h' = hd_enroll h1"
      "args = installer_args (localWorkerURL tls cfg) sc token name"
      "r = (if fst finished then Inr \<lparr> ir_package = package resolved, ir_package_version = vr_version (fst resolved),
             ir_output = tailString (snd finished) installerOutputTailBytes \<rparr> else Inl InstRegistry)" by blast
    have fresh: "fst (validateJoinToken matches t later (hd_enroll h')) = Inr ()"
      if t: "token = Some t" "later div 1000 < (ma_now ma + 300000) div 1000" for t later
    proof -
      from local_token_cases [OF run(4)] t(1) obtain expires where
        mint: "MintJoinToken localInstallJoinTokenTTL (ma_random ma) (ma_id ma) (ma_hash ma) (ma_now ma) (hd_enroll h)
          = (Inr (t, expires), hd_enroll h1)" by blast
      from join_token_window [OF bcrypt ok mint, of "[]" later] t(2) run(5) show ?thesis
        by (simp add: localInstallJoinTokenTTL_def)
    qed
    from run(2) have rt: "runtime = '''' \<longrightarrow> map fst (rm_installed (hd_runtimes h)) = [rt]" "runtime \<noteq> '''' \<longrightarrow> rt = runtime"
      by (auto simp: resolveLocalRuntimeName_def split: if_splits list.splits)
    have sc: "sc \<in> {''user'', ''system''}" "sc = (if scope = '''' then ''user'' else scope)" using run(1) by (auto simp: install_scope_iff)
    have "length (ir_output res) \<le> 4100" if "r = Inr res" for res
      using that run(7) tailString_bound [of "snd finished" 4096] by (auto simp: installerOutputTailBytes_def split: if_splits)
    moreover have res: "r = Inl InstRegistry \<or> r = Inr \<lparr> ir_package = package resolved, ir_package_version = vr_version (fst resolved),
             ir_output = tailString (snd finished) installerOutputTailBytes \<rparr>" using run(7) by simp
    have "\<exists>rt resolved token sc. sc \<in> {''user'', ''system''} \<and> sc = (if scope = '''' then ''user'' else scope) \<and> (runtime = '''' \<longrightarrow> map fst (rm_installed (hd_runtimes h)) = [rt])
     \<and> (runtime \<noteq> '''' \<longrightarrow> rt = runtime)
     \<and> resolveWorkerArtifact sv host fetch rt (rh_os host) (rh_arch host) '''' '''' h = Inr resolved
     \<and> args = installer_args (localWorkerURL tls cfg) sc token name
     \<and> (token = None \<longleftrightarrow> authDisabled \<or> \<not> hd_has_enroller h)
     \<and> (\<forall>t later. token = Some t \<longrightarrow> later div 1000 < (ma_now ma + 300000) div 1000 \<longrightarrow> fst (validateJoinToken matches t later (hd_enroll h')) = Inr ())
     \<and> (r = Inl InstRegistry \<or> r = Inr \<lparr> ir_package = package resolved, ir_package_version = vr_version (fst resolved),
             ir_output = tailString (snd finished) installerOutputTailBytes \<rparr>)" using rt sc run(3,6) local_token_cases [OF run(4)] fresh res
      by (intro exI [of _ rt] exI [of _ resolved] exI [of _ token] exI [of _ sc] conjI) (assumption | blast)+
    ultimately show ?thesis using Some by simp
  qed (use none in auto)
qed

text \<open>One runtime and one backend on the host: the installer runs with a token; without an enroller it runs without.\<close>

definition one_backend :: "nat registry_index" where
  "one_backend = demo_index\<lparr>ix_compatible := (\<lambda>runtime rv mv. Some [(demo_worker_pkg, demo_version ''1'' [(''l/x/cuda'', 2)])]),
     ix_workers_for := (\<lambda>_. [demo_worker_pkg])\<rparr>"

definition loopback_config :: config where
  "loopback_config = \<lparr> cf_result_ttl = None, cf_idle_eviction_ttl = None, cf_stream_replay_ttl = None, cf_load_attempts = 0,
     cf_bench_budget_seconds = 0, cf_bench_slots_cap = 0, cf_listen_addr = '''', cf_registry_url = '''', cf_update_url = '''',
     cf_db_dialect = '''', cf_db_dsn = '''' \<rparr>"

definition demo_mint :: mint_args where
  "demo_mint = \<lparr> ma_random = Some [1], ma_id = ''t'', ma_hash = demo_hash, ma_now = 0 \<rparr>"

theorem local_install_outcome_witness:
  "\<exists>r h' token. installLocalWorker dev_semver demo_host (Some (one_backend, False)) (\<lambda>_. ''w'') False loopback_config False
       (Cached_at ''c'') True demo_mint (True, ''ok'') '''' '''' ''box'' installed_handler = (Inr r, h',
         Some [''--non-interactive'', ''--mass-url'', ''http://127.0.0.1:3455'', ''--scope'', ''user'', ''--token'', token, ''--name'', ''box''])
     \<and> fst (validateJoinToken demo_matches token 299000 (hd_enroll h')) = Inr () \<and> ir_output r = ''ok''"
proof -
  have mf: "Get_manifest ''rt'' (hd_runtimes installed_handler) = Inr \<lparr> mf_name = ''rt'', mf_version = ''2'', mf_display = '''',
      mf_description = '''', mf_auto = False, mf_binary = '''' \<rparr>" "hd_has_runtimes installed_handler"
      "resolveLocalRuntimeName '''' installed_handler = Inr ''rt''" "hd_has_enroller installed_handler"
      "hd_enroll installed_handler = demo_store"
    by (simp_all add: Get_manifest_def installed_handler_def demo_handler_def resolveLocalRuntimeName_def demo_store_def)
  have mv: "''9999.0.0'' = massVersionForResolve dev_semver (rh_version demo_host)"
    by (simp add: massVersionForResolve_def dev_semver_def unresolvableMassVersion_def)
  have b: "compatibleBackends one_backend ''w'' ''2'' ''9999.0.0'' ''l'' ''x'' = [''cuda'']" by code_simp
  have c: "chooseWorkerPackage one_backend ''rt'' ''l'' ''x'' '''' ''2'' ''9999.0.0'' = Inr ''w''"
    using b by (simp add: chooseWorkerPackage_def one_backend_def [THEN arg_cong [where f = ix_workers_for]]) (simp add: demo_worker_pkg_def)
  have host: "rh_os demo_host = ''l''" "rh_arch demo_host = ''x''" "rh_config demo_host" by (simp_all add: demo_host_def)
  have "ix_resolve_worker one_backend ''w'' (''l'', ''x'', ''cuda'') ''2'' ''9999.0.0'' = Inr (hd (pk_versions demo_worker_pkg), 2)"
    by (simp add: one_backend_def demo_index_def)
  then have v: "resolveWorkerArtifact dev_semver demo_host (Some (one_backend, False)) ''rt'' ''l'' ''x'' '''' '''' installed_handler
      = Inr (hd (pk_versions demo_worker_pkg), 2)"
    by (simp add: resolveWorkerArtifact_def mf mv [symmetric] c b host Let_def)
  have mint: "\<exists>token es. MintJoinToken localInstallJoinTokenTTL (Some [1]) ''t'' demo_hash 0 demo_store = (Inr (token, 300), es)"
    by (simp add: MintJoinToken_def NewJoinToken_def newCredential_def demo_hash_def InsertJoinToken_def estx_def demo_store_def
        localInstallJoinTokenTTL_def Let_def)
  have url: "localWorkerURL False loopback_config = ''http://127.0.0.1:3455''" "tailString ''ok'' installerOutputTailBytes = ''ok''"
    by code_simp+
  obtain r h' cmd where op: "installLocalWorker dev_semver demo_host (Some (one_backend, False)) (\<lambda>_. ''w'') False loopback_config False
       (Cached_at ''c'') True demo_mint (True, ''ok'') '''' '''' ''box'' installed_handler = (r, h', cmd)" by (metis prod_cases3)
  from mint have run: "cmd \<noteq> None \<and> (\<exists>res. r = Inr res)" using op
    by (auto simp: installLocalWorker_def install_scope_def mf host v local_token_def demo_mint_def Let_def)
  have bc: "\<forall>p k q. ma_hash demo_mint p = Some k \<longrightarrow> demo_matches k q = (q = p)" "es_faults (hd_enroll installed_handler) = []"
    by (auto simp: demo_mint_def demo_hash_def demo_matches_def mf demo_store_def)
  from local_install_outcome [OF op bc] run obtain args token where
    "cmd = Some args" "args = installer_args (localWorkerURL False loopback_config) ''user'' (Some token) ''box''"
    "fst (validateJoinToken demo_matches token 299000 (hd_enroll h')) = Inr ()"
    "\<exists>res. r = Inr res \<and> ir_output res = tailString ''ok'' installerOutputTailBytes"
    by (auto simp: demo_mint_def mf)
  then show ?thesis using op by (auto simp: installer_args_def url)
qed

end
