(* ===== verification/Models_View.thy ===== *)
theory Models_View
  imports Gateway_Service Registry
begin

text \<open>
  The Models tab (\<open>internal/web\<close>: \<open>routes_models_stream.go\<close>, \<open>routes_models_bench.go\<close>): the catalogues of the running
  gateways merged into one view, the patches that keep a browser's page in step with it, and the benchmark card of a model.

  What a gateway answers is an argument, and so is the HTML of a card: a page is a placeholder or a list of cards under
  their groups' ids, which the DOM ids stand for one to one. \<open>lower\<close> is \<open>strings.ToLower\<close>. Groups of one display name
  may come in any order; here they keep the order of their appearance.
\<close>

subsection \<open>Merging the catalogues\<close>

record capabilities =
  cp_vision :: bool
  cp_audio :: bool
  cp_thinking :: bool

record 'm model_group =
  gr_id :: string
  gr_display :: string
  gr_caps :: "capabilities option"
  gr_models :: "(string \<times> 'm) list"

record 'm merged =
  mg_group :: "'m model_group"
  mg_runtimes :: "runtime_name list"

definition appendUnique :: "'a list \<Rightarrow> 'a \<Rightarrow> 'a list" where
  "appendUnique xs v = (if v \<in> set xs then xs else xs @ [v])"

definition has_cap :: "(capabilities \<Rightarrow> bool) \<Rightarrow> 'm model_group \<Rightarrow> bool" where
  "has_cap f g = (case gr_caps g of None \<Rightarrow> False | Some c \<Rightarrow> f c)"

text \<open>A group met again, on another runtime or the same: capabilities add up, a model counts once per id.\<close>

fun merge_models :: "(string \<times> 'm) list \<Rightarrow> (string \<times> 'm) list \<Rightarrow> (string \<times> 'm) list" where
  "merge_models ms [] = ms"
| "merge_models ms (m # rest) = merge_models (if fst m \<in> set (map fst ms) then ms else ms @ [m]) rest"

definition merge_group :: "'m model_group \<Rightarrow> 'm model_group \<Rightarrow> 'm model_group" where
  "merge_group a g = a\<lparr>
     gr_caps := Some \<lparr> cp_vision = has_cap cp_vision a \<or> has_cap cp_vision g, cp_audio = has_cap cp_audio a \<or> has_cap cp_audio g,
       cp_thinking = has_cap cp_thinking a \<or> has_cap cp_thinking g \<rparr>,
     gr_models := merge_models (gr_models a) (gr_models g)\<rparr>"

text \<open>The groups met so far, in the order of their first appearance.\<close>

definition add_group :: "runtime_name \<Rightarrow> 'm model_group \<Rightarrow> (string \<times> 'm merged) list \<Rightarrow> (string \<times> 'm merged) list" where
  "add_group rt g accs = (case map_of accs (gr_id g) of
      None \<Rightarrow> accs @ [(gr_id g, \<lparr> mg_group = g, mg_runtimes = [rt] \<rparr>)]
    | Some a \<Rightarrow> AList.update (gr_id g) \<lparr> mg_group = merge_group (mg_group a) g, mg_runtimes = appendUnique (mg_runtimes a) rt \<rparr> accs)"

definition add_gateway :: "runtime_name \<times> 'm model_group list option \<Rightarrow> (string \<times> 'm merged) list \<Rightarrow> (string \<times> 'm merged) list" where
  "add_gateway gw accs = (case snd gw of None \<Rightarrow> accs | Some gs \<Rightarrow> fold (add_group (fst gw)) gs accs)"

definition aggregate :: "(string \<Rightarrow> string) \<Rightarrow> (runtime_name \<times> 'm model_group list option) list \<Rightarrow> (string \<times> 'm merged) list" where
  "aggregate lower gws = sort_key (\<lambda>(_, a). lower (gr_display (mg_group a))) (fold add_gateway gws [])"

subsection \<open>Keeping the page in step\<close>

datatype body = No_runtime | No_models | Loading | Scaffold

datatype 'h patch = Inner body | Remove_card string | Append_card string 'h | Outer_card string 'h

record 'h renderer =
  rn_html :: "(string \<times> 'h) list"
  rn_empty :: "body option"

definition emitEmpty :: "body \<Rightarrow> 'h renderer \<Rightarrow> 'h patch list \<times> 'h renderer" where
  "emitEmpty b r = (if rn_empty r = Some b \<and> rn_html r = [] then ([], r)
     else ([Inner b], \<lparr> rn_html = [], rn_empty = Some b \<rparr>))"

definition group_patch :: "(string \<times> 'h) list \<Rightarrow> string \<times> 'h \<Rightarrow> 'h patch list" where
  "group_patch old = (\<lambda>(i, html). case map_of old i of
      None \<Rightarrow> [Append_card i html]
    | Some prev \<Rightarrow> if prev \<noteq> html then [Outer_card i html] else [])"

text \<open>\<open>new\<close> is the HTML of every group in display order.\<close>

definition emitGroups :: "(string \<times> 'h) list \<Rightarrow> 'h renderer \<Rightarrow> 'h patch list \<times> 'h renderer" where
  "emitGroups new r =
     (let fresh = (rn_html r = []) in
      ((if fresh then [Inner Scaffold] else [])
         @ map Remove_card (filter (\<lambda>i. i \<notin> set (map fst new)) (map fst (rn_html r)))
         @ concat (map (group_patch (rn_html r)) new),
       \<lparr> rn_html = new, rn_empty = (if fresh then None else rn_empty r) \<rparr>))"

definition render :: "('m model_group \<Rightarrow> runtime_name list \<Rightarrow> 'h) \<Rightarrow> (string \<Rightarrow> string)
    \<Rightarrow> (runtime_name \<times> 'm model_group list option) list \<times> bool \<Rightarrow> 'h renderer \<Rightarrow> 'h patch list \<times> 'h renderer" where
  "render html_of lower inp r =
     (let (running, downloading) = inp;
          (ps, r) = (if running \<noteq> [] \<and> rn_html r = [] then emitEmpty Loading r else ([], r));
          order = aggregate lower running;
          (qs, r) = (if running = [] then emitEmpty No_runtime r
             else if order = [] then emitEmpty (if downloading then Scaffold else No_models) r
             else emitGroups (map (\<lambda>(i, a). (i, html_of (mg_group a) (mg_runtimes a))) order) r)
      in (ps @ qs, r))"

subsection \<open>The browser\<close>

datatype 'h page = Blank body | Cards "(string \<times> 'h) list"

text \<open>A body that is the scaffold is a list without cards.\<close>

definition cards_of :: "'h page \<Rightarrow> (string \<times> 'h) list" where
  "cards_of p = (case p of Blank _ \<Rightarrow> [] | Cards cs \<Rightarrow> cs)"

fun apply_patch :: "'h patch \<Rightarrow> 'h page \<Rightarrow> 'h page" where
  "apply_patch (Inner b) p = (if b = Scaffold then Cards [] else Blank b)"
| "apply_patch (Remove_card i) p = Cards (AList.delete i (cards_of p))"
| "apply_patch (Append_card i h) p = Cards (cards_of p @ [(i, h)])"
| "apply_patch (Outer_card i h) p = (if i \<in> fst ` set (cards_of p) then Cards (AList.update i h (cards_of p)) else p)"

definition tab_step :: "('m model_group \<Rightarrow> runtime_name list \<Rightarrow> 'h) \<Rightarrow> (string \<Rightarrow> string)
    \<Rightarrow> (runtime_name \<times> 'm model_group list option) list \<times> bool \<Rightarrow> 'h renderer \<times> 'h page \<Rightarrow> 'h renderer \<times> 'h page" where
  "tab_step html_of lower inp w = (case render html_of lower inp (fst w) of (ps, r) \<Rightarrow> (r, fold apply_patch ps (snd w)))"

definition fresh_tab :: "'h renderer \<times> 'h page" where
  "fresh_tab = (\<lparr> rn_html = [], rn_empty = None \<rparr>, Blank Loading)"

subsection \<open>The benchmark card\<close>

datatype bench_state = Bench_running | Bench_measured | Bench_incapable

record bench_row =
  bv_worker :: string
  bv_devices :: string
  bv_state :: bench_state
  bv_error :: string
  bv_units :: rat
  bv_graph :: rat
  bv_base :: int
  bv_slot :: int

definition worker_label :: "(worker_id \<times> string) list \<Rightarrow> worker_id \<Rightarrow> string" where
  "worker_label wnames i = (case map_of wnames i of None \<Rightarrow> i | Some name \<Rightarrow> if name \<noteq> '''' then name else i)"

definition running_row :: "(worker_id \<times> string) list \<Rightarrow> worker_id \<Rightarrow> bench_row" where
  "running_row wnames i = \<lparr> bv_worker = worker_label wnames i, bv_devices = '''', bv_state = Bench_running, bv_error = '''',
     bv_units = 0, bv_graph = 0, bv_base = 0, bv_slot = 0 \<rparr>"

definition row_view :: "(worker_id \<times> string) list \<Rightarrow> model_benchmark \<Rightarrow> bench_row" where
  "row_view wnames r = \<lparr> bv_worker = worker_label wnames (mb_worker_id r), bv_devices = mb_device_set r,
     bv_state = (if mb_error r \<noteq> '''' then Bench_incapable else Bench_measured), bv_error = mb_error r,
     bv_units = mb_units_per_sec r, bv_graph = mb_graph_secs r, bv_base = mb_base_bytes r, bv_slot = mb_per_slot_bytes r \<rparr>"

definition buildModelBenchRows :: "model_benchmark list \<Rightarrow> (worker_id \<times> string) list \<Rightarrow> worker_id list \<Rightarrow> bench_row list" where
  "buildModelBenchRows brows wnames benching =
     sort_key (\<lambda>v. (bv_worker v, bv_devices v))
       (map (running_row wnames) benching @ map (row_view wnames) (filter (\<lambda>r. mb_worker_id r \<notin> set benching) brows))"

record bench_view =
  bw_runtime :: runtime_name
  bw_key :: model_id
  bw_connected :: nat
  bw_rows :: "bench_row list"

definition modelBenchView :: "runtime_name \<Rightarrow> model_id \<Rightarrow> handler \<Rightarrow> bench_view \<times> handler" where
  "modelBenchView rt key h =
     (let (brows, h) = (if hd_has_store h then
            case on_sched (ListModelBenchmarksByModel key) h of (Inl _, h) \<Rightarrow> ([], h) | (Inr rs, h) \<Rightarrow> (rs, h)
          else ([], h));
          ws = (if hd_has_workers h then All_workers (sc_fleet (hd_sched h)) else []);
          wnames = fold (\<lambda>w. AList.update (w_id w) (w_name w)) ws [];
          benching = (if hd_has_orch h then map w_id (filter (\<lambda>w. BenchInFlight (w_id w) (hd_bench h) = key) ws) else [])
      in (\<lparr> bw_runtime = rt, bw_key = key, bw_connected = length (filter (\<lambda>w. w_runtime w = rt \<and> w_online w) ws),
            bw_rows = buildModelBenchRows brows wnames benching \<rparr>, h))"

text \<open>The key of a catalogue id, as the orchestrator walks the catalogue.\<close>

definition modelStoreKey :: "string \<Rightarrow> gateway_model list list option \<Rightarrow> runtime_name \<Rightarrow> model_id \<Rightarrow> handler \<Rightarrow> model_id option" where
  "modelStoreKey modelsDir groups rt i h =
     (if \<not> hd_has_runtimes h then None
      else case BenchModels modelsDir groups rt (hd_runtimes h) of
          Inl _ \<Rightarrow> None
        | Inr ms \<Rightarrow> map_option bm_key (find (\<lambda>m. bm_id m = i) ms))"

definition handleModelBenchStatus :: "string \<Rightarrow> gateway_model list list option \<Rightarrow> runtime_name \<Rightarrow> model_id \<Rightarrow> handler
    \<Rightarrow> bench_view option \<times> handler" where
  "handleModelBenchStatus modelsDir groups rt i h =
     (if rt = '''' \<or> i = '''' then (None, h)
      else case modelStoreKey modelsDir groups rt i h of
          None \<Rightarrow> (None, h)
        | Some key \<Rightarrow> (case modelBenchView rt key h of (v, h) \<Rightarrow> (Some v, h)))"

subsection \<open>What the merge holds\<close>

text \<open>The groups the gateways answered with, in order, each with its runtime.\<close>

definition occurrences :: "(runtime_name \<times> 'm model_group list option) list \<Rightarrow> (runtime_name \<times> 'm model_group) list" where
  "occurrences gws = concat (map (\<lambda>(rt, gs). case gs of None \<Rightarrow> [] | Some gs \<Rightarrow> map (Pair rt) gs) gws)"

definition add_occurrence :: "runtime_name \<times> 'm model_group \<Rightarrow> 'm merged \<Rightarrow> 'm merged" where
  "add_occurrence = (\<lambda>(rt, g) a. \<lparr> mg_group = merge_group (mg_group a) g, mg_runtimes = appendUnique (mg_runtimes a) rt \<rparr>)"

definition merged_of :: "(runtime_name \<times> 'm model_group) list \<Rightarrow> 'm merged option" where
  "merged_of os = (case os of [] \<Rightarrow> None | (rt, g) # rest \<Rightarrow> Some (fold add_occurrence rest \<lparr> mg_group = g, mg_runtimes = [rt] \<rparr>))"

lemma merged_of_snoc: "merged_of (os @ [(rt, g)]) = Some (case merged_of os of
    None \<Rightarrow> \<lparr> mg_group = g, mg_runtimes = [rt] \<rparr> | Some a \<Rightarrow> add_occurrence (rt, g) a)"
  by (cases os) (auto simp: merged_of_def split: prod.splits)

lemma add_gateway_fold: "fold add_gateway gws accs = fold (\<lambda>(rt, g). add_group rt g) (occurrences gws) accs"
proof (induction gws arbitrary: accs)
  case (Cons gw gws)
  have "fold (add_group rt) gs accs = fold (\<lambda>(rt, g). add_group rt g) (map (Pair rt) gs) accs" for rt and gs :: "'a model_group list" and accs
    by (induction gs arbitrary: accs) simp_all
  with Cons show ?case by (cases gw) (auto simp: occurrences_def add_gateway_def split: option.splits)
qed (simp add: occurrences_def)

lemma add_groups_merge:
  "distinct (map fst (fold (\<lambda>(rt, g). add_group rt g) os []))
   \<and> (\<forall>i. map_of (fold (\<lambda>(rt, g). add_group rt g) os []) i = merged_of (filter (\<lambda>(_, g). gr_id g = i) os))"
proof (induction os rule: rev_induct)
  case (snoc x os)
  obtain rt g where x: "x = (rt, g)" by fastforce
  define accs where "accs = fold (\<lambda>(rt, g). add_group rt g) os []"
  from snoc have d: "distinct (map fst accs)" and m: "map_of accs i = merged_of (filter (\<lambda>(_, g). gr_id g = i) os)" for i
    by (simp_all add: accs_def)
  have "distinct (map fst (add_group rt g accs)) \<and>
    (\<forall>i. map_of (add_group rt g accs) i = merged_of (filter (\<lambda>(_, g). gr_id g = i) (os @ [(rt, g)])))"
  proof (cases "map_of accs (gr_id g)")
    case None
    then have "gr_id g \<notin> fst ` set accs" by (simp add: map_of_eq_None_iff)
    with None d show ?thesis
      by (auto simp: add_group_def merged_of_snoc map_add_def m [symmetric] split: option.splits)
  next
    case (Some a)
    with d show ?thesis
      by (simp add: add_group_def merged_of_snoc update_conv distinct_update add_occurrence_def m [symmetric])
  qed
  then show ?case by (simp add: x accs_def)
qed (simp add: merged_of_def)

lemma merge_models_ids: "set (map fst (merge_models ms ns)) = set (map fst ms) \<union> set (map fst ns)"
  by (induction ms ns rule: merge_models.induct) auto

lemma merge_models_distinct: "distinct (map fst ms) \<Longrightarrow> distinct (map fst (merge_models ms ns))"
  by (induction ms ns rule: merge_models.induct) auto

text \<open>One merged group: its runtimes, its models and its capabilities are those of all its occurrences.\<close>

definition merges :: "(runtime_name \<times> 'm model_group) list \<Rightarrow> 'm merged \<Rightarrow> bool" where
  "merges os a \<longleftrightarrow> distinct (mg_runtimes a) \<and> set (mg_runtimes a) = fst ` set os
     \<and> fst ` set (gr_models (mg_group a)) = (\<Union>(rt, g) \<in> set os. fst ` set (gr_models g))
     \<and> (\<forall>f \<in> {cp_vision, cp_audio, cp_thinking}. has_cap f (mg_group a) \<longleftrightarrow> (\<exists>(rt, g) \<in> set os. has_cap f g))"

lemma has_cap_Some: "has_cap f (a\<lparr>gr_caps := Some c, gr_models := ms\<rparr>) = f c"
  by (simp add: has_cap_def)

lemma has_cap_merge: "f \<in> {cp_vision, cp_audio, cp_thinking} \<Longrightarrow> has_cap f (merge_group a g) \<longleftrightarrow> has_cap f a \<or> has_cap f g"
  by (auto simp: merge_group_def has_cap_Some)

lemma merges_snoc:
  assumes "merges os a"
  shows "merges (os @ [(rt, g)]) (add_occurrence (rt, g) a)"
proof -
  have "fst ` set (merge_models ms ns) = fst ` set ms \<union> fst ` set ns" for ms ns :: "(string \<times> 'a) list"
    using merge_models_ids [of ms ns] by simp
  then have "fst ` set (gr_models (merge_group (mg_group a) g)) = (\<Union>(rt, g) \<in> set (os @ [(rt, g)]). fst ` set (gr_models g))"
    using assms by (auto simp: merges_def merge_group_def)
  moreover have "has_cap f (merge_group (mg_group a) g) \<longleftrightarrow> (\<exists>(rt, g) \<in> set (os @ [(rt, g)]). has_cap f g)"
    if "f \<in> {cp_vision, cp_audio, cp_thinking}" for f
    unfolding has_cap_merge [OF that] using assms that by (auto simp: merges_def)
  moreover have "distinct (appendUnique (mg_runtimes a) rt)" "set (appendUnique (mg_runtimes a) rt) = fst ` set (os @ [(rt, g)])"
    using assms by (auto simp: merges_def appendUnique_def)
  ultimately show ?thesis unfolding merges_def add_occurrence_def by simp
qed

lemma merged_of_merges: "merged_of os = Some a \<Longrightarrow> merges os a"
proof (induction os arbitrary: a rule: rev_induct)
  case (snoc x os)
  obtain rt g where x: "x = (rt, g)" by fastforce
  show ?case
  proof (cases "merged_of os")
    case None
    then have "os = []" by (cases os) (auto simp: merged_of_def split: prod.splits)
    with snoc.prems show ?thesis by (auto simp: x merged_of_def merges_def)
  next
    case (Some b)
    with snoc.prems have "a = add_occurrence (rt, g) b" by (simp add: x merged_of_snoc)
    with merges_snoc [OF snoc.IH [OF Some]] show ?thesis by (simp add: x)
  qed
qed (simp add: merged_of_def)

lemma aggregate_spec:
  "distinct (map fst (aggregate lower gws))"
  "sorted (map (\<lambda>(_, a). lower (gr_display (mg_group a))) (aggregate lower gws))"
  "map_of (aggregate lower gws) i = merged_of (filter (\<lambda>(_, g). gr_id g = i) (occurrences gws))"
proof -
  let ?accs = "fold add_gateway gws []"
  have d: "distinct (map fst ?accs)" unfolding add_gateway_fold using add_groups_merge by blast
  have "mset (map fst (aggregate lower gws)) = mset (map fst ?accs)" by (simp add: aggregate_def)
  with d show d': "distinct (map fst (aggregate lower gws))" by (metis mset_eq_imp_distinct_iff)
  show "sorted (map (\<lambda>(_, a). lower (gr_display (mg_group a))) (aggregate lower gws))"
    unfolding aggregate_def by (rule sorted_sort_key)
  have "set (aggregate lower gws) = set ?accs" by (simp add: aggregate_def)
  then have "map_of (aggregate lower gws) = map_of ?accs" using d d' by (simp add: map_of_inject_set)
  then show "map_of (aggregate lower gws) i = merged_of (filter (\<lambda>(_, g). gr_id g = i) (occurrences gws))"
    unfolding add_gateway_fold by (simp only: add_groups_merge [THEN conjunct2, rule_format])
qed

subsection \<open>The page follows\<close>

definition in_step :: "'h renderer \<times> 'h page \<Rightarrow> bool" where
  "in_step w \<longleftrightarrow> (case w of (r, p) \<Rightarrow>
     if rn_html r = [] then (\<forall>b. rn_empty r = Some b \<longrightarrow> p = (if b = Scaffold then Cards [] else Blank b))
     else distinct (map fst (rn_html r)) \<and> (\<exists>cs. p = Cards cs \<and> distinct (map fst cs) \<and> map_of cs = map_of (rn_html r)))"

lemma emitEmpty_in_step:
  assumes "in_step (r, p)" "emitEmpty b r = (ps, r')"
  shows "in_step (r', fold apply_patch ps p) \<and> rn_html r' = [] \<and> rn_empty r' = Some b
    \<and> fold apply_patch ps p = (if b = Scaffold then Cards [] else Blank b)"
  using assms by (auto simp: emitEmpty_def in_step_def split: if_splits)

lemma removals: "fold apply_patch (map Remove_card is) (Cards cs) = Cards (filter (\<lambda>(i, _). i \<notin> set is) cs)"
  by (induction "is" arbitrary: cs) (auto simp: cards_of_def AList.delete_eq filter_filter intro!: filter_cong)

lemma group_patches:
  assumes "distinct (map fst xs)" "distinct (map fst cs)" "\<forall>i \<in> fst ` set xs. map_of cs i = map_of old i"
  shows "\<exists>cs'. fold apply_patch (concat (map (group_patch old) xs)) (Cards cs) = Cards cs' \<and> distinct (map fst cs')
    \<and> map_of cs' = map_of cs ++ map_of xs"
  using assms
proof (induction xs arbitrary: cs)
  case (Cons x xs)
  obtain i h where x: "x = (i, h)" by fastforce
  have "\<exists>cs1. fold apply_patch (group_patch old x) (Cards cs) = Cards cs1 \<and> distinct (map fst cs1) \<and> map_of cs1 = (map_of cs)(i \<mapsto> h)"
  proof (cases "map_of old i")
    case None
    with Cons.prems x have "i \<notin> fst ` set cs" by (simp add: map_of_eq_None_iff)
    with None Cons.prems x show ?thesis
      by (intro exI [of _ "cs @ [(i, h)]"]) (auto simp: group_patch_def cards_of_def map_add_def split: option.splits)
  next
    case (Some prev)
    with Cons.prems x have i: "map_of cs i = Some prev" by simp
    then have mem: "i \<in> fst ` set cs" by (force dest: map_of_SomeD)
    show ?thesis
    proof (cases "prev = h")
      case True
      with i Some Cons.prems x show ?thesis by (intro exI [of _ cs]) (auto simp: group_patch_def)
    next
      case False
      with i mem Some Cons.prems x show ?thesis
        by (intro exI [of _ "AList.update i h cs"]) (simp add: group_patch_def cards_of_def distinct_update update_conv)
    qed
  qed
  then obtain cs1 where cs1: "fold apply_patch (group_patch old x) (Cards cs) = Cards cs1" "distinct (map fst cs1)"
    "map_of cs1 = (map_of cs)(i \<mapsto> h)" by blast
  have "\<forall>j \<in> fst ` set xs. map_of cs1 j = map_of old j" using Cons.prems x cs1(3) by auto
  from Cons.IH [OF _ cs1(2) this] Cons.prems obtain cs' where cs':
    "fold apply_patch (concat (map (group_patch old) xs)) (Cards cs1) = Cards cs'" "distinct (map fst cs')"
    "map_of cs' = map_of cs1 ++ map_of xs" by auto
  have i: "i \<notin> dom (map_of xs)" "map_of (x # xs) = (map_of xs)(i \<mapsto> h)" using Cons.prems x by (simp_all add: dom_map_of_conv_image_fst)
  have "map_of cs' = map_of cs ++ map_of (x # xs)"
    unfolding cs'(3) cs1(3) i(2) map_add_upd map_add_upd_left [OF i(1)] ..
  moreover have "fold apply_patch (concat (map (group_patch old) (x # xs))) (Cards cs) = Cards cs'" by (simp add: cs1(1) cs'(1))
  ultimately show ?case using cs'(2) by blast
qed simp

lemma emitGroups_in_step:
  assumes "in_step (r, p)" "emitGroups new r = (ps, r')" "new \<noteq> []" "distinct (map fst new)"
  shows "in_step (r', fold apply_patch ps p) \<and> rn_html r' = new"
proof -
  let ?gone = "filter (\<lambda>i. i \<notin> set (map fst new)) (map fst (rn_html r))"
  obtain cs where cs: "fold apply_patch (if rn_html r = [] then [Inner Scaffold] else []) p = Cards cs"
    "distinct (map fst cs)" "map_of cs = map_of (rn_html r)"
    using assms(1) by (cases "rn_html r = []") (auto simp: in_step_def)
  define cs1 where "cs1 = filter (\<lambda>(i, _). i \<notin> set ?gone) cs"
  have d1: "distinct (map fst cs1)" unfolding cs1_def using cs(2) by (rule distinct_map_filter)
  have f: "map_of (filter (\<lambda>(i, _). i \<notin> A) xs) i = (if i \<in> A then None else map_of xs i)" for A i and xs :: "(string \<times> 'a) list"
    by (induction xs) auto
  have m1: "map_of cs1 i = (if i \<in> fst ` set new then map_of (rn_html r) i else None)" for i
    unfolding cs1_def f cs(3) by (cases "i \<in> fst ` set (rn_html r)") (simp_all add: map_of_eq_None_iff)
  then obtain cs' where cs': "fold apply_patch (concat (map (group_patch (rn_html r)) new)) (Cards cs1) = Cards cs'"
    "distinct (map fst cs')" "map_of cs' = map_of cs1 ++ map_of new"
    using group_patches [OF assms(4) d1, of "rn_html r"] by auto
  have "map_of new i = None \<Longrightarrow> map_of cs1 i = None" for i by (simp add: m1 map_of_eq_None_iff)
  then have "(map_of cs1 ++ map_of new) i = map_of new i" for i by (cases "map_of new i") (simp_all add: map_add_def)
  then have "map_of cs' = map_of new" unfolding cs'(3) by (rule ext)
  moreover have "rn_html r' = new" "ps = (if rn_html r = [] then [Inner Scaffold] else []) @ map Remove_card ?gone
      @ concat (map (group_patch (rn_html r)) new)"
    using assms(2) by (auto simp: emitGroups_def Let_def)
  ultimately show ?thesis using assms(3,4) cs(1) cs'(1,2) by (simp add: in_step_def removals cs1_def)
qed

lemma render_in_step:
  assumes "in_step w"
  shows "in_step (tab_step html_of lower (running, downloading) w)"
    and "running = [] \<Longrightarrow> snd (tab_step html_of lower (running, downloading) w) = Blank No_runtime"
    and "running \<noteq> [] \<Longrightarrow> aggregate lower running = []
      \<Longrightarrow> snd (tab_step html_of lower (running, downloading) w) = (if downloading then Cards [] else Blank No_models)"
    and "running \<noteq> [] \<Longrightarrow> aggregate lower running \<noteq> [] \<Longrightarrow> rn_html (fst (tab_step html_of lower (running, downloading) w))
      = map (\<lambda>(i, a). (i, html_of (mg_group a) (mg_runtimes a))) (aggregate lower running)"
proof -
  obtain r p where w: "w = (r, p)" by fastforce
  obtain ps r1 where e1: "(if running \<noteq> [] \<and> rn_html r = [] then emitEmpty Loading r else ([], r)) = (ps, r1)" by fastforce
  have in1: "in_step (r1, fold apply_patch ps p)"
    using emitEmpty_in_step [OF assms [unfolded w], of Loading ps r1] e1 assms w by (auto split: if_splits)
  let ?new = "map (\<lambda>(i, a). (i, html_of (mg_group a) (mg_runtimes a))) (aggregate lower running)"
  obtain qs r2 where e2: "(if running = [] then emitEmpty No_runtime r1
      else if aggregate lower running = [] then emitEmpty (if downloading then Scaffold else No_models) r1 else emitGroups ?new r1) = (qs, r2)"
    by fastforce
  have t: "tab_step html_of lower (running, downloading) w = (r2, fold apply_patch qs (fold apply_patch ps p))"
    by (simp add: w tab_step_def render_def e1 e2 Let_def)
  have new: "distinct (map fst ?new)" using aggregate_spec(1) [of lower running] by (simp add: comp_def case_prod_unfold)
  note empty = emitEmpty_in_step [OF in1] and full = emitGroups_in_step [OF in1, of ?new qs r2]
  consider b where "emitEmpty b r1 = (qs, r2)" | "aggregate lower running \<noteq> []" "emitGroups ?new r1 = (qs, r2)"
    using e2 by (auto split: if_splits)
  then show "in_step (tab_step html_of lower (running, downloading) w)"
    unfolding t by cases (use empty full new in \<open>blast, auto\<close>)
  show "snd (tab_step html_of lower (running, downloading) w) = Blank No_runtime" if "running = []"
    unfolding t using e2 empty [of _ qs r2] that by auto
  show "snd (tab_step html_of lower (running, downloading) w) = (if downloading then Cards [] else Blank No_models)"
    if "running \<noteq> []" "aggregate lower running = []"
    unfolding t using e2 empty [of _ qs r2] that by auto
  show "rn_html (fst (tab_step html_of lower (running, downloading) w)) = ?new" if "running \<noteq> []" "aggregate lower running \<noteq> []"
    unfolding t using e2 full new that by auto
qed

lemma in_step_run: "in_step (fold (tab_step html_of lower) inps fresh_tab)"
proof (induction inps rule: rev_induct)
  case (snoc inp inps)
  then show ?case using render_in_step(1) by (cases inp) simp
qed (simp add: in_step_def fresh_tab_def)


text \<open>Two gateways that share a group, after a time when only one ran.\<close>

definition demo_group :: "string \<Rightarrow> string list \<Rightarrow> unit model_group" where
  "demo_group i ms = \<lparr> gr_id = i, gr_display = i, gr_caps = None, gr_models = map (\<lambda>m. (m, ())) ms \<rparr>"

definition demo_card :: "unit model_group \<Rightarrow> runtime_name list \<Rightarrow> string list \<times> runtime_name list" where
  "demo_card g rts = (map fst (gr_models g), rts)"

definition one_gateway :: "(runtime_name \<times> unit model_group list option) list" where
  "one_gateway = [(''r'', Some [demo_group ''b'' [''m'']])]"

definition two_gateways :: "(runtime_name \<times> unit model_group list option) list" where
  "two_gateways = [(''r'', Some [demo_group ''b'' [''m'']]), (''s'', Some [demo_group ''a'' [''k''], demo_group ''b'' [''m'', ''n'']])]"

text \<open>A group that appears lands after the cards that are there, not in its place in the display order.\<close>

lemma new_group_out_of_order:
  "map fst (cards_of (snd (fold (tab_step demo_card id) [(one_gateway, False), (two_gateways, False)] fresh_tab))) = [''b'', ''a'']
   \<and> map fst (aggregate id two_gateways) = [''a'', ''b'']"
  by code_simp


end
