(* ===== verification/Http_Api.thy ===== *)
theory Http_Api
  imports Models_View Update
begin

text \<open>
  The two transports over the operations of \<open>Operations\<close>: the dashboard's handlers (\<open>internal/web\<close>: \<open>routes_queue.go\<close>,
  \<open>routes_dashboard.go\<close>, \<open>routes_models_install.go\<close>, \<open>routes_models_bench.go\<close>, \<open>routes_runtimes.go\<close>) with their HTTP
  statuses, and the methods of the public API (\<open>mass_connect.go\<close>, \<open>mass_connect_control.go\<close>) with their Connect codes.

  A request is its fields; decoding one, the texts of messages and the rendering of a body are left out. A body that does
  not decode is \<open>None\<close>. 200 and 204 are the successes.
\<close>

subsection \<open>Connect codes\<close>

datatype connect_code = CodeAlreadyExists | CodeInvalidArgument | CodeFailedPrecondition | CodeUnavailable | CodeNotFound | CodeInternal

text \<open>The cases of \<open>connectErr\<close> by the type of error an operation returns.\<close>

definition connectErr_queue :: "cancel_error \<Rightarrow> connect_code" where
  "connectErr_queue e = (case e of
      ErrEvictGlobalRow \<Rightarrow> CodeInvalidArgument
    | ErrRowInFlight \<Rightarrow> CodeFailedPrecondition
    | ErrWorkerGone _ \<Rightarrow> CodeUnavailable
    | ErrUnknownQueue _ \<Rightarrow> CodeNotFound
    | ErrNotInflight _ \<Rightarrow> CodeNotFound
    | _ \<Rightarrow> CodeInternal)"

definition connectErr_runtime :: "runtime_error \<Rightarrow> connect_code" where
  "connectErr_runtime e = (case e of
      ErrRuntimeAlreadyInstalled \<Rightarrow> CodeAlreadyExists | ErrRuntimeNotFound \<Rightarrow> CodeNotFound | _ \<Rightarrow> CodeInternal)"

definition connectErr :: "op_error \<Rightarrow> connect_code" where
  "connectErr e = (case e of
      ErrOpInvalid \<Rightarrow> CodeInvalidArgument
    | ErrOpBusy \<Rightarrow> CodeFailedPrecondition
    | ErrOpUnavailable \<Rightarrow> CodeUnavailable
    | ErrOpNotFound \<Rightarrow> CodeNotFound
    | OpQueue q \<Rightarrow> connectErr_queue q
    | OpRuntime r \<Rightarrow> connectErr_runtime r
    | _ \<Rightarrow> CodeInternal)"

definition connectErr_model :: "model_op_error \<Rightarrow> connect_code" where
  "connectErr_model e = (case e of
      ModelConflict \<Rightarrow> CodeAlreadyExists
    | ModelInvalid \<Rightarrow> CodeInvalidArgument
    | ModelRuntimeDown \<Rightarrow> CodeFailedPrecondition
    | ModelBusy _ \<Rightarrow> CodeFailedPrecondition
    | ModelUnavailable \<Rightarrow> CodeUnavailable
    | _ \<Rightarrow> CodeInternal)"

definition rpc_answer :: "('e \<Rightarrow> connect_code) \<Rightarrow> ('e + 'r) \<times> 'h \<Rightarrow> (connect_code + 'r) \<times> 'h" where
  "rpc_answer code rh = (case rh of (Inl e, h) \<Rightarrow> (Inl (code e), h) | (Inr r, h) \<Rightarrow> (Inr r, h))"

subsection \<open>The public API\<close>

definition CancelQueuedJob_rpc :: "queue_name \<Rightarrow> message_id \<Rightarrow> handler \<Rightarrow> (connect_code + unit) \<times> handler" where
  "CancelQueuedJob_rpc q i h = rpc_answer connectErr (cancelQueuedJob q i h)"

definition CancelRunningJob_rpc :: "bool \<Rightarrow> request_id \<Rightarrow> handler \<Rightarrow> (connect_code + unit) \<times> handler" where
  "CancelRunningJob_rpc sent rid h = rpc_answer connectErr (cancelRunningJob sent rid h)"

definition EvictQueuedJob_rpc :: "queue_name \<Rightarrow> message_id \<Rightarrow> handler \<Rightarrow> (connect_code + unit) \<times> handler" where
  "EvictQueuedJob_rpc q i h = rpc_answer connectErr (evictQueuedJob q i h)"

definition SetWorkerEnabled_rpc :: "toggle_env \<Rightarrow> worker_id \<Rightarrow> bool \<Rightarrow> handler \<Rightarrow> (connect_code + unit) \<times> handler" where
  "SetWorkerEnabled_rpc env w enabled h = rpc_answer connectErr (setWorkerEnabled env w enabled h)"

definition SetWorkerDeviceEnabled_rpc :: "toggle_env \<Rightarrow> worker_id \<Rightarrow> device_id \<Rightarrow> bool \<Rightarrow> handler \<Rightarrow> (connect_code + unit) \<times> handler" where
  "SetWorkerDeviceEnabled_rpc env w i enabled h = rpc_answer connectErr (setWorkerDeviceEnabled env w i enabled h)"

definition EvictInstance_rpc :: "bool \<Rightarrow> worker_id \<Rightarrow> model_id \<Rightarrow> handler \<Rightarrow> (connect_code + unit) \<times> handler" where
  "EvictInstance_rpc unloads w m h = rpc_answer connectErr (evictInstance unloads w m h)"

definition StartRuntime_rpc :: "init_reply option \<Rightarrow> runtime_name \<Rightarrow> handler \<Rightarrow> (connect_code + unit) \<times> handler" where
  "StartRuntime_rpc reply name h = rpc_answer connectErr (startRuntime reply name h)"

definition StopRuntime_rpc :: "runtime_name \<Rightarrow> handler \<Rightarrow> (connect_code + unit) \<times> handler" where
  "StopRuntime_rpc name h = rpc_answer connectErr (stopRuntime name h)"

definition UninstallRuntime_rpc :: "(bytes \<Rightarrow> manifest option) \<Rightarrow> string option \<Rightarrow> runtime_name \<Rightarrow> handler
    \<Rightarrow> (connect_code + unit) \<times> handler" where
  "UninstallRuntime_rpc yaml undo name h = rpc_answer connectErr (uninstallRuntime yaml undo name h)"

definition SetRuntimeAutoStart_rpc :: "runtime_name \<Rightarrow> bool \<Rightarrow> handler \<Rightarrow> (connect_code + unit) \<times> handler" where
  "SetRuntimeAutoStart_rpc name enabled h = rpc_answer connectErr (setRuntimeAutoStart name enabled h)"

definition ListModels_rpc :: "(nat \<Rightarrow> 'g list option) \<Rightarrow> runtime_name \<Rightarrow> handler \<Rightarrow> (connect_code + (runtime_name \<times> 'g) list) \<times> handler" where
  "ListModels_rpc groups rt h = rpc_answer connectErr_model (listModels groups rt h, h)"

definition ImportLocalModel_rpc :: "(string \<Rightarrow> import_source) \<Rightarrow> gateway_error + planned_file list \<Rightarrow> runtime_name \<Rightarrow> string \<Rightarrow> string
    \<Rightarrow> handler \<Rightarrow> (connect_code + string list) \<times> handler" where
  "ImportLocalModel_rpc sources answer rt path name h = rpc_answer connectErr_model (importLocalModel sources answer rt path name h)"

definition ImportRemoteModel_rpc :: "gateway_error + planned_file list \<Rightarrow> runtime_name \<Rightarrow> string \<Rightarrow> string \<Rightarrow> string
    \<Rightarrow> handler \<Rightarrow> (connect_code + string list) \<times> handler" where
  "ImportRemoteModel_rpc answer rt repo filename name h = rpc_answer connectErr_model (importRemoteModel answer rt repo filename name h)"

definition DeleteModel_rpc :: "(string \<Rightarrow> bool) \<Rightarrow> gateway_error + string list \<Rightarrow> runtime_name \<Rightarrow> model_id \<Rightarrow> handler
    \<Rightarrow> (connect_code + string list) \<times> handler" where
  "DeleteModel_rpc removable answer rt i h = rpc_answer connectErr_model (deleteModel removable answer rt i h)"

record daemon_status =
  gs_version :: string
  gs_listen_addr :: string
  gs_runtimes :: nat
  gs_running_runtimes :: nat
  gs_workers :: nat
  gs_online_workers :: nat
  gs_queued :: nat
  gs_running :: nat

text \<open>Queue counters stay zero when the queues cannot be read.\<close>

definition GetStatus :: "string \<Rightarrow> string option \<Rightarrow> handler \<Rightarrow> daemon_status \<times> handler" where
  "GetStatus version listenAddr h =
     (let ris = listRuntimeInfos h; (wis, h) = workerInfos h; (secs, h) = queueSnapshot h;
          qrows = (case secs of Inl _ \<Rightarrow> [] | Inr ss \<Rightarrow> concat (map sec_rows ss))
      in (\<lparr> gs_version = version, gs_listen_addr = (case listenAddr of None \<Rightarrow> '''' | Some a \<Rightarrow> a), gs_runtimes = length ris,
            gs_running_runtimes = length (filter ri_running ris), gs_workers = length wis,
            gs_online_workers = length (filter wi_online wis), gs_queued = length (filter (\<lambda>r. \<not> qr_inflight r) qrows),
            gs_running = length (filter qr_inflight qrows) \<rparr>, h))"

subsection \<open>The Queue tab\<close>

definition queue_cancel_status :: "op_error + unit \<Rightarrow> nat" where
  "queue_cancel_status r = (case r of
      Inr _ \<Rightarrow> 204
    | Inl ErrOpUnavailable \<Rightarrow> 503
    | Inl ErrOpInvalid \<Rightarrow> 400
    | Inl (OpQueue ErrRowInFlight) \<Rightarrow> 409
    | Inl (OpQueue (ErrUnknownQueue _)) \<Rightarrow> 404
    | Inl _ \<Rightarrow> 500)"

definition handleQueueCancel :: "queue_name \<Rightarrow> message_id \<Rightarrow> handler \<Rightarrow> nat \<times> handler" where
  "handleQueueCancel q i h = (case cancelQueuedJob q i h of (r, h) \<Rightarrow> (queue_cancel_status r, h))"

definition handleQueueCancelRunning :: "bool \<Rightarrow> request_id \<Rightarrow> handler \<Rightarrow> nat \<times> handler" where
  "handleQueueCancelRunning sent rid h = (case cancelRunningJob sent rid h of (r, h) \<Rightarrow> (case r of
      Inr _ \<Rightarrow> 204
    | Inl ErrOpUnavailable \<Rightarrow> 503
    | Inl ErrOpInvalid \<Rightarrow> 400
    | Inl (OpQueue (ErrNotInflight _)) \<Rightarrow> 404
    | Inl (OpQueue (ErrWorkerGone _)) \<Rightarrow> 410
    | Inl _ \<Rightarrow> 500, h))"

definition handleQueueEvict :: "queue_name \<Rightarrow> message_id \<Rightarrow> handler \<Rightarrow> nat \<times> handler" where
  "handleQueueEvict q i h = (case evictQueuedJob q i h of (r, h) \<Rightarrow> (case r of
      Inl (OpQueue ErrEvictGlobalRow) \<Rightarrow> 400
    | _ \<Rightarrow> queue_cancel_status r, h))"

record section_view =
  sv_name :: queue_name
  sv_worker :: worker_id
  sv_title :: string
  sv_row_count :: nat
  sv_pending :: nat
  sv_running :: nat
  sv_depth :: seconds
  sv_bench :: "running_bench option"
  sv_rows :: "queue_row list"

definition section_view_of :: "queue_section \<Rightarrow> section_view" where
  "section_view_of sec = \<lparr> sv_name = sec_name sec, sv_worker = sec_worker sec,
     sv_title = (if sec_name sec = ''global'' then ''Global queue'' else if sec_worker sec \<noteq> '''' then sec_worker sec else sec_name sec),
     sv_row_count = length (sec_rows sec), sv_pending = length (filter (\<lambda>r. \<not> qr_inflight r) (sec_rows sec)),
     sv_running = length (filter qr_inflight (sec_rows sec)), sv_depth = sec_depth sec, sv_bench = sec_bench sec,
     sv_rows = sec_rows sec \<rparr>"

definition buildQueueSectionViews :: "queue_section list \<Rightarrow> section_view list" where
  "buildQueueSectionViews = map section_view_of"

definition handleQueueList :: "handler \<Rightarrow> (nat + section_view list) \<times> handler" where
  "handleQueueList h = (case queueSnapshot h of
      (Inl ErrOpUnavailable, h) \<Rightarrow> (Inl 503, h)
    | (Inl _, h) \<Rightarrow> (Inl 500, h)
    | (Inr secs, h) \<Rightarrow> (Inr (buildQueueSectionViews secs), h))"

subsection \<open>The Workers and Scheduler tabs\<close>

definition respondWorkerToggle :: "op_error + unit \<Rightarrow> nat" where
  "respondWorkerToggle r = (case r of
      Inr _ \<Rightarrow> 204
    | Inl ErrOpUnavailable \<Rightarrow> 503
    | Inl ErrOpInvalid \<Rightarrow> 400
    | Inl ErrOpNotFound \<Rightarrow> 404
    | Inl ErrOpBusy \<Rightarrow> 409
    | Inl _ \<Rightarrow> 500)"

definition handleToggleDevice :: "toggle_env \<Rightarrow> worker_id \<Rightarrow> device_id \<Rightarrow> handler \<Rightarrow> nat \<times> handler" where
  "handleToggleDevice env w i h = (case deviceEnabled w i h of
     (b, h) \<Rightarrow> case setWorkerDeviceEnabled env w i (\<not> b) h of (r, h) \<Rightarrow> (respondWorkerToggle r, h))"

definition handleToggleWorker :: "toggle_env \<Rightarrow> worker_id \<Rightarrow> handler \<Rightarrow> nat \<times> handler" where
  "handleToggleWorker env w h =
     (if \<not> hd_has_workers h \<or> \<not> hd_has_store h then (503, h)
      else if w = '''' then (400, h)
      else case Get_worker w (sc_fleet (hd_sched h)) of
          None \<Rightarrow> (404, h)
        | Some sw \<Rightarrow> (case workerAnyEnabled w (w_devices sw) h of
            (b, h) \<Rightarrow> case setWorkerEnabled env w (\<not> b) h of (r, h) \<Rightarrow> (respondWorkerToggle r, h)))"

definition handleRevokeWorker :: "worker_id \<Rightarrow> handler \<Rightarrow> nat \<times> handler" where
  "handleRevokeWorker w h = (case revokeWorker w h of (r, h) \<Rightarrow> (respondWorkerToggle r, h))"

definition handleSchedulerEvict :: "bool \<Rightarrow> worker_id \<Rightarrow> model_id \<Rightarrow> handler \<Rightarrow> nat \<times> handler" where
  "handleSchedulerEvict unloads w m h =
     (if \<not> hd_has_orch h then (503, h)
      else case evictInstance unloads w m h of (r, h) \<Rightarrow> (case r of
          Inr _ \<Rightarrow> 204 | Inl ErrOpInvalid \<Rightarrow> 400 | Inl ErrOpNotFound \<Rightarrow> 404 | Inl _ \<Rightarrow> 500, h))"

subsection \<open>The Models tab\<close>

definition modelOpHTTPStatus :: "model_op_error \<Rightarrow> nat" where
  "modelOpHTTPStatus e = (case e of
      ModelConflict \<Rightarrow> 409 | ModelBusy _ \<Rightarrow> 409 | ModelInvalid \<Rightarrow> 400 | ModelRuntimeDown \<Rightarrow> 400 | ModelUnavailable \<Rightarrow> 503
    | _ \<Rightarrow> 500)"

definition handleImportLocalModel :: "(string \<Rightarrow> import_source) \<Rightarrow> gateway_error + planned_file list
    \<Rightarrow> (runtime_name \<times> string \<times> string) option \<Rightarrow> handler \<Rightarrow> (nat + string list) \<times> handler" where
  "handleImportLocalModel sources answer req h = (case req of
      None \<Rightarrow> (Inl 400, h)
    | Some (rt, path, name) \<Rightarrow> (case importLocalModel sources answer rt path name h of
        (Inl e, h) \<Rightarrow> (Inl (modelOpHTTPStatus e), h) | (Inr rels, h) \<Rightarrow> (Inr rels, h)))"

definition handleDeleteModel :: "(string \<Rightarrow> bool) \<Rightarrow> gateway_error + string list \<Rightarrow> (runtime_name \<times> model_id) option \<Rightarrow> handler
    \<Rightarrow> nat \<times> handler" where
  "handleDeleteModel removable answer req h = (case req of
      None \<Rightarrow> (400, h)
    | Some (rt, i) \<Rightarrow> (case deleteModel removable answer rt i h of
        (Inl e, h) \<Rightarrow> (modelOpHTTPStatus e, h) | (Inr _, h) \<Rightarrow> (204, h)))"

text \<open>The download actions. The manager's calls are cut into parts that interleave with others (\<open>Downloads\<close>); the argument is
  one such call run to its end, with what it answers. A call that panics does not return.\<close>

type_synonym download_call = "string \<Rightarrow> dl_manager \<Rightarrow> (dl_error + unit) \<times> dl_manager"

definition download_action :: "string \<Rightarrow> (dl_error \<Rightarrow> nat) \<Rightarrow> download_call \<Rightarrow> string option \<Rightarrow> handler \<Rightarrow> nat \<times> handler" where
  "download_action action code call req h =
     (if \<not> hd_has_downloads h then (503, h)
      else case req of
          None \<Rightarrow> (400, h)
        | Some rel \<Rightarrow> (case call rel (hd_downloads h) of
              (Inl e, m) \<Rightarrow> (code e, h\<lparr>hd_downloads := m\<rparr>)
            | (Inr _, m) \<Rightarrow> (204, audit action rel OutcomeOK (h\<lparr>hd_downloads := m\<rparr>))))"

definition handleDownloadPause :: "download_call \<Rightarrow> string option \<Rightarrow> handler \<Rightarrow> nat \<times> handler" where
  "handleDownloadPause = download_action ''download.paused'' (\<lambda>e. if e = ErrNotFound then 404 else 500)"

definition handleDownloadResume :: "download_call \<Rightarrow> string option \<Rightarrow> handler \<Rightarrow> nat \<times> handler" where
  "handleDownloadResume = download_action ''download.resumed''
     (\<lambda>e. if e = ErrNotFound then 404 else if e = ErrNotPaused then 400 else 500)"

definition handleDownloadCancel :: "download_call \<Rightarrow> string option \<Rightarrow> handler \<Rightarrow> nat \<times> handler" where
  "handleDownloadCancel = download_action ''download.cancelled'' (\<lambda>e. if e = ErrNotFound then 404 else 500)"

text \<open>The names of the groups on every running gateway, each once; \<open>groups\<close> is what a gateway answers. Names that differ
  only in case may come in any order; here they keep the order of their appearance.\<close>

definition handleListGroupNames :: "(string \<Rightarrow> string) \<Rightarrow> (nat \<Rightarrow> string list option) \<Rightarrow> handler \<Rightarrow> string list" where
  "handleListGroupNames lower groups h =
     (if \<not> hd_has_runtimes h then []
      else sort_key lower (remdups (filter (\<lambda>n. n \<noteq> '''') (map TrimSpace
        (concat (map (\<lambda>g. case groups g of None \<Rightarrow> [] | Some ns \<Rightarrow> ns) (RunningGateways (hd_runtimes h))))))))"

definition handleRenameGroup :: "gateway_code option option \<Rightarrow> (runtime_name \<times> string \<times> string) option \<Rightarrow> handler \<Rightarrow> nat \<times> handler" where
  "handleRenameGroup answer req h = (case req of
      None \<Rightarrow> (400, h)
    | Some (rt, i, newName) \<Rightarrow>
        if TrimSpace rt = '''' \<or> TrimSpace i = '''' \<or> TrimSpace newName = '''' then (400, h)
        else case LoadedGatewayFor rt (hd_runtimes h) of
            Inl _ \<Rightarrow> (400, h)
          | Inr _ \<Rightarrow> (case answer of
              Some (Some GwNotFound) \<Rightarrow> (404, h)
            | Some (Some GwAlreadyExists) \<Rightarrow> (409, h)
            | Some _ \<Rightarrow> (500, h)
            | None \<Rightarrow> (204, audit ''group.renamed'' i OutcomeOK (h\<lparr>hd_runtimes := fireStateChange rt (hd_runtimes h)\<rparr>))))"

definition handleModelRebench :: "(runtime_name \<Rightarrow> string + bench_model list) \<Rightarrow> runtime_name \<Rightarrow> model_id \<Rightarrow> handler
    \<Rightarrow> (nat + bench_view) \<times> handler" where
  "handleModelRebench catalogue rt key h =
     (if \<not> hd_has_orch h then (Inl 503, h)
      else if rt = '''' \<or> key = '''' then (Inl 400, h)
      else case RebenchModel rt key catalogue (hd_bench h, hd_sched h) of (err, b, s) \<Rightarrow>
        let h = h\<lparr>hd_bench := b, hd_sched := s\<rparr> in
        if err \<noteq> None then (Inl 500, h)
        else case modelBenchView rt key (audit ''model.rebenched'' key OutcomeOK h) of (v, h) \<Rightarrow> (Inr v, h))"

subsection \<open>The Runtimes tab\<close>

definition runtime_status :: "(runtime_error \<Rightarrow> nat) \<Rightarrow> op_error + unit \<Rightarrow> nat" where
  "runtime_status code r = (case r of Inr _ \<Rightarrow> 200 | Inl (OpRuntime e) \<Rightarrow> code e | Inl _ \<Rightarrow> 500)"

definition handleStartRuntime :: "init_reply option \<Rightarrow> runtime_name \<Rightarrow> handler \<Rightarrow> nat \<times> handler" where
  "handleStartRuntime reply name h =
     (if \<not> hd_has_runtimes h then (503, h)
      else case startRuntime reply name h of (r, h) \<Rightarrow>
        (runtime_status (\<lambda>e. if e = ErrRuntimeNotFound then 404 else 500) r, h))"

definition handleStopRuntime :: "runtime_name \<Rightarrow> handler \<Rightarrow> nat \<times> handler" where
  "handleStopRuntime name h =
     (if \<not> hd_has_runtimes h then (503, h)
      else case stopRuntime name h of (r, h) \<Rightarrow> (runtime_status (\<lambda>_. 500) r, h))"

definition handleUninstallRuntime :: "(bytes \<Rightarrow> manifest option) \<Rightarrow> string option \<Rightarrow> runtime_name \<Rightarrow> handler \<Rightarrow> nat \<times> handler" where
  "handleUninstallRuntime yaml undo name h =
     (if \<not> hd_has_runtimes h then (503, h)
      else case uninstallRuntime yaml undo name h of (r, h) \<Rightarrow> (runtime_status (\<lambda>_. 500) r, h))"

definition RegistryPageSize :: int where "RegistryPageSize = 5"

definition withDefaults :: "int \<Rightarrow> int" where
  "withDefaults limit = (if limit \<le> 0 then RegistryPageSize else limit)"

definition windowRows :: "'a list \<Rightarrow> int \<Rightarrow> int \<Rightarrow> 'a list \<times> int" where
  "windowRows xs limit pageSize = (if int (length xs) \<le> limit then (xs, 0) else (take (nat limit) xs, limit + pageSize))"

record registry_row =
  rr_package :: string
  rr_display_name :: string
  rr_text :: string
  rr_row_version :: string
  rr_runtime_name :: runtime_name
  rr_installable :: bool
  rr_is_installed :: bool
  rr_incompatible :: nat

definition registry_row_of :: "('v, 'c) semver_lib \<Rightarrow> cached_index \<Rightarrow> handler \<Rightarrow> package_view \<Rightarrow> registry_row" where
  "registry_row_of sv cache h p =
     (let installed = map (\<lambda>ri. (ri_name ri, ri_version ri)) (listRuntimeInfos h);
          version = (if pw_installable p \<noteq> '''' then pw_installable p
            else case newestListedVersion (pw_versions p) of None \<Rightarrow> '''' | Some v \<Rightarrow> v)
      in \<lparr> rr_package = pw_name p, rr_display_name = pw_display p, rr_text = pw_description p, rr_row_version = version,
           rr_runtime_name = pw_runtime p, rr_installable = (pw_installable p \<noteq> ''''),
           rr_is_installed = (map_of installed (pw_runtime p) \<noteq> None),
           rr_incompatible = (case (cache, map_of installed (pw_runtime p)) of
               (Cached idx, Some v) \<Rightarrow>
                 if version \<noteq> '''' \<and> isNewerVersion sv version v
                 then countIncompatibleWorkers (semver.truncate sv) idx (fleetPairings h) (pw_runtime p) version else 0
             | _ \<Rightarrow> 0) \<rparr>)"

definition registryPackageViews :: "('v, 'c) semver_lib \<Rightarrow> cached_index \<Rightarrow> handler \<Rightarrow> package_view list \<Rightarrow> registry_row list" where
  "registryPackageViews sv cache h pkgs = map (registry_row_of sv cache h) (filter (\<lambda>p. pw_kind p = registryRuntimeKind) pkgs)"

subsection \<open>The two transports agree\<close>

text \<open>The HTTP status that stands for a Connect code, and the HTTP answer that stands for an API answer.\<close>

definition http_code :: "connect_code \<Rightarrow> nat" where
  "http_code c = (case c of
      CodeAlreadyExists \<Rightarrow> 409 | CodeInvalidArgument \<Rightarrow> 400 | CodeFailedPrecondition \<Rightarrow> 409
    | CodeUnavailable \<Rightarrow> 503 | CodeNotFound \<Rightarrow> 404 | CodeInternal \<Rightarrow> 500)"

definition http_answer :: "(connect_code + 'r) \<times> handler \<Rightarrow> nat \<times> handler" where
  "http_answer rh = (case rh of (Inl c, h) \<Rightarrow> (http_code c, h) | (Inr _, h) \<Rightarrow> (204, h))"

text \<open>Which errors each queue operation can end in.\<close>

definition row_error :: "cancel_error \<Rightarrow> bool" where
  "row_error e = (case e of ErrWorkerGone _ \<Rightarrow> False | ErrNotInflight _ \<Rightarrow> False | ErrEvictGlobalRow \<Rightarrow> False | _ \<Rightarrow> True)"

definition running_error :: "cancel_error \<Rightarrow> bool" where
  "running_error e = (case e of ErrWorkerGone _ \<Rightarrow> True | ErrNotInflight _ \<Rightarrow> True | MissingWorkerID \<Rightarrow> True | CancelSendFailed \<Rightarrow> True | _ \<Rightarrow> False)"

definition toggle_error :: "op_error \<Rightarrow> bool" where
  "toggle_error e = (case e of OpQueue _ \<Rightarrow> False | OpRuntime _ \<Rightarrow> False | _ \<Rightarrow> True)"

lemma row_cancel_errors:
  "cancelGlobal i s = (Inl e, s') \<Longrightarrow> row_error e" "cancelWorkerQueue q i s = (Inl e, s') \<Longrightarrow> row_error e"
  by (auto simp: cancelGlobal_def cancelWorkerQueue_def Let_def row_error_def split: sum.splits option.splits prod.splits)

lemma CancelQueuedRow_errors:
  assumes "CancelQueuedRow q i s = (Inl e, s')" shows "row_error e"
proof -
  from assms have "e = CancelNotInitialised \<or> e = ErrUnknownQueue q \<or> cancelGlobal i s = (Inl e, s') \<or> cancelWorkerQueue q i s = (Inl e, s')"
    by (auto simp: CancelQueuedRow_def split: if_splits)
  then show ?thesis using row_cancel_errors by (elim disjE) (simp_all add: row_error_def)
qed

lemma EvictQueuedRowToGlobal_errors: "EvictQueuedRowToGlobal q i s = (Inl e, s') \<Longrightarrow> row_error e \<or> e = ErrEvictGlobalRow"
  by (auto simp: EvictQueuedRowToGlobal_def row_error_def split: if_splits sum.splits option.splits prod.splits)

lemma CancelRunningJob_errors: "CancelRunningJob sent rid s = (Inl e, s') \<Longrightarrow> running_error e"
  by (auto simp: CancelRunningJob_def running_error_def split: if_splits sum.splits option.splits prod.splits)

lemma setWorkerDeviceEnabled_errors: "setWorkerDeviceEnabled env w i b h = (Inl e, h') \<Longrightarrow> toggle_error e"
  by (auto simp: setWorkerDeviceEnabled_def Let_def toggle_error_def split: if_splits option.splits prod.splits bool.splits sum.splits)

lemmas answer_defs = rpc_answer_def http_answer_def connectErr_def connectErr_queue_def http_code_def queue_cancel_status_def
  respondWorkerToggle_def connectErr_model_def modelOpHTTPStatus_def

lemmas queue_op_defs = on_sched_def audited_removal_def cancelQueuedJob_def evictQueuedJob_def cancelRunningJob_def
  handleQueueCancel_def CancelQueuedJob_rpc_def handleQueueEvict_def EvictQueuedJob_rpc_def
  handleQueueCancelRunning_def CancelRunningJob_rpc_def

lemma cancel_transport: "handleQueueCancel q i h = http_answer (CancelQueuedJob_rpc q i h)"
proof -
  obtain r s where c: "CancelQueuedRow q i (hd_sched h) = (r, s)" by fastforce
  show ?thesis
  proof (cases r)
    case (Inl e)
    with c have "row_error e" by (auto dest: CancelQueuedRow_errors)
    with c Inl show ?thesis by (cases e) (auto simp: queue_op_defs answer_defs row_error_def)
  qed (use c in \<open>auto simp: queue_op_defs answer_defs\<close>)
qed

lemma evict_transport: "handleQueueEvict q i h = http_answer (EvictQueuedJob_rpc q i h)"
proof -
  obtain r s where c: "EvictQueuedRowToGlobal q i (hd_sched h) = (r, s)" by fastforce
  show ?thesis
  proof (cases r)
    case (Inl e)
    with c have "row_error e \<or> e = ErrEvictGlobalRow" by (auto dest: EvictQueuedRowToGlobal_errors)
    with c Inl show ?thesis by (cases e) (auto simp: queue_op_defs answer_defs row_error_def)
  qed (use c in \<open>auto simp: queue_op_defs answer_defs\<close>)
qed

lemma running_transport:
  "handleQueueCancelRunning sent rid h = (case cancelRunningJob sent rid h of
     (Inl (OpQueue (ErrWorkerGone _)), h') \<Rightarrow> (410, h') | _ \<Rightarrow> http_answer (CancelRunningJob_rpc sent rid h))"
proof -
  obtain r s where c: "CancelRunningJob sent rid (hd_sched h) = (r, s)" by fastforce
  show ?thesis
  proof (cases r)
    case (Inl e)
    with c have "running_error e" by (auto dest: CancelRunningJob_errors)
    with c Inl show ?thesis by (cases e) (auto simp: queue_op_defs answer_defs running_error_def)
  qed (use c in \<open>auto simp: queue_op_defs answer_defs\<close>)
qed

lemma device_transport:
  "handleToggleDevice env w i h = (case deviceEnabled w i h of (b, h1) \<Rightarrow> http_answer (SetWorkerDeviceEnabled_rpc env w i (\<not> b) h1))"
proof -
  obtain b h1 where d: "deviceEnabled w i h = (b, h1)" by fastforce
  obtain r h2 where s: "setWorkerDeviceEnabled env w i (\<not> b) h1 = (r, h2)" by fastforce
  show ?thesis
  proof (cases r)
    case (Inl e)
    with s have "toggle_error e" by (auto dest: setWorkerDeviceEnabled_errors)
    with s d Inl show ?thesis
      by (cases e) (simp_all add: handleToggleDevice_def SetWorkerDeviceEnabled_rpc_def answer_defs toggle_error_def)
  qed (use d s in \<open>simp add: handleToggleDevice_def SetWorkerDeviceEnabled_rpc_def answer_defs\<close>)
qed

lemma delete_transport:
  "handleDeleteModel removable answer (Some (rt, i)) h = (case deleteModel removable answer rt i h of
     (Inl ModelRuntimeDown, h') \<Rightarrow> (400, h') | _ \<Rightarrow> http_answer (DeleteModel_rpc removable answer rt i h))"
  by (auto simp: handleDeleteModel_def DeleteModel_rpc_def answer_defs split: prod.splits sum.splits model_op_error.splits)

text \<open>C33. The dashboard and the public API do the same: for the same arguments, cancelling a queued job, sending it back to
  the global queue, toggling a device (after reading its switch), cancelling a running job and deleting a model leave the
  same state, and the HTTP status is the one that stands for the Connect code, for every error the operations can end in,
  with two exceptions: a running job whose worker is gone answers 410 where the API says Unavailable, and a model whose
  runtime is down answers 400 where the API says FailedPrecondition.\<close>

theorem transports_agree:
  "handleQueueCancel q i h = http_answer (CancelQueuedJob_rpc q i h)
   \<and> handleQueueEvict q i h = http_answer (EvictQueuedJob_rpc q i h)
   \<and> handleToggleDevice env w d h = (case deviceEnabled w d h of
        (b, h1) \<Rightarrow> http_answer (SetWorkerDeviceEnabled_rpc env w d (\<not> b) h1))
   \<and> handleQueueCancelRunning sent rid h = (case cancelRunningJob sent rid h of
        (Inl (OpQueue (ErrWorkerGone _)), h') \<Rightarrow> (410, h') | _ \<Rightarrow> http_answer (CancelRunningJob_rpc sent rid h))
   \<and> handleDeleteModel removable answer (Some (rt, m)) h = (case deleteModel removable answer rt m h of
        (Inl ModelRuntimeDown, h') \<Rightarrow> (400, h') | _ \<Rightarrow> http_answer (DeleteModel_rpc removable answer rt m h))"
  by (intro conjI cancel_transport evict_transport device_transport running_transport delete_transport)

end
