(* ===== verification/Spec2Isabelle.thy ===== *)
theory Spec2Isabelle
  imports Queue_Laws Config Store Worker Progress Bench Hub Download_Safety Web_Lifetime Compat Runtime_Safety Toggle_Safety
    Registry_Safety Update Gateway_Service Launcher Web_Routes Local_Install Http_Api
begin

text \<open>
  A verification development of MASS, a model-serving daemon: a hub that accepts jobs from runtime gateways, queues them
  durably, places each one on the worker expected to finish it soonest, and relays the worker's stream back. This theory
  imports every other one and holds no definitions; paths below are relative to the repository's root, and \<open>X.go\<close>
  without a path is a file of the directory named last.

  \<^bold>\<open>The program.\<close> A gateway submits a job; \<open>Submit\<close> writes a pending result and an anchor row on the global queue.
  \<open>placeOnWorkerQueue\<close> appends a row to the queue of the best pair of a worker and its enabled devices and charges the
  queue's tail; the dispatcher leases the head of a worker queue, loads the model where needed, assigns the job and
  starts a pump that copies the worker's chunks into a replay buffer and, at the end, into the durable result, and then
  deletes both rows. Workers enroll and connect over a stream (the hub); a disconnect drains the worker's queue back to
  the anchors. A restart recovers everything from the database. The benchmark orchestrator measures a model on every
  eligible worker before placement may use its numbers. Beside the scheduler, the daemon downloads model files, installs
  and runs gateway packages, and serves a dashboard behind a password.

  \<^bold>\<open>Theories and sources.\<close>
  \<^item> \<open>internal/queue\<close>: \<open>Envelope\<close> (the wire format of a job), \<open>Database\<close> (the tables, the faults of statements, the
    interface of the goqite library as the locale \<open>goqite_api\<close>), \<open>Queue\<close> (\<open>queue.go\<close>), \<open>Queue_Laws\<close> (what the queue
    promises), \<open>Results\<close> (\<open>results.go\<close>), \<open>Sweeper\<close> (\<open>sweeper.go\<close>).
  \<^item> \<open>internal/store\<close>: \<open>Store\<close> (queue tails, benchmarks, device toggles); the tables of workers, join tokens, downloads
    and runtimes stand with the components that own them.
  \<^item> \<open>internal/scheduler\<close>: \<open>Stream_Buffer\<close> (\<open>stream_buffer.go\<close>); \<open>Sched_State\<close> (the struct \<open>Scheduler\<close> as the record
    \<open>sched\<close>, which extends the database), \<open>Ledger\<close> (tail mirror, in-flight ledger, drain slots), \<open>Placement\<close> (scoring and
    \<open>model_bench.go\<close>), \<open>Submission\<close>, \<open>Lifecycle\<close>, \<open>Dispatch\<close> (the parts of \<open>scheduler.go\<close> in the order of a job's life),
    \<open>Queue_View\<close> (\<open>queue_view.go\<close>), \<open>Bench\<close> (\<open>bench_orchestrator.go\<close>). \<open>Safety\<close> states the invariant between queues,
    results and buffers; \<open>System\<close> composes all handlers and goroutines into one step relation on worlds; \<open>Admission\<close>,
    \<open>Outcomes\<close>, \<open>Budgets\<close>, \<open>Control\<close> and \<open>Progress\<close> hold what the operations achieve.
  \<^item> \<open>internal/worker\<close>: \<open>Worker\<close> (\<open>stream_worker.go\<close>, \<open>fleet.go\<close>, \<open>enabled_devices.go\<close>), \<open>Credentials\<close>
    (\<open>credentials.go\<close>, \<open>enroll.go\<close> and their tables), \<open>Hub\<close> (\<open>hub.go\<close>).
  \<^item> \<open>pkg/download\<close>, \<open>internal/downloads\<close>, \<open>internal/modelscan\<close>: \<open>Fetch\<close> (one resumable transfer), \<open>Paths\<close> (the path check,
    the overlap test, the scan), \<open>Downloads\<close> (\<open>manager.go\<close>) and \<open>Download_Safety\<close>.
  \<^item> \<open>internal/runtimes\<close>: \<open>Runtimes\<close> (\<open>runtimes.go\<close>, the launch in \<open>gateway.go\<close>) and \<open>Runtime_Safety\<close>;
    \<open>Gateway_Service\<close> (\<open>scheduler_service.go\<close>, what a gateway may ask the hub, and \<open>bench_provider.go\<close>).
  \<^item> \<open>internal/web\<close>: \<open>Web_Gates\<close> (\<open>auth.go\<close>, \<open>session.go\<close>, login), \<open>Web_Lifetime\<close> (\<open>idle.go\<close>, \<open>artifactcache.go\<close>,
    \<open>broker.go\<close>, \<open>internal/jitter\<close>), \<open>Compat\<close> (\<open>compat.go\<close>), \<open>Operations\<close> (\<open>workerops.go\<close>, \<open>schedulerops.go\<close>, \<open>queueops.go\<close>,
    \<open>runtimeops.go\<close>, \<open>modelops.go\<close>, with the closures of \<open>cmd/mass/serve.go\<close> that answer the scheduler's questions about
    toggles), \<open>Operation_Safety\<close>, \<open>Toggle_Safety\<close>, \<open>Registry\<close> and \<open>Registry_Safety\<close> (\<open>registryops.go\<close>, \<open>themeops.go\<close>),
    \<open>Update\<close> (\<open>update.go\<close>), \<open>Web_Proxy\<close> and \<open>Web_Routes\<close> (the runtime proxy and the route table of \<open>handler.go\<close>, behind
    the middleware of \<open>auth.go\<close>), \<open>Local_Install\<close> (\<open>installlocalworker.go\<close>, \<open>routes_setup.go\<close>), \<open>Models_View\<close>
    (\<open>routes_models_stream.go\<close>, \<open>routes_models_bench.go\<close>), \<open>Http_Api\<close> (the handlers of \<open>routes_queue.go\<close>,
    \<open>routes_dashboard.go\<close>, \<open>routes_models_install.go\<close>, \<open>routes_runtimes.go\<close> that run an operation, and the methods of
    \<open>mass_connect.go\<close> and \<open>mass_connect_control.go\<close>).
  \<^item> \<open>cmd/mass\<close>: \<open>Launcher\<close> (\<open>launch.go\<close>, with the daemon's side in \<open>internal/web/daemonctl.go\<close>); the choice of the
    operator's token at start (\<open>serve.go\<close>) is in \<open>Listen\<close>.
  \<^item> \<open>internal/config\<close>: \<open>Config\<close>, and \<open>Listen\<close> for the addresses and the saving of settings. \<open>Mass_Prelude\<close> holds the shared types, fallible results, Go maps and table updates.

  \<^bold>\<open>State and operations.\<close> A Go method becomes a function on the record of its receiver's state which returns the answer
  and the new state; an error is \<open>Inl\<close> of a datatype of the errors that callers tell apart. A map that is iterated is an
  association list, so the iteration order is any order of that list. An operation that blocks or gives up a lock is cut
  there; what its stack frame holds between two parts is a record, and the parts of several goroutines interleave
  (\<open>thread\<close> in \<open>System\<close>, \<open>pending\<close> in \<open>Downloads\<close>, \<open>bench_step\<close> in \<open>Bench\<close>). What the outside answers (the network,
  workers, files, uuids, random bytes, bcrypt, clocks, semver and YAML parsers) is an argument of the part that receives
  the answer. Statements of a database take their outcome from a stream of faults that is part of the state.

  \<^bold>\<open>What the lemmas show.\<close> \<open>Queue_Laws\<close>: at most one delivery, order and completeness of a peek, conservation by moves.
  \<open>Safety\<close> to \<open>System\<close>: each handler and each step keeps the invariant \<open>safe\<close>, so no accepted job is lost in any
  reachable world, crashes included; \<open>Admission\<close>: every step of a world is a step of an abstract ledger of jobs.
  \<open>Ledger\<close>: the mirror of the tails agrees with the table, and the in-flight ledger counts exactly what is dispatched.
  \<open>Placement\<close>: pool sizes stay inside the memory budgets and the chosen queue is a cheapest candidate. \<open>Outcomes\<close>,
  \<open>Budgets\<close>, \<open>Control\<close>, \<open>Progress\<close>: the answer and effect of the pump, of cancels, of drains and steals on every branch,
  and that requeueing ends. \<open>Bench\<close>: every question is asked once and the verdict is the one the code means. \<open>Hub\<close>,
  \<open>Credentials\<close>: who gets in, and what a revocation does. \<open>Fetch\<close>, \<open>Download_Safety\<close>, \<open>Runtime_Safety\<close>: byte-exact
  transfers, nothing written or deleted outside the models directory or a valid runtime's directory.
  \<open>Operation_Safety\<close>, \<open>Toggle_Safety\<close>: a model is not deleted under a queued job, and after a toggle the worker, the
  scheduler and the rows agree. \<open>Registry_Safety\<close>: which packages are offered, and that an ambiguous choice of worker is
  never made silently. \<open>Update\<close>: the gate predicts exactly which workers the hub would refuse. \<open>Gateway_Service\<close>: the
  outcome of a batch of downloads, and the key of a model. \<open>Launcher\<close>: no daemon is spawned beside one that answers.
  \<open>Web_Proxy\<close>: requests and answers pass unchanged. \<open>Web_Routes\<close>: without the token or a session a request reaches only
  the public endpoints, however its path is written. \<open>Local_Install\<close>: when the installer runs, and with which token.
  \<open>Models_View\<close>: the page shows the merge of the catalogues after any history of patches. \<open>Http_Api\<close>: the dashboard and
  the API leave the same state and answer alike, but for two statuses.

  \<^bold>\<open>Bounds.\<close> \<open>queuePeekLimit\<close> and the limit 256 of \<open>peekAllLimit\<close> are the code's. The only fuel is that of
  \<open>all_space_fuel\<close>, the length of the string, of which every turn consumes a character. Retries of a transfer are a
  recursion over at most eleven attempts, as the code clamps them. All other loops run over lists.

  \<^bold>\<open>Assumptions.\<close> A \<open>float64\<close> is a \<open>rat\<close>, exact and without NaN; on the wire it is its bit pattern. The driver of the
  queue keeps the contract \<open>goqite_ok\<close>, which a reference driver satisfies. In \<open>safe\<close> the result store does not fail,
  while the queue and the state store may fail at any statement; where a failing result store matters the lemma says so.
  A crash falls between two atomic parts. \<open>System\<close> allows more behaviours than the code has (loops take their rows in any
  order, an operation may run with any snapshot of a worker), so what it excludes the code excludes. One transfer moves
  its bytes in one step, removing a local model is one step, directories are implicit, and the host is a Unix one.

  \<^bold>\<open>Not modelled.\<close> Rendering (\<open>internal/web/templates\<close>), decoding a request, the event streams and the file browser of the
  dashboard; the transport and the generated messages of the RPC services; opening, migrating and quoting for a database
  (\<open>store.go\<close>, \<open>dialect.go\<close>); parsing the command line, the setup wizard and the packer (\<open>cmd\<close>); system probes
  (\<open>pkg/stats\<close>), metrics, audit, TLS, icons and the process and window control of the host. They hold no state of their
  own beyond what the modelled components keep, or are calls into the host that have no content to state.
\<close>

end
